(* ===== verification/Prelude.thy ===== *)
theory Prelude
  imports Complex_Main "HOL-Library.Sublist"
begin

text \<open>
  Shared vocabulary of the development: the lemma collections the component
  theories feed, the JavaScript string operations the compiler's sources use
  (\<^verbatim>\<open>startsWith\<close>, \<^verbatim>\<open>includes\<close>, \<^verbatim>\<open>join\<close>), association lists that
  behave like JavaScript's insertion-ordered \<^verbatim>\<open>Map\<close>, and a few generic list
  facts.
\<close>

named_theorems gamma_intros \<open>membership rules of the abstract number domain\<close>
named_theorems js_eval \<open>equations that evaluate the JavaScript primitives on closed terms\<close>

section \<open>JavaScript strings\<close>

text \<open>A string is a list of code units. The sources only look at ASCII text, which an
  8-bit \<^typ>\<open>char\<close> represents directly.\<close>

definition startsWith :: "string \<Rightarrow> string \<Rightarrow> bool" where
  "startsWith s p = prefix p s"

definition str_includes :: "string \<Rightarrow> string \<Rightarrow> bool" where
  "str_includes s p = sublist p s"

lemma startsWith_code [code, js_eval]:
  "startsWith s [] = True"
  "startsWith [] (c # p) = False"
  "startsWith (d # s) (c # p) = (c = d \<and> startsWith s p)"
  by (auto simp: startsWith_def)

lemma startsWith_append [simp]: "startsWith (p @ s) p"
  by (simp add: startsWith_def)

lemma startsWith_iff: "startsWith s p \<longleftrightarrow> (\<exists>t. s = p @ t)"
  by (auto simp: startsWith_def prefix_def)

lemma str_includes_code [code, js_eval]:
  "str_includes [] p = (p = [])"
  "str_includes (d # s) p = (startsWith (d # s) p \<or> str_includes s p)"
  by (auto simp: str_includes_def startsWith_def sublist_Cons_right)

fun joinWith :: "string \<Rightarrow> string list \<Rightarrow> string" where
  "joinWith sep [] = []"
| "joinWith sep [x] = x"
| "joinWith sep (x # y # ys) = x @ sep @ joinWith sep (y # ys)"

text \<open>\<^verbatim>\<open>s.split(sep)\<close> for a one-character separator.\<close>

fun splitOn :: "char \<Rightarrow> string \<Rightarrow> string list" where
  "splitOn sep [] = [[]]"
| "splitOn sep (c # cs) = (if c = sep then [] # splitOn sep cs
     else case splitOn sep cs of [] \<Rightarrow> [[c]] | w # ws \<Rightarrow> (c # w) # ws)"

lemma splitOn_free: "sep \<notin> set w \<Longrightarrow> splitOn sep w = [w]"
  by (induction w) auto

lemma splitOn_word: "sep \<notin> set w \<Longrightarrow> splitOn sep (w @ sep # s) = w # splitOn sep s"
  by (induction w) auto

lemma splitOn_joinWith:
  "ws \<noteq> [] \<Longrightarrow> \<forall>w\<in>set ws. sep \<notin> set w \<Longrightarrow> splitOn sep (joinWith [sep] ws) = ws"
  by (induction "[sep]" ws rule: joinWith.induct) (auto simp: splitOn_free splitOn_word)

text \<open>Diagnostic texts put names in single quotes.\<close>

definition squote :: "string \<Rightarrow> string" where
  "squote s = CHR 0x27 # s @ [CHR 0x27]"

section \<open>Insertion-ordered maps\<close>

text \<open>A JavaScript \<^verbatim>\<open>Map\<close> iterates in insertion order, and \<^verbatim>\<open>set\<close> on a present key
  keeps its place. Association lists with distinct keys have exactly that behaviour.\<close>

type_synonym ('k, 'v) jsmap = "('k \<times> 'v) list"

fun jm_get :: "('k, 'v) jsmap \<Rightarrow> 'k \<Rightarrow> 'v option" where
  "jm_get [] k = None"
| "jm_get ((k', v) # m) k = (if k' = k then Some v else jm_get m k)"

fun jm_set :: "('k, 'v) jsmap \<Rightarrow> 'k \<Rightarrow> 'v \<Rightarrow> ('k, 'v) jsmap" where
  "jm_set [] k v = [(k, v)]"
| "jm_set ((k', v') # m) k v = (if k' = k then (k, v) # m else (k', v') # jm_set m k v)"

definition jm_delete :: "('k, 'v) jsmap \<Rightarrow> 'k \<Rightarrow> ('k, 'v) jsmap" where
  "jm_delete m k = filter (\<lambda>kv. fst kv \<noteq> k) m"

definition jm_deleteIf :: "('k \<Rightarrow> bool) \<Rightarrow> ('k, 'v) jsmap \<Rightarrow> ('k, 'v) jsmap" where
  "jm_deleteIf P m = filter (\<lambda>kv. \<not> P (fst kv)) m"

definition jm_keys :: "('k, 'v) jsmap \<Rightarrow> 'k list" where
  "jm_keys m = map fst m"

definition jm_has :: "('k, 'v) jsmap \<Rightarrow> 'k \<Rightarrow> bool" where
  "jm_has m k = (jm_get m k \<noteq> None)"

definition jm_wf :: "('k, 'v) jsmap \<Rightarrow> bool" where
  "jm_wf m = distinct (map fst m)"

lemma jm_get_map_of: "jm_get m k = map_of m k"
  by (induction m) auto

lemma jm_get_set: "jm_get (jm_set m k v) k' = (if k = k' then Some v else jm_get m k')"
  by (induction m k v rule: jm_set.induct) auto

lemma jm_get_delete: "jm_get (jm_delete m k) k' = (if k = k' then None else jm_get m k')"
  unfolding jm_delete_def by (induction m) auto

lemma jm_get_deleteIf: "jm_get (jm_deleteIf P m) k = (if P k then None else jm_get m k)"
  unfolding jm_deleteIf_def by (induction m) auto

lemma jm_keys_set: "set (jm_keys (jm_set m k v)) = insert k (set (jm_keys m))"
  unfolding jm_keys_def by (induction m k v rule: jm_set.induct) auto

lemma jm_wf_empty: "jm_wf []"
  by (simp add: jm_wf_def)

lemma jm_wf_set: "jm_wf m \<Longrightarrow> jm_wf (jm_set m k v)"
  unfolding jm_wf_def
proof (induction m k v rule: jm_set.induct)
  case (2 k' v' m k v)
  then show ?case using jm_keys_set [of m k v] by (auto simp: jm_keys_def)
qed simp

lemma jm_wf_delete: "jm_wf m \<Longrightarrow> jm_wf (jm_delete m k)"
  by (simp add: jm_wf_def jm_delete_def distinct_map_filter)

lemma jm_get_keys: "jm_get m k = None \<longleftrightarrow> k \<notin> set (jm_keys m)"
  by (simp add: jm_get_map_of jm_keys_def map_of_eq_None_iff)

lemma jm_set_absent: "jm_get m k = None \<Longrightarrow> jm_set m k v = m @ [(k, v)]"
  by (induction m k v rule: jm_set.induct) (auto split: if_splits)

text \<open>The contract every client of a \<^verbatim>\<open>Map\<close> relies on: a lookup after \<^verbatim>\<open>set\<close> and
  \<^verbatim>\<open>delete\<close>, and that the keys stay distinct.\<close>

locale js_map =
  fixes get :: "'m \<Rightarrow> 'k \<Rightarrow> 'v option"
    and put :: "'m \<Rightarrow> 'k \<Rightarrow> 'v \<Rightarrow> 'm"
    and del :: "'m \<Rightarrow> 'k \<Rightarrow> 'm"
    and wf :: "'m \<Rightarrow> bool"
  assumes get_put: "get (put m k v) k' = (if k = k' then Some v else get m k')"
    and get_del: "get (del m k) k' = (if k = k' then None else get m k')"
    and wf_put: "wf m \<Longrightarrow> wf (put m k v)"
    and wf_del: "wf m \<Longrightarrow> wf (del m k)"
begin

lemma put_put_same: "get (put (put m k v) k w) k' = get (put m k w) k'"
  by (simp add: get_put)

lemma put_commute: "k \<noteq> l \<Longrightarrow> get (put (put m k v) l w) k' = get (put (put m l w) k v) k'"
  by (auto simp: get_put)

end

interpretation jm: js_map jm_get jm_set jm_delete jm_wf
  by unfold_locales (simp_all add: jm_get_set jm_get_delete jm_wf_set jm_wf_delete)

section \<open>Sets\<close>

text \<open>A JavaScript \<^verbatim>\<open>Set\<close> of strings, in insertion order.\<close>

definition setAdd :: "'a list \<Rightarrow> 'a \<Rightarrow> 'a list" where
  "setAdd xs x = (if x \<in> set xs then xs else xs @ [x])"

lemma set_setAdd [simp]: "set (setAdd xs x) = insert x (set xs)"
  by (auto simp: setAdd_def)

lemma set_foldl_setAdd [simp]: "set (foldl setAdd w gs) = set w \<union> set gs"
  by (induction gs arbitrary: w) auto

lemma foldl_setAdd_absorb: "set gs \<subseteq> set w \<Longrightarrow> foldl setAdd w gs = w"
  by (induction gs) (auto simp: setAdd_def)

lemma foldl_setAdd_eq: "foldl setAdd w gs = w \<longleftrightarrow> set gs \<subseteq> set w"
proof
  assume "foldl setAdd w gs = w"
  then have "set w \<union> set gs = set w" using set_foldl_setAdd [of w gs] by simp
  then show "set gs \<subseteq> set w" by auto
qed (rule foldl_setAdd_absorb)

section \<open>Lists\<close>

lemma list_all_any: "\<not> list_ex P xs \<longleftrightarrow> list_all (\<lambda>x. \<not> P x) xs"
  by (induction xs) auto

end
