(* ===== verification/JsNumber.thy ===== *)
theory JsNumber
  imports Prelude "HOL-Library.Log_Nat" "HOL-Library.Word"
begin

text \<open>
  The JavaScript \<^verbatim>\<open>Number\<close> type: IEEE-754 binary64 with round-to-nearest-even,
  signed zeros, infinities and NaN, over exact rationals. Every operator the compiler's
  integer inference applies to a number (\<^verbatim>\<open>+ - * / % ~ & | ^ << >> >>>\<close>, the
  comparisons, \<^verbatim>\<open>Math.trunc/floor/ceil/round/abs/min/max\<close> and the
  \<^verbatim>\<open>Number.isX\<close> tests) is a function here, and the rounding is a concrete
  executable function whose laws (monotone, integer preserving, idempotent) are the
  interface \<open>f64_rounding\<close> the analyses are proved against.
\<close>

unbundle bit_operations_syntax

section \<open>Rounding\<close>

definition pow2 :: "int \<Rightarrow> rat" where
  "pow2 e = (if 0 \<le> e then 2 ^ nat e else 1 / 2 ^ nat (- e))"

lemma pow2_powi: "pow2 e = 2 powi e"
  by (simp add: pow2_def power_int_def field_simps)

lemma pow2_pos [simp]: "0 < pow2 e"
  by (simp add: pow2_def)

lemma pow2_nz [simp]: "pow2 e \<noteq> 0"
  by (metis less_irrefl pow2_pos)

lemma pow2_ge0 [simp]: "0 \<le> pow2 e"
  by (simp add: less_imp_le)

lemma pow2_add: "pow2 (a + b) = pow2 a * pow2 b"
  by (simp add: pow2_powi power_int_add)

lemma pow2_le_iff [simp]: "pow2 a \<le> pow2 b \<longleftrightarrow> a \<le> b"
proof -
  have "(1::rat) < 2" by simp
  then show ?thesis unfolding pow2_powi by (metis linorder_not_le power_int_increasing
      power_int_strict_increasing less_imp_le)
qed

lemma pow2_less_iff [simp]: "pow2 a < pow2 b \<longleftrightarrow> a < b"
  by (meson linorder_not_le pow2_le_iff)

lemma pow2_int: "0 \<le> e \<Longrightarrow> pow2 e = of_int (2 ^ nat e)"
  by (simp add: pow2_def)

lemma pow2_quot: "b \<le> a \<Longrightarrow> pow2 a / pow2 b = of_int (2 ^ nat (a - b))"
proof -
  assume "b \<le> a"
  have "pow2 a = pow2 (a - b) * pow2 b" by (simp flip: pow2_add)
  with \<open>b \<le> a\<close> show ?thesis by (simp add: pow2_int)
qed

text \<open>The binary exponent of a positive rational: the \<open>e\<close> with
  \<open>2\<^sup>e \<le> q < 2\<^sup>e\<^sup>+\<^sup>1\<close>.\<close>

definition ilog2 :: "rat \<Rightarrow> int" where
  "ilog2 q = (let (n, d) = quotient_of q; k = bitlen n - bitlen d
              in if pow2 k \<le> q then k else k - 1)"

lemma bitlen_pow2_bounds:
  assumes "0 < n"
  shows "pow2 (bitlen n - 1) \<le> of_int n" "of_int n < pow2 (bitlen n)"
proof -
  have b: "1 \<le> bitlen n"
    using assms bitlen_eq_zero_iff [of n] bitlen_nonneg [of n] by linarith
  show "pow2 (bitlen n - 1) \<le> of_int n"
    using bitlen_bounds [OF assms] b by (simp add: pow2_int del: of_int_power)
  show "of_int n < pow2 (bitlen n)"
    using bitlen_bounds [OF assms] b by (simp add: pow2_int del: of_int_power)
qed

lemma ilog2_bounds:
  assumes "0 < q"
  shows "pow2 (ilog2 q) \<le> q" "q < pow2 (ilog2 q + 1)"
proof -
  obtain n d where nd: "quotient_of q = (n, d)" by (cases "quotient_of q")
  then have q: "q = of_int n / of_int d" and d: "0 < d"
    using quotient_of_div quotient_of_denom_pos by blast+
  with assms have n: "0 < n" by (simp add: zero_less_divide_iff)
  let ?k = "bitlen n - bitlen d"
  have hi: "q < pow2 (?k + 1)"
  proof -
    have "of_int n < pow2 (?k + 1) * pow2 (bitlen d - 1)"
      using bitlen_pow2_bounds(2) [OF n] by (simp flip: pow2_add)
    also have "\<dots> \<le> pow2 (?k + 1) * of_int d"
      using bitlen_pow2_bounds(1) [OF d] by (simp add: mult_left_mono)
    finally show ?thesis using d by (simp add: q field_simps)
  qed
  have lo: "pow2 (?k - 1) \<le> q"
  proof -
    have "pow2 (?k - 1) * of_int d \<le> pow2 (?k - 1) * pow2 (bitlen d)"
      using bitlen_pow2_bounds(2) [OF d] by (simp add: mult_left_mono)
    also have "\<dots> \<le> of_int n"
      using bitlen_pow2_bounds(1) [OF n] by (simp flip: pow2_add)
    finally show ?thesis using d by (simp add: q field_simps)
  qed
  show "pow2 (ilog2 q) \<le> q" "q < pow2 (ilog2 q + 1)"
    using hi lo by (auto simp: ilog2_def nd Let_def)
qed

lemma ilog2_unique:
  assumes "pow2 e \<le> q" "q < pow2 (e + 1)"
  shows "ilog2 q = e"
proof -
  have q: "0 < q" using assms(1) pow2_pos [of e] by linarith
  have "pow2 (ilog2 q) < pow2 (e + 1)" "pow2 e < pow2 (ilog2 q + 1)"
    using ilog2_bounds [OF q] assms by linarith+
  then show ?thesis by simp
qed

lemma ilog2_mono:
  assumes "0 < q" "q \<le> r"
  shows "ilog2 q \<le> ilog2 r"
proof -
  have "pow2 (ilog2 q) < pow2 (ilog2 r + 1)"
    using ilog2_bounds [of q] ilog2_bounds [of r] assms by linarith
  then show ?thesis by simp
qed

definition ulpExp :: "rat \<Rightarrow> int" where
  "ulpExp q = max (- 1074) (ilog2 q - 52)"

definition roundEven :: "rat \<Rightarrow> int" where
  "roundEven x = (let f = \<lfloor>x\<rfloor>; r = x - of_int f
     in if r < 1/2 then f else if 1/2 < r then f + 1 else if even f then f else f + 1)"

lemma roundEven_of_int [simp]: "roundEven (of_int n) = n"
  by (simp add: roundEven_def)

lemma roundEven_mono:
  assumes "x \<le> y"
  shows "roundEven x \<le> roundEven y"
proof (cases "\<lfloor>x\<rfloor> = \<lfloor>y\<rfloor>")
  case True
  with assms show ?thesis by (auto simp: roundEven_def Let_def)
next
  case False
  with assms have "\<lfloor>x\<rfloor> + 1 \<le> \<lfloor>y\<rfloor>"
    using floor_mono [OF assms] by linarith
  moreover have "roundEven x \<le> \<lfloor>x\<rfloor> + 1" "\<lfloor>y\<rfloor> \<le> roundEven y"
    by (auto simp: roundEven_def Let_def)
  ultimately show ?thesis by linarith
qed

text \<open>Rounding of a positive magnitude to 53 significant bits (fewer below
  \<open>2\<^sup>-\<^sup>1\<^sup>0\<^sup>2\<^sup>2\<close>).\<close>

definition roundMag :: "rat \<Rightarrow> rat" where
  "roundMag q = of_int (roundEven (q / pow2 (ulpExp q))) * pow2 (ulpExp q)"

lemma roundMag_le_pow2:
  assumes "0 < q" "q \<le> pow2 e" "ulpExp q \<le> e"
  shows "roundMag q \<le> pow2 e"
proof -
  let ?u = "ulpExp q"
  have "q / pow2 ?u \<le> pow2 e / pow2 ?u" using assms(2) by (intro divide_right_mono) simp_all
  then have "roundEven (q / pow2 ?u) \<le> 2 ^ nat (e - ?u)"
    using roundEven_mono [of "q / pow2 ?u" "of_int (2 ^ nat (e - ?u))"] assms(3)
    by (simp only: pow2_quot roundEven_of_int)
  then have "of_int (roundEven (q / pow2 ?u)) \<le> (of_int (2 ^ nat (e - ?u)) :: rat)"
    by (simp only: of_int_le_iff)
  also have "\<dots> = pow2 e / pow2 ?u" using assms(3) by (simp only: pow2_quot)
  finally show ?thesis by (simp add: roundMag_def field_simps)
qed

lemma roundMag_ge_pow2:
  assumes "pow2 e \<le> q" "ulpExp q \<le> e"
  shows "pow2 e \<le> roundMag q"
proof -
  let ?u = "ulpExp q"
  have "pow2 e / pow2 ?u \<le> q / pow2 ?u" using assms(1) by (intro divide_right_mono) simp_all
  then have "2 ^ nat (e - ?u) \<le> roundEven (q / pow2 ?u)"
    using roundEven_mono [of "of_int (2 ^ nat (e - ?u))" "q / pow2 ?u"] assms(2)
    by (simp only: pow2_quot roundEven_of_int)
  then have "(of_int (2 ^ nat (e - ?u)) :: rat) \<le> of_int (roundEven (q / pow2 ?u))"
    by (simp only: of_int_le_iff)
  then have "pow2 e / pow2 ?u \<le> of_int (roundEven (q / pow2 ?u))"
    using assms(2) by (simp only: pow2_quot)
  then show ?thesis by (simp add: roundMag_def field_simps)
qed

lemma roundMag_mono:
  assumes "0 < q" "q \<le> r"
  shows "roundMag q \<le> roundMag r"
proof (cases "ulpExp q = ulpExp r")
  case True
  have "q / pow2 (ulpExp q) \<le> r / pow2 (ulpExp q)" using assms by (intro divide_right_mono) simp_all
  then have "roundEven (q / pow2 (ulpExp q)) \<le> roundEven (r / pow2 (ulpExp q))"
    by (rule roundEven_mono)
  then show ?thesis using True by (simp add: roundMag_def mult_right_mono)
next
  case False
  have il: "ilog2 q \<le> ilog2 r" by (rule ilog2_mono [OF assms])
  have r: "0 < r" using assms by linarith
  have lt: "ilog2 q < ilog2 r" and u: "ulpExp r = ilog2 r - 52"
    using False il by (auto simp: ulpExp_def max_def split: if_splits)
  have q': "q \<le> pow2 (ilog2 r)"
  proof -
    have "q < pow2 (ilog2 q + 1)" by (rule ilog2_bounds(2) [OF assms(1)])
    also have "\<dots> \<le> pow2 (ilog2 r)" using lt by simp
    finally show ?thesis by simp
  qed
  have "ulpExp q \<le> ilog2 r" using il u False by (auto simp: ulpExp_def max_def split: if_splits)
  then have "roundMag q \<le> pow2 (ilog2 r)" using roundMag_le_pow2 [OF assms(1) q'] by simp
  also have "\<dots> \<le> roundMag r"
    using roundMag_ge_pow2 [OF ilog2_bounds(1) [OF r]] u by simp
  finally show ?thesis .
qed

lemma roundMag_exact:
  assumes "q / pow2 (ulpExp q) \<in> \<int>"
  shows "roundMag q = q"
proof -
  obtain z where z: "q / pow2 (ulpExp q) = of_int z" using assms by (rule Ints_cases)
  then have "q = of_int z * pow2 (ulpExp q)" by (simp add: field_simps)
  with z show ?thesis by (simp add: roundMag_def)
qed

lemma roundMag_nonneg: "0 < q \<Longrightarrow> 0 \<le> roundMag q"
proof -
  assume "0 < q"
  then have "0 \<le> roundEven (q / pow2 (ulpExp q))"
    using roundEven_mono [of 0 "q / pow2 (ulpExp q)"] roundEven_of_int [of 0] by simp
  then show ?thesis by (simp add: roundMag_def)
qed

lemma pow2_Ints: "0 \<le> e \<Longrightarrow> pow2 e \<in> \<int>"
  by (simp add: pow2_int del: of_int_power)

lemma roundMag_int:
  assumes "q \<in> \<int>"
  shows "roundMag q \<in> \<int>"
proof (cases "0 \<le> ulpExp q")
  case True
  then show ?thesis by (simp add: roundMag_def pow2_Ints)
next
  case False
  have "q / pow2 (ulpExp q) = q * pow2 (- ulpExp q)"
    using pow2_add [of "ulpExp q" "- ulpExp q"] by (simp add: field_simps pow2_def)
  then have "q / pow2 (ulpExp q) \<in> \<int>" using assms False by (simp add: pow2_Ints)
  then show ?thesis using roundMag_exact assms by simp
qed

lemma roundMag_idem:
  assumes "0 < q" "0 < roundMag q"
  shows "roundMag (roundMag q) = roundMag q"
proof (rule roundMag_exact)
  let ?u = "ulpExp q" and ?v = "roundMag q"
  let ?m = "roundEven (q / pow2 ?u)"
  have v: "?v = of_int ?m * pow2 ?u" by (simp add: roundMag_def)
  have il: "ilog2 q \<le> ?u + 52" by (simp add: ulpExp_def)
  have "q \<le> pow2 (?u + 53)"
    using ilog2_bounds(2) [OF assms(1)] il
      order_less_le_trans [of q "pow2 (ilog2 q + 1)" "pow2 (?u + 53)"] by simp
  then have vle: "?v \<le> pow2 (?u + 53)" by (intro roundMag_le_pow2 assms(1)) simp_all
  show "?v / pow2 (ulpExp ?v) \<in> \<int>"
  proof (cases "?v = pow2 (?u + 53)")
    case True
    have "ilog2 ?v = ?u + 53" using True by (intro ilog2_unique) simp_all
    then have "ulpExp ?v \<le> ?u + 53" by (simp add: ulpExp_def)
    then show ?thesis unfolding True by (simp only: pow2_quot Ints_of_int)
  next
    case False
    with vle have "?v < pow2 (?u + 53)" by simp
    then have "pow2 (ilog2 ?v) < pow2 (?u + 53)"
      using ilog2_bounds(1) [OF assms(2)] by linarith
    then have "ulpExp ?v \<le> ?u" by (simp add: ulpExp_def)
    then have "?v / pow2 (ulpExp ?v) = of_int ?m * of_int (2 ^ nat (?u - ulpExp ?v))"
      unfolding v [symmetric] using v by (simp only: times_divide_eq_right [symmetric] pow2_quot)
    then show ?thesis by (simp only: Ints_mult Ints_of_int)
  qed
qed

section \<open>Number values\<close>

text \<open>\<open>Fin 0\<close> is \<^verbatim>\<open>+0\<close>; a value \<open>Fin q\<close> of the running program always has a
  representable \<open>q\<close> (\<open>wf_f64\<close> below), since every operator rounds.\<close>

datatype f64 = NaN | NInf | PInf | NegZero | Fin rat

definition toF64 :: "rat \<Rightarrow> f64" where
  "toF64 q = (if q = 0 then Fin 0 else
     let v = roundMag \<bar>q\<bar> in
     if pow2 1024 \<le> v then (if q < 0 then NInf else PInf)
     else if v = 0 then (if q < 0 then NegZero else Fin 0)
     else Fin (if q < 0 then - v else v))"

fun wf_f64 :: "f64 \<Rightarrow> bool" where
  "wf_f64 (Fin q) = (toF64 q = Fin q)"
| "wf_f64 _ = True"

fun num :: "f64 \<Rightarrow> rat" where
  "num (Fin q) = q"
| "num _ = 0"

fun isFinite :: "f64 \<Rightarrow> bool" where
  "isFinite (Fin q) = True"
| "isFinite NegZero = True"
| "isFinite _ = False"

fun isNegative :: "f64 \<Rightarrow> bool" where
  "isNegative (Fin q) = (q < 0)"
| "isNegative NegZero = True"
| "isNegative NInf = True"
| "isNegative _ = False"

definition isInteger :: "f64 \<Rightarrow> bool" where
  "isInteger x = (isFinite x \<and> num x = of_int \<lfloor>num x\<rfloor>)"

definition isSafeInteger :: "f64 \<Rightarrow> bool" where
  "isSafeInteger x = (isInteger x \<and> \<bar>num x\<bar> \<le> 9007199254740991)"

fun normZero :: "f64 \<Rightarrow> f64" where
  "normZero NegZero = Fin 0"
| "normZero x = x"

subsection \<open>Comparison\<close>

fun js_lt :: "f64 \<Rightarrow> f64 \<Rightarrow> bool" where
  "js_lt NaN y = False"
| "js_lt x NaN = False"
| "js_lt NInf y = (y \<noteq> NInf)"
| "js_lt x NInf = False"
| "js_lt PInf y = False"
| "js_lt x PInf = True"
| "js_lt x y = (num x < num y)"

fun js_le :: "f64 \<Rightarrow> f64 \<Rightarrow> bool" where
  "js_le NaN y = False"
| "js_le x NaN = False"
| "js_le NInf y = True"
| "js_le x NInf = False"
| "js_le x PInf = True"
| "js_le PInf y = False"
| "js_le x y = (num x \<le> num y)"

abbreviation js_gt :: "f64 \<Rightarrow> f64 \<Rightarrow> bool" where
  "js_gt x y \<equiv> js_lt y x"

abbreviation js_ge :: "f64 \<Rightarrow> f64 \<Rightarrow> bool" where
  "js_ge x y \<equiv> js_le y x"

text \<open>Strict equality \<^verbatim>\<open>===\<close>: NaN is unequal to itself, the two zeros are equal.\<close>

definition js_eq :: "f64 \<Rightarrow> f64 \<Rightarrow> bool" where
  "js_eq x y = (js_le x y \<and> js_le y x)"

lemma js_le_Fin [simp]: "js_le (Fin a) (Fin b) = (a \<le> b)"
  by simp

lemma js_le_trans: "js_le x y \<Longrightarrow> js_le y z \<Longrightarrow> js_le x z"
  by (cases x; cases y; cases z) auto

lemma js_le_refl: "x \<noteq> NaN \<Longrightarrow> js_le x x"
  by (cases x) auto

lemma js_le_total: "x \<noteq> NaN \<Longrightarrow> y \<noteq> NaN \<Longrightarrow> js_le x y \<or> js_le y x"
  by (cases x; cases y) auto

lemma js_lt_iff: "js_lt x y \<longleftrightarrow> js_le x y \<and> \<not> js_le y x"
  by (cases x; cases y) auto

lemma js_le_not_NaN: "js_le x y \<Longrightarrow> x \<noteq> NaN \<and> y \<noteq> NaN"
  by (cases x; cases y) auto

lemma js_lt_le: "js_lt x y \<Longrightarrow> js_le x y"
  by (simp add: js_lt_iff)

lemma js_not_le: "x \<noteq> NaN \<Longrightarrow> y \<noteq> NaN \<Longrightarrow> \<not> js_le x y \<longleftrightarrow> js_lt y x"
  using js_le_total by (auto simp: js_lt_iff)

lemma js_le_normZero [simp]: "js_le (normZero x) y = js_le x y" "js_le x (normZero y) = js_le x y"
  by (cases x; cases y; simp)+

lemma js_le_PInf [simp]: "js_le x PInf = (x \<noteq> NaN)"
  by (cases x) auto

lemma js_le_NInf [simp]: "js_le NInf x = (x \<noteq> NaN)"
  by (cases x) auto

lemma js_PInf_le [simp]: "js_le PInf x = (x = PInf)"
  by (cases x) auto

lemma js_NInf_ge [simp]: "js_le x NInf = (x = NInf)"
  by (cases x) auto

lemma js_le_NaN [simp]: "js_le x NaN = False"
  by (cases x) auto

subsection \<open>Arithmetic\<close>

fun js_neg :: "f64 \<Rightarrow> f64" where
  "js_neg NaN = NaN"
| "js_neg NInf = PInf"
| "js_neg PInf = NInf"
| "js_neg NegZero = Fin 0"
| "js_neg (Fin q) = (if q = 0 then NegZero else Fin (- q))"

fun js_add :: "f64 \<Rightarrow> f64 \<Rightarrow> f64" where
  "js_add NaN y = NaN"
| "js_add x NaN = NaN"
| "js_add PInf y = (if y = NInf then NaN else PInf)"
| "js_add NInf y = (if y = PInf then NaN else NInf)"
| "js_add x PInf = PInf"
| "js_add x NInf = NInf"
| "js_add x y = (if x = NegZero \<and> y = NegZero then NegZero else toF64 (num x + num y))"

definition js_sub :: "f64 \<Rightarrow> f64 \<Rightarrow> f64" where
  "js_sub x y = js_add x (js_neg y)"

definition signedZero :: "bool \<Rightarrow> f64" where
  "signedZero neg = (if neg then NegZero else Fin 0)"

definition signedInf :: "bool \<Rightarrow> f64" where
  "signedInf neg = (if neg then NInf else PInf)"

fun isInf :: "f64 \<Rightarrow> bool" where
  "isInf PInf = True"
| "isInf NInf = True"
| "isInf _ = False"

definition isZero :: "f64 \<Rightarrow> bool" where
  "isZero x = (isFinite x \<and> num x = 0)"

definition js_mul :: "f64 \<Rightarrow> f64 \<Rightarrow> f64" where
  "js_mul x y =
     (let neg = (isNegative x \<noteq> isNegative y) in
      if x = NaN \<or> y = NaN then NaN
      else if isInf x \<or> isInf y then (if isZero x \<or> isZero y then NaN else signedInf neg)
      else if num x * num y = 0 then signedZero neg
      else toF64 (num x * num y))"

definition js_div :: "f64 \<Rightarrow> f64 \<Rightarrow> f64" where
  "js_div x y =
     (let neg = (isNegative x \<noteq> isNegative y) in
      if x = NaN \<or> y = NaN then NaN
      else if isInf x then (if isInf y then NaN else signedInf neg)
      else if isInf y then signedZero neg
      else if num y = 0 then (if num x = 0 then NaN else signedInf neg)
      else if num x = 0 then signedZero neg
      else toF64 (num x / num y))"

definition ratTrunc :: "rat \<Rightarrow> int" where
  "ratTrunc q = (if q < 0 then \<lceil>q\<rceil> else \<lfloor>q\<rfloor>)"

text \<open>\<^verbatim>\<open>%\<close>: the remainder of the truncating division, with the dividend's sign.\<close>

definition js_mod :: "f64 \<Rightarrow> f64 \<Rightarrow> f64" where
  "js_mod x y =
     (if x = NaN \<or> y = NaN \<or> isInf x \<or> isZero y then NaN
      else if isInf y \<or> isZero x then x
      else let r = num x - num y * of_int (ratTrunc (num x / num y))
           in if r = 0 then signedZero (isNegative x) else toF64 r)"

subsection \<open>The Math functions\<close>

definition intF64 :: "bool \<Rightarrow> int \<Rightarrow> f64" where
  "intF64 neg n = (if n = 0 then signedZero neg else Fin (of_int n))"

fun math_trunc :: "f64 \<Rightarrow> f64" where
  "math_trunc (Fin q) = intF64 (q < 0) (ratTrunc q)"
| "math_trunc x = x"

fun math_floor :: "f64 \<Rightarrow> f64" where
  "math_floor (Fin q) = Fin (of_int \<lfloor>q\<rfloor>)"
| "math_floor x = x"

fun math_ceil :: "f64 \<Rightarrow> f64" where
  "math_ceil (Fin q) = intF64 (q < 0) \<lceil>q\<rceil>"
| "math_ceil x = x"

fun math_round :: "f64 \<Rightarrow> f64" where
  "math_round (Fin q) = intF64 (q < 0) \<lfloor>q + 1/2\<rfloor>"
| "math_round x = x"

fun math_abs :: "f64 \<Rightarrow> f64" where
  "math_abs (Fin q) = Fin \<bar>q\<bar>"
| "math_abs NegZero = Fin 0"
| "math_abs NInf = PInf"
| "math_abs x = x"

definition min2 :: "f64 \<Rightarrow> f64 \<Rightarrow> f64" where
  "min2 x y = (if x = NaN \<or> y = NaN then NaN
     else if js_lt x y then x else if js_lt y x then y
     else if x = NegZero then x else y)"

definition max2 :: "f64 \<Rightarrow> f64 \<Rightarrow> f64" where
  "max2 x y = (if x = NaN \<or> y = NaN then NaN
     else if js_lt y x then x else if js_lt x y then y
     else if x = NegZero then y else x)"

definition math_min :: "f64 list \<Rightarrow> f64" where
  "math_min xs = foldl min2 PInf xs"

definition math_max :: "f64 list \<Rightarrow> f64" where
  "math_max xs = foldl max2 NInf xs"

subsection \<open>The 32-bit operators\<close>

definition toInt32 :: "f64 \<Rightarrow> 32 word" where
  "toInt32 x = (if isFinite x then word_of_int (ratTrunc (num x)) else 0)"

definition fromInt32 :: "32 word \<Rightarrow> f64" where
  "fromInt32 w = Fin (of_int (sint w))"

definition fromUint32 :: "32 word \<Rightarrow> f64" where
  "fromUint32 w = Fin (of_int (uint w))"

definition shiftCount :: "f64 \<Rightarrow> nat" where
  "shiftCount y = unat (toInt32 y AND 31)"

definition js_and :: "f64 \<Rightarrow> f64 \<Rightarrow> f64" where
  "js_and x y = fromInt32 (toInt32 x AND toInt32 y)"

definition js_or :: "f64 \<Rightarrow> f64 \<Rightarrow> f64" where
  "js_or x y = fromInt32 (toInt32 x OR toInt32 y)"

definition js_xor :: "f64 \<Rightarrow> f64 \<Rightarrow> f64" where
  "js_xor x y = fromInt32 (toInt32 x XOR toInt32 y)"

definition js_shl :: "f64 \<Rightarrow> f64 \<Rightarrow> f64" where
  "js_shl x y = fromInt32 (push_bit (shiftCount y) (toInt32 x))"

definition js_sar :: "f64 \<Rightarrow> f64 \<Rightarrow> f64" where
  "js_sar x y = fromInt32 (signed_drop_bit (shiftCount y) (toInt32 x))"

definition js_shr :: "f64 \<Rightarrow> f64 \<Rightarrow> f64" where
  "js_shr x y = fromUint32 (drop_bit (shiftCount y) (toInt32 x))"

definition js_bitnot :: "f64 \<Rightarrow> f64" where
  "js_bitnot x = fromInt32 (NOT (toInt32 x))"

section \<open>Laws of rounding\<close>

lemma toF64_zero [simp]: "toF64 0 = Fin 0"
  by (simp add: toF64_def)

lemma toF64_not_NaN [simp]: "toF64 q \<noteq> NaN"
  by (simp add: toF64_def Let_def)

lemma toF64_neg: "q \<noteq> 0 \<Longrightarrow> toF64 (- q) = js_neg (toF64 q)"
  by (auto simp: toF64_def Let_def)

lemma toF64_pos_mono:
  assumes "0 < q" "q \<le> r"
  shows "js_le (toF64 q) (toF64 r)"
proof -
  have "roundMag q \<le> roundMag r" by (rule roundMag_mono [OF assms])
  with assms roundMag_nonneg [of q] show ?thesis by (auto simp: toF64_def Let_def)
qed

lemma toF64_sign: "0 < q \<Longrightarrow> js_le (Fin 0) (toF64 q)" "q < 0 \<Longrightarrow> js_le (toF64 q) (Fin 0)"
  using roundMag_nonneg [of "\<bar>q\<bar>"] by (auto simp: toF64_def Let_def)

lemma js_le_neg [simp]: "js_le (js_neg x) (js_neg y) = js_le y x"
  by (cases x; cases y) auto

lemma toF64_mono:
  assumes "q \<le> r"
  shows "js_le (toF64 q) (toF64 r)"
proof -
  consider "0 < q" | "r < 0" | "q \<le> 0" "0 \<le> r" using assms by linarith
  then show ?thesis
  proof cases
    case 1
    then show ?thesis using assms by (rule toF64_pos_mono)
  next
    case 2
    then have "js_le (toF64 (- r)) (toF64 (- q))" using assms by (intro toF64_pos_mono) auto
    with 2 assms show ?thesis by (simp add: toF64_neg)
  next
    case 3
    have a: "js_le (toF64 q) (Fin 0)" using 3 toF64_sign(2) [of q] by (cases "q = 0") auto
    have b: "js_le (Fin 0) (toF64 r)" using 3 toF64_sign(1) [of r] by (cases "r = 0") auto
    show ?thesis by (rule js_le_trans [OF a b])
  qed
qed

lemma isInteger_Fin: "isInteger (Fin q) \<longleftrightarrow> q \<in> \<int>"
  by (auto simp: isInteger_def elim!: Ints_cases) (metis Ints_of_int)

lemma isInteger_simps [simp]:
  "isInteger NegZero" "\<not> isInteger NaN" "\<not> isInteger PInf" "\<not> isInteger NInf"
  by (simp_all add: isInteger_def)

lemma isInteger_normZero [simp]: "isInteger (normZero x) = isInteger x"
  by (cases x) (auto simp: isInteger_Fin)

lemma toF64_int:
  assumes "q \<in> \<int>"
  shows "isInteger (toF64 q) \<or> isInf (toF64 q)"
proof -
  have "\<bar>q\<bar> \<in> \<int>" using assms by simp
  then show ?thesis using roundMag_int [of "\<bar>q\<bar>"]
    by (auto simp: toF64_def Let_def isInteger_Fin)
qed

lemma toF64_idem: "toF64 q = Fin v \<Longrightarrow> toF64 v = Fin v"
proof -
  assume a: "toF64 q = Fin v"
  show ?thesis
  proof (cases "q = 0 \<or> v = 0")
    case True
    with a show ?thesis by auto
  next
    case False
    let ?m = "roundMag \<bar>q\<bar>"
    have q: "0 < \<bar>q\<bar>" using False by simp
    have m: "0 < ?m" "?m < pow2 1024" "v = (if q < 0 then - ?m else ?m)"
      using a False roundMag_nonneg [OF q] by (auto simp: toF64_def Let_def split: if_splits)
    then have "roundMag ?m = ?m" using roundMag_idem [OF q] by simp
    with m show ?thesis by (auto simp: toF64_def Let_def)
  qed
qed

lemma wf_toF64 [simp]: "wf_f64 (toF64 q)"
  using toF64_idem by (cases "toF64 q") auto

lemma toF64_wf: "wf_f64 (Fin q) \<Longrightarrow> toF64 q = Fin q"
  by simp

lemma toF64_exact_int:
  assumes "\<bar>n\<bar> \<le> 2 ^ 53"
  shows "toF64 (of_int n) = Fin (of_int n)"
proof (cases "n = 0")
  case False
  let ?q = "\<bar>of_int n :: rat\<bar>"
  have q: "0 < ?q" "?q = of_int \<bar>n\<bar>" using False by simp_all
  have le: "?q \<le> pow2 53" using assms by (simp add: pow2_int q(2) del: of_int_power of_int_abs)
  have "ilog2 ?q \<le> 53"
  proof -
    have "pow2 (ilog2 ?q) \<le> pow2 53" using ilog2_bounds(1) [OF q(1)] le by linarith
    then show ?thesis by simp
  qed
  have "?q / pow2 (ulpExp ?q) \<in> \<int>"
  proof (cases "ulpExp ?q \<le> 0")
    case True
    have "?q / pow2 (ulpExp ?q) = ?q * pow2 (- ulpExp ?q)"
      using pow2_add [of "ulpExp ?q" "- ulpExp ?q"] by (simp add: field_simps pow2_def)
    then show ?thesis using True by (simp add: pow2_Ints)
  next
    case False
    then have "ilog2 ?q = 53" using \<open>ilog2 ?q \<le> 53\<close> by (auto simp: ulpExp_def)
    then have "?q = pow2 53" using le ilog2_bounds(1) [OF q(1)] by simp
    moreover have "ulpExp ?q \<le> 53" using \<open>ilog2 ?q = 53\<close> by (simp add: ulpExp_def)
    ultimately show ?thesis by (metis Ints_of_int pow2_quot)
  qed
  then have e: "roundMag ?q = ?q" by (rule roundMag_exact)
  have "?q < pow2 1024" using le order_le_less_trans [of ?q "pow2 53" "pow2 1024"] by simp
  with e False show ?thesis by (auto simp: toF64_def Let_def)
qed simp

lemma toF64_numeral [simp]:
  "(numeral n :: int) \<le> 9007199254740992 \<Longrightarrow> toF64 (numeral n) = Fin (numeral n)"
  "(numeral n :: int) \<le> 9007199254740992 \<Longrightarrow> toF64 (- numeral n) = Fin (- numeral n)"
  "toF64 1 = Fin 1" "toF64 (- 1) = Fin (- 1)"
  using toF64_exact_int [of "numeral n"] toF64_exact_int [of "- numeral n"] toF64_exact_int [of 1]
    toF64_exact_int [of "- 1"] by simp_all

lemma wf_small_int: "\<bar>n\<bar> \<le> 2 ^ 53 \<Longrightarrow> wf_f64 (Fin (of_int n))"
  by (simp add: toF64_exact_int)

text \<open>The rounding contract the analyses are proved against.\<close>

locale f64_rounding =
  fixes rnd :: "rat \<Rightarrow> f64"
  assumes rnd_not_NaN: "rnd q \<noteq> NaN"
    and rnd_mono: "q \<le> r \<Longrightarrow> js_le (rnd q) (rnd r)"
    and rnd_int: "q \<in> \<int> \<Longrightarrow> isInteger (rnd q) \<or> isInf (rnd q)"
    and rnd_idem: "rnd q = Fin v \<Longrightarrow> rnd v = Fin v"
begin

lemma rnd_hull: "l \<le> q \<Longrightarrow> q \<le> h \<Longrightarrow> js_le (rnd l) (rnd q) \<and> js_le (rnd q) (rnd h)"
  by (simp add: rnd_mono)

text \<open>A representable value below \<open>q\<close> stays below the rounded \<open>q\<close>: rounding a bound
  never cuts a member off.\<close>

lemma rnd_upper: "rnd v = Fin v \<Longrightarrow> v \<le> q \<Longrightarrow> js_le (Fin v) (rnd q)"
  using rnd_mono by metis

lemma rnd_lower: "rnd v = Fin v \<Longrightarrow> q \<le> v \<Longrightarrow> js_le (rnd q) (Fin v)"
  using rnd_mono by metis

end

interpretation ieee: f64_rounding toF64
  by unfold_locales (simp_all add: toF64_mono toF64_int toF64_idem)

section \<open>Laws of the operators\<close>

lemma js_le_NegZero: "js_le NegZero y = js_le (Fin 0) y" "js_le y NegZero = js_le y (Fin 0)"
  by (cases y; simp)+

lemma toF64_nonneg: "0 \<le> q \<Longrightarrow> js_le (Fin 0) (toF64 q)"
  using toF64_mono [of 0 q] by simp

lemma toF64_nonpos: "q \<le> 0 \<Longrightarrow> js_le (toF64 q) (Fin 0)"
  using toF64_mono [of q 0] by simp

lemma js_le_finite: "isFinite x \<Longrightarrow> isFinite y \<Longrightarrow> js_le x y \<longleftrightarrow> num x \<le> num y"
  by (cases x; cases y) auto

lemma f64_kind: "isFinite x \<or> isInf x \<or> x = NaN"
  by (cases x) simp_all

lemma js_add_inf:
  "js_add PInf y = (if y = NaN \<or> y = NInf then NaN else PInf)"
  "js_add NInf y = (if y = NaN \<or> y = PInf then NaN else NInf)"
  "js_add y PInf = (if y = NaN \<or> y = NInf then NaN else PInf)"
  "js_add y NInf = (if y = NaN \<or> y = PInf then NaN else NInf)"
  by (cases y; simp)+

lemma js_add_le:
  assumes "isFinite x" "isFinite y"
  shows "js_le (js_add x y) z = js_le (toF64 (num x + num y)) z"
    "js_le z (js_add x y) = js_le z (toF64 (num x + num y))"
  using assms by (cases x; cases y; simp add: js_le_NegZero)+

lemma js_add_mono:
  assumes "js_le a x" "js_le b y" "js_add a b \<noteq> NaN" "js_add x y \<noteq> NaN"
  shows "js_le (js_add a b) (js_add x y)"
proof (cases "isFinite a \<and> isFinite b \<and> isFinite x \<and> isFinite y")
  case True
  with assms show ?thesis by (simp add: js_add_le js_le_finite toF64_mono add_mono)
next
  case False
  then consider "isInf a" | "isInf b" | "isInf x" | "isInf y" | "a = NaN \<or> b = NaN \<or> x = NaN \<or> y = NaN"
    using f64_kind by metis
  then show ?thesis
  proof cases
    case 1 with assms show ?thesis by (cases a) (auto simp: js_add_inf split: if_splits)
  next
    case 2 with assms show ?thesis by (cases b) (auto simp: js_add_inf split: if_splits)
  next
    case 3 with assms show ?thesis by (cases x) (auto simp: js_add_inf split: if_splits)
  next
    case 4 with assms show ?thesis by (cases y) (auto simp: js_add_inf split: if_splits)
  next
    case 5 with assms show ?thesis using js_le_not_NaN by blast
  qed
qed

lemma js_neg_neg [simp]: "js_neg (js_neg x) = x"
  by (cases x) auto

lemma js_neg_NaN [simp]: "js_neg x = NaN \<longleftrightarrow> x = NaN"
  by (cases x) auto

lemma js_neg_inf [simp]: "js_neg x = PInf \<longleftrightarrow> x = NInf" "js_neg x = NInf \<longleftrightarrow> x = PInf"
  by (cases x; simp)+

lemma js_le_neg_swap: "js_le (js_neg x) y = js_le (js_neg y) x" "js_le x (js_neg y) = js_le y (js_neg x)"
  by (metis js_le_neg js_neg_neg)+

lemma isInteger_neg [simp]: "isInteger (js_neg x) = isInteger x"
  by (cases x) (auto simp: isInteger_Fin)

lemma isFinite_isInteger: "isInteger x \<Longrightarrow> isFinite x"
  by (simp add: isInteger_def)

lemma isInteger_num: "isInteger x \<longleftrightarrow> isFinite x \<and> num x \<in> \<int>"
  by (cases x) (auto simp: isInteger_Fin)

lemma js_add_NaN:
  "js_add x y = NaN \<longleftrightarrow> x = NaN \<or> y = NaN \<or> (x = PInf \<and> y = NInf) \<or> (x = NInf \<and> y = PInf)"
  by (cases x; cases y) auto

lemma js_add_int:
  assumes "isInteger x" "isInteger y"
  shows "isInteger (js_add x y) \<or> isInf (js_add x y)"
proof -
  have "num x + num y \<in> \<int>" using assms by (simp add: isInteger_num)
  then show ?thesis using assms toF64_int
    by (cases x; cases y) (auto simp del: isInf.simps)
qed

lemma js_mul_NaN:
  "js_mul x y = NaN \<longleftrightarrow> x = NaN \<or> y = NaN \<or> (isInf x \<and> isZero y) \<or> (isZero x \<and> isInf y)"
  by (cases x; cases y) (auto simp: js_mul_def Let_def isZero_def signedInf_def signedZero_def)

lemma js_mul_int:
  assumes "isInteger x" "isInteger y"
  shows "isInteger (js_mul x y) \<or> isInf (js_mul x y)"
proof -
  have "num x * num y \<in> \<int>" using assms by (simp add: isInteger_num)
  moreover have "\<not> isInf x" "\<not> isInf y" "x \<noteq> NaN" "y \<noteq> NaN" using assms by (cases x; cases y; simp)+
  ultimately show ?thesis
    using toF64_int [of "num x * num y"] by (simp add: js_mul_def Let_def signedZero_def isInteger_Fin)
qed

lemma wf_js_add: "wf_f64 (js_add x y)"
  by (cases x; cases y) (auto simp del: wf_f64.simps, auto)

lemma wf_js_neg: "wf_f64 x \<Longrightarrow> wf_f64 (js_neg x)"
  by (cases x) (auto simp: toF64_neg)

lemma wf_js_sub: "wf_f64 (js_sub x y)"
  by (simp add: js_sub_def wf_js_add)

lemma wf_js_mul: "wf_f64 (js_mul x y)"
  by (auto simp: js_mul_def Let_def signedInf_def signedZero_def)

lemma wf_js_div: "wf_f64 (js_div x y)"
  by (auto simp: js_div_def Let_def signedInf_def signedZero_def)

lemma wf_js_mod: "wf_f64 x \<Longrightarrow> wf_f64 (js_mod x y)"
  by (auto simp: js_mod_def Let_def signedZero_def)

section \<open>Laws of the Math functions\<close>

lemma ratTrunc_mono: "q \<le> r \<Longrightarrow> ratTrunc q \<le> ratTrunc r"
proof -
  assume qr: "q \<le> r"
  have "\<lceil>q\<rceil> \<le> \<lfloor>r\<rfloor>" if "q < 0" "0 \<le> r"
  proof -
    have "\<lceil>q\<rceil> \<le> 0" "0 \<le> \<lfloor>r\<rfloor>" using that by (simp_all add: ceiling_le_iff)
    then show ?thesis by (rule order_trans)
  qed
  then show ?thesis
    using ceiling_mono [OF qr] floor_mono [OF qr] qr by (simp add: ratTrunc_def)
qed

lemma num_intF64 [simp]: "num (intF64 b n) = of_int n"
  by (simp add: intF64_def signedZero_def)

lemma isFinite_intF64 [simp]: "isFinite (intF64 b n)"
  by (simp add: intF64_def signedZero_def)

lemma isInteger_intF64 [simp]: "isInteger (intF64 b n)"
  by (simp add: isInteger_num)

lemma js_le_intF64 [simp]:
  "js_le (intF64 b n) (Fin q) \<longleftrightarrow> of_int n \<le> q" "js_le (Fin q) (intF64 b n) \<longleftrightarrow> q \<le> of_int n"
  "js_le (intF64 b n) (intF64 c m) \<longleftrightarrow> n \<le> m" "js_le NegZero (intF64 b n) \<longleftrightarrow> 0 \<le> n"
  "js_le (intF64 b n) NegZero \<longleftrightarrow> n \<le> 0" "intF64 b n \<noteq> NaN" "js_le PInf (intF64 b n) = False"
  "js_le (intF64 b n) NInf = False"
  by (simp_all add: js_le_finite) (simp_all add: intF64_def signedZero_def)

lemma ratTrunc_sign: "0 \<le> q \<Longrightarrow> 0 \<le> ratTrunc q" "q \<le> 0 \<Longrightarrow> ratTrunc q \<le> 0"
  by (auto simp: ratTrunc_def)

lemma math_trunc_mono: "js_le x y \<Longrightarrow> js_le (math_trunc x) (math_trunc y)"
  by (cases x; cases y) (auto simp: ratTrunc_mono ratTrunc_sign)

lemma math_floor_mono: "js_le x y \<Longrightarrow> js_le (math_floor x) (math_floor y)"
  by (cases x; cases y) (auto simp: floor_mono)

lemma math_ceil_mono: "js_le x y \<Longrightarrow> js_le (math_ceil x) (math_ceil y)"
  by (cases x; cases y) (auto simp: ceiling_mono ceiling_le_zero intro: order_trans)

lemma math_round_mono: "js_le x y \<Longrightarrow> js_le (math_round x) (math_round y)"
  by (cases x; cases y) (auto simp: le_floor_iff floor_le_iff intro: order_trans [OF of_int_floor_le])

lemma math_int [simp]:
  "isInteger (math_trunc x) = isFinite x" "isInteger (math_floor x) = isFinite x"
  "isInteger (math_ceil x) = isFinite x" "isInteger (math_round x) = isFinite x"
  by (cases x; simp add: isInteger_Fin)+

lemma math_NaN [simp]:
  "math_trunc x = NaN \<longleftrightarrow> x = NaN" "math_floor x = NaN \<longleftrightarrow> x = NaN"
  "math_ceil x = NaN \<longleftrightarrow> x = NaN" "math_round x = NaN \<longleftrightarrow> x = NaN" "math_abs x = NaN \<longleftrightarrow> x = NaN"
  by (cases x; simp)+

text \<open>A representable value of magnitude at least \<open>2\<^sup>5\<^sup>3\<close> is an integer, so rounding
  functions return representable values.\<close>

lemma wf_large_int:
  assumes "wf_f64 (Fin q)" "2 ^ 53 \<le> \<bar>q\<bar>"
  shows "q \<in> \<int>"
proof -
  have q: "0 < \<bar>q\<bar>" "pow2 53 \<le> \<bar>q\<bar>" using assms(2) by (auto simp: pow2_def)
  have "q \<noteq> 0" using q by auto
  then have e: "\<bar>q\<bar> = roundMag \<bar>q\<bar>"
    using assms(1) by (auto simp: toF64_def Let_def split: if_splits)
  have "53 \<le> ilog2 \<bar>q\<bar>"
  proof -
    have "pow2 53 < pow2 (ilog2 \<bar>q\<bar> + 1)" using ilog2_bounds(2) [OF q(1)] q(2) by linarith
    then show ?thesis by simp
  qed
  then have "0 \<le> ulpExp \<bar>q\<bar>" by (simp add: ulpExp_def)
  then have "\<bar>q\<bar> \<in> \<int>" by (subst e) (simp add: roundMag_def pow2_Ints)
  then show ?thesis by (cases "q < 0") auto
qed

lemma wf_int_round:
  assumes "wf_f64 (Fin q)" "n = \<lfloor>q\<rfloor> \<or> n = \<lceil>q\<rceil> \<or> n = \<lfloor>q + 1/2\<rfloor>"
  shows "wf_f64 (Fin (of_int n))"
proof (cases "2 ^ 53 \<le> \<bar>q\<bar>")
  case True
  then obtain z where z: "q = of_int z" using wf_large_int [OF assms(1)] by (auto elim: Ints_cases)
  have "\<lfloor>of_int z + 1/2 :: rat\<rfloor> = z" by linarith
  with assms z show ?thesis by auto
next
  case False
  then have "\<bar>n\<bar> \<le> 2 ^ 53" using assms(2) by (auto; linarith)
  then show ?thesis by (rule wf_small_int)
qed

lemma wf_intF64: "wf_f64 (Fin (of_int n)) \<Longrightarrow> wf_f64 (intF64 b n)"
  by (simp add: intF64_def signedZero_def)

lemma wf_math:
  assumes "wf_f64 x"
  shows "wf_f64 (math_trunc x)" "wf_f64 (math_floor x)" "wf_f64 (math_ceil x)"
    "wf_f64 (math_round x)" "wf_f64 (math_abs x)"
  using assms
  by (cases x; auto simp: ratTrunc_def abs_if toF64_neg simp del: wf_f64.simps
      intro!: wf_intF64 wf_int_round; simp add: toF64_neg abs_if)+


section \<open>Minimum, maximum and remainder\<close>

lemma min2_NaN [simp]: "min2 x y = NaN \<longleftrightarrow> x = NaN \<or> y = NaN"
  by (auto simp: min2_def)

lemma max2_NaN [simp]: "max2 x y = NaN \<longleftrightarrow> x = NaN \<or> y = NaN"
  by (auto simp: max2_def)

lemma le_min2: "js_le z (min2 x y) \<longleftrightarrow> js_le z x \<and> js_le z y"
  by (cases x; cases y; cases z) (auto simp: min2_def)

lemma max2_le: "js_le (max2 x y) z \<longleftrightarrow> js_le x z \<and> js_le y z"
  by (cases x; cases y; cases z) (auto simp: max2_def)

lemma min2_le: "x \<noteq> NaN \<Longrightarrow> y \<noteq> NaN \<Longrightarrow> js_le (min2 x y) z \<longleftrightarrow> js_le x z \<or> js_le y z"
  by (cases x; cases y; cases z) (auto simp: min2_def)

lemma le_max2: "x \<noteq> NaN \<Longrightarrow> y \<noteq> NaN \<Longrightarrow> js_le z (max2 x y) \<longleftrightarrow> js_le z x \<or> js_le z y"
  by (cases x; cases y; cases z) (auto simp: max2_def)

lemma min2_cases: "min2 x y = x \<or> min2 x y = y"
  by (auto simp: min2_def)

lemma max2_cases: "max2 x y = x \<or> max2 x y = y"
  by (auto simp: max2_def)

lemma foldl_min2_all:
  assumes "\<forall>x\<in>set xs. x \<noteq> NaN" "x0 \<noteq> NaN"
  shows "(js_le (foldl min2 x0 xs) z \<longleftrightarrow> js_le x0 z \<or> (\<exists>x\<in>set xs. js_le x z)) \<and>
    (js_le z (foldl min2 x0 xs) \<longleftrightarrow> js_le z x0 \<and> (\<forall>x\<in>set xs. js_le z x)) \<and>
    foldl min2 x0 xs \<noteq> NaN"
  using assms by (induction xs arbitrary: x0) (simp_all add: min2_le le_min2 disj_assoc conj_assoc)

lemma foldl_max2_all:
  assumes "\<forall>x\<in>set xs. x \<noteq> NaN" "x0 \<noteq> NaN"
  shows "(js_le z (foldl max2 x0 xs) \<longleftrightarrow> js_le z x0 \<or> (\<exists>x\<in>set xs. js_le z x)) \<and>
    (js_le (foldl max2 x0 xs) z \<longleftrightarrow> js_le x0 z \<and> (\<forall>x\<in>set xs. js_le x z)) \<and>
    foldl max2 x0 xs \<noteq> NaN"
  using assms by (induction xs arbitrary: x0) (simp_all add: max2_le le_max2 disj_assoc conj_assoc)

lemmas foldl_min2 = foldl_min2_all [THEN conjunct1] foldl_min2_all [THEN conjunct2, THEN conjunct1]
  foldl_min2_all [THEN conjunct2, THEN conjunct2]
lemmas foldl_max2 = foldl_max2_all [THEN conjunct1] foldl_max2_all [THEN conjunct2, THEN conjunct1]
  foldl_max2_all [THEN conjunct2, THEN conjunct2]

lemma math_min_lower:
  assumes "\<forall>x\<in>set xs. x \<noteq> NaN" "x \<in> set xs" "js_le x z"
  shows "js_le (math_min xs) z"
  using assms by (auto simp: math_min_def foldl_min2)

lemma math_max_upper:
  assumes "\<forall>x\<in>set xs. x \<noteq> NaN" "x \<in> set xs" "js_le z x"
  shows "js_le z (math_max xs)"
  using assms by (auto simp: math_max_def foldl_max2)

lemma le_math_min: "\<forall>x\<in>set xs. x \<noteq> NaN \<Longrightarrow> z \<noteq> NaN \<Longrightarrow> js_le z (math_min xs) \<longleftrightarrow> (\<forall>x\<in>set xs. js_le z x)"
  by (simp add: math_min_def foldl_min2)

lemma math_max_le: "\<forall>x\<in>set xs. x \<noteq> NaN \<Longrightarrow> z \<noteq> NaN \<Longrightarrow> js_le (math_max xs) z \<longleftrightarrow> (\<forall>x\<in>set xs. js_le x z)"
  by (simp add: math_max_def foldl_max2)

definition ratRem :: "rat \<Rightarrow> rat \<Rightarrow> rat" where
  "ratRem p q = p - q * of_int (ratTrunc (p / q))"

lemma ratTrunc_frac:
  "0 \<le> t \<Longrightarrow> 0 \<le> t - of_int (ratTrunc t) \<and> t - of_int (ratTrunc t) < 1"
  "t \<le> 0 \<Longrightarrow> - 1 < t - of_int (ratTrunc t) \<and> t - of_int (ratTrunc t) \<le> 0"
  unfolding ratTrunc_def by (auto; linarith)+

lemma ratRem_factor: "q \<noteq> 0 \<Longrightarrow> ratRem p q = q * (p / q - of_int (ratTrunc (p / q)))"
  by (simp add: ratRem_def right_diff_distrib)

lemma ratRem_bounds:
  assumes "q \<noteq> 0"
  shows "\<bar>ratRem p q\<bar> < \<bar>q\<bar>" "0 \<le> p \<Longrightarrow> 0 \<le> ratRem p q" "p \<le> 0 \<Longrightarrow> ratRem p q \<le> 0"
proof -
  let ?t = "p / q"
  let ?f = "?t - of_int (ratTrunc ?t)"
  have "\<bar>?f\<bar> < 1" using ratTrunc_frac [of ?t] by (cases "0 \<le> ?t") auto
  then show "\<bar>ratRem p q\<bar> < \<bar>q\<bar>" using assms by (simp add: ratRem_factor abs_mult)
  show "0 \<le> ratRem p q" if "0 \<le> p"
  proof (cases "0 < q")
    case True
    then have "0 \<le> ?f" using ratTrunc_frac(1) [of ?t] that by simp
    with True show ?thesis by (simp add: ratRem_factor assms)
  next
    case False
    then have "?f \<le> 0" using ratTrunc_frac(2) [of ?t] that by (simp add: divide_nonneg_nonpos)
    with False show ?thesis by (simp add: ratRem_factor assms mult_nonpos_nonpos)
  qed
  show "ratRem p q \<le> 0" if "p \<le> 0"
  proof (cases "0 < q")
    case True
    then have "?f \<le> 0" using ratTrunc_frac(2) [of ?t] that by (simp add: divide_nonpos_pos)
    with True show ?thesis by (simp add: ratRem_factor assms mult_nonneg_nonpos)
  next
    case False
    then have "0 \<le> ?f" using ratTrunc_frac(1) [of ?t] that by (simp add: divide_nonpos_nonpos)
    with False show ?thesis by (simp add: ratRem_factor assms mult_nonpos_nonneg)
  qed
qed

lemma ratRem_int: "p \<in> \<int> \<Longrightarrow> q \<in> \<int> \<Longrightarrow> ratRem p q \<in> \<int>"
  by (simp add: ratRem_def)

lemma js_mod_NaN: "js_mod x y = NaN \<longleftrightarrow> x = NaN \<or> y = NaN \<or> isInf x \<or> isZero y"
  by (auto simp: js_mod_def Let_def signedZero_def)

lemma js_mod_le:
  assumes "isFinite x" "isFinite y" "num y \<noteq> 0"
  shows "js_le z (js_mod x y) = js_le z (toF64 (ratRem (num x) (num y)))"
    "js_le (js_mod x y) z = js_le (toF64 (ratRem (num x) (num y))) z"
  using assms
  by (cases x; cases y;
      auto simp: js_mod_def Let_def isZero_def signedZero_def js_le_NegZero ratRem_def ratTrunc_def)+

lemma wf_abs: "wf_f64 (Fin q) \<Longrightarrow> toF64 \<bar>q\<bar> = Fin \<bar>q\<bar>"
  using toF64_neg [of q] by (cases "q = 0") (auto simp: abs_if)

lemma wf_num_abs: "wf_f64 y \<Longrightarrow> toF64 \<bar>num y\<bar> = Fin \<bar>num y\<bar>"
  by (cases y) (simp_all add: wf_abs del: wf_f64.simps)

lemma js_mod_bounds:
  assumes "isFinite x" "isFinite y" "num y \<noteq> 0" "wf_f64 y"
  shows "js_le (Fin (- \<bar>num y\<bar>)) (js_mod x y)" "js_le (js_mod x y) (Fin \<bar>num y\<bar>)"
proof -
  let ?r = "ratRem (num x) (num y)"
  have r: "- \<bar>num y\<bar> \<le> ?r" "?r \<le> \<bar>num y\<bar>"
    using ratRem_bounds(1) [OF assms(3), of "num x"] by auto
  have y: "toF64 \<bar>num y\<bar> = Fin \<bar>num y\<bar>" by (rule wf_num_abs [OF assms(4)])
  then have y': "toF64 (- \<bar>num y\<bar>) = Fin (- \<bar>num y\<bar>)"
    using assms(3) by (simp add: toF64_neg)
  show "js_le (Fin (- \<bar>num y\<bar>)) (js_mod x y)" "js_le (js_mod x y) (Fin \<bar>num y\<bar>)"
    using toF64_mono [OF r(1)] toF64_mono [OF r(2)] assms y y' by (simp_all add: js_mod_le)
qed

lemma js_mod_sign:
  assumes "isFinite x" "isFinite y" "num y \<noteq> 0"
  shows "0 \<le> num x \<Longrightarrow> js_le (Fin 0) (js_mod x y)" "num x \<le> 0 \<Longrightarrow> js_le (js_mod x y) (Fin 0)"
  using assms ratRem_bounds(2,3) [OF assms(3), of "num x"]
  by (simp_all add: js_mod_le toF64_nonneg toF64_nonpos)

lemma js_mod_int:
  assumes "isInteger x" "isInteger y" "num y \<noteq> 0" "wf_f64 y"
  shows "isInteger (js_mod x y)"
proof -
  have fin: "isFinite x" "isFinite y" using assms by (auto simp: isInteger_num)
  have "ratRem (num x) (num y) \<in> \<int>" using assms by (simp add: ratRem_int isInteger_num)
  then have r: "isInteger (toF64 (ratRem (num x) (num y))) \<or> isInf (toF64 (ratRem (num x) (num y)))"
    by (rule toF64_int)
  moreover have "\<not> isInf (js_mod x y)"
    using js_mod_bounds [OF fin assms(3,4)] by (cases "js_mod x y") auto
  ultimately show ?thesis using fin assms
    by (cases x; cases y;
        auto simp: js_mod_def Let_def isZero_def signedZero_def ratRem_def isInteger_Fin split: if_splits)
qed

end
