(* ===== verification/Corners.thy ===== *)
theory Corners
  imports JsNumber
begin

text \<open>
  Monotonicity of products and quotients of doubles, and the corner principle the interval
  transfer functions of \<^verbatim>\<open>int-infer.ts\<close> use for \<^verbatim>\<open>*\<close> and \<^verbatim>\<open>/\<close>.
\<close>

section \<open>Interval corners\<close>

text \<open>
  An operation that is monotone or antitone in each argument takes its extreme values
  on a box at the four corners. The interval transfer functions for products and
  quotients rest on this contract.
\<close>

locale corner_op =
  fixes f :: "f64 \<Rightarrow> f64 \<Rightarrow> f64" and L R :: "f64 \<Rightarrow> bool"
  assumes left_dir: "R y \<Longrightarrow>
      (\<forall>x x'. L x \<longrightarrow> L x' \<longrightarrow> js_le x x' \<longrightarrow> js_le (f x y) (f x' y)) \<or>
      (\<forall>x x'. L x \<longrightarrow> L x' \<longrightarrow> js_le x x' \<longrightarrow> js_le (f x' y) (f x y))"
    and right_dir: "L x \<Longrightarrow>
      (\<forall>y y'. R y \<longrightarrow> R y' \<longrightarrow> js_le y y' \<longrightarrow> js_le (f x y) (f x y')) \<or>
      (\<forall>y y'. R y \<longrightarrow> R y' \<longrightarrow> js_le y y' \<longrightarrow> js_le (f x y') (f x y))"
begin

definition corners :: "f64 \<Rightarrow> f64 \<Rightarrow> f64 \<Rightarrow> f64 \<Rightarrow> f64 list" where
  "corners a b c d = [f a c, f a d, f b c, f b d]"

lemma corners_enclose:
  assumes L: "L a" "L b" "L x" and R: "R c" "R d" "R y"
    and x: "js_le a x" "js_le x b" and y: "js_le c y" "js_le y d"
  shows "\<exists>p\<in>set (corners a b c d). js_le p (f x y)" "\<exists>p\<in>set (corners a b c d). js_le (f x y) p"
proof -
  have "js_le (f a y) (f x y) \<and> js_le (f x y) (f b y) \<or> js_le (f b y) (f x y) \<and> js_le (f x y) (f a y)"
    using left_dir [OF R(3)] L x by (elim disjE) (meson, meson)
  then obtain e e' where e: "e = a \<or> e = b" "js_le (f e y) (f x y)"
    and e': "e' = a \<or> e' = b" "js_le (f x y) (f e' y)" by metis
  have mid: "js_le (f u c) (f u y) \<and> js_le (f u y) (f u d) \<or> js_le (f u d) (f u y) \<and> js_le (f u y) (f u c)"
    if "L u" for u
    using right_dir [OF that] R y by (elim disjE) simp_all
  obtain g g' where g: "g = c \<or> g = d" "js_le (f e g) (f e y)"
    and g': "g' = c \<or> g' = d" "js_le (f e' y) (f e' g')"
    using mid [of e] mid [of e'] L e(1) e'(1) by metis
  have "js_le (f e g) (f x y)" "js_le (f x y) (f e' g')"
    using js_le_trans [OF g(2) e(2)] js_le_trans [OF e'(2) g'(2)] by simp_all
  then show "\<exists>p\<in>set (corners a b c d). js_le p (f x y)" "\<exists>p\<in>set (corners a b c d). js_le (f x y) p"
    using e(1) g(1) e'(1) g'(1) by (auto simp: corners_def)
qed

end

text \<open>\<^verbatim>\<open>boundMul\<close> of int-infer.ts: the product of two interval endpoints, with
  \<open>0 \<cdot> \<infinity> = 0\<close> (the NaN of that product is tracked by a separate flag).\<close>

definition boundMul :: "f64 \<Rightarrow> f64 \<Rightarrow> f64" where
  "boundMul a b = (if js_eq a (Fin 0) \<or> js_eq b (Fin 0) then Fin 0 else js_mul a b)"

lemma js_eq_zero: "js_eq a (Fin 0) = isZero a"
  by (cases a) (auto simp: js_eq_def isZero_def)

lemma boundMul_finite:
  assumes "isFinite x" "isFinite y"
  shows "boundMul x y = toF64 (num x * num y)"
  using assms
  by (cases x; cases y) (auto simp: boundMul_def js_eq_zero isZero_def js_mul_def Let_def)

lemma boundMul_inf:
  "\<not> isZero x \<Longrightarrow> x \<noteq> NaN \<Longrightarrow> boundMul x PInf = signedInf (isNegative x)"
  "\<not> isZero x \<Longrightarrow> x \<noteq> NaN \<Longrightarrow> boundMul x NInf = signedInf (\<not> isNegative x)"
  "isZero x \<Longrightarrow> boundMul x y = Fin 0"
  by (cases x; auto simp: boundMul_def js_eq_zero isZero_def js_mul_def Let_def)+

lemma js_mul_commute: "js_mul x y = js_mul y x"
proof -
  have "(isNegative x \<noteq> isNegative y) = (isNegative y \<noteq> isNegative x)" by auto
  then show ?thesis by (simp add: js_mul_def Let_def mult.commute disj_commute conj_commute)
qed

lemma boundMul_commute: "boundMul x y = boundMul y x"
  by (auto simp: boundMul_def js_mul_commute)

lemma boundMul_not_NaN: "x \<noteq> NaN \<Longrightarrow> y \<noteq> NaN \<Longrightarrow> boundMul x y \<noteq> NaN"
  by (auto simp: boundMul_def js_eq_zero js_mul_NaN)

lemma js_mul_boundMul:
  assumes "js_mul x y \<noteq> NaN"
  shows "js_le (js_mul x y) z = js_le (boundMul x y) z" "js_le z (js_mul x y) = js_le z (boundMul x y)"
proof -
  have "isZero x \<or> isZero y \<Longrightarrow> js_mul x y = Fin 0 \<or> js_mul x y = NegZero"
    using assms by (auto simp: js_mul_def Let_def isZero_def signedZero_def split: if_splits)
  then show "js_le (js_mul x y) z = js_le (boundMul x y) z" "js_le z (js_mul x y) = js_le z (boundMul x y)"
    by (auto simp: boundMul_def js_eq_zero js_le_NegZero)
qed

lemma isZero_simps [simp]:
  "isZero NegZero" "isZero (Fin q) = (q = 0)" "\<not> isZero PInf" "\<not> isZero NInf" "\<not> isZero NaN"
  by (simp_all add: isZero_def)

lemma boundMul_Fin [simp]: "boundMul (Fin p) (Fin q) = toF64 (p * q)"
  "boundMul NegZero y = Fin 0" "boundMul y NegZero = Fin 0"
  by (simp_all add: boundMul_finite) (simp_all add: boundMul_def js_eq_zero)

lemma boundMul_infs [simp]:
  "boundMul PInf PInf = PInf" "boundMul PInf NInf = NInf" "boundMul NInf PInf = NInf"
  "boundMul NInf NInf = PInf"
  "boundMul (Fin q) PInf = (if q = 0 then Fin 0 else if q < 0 then NInf else PInf)"
  "boundMul (Fin q) NInf = (if q = 0 then Fin 0 else if q < 0 then PInf else NInf)"
  "boundMul PInf (Fin q) = (if q = 0 then Fin 0 else if q < 0 then NInf else PInf)"
  "boundMul NInf (Fin q) = (if q = 0 then Fin 0 else if q < 0 then PInf else NInf)"
  by (auto simp: boundMul_def js_eq_zero js_mul_def signedInf_def)

lemma boundMul_mono:
  assumes "js_le (Fin 0) y" "js_le x x'"
  shows "js_le (boundMul x y) (boundMul x' y)"
  using assms
  by (cases y; cases x; cases x')
    (auto simp: toF64_mono toF64_nonneg toF64_nonpos mult_right_mono mult_nonneg_nonneg mult_nonpos_nonneg)

lemma boundMul_anti:
  assumes "js_le y (Fin 0)" "js_le x x'"
  shows "js_le (boundMul x' y) (boundMul x y)"
  using assms
  by (cases y; cases x; cases x')
    (auto simp: toF64_mono toF64_nonneg toF64_nonpos mult_right_mono_neg mult_nonneg_nonpos mult_nonpos_nonpos)

interpretation mul_corners: corner_op boundMul "\<lambda>x. x \<noteq> NaN" "\<lambda>y. y \<noteq> NaN"
proof
  fix y :: f64 assume "y \<noteq> NaN"
  then have "js_le (Fin 0) y \<or> js_le y (Fin 0)" by (intro js_le_total) simp_all
  then show "(\<forall>x x'. x \<noteq> NaN \<longrightarrow> x' \<noteq> NaN \<longrightarrow> js_le x x' \<longrightarrow> js_le (boundMul x y) (boundMul x' y)) \<or>
      (\<forall>x x'. x \<noteq> NaN \<longrightarrow> x' \<noteq> NaN \<longrightarrow> js_le x x' \<longrightarrow> js_le (boundMul x' y) (boundMul x y))"
    using boundMul_mono boundMul_anti by blast
next
  fix x :: f64 assume "x \<noteq> NaN"
  then have "js_le (Fin 0) x \<or> js_le x (Fin 0)" by (intro js_le_total) simp_all
  then show "(\<forall>y y'. y \<noteq> NaN \<longrightarrow> y' \<noteq> NaN \<longrightarrow> js_le y y' \<longrightarrow> js_le (boundMul x y) (boundMul x y')) \<or>
      (\<forall>y y'. y \<noteq> NaN \<longrightarrow> y' \<noteq> NaN \<longrightarrow> js_le y y' \<longrightarrow> js_le (boundMul x y') (boundMul x y))"
    using boundMul_mono boundMul_anti by (metis boundMul_commute)
qed


text \<open>Quotients: with a divisor of one sign, and not both operands infinite.\<close>

lemma js_div_le:
  assumes "isFinite x" "isFinite y" "num y \<noteq> 0"
  shows "js_le (js_div x y) z = js_le (toF64 (num x / num y)) z"
    "js_le z (js_div x y) = js_le z (toF64 (num x / num y))"
  using assms by (cases x; cases y; simp add: js_div_def Let_def signedZero_def js_le_NegZero)+

lemma js_div_simps [simp]:
  "js_div PInf (Fin q) = (if q < 0 then NInf else PInf)"
  "js_div NInf (Fin q) = (if q < 0 then PInf else NInf)"
  by (simp_all add: js_div_def signedInf_def)

lemma js_div_by_inf:
  assumes "isFinite x"
  shows "js_le (js_div x PInf) z = js_le (Fin 0) z" "js_le z (js_div x PInf) = js_le z (Fin 0)"
    "js_le (js_div x NInf) z = js_le (Fin 0) z" "js_le z (js_div x NInf) = js_le z (Fin 0)"
  using assms by (cases x; simp add: js_div_def Let_def signedZero_def js_le_NegZero)+

lemma js_div_Fin_le [simp]:
  "q \<noteq> 0 \<Longrightarrow> js_le (js_div (Fin p) (Fin q)) z = js_le (toF64 (p / q)) z"
  "q \<noteq> 0 \<Longrightarrow> js_le z (js_div (Fin p) (Fin q)) = js_le z (toF64 (p / q))"
  "q \<noteq> 0 \<Longrightarrow> js_le (js_div NegZero (Fin q)) z = js_le (Fin 0) z"
  "q \<noteq> 0 \<Longrightarrow> js_le z (js_div NegZero (Fin q)) = js_le z (Fin 0)"
  "js_le (js_div (Fin p) PInf) z = js_le (Fin 0) z"
  "js_le z (js_div (Fin p) PInf) = js_le z (Fin 0)"
  "js_le (js_div NegZero PInf) z = js_le (Fin 0) z"
  "js_le z (js_div NegZero PInf) = js_le z (Fin 0)"
  by (simp_all add: js_div_le js_div_by_inf)

lemma js_div_neg_neg:
  assumes "y \<noteq> NaN" "\<not> isZero y"
  shows "js_div x (js_neg y) = js_neg (js_div x y)"
  using assms
  by (cases x; cases y)
    (auto simp: js_div_def Let_def signedZero_def signedInf_def toF64_neg simp flip: minus_divide_right)

lemma js_div_NaN [simp]:
  "js_div x y = NaN \<longleftrightarrow> x = NaN \<or> y = NaN \<or> isInf x \<and> isInf y \<or> isZero x \<and> isZero y"
  by (cases x; cases y) (auto simp: js_div_def Let_def signedZero_def signedInf_def)

text \<open>Left argument: increasing for a positive divisor.\<close>

lemma js_div_left_mono:
  assumes "js_lt (Fin 0) y" "js_le x x'" "isFinite y \<or> isFinite x \<and> isFinite x'"
  shows "js_le (js_div x y) (js_div x' y)"
  using assms
  by (cases y; cases x; cases x') (auto simp: toF64_mono toF64_nonneg toF64_nonpos divide_right_mono divide_nonpos_pos)

text \<open>Right argument: for a positive divisor, decreasing on a non-negative dividend and
  increasing on a non-positive one.\<close>

lemma js_div_right_anti:
  assumes "js_lt (Fin 0) y" "js_le y y'" "js_le (Fin 0) x" "isFinite x \<or> isFinite y \<and> isFinite y'"
  shows "js_le (js_div x y') (js_div x y)"
  using assms
  by (cases x; cases y; cases y') (auto simp: toF64_mono toF64_nonneg divide_left_mono)

lemma js_div_right_mono:
  assumes "js_lt (Fin 0) y" "js_le y y'" "js_le x (Fin 0)" "isFinite x \<or> isFinite y \<and> isFinite y'"
  shows "js_le (js_div x y) (js_div x y')"
  using assms
  by (cases x; cases y; cases y')
    (auto simp: toF64_mono toF64_nonpos divide_left_mono_neg divide_nonpos_pos)

interpretation div_fin: corner_op js_div "\<lambda>x. x \<noteq> NaN" "\<lambda>y. js_lt (Fin 0) y \<and> isFinite y"
proof
  fix x :: f64 assume "x \<noteq> NaN"
  then have "js_le (Fin 0) x \<or> js_le x (Fin 0)" by (intro js_le_total) simp_all
  then show "(\<forall>y y'. js_lt (Fin 0) y \<and> isFinite y \<longrightarrow> js_lt (Fin 0) y' \<and> isFinite y' \<longrightarrow> js_le y y' \<longrightarrow> js_le (js_div x y) (js_div x y')) \<or>
    (\<forall>y y'. js_lt (Fin 0) y \<and> isFinite y \<longrightarrow> js_lt (Fin 0) y' \<and> isFinite y' \<longrightarrow> js_le y y' \<longrightarrow> js_le (js_div x y') (js_div x y))"
    using js_div_right_mono js_div_right_anti by blast
qed (use js_div_left_mono in blast)

interpretation div_inf: corner_op js_div isFinite "js_lt (Fin 0)"
proof
  fix x :: f64 assume x: "isFinite x"
  then have "js_le (Fin 0) x \<or> js_le x (Fin 0)" by (intro js_le_total) auto
  with x show "(\<forall>y y'. js_lt (Fin 0) y \<longrightarrow> js_lt (Fin 0) y' \<longrightarrow> js_le y y' \<longrightarrow> js_le (js_div x y) (js_div x y')) \<or>
    (\<forall>y y'. js_lt (Fin 0) y \<longrightarrow> js_lt (Fin 0) y' \<longrightarrow> js_le y y' \<longrightarrow> js_le (js_div x y') (js_div x y))"
    using js_div_right_mono js_div_right_anti by blast
qed (use js_div_left_mono in blast)

end
