(* ===== verification/JsText.thy ===== *)
theory JsText
  imports JsNumber
begin

text \<open>
  The text conversions of the language the compiler's own code calls: decimal digits,
  \<^verbatim>\<open>String(number)\<close> (Number::toString with the shortest digits that round-trip) and
  \<^verbatim>\<open>Number(string)\<close> on decimal integer spellings, which is all the integer
  inference feeds it (a \<^verbatim>\<open>numLit\<close> carries a spelling only for decimal integers).
\<close>

section \<open>Decimal digits\<close>

definition digitChar :: "int \<Rightarrow> char" where
  "digitChar d = char_of (48 + d)"

definition digitVal :: "char \<Rightarrow> int" where
  "digitVal c = of_char c - 48"

definition isDigit :: "char \<Rightarrow> bool" where
  "isDigit c = (48 \<le> (of_char c :: int) \<and> (of_char c :: int) \<le> 57)"

text \<open>Digits of a non-negative integer, most significant first.\<close>

function intDigits :: "int \<Rightarrow> string" where
  "intDigits n = (if n < 10 then [digitChar n] else intDigits (n div 10) @ [digitChar (n mod 10)])"
  by pat_completeness auto
termination by (relation "measure nat") auto

declare intDigits.simps [simp del]

definition digitsVal :: "string \<Rightarrow> int" where
  "digitsVal s = foldl (\<lambda>n c. 10 * n + digitVal c) 0 s"

lemma digitVal_digitChar [simp]: "0 \<le> d \<Longrightarrow> d < 10 \<Longrightarrow> digitVal (digitChar d) = d"
  by (simp add: digitVal_def digitChar_def)

lemma isDigit_digitChar [simp]: "0 \<le> d \<Longrightarrow> d < 10 \<Longrightarrow> isDigit (digitChar d)"
  by (simp add: isDigit_def digitChar_def)

lemma digitsVal_snoc [simp]: "digitsVal (s @ [c]) = 10 * digitsVal s + digitVal c"
  by (simp add: digitsVal_def)

lemma intDigits_digits: "0 \<le> n \<Longrightarrow> list_all isDigit (intDigits n)"
proof (induction n rule: intDigits.induct)
  case (1 n)
  then show ?case by (subst intDigits.simps) simp
qed

lemma intDigits_nonempty [simp]: "intDigits n \<noteq> []"
  by (subst intDigits.simps) simp

lemma digitsVal_intDigits [simp]: "0 \<le> n \<Longrightarrow> digitsVal (intDigits n) = n"
proof (induction n rule: intDigits.induct)
  case (1 n)
  then show ?case by (subst intDigits.simps) (auto simp: digitsVal_def)
qed

lemma intDigits_inj: "0 \<le> m \<Longrightarrow> 0 \<le> n \<Longrightarrow> intDigits m = intDigits n \<Longrightarrow> m = n"
  by (metis digitsVal_intDigits)

section \<open>String(number)\<close>

text \<open>The decimal exponent: the \<open>n\<close> with \<open>10\<^sup>n\<^sup>-\<^sup>1 \<le> q < 10\<^sup>n\<close>.\<close>

definition decExp :: "rat \<Rightarrow> int" where
  "decExp q =
     (if 1 \<le> q then int (length (intDigits \<lfloor>q\<rfloor>))
      else case find (\<lambda>m. 1 \<le> q * 10 ^ m) [1..<400] of
             Some m \<Rightarrow> 1 - int m | None \<Rightarrow> - 399)"

definition pow10 :: "int \<Rightarrow> rat" where
  "pow10 e = (if 0 \<le> e then 10 ^ nat e else 1 / 10 ^ nat (- e))"

text \<open>The \<open>k\<close>-digit significand closest to \<open>q\<close> with its decimal exponent (rounding up to
  \<open>10\<^sup>k\<close> moves the exponent), and the fewest digits that read back as \<open>q\<close> (17 always
  suffice for a double).\<close>

definition sigDigits :: "rat \<Rightarrow> nat \<Rightarrow> int \<times> int" where
  "sigDigits q k =
     (let n = decExp q; s = roundEven (q * pow10 (int k - n))
      in if s = 10 ^ k then (10 ^ (k - 1), n + 1) else (s, n))"

definition readsBack :: "rat \<Rightarrow> nat \<Rightarrow> bool" where
  "readsBack q k = (case sigDigits q k of (s, n) \<Rightarrow> toF64 (of_int s * pow10 (n - int k)) = Fin q)"

definition shortestDigits :: "rat \<Rightarrow> nat" where
  "shortestDigits q = (case find (readsBack q) [1..<17] of Some k \<Rightarrow> k | None \<Rightarrow> 17)"

definition posToString :: "rat \<Rightarrow> string" where
  "posToString q =
     (let k = shortestDigits q; n = snd (sigDigits q k); ds = intDigits (fst (sigDigits q k)) in
      if int k \<le> n \<and> n \<le> 21 then ds @ replicate (nat n - k) (CHR ''0'')
      else if 0 < n \<and> n \<le> 21 then take (nat n) ds @ ''.'' @ drop (nat n) ds
      else if - 6 < n \<and> n \<le> 0 then ''0.'' @ replicate (nat (- n)) (CHR ''0'') @ ds
      else let e = intDigits \<bar>n - 1\<bar>; sgn = (if n - 1 < 0 then ''-'' else ''+'') in
           if k = 1 then ds @ ''e'' @ sgn @ e
           else take 1 ds @ ''.'' @ drop 1 ds @ ''e'' @ sgn @ e)"

fun numToString :: "f64 \<Rightarrow> string" where
  "numToString NaN = ''NaN''"
| "numToString PInf = ''Infinity''"
| "numToString NInf = ''-Infinity''"
| "numToString NegZero = ''0''"
| "numToString (Fin q) = (if q = 0 then ''0'' else if q < 0 then ''-'' @ posToString (- q) else posToString q)"

section \<open>Number(string)\<close>

definition stringToNumber :: "string \<Rightarrow> f64" where
  "stringToNumber s =
     (if s \<noteq> [] \<and> list_all isDigit s then toF64 (of_int (digitsVal s)) else NaN)"

end
