(* ===== verification/AbsDomain.thy ===== *)
theory AbsDomain
  imports Corners JsText
begin

text \<open>
  The abstract number domain of \<^verbatim>\<open>packages/compiler/src/library/int-infer.ts\<close>: an
  interval over the extended reals with a wholeness flag, a may-be-NaN flag and the
  literal's spelling; its lattice operations, widening, the transfer function of every
  operator, branch refinement and the boundary check. \<open>gamma\<close> gives the set of doubles
  an abstract value stands for, and each operation is proved to over-approximate the
  IEEE-754 operation it abstracts.
\<close>

section \<open>Abstract values\<close>

definition SAFE_MAX :: f64 where
  "SAFE_MAX = Fin 9007199254740991"

definition SAFE_MIN :: f64 where
  "SAFE_MIN = js_neg SAFE_MAX"

record AbsVal =
  lo :: f64
  hi :: f64
  whole :: bool
  maybeNaN :: bool
  spelling :: "string option"

definition absVal :: "f64 \<Rightarrow> f64 \<Rightarrow> bool \<Rightarrow> bool \<Rightarrow> string option \<Rightarrow> AbsVal" where
  "absVal l h w n sp =
     (let l' = normZero l; h' = normZero h;
          w' = (if w \<and> \<not> (isFinite l' \<and> isFinite h') then False else w)
      in \<lparr>lo = l', hi = h', whole = w', maybeNaN = n, spelling = sp\<rparr>)"

definition TOP :: AbsVal where
  "TOP = \<lparr>lo = NInf, hi = PInf, whole = False, maybeNaN = True, spelling = None\<rparr>"

definition BOTTOM :: AbsVal where
  "BOTTOM = \<lparr>lo = PInf, hi = NInf, whole = True, maybeNaN = False, spelling = None\<rparr>"

definition isBottom :: "AbsVal \<Rightarrow> bool" where
  "isBottom v = (js_gt (lo v) (hi v) \<and> \<not> maybeNaN v)"

definition isSingleton :: "AbsVal \<Rightarrow> bool" where
  "isSingleton v = (js_eq (lo v) (hi v) \<and> \<not> maybeNaN v)"

definition hasNumeric :: "AbsVal \<Rightarrow> bool" where
  "hasNumeric v = js_le (lo v) (hi v)"

definition constVal :: "f64 \<Rightarrow> string option \<Rightarrow> AbsVal" where
  "constVal value sp =
     (if value = NaN
      then \<lparr>lo = PInf, hi = NInf, whole = False, maybeNaN = True, spelling = None\<rparr>
      else absVal value value (isInteger value) False sp)"

text \<open>Least upper bound.\<close>

definition join :: "AbsVal \<Rightarrow> AbsVal \<Rightarrow> AbsVal" where
  "join a b =
     (if isBottom a then b
      else if isBottom b then a
      else let numA = hasNumeric a; numB = hasNumeric b;
               l = (if numA \<and> numB then math_min [lo a, lo b] else if numA then lo a else lo b);
               h = (if numA \<and> numB then math_max [hi a, hi b] else if numA then hi a else hi b);
               w = ((if numA then whole a else True) \<and> (if numB then whole b else True));
               sp = (if spelling a \<noteq> None \<and> spelling a = spelling b then spelling a else None)
           in absVal l h w (maybeNaN a \<or> maybeNaN b) sp)"

definition sameVal :: "AbsVal \<Rightarrow> AbsVal \<Rightarrow> bool" where
  "sameVal a b = (js_eq (lo a) (lo b) \<and> js_eq (hi a) (hi b) \<and> whole a = whole b \<and>
     maybeNaN a = maybeNaN b \<and> spelling a = spelling b)"

section \<open>Threshold widening\<close>

definition WIDEN_THRESHOLDS :: "f64 list" where
  "WIDEN_THRESHOLDS = [Fin 0, Fin (2 ^ 31 - 1), Fin (2 ^ 32 - 1), SAFE_MAX, PInf]"

definition WIDEN_THRESHOLDS_NEG :: "f64 list" where
  "WIDEN_THRESHOLDS_NEG = [Fin 0, Fin (- (2 ^ 31)), SAFE_MIN, NInf]"

definition widen :: "AbsVal \<Rightarrow> AbsVal \<Rightarrow> AbsVal" where
  "widen prev nxt =
     (if isBottom prev then nxt
      else let l = (if js_lt (lo nxt) (lo prev)
                    then (case find (\<lambda>t. js_le t (lo nxt)) WIDEN_THRESHOLDS_NEG of
                            Some t \<Rightarrow> t | None \<Rightarrow> NInf)
                    else lo nxt);
               h = (if js_gt (hi nxt) (hi prev)
                    then (case find (\<lambda>t. js_ge t (hi nxt)) WIDEN_THRESHOLDS of
                            Some t \<Rightarrow> t | None \<Rightarrow> PInf)
                    else hi nxt)
           in absVal l h (whole nxt) (maybeNaN nxt) (spelling nxt))"

section \<open>Transfer functions\<close>

definition transferAdd :: "AbsVal \<Rightarrow> AbsVal \<Rightarrow> AbsVal" where
  "transferAdd a b =
     (let n = (maybeNaN a \<or> maybeNaN b) in
      if \<not> hasNumeric a \<or> \<not> hasNumeric b then BOTTOM\<lparr>maybeNaN := n\<rparr>
      else let n' = (if (hi a = PInf \<and> lo b = NInf) \<or> (lo a = NInf \<and> hi b = PInf) then True else n)
           in absVal (js_add (lo a) (lo b)) (js_add (hi a) (hi b)) (whole a \<and> whole b) n' None)"

definition transferSub :: "AbsVal \<Rightarrow> AbsVal \<Rightarrow> AbsVal" where
  "transferSub a b =
     (let n = (maybeNaN a \<or> maybeNaN b) in
      if \<not> hasNumeric a \<or> \<not> hasNumeric b then BOTTOM\<lparr>maybeNaN := n\<rparr>
      else let n' = (if (hi a = PInf \<and> hi b = PInf) \<or> (lo a = NInf \<and> lo b = NInf) then True else n)
           in absVal (js_sub (lo a) (hi b)) (js_sub (hi a) (lo b)) (whole a \<and> whole b) n' None)"

definition hasZero :: "AbsVal \<Rightarrow> bool" where
  "hasZero a = (js_le (lo a) (Fin 0) \<and> js_ge (hi a) (Fin 0))"

definition transferMul :: "AbsVal \<Rightarrow> AbsVal \<Rightarrow> AbsVal" where
  "transferMul a b =
     (let n = (maybeNaN a \<or> maybeNaN b) in
      if \<not> hasNumeric a \<or> \<not> hasNumeric b then BOTTOM\<lparr>maybeNaN := n\<rparr>
      else let aInf = (lo a = NInf \<or> hi a = PInf);
               bInf = (lo b = NInf \<or> hi b = PInf);
               n' = (if (hasZero a \<and> bInf) \<or> (hasZero b \<and> aInf) then True else n);
               p = [boundMul (lo a) (lo b), boundMul (lo a) (hi b),
                    boundMul (hi a) (lo b), boundMul (hi a) (hi b)]
           in absVal (math_min p) (math_max p) (whole a \<and> whole b) n' None)"

definition transferDiv :: "AbsVal \<Rightarrow> AbsVal \<Rightarrow> AbsVal" where
  "transferDiv a b =
     (let n = (maybeNaN a \<or> maybeNaN b) in
      if \<not> hasNumeric a \<or> \<not> hasNumeric b then BOTTOM\<lparr>maybeNaN := n\<rparr>
      else if isSingleton b \<and> js_eq (lo b) (Fin 0) then
        let nanPossible = (n \<or> hasZero a);
            l = (if js_lt (lo a) (Fin 0) then NInf else PInf);
            h = (if js_gt (hi a) (Fin 0) then PInf else NInf)
        in if js_gt l h then BOTTOM\<lparr>maybeNaN := nanPossible\<rparr> else absVal l h False nanPossible None
      else if hasZero b then TOP
      else let q = [js_div (lo a) (lo b), js_div (lo a) (hi b),
                    js_div (hi a) (lo b), js_div (hi a) (hi b)];
               l = math_min q; h = math_max q
           in absVal l h (js_eq l h \<and> isInteger l) n None)"

definition transferMod :: "AbsVal \<Rightarrow> AbsVal \<Rightarrow> AbsVal" where
  "transferMod a b =
     (let n = (maybeNaN a \<or> maybeNaN b) in
      if \<not> hasNumeric a \<or> \<not> hasNumeric b then BOTTOM\<lparr>maybeNaN := n\<rparr>
      else let n1 = (if hasZero b then True else n);
               n2 = (if lo a = NInf \<or> hi a = PInf then True else n1)
           in if isSingleton a \<and> isSingleton b \<and> \<not> n2 then constVal (js_mod (lo a) (lo b)) None
              else let dMax = math_max [math_abs (lo b), math_abs (hi b)];
                       bound = (if whole a \<and> whole b \<and> isFinite dMax
                                then js_sub dMax (Fin 1) else dMax);
                       l = (if js_lt (lo a) (Fin 0) then js_neg bound else Fin 0);
                       h = (if js_gt (hi a) (Fin 0) then bound else Fin 0)
                   in absVal l h (whole a \<and> whole b) n2 None)"

text \<open>The exponentiation operator is implementation-approximated in ECMAScript, so the
  engine's \<^verbatim>\<open>**\<close> is a parameter.\<close>

definition transferPow :: "(f64 \<Rightarrow> f64 \<Rightarrow> f64) \<Rightarrow> AbsVal \<Rightarrow> AbsVal \<Rightarrow> AbsVal" where
  "transferPow pow a b =
     (let n = (maybeNaN a \<or> maybeNaN b) in
      if \<not> hasNumeric a \<or> \<not> hasNumeric b then BOTTOM\<lparr>maybeNaN := n\<rparr>
      else if isSingleton a \<and> isSingleton b \<and> \<not> n then constVal (pow (lo a) (lo b)) None
      else if whole a \<and> whole b \<and> js_ge (lo b) (Fin 0) \<and> js_ge (lo a) (Fin 1)
      then absVal (pow (lo a) (lo b)) (pow (hi a) (hi b)) True n None
      else TOP)"

definition INT32_ABS :: AbsVal where
  "INT32_ABS = absVal (Fin (- (2 ^ 31))) (Fin (2 ^ 31 - 1)) True False None"

definition UINT32_ABS :: AbsVal where
  "UINT32_ABS = absVal (Fin 0) (Fin (2 ^ 32 - 1)) True False None"

definition bitwiseOp :: "string \<Rightarrow> f64 \<Rightarrow> f64 \<Rightarrow> f64" where
  "bitwiseOp op x y =
     (if op = ''&'' then js_and x y
      else if op = ''|'' then js_or x y
      else if op = ''^'' then js_xor x y
      else if op = ''<<'' then js_shl x y
      else if op = ''>>'' then js_sar x y
      else js_shr x y)"

definition transferBitwise :: "string \<Rightarrow> AbsVal \<Rightarrow> AbsVal \<Rightarrow> AbsVal" where
  "transferBitwise op a b =
     (if isSingleton a \<and> isSingleton b then constVal (bitwiseOp op (lo a) (lo b)) None
      else if op = ''>>>'' then UINT32_ABS
      else INT32_ABS)"

definition transferBitNot :: "AbsVal \<Rightarrow> AbsVal" where
  "transferBitNot a = (if isSingleton a then constVal (js_bitnot (lo a)) None else INT32_ABS)"

definition transferNeg :: "AbsVal \<Rightarrow> AbsVal" where
  "transferNeg a =
     (if \<not> hasNumeric a then BOTTOM\<lparr>maybeNaN := maybeNaN a\<rparr>
      else absVal (js_neg (hi a)) (js_neg (lo a)) (whole a) (maybeNaN a) None)"

definition BITWISE_OPS :: "string list" where
  "BITWISE_OPS = [''&'', ''|'', ''^'', ''<<'', ''>>'', ''>>>'']"

definition transferBin :: "(f64 \<Rightarrow> f64 \<Rightarrow> f64) \<Rightarrow> string \<Rightarrow> AbsVal \<Rightarrow> AbsVal \<Rightarrow> AbsVal" where
  "transferBin pow op a b =
     (if op = ''+'' then transferAdd a b
      else if op = ''-'' then transferSub a b
      else if op = ''*'' then transferMul a b
      else if op = ''/'' then transferDiv a b
      else if op = ''%'' then transferMod a b
      else if op = ''**'' then transferPow pow a b
      else if op \<in> set BITWISE_OPS then transferBitwise op a b
      else TOP)"

definition mathRoundFn :: "string \<Rightarrow> f64 \<Rightarrow> f64" where
  "mathRoundFn fn =
     (if fn = ''trunc'' then math_trunc else if fn = ''floor'' then math_floor
      else if fn = ''ceil'' then math_ceil else math_round)"

definition transferMathRound :: "string \<Rightarrow> AbsVal \<Rightarrow> AbsVal" where
  "transferMathRound fn a =
     (if \<not> hasNumeric a then BOTTOM\<lparr>maybeNaN := maybeNaN a\<rparr>
      else absVal (mathRoundFn fn (lo a)) (mathRoundFn fn (hi a)) True (maybeNaN a) None)"

definition transferAbs :: "AbsVal \<Rightarrow> AbsVal" where
  "transferAbs a =
     (if \<not> hasNumeric a then BOTTOM\<lparr>maybeNaN := maybeNaN a\<rparr>
      else let l = (if hasZero a then Fin 0 else math_min [math_abs (lo a), math_abs (hi a)])
           in absVal l (math_max [math_abs (lo a), math_abs (hi a)]) (whole a) (maybeNaN a) None)"

definition transferMinMax :: "string \<Rightarrow> AbsVal list \<Rightarrow> AbsVal" where
  "transferMinMax fn args =
     (let n = list_ex maybeNaN args in
      if list_ex (\<lambda>v. \<not> hasNumeric v) args then BOTTOM\<lparr>maybeNaN := n\<rparr>
      else let l = (if fn = ''min'' then math_min (map lo args) else math_max (map lo args));
               h = (if fn = ''min'' then math_min (map hi args) else math_max (map hi args))
           in absVal l h (list_all whole args) n None)"

section \<open>Branch refinement\<close>

definition meetInterval :: "AbsVal \<Rightarrow> f64 \<Rightarrow> f64 \<Rightarrow> bool \<Rightarrow> AbsVal" where
  "meetInterval v l h clearNaN =
     (let newLo = math_max [lo v, l]; newHi = math_min [hi v, h];
          n = (if clearNaN then False else maybeNaN v)
      in if js_gt newLo newHi then BOTTOM\<lparr>maybeNaN := n\<rparr>
         else absVal newLo newHi (whole v) n (spelling v))"

definition ORDERED_CMP_OPS :: "string list" where
  "ORDERED_CMP_OPS = [''<'', ''<='', ''>'', ''>='']"

definition CMP_OPS :: "string list" where
  "CMP_OPS = [''<'', ''<='', ''>'', ''>='', ''==='', ''!=='']"

definition NEGATE :: "string \<Rightarrow> string" where
  "NEGATE op = (if op = ''<'' then ''>='' else if op = ''<='' then ''>'' else if op = ''>'' then ''<=''
     else if op = ''>='' then ''<'' else if op = ''==='' then ''!=='' else ''==='')"

definition FLIP :: "string \<Rightarrow> string" where
  "FLIP op = (if op = ''<'' then ''>'' else if op = ''<='' then ''>='' else if op = ''>'' then ''<''
     else if op = ''>='' then ''<='' else op)"

definition clearNaNFlag :: "bool \<Rightarrow> AbsVal \<Rightarrow> AbsVal" where
  "clearNaNFlag clearNaN a = (if clearNaN then a\<lparr>maybeNaN := False\<rparr> else a)"

definition refineLhs :: "string \<Rightarrow> AbsVal \<Rightarrow> AbsVal \<Rightarrow> bool \<Rightarrow> AbsVal" where
  "refineLhs op a b clearNaN =
     (if \<not> hasNumeric b \<or> \<not> hasNumeric a then clearNaNFlag clearNaN a
      else if \<not> clearNaN \<and> maybeNaN b \<and> op \<in> set ORDERED_CMP_OPS then a
      else if op = ''<'' then
        meetInterval a NInf (if whole a then js_sub (math_ceil (hi b)) (Fin 1) else hi b) clearNaN
      else if op = ''<='' then
        meetInterval a NInf (if whole a then math_floor (hi b) else hi b) clearNaN
      else if op = ''>'' then
        meetInterval a (if whole a then js_add (math_floor (lo b)) (Fin 1) else lo b) PInf clearNaN
      else if op = ''>='' then
        meetInterval a (if whole a then math_ceil (lo b) else lo b) PInf clearNaN
      else if op = ''==='' then meetInterval a (lo b) (hi b) clearNaN
      else if op = ''!=='' then
        (if isSingleton b \<and> whole a \<and> isInteger (lo b) \<and> js_eq (lo a) (lo b)
         then meetInterval a (js_add (lo a) (Fin 1)) (hi a) clearNaN
         else if isSingleton b \<and> whole a \<and> isInteger (lo b) \<and> js_eq (hi a) (lo b)
         then meetInterval a (lo a) (js_sub (hi a) (Fin 1)) clearNaN
         else clearNaNFlag clearNaN a)
      else a)"

section \<open>The boundary check\<close>

datatype IntClass = I64 | U64

datatype IntObligation = Representability | Wholeness | Range

text \<open>A verdict: \<^verbatim>\<open>provenLo\<close>/\<^verbatim>\<open>provenHi\<close> of a proof, or the failed obligation of a
  refusal. The prose of \<^verbatim>\<open>detail\<close> and \<^verbatim>\<open>fix\<close> is diagnostic text and is left out.\<close>

datatype IntOutcome = Prove f64 f64 | Refuse IntObligation

definition spellingRoundTrips :: "string \<Rightarrow> bool" where
  "spellingRoundTrips sp = (numToString (stringToNumber sp) = sp)"

definition checkBoundary :: "AbsVal \<Rightarrow> IntClass \<Rightarrow> IntOutcome" where
  "checkBoundary v cls =
     (if (case spelling v of Some s \<Rightarrow> \<not> spellingRoundTrips s | None \<Rightarrow> False)
      then Refuse Representability
      else if isBottom v then Prove NaN NaN
      else if maybeNaN v then Refuse Wholeness
      else let mn = (if cls = U64 then Fin 0 else SAFE_MIN) in
           if \<not> (js_ge (lo v) mn \<and> js_le (hi v) SAFE_MAX) then Refuse Range
           else if \<not> whole v then Refuse Wholeness
           else Prove (lo v) (hi v))"

definition classSeed :: "string \<Rightarrow> AbsVal" where
  "classSeed cls =
     (if cls = ''i64'' then absVal SAFE_MIN SAFE_MAX True False None
      else if cls = ''u64'' then absVal (Fin 0) SAFE_MAX True False None
      else if cls = ''u8'' then absVal (Fin 0) (Fin 255) True False None
      else if cls = ''u32'' then UINT32_ABS
      else if cls = ''i32'' then INT32_ABS
      else TOP)"

end
