(* ===== verification/AbsSound.thy ===== *)
theory AbsSound
  imports AbsDomain
begin

text \<open>
  Soundness of the abstract number domain of \<^verbatim>\<open>library/int-infer.ts\<close>: the set of doubles an
  abstract value stands for (\<open>gamma\<close>), and the proofs that lattice operations, widening, the
  transfer functions, branch refinement and the boundary check over-approximate the IEEE-754
  operations and JavaScript comparisons they abstract. The last section has the cases the
  domain gets wrong: a bound that becomes NaN, and a divisor interval that hides a negative
  zero.
\<close>

section \<open>Concretisation\<close>

text \<open>The doubles an abstract value stands for: NaN lives outside the interval.\<close>

definition gamma :: "AbsVal \<Rightarrow> f64 \<Rightarrow> bool" where
  "gamma a x = (wf_f64 x \<and>
     (if x = NaN then maybeNaN a
      else js_le (lo a) x \<and> js_le x (hi a) \<and> (whole a \<longrightarrow> isInteger x)))"

lemma gamma_NaN [simp]: "gamma a NaN = maybeNaN a"
  by (simp add: gamma_def)

lemma gamma_numD:
  assumes "gamma a x" "x \<noteq> NaN"
  shows "js_le (lo a) x" "js_le x (hi a)" "whole a \<Longrightarrow> isInteger x" "hasNumeric a" "wf_f64 x"
  using assms js_le_trans by (auto simp: gamma_def hasNumeric_def)

lemma gamma_hasNumeric: "gamma a x \<Longrightarrow> \<not> hasNumeric a \<Longrightarrow> x = NaN"
  using gamma_numD(4) by blast

lemma gamma_TOP [simp]: "gamma TOP x = wf_f64 x"
  by (cases x) (auto simp: gamma_def TOP_def)

lemma absVal_sel [simp]:
  "maybeNaN (absVal l h w n sp) = n" "spelling (absVal l h w n sp) = sp"
  "lo (absVal l h w n sp) = normZero l" "hi (absVal l h w n sp) = normZero h"
  by (simp_all add: absVal_def Let_def)

lemma gamma_absVal:
  "gamma (absVal l h w n sp) x =
     (wf_f64 x \<and> (if x = NaN then n
        else js_le l x \<and> js_le x h \<and> (w \<and> isFinite l \<and> isFinite h \<longrightarrow> isInteger x)))"
proof -
  have f: "isFinite (normZero z) = isFinite z" for z by (cases z) auto
  show ?thesis by (auto simp: gamma_def absVal_def Let_def f)
qed

text \<open>An interval with finite bounds has finite members only; so a wholeness claim that
  holds up to infinities is the one \<open>absVal\<close> makes.\<close>

lemma finite_between: "js_le l x \<Longrightarrow> js_le x h \<Longrightarrow> isFinite l \<Longrightarrow> isFinite h \<Longrightarrow> isFinite x"
  by (cases x; cases l; cases h) auto

lemma gamma_absValI:
  assumes "wf_f64 x" "x \<noteq> NaN" "js_le l x" "js_le x h" "w \<Longrightarrow> isInteger x \<or> isInf x"
  shows "gamma (absVal l h w n sp) x"
proof -
  have "isInteger x" if "w" "isFinite l" "isFinite h"
    using assms(5) [OF that(1)] finite_between [OF assms(3,4) that(2,3)] by (cases x) auto
  with assms show ?thesis by (simp add: gamma_absVal)
qed

lemma gamma_bottom_NaN [simp]: "gamma (BOTTOM\<lparr>maybeNaN := n\<rparr>) x \<longleftrightarrow> n \<and> x = NaN"
  by (cases x) (auto simp: gamma_def BOTTOM_def)

lemma isBottom_gamma: "isBottom a \<Longrightarrow> \<not> gamma a x"
proof
  assume b: "isBottom a" and g: "gamma a x"
  show False
  proof (cases "x = NaN")
    case True with b g show False by (simp add: isBottom_def)
  next
    case False
    then have "js_le (lo a) (hi a)" using gamma_numD(4) [OF g] by (simp add: hasNumeric_def)
    with b show False by (simp add: isBottom_def js_lt_iff)
  qed
qed

lemma gamma_constVal: "wf_f64 x \<Longrightarrow> gamma (constVal x sp) x"
  by (cases "x = NaN") (simp_all add: constVal_def gamma_absVal js_le_refl)

lemma gamma_constVal_eq: "js_eq x y \<Longrightarrow> wf_f64 y \<Longrightarrow> y \<noteq> NaN \<Longrightarrow> isInteger x = isInteger y \<Longrightarrow> gamma (constVal x sp) y"
  using js_le_not_NaN [of x y] by (auto simp: constVal_def gamma_absVal js_eq_def)

section \<open>Lattice operations\<close>

lemma gamma_join1: "gamma a x \<Longrightarrow> gamma (join a b) x"
proof -
  assume g: "gamma a x"
  have nb: "\<not> isBottom a" using isBottom_gamma g by blast
  show ?thesis
  proof (cases "x = NaN")
    case True
    with g nb show ?thesis by (auto simp: join_def Let_def gamma_absVal)
  next
    case False
    note n = gamma_numD [OF g False]
    have "js_le (math_min [lo a, lo b]) x" if "hasNumeric b"
      using n(1) that js_le_not_NaN
      by (intro math_min_lower [of _ "lo a"]) (auto simp: hasNumeric_def)
    moreover have "js_le x (math_max [hi a, hi b])" if "hasNumeric b"
      using n(2) that js_le_not_NaN
      by (intro math_max_upper [of _ "hi a"]) (auto simp: hasNumeric_def)
    ultimately show ?thesis using g nb n False by (auto simp: join_def Let_def gamma_absVal)
  qed
qed

lemma gamma_join2: "gamma b x \<Longrightarrow> gamma (join a b) x"
proof -
  assume g: "gamma b x"
  have nb: "\<not> isBottom b" using isBottom_gamma g by blast
  show ?thesis
  proof (cases "x = NaN")
    case True
    with g nb show ?thesis by (auto simp: join_def Let_def gamma_absVal)
  next
    case False
    note n = gamma_numD [OF g False]
    have "js_le (math_min [lo a, lo b]) x" if "hasNumeric a"
      using n(1) that js_le_not_NaN
      by (intro math_min_lower [of _ "lo b"]) (auto simp: hasNumeric_def)
    moreover have "js_le x (math_max [hi a, hi b])" if "hasNumeric a"
      using n(2) that js_le_not_NaN
      by (intro math_max_upper [of _ "hi b"]) (auto simp: hasNumeric_def)
    ultimately show ?thesis using g nb n False by (auto simp: join_def Let_def gamma_absVal)
  qed
qed

lemma find_threshold:
  assumes "find P ts = Some t"
  shows "P t"
  using assms by (induction ts) (auto split: if_splits)

lemma gamma_widen: "gamma nxt x \<Longrightarrow> gamma (widen prev nxt) x"
proof (cases "x = NaN")
  case True
  then show "gamma nxt x \<Longrightarrow> gamma (widen prev nxt) x" by (auto simp: widen_def Let_def gamma_absVal)
next
  case False
  assume g: "gamma nxt x"
  note n = gamma_numD [OF g False]
  have l: "js_le (if js_lt (lo nxt) (lo prev) then (case find (\<lambda>t. js_le t (lo nxt)) WIDEN_THRESHOLDS_NEG of
       Some t \<Rightarrow> t | None \<Rightarrow> NInf) else lo nxt) x"
    using n(1) False js_le_trans [OF find_threshold [where P = "\<lambda>t. js_le t (lo nxt)"] n(1)]
    by (auto split: option.split)
  have h: "js_le x (if js_lt (hi prev) (hi nxt) then (case find (\<lambda>t. js_le (hi nxt) t) WIDEN_THRESHOLDS of
       Some t \<Rightarrow> t | None \<Rightarrow> PInf) else hi nxt)"
    using n(2) False js_le_trans [OF n(2) find_threshold [where P = "\<lambda>t. js_le (hi nxt) t"]]
    by (auto split: option.split)
  show ?thesis
    unfolding widen_def Let_def
    using g n l h False by (auto intro!: gamma_absValI)
qed


section \<open>Transfer functions over-approximate the operators\<close>

text \<open>
  A bound that came out as NaN (\<open>\<infinity> - \<infinity>\<close>, \<open>\<infinity> / \<infinity>\<close>) makes the analysis treat the value as
  having no numeric member, so the transfer functions are sound exactly as long as no bound is
  NaN: the predicate \<open>unbroken\<close>.
\<close>

definition unbroken :: "AbsVal \<Rightarrow> bool" where
  "unbroken a = (lo a \<noteq> NaN \<and> hi a \<noteq> NaN)"

lemma normZero_NaN [simp]: "normZero x = NaN \<longleftrightarrow> x = NaN"
  by (cases x) auto

lemma gamma_inf:
  assumes "gamma a x"
  shows "x = PInf \<Longrightarrow> hi a = PInf" "x = NInf \<Longrightarrow> lo a = NInf"
  using gamma_numD [OF assms] by auto

lemma gamma_zero: "gamma a x \<Longrightarrow> isZero x \<Longrightarrow> hasZero a"
proof -
  assume g: "gamma a x" and z: "isZero x"
  have "x \<noteq> NaN" using z by auto
  with gamma_numD(1,2) [OF g] z show ?thesis
    by (cases x) (auto simp: hasZero_def js_le_NegZero)
qed

lemma transferAdd_sound:
  assumes "gamma a x" "gamma b y" "unbroken (transferAdd a b)"
  shows "gamma (transferAdd a b) (js_add x y)"
proof (cases "js_add x y = NaN")
  case True
  then consider "x = NaN" | "y = NaN" | "x = PInf" "y = NInf" | "x = NInf" "y = PInf"
    by (auto simp: js_add_NaN)
  then have "maybeNaN (transferAdd a b)"
    using assms(1,2) gamma_inf [OF assms(1)] gamma_inf [OF assms(2)] gamma_numD(4) [OF assms(1)]
      gamma_numD(4) [OF assms(2)] by cases (auto simp: transferAdd_def Let_def)
  with True show ?thesis by simp
next
  case False
  then have xy: "x \<noteq> NaN" "y \<noteq> NaN" by (auto simp: js_add_NaN)
  note ax = gamma_numD [OF assms(1) xy(1)] and by' = gamma_numD [OF assms(2) xy(2)]
  have "js_add (lo a) (lo b) \<noteq> NaN" "js_add (hi a) (hi b) \<noteq> NaN"
    using assms(3) ax(4) by'(4) by (auto simp: unbroken_def transferAdd_def Let_def split: if_splits)
  then have "js_le (js_add (lo a) (lo b)) (js_add x y)" "js_le (js_add x y) (js_add (hi a) (hi b))"
    using js_add_mono [OF ax(1) by'(1)] js_add_mono [OF ax(2) by'(2)] False by auto
  moreover have "isInteger (js_add x y) \<or> isInf (js_add x y)" if "whole a \<and> whole b"
    using js_add_int [OF ax(3) by'(3)] that by simp
  ultimately show ?thesis
    using ax(4) by'(4) False wf_js_add by (auto simp: transferAdd_def Let_def intro!: gamma_absValI)
qed

lemma gamma_neg:
  assumes "gamma a x"
  shows "gamma (transferNeg a) (js_neg x)"
proof (cases "x = NaN")
  case True
  with assms show ?thesis by (auto simp: transferNeg_def)
next
  case False
  note n = gamma_numD [OF assms False]
  show ?thesis using n False wf_js_neg
    by (auto simp: transferNeg_def intro!: gamma_absValI)
qed

lemma transferSub_sound:
  assumes "gamma a x" "gamma b y" "unbroken (transferSub a b)"
  shows "gamma (transferSub a b) (js_sub x y)"
proof (cases "js_sub x y = NaN")
  case True
  then consider "x = NaN" | "y = NaN" | "x = PInf" "y = PInf" | "x = NInf" "y = NInf"
    by (auto simp: js_sub_def js_add_NaN)
  then have "maybeNaN (transferSub a b)"
    using assms(1,2) gamma_inf [OF assms(1)] gamma_inf [OF assms(2)] gamma_numD(4) [OF assms(1)]
      gamma_numD(4) [OF assms(2)] by cases (auto simp: transferSub_def Let_def)
  with True show ?thesis by simp
next
  case False
  then have xy: "x \<noteq> NaN" "y \<noteq> NaN" by (auto simp: js_sub_def js_add_NaN)
  note ax = gamma_numD [OF assms(1) xy(1)] and by' = gamma_numD [OF assms(2) xy(2)]
  have "js_sub (lo a) (hi b) \<noteq> NaN" "js_sub (hi a) (lo b) \<noteq> NaN"
    using assms(3) ax(4) by'(4) by (auto simp: unbroken_def transferSub_def Let_def split: if_splits)
  then have "js_le (js_sub (lo a) (hi b)) (js_sub x y)" "js_le (js_sub x y) (js_sub (hi a) (lo b))"
    using js_add_mono [OF ax(1), of "js_neg (hi b)" "js_neg y"]
      js_add_mono [OF ax(2), of "js_neg y" "js_neg (lo b)"] by'(1,2) False
    by (auto simp: js_sub_def)
  moreover have "isInteger (js_sub x y) \<or> isInf (js_sub x y)" if "whole a \<and> whole b"
    using js_add_int [OF ax(3), of "js_neg y"] by'(3) that by (simp add: js_sub_def)
  ultimately show ?thesis
    using ax(4) by'(4) False wf_js_sub by (auto simp: transferSub_def Let_def intro!: gamma_absValI)
qed

text \<open>The interval a corner list spans: the step every product and quotient rule ends with.\<close>

lemma gamma_corners:
  assumes "\<forall>p\<in>set ps. p \<noteq> NaN" "\<exists>p\<in>set ps. js_le p z" "\<exists>p\<in>set ps. js_le z p"
    "wf_f64 z" "w \<Longrightarrow> isInteger z \<or> isInf z"
  shows "gamma (absVal (math_min ps) (math_max ps) w n sp) z"
proof -
  obtain p q where "p \<in> set ps" "js_le p z" "q \<in> set ps" "js_le z q" using assms(2,3) by blast
  then have "js_le (math_min ps) z" "js_le z (math_max ps)" "z \<noteq> NaN"
    using math_min_lower math_max_upper assms(1) js_le_not_NaN by blast+
  then show ?thesis using assms(4,5) by (intro gamma_absValI) auto
qed

lemma gamma_kinds: "gamma a x \<Longrightarrow> x = NaN \<and> maybeNaN a \<or> x \<noteq> NaN \<and> hasNumeric a"
  using gamma_numD(4) by (cases "x = NaN") auto

lemma transferMul_sound:
  assumes "gamma a x" "gamma b y"
  shows "gamma (transferMul a b) (js_mul x y)"
proof (cases "js_mul x y = NaN")
  case True
  then consider "x = NaN" | "y = NaN" | "isInf x" "isZero y" | "isZero x" "isInf y"
    by (auto simp: js_mul_NaN)
  then have "maybeNaN (transferMul a b)"
  proof cases
    case 3
    then have "x \<noteq> NaN" "y \<noteq> NaN" "x = PInf \<or> x = NInf" by (cases x; auto)+
    then show ?thesis using gamma_inf [OF assms(1)] gamma_zero [OF assms(2) 3(2)]
        gamma_numD(4) [OF assms(1)] gamma_numD(4) [OF assms(2)] by (auto simp: transferMul_def Let_def)
  next
    case 4
    then have "x \<noteq> NaN" "y \<noteq> NaN" "y = PInf \<or> y = NInf" by (cases y; auto)+
    then show ?thesis using gamma_inf [OF assms(2)] gamma_zero [OF assms(1) 4(1)]
        gamma_numD(4) [OF assms(1)] gamma_numD(4) [OF assms(2)] by (auto simp: transferMul_def Let_def)
  qed (use assms in \<open>auto simp: transferMul_def Let_def\<close>)
  with True show ?thesis by simp
next
  case False
  then have xy: "x \<noteq> NaN" "y \<noteq> NaN" by (auto simp: js_mul_NaN)
  note ax = gamma_numD [OF assms(1) xy(1)] and by' = gamma_numD [OF assms(2) xy(2)]
  have nn: "lo a \<noteq> NaN" "hi a \<noteq> NaN" "lo b \<noteq> NaN" "hi b \<noteq> NaN"
    using ax(1,2) by'(1,2) js_le_not_NaN by blast+
  note c = mul_corners.corners_enclose [OF nn(1,2) xy(1) nn(3,4) xy(2) ax(1,2) by'(1,2)]
  have "isInteger (js_mul x y) \<or> isInf (js_mul x y)" if "whole a \<and> whole b"
    using js_mul_int ax(3) by'(3) that by blast
  then have "gamma (absVal (math_min (mul_corners.corners (lo a) (hi a) (lo b) (hi b)))
      (math_max (mul_corners.corners (lo a) (hi a) (lo b) (hi b))) (whole a \<and> whole b) n sp) (js_mul x y)" for n sp
    using c nn by (intro gamma_corners) (auto simp: js_mul_boundMul [OF False] mul_corners.corners_def
        boundMul_not_NaN wf_js_mul)
  then show ?thesis using ax(4) by'(4) by (auto simp: transferMul_def Let_def mul_corners.corners_def)
qed

text \<open>Quotients: a divisor interval that excludes zero lies on one side of it.\<close>

lemma js_div_neg_corner: "y \<noteq> NaN \<Longrightarrow> \<not> isZero y \<Longrightarrow>
  js_div x y = js_neg (js_div x (js_neg y))"
  by (simp add: js_div_neg_neg)

lemma div_enclose_pos:
  assumes x: "js_le l x" "js_le x h" and y: "js_le l' y" "js_le y h'" and pos: "js_lt (Fin 0) l'"
    and nn: "\<forall>p\<in>{js_div l l', js_div l h', js_div h l', js_div h h'}. p \<noteq> NaN" and q: "js_div x y \<noteq> NaN"
  shows "\<exists>p\<in>{js_div l l', js_div l h', js_div h l', js_div h h'}. js_le p (js_div x y)"
    "\<exists>p\<in>{js_div l l', js_div l h', js_div h l', js_div h h'}. js_le (js_div x y) p"
proof -
  have yp: "js_lt (Fin 0) y" "js_lt (Fin 0) h'"
    using pos y js_le_trans js_lt_iff by (metis)+
  have xn: "l \<noteq> NaN" "x \<noteq> NaN" "h \<noteq> NaN" using x js_le_not_NaN by blast+
  have "(\<exists>p\<in>{js_div l l', js_div l h', js_div h l', js_div h h'}. js_le p (js_div x y)) \<and>
    (\<exists>p\<in>{js_div l l', js_div l h', js_div h l', js_div h h'}. js_le (js_div x y) p)"
  proof (cases "h' = PInf")
    case False
    then have fin: "isFinite l'" "isFinite h'" "isFinite y"
      using pos yp y by (cases l'; cases h'; cases y; auto)+
    show ?thesis using div_fin.corners_enclose [of l h x l' h' y] x y xn pos yp fin
      by (auto simp: div_fin.corners_def)
  next
    case True
    have ni: "\<not> isInf l" "\<not> isInf h" using nn True by auto
    then have fin: "isFinite l" "isFinite h" using xn f64_kind by blast+
    then have "isFinite x" using finite_between x by blast
    note c = div_inf.corners_enclose [OF fin this pos yp(2,1) x y]
    show ?thesis using c by (auto simp: div_inf.corners_def)
  qed
  then show "\<exists>p\<in>{js_div l l', js_div l h', js_div h l', js_div h h'}. js_le p (js_div x y)"
    "\<exists>p\<in>{js_div l l', js_div l h', js_div h l', js_div h h'}. js_le (js_div x y) p" by blast+
qed

lemma div_enclose_neg:
  assumes x: "js_le l x" "js_le x h" and y: "js_le l' y" "js_le y h'" and neg: "js_lt h' (Fin 0)"
    and nn: "\<forall>p\<in>{js_div l l', js_div l h', js_div h l', js_div h h'}. p \<noteq> NaN" and q: "js_div x y \<noteq> NaN"
  shows "\<exists>p\<in>{js_div l l', js_div l h', js_div h l', js_div h h'}. js_le p (js_div x y)"
    "\<exists>p\<in>{js_div l l', js_div l h', js_div h l', js_div h h'}. js_le (js_div x y) p"
proof -
  have nz: "\<not> isZero z \<and> z \<noteq> NaN" if "js_le z h'" for z
    using that neg by (cases z; cases h') auto
  have nzs: "\<not> isZero l'" "l' \<noteq> NaN" "\<not> isZero h'" "h' \<noteq> NaN" "\<not> isZero y" "y \<noteq> NaN"
    using nz [of l'] nz [of h'] nz [of y] y js_le_trans js_le_not_NaN js_le_refl by blast+
  have flip: "js_div u (js_neg z) = js_neg (js_div u z)" if "z \<in> {l', h', y}" for u z
    using that nzs js_div_neg_neg by auto
  have pos: "js_lt (Fin 0) (js_neg h')" using neg by (cases h') auto
  have sw: "js_le (js_neg u) (js_neg v) = js_le v u" for u v by simp
  have nn': "\<forall>p\<in>{js_div l (js_neg h'), js_div l (js_neg l'), js_div h (js_neg h'), js_div h (js_neg l')}. p \<noteq> NaN"
    "js_div x (js_neg y) \<noteq> NaN"
    using nn q by (simp_all add: flip del: js_div_NaN)
  note e = div_enclose_pos [OF x, of "js_neg h'" "js_neg y" "js_neg l'", unfolded sw, OF y(2,1) pos nn']
  show "\<exists>p\<in>{js_div l l', js_div l h', js_div h l', js_div h h'}. js_le p (js_div x y)"
    "\<exists>p\<in>{js_div l l', js_div l h', js_div h l', js_div h h'}. js_le (js_div x y) p"
    using e by (auto simp: flip simp del: js_div_NaN)
qed

lemma transferDiv_zero_sound:
  assumes "gamma a x" "gamma b y" "isSingleton b" "js_eq (lo b) (Fin 0)" "y \<noteq> NegZero"
  shows "gamma (transferDiv a b) (js_div x y)"
proof -
  have y: "y = Fin 0" using assms(2-5)
    by (cases y; cases "lo b"; cases "hi b") (auto simp: gamma_def isSingleton_def js_eq_def)
  have hb: "hasNumeric b" using gamma_numD(4) [OF assms(2)] y by simp
  show ?thesis
  proof (cases "js_div x y = NaN")
    case True
    then have "x = NaN \<or> isZero x" using y by simp
    then have "maybeNaN (transferDiv a b)"
      using assms(1,3,4) hb gamma_zero [OF assms(1)] gamma_kinds [OF assms(1)] by (auto simp: transferDiv_def Let_def)
    with True show ?thesis by (simp del: js_div_NaN)
  next
    case False
    then have x: "x \<noteq> NaN" "\<not> isZero x" using y by auto
    note ax = gamma_numD [OF assms(1) x(1)]
    have pos: "js_lt (lo a) (Fin 0)" if "isNegative x" using that ax(1) x by (cases x; cases "lo a") auto
    have neg: "js_lt (Fin 0) (hi a)" if "\<not> isNegative x" using that ax(2) x by (cases x; cases "hi a") auto
    have "js_div x y = signedInf (isNegative x)" using y x by (cases x) (auto simp: js_div_def Let_def)
    then show ?thesis using assms(3,4) ax(4) hb pos neg
      by (auto simp: transferDiv_def Let_def gamma_absVal signedInf_def split: if_splits)
  qed
qed

lemma js_eq_squeeze: "js_le m z \<Longrightarrow> js_le z h \<Longrightarrow> js_eq m h \<Longrightarrow> isInteger m \<Longrightarrow> isInteger z"
  by (cases m; cases z; cases h) (auto simp: js_eq_def isInteger_Fin dest!: order_antisym)

lemma transferDiv_sound:
  assumes "gamma a x" "gamma b y" "unbroken (transferDiv a b)" "y \<noteq> NegZero"
  shows "gamma (transferDiv a b) (js_div x y)"
proof (cases "isSingleton b \<and> js_eq (lo b) (Fin 0)")
  case True
  with transferDiv_zero_sound assms show ?thesis by blast
next
  case nz: False
  show ?thesis
  proof (cases "x = NaN \<or> y = NaN \<or> hasZero b")
    case True
    then have "js_div x y = NaN \<and> maybeNaN (transferDiv a b) \<or> transferDiv a b = TOP"
      using assms(1,2) nz gamma_kinds [OF assms(1)] gamma_kinds [OF assms(2)]
      by (auto simp: transferDiv_def Let_def)
    then show ?thesis using wf_js_div by (elim disjE conjE) (simp_all del: js_div_NaN)
  next
    case False
    then have xy: "x \<noteq> NaN" "y \<noteq> NaN" and hz: "\<not> hasZero b" by auto
    note ax = gamma_numD [OF assms(1) xy(1)] and by' = gamma_numD [OF assms(2) xy(2)]
    define qs where "qs = [js_div (lo a) (lo b), js_div (lo a) (hi b), js_div (hi a) (lo b), js_div (hi a) (hi b)]"
    have eq: "transferDiv a b = absVal (math_min qs) (math_max qs)
        (js_eq (math_min qs) (math_max qs) \<and> isInteger (math_min qs)) (maybeNaN a \<or> maybeNaN b) None"
      using nz hz ax(4) by'(4)
      by (cases "isSingleton b") (simp_all add: transferDiv_def Let_def qs_def)
    have "math_min qs \<noteq> NaN" using assms(3) eq by (simp add: unbroken_def)
    then have nn: "\<forall>p\<in>set qs. p \<noteq> NaN" by (simp add: qs_def math_min_def del: js_div_NaN)
    have side: "js_lt (Fin 0) (lo b) \<or> js_lt (hi b) (Fin 0)"
      using hz by'(1,2) js_le_not_NaN js_not_le by (simp add: hasZero_def)
    have q: "js_div x y \<noteq> NaN"
    proof
      assume "js_div x y = NaN"
      then have "isInf x" "isInf y" using xy hz gamma_zero [OF assms(2)] by auto
      then have "isInf (lo a) \<or> isInf (hi a)" "isInf (lo b) \<or> isInf (hi b)"
        using gamma_inf [OF assms(1)] gamma_inf [OF assms(2)] by (cases x; cases y; auto)+
      then show False using nn by (auto simp: qs_def)
    qed
    have S: "set qs = {js_div (lo a) (lo b), js_div (lo a) (hi b), js_div (hi a) (lo b), js_div (hi a) (hi b)}"
      by (auto simp: qs_def)
    have enc: "\<exists>p\<in>set qs. js_le p (js_div x y)" "\<exists>p\<in>set qs. js_le (js_div x y) p"
      using side div_enclose_pos [OF ax(1,2) by'(1,2) _ nn [unfolded S] q]
        div_enclose_neg [OF ax(1,2) by'(1,2) _ nn [unfolded S] q] unfolding S by blast+
    have hull: "js_le (math_min qs) (js_div x y)" "js_le (js_div x y) (math_max qs)"
      using enc math_min_lower [OF nn] math_max_upper [OF nn] by blast+
    have "isInteger (js_div x y)" if "js_eq (math_min qs) (math_max qs)" "isInteger (math_min qs)"
      using js_eq_squeeze [OF hull that] .
    then show ?thesis unfolding eq by (intro gamma_corners [OF nn enc wf_js_div]) auto
  qed
qed

lemma js_eq_isInteger: "js_eq u v \<Longrightarrow> isInteger u = isInteger v"
  by (cases u; cases v) (auto simp: js_eq_def isInteger_Fin)

lemma js_eq_cases: "js_eq u v \<Longrightarrow> isFinite u \<and> isFinite v \<and> num u = num v \<or> isInf u \<and> u = v"
  by (cases u; cases v) (auto simp: js_eq_def)

lemma js_le_toF64_neg: "js_le (js_neg (toF64 q)) z = js_le (toF64 (- q)) z"
  by (cases "q = 0"; cases z) (auto simp: toF64_neg)

lemma gamma_singleton: "gamma a x \<Longrightarrow> isSingleton a \<Longrightarrow> js_eq (lo a) x \<and> x \<noteq> NaN"
proof -
  assume g: "gamma a x" and s: "isSingleton a"
  then have "x \<noteq> NaN" by (auto simp: isSingleton_def)
  then show ?thesis using gamma_numD(1,2) [OF g] s js_le_trans
    unfolding isSingleton_def js_eq_def by blast
qed

lemma gamma_constVal_js_eq: "js_eq u v \<Longrightarrow> wf_f64 v \<Longrightarrow> gamma (constVal u sp) v"
  using js_le_not_NaN [of u v] by (intro gamma_constVal_eq) (auto simp: js_eq_isInteger js_eq_def)

lemma js_mod_cong:
  assumes "js_eq u x" "js_eq v y" "js_mod x y \<noteq> NaN"
  shows "js_eq (js_mod u v) (js_mod x y)"
proof (cases "isFinite x \<and> isFinite y")
  case True
  then have f: "isFinite u" "isFinite v" "num u = num x" "num v = num y"
    using js_eq_cases [OF assms(1)] js_eq_cases [OF assms(2)] by auto
  have "num y \<noteq> 0" using assms(3) True by (auto simp: js_mod_NaN isZero_def)
  then show ?thesis using f True by (simp add: js_eq_def js_mod_le js_le_refl)
next
  case False
  have x: "isFinite x" "\<not> isZero y" "y \<noteq> NaN" using assms(3) f64_kind [of x] by (auto simp: js_mod_NaN)
  then have y: "isInf y" using False f64_kind by blast
  then have "v = y" using js_eq_cases [OF assms(2)] f64_kind [of y] by (cases y) auto
  moreover have "js_mod x y = x" "js_mod u v = u" if "v = y"
    using y that x js_eq_cases [OF assms(1)] by (cases y; cases x; cases u; auto simp: js_mod_def)+
  ultimately show ?thesis using assms(1) by simp
qed

lemma js_mod_hull:
  assumes "isFinite x" "y \<noteq> NaN" "\<not> isZero y" "wf_f64 y" "js_le (math_abs y) d"
  shows "js_le (js_neg d) (js_mod x y)" "js_le (js_mod x y) d"
proof -
  have nn: "js_mod x y \<noteq> NaN" using assms(1-3) by (cases x) (auto simp: js_mod_NaN)
  have "js_le (js_neg d) (js_mod x y) \<and> js_le (js_mod x y) d"
  proof (cases "isFinite y")
    case True
    then have ny: "num y \<noteq> 0" using assms(3) by (simp add: isZero_def)
    note b = js_mod_bounds [OF assms(1) True ny assms(4)]
    have "math_abs y = Fin \<bar>num y\<bar>" using True by (cases y) auto
    then have d: "js_le (Fin \<bar>num y\<bar>) d" "js_le (js_neg d) (Fin (- \<bar>num y\<bar>))"
      using assms(5) ny js_le_neg_swap(1) [of d "Fin (- \<bar>num y\<bar>)"] by auto
    show ?thesis using js_le_trans [OF d(2) b(1)] js_le_trans [OF b(2) d(1)] by simp
  next
    case False
    then have "math_abs y = PInf" using assms(2) by (cases y) auto
    then show ?thesis using assms(5) nn by simp
  qed
  then show "js_le (js_neg d) (js_mod x y)" "js_le (js_mod x y) d" by simp_all
qed

lemma js_mod_signs:
  assumes "isFinite x" "y \<noteq> NaN" "\<not> isZero y"
  shows "js_le (Fin 0) x \<Longrightarrow> js_le (Fin 0) (js_mod x y)" "js_le x (Fin 0) \<Longrightarrow> js_le (js_mod x y) (Fin 0)"
proof -
  have "isFinite y \<Longrightarrow> num y \<noteq> 0" "\<not> isFinite y \<Longrightarrow> js_mod x y = x"
    using assms f64_kind [of y] by (auto simp: isZero_def js_mod_def) (cases x, auto)
  then show "js_le (Fin 0) x \<Longrightarrow> js_le (Fin 0) (js_mod x y)" "js_le x (Fin 0) \<Longrightarrow> js_le (js_mod x y) (Fin 0)"
    using js_mod_sign [OF assms(1), of y] assms(1) js_le_finite [of "Fin 0" x] js_le_finite [of x "Fin 0"]
    by (cases "isFinite y"; simp)+
qed

lemma js_mod_hull_int:
  assumes "isInteger x" "isInteger y" "\<not> isZero y" "isFinite d" "js_le (math_abs y) d"
  shows "js_le (js_neg (js_sub d (Fin 1))) (js_mod x y)" "js_le (js_mod x y) (js_sub d (Fin 1))"
proof -
  have f: "isFinite x" "isFinite y" and ny: "num y \<noteq> 0"
    using assms(1-3) isFinite_isInteger by (auto simp: isZero_def)
  have "\<bar>ratRem (num x) (num y)\<bar> < \<bar>num y\<bar>" by (rule ratRem_bounds(1) [OF ny])
  moreover have "ratRem (num x) (num y) \<in> \<int>" "num y \<in> \<int>"
    using assms(1,2) by (auto simp: isInteger_num intro!: ratRem_int)
  ultimately have r: "\<bar>ratRem (num x) (num y)\<bar> \<le> \<bar>num y\<bar> - 1"
    by (auto elim!: Ints_cases simp flip: of_int_abs)
  have "math_abs y = Fin \<bar>num y\<bar>" using f by (cases y) auto
  then have "\<bar>num y\<bar> \<le> num d" using assms(4,5) js_le_finite [of "Fin \<bar>num y\<bar>" d] by simp
  with r have r': "ratRem (num x) (num y) \<le> num d - 1" "- (num d - 1) \<le> ratRem (num x) (num y)"
    by linarith+
  note sub = js_add_le [OF assms(4), of "Fin (- 1)"]
  show "js_le (js_mod x y) (js_sub d (Fin 1))"
    using toF64_mono [OF r'(1)] by (simp add: js_sub_def sub js_mod_le [OF f ny])
  show "js_le (js_neg (js_sub d (Fin 1))) (js_mod x y)"
    using toF64_mono [OF r'(2)] js_le_toF64_neg [of "num d - 1"]
    by (simp add: js_sub_def js_le_neg_swap(1) [of "js_add d (Fin (- 1))"] sub js_mod_le [OF f ny])
      (simp add: js_le_neg_swap(1) [of "toF64 _"])
qed

lemma transferMod_sound:
  assumes "gamma a x" "gamma b y"
  shows "gamma (transferMod a b) (js_mod x y)"
proof (cases "js_mod x y = NaN")
  case True
  then consider "x = NaN" | "y = NaN" | "isInf x" | "isZero y" by (auto simp: js_mod_NaN)
  then have "maybeNaN a \<or> maybeNaN b \<or> lo a = NInf \<or> hi a = PInf \<or> hasZero b"
    using assms gamma_inf [OF assms(1)] gamma_zero [OF assms(2)] by cases (auto, cases x, auto)
  then have "maybeNaN (transferMod a b)"
    using gamma_kinds [OF assms(1)] gamma_kinds [OF assms(2)] 
    by (auto simp: transferMod_def Let_def)
  with True show ?thesis by simp
next
  case False
  then have xy: "x \<noteq> NaN" "y \<noteq> NaN" "\<not> isInf x" "\<not> isZero y" by (auto simp: js_mod_NaN)
  then have fx: "isFinite x" using f64_kind by blast
  note ax = gamma_numD [OF assms(1) xy(1)] and by' = gamma_numD [OF assms(2) xy(2)]
  define dMax where "dMax = math_max [math_abs (lo b), math_abs (hi b)]"
  have nb: "lo b \<noteq> NaN" "hi b \<noteq> NaN" using by' js_le_not_NaN by blast+
  have "js_le (math_abs y) (math_abs (lo b)) \<or> js_le (math_abs y) (math_abs (hi b))"
    using by'(1,2) by (cases y; cases "lo b"; cases "hi b") auto
  then have d: "js_le (math_abs y) dMax"
    unfolding dMax_def using nb math_max_upper [of "[math_abs (lo b), math_abs (hi b)]"] by auto
  define bd where "bd = (if whole a \<and> whole b \<and> isFinite dMax then js_sub dMax (Fin 1) else dMax)"
  have hull: "js_le (js_neg bd) (js_mod x y)" "js_le (js_mod x y) bd"
    using js_mod_hull [OF fx xy(2,4) by'(5) d] js_mod_hull_int [OF _ _ xy(4) _ d, of x] ax(3) by'(3)
    by (auto simp: bd_def)
  have pos: "js_le (Fin 0) (js_mod x y)" if "\<not> js_lt (lo a) (Fin 0)"
    using that ax(1) by (intro js_mod_signs(1) fx xy) (cases x; cases "lo a"; auto)
  have neg: "js_le (js_mod x y) (Fin 0)" if "\<not> js_lt (Fin 0) (hi a)"
    using that ax(2) by (intro js_mod_signs(2) fx xy) (cases x; cases "hi a"; auto)
  have int: "isInteger (js_mod x y)" if "whole a" "whole b"
    using js_mod_int [OF ax(3) by'(3) _ by'(5)] that xy(4) isFinite_isInteger by'(3)
    by (auto simp: isZero_def)
  define l where "l = (if js_lt (lo a) (Fin 0) then js_neg bd else Fin 0)"
  define h where "h = (if js_gt (hi a) (Fin 0) then bd else Fin 0)"
  define n where "n = (if lo a = NInf \<or> hi a = PInf then True else if hasZero b then True else maybeNaN a \<or> maybeNaN b)"
  have "gamma (constVal (js_mod (lo a) (lo b)) None) (js_mod x y)" if "isSingleton a" "isSingleton b"
    using that js_mod_cong gamma_singleton assms False gamma_constVal_js_eq wf_js_mod ax(5) by blast
  moreover have "gamma (absVal l h (whole a \<and> whole b) n None) (js_mod x y)"
    using hull pos neg int False wf_js_mod [OF ax(5)] unfolding l_def h_def by (intro gamma_absValI) auto
  moreover have "transferMod a b = (if isSingleton a \<and> isSingleton b \<and> \<not> n
      then constVal (js_mod (lo a) (lo b)) None else absVal l h (whole a \<and> whole b) n None)"
    unfolding transferMod_def Let_def l_def h_def bd_def dMax_def n_def using ax(4) by'(4) by (simp only: simp_thms if_False)
  ultimately show ?thesis by auto
qed

section \<open>The remaining operators\<close>

lemma toInt32_cong: "js_eq u x \<Longrightarrow> toInt32 u = toInt32 x"
  using js_eq_cases [of u x] by (auto simp: toInt32_def)

lemma bitwiseOp_cong: "js_eq u x \<Longrightarrow> js_eq v y \<Longrightarrow> bitwiseOp op u v = bitwiseOp op x y"
  using toInt32_cong [of u x] toInt32_cong [of v y]
  by (simp add: bitwiseOp_def js_and_def js_or_def js_xor_def js_shl_def js_sar_def js_shr_def shiftCount_def)

lemma gamma_INT32: "gamma INT32_ABS (fromInt32 w)"
proof -
  have b: "- (2 ^ 31) \<le> sint w" "sint w \<le> 2 ^ 31 - 1"
    using sint_greater_eq [of w] sint_less [of w] by simp_all
  then have "wf_f64 (fromInt32 w)" unfolding fromInt32_def by (intro wf_small_int) (simp add: abs_le_iff)
  moreover have "(of_int (- (2 ^ 31)) :: rat) \<le> of_int (sint w)" "of_int (sint w) \<le> (of_int (2 ^ 31 - 1) :: rat)"
    using b by (simp_all only: of_int_le_iff)
  moreover have "isInteger (fromInt32 w)" unfolding fromInt32_def isInteger_Fin by (rule Ints_of_int)
  ultimately show ?thesis by (simp add: INT32_ABS_def gamma_absVal fromInt32_def)
qed

lemma gamma_UINT32: "gamma UINT32_ABS (fromUint32 w)"
proof -
  have b: "0 \<le> uint w" "uint w \<le> 2 ^ 32 - 1"
    using uint_lt2p [of w] by simp_all
  then have "wf_f64 (fromUint32 w)" unfolding fromUint32_def by (intro wf_small_int) (simp add: abs_le_iff)
  moreover have "(of_int 0 :: rat) \<le> of_int (uint w)" "of_int (uint w) \<le> (of_int (2 ^ 32 - 1) :: rat)"
    using b by (simp_all only: of_int_le_iff)
  moreover have "isInteger (fromUint32 w)" unfolding fromUint32_def isInteger_Fin by (rule Ints_of_int)
  ultimately show ?thesis by (simp add: UINT32_ABS_def gamma_absVal fromUint32_def)
qed

lemma bitwiseOp_range:
  assumes "op \<in> set BITWISE_OPS" "op \<noteq> ''>>>''"
  shows "\<exists>w. bitwiseOp op x y = fromInt32 w"
proof -
  have "bitwiseOp op x y \<in> {js_and x y, js_or x y, js_xor x y, js_shl x y, js_sar x y}"
    using assms by (auto simp: BITWISE_OPS_def bitwiseOp_def)
  then show ?thesis unfolding js_and_def js_or_def js_xor_def js_shl_def js_sar_def by blast
qed

lemma bitwiseOp_range_shr: "\<exists>w. bitwiseOp ''>>>'' x y = fromUint32 w"
proof -
  have "bitwiseOp ''>>>'' x y = js_shr x y" by (simp add: bitwiseOp_def)
  then show ?thesis unfolding js_shr_def by blast
qed

lemma wf_bitwiseOp: "op \<in> set BITWISE_OPS \<Longrightarrow> wf_f64 (bitwiseOp op x y)"
  using bitwiseOp_range [of op x y] bitwiseOp_range_shr [of x y] gamma_INT32 gamma_UINT32
  by (cases "op = ''>>>''") (auto simp: gamma_def simp del: wf_f64.simps)

lemma transferBitwise_sound:
  assumes "gamma a x" "gamma b y" "op \<in> set BITWISE_OPS"
  shows "gamma (transferBitwise op a b) (bitwiseOp op x y)"
proof (cases "isSingleton a \<and> isSingleton b")
  case True
  then have "bitwiseOp op (lo a) (lo b) = bitwiseOp op x y"
    using assms gamma_singleton bitwiseOp_cong by blast
  with True show ?thesis using wf_bitwiseOp [OF assms(3)] by (simp add: transferBitwise_def gamma_constVal)
next
  case False
  then show ?thesis using bitwiseOp_range [OF assms(3), of x y] bitwiseOp_range_shr [of x y] gamma_INT32 gamma_UINT32
    by (cases "op = ''>>>''") (auto simp: transferBitwise_def)
qed

lemma transferBitNot_sound:
  assumes "gamma a x"
  shows "gamma (transferBitNot a) (js_bitnot x)"
proof (cases "isSingleton a")
  case True
  then have "js_bitnot (lo a) = js_bitnot x"
    using gamma_singleton [OF assms] toInt32_cong [of "lo a" x] by (simp add: js_bitnot_def)
  moreover have "wf_f64 (js_bitnot x)" using gamma_INT32 by (simp add: js_bitnot_def gamma_def)
  ultimately show ?thesis using True by (simp add: transferBitNot_def gamma_constVal)
next
  case False
  then show ?thesis using gamma_INT32 by (simp add: transferBitNot_def js_bitnot_def)
qed

lemma mathRoundFn_laws:
  "js_le x y \<Longrightarrow> js_le (mathRoundFn fn x) (mathRoundFn fn y)" "isInteger (mathRoundFn fn x) = isFinite x"
  "mathRoundFn fn x = NaN \<longleftrightarrow> x = NaN" "wf_f64 x \<Longrightarrow> wf_f64 (mathRoundFn fn x)"
  "isInf x \<Longrightarrow> mathRoundFn fn x = x"
proof -
  have inf: "isInf x \<Longrightarrow> math_trunc x = x \<and> math_floor x = x \<and> math_ceil x = x \<and> math_round x = x"
    by (cases x) simp_all
  show "js_le x y \<Longrightarrow> js_le (mathRoundFn fn x) (mathRoundFn fn y)"
    by (simp add: mathRoundFn_def math_trunc_mono math_floor_mono math_ceil_mono math_round_mono)
  show "wf_f64 x \<Longrightarrow> wf_f64 (mathRoundFn fn x)" by (simp add: mathRoundFn_def wf_math)
  show "isInf x \<Longrightarrow> mathRoundFn fn x = x" using inf by (simp add: mathRoundFn_def)
qed (simp_all add: mathRoundFn_def)

lemma transferMathRound_sound:
  assumes "gamma a x"
  shows "gamma (transferMathRound fn a) (mathRoundFn fn x)"
proof (cases "x = NaN")
  case True
  then have "mathRoundFn fn x = NaN" by (simp add: mathRoundFn_laws)
  with True assms show ?thesis by (auto simp: transferMathRound_def)
next
  case False
  note n = gamma_numD [OF assms False]
  have "isInteger (mathRoundFn fn x) \<or> isInf (mathRoundFn fn x)"
    using f64_kind [of x] False mathRoundFn_laws(2,5) by metis
  then show ?thesis using n False mathRoundFn_laws
    by (auto simp: transferMathRound_def intro!: gamma_absValI)
qed

lemma transferAbs_sound:
  assumes "gamma a x"
  shows "gamma (transferAbs a) (math_abs x)"
proof (cases "x = NaN")
  case True
  with assms show ?thesis by (auto simp: transferAbs_def Let_def)
next
  case False
  note n = gamma_numD [OF assms False]
  have nn: "\<forall>z\<in>set [math_abs (lo a), math_abs (hi a)]. z \<noteq> NaN" using n(1,2) js_le_not_NaN by auto
  have "js_le (math_abs x) (math_abs (lo a)) \<or> js_le (math_abs x) (math_abs (hi a))"
    using n(1,2) by (cases x; cases "lo a"; cases "hi a") auto
  then have up: "js_le (math_abs x) (math_max [math_abs (lo a), math_abs (hi a)])"
    using math_max_upper [OF nn] by auto
  have "js_le (math_abs (lo a)) (math_abs x) \<or> js_le (math_abs (hi a)) (math_abs x)" if "\<not> hasZero a"
    using n(1,2) that by (cases x; cases "lo a"; cases "hi a") (auto simp: hasZero_def)
  then have low: "js_le (math_min [math_abs (lo a), math_abs (hi a)]) (math_abs x)" if "\<not> hasZero a"
    using math_min_lower [OF nn] that by auto
  have "js_le (Fin 0) (math_abs x)" using False by (cases x) auto
  moreover have "isInteger (math_abs x)" if "whole a"
    using n(3) [OF that] by (cases x) (auto simp: isInteger_Fin)
  ultimately show ?thesis using n up low False wf_math(5)
    by (auto simp: transferAbs_def Let_def intro!: gamma_absValI simp del: wf_f64.simps)
qed

lemma foldl_min2_NaN: "foldl min2 z xs = NaN \<longleftrightarrow> z = NaN \<or> NaN \<in> set xs"
  by (induction xs arbitrary: z) auto

lemma foldl_max2_NaN: "foldl max2 z xs = NaN \<longleftrightarrow> z = NaN \<or> NaN \<in> set xs"
  by (induction xs arbitrary: z) auto

lemma foldl_min2_mem: "foldl min2 z xs = z \<or> foldl min2 z xs \<in> set xs"
proof (induction xs arbitrary: z)
  case (Cons x xs)
  show ?case using Cons.IH [of "min2 z x"] min2_cases [of z x] by auto
qed simp

lemma foldl_max2_mem: "foldl max2 z xs = z \<or> foldl max2 z xs \<in> set xs"
proof (induction xs arbitrary: z)
  case (Cons x xs)
  show ?case using Cons.IH [of "max2 z x"] max2_cases [of z x] by auto
qed simp

lemma min2_mono: "js_le a x \<Longrightarrow> js_le b y \<Longrightarrow> js_le (min2 a b) (min2 x y)"
  using js_le_trans min2_le le_min2 js_le_not_NaN by (metis)

lemma max2_mono: "js_le a x \<Longrightarrow> js_le b y \<Longrightarrow> js_le (max2 a b) (max2 x y)"
  using js_le_trans max2_le le_max2 js_le_not_NaN by (metis)

lemma foldl_min2_mono: "list_all2 js_le xs ys \<Longrightarrow> js_le z w \<Longrightarrow> js_le (foldl min2 z xs) (foldl min2 w ys)"
  by (induction arbitrary: z w rule: list_all2_induct) (auto intro: min2_mono)

lemma foldl_max2_mono: "list_all2 js_le xs ys \<Longrightarrow> js_le z w \<Longrightarrow> js_le (foldl max2 z xs) (foldl max2 w ys)"
  by (induction arbitrary: z w rule: list_all2_induct) (auto intro: max2_mono)

definition mathMinMax :: "string \<Rightarrow> f64 list \<Rightarrow> f64" where
  "mathMinMax fn xs = (if fn = ''min'' then math_min xs else math_max xs)"

lemma mathMinMax_laws:
  "list_all2 js_le xs ys \<Longrightarrow> js_le (mathMinMax fn xs) (mathMinMax fn ys)"
  "mathMinMax fn xs = NaN \<longleftrightarrow> NaN \<in> set xs"
  "mathMinMax fn xs \<in> set xs \<or> isInf (mathMinMax fn xs)"
  using foldl_min2_mem [of PInf xs] foldl_max2_mem [of NInf xs]
  by (auto simp: mathMinMax_def math_min_def math_max_def foldl_min2_mono foldl_max2_mono
      foldl_min2_NaN foldl_max2_NaN)

lemma transferMinMax_sound:
  assumes "list_all2 gamma args xs"
  shows "gamma (transferMinMax fn args) (mathMinMax fn xs)"
proof (cases "NaN \<in> set xs")
  case True
  then have "mathMinMax fn xs = NaN" by (simp add: mathMinMax_laws)
  moreover have "list_ex maybeNaN args"
    using assms True by (auto simp: list_ex_iff in_set_conv_nth [of NaN] list_all2_conv_all_nth) (metis gamma_NaN nth_mem)
  ultimately show ?thesis by (auto simp: transferMinMax_def Let_def)
next
  case False
  have mem: "gamma (args ! i) (xs ! i)" "xs ! i \<noteq> NaN" if "i < length args" for i
    using assms False that by (auto simp: list_all2_conv_all_nth in_set_conv_nth)
  note m = gamma_numD [OF mem]
  have len: "length args = length xs" using assms by (rule list_all2_lengthD)
  have num: "\<not> list_ex (\<lambda>v. \<not> hasNumeric v) args"
    using m(4) by (auto simp: list_ex_iff in_set_conv_nth)
  have hull: "js_le (mathMinMax fn (map lo args)) (mathMinMax fn xs)"
    "js_le (mathMinMax fn xs) (mathMinMax fn (map hi args))"
    using m(1,2) len by (auto intro!: mathMinMax_laws(1) simp: list_all2_conv_all_nth)
  have wf: "wf_f64 (mathMinMax fn xs)"
  proof (cases "isInf (mathMinMax fn xs)")
    case True then show ?thesis by (cases "mathMinMax fn xs") simp_all
  next
    case False
    then have "mathMinMax fn xs \<in> set xs" using mathMinMax_laws(3) by blast
    then show ?thesis using m(5) len by (metis in_set_conv_nth)
  qed
  have int: "isInteger (mathMinMax fn xs) \<or> isInf (mathMinMax fn xs)" if "list_all whole args"
    using mathMinMax_laws(3) [of fn xs] m(3) len that by (metis in_set_conv_nth list_all_length)
  show ?thesis using num hull wf int False
    by (auto simp: transferMinMax_def Let_def mathMinMax_laws simp flip: mathMinMax_def
        intro!: gamma_absValI)
qed

section \<open>Well-formed abstract values\<close>

text \<open>The invariant every abstract value of the analyzer keeps: bounds carry no negative zero,
  and a whole interval with members has finite bounds.\<close>

definition wfAbs :: "AbsVal \<Rightarrow> bool" where
  "wfAbs a = (lo a \<noteq> NegZero \<and> hi a \<noteq> NegZero \<and>
     (whole a \<and> hasNumeric a \<longrightarrow> isFinite (lo a) \<and> isFinite (hi a)))"

lemma normZero_not_NegZero [simp]: "normZero x \<noteq> NegZero"
  by (cases x) auto

lemma wfAbs_absVal [simp]: "wfAbs (absVal l h w n sp)"
  by (auto simp: wfAbs_def absVal_def Let_def)

lemma wfAbs_TOP [simp]: "wfAbs TOP" "wfAbs TOP'" if "TOP' = TOP" for TOP'
  using that by (simp_all add: TOP_def wfAbs_def)

lemma wfAbs_BOTTOM [simp]: "wfAbs BOTTOM" "wfAbs (BOTTOM\<lparr>maybeNaN := n\<rparr>)"
  by (simp_all add: BOTTOM_def wfAbs_def hasNumeric_def)

lemma wfAbs_constVal [simp]: "wfAbs (constVal x sp)"
  by (simp add: constVal_def) (simp add: wfAbs_def)

lemma wfAbs_join: "wfAbs a \<Longrightarrow> wfAbs b \<Longrightarrow> wfAbs (join a b)"
  by (simp add: join_def Let_def)

lemma wfAbs_widen: "wfAbs b \<Longrightarrow> wfAbs (widen a b)"
  by (simp add: widen_def Let_def)

lemma wfAbs_transfer [simp]:
  "wfAbs (transferAdd a b)" "wfAbs (transferSub a b)" "wfAbs (transferMul a b)" "wfAbs (transferDiv a b)"
  "wfAbs (transferMod a b)" "wfAbs (transferPow pow a b)" "wfAbs (transferBitwise op a b)"
  "wfAbs (transferBitNot a)" "wfAbs (transferNeg a)" "wfAbs (transferBin pow op a b)"
  "wfAbs (transferMathRound fn a)" "wfAbs (transferAbs a)" "wfAbs (transferMinMax fn args)"
proof -
  show *: "wfAbs (transferAdd a b)" "wfAbs (transferSub a b)" "wfAbs (transferMul a b)" "wfAbs (transferDiv a b)"
    "wfAbs (transferMod a b)" "wfAbs (transferPow pow a b)" "wfAbs (transferBitwise op a b)" for a b
    by (simp_all add: transferAdd_def transferSub_def transferMul_def transferDiv_def transferMod_def
        transferPow_def transferBitwise_def Let_def INT32_ABS_def UINT32_ABS_def)
  show "wfAbs (transferBin pow op a b)" by (simp add: transferBin_def *)
qed (simp_all add: transferBitNot_def transferNeg_def transferMathRound_def transferAbs_def
    transferMinMax_def Let_def INT32_ABS_def)

lemma wfAbs_refine:
  "wfAbs (meetInterval v l h c)" "wfAbs a \<Longrightarrow> wfAbs (refineLhs op a b c)" "wfAbs (classSeed cls)"
proof -
  show m: "wfAbs (meetInterval v l h c)" for v l h by (simp add: meetInterval_def Let_def)
  show "wfAbs (classSeed cls)" by (simp add: classSeed_def INT32_ABS_def UINT32_ABS_def)
  assume "wfAbs a"
  then have c: "wfAbs (clearNaNFlag c a)" by (simp add: clearNaNFlag_def wfAbs_def hasNumeric_def)
  have if_wf: "wfAbs x \<Longrightarrow> wfAbs y \<Longrightarrow> wfAbs (if p then x else y)" for p x y by simp
  show "wfAbs (refineLhs op a b c)" unfolding refineLhs_def by (intro if_wf m c \<open>wfAbs a\<close>)
qed

section \<open>Exponentiation\<close>

text \<open>What the ECMAScript specification fixes about the implementation-approximated
  \<^verbatim>\<open>**\<close> and the analysis relies on: the NaN and zero-exponent rules, monotonicity in both
  arguments on bases from 1 and exponents from 0, and integer results there.\<close>

definition pow_laws :: "(f64 \<Rightarrow> f64 \<Rightarrow> f64) \<Rightarrow> bool" where
  "pow_laws pow = (
     (\<forall>x y. wf_f64 (pow x y)) \<and>
     (\<forall>x y. isZero y \<longrightarrow> pow x y = Fin 1) \<and>
     (\<forall>x. pow x NaN = NaN) \<and>
     (\<forall>y. \<not> isZero y \<longrightarrow> pow NaN y = NaN) \<and>
     (\<forall>x x' y y'. isFinite x' \<longrightarrow> isFinite y' \<longrightarrow> js_le (Fin 1) x \<longrightarrow> js_le x x' \<longrightarrow>
        js_le (Fin 0) y \<longrightarrow> js_le y y' \<longrightarrow> js_le (pow x y) (pow x' y')) \<and>
     (\<forall>x y. isInteger x \<longrightarrow> isInteger y \<longrightarrow> js_le (Fin 1) x \<longrightarrow> js_le (Fin 0) y \<longrightarrow>
        isInteger (pow x y) \<or> isInf (pow x y)))"

lemma pow_lawsD:
  assumes "pow_laws pow"
  shows "wf_f64 (pow x y)" "isZero y \<Longrightarrow> pow x y = Fin 1" "pow x NaN = NaN"
    "\<not> isZero y \<Longrightarrow> pow NaN y = NaN"
    "isFinite x' \<Longrightarrow> isFinite y' \<Longrightarrow> js_le (Fin 1) x \<Longrightarrow> js_le x x' \<Longrightarrow>
        js_le (Fin 0) y \<Longrightarrow> js_le y y' \<Longrightarrow> js_le (pow x y) (pow x' y')"
    "isInteger x \<Longrightarrow> isInteger y \<Longrightarrow> js_le (Fin 1) x \<Longrightarrow> js_le (Fin 0) y \<Longrightarrow>
        isInteger (pow x y) \<or> isInf (pow x y)"
  using assms unfolding pow_laws_def by blast+

lemma transferPow_sound:
  assumes "pow_laws pow" "wfAbs a" "wfAbs b" "gamma a x" "gamma b y" "x \<noteq> NaN" "x \<noteq> NegZero"
  shows "gamma (transferPow pow a b) (pow x y)"
proof -
  note P = pow_lawsD [OF assms(1)]
  note ax = gamma_numD [OF assms(4,6)]
  show ?thesis
  proof (cases "y = NaN")
    case True
    then show ?thesis using P(3) ax(4) assms(5) by (auto simp: transferPow_def Let_def TOP_def)
  next
    case False
    note by' = gamma_numD [OF assms(5) False]
    have "pow (lo a) (lo b) = pow x y" if "isSingleton a" "isSingleton b"
    proof -
      have e: "js_eq (lo a) x" "js_eq (lo b) y" using that gamma_singleton assms(4,5) by blast+
      have "lo a = x" using e(1) assms(2,7) by (cases x; cases "lo a") (auto simp: js_eq_def wfAbs_def)
      moreover have "lo b = y \<or> isZero (lo b) \<and> isZero y"
        using e(2) by (cases y; cases "lo b") (auto simp: js_eq_def)
      ultimately show ?thesis using P(2) by auto
    qed
    moreover have "gamma (absVal (pow (lo a) (lo b)) (pow (hi a) (hi b)) True n None) (pow x y)"
      if "whole a" "whole b" "js_le (Fin 0) (lo b)" "js_le (Fin 1) (lo a)" for n
    proof -
      have fin: "isFinite (hi a)" "isFinite (hi b)" "isInteger x" "isInteger y"
        using assms(2,3) ax(3,4) by'(3,4) that by (auto simp: wfAbs_def)
      have pos: "js_le (Fin 1) x" "js_le (Fin 0) y" using that(3,4) ax(1) by'(1) js_le_trans by blast+
      have "js_le (pow (lo a) (lo b)) (pow x y)" "js_le (pow x y) (pow (hi a) (hi b))"
        using P(5) fin isFinite_isInteger that(3,4) ax(1,2) by'(1,2) pos by blast+
      then show ?thesis using P(1) P(6) [OF fin(3,4) pos] js_le_not_NaN
        by (intro gamma_absValI) auto
    qed
    ultimately show ?thesis using ax(4) by'(4) P(1) gamma_constVal
      by (auto simp: transferPow_def Let_def simp del: wf_f64.simps)
  qed
qed

text \<open>A \<^verbatim>\<open>**\<close> that is exact up to rounding on integer exponents satisfies the laws.\<close>

definition refPow :: "f64 \<Rightarrow> f64 \<Rightarrow> f64" where
  "refPow x y = (if isZero y then Fin 1
     else if isFinite x \<and> isFinite y \<and> 1 \<le> num x \<and> 0 \<le> num y then toF64 (num x ^ nat \<lfloor>num y\<rfloor>)
     else NaN)"

lemma pow_laws_refPow: "pow_laws refPow"
  unfolding pow_laws_def
proof (intro conjI allI impI)
  fix x x' y y' :: f64
  assume a: "isFinite x'" "isFinite y'" "js_le (Fin 1) x" "js_le x x'" "js_le (Fin 0) y" "js_le y y'"
  have f: "isFinite x" "isFinite y"
    using finite_between [of "Fin 1" x x'] finite_between [of "Fin 0" y y'] a by auto
  have n: "1 \<le> num x" "num x \<le> num x'" "0 \<le> num y" "num y \<le> num y'"
    using a f js_le_finite [of "Fin 1" x] js_le_finite [of x x'] js_le_finite [of "Fin 0" y]
      js_le_finite [of y y'] by auto
  have e: "refPow u v = toF64 (num u ^ nat \<lfloor>num v\<rfloor>)" if "isFinite u" "isFinite v" "1 \<le> num u" "0 \<le> num v" for u v
  proof (cases "num v = 0")
    case True
    have "toF64 1 = Fin 1" using toF64_exact_int [of 1] by simp
    with True that show ?thesis by (simp add: refPow_def isZero_def)
  qed (use that in \<open>simp add: refPow_def isZero_def\<close>)
  have "num x ^ nat \<lfloor>num y\<rfloor> \<le> num x' ^ nat \<lfloor>num y\<rfloor>" using n by (intro power_mono) auto
  also have "\<dots> \<le> num x' ^ nat \<lfloor>num y'\<rfloor>" using n by (intro power_increasing nat_mono floor_mono) auto
  finally have le: "num x ^ nat \<lfloor>num y\<rfloor> \<le> num x' ^ nat \<lfloor>num y'\<rfloor>" .
  have "1 \<le> num x'" "0 \<le> num y'" using n by linarith+
  then show "js_le (refPow x y) (refPow x' y')"
    using e [OF f n(1,3)] e [OF a(1,2)] toF64_mono [OF le] by simp
next
  fix x y :: f64
  assume a: "isInteger x" "isInteger y" "js_le (Fin 1) x" "js_le (Fin 0) y"
  then have "num x ^ nat \<lfloor>num y\<rfloor> \<in> \<int>" by (simp add: isInteger_num)
  then show "isInteger (refPow x y) \<or> isInf (refPow x y)"
    using toF64_int a js_le_finite [of "Fin 1" x] js_le_finite [of "Fin 0" y]
    by (auto simp: refPow_def isInteger_num isInteger_Fin)
qed (use toF64_exact_int [of 1] in \<open>auto simp: refPow_def\<close>)

section \<open>Branch refinement keeps every value of the edge\<close>

lemma meetInterval_sound:
  assumes "gamma v x" "x = NaN \<and> \<not> c \<or> js_le l x \<and> js_le x h"
  shows "gamma (meetInterval v l h c) x"
proof (cases "x = NaN")
  case True
  with assms show ?thesis by (auto simp: meetInterval_def Let_def)
next
  case False
  note n = gamma_numD [OF assms(1) False]
  have b: "js_le l x" "js_le x h" using assms(2) False by auto
  have "js_le (math_max [lo v, l]) x" "js_le x (math_min [hi v, h])"
    using n(1,2) b js_le_not_NaN False math_max_le [of "[lo v, l]" x] le_math_min [of "[hi v, h]" x] by auto
  moreover from this have "\<not> js_gt (math_max [lo v, l]) (math_min [hi v, h])"
    using js_le_trans js_lt_iff by blast
  ultimately show ?thesis using n False by (auto simp: meetInterval_def Let_def intro!: gamma_absValI)
qed

lemma refine_NaN [simp]:
  "maybeNaN (meetInterval v l h c) = (\<not> c \<and> maybeNaN v)" "maybeNaN (clearNaNFlag c v) = (\<not> c \<and> maybeNaN v)"
  "maybeNaN (refineLhs op v b False) = maybeNaN v"
proof -
  show m: "maybeNaN (meetInterval v l h c) = (\<not> c \<and> maybeNaN v)" for l h c
    by (simp add: meetInterval_def Let_def)
  show c: "maybeNaN (clearNaNFlag c v) = (\<not> c \<and> maybeNaN v)" for c by (simp add: clearNaNFlag_def)
  show "maybeNaN (refineLhs op v b False) = maybeNaN v" by (simp add: refineLhs_def m c)
qed

lemma int_strict_bounds:
  fixes r :: rat
  assumes "q \<in> \<int>"
  shows "q < r \<Longrightarrow> q \<le> of_int \<lceil>r\<rceil> - 1" "r < q \<Longrightarrow> of_int \<lfloor>r\<rfloor> + 1 \<le> q"
proof -
  obtain z where z: "q = of_int z" using assms by (elim Ints_cases)
  have "z \<le> \<lceil>r\<rceil> - 1" if "q < r" using that z less_ceiling_iff [of z r] by simp
  then show "q < r \<Longrightarrow> q \<le> of_int \<lceil>r\<rceil> - 1" using z by (metis of_int_le_iff of_int_diff of_int_1)
  have "\<lfloor>r\<rfloor> + 1 \<le> z" if "r < q" using that z floor_less_iff [of r z] by simp
  then show "r < q \<Longrightarrow> of_int \<lfloor>r\<rfloor> + 1 \<le> q" using z by (metis of_int_le_iff of_int_add of_int_1)
qed

text \<open>JavaScript's comparison operators on numbers.\<close>

definition js_cmp :: "string \<Rightarrow> f64 \<Rightarrow> f64 \<Rightarrow> bool" where
  "js_cmp op x y = (if op = ''<'' then js_lt x y else if op = ''<='' then js_le x y
     else if op = ''>'' then js_gt x y else if op = ''>='' then js_ge x y
     else if op = ''==='' then js_eq x y else \<not> js_eq x y)"

lemma le_sub_one:
  assumes "isInteger x" "wf_f64 x" "js_lt x h"
  shows "js_le x (js_sub (math_ceil h) (Fin 1))"
proof (cases "isFinite h")
  case True
  have "num x < num h" using assms(1,3) True isFinite_isInteger js_lt_iff js_le_finite by (metis linorder_not_le)
  moreover have "num x \<in> \<int>" using assms(1) by (simp add: isInteger_num)
  moreover have "num (math_ceil h) = of_int \<lceil>num h\<rceil>" "isFinite (math_ceil h)" using True by (cases h; simp)+
  ultimately have le: "num x \<le> num (math_ceil h) - 1" and f: "isFinite (math_ceil h)"
    using int_strict_bounds(1) by auto
  have "toF64 (num x) = Fin (num x)" using assms(1,2) by (cases x) auto
  then have "js_le (Fin (num x)) (toF64 (num (math_ceil h) - 1))" by (rule ieee.rnd_upper [OF _ le])
  moreover have "js_le x z = js_le (Fin (num x)) z" for z
    using assms(1) by (cases x; cases z) auto
  ultimately show ?thesis using js_add_le(2) [OF f, of "Fin (- 1)"] by (simp add: js_sub_def)
next
  case False
  then have "h = PInf" using assms(1,3) by (cases h; cases x) auto
  then show ?thesis using assms(1) by (cases x) (auto simp: js_sub_def)
qed

lemma add_one_le:
  assumes "isInteger x" "wf_f64 x" "js_lt l x"
  shows "js_le (js_add (math_floor l) (Fin 1)) x"
proof (cases "isFinite l")
  case True
  have "num l < num x" using assms(1,3) True isFinite_isInteger js_lt_iff js_le_finite by (metis linorder_not_le)
  moreover have "num x \<in> \<int>" using assms(1) by (simp add: isInteger_num)
  moreover have "num (math_floor l) = of_int \<lfloor>num l\<rfloor>" "isFinite (math_floor l)" using True by (cases l; simp)+
  ultimately have le: "num (math_floor l) + 1 \<le> num x" and f: "isFinite (math_floor l)"
    using int_strict_bounds(2) by auto
  have "toF64 (num x) = Fin (num x)" using assms(1,2) by (cases x) auto
  then have "js_le (toF64 (num (math_floor l) + 1)) (Fin (num x))" by (rule ieee.rnd_lower [OF _ le])
  moreover have "js_le z x = js_le z (Fin (num x))" for z
    using assms(1) by (cases x; cases z) auto
  ultimately show ?thesis using js_add_le(1) [OF f, of "Fin 1"] by simp
next
  case False
  then have "l = NInf" using assms(1,3) by (cases l; cases x) auto
  then show ?thesis using assms(1) by (cases x) auto
qed

lemma floor_bound: "isInteger x \<Longrightarrow> js_le x h \<Longrightarrow> js_le x (math_floor h)"
  by (cases x; cases h) (auto simp: isInteger_Fin elim!: Ints_cases simp: le_floor_iff)

lemma ceil_bound: "isInteger x \<Longrightarrow> js_le l x \<Longrightarrow> js_le (math_ceil l) x"
  by (cases x; cases l) (auto simp: isInteger_Fin elim!: Ints_cases simp: ceiling_le_iff)

lemma math_int_id: "isInteger l \<Longrightarrow> js_eq (math_floor l) l \<and> js_eq (math_ceil l) l"
  by (cases l) (auto simp: isInteger_Fin js_eq_def elim!: Ints_cases)

lemma js_lt_le_trans: "js_lt x y \<Longrightarrow> js_le y z \<Longrightarrow> js_lt x z" "js_le x y \<Longrightarrow> js_lt y z \<Longrightarrow> js_lt x z"
  using js_le_trans unfolding js_lt_iff by blast+

text \<open>One side of a comparison. On the edge where the comparison held, neither operand is
  NaN (\<open>clearNaN\<close>); on the failed edge an ordered comparison is negated, which holds
  unless one of the operands is NaN.\<close>

lemma refineLhs_ordered:
  assumes g: "gamma a x" "gamma b y" and op: "op \<in> set ORDERED_CMP_OPS"
    and h: "if c then js_cmp op x y else js_cmp op x y \<or> x = NaN \<or> y = NaN"
  shows "gamma (refineLhs op a b c) x"
proof (cases "js_cmp op x y")
  case False
  then have n: "\<not> c" "x = NaN \<or> y = NaN" using h by (auto split: if_splits)
  show ?thesis
  proof (cases "x = NaN")
    case True
    then show ?thesis using n(1) g(1) by simp
  next
    case False
    with n g have "maybeNaN b" by auto
    then show ?thesis using n(1) g(1) op by (simp add: refineLhs_def clearNaNFlag_def)
  qed
next
  case True
  have nn: "x \<noteq> NaN" "y \<noteq> NaN"
    using True op js_le_not_NaN by (auto simp: js_cmp_def ORDERED_CMP_OPS_def js_lt_iff)
  note ax = gamma_numD [OF g(1) nn(1)] and by' = gamma_numD [OF g(2) nn(2)]
  have keep: "gamma (if c then A else B) x" if "gamma A x" "gamma B x" for A B using that by simp
  consider "op = ''<''" | "op = ''<=''" | "op = ''>''" | "op = ''>=''"
    using op by (auto simp: ORDERED_CMP_OPS_def)
  then show ?thesis
  proof cases
    case 1
    then have lt: "js_lt x (hi b)" using True js_lt_le_trans(1) by'(2) by (simp add: js_cmp_def)
    have "js_le x (if whole a then js_sub (math_ceil (hi b)) (Fin 1) else hi b)"
      using le_sub_one [OF ax(3) ax(5) lt] js_lt_le [OF lt] by simp
    then show ?thesis using 1 g(1) ax(4) by'(4) nn(1)
      by (auto simp: refineLhs_def ORDERED_CMP_OPS_def intro!: meetInterval_sound)
  next
    case 2
    then have le: "js_le x (hi b)" using True js_le_trans by'(2) by (auto simp: js_cmp_def)
    have "js_le x (if whole a then math_floor (hi b) else hi b)"
      using floor_bound [OF ax(3) le] le by simp
    then show ?thesis using 2 g(1) ax(4) by'(4) nn(1)
      by (auto simp: refineLhs_def ORDERED_CMP_OPS_def intro!: meetInterval_sound)
  next
    case 3
    then have lt: "js_lt (lo b) x" using True js_lt_le_trans(2) by'(1) by (simp add: js_cmp_def)
    have "js_le (if whole a then js_add (math_floor (lo b)) (Fin 1) else lo b) x"
      using add_one_le [OF ax(3) ax(5) lt] js_lt_le [OF lt] by simp
    then show ?thesis using 3 g(1) ax(4) by'(4) nn(1)
      by (auto simp: refineLhs_def ORDERED_CMP_OPS_def intro!: meetInterval_sound)
  next
    case 4
    then have le: "js_le (lo b) x" using True js_le_trans by'(1) by (auto simp: js_cmp_def)
    have "js_le (if whole a then math_ceil (lo b) else lo b) x"
      using ceil_bound [OF ax(3) le] le by simp
    then show ?thesis using 4 g(1) ax(4) by'(4) nn(1)
      by (auto simp: refineLhs_def ORDERED_CMP_OPS_def intro!: meetInterval_sound)
  qed
qed

lemma refineLhs_eq:
  assumes "gamma a x" "gamma b y" "js_eq x y"
  shows "gamma (refineLhs ''==='' a b c) x"
proof -
  have nn: "x \<noteq> NaN" "y \<noteq> NaN" using assms(3) js_le_not_NaN by (auto simp: js_eq_def)
  note ax = gamma_numD [OF assms(1) nn(1)] and by' = gamma_numD [OF assms(2) nn(2)]
  have "js_le (lo b) x" "js_le x (hi b)" using by'(1,2) assms(3) js_le_trans unfolding js_eq_def by blast+
  then show ?thesis using assms(1) ax(4) by'(4)
    by (simp add: refineLhs_def ORDERED_CMP_OPS_def) (auto intro: meetInterval_sound)
qed

lemma refineLhs_neq:
  assumes "gamma a x" "gamma b y" "\<not> js_eq x y"
  shows "gamma (refineLhs ''!=='' a b False) x"
proof (cases "hasNumeric a \<and> hasNumeric b \<and> isSingleton b \<and> whole a \<and> isInteger (lo b) \<and> x \<noteq> NaN")
  case False
  then show ?thesis using assms(1)
    by (cases "x = NaN") (auto simp: refineLhs_def clearNaNFlag_def ORDERED_CMP_OPS_def intro!: meetInterval_sound)
next
  case T: True
  then have s: "isSingleton b" "whole a" "isInteger (lo b)" and x: "x \<noteq> NaN" by auto
  note ax = gamma_numD [OF assms(1) x]
  have e: "js_eq (lo b) y" using gamma_singleton [OF assms(2) s(1)] by simp
  have lo: "js_le (js_add (lo a) (Fin 1)) x" if "js_eq (lo a) (lo b)"
  proof -
    have i: "isInteger (lo a)" using that s(3) js_eq_isInteger by blast
    have "js_lt (lo a) x" using ax(1) assms(3) that e js_le_trans unfolding js_lt_iff js_eq_def by blast
    from add_one_le [OF ax(3) [OF s(2)] ax(5) this]
    show ?thesis using i by (cases "lo a") (auto simp: isInteger_Fin elim!: Ints_cases)
  qed
  have hi: "js_le x (js_sub (hi a) (Fin 1))" if "js_eq (hi a) (lo b)"
  proof -
    have i: "isInteger (hi a)" using that s(3) js_eq_isInteger by blast
    have "js_lt x (hi a)" using ax(2) assms(3) that e js_le_trans unfolding js_lt_iff js_eq_def by blast
    from le_sub_one [OF ax(3) [OF s(2)] ax(5) this]
    show ?thesis using i by (cases "hi a") (auto simp: isInteger_Fin js_sub_def intF64_def signedZero_def elim!: Ints_cases split: if_splits)
  qed
  show ?thesis using T assms(1) lo hi ax(1,2)
    by (auto simp: refineLhs_def clearNaNFlag_def ORDERED_CMP_OPS_def intro!: meetInterval_sound)
qed

section \<open>The boundary check\<close>

lemma isSafeInteger_range:
  assumes "isInteger x" "js_le SAFE_MIN x" "js_le x SAFE_MAX"
  shows "isSafeInteger x"
  using assms js_le_finite [of SAFE_MIN x] js_le_finite [of x SAFE_MAX] isFinite_isInteger [of x]
  by (auto simp: isSafeInteger_def SAFE_MIN_def SAFE_MAX_def)

lemma checkBoundary_prove_cases:
  assumes "checkBoundary v cls = Prove l h"
  shows "isBottom v \<or> \<not> maybeNaN v \<and> whole v \<and> lo v = l \<and> hi v = h \<and>
    js_le (if cls = U64 then Fin 0 else SAFE_MIN) l \<and> js_le h SAFE_MAX"
  using assms by (auto simp: checkBoundary_def Let_def split: if_splits option.splits)

lemma checkBoundary_member:
  assumes "checkBoundary v cls = Prove l h" "gamma v x"
  shows "isSafeInteger x" "cls = U64 \<Longrightarrow> js_le (Fin 0) x" "js_le l x" "js_le x h"
proof -
  have v: "\<not> maybeNaN v" "whole v" "lo v = l" "hi v = h" "js_le (if cls = U64 then Fin 0 else SAFE_MIN) l" "js_le h SAFE_MAX"
    using checkBoundary_prove_cases [OF assms(1)] isBottom_gamma assms(2) by blast+
  have x: "x \<noteq> NaN" using v(1) assms(2) by auto
  note n = gamma_numD [OF assms(2) x]
  show b: "js_le l x" "js_le x h" using n(1,2) v by auto
  show "js_le (Fin 0) x" if "cls = U64" using js_le_trans [OF v(5) b(1)] that by simp
  have "js_le SAFE_MIN (if cls = U64 then Fin 0 else SAFE_MIN)"
    by (simp add: SAFE_MIN_def SAFE_MAX_def)
  then show "isSafeInteger x"
    using isSafeInteger_range n(3) v(2) js_le_trans [OF js_le_trans [OF _ v(5)] b(1)] js_le_trans [OF b(2) v(6)] by blast
qed

section \<open>Soundness of the domain\<close>

text \<open>The JavaScript operator a numeric \<^verbatim>\<open>bin\<close> node stands for.\<close>

definition js_bin :: "(f64 \<Rightarrow> f64 \<Rightarrow> f64) \<Rightarrow> string \<Rightarrow> f64 \<Rightarrow> f64 \<Rightarrow> f64" where
  "js_bin pow op x y =
     (if op = ''+'' then js_add x y else if op = ''-'' then js_sub x y
      else if op = ''*'' then js_mul x y else if op = ''/'' then js_div x y
      else if op = ''%'' then js_mod x y else if op = ''**'' then pow x y
      else bitwiseOp op x y)"

definition ARITH_OPS :: "string list" where
  "ARITH_OPS = [''+'', ''-'', ''*'', ''/'', ''%'', ''**''] @ BITWISE_OPS"

lemma wf_js_bin:
  assumes "pow_laws pow" "wf_f64 x" "op \<in> set ARITH_OPS"
  shows "wf_f64 (js_bin pow op x y)"
  using assms wf_bitwiseOp pow_lawsD(1)
  by (auto simp: js_bin_def ARITH_OPS_def wf_js_add wf_js_sub wf_js_mul wf_js_div wf_js_mod
      simp del: wf_f64.simps)

text \<open>The side conditions under which a transfer function is sound: the two zeros a bound
  cannot tell apart matter to division and exponentiation only.\<close>

definition tameOperands :: "string \<Rightarrow> f64 \<Rightarrow> f64 \<Rightarrow> bool" where
  "tameOperands op x y = ((op = ''/'' \<longrightarrow> y \<noteq> NegZero) \<and> (op = ''**'' \<longrightarrow> x \<noteq> NaN \<and> x \<noteq> NegZero))"

lemma gamma_transferBin:
  assumes "pow_laws pow" "wfAbs a" "wfAbs b" "gamma a x" "gamma b y" "op \<in> set ARITH_OPS"
    "tameOperands op x y" "unbroken (transferBin pow op a b)"
  shows "gamma (transferBin pow op a b) (js_bin pow op x y)"
proof -
  consider "op = ''+''" | "op = ''-''" | "op = ''*''" | "op = ''/''" | "op = ''%''" | "op = ''**''"
    | "op \<in> set BITWISE_OPS" using assms(6) by (auto simp: ARITH_OPS_def)
  then show ?thesis
  proof cases
    case 7
    moreover from this have "transferBin pow op a b = transferBitwise op a b" "js_bin pow op x y = bitwiseOp op x y"
      by (auto simp: transferBin_def js_bin_def BITWISE_OPS_def)
    ultimately show ?thesis using transferBitwise_sound [OF assms(4,5)] by simp
  qed (use assms transferAdd_sound transferSub_sound transferMul_sound transferDiv_sound transferMod_sound
      transferPow_sound in \<open>auto simp: transferBin_def js_bin_def tameOperands_def\<close>)
qed

text \<open>Both sides of a comparison, on the edge where it evaluated to \<open>branch\<close>: the operator
  and the NaN flag are those of \<^verbatim>\<open>FnAnalyzer.refine\<close>.\<close>

definition edgeOp :: "string \<Rightarrow> bool \<Rightarrow> string" where
  "edgeOp op branch = (if branch then op else NEGATE op)"

definition edgeClearNaN :: "string \<Rightarrow> bool \<Rightarrow> bool" where
  "edgeClearNaN op branch = (if branch then op \<noteq> ''!=='' else op = ''!=='')"

lemma js_eq_sym: "js_eq x y = js_eq y x"
  by (auto simp: js_eq_def)

lemma js_not_lt: "\<not> js_lt x y \<longleftrightarrow> js_le y x \<or> x = NaN \<or> y = NaN"
  using js_le_total by (auto simp: js_lt_iff)

lemma js_not_le_iff: "\<not> js_le x y \<longleftrightarrow> js_lt y x \<or> x = NaN \<or> y = NaN"
  using js_not_le by (cases "x = NaN \<or> y = NaN") (auto simp: js_lt_iff)

lemma gamma_refineLhs:
  assumes "gamma a x" "gamma b y" "op \<in> set CMP_OPS" "js_cmp op x y = branch"
  shows "gamma (refineLhs (edgeOp op branch) a b (edgeClearNaN op branch)) x"
    "gamma (refineLhs (FLIP (edgeOp op branch)) b a (edgeClearNaN op branch)) y"
proof -
  consider "op = ''<''" | "op = ''<=''" | "op = ''>''" | "op = ''>=''" | "op = ''===''" | "op = ''!==''"
    using assms(3) by (auto simp: CMP_OPS_def)
  note ops = this
  have ord: "gamma (refineLhs e a b c) x \<and> gamma (refineLhs (FLIP e) b a c) y"
    if "e \<in> set ORDERED_CMP_OPS" "js_cmp e x y \<or> \<not> c \<and> (x = NaN \<or> y = NaN)" for e c
  proof -
    have "FLIP e \<in> set ORDERED_CMP_OPS" "js_cmp (FLIP e) y x = js_cmp e x y"
      using that(1) by (auto simp: ORDERED_CMP_OPS_def FLIP_def js_cmp_def)
    then show ?thesis
      using refineLhs_ordered [OF assms(1,2) that(1), of c] refineLhs_ordered [OF assms(2,1), of "FLIP e" c] that(2)
      by (auto split: if_splits)
  qed
  have eq: "gamma (refineLhs ''==='' a b c) x \<and> gamma (refineLhs ''==='' b a c) y" if "js_eq x y" for c
    using refineLhs_eq assms(1,2) that js_eq_sym by blast
  have neq: "gamma (refineLhs ''!=='' a b False) x \<and> gamma (refineLhs ''!=='' b a False) y" if "\<not> js_eq x y"
    using refineLhs_neq assms(1,2) that js_eq_sym by blast
  have "gamma (refineLhs (edgeOp op branch) a b (edgeClearNaN op branch)) x \<and>
    gamma (refineLhs (FLIP (edgeOp op branch)) b a (edgeClearNaN op branch)) y"
    using ops
  proof cases
    case 1 then show ?thesis using ord [of "''<''" True] ord [of "''>=''" False] assms(4)
      by (cases branch) (auto simp: edgeOp_def edgeClearNaN_def NEGATE_def ORDERED_CMP_OPS_def js_cmp_def js_not_lt)
  next
    case 2 then show ?thesis using ord [of "''<=''" True] ord [of "''>''" False] assms(4)
      by (cases branch) (auto simp: edgeOp_def edgeClearNaN_def NEGATE_def ORDERED_CMP_OPS_def js_cmp_def js_not_le_iff)
  next
    case 3 then show ?thesis using ord [of "''>''" True] ord [of "''<=''" False] assms(4)
      by (cases branch) (auto simp: edgeOp_def edgeClearNaN_def NEGATE_def ORDERED_CMP_OPS_def js_cmp_def js_not_lt)
  next
    case 4 then show ?thesis using ord [of "''>=''" True] ord [of "''<''" False] assms(4)
      by (cases branch) (auto simp: edgeOp_def edgeClearNaN_def NEGATE_def ORDERED_CMP_OPS_def js_cmp_def js_not_le_iff)
  next
    case 5 then show ?thesis using eq neq assms(4)
      by (cases branch) (auto simp: edgeOp_def edgeClearNaN_def NEGATE_def FLIP_def js_cmp_def)
  next
    case 6 then show ?thesis using eq neq assms(4)
      by (cases branch) (auto simp: edgeOp_def edgeClearNaN_def NEGATE_def FLIP_def js_cmp_def)
  qed
  then show "gamma (refineLhs (edgeOp op branch) a b (edgeClearNaN op branch)) x"
    "gamma (refineLhs (FLIP (edgeOp op branch)) b a (edgeClearNaN op branch)) y" by simp_all
qed

section \<open>The boundary contract\<close>

lemma wf_SAFE: "wf_f64 SAFE_MAX" "wf_f64 SAFE_MIN" "js_le SAFE_MIN SAFE_MAX" "isFinite SAFE_MAX" "isFinite SAFE_MIN"
  using wf_small_int [of 9007199254740991] wf_small_int [of "- 9007199254740991"]
  by (simp_all add: SAFE_MAX_def SAFE_MIN_def)

lemma gamma_classSeed_I64: "gamma (classSeed ''i64'') x \<longleftrightarrow> wf_f64 x \<and> isSafeInteger x"
  using isSafeInteger_range [of x] js_le_finite [of SAFE_MIN x] js_le_finite [of x SAFE_MAX]
  by (cases "x = NaN") (auto simp: classSeed_def gamma_absVal wf_SAFE isSafeInteger_def isFinite_isInteger
      SAFE_MAX_def SAFE_MIN_def simp del: wf_f64.simps)

lemma gamma_classSeed_U64: "gamma (classSeed ''u64'') x \<longleftrightarrow> wf_f64 x \<and> isSafeInteger x \<and> js_le (Fin 0) x"
  using isSafeInteger_range [of x] js_le_finite [of "Fin 0" x] js_le_finite [of x SAFE_MAX]
  by (cases "x = NaN") (auto simp: classSeed_def gamma_absVal wf_SAFE isSafeInteger_def isFinite_isInteger
      SAFE_MAX_def SAFE_MIN_def simp del: wf_f64.simps)

definition intClassName :: "IntClass \<Rightarrow> string" where
  "intClassName cls = (case cls of I64 \<Rightarrow> ''i64'' | U64 \<Rightarrow> ''u64'')"

section \<open>Widening terminates\<close>

text \<open>How far a value can still be widened: the thresholds left on each side, and the flags a
  join can still flip.\<close>

definition flagRank :: "AbsVal \<Rightarrow> nat" where
  "flagRank v = (if whole v then 1 else 0) + (if maybeNaN v then 0 else 1) + (if spelling v = None then 0 else 1)"

definition widenRank :: "AbsVal \<Rightarrow> nat" where
  "widenRank v = length (filter (\<lambda>t. js_lt t (lo v)) WIDEN_THRESHOLDS_NEG) +
     length (filter (\<lambda>t. js_lt (hi v) t) WIDEN_THRESHOLDS) + flagRank v"

lemma js_lt_normZero [simp]: "js_lt (normZero x) y = js_lt x y" "js_lt x (normZero y) = js_lt x y"
  by (simp_all add: js_lt_iff)

lemma filter_length_mono: "(\<And>t. Q t \<Longrightarrow> P t) \<Longrightarrow> length (filter Q xs) \<le> length (filter P xs)"
  by (induction xs) auto

lemma filter_length_strict: "(\<And>t. Q t \<Longrightarrow> P t) \<Longrightarrow> t \<in> set xs \<Longrightarrow> P t \<Longrightarrow> \<not> Q t \<Longrightarrow> length (filter Q xs) < length (filter P xs)"
proof (induction xs)
  case (Cons a xs)
  then show ?case using filter_length_mono [of Q P xs] by (auto simp: less_Suc_eq_le)
qed simp

lemma neg_threshold:
  assumes "l \<noteq> NaN"
  obtains t where "find (\<lambda>t. js_le t l) WIDEN_THRESHOLDS_NEG = Some t" "t \<in> set WIDEN_THRESHOLDS_NEG" "js_le t l"
proof -
  have inf: "NInf \<in> set WIDEN_THRESHOLDS_NEG" by (simp add: WIDEN_THRESHOLDS_NEG_def)
  obtain t where t: "find (\<lambda>t. js_le t l) WIDEN_THRESHOLDS_NEG = Some t"
    using assms inf find_None_iff [of "\<lambda>t. js_le t l" WIDEN_THRESHOLDS_NEG] by (metis js_le_NInf not_Some_eq)
  then show ?thesis using that find_Some_iff [of "\<lambda>t. js_le t l" WIDEN_THRESHOLDS_NEG t] by (metis nth_mem)
qed

lemma pos_threshold:
  assumes "h \<noteq> NaN"
  obtains t where "find (\<lambda>t. js_le h t) WIDEN_THRESHOLDS = Some t" "t \<in> set WIDEN_THRESHOLDS" "js_le h t"
proof -
  have inf: "PInf \<in> set WIDEN_THRESHOLDS" by (simp add: WIDEN_THRESHOLDS_def)
  obtain t where t: "find (\<lambda>t. js_le h t) WIDEN_THRESHOLDS = Some t"
    using assms inf find_None_iff [of "\<lambda>t. js_le h t" WIDEN_THRESHOLDS] by (metis js_le_PInf not_Some_eq)
  then show ?thesis using that find_Some_iff [of "\<lambda>t. js_le h t" WIDEN_THRESHOLDS t] by (metis nth_mem)
qed

definition mustGrow :: "AbsVal \<Rightarrow> AbsVal \<Rightarrow> bool" where
  "mustGrow prev nxt = (js_le (lo nxt) (lo prev) \<and> js_le (hi prev) (hi nxt) \<and> (whole nxt \<longrightarrow> whole prev) \<and>
     (maybeNaN prev \<longrightarrow> maybeNaN nxt) \<and> (spelling nxt = spelling prev \<or> spelling nxt = None))"

lemma widen_rank:
  assumes "hasNumeric prev" "mustGrow prev nxt"
  shows "widenRank (widen prev nxt) \<le> widenRank prev"
    "\<not> sameVal prev (widen prev nxt) \<Longrightarrow> widenRank (widen prev nxt) < widenRank prev"
proof -
  note g = assms(2) [unfolded mustGrow_def]
  have nn: "lo nxt \<noteq> NaN" "hi nxt \<noteq> NaN" using g js_le_not_NaN by blast+
  have nb: "\<not> isBottom prev" using assms(1) by (auto simp: isBottom_def hasNumeric_def js_lt_iff)
  define l where "l = lo (widen prev nxt)"
  define h where "h = hi (widen prev nxt)"
  have L: "(js_eq (lo prev) l \<and> length (filter (\<lambda>t. js_lt t l) WIDEN_THRESHOLDS_NEG) =
       length (filter (\<lambda>t. js_lt t (lo prev)) WIDEN_THRESHOLDS_NEG)) \<or>
     length (filter (\<lambda>t. js_lt t l) WIDEN_THRESHOLDS_NEG) < length (filter (\<lambda>t. js_lt t (lo prev)) WIDEN_THRESHOLDS_NEG)"
  proof (cases "js_lt (lo nxt) (lo prev)")
    case True
    obtain t where t: "find (\<lambda>t. js_le t (lo nxt)) WIDEN_THRESHOLDS_NEG = Some t" "t \<in> set WIDEN_THRESHOLDS_NEG" "js_le t (lo nxt)"
      using neg_threshold [OF nn(1)] .
    have l: "l = normZero t" using True nb t(1) by (simp add: l_def widen_def Let_def)
    have lt: "js_lt t (lo prev)" using js_lt_le_trans(2) [OF t(3) True] .
    have "js_lt s l \<Longrightarrow> js_lt s (lo prev)" "\<not> js_lt t l" for s
      using js_lt_le_trans(1) [OF _ js_lt_le [OF lt], of s] by (simp_all add: l) (simp add: js_lt_iff)
    then show ?thesis using filter_length_strict [of "\<lambda>s. js_lt s l" "\<lambda>s. js_lt s (lo prev)", OF _ t(2) lt] by blast
  next
    case False
    then have l: "l = normZero (lo nxt)" "js_le (lo prev) (lo nxt)" using nb g js_not_lt nn js_le_not_NaN
      by (auto simp: l_def widen_def Let_def)
    then have "js_lt s l = js_lt s (lo prev)" for s using g js_le_trans unfolding l js_lt_iff js_le_normZero by blast
    then show ?thesis using l g by (simp add: js_eq_def)
  qed
  have H: "(js_eq (hi prev) h \<and> length (filter (\<lambda>t. js_lt h t) WIDEN_THRESHOLDS) =
       length (filter (\<lambda>t. js_lt (hi prev) t) WIDEN_THRESHOLDS)) \<or>
     length (filter (\<lambda>t. js_lt h t) WIDEN_THRESHOLDS) < length (filter (\<lambda>t. js_lt (hi prev) t) WIDEN_THRESHOLDS)"
  proof (cases "js_lt (hi prev) (hi nxt)")
    case True
    obtain t where t: "find (\<lambda>t. js_le (hi nxt) t) WIDEN_THRESHOLDS = Some t" "t \<in> set WIDEN_THRESHOLDS" "js_le (hi nxt) t"
      using pos_threshold [OF nn(2)] .
    have l: "h = normZero t" using True nb t(1) by (simp add: h_def widen_def Let_def)
    have lt: "js_lt (hi prev) t" using js_lt_le_trans(1) [OF True t(3)] .
    have "js_lt h s \<Longrightarrow> js_lt (hi prev) s" "\<not> js_lt h t" for s
      using js_lt_le_trans(2) [OF js_lt_le [OF lt], of s] by (simp_all add: l) (simp add: js_lt_iff)
    then show ?thesis using filter_length_strict [of "\<lambda>s. js_lt h s" "\<lambda>s. js_lt (hi prev) s", OF _ t(2) lt] by blast
  next
    case False
    then have l: "h = normZero (hi nxt)" "js_le (hi nxt) (hi prev)" using nb g js_not_lt nn js_le_not_NaN
      by (auto simp: h_def widen_def Let_def)
    then have "js_lt h s = js_lt (hi prev) s" for s using g js_le_trans unfolding l js_lt_iff js_le_normZero by blast
    then show ?thesis using l g by (simp add: js_eq_def)
  qed
  define w where "w = widen prev nxt"
  have "(whole w \<longrightarrow> whole prev) \<and> (maybeNaN prev \<longrightarrow> maybeNaN w) \<and> (spelling w = spelling prev \<or> spelling w = None)"
    using g nb by (auto simp: w_def widen_def Let_def absVal_def)
  then have F: "flagRank w \<le> flagRank prev" "flagRank w = flagRank prev \<Longrightarrow>
      whole prev = whole w \<and> maybeNaN prev = maybeNaN w \<and> spelling prev = spelling w"
    by (cases "whole w"; cases "whole prev"; cases "maybeNaN w"; cases "maybeNaN prev";
        cases "spelling w"; cases "spelling prev"; simp add: flagRank_def)+
  show "widenRank (widen prev nxt) \<le> widenRank prev"
    using L H F(1) unfolding widenRank_def l_def h_def w_def by linarith
  show "widenRank (widen prev nxt) < widenRank prev" if ns: "\<not> sameVal prev (widen prev nxt)"
  proof (cases "js_eq (lo prev) l \<and> js_eq (hi prev) h")
    case True
    then have "flagRank w < flagRank prev"
      using ns F unfolding sameVal_def l_def h_def w_def by (metis nat_less_le)
    then show ?thesis using L H unfolding widenRank_def l_def h_def w_def by linarith
  next
    case False
    then show ?thesis using L H F(1) unfolding widenRank_def l_def h_def w_def by linarith
  qed
qed

text \<open>A header join only grows the head: what the loop fixpoint feeds to \<open>widen\<close>.\<close>

lemma mustGrow_join:
  assumes "hasNumeric a"
  shows "mustGrow a (join a b)"
proof -
  have nn: "lo a \<noteq> NaN" "hi a \<noteq> NaN" using assms js_le_not_NaN by (auto simp: hasNumeric_def)
  have nb: "\<not> isBottom a" using assms by (auto simp: isBottom_def hasNumeric_def js_lt_iff)
  have "js_le (math_min [lo a, lo b]) (lo a)" "js_le (hi a) (math_max [hi a, hi b])" if "hasNumeric b"
    using that nn js_le_not_NaN math_min_lower [of "[lo a, lo b]" "lo a"] math_max_upper [of "[hi a, hi b]" "hi a"]
    by (auto simp: hasNumeric_def js_le_refl)
  then show ?thesis using assms nn nb
    by (auto simp: mustGrow_def join_def Let_def js_le_refl absVal_def)
qed

section \<open>Properties\<close>

lemmas abs_eval = INT32_ABS_def UINT32_ABS_def classSeed_def constVal_def absVal_def Let_def isInteger_def
  hasNumeric_def isSingleton_def isBottom_def js_eq_def hasZero_def js_sub_def unbroken_def gamma_def TOP_def
  BOTTOM_def math_max_def math_min_def max2_def min2_def SAFE_MAX_def SAFE_MIN_def

text \<open>C1. A proved boundary is exact: when the check answers PROVE for a slot of a class, every
  double the abstract value stands for is a safe integer inside the proven range, and a
  non-negative one when the slot is unsigned. So no crossing truncates, wraps or meets NaN.\<close>

theorem checkBoundary_sound:
  assumes "checkBoundary v cls = Prove l h" "gamma v x"
  shows "isSafeInteger x \<and> js_le l x \<and> js_le x h \<and> (if cls = U64 then js_le (Fin 0) x else True)"
  using checkBoundary_member [OF assms] by simp

theorem checkBoundary_sound_witness:
  "checkBoundary (classSeed ''u8'') U64 = Prove (Fin 0) (Fin 255) \<and> gamma (classSeed ''u8'') (Fin 7) \<and>
   isSafeInteger (Fin 7)"
proof -
  have p: "checkBoundary (classSeed ''u8'') U64 = Prove (Fin 0) (Fin 255)"
    by (simp add: checkBoundary_def abs_eval)
  have g: "gamma (classSeed ''u8'') (Fin 7)" by (simp add: abs_eval)
  show ?thesis using checkBoundary_sound [OF p g] p g by blast
qed



text \<open>C3. Branch refinement keeps every state of the edge it refines: when a comparison of two
  numbers evaluated to the branch taken, the refined sets of both operands still contain
  them, NaN and the sharpened integer bounds included.\<close>

theorem comparison_refinement_sound:
  assumes "gamma a x" "gamma b y" "op \<in> set CMP_OPS" "js_cmp op x y = branch"
  shows "gamma (refineLhs (edgeOp op branch) a b (edgeClearNaN op branch)) x \<and>
    gamma (refineLhs (FLIP (edgeOp op branch)) b a (edgeClearNaN op branch)) y"
  using gamma_refineLhs [OF assms] by simp

theorem comparison_refinement_sound_witness:
  "gamma (classSeed ''u8'') (Fin 9) \<and>
   refineLhs ''<'' (classSeed ''u8'') (constVal (Fin 10) None) True = absVal (Fin 0) (Fin 9) True False None \<and>
   gamma (refineLhs ''<'' (classSeed ''u8'') (constVal (Fin 10) None) True) (Fin 9)"
proof -
  have h: "gamma (classSeed ''u8'') (Fin 9)" "gamma (constVal (Fin 10) None) (Fin 10)" "''<'' \<in> set CMP_OPS"
    "js_cmp ''<'' (Fin 9) (Fin 10) = True" by (simp_all add: CMP_OPS_def js_cmp_def abs_eval)
  have e: "edgeOp ''<'' True = ''<''" "edgeClearNaN ''<'' True = True"
    "refineLhs ''<'' (classSeed ''u8'') (constVal (Fin 10) None) True = absVal (Fin 0) (Fin 9) True False None"
    by (simp_all add: edgeOp_def edgeClearNaN_def refineLhs_def meetInterval_def intF64_def abs_eval)
  show ?thesis using comparison_refinement_sound [OF h] h(1) e by simp
qed

text \<open>Joins and widening lose no value: the join of two sets contains both, and the
  widened loop header contains the state that was widened.\<close>

theorem join_widen_sound:
  "(gamma a x \<longrightarrow> gamma (join a b) x) \<and> (gamma b x \<longrightarrow> gamma (join a b) x) \<and>
   (gamma b x \<longrightarrow> gamma (widen a b) x)"
  using gamma_join1 gamma_join2 gamma_widen by blast

text \<open>C4. The two sides of a declared slot agree: a value proved at a call site or a return
  belongs to the seed the callee or the caller assumes, so an obligation discharged on one
  side of the boundary justifies the assumption on the other.\<close>

theorem boundary_contract:
  assumes "checkBoundary v cls = Prove l h" "gamma v x"
  shows "gamma (classSeed (intClassName cls)) x"
  using checkBoundary_member [OF assms] assms(2) gamma_classSeed_I64 gamma_classSeed_U64
  by (cases cls) (auto simp: intClassName_def gamma_def [of v])

theorem boundary_contract_witness:
  "checkBoundary (constVal (Fin 5) None) U64 = Prove (Fin 5) (Fin 5) \<and> gamma (classSeed ''u64'') (Fin 5)"
proof -
  have p: "checkBoundary (constVal (Fin 5) None) U64 = Prove (Fin 5) (Fin 5)"
    by (simp add: checkBoundary_def abs_eval)
  have g: "gamma (constVal (Fin 5) None) (Fin 5)" by (simp add: abs_eval)
  show ?thesis using boundary_contract [OF p g] p by (simp add: intClassName_def)
qed

text \<open>The unary operators and the Math functions are over-approximated: negation,
  complement, the rounding family, absolute value, and minimum and maximum over any number
  of arguments.\<close>

theorem math_transfer_sound:
  assumes "gamma a x" "list_all2 gamma as xs"
  shows "gamma (transferNeg a) (js_neg x) \<and> gamma (transferBitNot a) (js_bitnot x) \<and>
    gamma (transferMathRound fn a) (mathRoundFn fn x) \<and> gamma (transferAbs a) (math_abs x) \<and>
    gamma (transferMinMax mm as) (mathMinMax mm xs)"
  using gamma_neg transferBitNot_sound transferMathRound_sound transferAbs_sound transferMinMax_sound assms
  by blast



lemma toF64_three_halves: "toF64 (3 / 2) = Fin (3 / 2)"
proof -
  have "ilog2 (3 / 2) = 0" by (rule ilog2_unique) (simp_all add: pow2_def)
  then have "roundMag (3 / 2) = 3 / 2"
    by (intro roundMag_exact) (simp add: ulpExp_def pow2_def)
  then show ?thesis by (simp add: toF64_def pow2_def)
qed

text \<open>C6. Dividing two unbounded intervals breaks the analysis: for operands guarded only by
  \<open>>= 1\<close> the quotient gets NaN bounds without the NaN flag, a join then forgets it, and the
  boundary check proves the single value 0 although 3 / 2 reaches the slot.\<close>

theorem transferDiv_unbounded_unsound:
  "let g = refineLhs ''>='' TOP (constVal (Fin 1) None) True;
       v = join (constVal (Fin 0) None) (transferDiv g g)
   in gamma g (Fin 3) \<and> gamma g (Fin 2) \<and> checkBoundary v I64 = Prove (Fin 0) (Fin 0) \<and>
      js_div (Fin 3) (Fin 2) = Fin (3 / 2) \<and> \<not> isInteger (js_div (Fin 3) (Fin 2))"
proof -
  have g: "refineLhs ''>='' TOP (constVal (Fin 1) None) True = absVal (Fin 1) PInf False False None"
    by (simp add: refineLhs_def meetInterval_def abs_eval)
  have d: "transferDiv (absVal (Fin 1) PInf False False None) (absVal (Fin 1) PInf False False None) = absVal NaN NaN False False None"
    by (simp add: transferDiv_def abs_eval)
  have v: "checkBoundary (join (constVal (Fin 0) None)
        (transferDiv (absVal (Fin 1) PInf False False None) (absVal (Fin 1) PInf False False None))) I64 = Prove (Fin 0) (Fin 0)"
    unfolding d by (simp add: join_def checkBoundary_def abs_eval)
  have m: "gamma (absVal (Fin 1) PInf False False None) (Fin 3)" "gamma (absVal (Fin 1) PInf False False None) (Fin 2)"
    by (simp_all add: abs_eval)
  have q: "js_div (Fin 3) (Fin 2) = Fin (3 / 2)" by (simp add: js_div_def toF64_three_halves)
  have "\<lfloor>3 / 2 :: rat\<rfloor> = 1" by (simp add: floor_eq_iff)
  then have "\<not> isInteger (Fin (3 / 2))" by (simp add: isInteger_def)
  then show ?thesis unfolding Let_def g using v m q by simp
qed

text \<open>C7. A divisor known to equal zero may be negative zero: the analysis takes 5 / z for
  positive infinity, proves 3 for \<open>Math.trunc(Math.min(5 / z, 3))\<close>, and the program computes
  negative infinity.\<close>

theorem transferDiv_negative_zero_unsound:
  "let z = refineLhs ''==='' TOP (constVal (Fin 0) None) True;
       v = transferMathRound ''trunc'' (transferMinMax ''min'' [transferDiv (constVal (Fin 5) None) z, constVal (Fin 3) None])
   in gamma z NegZero \<and> checkBoundary v I64 = Prove (Fin 3) (Fin 3) \<and>
      math_trunc (math_min [js_div (Fin 5) NegZero, Fin 3]) = NInf"
proof -
  have z: "refineLhs ''==='' TOP (constVal (Fin 0) None) True = absVal (Fin 0) (Fin 0) False False None"
    and d: "transferDiv (constVal (Fin 5) None) (absVal (Fin 0) (Fin 0) False False None) = absVal PInf PInf False False None"
    and m: "transferMinMax ''min'' [absVal PInf PInf False False None, constVal (Fin 3) None] = absVal (Fin 3) (Fin 3) False False None"
    and t: "transferMathRound ''trunc'' (absVal (Fin 3) (Fin 3) False False None) = absVal (Fin 3) (Fin 3) True False None"
    and c: "checkBoundary (absVal (Fin 3) (Fin 3) True False None) I64 = Prove (Fin 3) (Fin 3)"
    and r: "math_trunc (math_min [js_div (Fin 5) NegZero, Fin 3]) = NInf"
    and g: "gamma (absVal (Fin 0) (Fin 0) False False None) NegZero"
    by code_simp+
  show ?thesis unfolding Let_def z d m t c using g r by simp
qed

end
