(* ===== verification/Json.thy ===== *)
theory Json
  imports JsText
begin

text \<open>
  The values the compiler's intermediate representation is made of. \<^verbatim>\<open>ir/ir.ts\<close> defines the IR
  as plain JSON-safe discriminated unions, and the passes modelled here read it as such:
  they dispatch on \<^verbatim>\<open>kind\<close> and walk \<^verbatim>\<open>Object.keys\<close>/\<^verbatim>\<open>Object.values\<close> generically. So an
  IR node is a JSON tree; a property that is absent reads as \<^verbatim>\<open>undefined\<close>. Objects keep the
  insertion order of their keys. \<open>jsz\<close> is the size all recursions over nodes decrease.
\<close>

datatype json = JUndef | JNull | JBool bool | JNum f64 | JStr string | JArr "json list"
  | JObj "(string \<times> json) list"

section \<open>Property access\<close>

fun fld :: "json \<Rightarrow> string \<Rightarrow> json" where
  "fld (JObj kvs) k = (case jm_get kvs k of Some v \<Rightarrow> v | None \<Rightarrow> JUndef)"
| "fld _ k = JUndef"

fun strOf :: "json \<Rightarrow> string" where
  "strOf (JStr s) = s"
| "strOf _ = []"

fun arrOf :: "json \<Rightarrow> json list" where
  "arrOf (JArr xs) = xs"
| "arrOf _ = []"

fun objValues :: "json \<Rightarrow> json list" where
  "objValues (JObj kvs) = map snd kvs"
| "objValues (JArr xs) = xs"
| "objValues _ = []"

fun objEntries :: "json \<Rightarrow> (string \<times> json) list" where
  "objEntries (JObj kvs) = kvs"
| "objEntries _ = []"

definition hasKey :: "string \<Rightarrow> json \<Rightarrow> bool" where
  "hasKey k j = jm_has (objEntries j) k"

fun isObject :: "json \<Rightarrow> bool" where
  "isObject (JObj _) = True"
| "isObject (JArr _) = True"
| "isObject _ = False"

text \<open>\<^verbatim>\<open>typeof\<close> tests.\<close>

fun isStr :: "json \<Rightarrow> bool" where
  "isStr (JStr _) = True"
| "isStr _ = False"

fun isDict :: "json \<Rightarrow> bool" where
  "isDict (JObj _) = True"
| "isDict _ = False"

fun isArr :: "json \<Rightarrow> bool" where
  "isArr (JArr _) = True"
| "isArr _ = False"

fun isBoolean :: "json \<Rightarrow> bool" where
  "isBoolean (JBool _) = True"
| "isBoolean _ = False"

fun isNumber :: "json \<Rightarrow> bool" where
  "isNumber (JNum _) = True"
| "isNumber _ = False"

text \<open>\<^verbatim>\<open>typeof v.kind === "string"\<close>: the test the walkers use for a node.\<close>

fun hasKind :: "json \<Rightarrow> bool" where
  "hasKind j = (case fld j ''kind'' of JStr _ \<Rightarrow> True | _ \<Rightarrow> False)"

definition kindOf :: "json \<Rightarrow> string" where
  "kindOf j = strOf (fld j ''kind'')"

definition sfld :: "json \<Rightarrow> string \<Rightarrow> string" where
  "sfld j k = strOf (fld j k)"

fun isNullish :: "json \<Rightarrow> bool" where
  "isNullish JUndef = True"
| "isNullish JNull = True"
| "isNullish _ = False"

text \<open>A value in a condition.\<close>

fun truthy :: "json \<Rightarrow> bool" where
  "truthy JUndef = False"
| "truthy JNull = False"
| "truthy (JBool b) = b"
| "truthy (JNum n) = (\<not> isZero n \<and> n \<noteq> NaN)"
| "truthy (JStr s) = (s \<noteq> [])"
| "truthy (JArr xs) = True"
| "truthy (JObj kvs) = True"

section \<open>Size\<close>

fun jsz :: "json \<Rightarrow> nat" where
  "jsz (JArr xs) = Suc (sum_list (map jsz xs))"
| "jsz (JObj kvs) = Suc (sum_list (map (\<lambda>kv. jsz (snd kv)) kvs))"
| "jsz _ = 1"

definition jszs :: "json list \<Rightarrow> nat" where
  "jszs xs = sum_list (map jsz xs)"

lemma jsz_pos [simp]: "0 < jsz j"
  by (cases j) auto

lemma jszs_simps [simp]: "jszs [] = 0" "jszs (x # xs) = jsz x + jszs xs"
  by (simp_all add: jszs_def)

lemma jsz_member: "x \<in> set xs \<Longrightarrow> jsz x \<le> jszs xs"
  by (induction xs) auto

lemma jsz_JObj: "jsz (JObj kvs) = Suc (jszs (map snd kvs))"
  by (simp add: jszs_def comp_def)

lemma jm_get_snd: "jm_get kvs k = Some v \<Longrightarrow> v \<in> set (map snd kvs)"
  by (induction kvs) (auto split: if_splits)

lemma jsz_fld_obj: "jm_get kvs k' \<noteq> None \<Longrightarrow> jsz (fld (JObj kvs) k) < jsz (JObj kvs)"
proof -
  assume k': "jm_get kvs k' \<noteq> None"
  then obtain v' where "v' \<in> set (map snd kvs)" using jm_get_snd by fastforce
  from jsz_member [OF this] have "0 < jszs (map snd kvs)" using jsz_pos [of v'] by linarith
  moreover have "jsz v \<le> jszs (map snd kvs)" if "jm_get kvs k = Some v" for v
    using jsz_member jm_get_snd [OF that] by blast
  ultimately show ?thesis
    by (cases "jm_get kvs k") (auto simp: jsz_JObj simp del: jsz.simps(2) intro: le_imp_less_Suc)
qed

lemma jsz_fld [simp]: "kindOf j \<noteq> [] \<Longrightarrow> jsz (fld j k) < jsz j"
proof (cases j)
  case (JObj kvs)
  assume "kindOf j \<noteq> []"
  then have "jm_get kvs ''kind'' \<noteq> None" using JObj by (auto simp: kindOf_def split: option.splits)
  then show ?thesis unfolding JObj by (rule jsz_fld_obj)
qed (simp_all add: kindOf_def)

lemma hasKind_kindOf: "kindOf j \<noteq> [] \<Longrightarrow> hasKind j"
  by (auto simp: kindOf_def split: json.splits)

lemma jszs_arrOf: "jszs (arrOf j) < jsz j"
  by (cases j) (simp_all add: jszs_def)

lemma jszs_arrOf_fld [simp]: "kindOf j \<noteq> [] \<Longrightarrow> jszs (arrOf (fld j k)) < jsz j"
  using jszs_arrOf [of "fld j k"] jsz_fld [of j k] by linarith

lemma jsz_arrOf_member: "x \<in> set (arrOf j) \<Longrightarrow> jsz x < jsz j"
  using jsz_member [of x "arrOf j"] jszs_arrOf [of j] by linarith

lemma jszs_objValues: "jszs (objValues j) < jsz j"
  by (cases j) (simp_all add: jszs_def comp_def)

lemma jsz_objValues_member: "x \<in> set (objValues j) \<Longrightarrow> jsz x < jsz j"
  using jsz_member [of x "objValues j"] jszs_objValues [of j] by linarith

lemma jsz_objEntries_member: "kv \<in> set (objEntries j) \<Longrightarrow> jsz (snd kv) < jsz j"
  using jsz_objValues_member [of "snd kv" j] by (cases j) auto

section \<open>JSON text\<close>

text \<open>\<^verbatim>\<open>JSON.stringify\<close>: property order is insertion order, \<^verbatim>\<open>undefined\<close> properties are
  dropped, and non-finite numbers print as null.\<close>

definition hexChar :: "nat \<Rightarrow> char" where
  "hexChar n = (if n < 10 then char_of (48 + n) else char_of (87 + n))"

definition quoteChar :: "char \<Rightarrow> string" where
  "quoteChar c =
     (let n = of_char c :: nat in
      if n = 34 then [char_of (92 :: nat), c]
      else if n = 92 then [char_of (92 :: nat), c]
      else if n = 8 then [char_of (92 :: nat), CHR ''b'']
      else if n = 9 then [char_of (92 :: nat), CHR ''t'']
      else if n = 10 then [char_of (92 :: nat), CHR ''n'']
      else if n = 12 then [char_of (92 :: nat), CHR ''f'']
      else if n = 13 then [char_of (92 :: nat), CHR ''r'']
      else if n < 32 then [char_of (92 :: nat)] @ ''u00'' @ [hexChar (n div 16), hexChar (n mod 16)]
      else [c])"

definition quoteJson :: "string \<Rightarrow> string" where
  "quoteJson s = CHR 0x22 # concat (map quoteChar s) @ [CHR 0x22]"

function stringify :: "json \<Rightarrow> string" where
  "stringify j = (case j of
     JUndef \<Rightarrow> ''null'' | JNull \<Rightarrow> ''null''
   | JBool b \<Rightarrow> (if b then ''true'' else ''false'')
   | JNum x \<Rightarrow> (if isFinite x then numToString x else ''null'')
   | JStr s \<Rightarrow> quoteJson s
   | JArr xs \<Rightarrow> ''['' @ joinWith '','' (map stringify xs) @ '']''
   | JObj kvs \<Rightarrow> ''{'' @ joinWith '',''
       (map (\<lambda>kv. quoteJson (fst kv) @ '':'' @ stringify (snd kv)) (filter (\<lambda>kv. snd kv \<noteq> JUndef) kvs)) @ ''}'')"
  by pat_completeness auto
termination
proof (relation "measure jsz")
  fix j kvs kv assume "j = JObj kvs" "kv \<in> set (filter (\<lambda>kv. snd kv \<noteq> JUndef) kvs)"
  then show "(snd kv, j) \<in> measure jsz" using jsz_objEntries_member [of kv j] by simp
next
  fix j xs x assume "j = JArr xs" "x \<in> set xs"
  then show "(x, j) \<in> measure jsz" using jsz_arrOf_member [of x j] by simp
qed simp

declare stringify.simps [simp del]

end
