(* ===== verification/IntEnv.thy ===== *)
theory IntEnv
  imports AbsSound Json
begin

text \<open>
  The environments of the integer inference (\<^verbatim>\<open>library/int-infer.ts\<close>): an insertion-ordered
  map from binding and access-path keys to abstract values, whose missing keys default to
  bottom (locals), top (globals, ordinary paths) or a class seed (declared field paths). Also
  the slot configuration a library profile resolves to. The lemmas lift the soundness of the
  value domain to states: joins, widening and path clearing lose no concrete state.
\<close>

section \<open>Slot configuration\<close>

record FnIntSlots =
  fnName :: string
  params :: "IntClass option list"
  paramPaths :: "string option list"
  ret :: "IntClass option"
  retPath :: "string option"
  paramSeeds :: "AbsVal option list"

record RecordIntSlot =
  slotCls :: IntClass
  paths :: "string list"

record IntSlotConfig =
  fns :: "(string, FnIntSlots) jsmap"
  records :: "(string, (string, RecordIntSlot) jsmap) jsmap"

record IntVerdict =
  path :: string
  cls :: IntClass
  loc :: json
  outcome :: IntOutcome

datatype Carrier = Plain | Optional

text \<open>The loop over a union's arms, counting number and unit arms.\<close>

fun carrierArms :: "json list \<Rightarrow> nat \<Rightarrow> nat \<Rightarrow> Carrier option" where
  "carrierArms [] numbers units = (if numbers = 1 \<and> 0 < units then Some Optional else None)"
| "carrierArms (arm # arms) numbers units =
     (if kindOf arm = ''f64'' then carrierArms arms (Suc numbers) units
      else if kindOf arm = ''nullT'' \<or> kindOf arm = ''undefinedT'' then carrierArms arms numbers (Suc units)
      else None)"

definition findUnion :: "json \<Rightarrow> json \<Rightarrow> json option" where
  "findUnion md unionId = find (\<lambda>u. fld u ''id'' = unionId) (arrOf (fld md ''unions''))"

definition numberCarrierKind :: "json \<Rightarrow> json \<Rightarrow> Carrier option" where
  "numberCarrierKind t md =
     (if kindOf t = ''f64'' then Some Plain
      else if kindOf t \<noteq> ''union'' then None
      else case findUnion md (fld t ''unionId'') of
             None \<Rightarrow> None
           | Some def \<Rightarrow> carrierArms (arrOf (fld def ''arms'')) 0 0)"

definition hasIntSlots :: "IntSlotConfig \<Rightarrow> bool" where
  "hasIntSlots cfg = (0 < length (records cfg) \<or>
     list_ex (\<lambda>f. ret (snd f) \<noteq> None \<or> list_ex (\<lambda>p. p \<noteq> None) (params (snd f))) (fns cfg))"

section \<open>Environments\<close>

type_synonym env = "(string, AbsVal) jsmap"

definition PATH_TOP_PREFIX :: string where
  "PATH_TOP_PREFIX = ''%path.top:''"

definition PATH_I64_PREFIX :: string where
  "PATH_I64_PREFIX = ''%path.i64:''"

definition PATH_U64_PREFIX :: string where
  "PATH_U64_PREFIX = ''%path.u64:''"

definition pathSeedOfKey :: "string \<Rightarrow> string option" where
  "pathSeedOfKey i =
     (if startsWith i PATH_TOP_PREFIX then Some ''top''
      else if startsWith i PATH_I64_PREFIX then Some ''i64''
      else if startsWith i PATH_U64_PREFIX then Some ''u64''
      else None)"

definition clearPathFacts :: "env \<Rightarrow> env" where
  "clearPathFacts env = jm_deleteIf (\<lambda>k. pathSeedOfKey k \<noteq> None) env"

definition isGlobalId :: "string \<Rightarrow> bool" where
  "isGlobalId i = startsWith i ''%g.''"

definition defaultVal :: "string \<Rightarrow> AbsVal" where
  "defaultVal i = (case pathSeedOfKey i of
     Some seed \<Rightarrow> (if seed = ''top'' then TOP else classSeed seed)
   | None \<Rightarrow> (if isGlobalId i then TOP else BOTTOM))"

definition envGet :: "env \<Rightarrow> string \<Rightarrow> AbsVal" where
  "envGet env i = (case jm_get env i of Some v \<Rightarrow> v | None \<Rightarrow> defaultVal i)"

text \<open>\<^verbatim>\<open>new Set([...a.keys(), ...b.keys()])\<close>\<close>

definition unionKeys :: "env \<Rightarrow> env \<Rightarrow> string list" where
  "unionKeys a b = jm_keys a @ filter (\<lambda>k. k \<notin> set (jm_keys a)) (jm_keys b)"

definition zipEnv :: "(AbsVal \<Rightarrow> AbsVal \<Rightarrow> AbsVal) \<Rightarrow> env \<Rightarrow> env \<Rightarrow> env" where
  "zipEnv f a b = foldl (\<lambda>out k. jm_set out k (f (envGet a k) (envGet b k))) [] (unionKeys a b)"

fun joinEnv :: "env option \<Rightarrow> env option \<Rightarrow> env option" where
  "joinEnv None b = b"
| "joinEnv (Some a) None = Some a"
| "joinEnv (Some a) (Some b) = Some (clearPathFacts (zipEnv join a b))"

definition envEquals :: "env \<Rightarrow> env \<Rightarrow> bool" where
  "envEquals a b = list_all (\<lambda>k. sameVal (envGet a k) (envGet b k)) (unionKeys a b)"

definition widenEnv :: "env \<Rightarrow> env \<Rightarrow> env" where
  "widenEnv prev nxt = clearPathFacts (zipEnv widen prev nxt)"

section \<open>States\<close>

lemma set_unionKeys [simp]: "set (unionKeys a b) = set (jm_keys a) \<union> set (jm_keys b)"
  by (auto simp: unionKeys_def)

lemma jm_get_foldl_set:
  "jm_get (foldl (\<lambda>out k. jm_set out k (f k)) m ks) k = (if k \<in> set ks then Some (f k) else jm_get m k)"
  by (induction ks arbitrary: m) (auto simp: jm_get_set)

lemma jm_get_zipEnv: "jm_get (zipEnv f a b) k =
  (if k \<in> set (jm_keys a) \<union> set (jm_keys b) then Some (f (envGet a k) (envGet b k)) else None)"
  by (simp add: zipEnv_def jm_get_foldl_set)

lemma envGet_missing: "k \<notin> set (jm_keys a) \<Longrightarrow> envGet a k = defaultVal k"
  using jm_get_keys [of a k] by (simp add: envGet_def)

lemma join_idem_default: "join (defaultVal k) (defaultVal k) = defaultVal k" if "pathSeedOfKey k = None"
  using that by (auto simp: defaultVal_def join_def isBottom_def hasNumeric_def Let_def absVal_def TOP_def BOTTOM_def
      math_min_def math_max_def min2_def max2_def)

lemma envGet_clearPathFacts: "envGet (clearPathFacts a) k = (if pathSeedOfKey k \<noteq> None then defaultVal k else envGet a k)"
  by (simp add: envGet_def clearPathFacts_def jm_get_deleteIf)

text \<open>A concrete state gives the numeric bindings their doubles (a binding that holds no
  number, an absent optional for instance, has none).\<close>

type_synonym cstate = "string \<Rightarrow> f64 option"

definition gammaEnv :: "env \<Rightarrow> cstate \<Rightarrow> bool" where
  "gammaEnv env s = (\<forall>k x. s k = Some x \<longrightarrow> gamma (envGet env k) x)"

definition gammaOpt :: "env option \<Rightarrow> cstate \<Rightarrow> bool" where
  "gammaOpt e s = (case e of Some env \<Rightarrow> gammaEnv env s | None \<Rightarrow> False)"

text \<open>Declared field paths promise their class: states in which every value at such a path
  belongs to the class seed, the assumption side of the boundary contract.\<close>

definition honest :: "cstate \<Rightarrow> bool" where
  "honest s = (\<forall>k x. pathSeedOfKey k \<noteq> None \<longrightarrow> s k = Some x \<longrightarrow> gamma (defaultVal k) x)"

lemma gammaEnv_clearPathFacts: "gammaEnv env s \<Longrightarrow> honest s \<Longrightarrow> gammaEnv (clearPathFacts env) s"
  by (auto simp: gammaEnv_def honest_def envGet_clearPathFacts)

lemma gamma_zipEnv:
  assumes "\<And>k x. gamma (envGet a k) x \<Longrightarrow> gamma (f (envGet a k) (envGet b k)) x" "gammaEnv a s"
    "\<And>k. k \<notin> set (jm_keys a) \<Longrightarrow> k \<notin> set (jm_keys b) \<Longrightarrow> envGet a k = defaultVal k"
  shows "gammaEnv (zipEnv f a b) s"
  using assms unfolding gammaEnv_def by (auto simp: envGet_def [of "zipEnv f a b"] jm_get_zipEnv) metis

lemma gamma_zipEnv2:
  assumes "\<And>k x. gamma (envGet b k) x \<Longrightarrow> gamma (f (envGet a k) (envGet b k)) x" "gammaEnv b s"
  shows "gammaEnv (zipEnv f a b) s"
  using assms envGet_missing [of _ b] unfolding gammaEnv_def
  by (auto simp: envGet_def [of "zipEnv f a b"] jm_get_zipEnv) metis

lemma gammaOpt_joinEnv1: "gammaOpt a s \<Longrightarrow> honest s \<Longrightarrow> gammaOpt (joinEnv a b) s"
  by (cases a; cases b) (auto simp: gammaOpt_def gamma_join1 envGet_missing
      intro!: gammaEnv_clearPathFacts gamma_zipEnv)

lemma gammaOpt_joinEnv2: "gammaOpt b s \<Longrightarrow> honest s \<Longrightarrow> gammaOpt (joinEnv a b) s"
  by (cases a; cases b) (auto simp: gammaOpt_def gamma_join2
      intro!: gammaEnv_clearPathFacts gamma_zipEnv2)

lemma gammaEnv_widenEnv: "gammaEnv nxt s \<Longrightarrow> honest s \<Longrightarrow> gammaEnv (widenEnv prev nxt) s"
  unfolding widenEnv_def by (intro gammaEnv_clearPathFacts gamma_zipEnv2 gamma_widen)

lemma gammaEnv_set:
  assumes "gammaEnv env s" "\<And>x. s k = Some x \<Longrightarrow> gamma v x"
  shows "gammaEnv (jm_set env k v) s"
  using assms by (auto simp: gammaEnv_def envGet_def jm_get_set)

lemma gammaEnv_update:
  assumes "gammaEnv env s" "\<And>x. r = Some x \<Longrightarrow> gamma v x"
  shows "gammaEnv (jm_set env k v) (s(k := r))"
  using assms by (auto simp: gammaEnv_def envGet_def jm_get_set)

end
