(* ===== verification/GlobalEffects.thy ===== *)
theory GlobalEffects
  imports IntEnv
begin

text \<open>
  \<^verbatim>\<open>globalEffectsOf\<close> of \<^verbatim>\<open>library/int-infer.ts\<close>: for every function of a module, the module
  globals it or anything it calls may write, and whether it may run unknown code. One visit
  per function collects its direct writes, its direct callees and the unknown flag; a
  fixpoint then closes over the call graph. The fixpoint is proved to terminate and to compute
  exactly the writes of the reachable functions.
\<close>

section \<open>One function's direct effects\<close>

definition STMT_KINDS :: "string list" where
  "STMT_KINDS = [''varDecl'', ''assign'', ''exprStmt'', ''if'', ''while'', ''doWhile'', ''switch'', ''for'',
     ''arraySet'', ''arraySetLength'', ''arraySetUndefined'', ''arrayDelete'', ''bytesSet'', ''forOf'', ''return'',
     ''fieldSet'', ''recordSet'', ''recordKeySet'', ''recordKeyDelete'', ''break'', ''continue'', ''block'', ''throw'',
     ''runtimeFence'', ''rethrow'', ''tryCatch'']"

definition isStmtKind :: "string \<Rightarrow> bool" where
  "isStmtKind k = (k \<in> set STMT_KINDS)"

definition typeContainsFunc :: "json \<Rightarrow> bool" where
  "typeContainsFunc t = str_includes (stringify t) (CHR 0x22 # ''func'' @ [CHR 0x22])"

text \<open>The writes, callees and unknown flag a visit accumulates.\<close>

record FnEffects =
  fxWrites :: "string list"
  fxCalls :: "string list"
  fxUnknown :: bool

definition addWrite :: "json \<Rightarrow> FnEffects \<Rightarrow> FnEffects" where
  "addWrite node fx = (if isGlobalId (sfld node ''localId'')
     then fx\<lparr>fxWrites := setAdd (fxWrites fx) (sfld node ''localId'')\<rparr> else fx)"

text \<open>The nodes the generic loop of \<^verbatim>\<open>visitExpr\<close> descends into, in order: node items of array
  properties, nodes inside plain entries such as \<^verbatim>\<open>{ name, value }\<close>, and node properties
  other than the type.\<close>

definition entryNodes :: "json \<Rightarrow> json list" where
  "entryNodes item = filter (\<lambda>sub. isObject sub \<and> hasKind sub) (objValues item)"

definition exprItemNodes :: "json \<Rightarrow> json list" where
  "exprItemNodes item =
     (if \<not> isObject item then []
      else if hasKey ''kind'' item then (if hasKind item then [item] else [])
      else entryNodes item)"

definition exprPropNodes :: "string \<times> json \<Rightarrow> json list" where
  "exprPropNodes kv = (case snd kv of
     JArr items \<Rightarrow> concat (map exprItemNodes items)
   | v \<Rightarrow> (if isObject v \<and> hasKind v \<and> fst kv \<noteq> ''type'' then [v] else []))"

definition visitExprNodes :: "json \<Rightarrow> json list" where
  "visitExprNodes e = concat (map exprPropNodes (objEntries e))"

text \<open>The same for the generic loop of \<^verbatim>\<open>visitStmt\<close>: each child with whether it is visited as
  a statement. Plain entries are switch cases.\<close>

definition tagNode :: "json \<Rightarrow> bool \<times> json" where
  "tagNode v = (isStmtKind (kindOf v), v)"

definition caseNodes :: "json \<Rightarrow> (bool \<times> json) list" where
  "caseNodes item =
     (if isNullish (fld item ''test'') then [] else [(False, fld item ''test'')]) @
     map (Pair True) (arrOf (fld item ''body''))"

definition stmtItemNodes :: "json \<Rightarrow> (bool \<times> json) list" where
  "stmtItemNodes item =
     (if isObject item \<and> hasKind item then [tagNode item]
      else if isObject item then caseNodes item else [])"

definition stmtPropNodes :: "json \<Rightarrow> (bool \<times> json) list" where
  "stmtPropNodes v = (case v of
     JArr items \<Rightarrow> concat (map stmtItemNodes items)
   | _ \<Rightarrow> (if isObject v \<and> hasKind v then [tagNode v] else []))"

definition visitStmtNodes :: "json \<Rightarrow> (bool \<times> json) list" where
  "visitStmtNodes s = concat (map stmtPropNodes (objValues s))"

lemma jsz_fld_le: "jsz (fld j k) \<le> jsz j"
proof (cases j)
  case (JObj kvs)
  then show ?thesis using jsz_fld_obj [of kvs k k] by (cases "jm_get kvs k") auto
qed simp_all

lemma exprItemNodes_size: "x \<in> set (exprItemNodes item) \<Longrightarrow> jsz x \<le> jsz item"
  using jsz_objValues_member [of x item]
  by (auto simp: exprItemNodes_def entryNodes_def split: if_splits)

lemma exprPropNodes_size: "x \<in> set (exprPropNodes kv) \<Longrightarrow> jsz x \<le> jsz (snd kv)"
proof (cases "snd kv")
  case (JArr items)
  assume "x \<in> set (exprPropNodes kv)"
  then obtain it where it: "it \<in> set items" "x \<in> set (exprItemNodes it)" using JArr by (auto simp: exprPropNodes_def)
  then show ?thesis using exprItemNodes_size [OF it(2)] jsz_arrOf_member [of it "JArr items"] JArr by simp
qed (auto simp: exprPropNodes_def split: if_splits)

lemma visitExprNodes_size: "x \<in> set (visitExprNodes e) \<Longrightarrow> jsz x < jsz e"
  using exprPropNodes_size [of x] jsz_objEntries_member [of _ e] by (fastforce simp: visitExprNodes_def)

lemma caseNodes_size: "x \<in> set (caseNodes item) \<Longrightarrow> isObject item \<Longrightarrow> jsz (snd x) \<le> jsz item"
  using jsz_fld_le [of item "''test''"] jsz_fld_le [of item "''body''"] jsz_arrOf_member [of _ "fld item ''body''"]
  by (fastforce simp: caseNodes_def split: if_splits)

lemma stmtPropNodes_size: "x \<in> set (stmtPropNodes v) \<Longrightarrow> jsz (snd x) \<le> jsz v"
proof (cases v)
  case (JArr items)
  assume "x \<in> set (stmtPropNodes v)"
  then obtain it where it: "it \<in> set items" "x \<in> set (stmtItemNodes it)" using JArr by (auto simp: stmtPropNodes_def)
  then have "jsz (snd x) \<le> jsz it" using caseNodes_size [of x it]
    by (auto simp: stmtItemNodes_def tagNode_def split: if_splits)
  then show ?thesis using it(1) jsz_arrOf_member [of it "JArr items"] JArr by simp
qed (auto simp: stmtPropNodes_def tagNode_def split: if_splits)

lemma visitStmtNodes_size: "x \<in> set (visitStmtNodes s) \<Longrightarrow> jsz (snd x) < jsz s"
  using stmtPropNodes_size [of x] jsz_objValues_member [of _ s] by (fastforce simp: visitStmtNodes_def)

lemma jsz_arr_fld: "kindOf j \<noteq> [] \<Longrightarrow> x \<in> set (arrOf (fld j k)) \<Longrightarrow> jsz x < jsz j"
  using jsz_arrOf_member [of x "fld j k"] jsz_fld [of j k] by linarith

definition UNKNOWN_KINDS :: "string list" where
  "UNKNOWN_KINDS = [''callValue'', ''newValue'', ''dynCall'', ''dynInvoke'', ''virtualCall'', ''new'', ''intrinsic'']"

text \<open>The flag a node sets before its children are visited.\<close>

definition noteUnknown :: "json \<Rightarrow> FnEffects \<Rightarrow> FnEffects" where
  "noteUnknown e fx =
     (if kindOf e \<in> set UNKNOWN_KINDS then fx\<lparr>fxUnknown := True\<rparr>
      else if kindOf e = ''libCall'' \<and> list_ex (\<lambda>a. typeContainsFunc (fld a ''type'')) (arrOf (fld e ''args''))
      then fx\<lparr>fxUnknown := True\<rparr> else fx)"

function visitExpr :: "FnEffects \<Rightarrow> json \<Rightarrow> FnEffects" and
  visitStmt :: "FnEffects \<Rightarrow> json \<Rightarrow> FnEffects" where
  "visitExpr fx e =
     (if kindOf e = ''assignExpr'' then visitExpr (addWrite e fx) (fld e ''value'')
      else if kindOf e = ''incDec'' then addWrite e fx
      else if kindOf e = ''call'' then
        foldl visitExpr (fx\<lparr>fxCalls := setAdd (fxCalls fx) (sfld e ''callee'')\<rparr>) (arrOf (fld e ''args''))
      else if kindOf e = ''seqExpr'' then
        visitExpr (foldl visitStmt fx (arrOf (fld e ''stmts''))) (fld e ''result'')
      else foldl visitExpr (noteUnknown e fx) (visitExprNodes e))"
| "visitStmt fx s =
     (if kindOf s = ''assign'' then visitExpr (addWrite s fx) (fld s ''value'')
      else if kindOf s = ''varDecl'' then
        (if fld s ''init'' = JNull then fx else visitExpr fx (fld s ''init''))
      else foldl (\<lambda>fx t. if fst t then visitStmt fx (snd t) else visitExpr fx (snd t)) fx (visitStmtNodes s))"
  by pat_completeness auto
termination
  by (relation "measure (\<lambda>x. case x of Inl (_, e) \<Rightarrow> jsz e | Inr (_, s) \<Rightarrow> jsz s)")
    (auto simp: jsz_arr_fld visitExprNodes_size dest: visitStmtNodes_size)

declare visitExpr.simps [simp del] visitStmt.simps [simp del]

section \<open>Transitive closure over the call graph\<close>

type_synonym strset = "string list"

definition fnEffects :: "json \<Rightarrow> FnEffects" where
  "fnEffects fn = foldl visitStmt \<lparr>fxWrites = [], fxCalls = [], fxUnknown = False\<rparr> (arrOf (fld fn ''body''))"

definition directWrites :: "json \<Rightarrow> (string, strset) jsmap" where
  "directWrites md = foldl (\<lambda>m fn. jm_set m (sfld fn ''name'') (fxWrites (fnEffects fn))) [] (arrOf (fld md ''functions''))"

definition directCalls :: "json \<Rightarrow> (string, strset) jsmap" where
  "directCalls md = foldl (\<lambda>m fn. jm_set m (sfld fn ''name'') (fxCalls (fnEffects fn))) [] (arrOf (fld md ''functions''))"

definition directUnknown :: "json \<Rightarrow> strset" where
  "directUnknown md = foldl (\<lambda>u fn. if fxUnknown (fnEffects fn) then setAdd u (sfld fn ''name'') else u) []
     (arrOf (fld md ''functions''))"

text \<open>The closure state: writes per function, the unknown functions, and the \<^verbatim>\<open>changed\<close> flag of
  the current pass.\<close>

type_synonym closure = "(string, strset) jsmap \<times> strset \<times> bool"

definition writesOf :: "(string, strset) jsmap \<Rightarrow> string \<Rightarrow> strset" where
  "writesOf W f = (case jm_get W f of Some w \<Rightarrow> w | None \<Rightarrow> [])"

definition closeCallee :: "string \<Rightarrow> closure \<Rightarrow> string \<Rightarrow> closure" where
  "closeCallee name st callee =
     (case st of (W, U, changed) \<Rightarrow>
        let hit = (callee \<in> set U \<and> name \<notin> set U);
            U' = (if hit then U @ [name] else U);
            w = writesOf W name;
            w' = foldl setAdd w (writesOf W callee)
        in (if w' = w then W else jm_set W name w', U', changed \<or> hit \<or> w' \<noteq> w))"

definition closePass :: "(string, strset) jsmap \<Rightarrow> closure \<Rightarrow> closure" where
  "closePass calls st = foldl (\<lambda>st c. foldl (closeCallee (fst c)) st (snd c)) st calls"

subsection \<open>What a pass does\<close>

definition cedge :: "(string, strset) jsmap \<Rightarrow> string \<Rightarrow> string \<Rightarrow> bool" where
  "cedge calls f g = (\<exists>cs. (f, cs) \<in> set calls \<and> g \<in> set cs)"

definition edges :: "(string, strset) jsmap \<Rightarrow> (string \<times> string) list" where
  "edges calls = concat (map (\<lambda>c. map (Pair (fst c)) (snd c)) calls)"

lemma set_edges: "(f, g) \<in> set (edges calls) \<longleftrightarrow> cedge calls f g"
  by (force simp: edges_def cedge_def)

lemma closePass_edges: "closePass calls st = foldl (\<lambda>st e. closeCallee (fst e) st (snd e)) st (edges calls)"
  unfolding closePass_def
proof (induction calls arbitrary: st)
  case (Cons c calls)
  have "foldl (closeCallee f) st cs = foldl (\<lambda>st e. closeCallee (fst e) st (snd e)) st (map (Pair f) cs)" for f st cs
    by (induction cs arbitrary: st) auto
  then show ?case using Cons by (simp add: edges_def)
qed (simp add: edges_def)

lemma writesOf_set: "writesOf (jm_set W f w) g = (if f = g then w else writesOf W g)"
  by (simp add: writesOf_def jm_get_set)

lemma closeCallee_writes: "set (writesOf (fst (closeCallee f st g)) h) =
  set (writesOf (fst st) h) \<union> (if h = f then set (writesOf (fst st) g) else {})"
proof (cases st)
  case (fields W U c)
  define w' where "w' = foldl setAdd (writesOf W f) (writesOf W g)"
  have w': "set w' = set (writesOf W f) \<union> set (writesOf W g)" by (simp add: w'_def)
  have "fst (closeCallee f st g) = (if w' = writesOf W f then W else jm_set W f w')"
    by (simp add: fields closeCallee_def Let_def flip: w'_def)
  then have "writesOf (fst (closeCallee f st g)) h = (if h = f then w' else writesOf W h)"
    by (simp add: writesOf_set)
  then show ?thesis using w' by (simp add: fields)
qed

lemma closeCallee_unknown: "set (fst (snd (closeCallee f st g))) =
  set (fst (snd st)) \<union> (if g \<in> set (fst (snd st)) then {f} else {})"
  by (cases st) (auto simp: closeCallee_def Let_def)

lemma closeCallee_changed: "snd (snd (closeCallee f st g)) \<longleftrightarrow> snd (snd st) \<or>
  (g \<in> set (fst (snd st)) \<and> f \<notin> set (fst (snd st))) \<or> \<not> set (writesOf (fst st) g) \<subseteq> set (writesOf (fst st) f)"
  by (cases st) (auto simp: closeCallee_def Let_def foldl_setAdd_eq)

lemma closeCallee_same: "\<not> snd (snd (closeCallee f st g)) \<Longrightarrow> closeCallee f st g = st"
  by (cases st) (auto simp: closeCallee_def Let_def split: if_splits)

subsection \<open>Termination\<close>

definition universe :: "(string, strset) jsmap \<Rightarrow> string set" where
  "universe W = (\<Union>f. set (writesOf W f))"

definition closeMeasure :: "(string, strset) jsmap \<Rightarrow> closure \<Rightarrow> nat" where
  "closeMeasure calls st = (\<Sum>f\<in>fst ` set calls. card (universe (fst st) - set (writesOf (fst st) f))) +
     card (fst ` set calls - set (fst (snd st)))"

lemma jm_get_value: "jm_get m k = Some v \<Longrightarrow> v \<in> snd ` set m"
  by (induction m) (auto split: if_splits)

lemma finite_universe: "finite (universe W)"
proof -
  have "universe W \<subseteq> (\<Union>v\<in>set (map snd W). set v)"
  proof
    fix x assume "x \<in> universe W"
    then obtain f where f: "x \<in> set (writesOf W f)" by (auto simp: universe_def)
    then show "x \<in> (\<Union>v\<in>set (map snd W). set v)" using jm_get_value [of W f]
      by (cases "jm_get W f") (auto simp: writesOf_def)
  qed
  then show ?thesis by (rule finite_subset) auto
qed

lemma closeCallee_universe: "universe (fst (closeCallee f st g)) = universe (fst st)"
  by (auto simp: universe_def closeCallee_writes split: if_splits)

lemma sum_card_diff_mono:
  assumes "finite F" "finite U" "\<And>f. A f \<subseteq> B f"
  shows "(\<Sum>f\<in>F. card (U - B f)) \<le> (\<Sum>f\<in>F. card (U - A f))"
    "f \<in> F \<Longrightarrow> x \<in> U \<Longrightarrow> x \<in> B f \<Longrightarrow> x \<notin> A f \<Longrightarrow> (\<Sum>f\<in>F. card (U - B f)) < (\<Sum>f\<in>F. card (U - A f))"
proof -
  have le: "card (U - B h) \<le> card (U - A h)" for h using assms(2,3) by (intro card_mono) auto
  then show "(\<Sum>f\<in>F. card (U - B f)) \<le> (\<Sum>f\<in>F. card (U - A f))" by (simp add: sum_mono)
  assume "f \<in> F" "x \<in> U" "x \<in> B f" "x \<notin> A f"
  moreover from this have "card (U - B f) < card (U - A f)" using assms(2,3) by (intro psubset_card_mono) auto
  ultimately show "(\<Sum>f\<in>F. card (U - B f)) < (\<Sum>f\<in>F. card (U - A f))"
    using le assms(1) by (intro sum_strict_mono_ex1) auto
qed

lemma closeCallee_measure:
  assumes "f \<in> fst ` set calls"
  shows "closeMeasure calls (closeCallee f st g) \<le> closeMeasure calls st"
    "\<not> snd (snd st) \<Longrightarrow> snd (snd (closeCallee f st g)) \<Longrightarrow> closeMeasure calls (closeCallee f st g) < closeMeasure calls st"
proof -
  let ?U = "universe (fst st)" and ?F = "fst ` set calls"
  have W: "set (writesOf (fst st) h) \<subseteq> set (writesOf (fst (closeCallee f st g)) h)" for h
    by (auto simp: closeCallee_writes)
  note s = sum_card_diff_mono [where U = ?U and F = ?F and A = "\<lambda>h. set (writesOf (fst st) h)"
      and B = "\<lambda>h. set (writesOf (fst (closeCallee f st g)) h)", OF _ finite_universe W]
  have u: "card (?F - set (fst (snd (closeCallee f st g)))) \<le> card (?F - set (fst (snd st)))"
    by (intro card_mono) (auto simp: closeCallee_unknown)
  show le: "closeMeasure calls (closeCallee f st g) \<le> closeMeasure calls st"
    using s(1) u by (simp add: closeMeasure_def closeCallee_universe add_mono)
  assume "\<not> snd (snd st)" "snd (snd (closeCallee f st g))"
  then consider "g \<in> set (fst (snd st))" "f \<notin> set (fst (snd st))"
    | x where "x \<in> set (writesOf (fst st) g)" "x \<notin> set (writesOf (fst st) f)"
    by (auto simp: closeCallee_changed)
  then show "closeMeasure calls (closeCallee f st g) < closeMeasure calls st"
  proof cases
    case 1
    then have "card (?F - set (fst (snd (closeCallee f st g)))) < card (?F - set (fst (snd st)))"
      using assms by (intro psubset_card_mono) (auto simp: closeCallee_unknown)
    then show ?thesis using s(1) by (simp add: closeMeasure_def closeCallee_universe add_le_less_mono)
  next
    case 2
    then have "x \<in> ?U" "x \<in> set (writesOf (fst (closeCallee f st g)) f)"
      by (auto simp: universe_def closeCallee_writes)
    then show ?thesis using s(2) [of f x] assms 2(2) u
      by (simp add: closeMeasure_def closeCallee_universe add_less_le_mono)
  qed
qed

lemma closePass_measure:
  assumes "closePass calls (W, U, False) = (W', U', True)"
  shows "closeMeasure calls (W', U', c') < closeMeasure calls (W, U, c)"
proof -
  have step: "closeMeasure calls (foldl (\<lambda>st e. closeCallee (fst e) st (snd e)) st es) \<le> closeMeasure calls st \<and>
    (\<not> snd (snd st) \<longrightarrow> snd (snd (foldl (\<lambda>st e. closeCallee (fst e) st (snd e)) st es)) \<longrightarrow>
      closeMeasure calls (foldl (\<lambda>st e. closeCallee (fst e) st (snd e)) st es) < closeMeasure calls st)"
    if "fst ` set es \<subseteq> fst ` set calls" for es st
    using that
  proof (induction es arbitrary: st)
    case (Cons e es)
    then have f: "fst e \<in> fst ` set calls" by auto
    note c = closeCallee_measure [OF f, of st "snd e"]
    have IH: "closeMeasure calls (foldl (\<lambda>st e. closeCallee (fst e) st (snd e)) (closeCallee (fst e) st (snd e)) es) \<le>
        closeMeasure calls (closeCallee (fst e) st (snd e)) \<and>
      (\<not> snd (snd (closeCallee (fst e) st (snd e))) \<longrightarrow>
        snd (snd (foldl (\<lambda>st e. closeCallee (fst e) st (snd e)) (closeCallee (fst e) st (snd e)) es)) \<longrightarrow>
        closeMeasure calls (foldl (\<lambda>st e. closeCallee (fst e) st (snd e)) (closeCallee (fst e) st (snd e)) es) <
          closeMeasure calls (closeCallee (fst e) st (snd e)))"
      using Cons.IH Cons.prems by simp
    show ?case using IH c closeCallee_same [of "fst e" st "snd e"] by (auto; linarith?)
  qed simp
  have "fst ` set (edges calls) \<subseteq> fst ` set calls" by (force simp: edges_def)
  from step [OF this, of "(W, U, False)"] have "closeMeasure calls (W', U', True) < closeMeasure calls (W, U, False)"
    using assms unfolding closePass_edges by simp
  then show ?thesis by (simp add: closeMeasure_def)
qed

function closeLoop :: "(string, strset) jsmap \<Rightarrow> (string, strset) jsmap \<Rightarrow> strset \<Rightarrow> (string, strset) jsmap \<times> strset" where
  "closeLoop calls W U =
     (case closePass calls (W, U, False) of (W', U', changed) \<Rightarrow>
        if changed then closeLoop calls W' U' else (W', U'))"
  by pat_completeness auto
termination
  by (relation "measure (\<lambda>(calls, W, U). closeMeasure calls (W, U, False))") (auto simp: closePass_measure)

declare closeLoop.simps [simp del]

record GlobalEffects =
  perFn :: "(string, strset) jsmap"
  havocAll :: strset

definition globalEffectsOf :: "json \<Rightarrow> GlobalEffects" where
  "globalEffectsOf md =
     (case closeLoop (directCalls md) (directWrites md) (directUnknown md) of
        (W, U) \<Rightarrow> \<lparr>perFn = W, havocAll = U\<rparr>)"

subsection \<open>The closure is exactly reachability\<close>

abbreviation reaches :: "(string, strset) jsmap \<Rightarrow> string \<Rightarrow> string \<Rightarrow> bool" where
  "reaches calls \<equiv> (cedge calls)\<^sup>*\<^sup>*"

text \<open>The invariant of the fixpoint: nothing direct is lost, and nothing is claimed that some
  reachable function does not do directly.\<close>

definition closureInv :: "(string, strset) jsmap \<Rightarrow> (string, strset) jsmap \<Rightarrow> strset \<Rightarrow> closure \<Rightarrow> bool" where
  "closureInv calls W0 U0 st = (\<forall>f.
     set (writesOf W0 f) \<subseteq> set (writesOf (fst st) f) \<and>
     set (writesOf (fst st) f) \<subseteq> (\<Union>g\<in>{g. reaches calls f g}. set (writesOf W0 g)) \<and>
     (f \<in> set U0 \<longrightarrow> f \<in> set (fst (snd st))) \<and>
     (f \<in> set (fst (snd st)) \<longrightarrow> (\<exists>g. reaches calls f g \<and> g \<in> set U0)))"

lemma closureInv_init: "closureInv calls W U (W, U, c)"
  by (auto simp: closureInv_def)

lemma closureInv_callee:
  assumes "closureInv calls W0 U0 st" "cedge calls f g"
  shows "closureInv calls W0 U0 (closeCallee f st g)"
  unfolding closureInv_def
proof (intro allI conjI impI)
  fix h
  note I = assms(1) [unfolded closureInv_def, rule_format]
  have r: "reaches calls f k" if "reaches calls g k" for k
    using assms(2) that by (rule converse_rtranclp_into_rtranclp)
  show "set (writesOf W0 h) \<subseteq> set (writesOf (fst (closeCallee f st g)) h)"
    using I [of h] by (auto simp: closeCallee_writes)
  have "set (writesOf (fst st) g) \<subseteq> (\<Union>k\<in>{k. reaches calls f k}. set (writesOf W0 k))"
    using I [of g] r by fastforce
  then show "set (writesOf (fst (closeCallee f st g)) h) \<subseteq> (\<Union>k\<in>{k. reaches calls h k}. set (writesOf W0 k))"
    using I [of h] by (auto simp: closeCallee_writes split: if_splits)
  show "h \<in> set U0 \<Longrightarrow> h \<in> set (fst (snd (closeCallee f st g)))"
    using I [of h] by (simp add: closeCallee_unknown)
  show "h \<in> set (fst (snd (closeCallee f st g))) \<Longrightarrow> \<exists>k. reaches calls h k \<and> k \<in> set U0"
    using I [of h] I [of g] r by (auto simp: closeCallee_unknown split: if_splits)
qed

lemma closureInv_pass: "closureInv calls W0 U0 st \<Longrightarrow> closureInv calls W0 U0 (closePass calls st)"
proof -
  have "closureInv calls W0 U0 (foldl (\<lambda>st e. closeCallee (fst e) st (snd e)) st es)"
    if "closureInv calls W0 U0 st" "set es \<subseteq> set (edges calls)" for es st
    using that
  proof (induction es arbitrary: st)
    case (Cons e es)
    then have "cedge calls (fst e) (snd e)" using set_edges [of "fst e" "snd e" calls] by simp
    from closureInv_callee [OF Cons.prems(1) this] show ?case using Cons by simp
  qed simp
  then show "closureInv calls W0 U0 st \<Longrightarrow> ?thesis" by (simp add: closePass_edges)
qed

definition callClosed :: "(string, strset) jsmap \<Rightarrow> (string, strset) jsmap \<Rightarrow> strset \<Rightarrow> bool" where
  "callClosed calls W U = (\<forall>f g. cedge calls f g \<longrightarrow>
     set (writesOf W g) \<subseteq> set (writesOf W f) \<and> (g \<in> set U \<longrightarrow> f \<in> set U))"

lemma closePass_callClosed:
  assumes "closePass calls (W, U, False) = (W', U', False)"
  shows "W' = W \<and> U' = U \<and> callClosed calls W U"
proof -
  have grow: "snd (snd st) \<Longrightarrow> snd (snd (foldl (\<lambda>st e. closeCallee (fst e) st (snd e)) st es))" for es st
    by (induction es arbitrary: st) (auto simp: closeCallee_changed)
  have "foldl (\<lambda>st e. closeCallee (fst e) st (snd e)) st es = st \<and>
      (\<forall>e\<in>set es. set (writesOf (fst st) (snd e)) \<subseteq> set (writesOf (fst st) (fst e)) \<and>
         (snd e \<in> set (fst (snd st)) \<longrightarrow> fst e \<in> set (fst (snd st))))"
    if "\<not> snd (snd (foldl (\<lambda>st e. closeCallee (fst e) st (snd e)) st es))" for es st
    using that
  proof (induction es arbitrary: st)
    case (Cons e es)
    then have n: "\<not> snd (snd (closeCallee (fst e) st (snd e)))" using grow by fastforce
    then have same: "closeCallee (fst e) st (snd e) = st" by (rule closeCallee_same)
    have e: "set (writesOf (fst st) (snd e)) \<subseteq> set (writesOf (fst st) (fst e)) \<and>
        (snd e \<in> set (fst (snd st)) \<longrightarrow> fst e \<in> set (fst (snd st)))"
      using n unfolding closeCallee_changed by blast
    show ?case using Cons.IH [of st] Cons.prems e by (simp add: same)
  qed simp
  from this [of "(W, U, False)" "edges calls"] show ?thesis
    using assms unfolding closePass_edges callClosed_def by (fastforce simp flip: set_edges)
qed

lemma closeLoop_spec:
  assumes "closureInv calls W0 U0 (W, U, False)" "closeLoop calls W U = (W', U')"
  shows "closureInv calls W0 U0 (W', U', False) \<and> callClosed calls W' U'"
  using assms
proof (induction calls W U rule: closeLoop.induct)
  case (1 calls W U)
  obtain V X c where p: "closePass calls (W, U, False) = (V, X, c)" by (metis prod_cases3)
  have inv: "closureInv calls W0 U0 (V, X, False)"
    using closureInv_pass [OF 1(2)] p by (simp add: closureInv_def)
  show ?case
  proof (cases c)
    case True
    then show ?thesis using 1(1) [OF p [symmetric]] 1(3) p inv
      by (auto simp: closeLoop.simps [of calls W U])
  next
    case False
    then show ?thesis using 1(3) p inv closePass_callClosed [of calls W U V X]
      by (auto simp: closeLoop.simps [of calls W U])
  qed
qed

lemma callClosed_reaches: "callClosed calls W U \<Longrightarrow> reaches calls f g \<Longrightarrow>
  set (writesOf W g) \<subseteq> set (writesOf W f) \<and> (g \<in> set U \<longrightarrow> f \<in> set U)"
  by (erule converse_rtranclp_induct) (auto simp: callClosed_def)

lemma globalEffects_reach:
  "set (writesOf (perFn (globalEffectsOf md)) f) =
     (\<Union>g\<in>{g. reaches (directCalls md) f g}. set (writesOf (directWrites md) g)) \<and>
   (f \<in> set (havocAll (globalEffectsOf md)) \<longleftrightarrow>
     (\<exists>g. reaches (directCalls md) f g \<and> g \<in> set (directUnknown md)))"
proof -
  obtain W U where l: "closeLoop (directCalls md) (directWrites md) (directUnknown md) = (W, U)" by fastforce
  have s: "closureInv (directCalls md) (directWrites md) (directUnknown md) (W, U, False)"
    "callClosed (directCalls md) W U" using closeLoop_spec [OF closureInv_init l] by auto
  note I = s(1) [unfolded closureInv_def, rule_format] and R = callClosed_reaches [OF s(2)]
  have "set (writesOf W f) = (\<Union>g\<in>{g. reaches (directCalls md) f g}. set (writesOf (directWrites md) g))"
    using I R [of f] by fastforce
  moreover have "f \<in> set U \<longleftrightarrow> (\<exists>g. reaches (directCalls md) f g \<and> g \<in> set (directUnknown md))"
    using I R [of f] by (metis fst_conv snd_conv)
  ultimately show ?thesis by (simp add: globalEffectsOf_def l)
qed

text \<open>Only module globals are ever recorded as written.\<close>

lemma fxWrites_note [simp]: "fxWrites (noteUnknown e fx) = fxWrites fx"
  by (simp add: noteUnknown_def)

lemma foldl_invariant: "P a \<Longrightarrow> (\<And>a x. x \<in> set xs \<Longrightarrow> P a \<Longrightarrow> P (f a x)) \<Longrightarrow> P (foldl f a xs)"
  by (induction xs arbitrary: a) auto

definition globalWrites :: "FnEffects \<Rightarrow> bool" where
  "globalWrites fx = list_all isGlobalId (fxWrites fx)"

lemma globalWrites_add: "globalWrites fx \<Longrightarrow> globalWrites (addWrite n fx)"
  by (auto simp: globalWrites_def addWrite_def list_all_iff)

lemma globalWrites_note: "globalWrites fx \<Longrightarrow> globalWrites (noteUnknown n fx)"
  by (simp add: globalWrites_def)

lemma globalWrites_call: "globalWrites fx \<Longrightarrow> globalWrites (fx\<lparr>fxCalls := c\<rparr>)"
  by (simp add: globalWrites_def)

lemma globalWrites_visit:
  "globalWrites fx \<Longrightarrow> globalWrites (visitExpr fx e)" "globalWrites fx' \<Longrightarrow> globalWrites (visitStmt fx' s)"
proof (induction fx e and fx' s rule: visitExpr_visitStmt.induct)
  case (1 fx e)
  consider "kindOf e = ''assignExpr''" | "kindOf e = ''incDec''" | "kindOf e = ''call''" | "kindOf e = ''seqExpr''"
    | "kindOf e \<noteq> ''assignExpr''" "kindOf e \<noteq> ''incDec''" "kindOf e \<noteq> ''call''" "kindOf e \<noteq> ''seqExpr''" by blast
  then show ?case
  proof cases
    case 3
    then show ?thesis unfolding visitExpr.simps [of fx e] using 1(2) "1.prems" globalWrites_call
      by simp (rule foldl_invariant, auto)
  next
    case 4
    have "globalWrites (foldl visitStmt fx (arrOf (fld e ''stmts'')))"
    proof (rule foldl_invariant)
      show "globalWrites fx" by fact
      show "globalWrites (visitStmt a x)" if "x \<in> set (arrOf (fld e ''stmts''))" "globalWrites a" for a x
        using 1(3) [of x a] 4 that by simp
    qed
    then show ?thesis unfolding visitExpr.simps [of fx e] using 1(4) 4 by simp
  next
    case 5
    then show ?thesis unfolding visitExpr.simps [of fx e] using 1(5) "1.prems" globalWrites_note
      by simp (rule foldl_invariant, auto)
  qed (use 1 globalWrites_add in \<open>simp_all add: visitExpr.simps [of fx e]\<close>)
next
  case (2 fx s)
  consider "kindOf s = ''assign''" | "kindOf s = ''varDecl''" | "kindOf s \<noteq> ''assign''" "kindOf s \<noteq> ''varDecl''" by blast
  then show ?case
  proof cases
    case 3
    then show ?thesis unfolding visitStmt.simps [of fx s] using 2(3,4) "2.prems"
      by simp (rule foldl_invariant, auto)
  qed (use 2 globalWrites_add in \<open>simp_all add: visitStmt.simps [of fx s]\<close>)
qed

lemma directWrites_global: "k \<in> set (writesOf (directWrites m) f) \<Longrightarrow> isGlobalId k"
proof -
  have fx: "list_all isGlobalId (fxWrites (fnEffects fn))" for fn
    unfolding fnEffects_def globalWrites_def [symmetric]
    by (rule foldl_invariant) (auto simp: globalWrites_visit, simp add: globalWrites_def)
  have "\<forall>f. list_all isGlobalId (writesOf (directWrites m) f)"
    unfolding directWrites_def
    by (rule foldl_invariant [where P = "\<lambda>W. \<forall>f. list_all isGlobalId (writesOf W f)"])
      (auto simp: writesOf_set fx, simp add: writesOf_def)
  then show "k \<in> set (writesOf (directWrites m) f) \<Longrightarrow> isGlobalId k" by (auto simp: list_all_iff)
qed

lemma perFn_global: "k \<in> set (writesOf (perFn (globalEffectsOf m)) f) \<Longrightarrow> isGlobalId k"
  using globalEffects_reach [of m f] directWrites_global by blast

text \<open>C8. The effect summary is exact: after the fixpoint, the globals a function is charged
  with are precisely those some function it can reach through direct calls writes in its own
  body, and it is marked unknown precisely when it can reach a function that runs unknown
  code. So a call never forgets fewer globals than its callees can write, nor more.\<close>

theorem globalEffects_exact:
  "set (writesOf (perFn (globalEffectsOf md)) f) =
     (\<Union>g\<in>{g. reaches (directCalls md) f g}. set (writesOf (directWrites md) g)) \<and>
   (f \<in> set (havocAll (globalEffectsOf md)) \<longleftrightarrow>
     (\<exists>g. reaches (directCalls md) f g \<and> g \<in> set (directUnknown md)))"
  by (rule globalEffects_reach)

end
