(* ===== verification/PureEval.thy ===== *)
theory PureEval
  imports GlobalEffects
begin

text \<open>
  The side-effect free half of \<^verbatim>\<open>FnAnalyzer\<close> in \<^verbatim>\<open>library/int-infer.ts\<close>: static access paths
  and their keys, purity, the abstract value of a pure expression, and the refinement of an
  environment by a condition. A concrete evaluation relation for pure expressions and
  conditions gives them meaning; evaluation and refinement are proved to over-approximate it.
\<close>

section \<open>The analyzer's context\<close>

text \<open>The read-only fields of \<^verbatim>\<open>FnAnalyzer\<close>, the set \<^verbatim>\<open>numberBindings\<close> and the function's
  return slot. The engine's exponentiation is \<open>powOp\<close>.\<close>

record FnCtx =
  md :: json
  cfg :: IntSlotConfig
  effects :: GlobalEffects
  numberBindings :: "string list"
  retSlot :: "(IntClass \<times> string) option"
  powOp :: "f64 \<Rightarrow> f64 \<Rightarrow> f64"

definition bindingCarriesNumber :: "FnCtx \<Rightarrow> string \<Rightarrow> bool" where
  "bindingCarriesNumber ctx i = (i \<in> set (numberBindings ctx))"

definition seedBindings :: "json \<Rightarrow> json \<Rightarrow> string list" where
  "seedBindings fn m =
     map (\<lambda>l. sfld l ''id'') (filter (\<lambda>l. numberCarrierKind (fld l ''type'') m \<noteq> None \<and> fld l ''boxed'' \<noteq> JBool True)
       (arrOf (fld fn ''locals''))) @
     map (\<lambda>g. sfld g ''id'') (filter (\<lambda>g. numberCarrierKind (fld g ''type'') m \<noteq> None) (arrOf (fld m ''globals'')))"

definition recordSlot :: "FnCtx \<Rightarrow> string \<Rightarrow> string \<Rightarrow> RecordIntSlot option" where
  "recordSlot ctx shapeId field = (case jm_get (records (cfg ctx)) shapeId of
     None \<Rightarrow> None | Some m \<Rightarrow> jm_get m field)"

section \<open>Access paths\<close>

text \<open>A path's root binding (none for \<^verbatim>\<open>this\<close>) and its steps.\<close>

type_synonym accessPath = "string option \<times> string list list"

function staticAccessPath :: "json \<Rightarrow> accessPath option" where
  "staticAccessPath e =
     (if kindOf e = ''varRef'' then Some (Some (sfld e ''localId''), [[''var'', sfld e ''localId'']])
      else if kindOf e = ''selfRef'' then Some (None, [[''self'']])
      else if kindOf e = ''recordGet'' then
        (case staticAccessPath (fld e ''obj'') of None \<Rightarrow> None
         | Some (rootId, steps) \<Rightarrow> Some (rootId, steps @ [[''record'', sfld e ''shapeId'', sfld e ''field'']]))
      else if kindOf e = ''unionNarrow'' then staticAccessPath (fld e ''value'')
      else if kindOf e = ''fieldGet'' then
        (case staticAccessPath (fld e ''obj'') of None \<Rightarrow> None
         | Some (rootId, steps) \<Rightarrow> Some (rootId, steps @ [[''field'', sfld e ''className'', sfld e ''field'']]))
      else None)"
  by pat_completeness auto
termination by (relation "measure jsz") auto

declare staticAccessPath.simps [simp del]

definition stepsKey :: "string list list \<Rightarrow> string" where
  "stepsKey steps = stringify (JArr (map (\<lambda>st. JArr (map JStr st)) steps))"

definition classPrefix :: "IntClass option \<Rightarrow> string" where
  "classPrefix c = (case c of None \<Rightarrow> PATH_TOP_PREFIX | Some I64 \<Rightarrow> PATH_I64_PREFIX | Some U64 \<Rightarrow> PATH_U64_PREFIX)"

definition pathKey :: "json \<Rightarrow> IntClass option \<Rightarrow> string option" where
  "pathKey e c = (case staticAccessPath e of None \<Rightarrow> None
     | Some (_, steps) \<Rightarrow> Some (classPrefix c @ stepsKey steps))"

text \<open>\<^verbatim>\<open>pathRoots\<close> memoises the root of every key \<^verbatim>\<open>pathKey\<close> has made. The root is also the
  first step of the key's text, which is how it is read back here.\<close>

definition rootText :: "string \<Rightarrow> string" where
  "rootText i = ''['' @ stringify (JArr [JStr ''var'', JStr i])"

definition rootedAt :: "string \<Rightarrow> string \<Rightarrow> bool" where
  "rootedAt k i = (startsWith k (PATH_TOP_PREFIX @ rootText i) \<or> startsWith k (PATH_I64_PREFIX @ rootText i) \<or>
     startsWith k (PATH_U64_PREFIX @ rootText i))"

definition clearPathsRootedAt :: "env \<Rightarrow> string \<Rightarrow> env" where
  "clearPathsRootedAt env i = jm_deleteIf (\<lambda>k. rootedAt k i) env"

function refinementKey :: "FnCtx \<Rightarrow> json \<Rightarrow> bool \<Rightarrow> string option" where
  "refinementKey ctx e allowPaths =
     (if kindOf e = ''varRef'' then Some (sfld e ''localId'')
      else if kindOf e = ''unionNarrow'' \<and> kindOf (fld e ''type'') = ''f64'' then
        refinementKey ctx (fld e ''value'') allowPaths
      else if \<not> allowPaths \<or> numberCarrierKind (fld e ''type'') (md ctx) = None then None
      else if kindOf e = ''recordGet'' then
        pathKey e (map_option slotCls (recordSlot ctx (sfld e ''shapeId'') (sfld e ''field'')))
      else if kindOf e = ''fieldGet'' then pathKey e None
      else None)"
  by pat_completeness auto
termination by (relation "measure (\<lambda>(_, e, _). jsz e)") auto

declare refinementKey.simps [simp del]

section \<open>Purity and guards\<close>

definition PURE_LEAVES :: "string list" where
  "PURE_LEAVES = [''numLit'', ''strLit'', ''boolLit'', ''varRef'', ''unitLit'', ''selfRef'']"

function isPure :: "json \<Rightarrow> bool" where
  "isPure e =
     (if kindOf e = ''libCall'' then
        startsWith (sfld e ''fn'') ''math.'' \<and> (\<forall>a\<in>set (arrOf (fld e ''args'')). isPure a)
      else if kindOf e \<in> set PURE_LEAVES then True
      else if kindOf e = ''recordGet'' \<or> kindOf e = ''fieldGet'' then staticAccessPath e \<noteq> None
      else if kindOf e = ''unionNarrow'' then isPure (fld e ''value'')
      else if kindOf e \<in> {''bin'', ''strEq'', ''strCmp'', ''logical''} then
        isPure (fld e ''left'') \<and> isPure (fld e ''right'')
      else if kindOf e = ''unary'' \<or> kindOf e = ''toBool'' then isPure (fld e ''operand'')
      else False)"
  by pat_completeness auto
termination by (relation "measure jsz") (auto simp: jsz_arr_fld)

declare isPure.simps [simp del]

function stablePathGuard :: "json \<Rightarrow> bool" where
  "stablePathGuard e =
     (if kindOf e \<in> set PURE_LEAVES then True
      else if kindOf e = ''recordGet'' \<or> kindOf e = ''fieldGet'' then staticAccessPath e \<noteq> None
      else if kindOf e \<in> {''unionIsTag'', ''unionDisc'', ''unionNarrow''} then stablePathGuard (fld e ''value'')
      else if kindOf e \<in> {''bin'', ''strEq'', ''strCmp'', ''logical''} then
        stablePathGuard (fld e ''left'') \<and> stablePathGuard (fld e ''right'')
      else if kindOf e = ''unary'' \<or> kindOf e = ''toBool'' then stablePathGuard (fld e ''operand'')
      else False)"
  by pat_completeness auto
termination by (relation "measure jsz") auto

declare stablePathGuard.simps [simp del]

section \<open>Pure evaluation\<close>

text \<open>\<^verbatim>\<open>evalMath\<close>: how many arguments a modelled Math function reads, and its result.\<close>

definition MATH_UNARY :: "string list" where
  "MATH_UNARY = [''math.trunc'', ''math.floor'', ''math.ceil'', ''math.round'', ''math.abs'']"

definition MATH_BINARY :: "string list" where
  "MATH_BINARY = [''math.min'', ''math.max'']"

definition mathArity :: "string \<Rightarrow> nat option" where
  "mathArity fn =
     (if fn \<in> set MATH_UNARY then Some 1
      else if fn \<in> set MATH_BINARY then Some 2
      else if fn = ''math.random'' then Some 0
      else None)"

definition applyMath :: "string \<Rightarrow> AbsVal list \<Rightarrow> AbsVal" where
  "applyMath fn vs =
     (if fn = ''math.trunc'' then transferMathRound ''trunc'' (hd vs)
      else if fn = ''math.floor'' then transferMathRound ''floor'' (hd vs)
      else if fn = ''math.ceil'' then transferMathRound ''ceil'' (hd vs)
      else if fn = ''math.round'' then transferMathRound ''round'' (hd vs)
      else if fn = ''math.abs'' then transferAbs (hd vs)
      else if fn = ''math.min'' then transferMinMax ''min'' vs
      else if fn = ''math.max'' then transferMinMax ''max'' vs
      else absVal (Fin 0) (Fin 1) False False None)"

definition nthArg :: "json \<Rightarrow> nat \<Rightarrow> json" where
  "nthArg e i = (let args = arrOf (fld e ''args'') in if i < length args then args ! i else JUndef)"

lemma jsz_nthArg: "kindOf e \<noteq> [] \<Longrightarrow> jsz (nthArg e i) < jsz e"
proof (cases "i < length (arrOf (fld e ''args''))")
  case False
  assume "kindOf e \<noteq> []"
  then have "Suc 0 < jsz e" using jsz_fld [of e "''args''"] jsz_pos [of "fld e ''args''"] by linarith
  then show ?thesis using False by (simp add: nthArg_def)
qed (use jsz_arr_fld [of e "arrOf (fld e ''args'') ! i" "''args''"] in \<open>simp add: nthArg_def\<close>)

fun numOf :: "json \<Rightarrow> f64" where
  "numOf (JNum x) = x"
| "numOf _ = NaN"

fun spellingOf :: "json \<Rightarrow> string option" where
  "spellingOf (JStr s) = Some s"
| "spellingOf _ = None"

definition litVal :: "json \<Rightarrow> AbsVal" where
  "litVal e = constVal (numOf (fld e ''value'')) (spellingOf (fld e ''spelling''))"

definition pathVal :: "env \<Rightarrow> string option \<Rightarrow> IntClass option \<Rightarrow> AbsVal" where
  "pathVal env key c = (case key of Some k \<Rightarrow> envGet env k
     | None \<Rightarrow> (case c of None \<Rightarrow> TOP | Some c \<Rightarrow> classSeed (intClassName c)))"

definition readRecord :: "FnCtx \<Rightarrow> json \<Rightarrow> env \<Rightarrow> AbsVal" where
  "readRecord ctx e env =
     (let c = map_option slotCls (recordSlot ctx (sfld e ''shapeId'') (sfld e ''field'')) in
      if numberCarrierKind (fld e ''type'') (md ctx) = None then TOP else pathVal env (pathKey e c) c)"

definition readField :: "FnCtx \<Rightarrow> json \<Rightarrow> env \<Rightarrow> AbsVal" where
  "readField ctx e env =
     (if numberCarrierKind (fld e ''type'') (md ctx) = None then TOP else pathVal env (pathKey e None) None)"

definition readVar :: "FnCtx \<Rightarrow> json \<Rightarrow> env \<Rightarrow> AbsVal" where
  "readVar ctx e env = (if bindingCarriesNumber ctx (sfld e ''localId'') then envGet env (sfld e ''localId'') else TOP)"

definition narrowsNumber :: "FnCtx \<Rightarrow> json \<Rightarrow> bool" where
  "narrowsNumber ctx e = (kindOf (fld e ''type'') = ''f64'' \<and>
     numberCarrierKind (fld (fld e ''value'') ''type'') (md ctx) = Some Optional)"

function evalPure :: "FnCtx \<Rightarrow> env \<Rightarrow> json \<Rightarrow> AbsVal" where
  "evalPure ctx env e =
     (if kindOf e = ''numLit'' then litVal e
      else if kindOf e = ''varRef'' then readVar ctx e env
      else if kindOf e = ''recordGet'' then readRecord ctx e env
      else if kindOf e = ''fieldGet'' then readField ctx e env
      else if kindOf e = ''unionNarrow'' then
        (if narrowsNumber ctx e then evalPure ctx env (fld e ''value'') else TOP)
      else if kindOf e = ''unary'' then
        (if sfld e ''op'' = ''-'' then transferNeg (evalPure ctx env (fld e ''operand''))
         else if sfld e ''op'' = ''~'' then transferBitNot (evalPure ctx env (fld e ''operand''))
         else TOP)
      else if kindOf e = ''bin'' then
        transferBin (powOp ctx) (sfld e ''op'') (evalPure ctx env (fld e ''left'')) (evalPure ctx env (fld e ''right''))
      else if kindOf e = ''libCall'' then
        (case mathArity (sfld e ''fn'') of None \<Rightarrow> TOP
         | Some n \<Rightarrow> applyMath (sfld e ''fn'') (map (\<lambda>i. evalPure ctx env (nthArg e i)) [0..<n]))
      else TOP)"
  by pat_completeness auto
termination by (relation "measure (\<lambda>(_, _, e). jsz e)") (auto simp: jsz_nthArg)

declare evalPure.simps [simp del]

section \<open>Refinement by a condition\<close>

text \<open>The truthy edge of a number: neither NaN nor zero, with the endpoint excluded when the
  interval is whole.\<close>

definition truthyVal :: "AbsVal \<Rightarrow> AbsVal" where
  "truthyVal v =
     (let r = v\<lparr>maybeNaN := False\<rparr> in
      if whole r \<and> js_eq (lo r) (Fin 0) \<and> js_ge (hi r) (Fin 1)
      then absVal (Fin 1) (hi r) (whole r) False (spelling r)
      else if whole r \<and> js_eq (hi r) (Fin 0) \<and> js_le (lo r) (Fin (- 1))
      then absVal (lo r) (Fin (- 1)) (whole r) False (spelling r)
      else r)"

definition setKey :: "string option \<Rightarrow> AbsVal \<Rightarrow> env \<Rightarrow> env" where
  "setKey key v env = (case key of None \<Rightarrow> env | Some k \<Rightarrow> jm_set env k v)"

definition refineBin :: "FnCtx \<Rightarrow> env \<Rightarrow> json \<Rightarrow> bool \<Rightarrow> bool \<Rightarrow> env" where
  "refineBin ctx env cond branch allowPaths =
     (let l = fld cond ''left''; r = fld cond ''right''; op0 = sfld cond ''op'' in
      if op0 \<notin> set CMP_OPS then env
      else if kindOf (fld l ''type'') \<noteq> ''f64'' \<or> kindOf (fld r ''type'') \<noteq> ''f64'' then env
      else if \<not> isPure l \<or> \<not> isPure r then env
      else let op = (if branch then op0 else NEGATE op0);
               clearNaN = (if branch then op0 \<noteq> ''!=='' else op0 = ''!=='');
               a = evalPure ctx env l; b = evalPure ctx env r
           in setKey (refinementKey ctx r allowPaths) (refineLhs (FLIP op) b a clearNaN)
                (setKey (refinementKey ctx l allowPaths) (refineLhs op a b clearNaN) env))"

definition refineTag :: "FnCtx \<Rightarrow> env \<Rightarrow> json \<Rightarrow> bool \<Rightarrow> bool \<Rightarrow> env" where
  "refineTag ctx env cond branch allowPaths =
     (let unionType = JObj [(''kind'', JStr ''union''), (''unionId'', fld cond ''unionId'')];
          arms = (case findUnion (md ctx) (fld cond ''unionId'') of
                    Some def \<Rightarrow> arrOf (fld def ''arms'') | None \<Rightarrow> []);
          tag = num (numOf (fld cond ''tag''))
      in if numberCarrierKind unionType (md ctx) \<noteq> Some Optional then env
         else if \<not> (0 \<le> tag \<and> \<lfloor>tag\<rfloor> < int (length arms)) then env
         else case refinementKey ctx (fld cond ''value'') allowPaths of
           None \<Rightarrow> env
         | Some key \<Rightarrow>
             let arm = arms ! nat \<lfloor>tag\<rfloor>;
                 tagMatches = (if fld cond ''negated'' = JBool True then \<not> branch else branch)
             in if tagMatches \<and> kindOf arm \<noteq> ''f64'' \<or> \<not> tagMatches \<and> kindOf arm = ''f64''
                then jm_set env key BOTTOM else env)"

definition refineToBool :: "FnCtx \<Rightarrow> env \<Rightarrow> json \<Rightarrow> bool \<Rightarrow> bool \<Rightarrow> env" where
  "refineToBool ctx env cond branch allowPaths =
     (let inner = fld cond ''operand'' in
      if kindOf (fld inner ''type'') \<noteq> ''f64'' \<or> \<not> isPure inner then env
      else case refinementKey ctx inner allowPaths of
        None \<Rightarrow> env
      | Some key \<Rightarrow>
          let v = evalPure ctx env inner in
          jm_set env key (if branch then truthyVal v else meetInterval v (Fin 0) (Fin 0) False))"

function refine :: "FnCtx \<Rightarrow> env \<Rightarrow> json \<Rightarrow> bool \<Rightarrow> bool \<Rightarrow> env option" where
  "refine ctx env cond branch allowPaths =
     (if kindOf cond = ''boolLit'' then (if fld cond ''value'' = JBool branch then Some env else None)
      else if kindOf cond = ''unary'' then
        (if sfld cond ''op'' = ''!'' then refine ctx env (fld cond ''operand'') (\<not> branch) allowPaths else Some env)
      else if kindOf cond = ''logical'' then
        (if (sfld cond ''op'' = ''&&'') = branch
         then (case refine ctx env (fld cond ''left'') branch allowPaths of None \<Rightarrow> None
               | Some env1 \<Rightarrow> refine ctx env1 (fld cond ''right'') branch allowPaths)
         else joinEnv (refine ctx env (fld cond ''left'') branch allowPaths)
                (case refine ctx env (fld cond ''left'') (\<not> branch) allowPaths of None \<Rightarrow> None
                 | Some env1 \<Rightarrow> refine ctx env1 (fld cond ''right'') branch allowPaths))
      else if kindOf cond = ''unionIsTag'' then Some (refineTag ctx env cond branch allowPaths)
      else if kindOf cond = ''bin'' then Some (refineBin ctx env cond branch allowPaths)
      else if kindOf cond = ''toBool'' then Some (refineToBool ctx env cond branch allowPaths)
      else Some env)"
  by pat_completeness auto
termination by (relation "measure (\<lambda>(_, _, cond, _, _). jsz cond)") auto

declare refine.simps [simp del]

end
