(* ===== verification/PureSound.thy ===== *)
theory PureSound
  imports PureEval
begin

text \<open>
  Meaning and soundness of the pure half of the integer inference: relations that say which
  doubles a pure expression and which truth values a condition can evaluate to in a concrete
  state, and the proofs that \<open>evalPure\<close> and \<open>refine\<close> over-approximate them.
\<close>

section \<open>What a pure expression evaluates to\<close>

text \<open>The doubles a pure numeric expression can evaluate to in a concrete state. Tracked
  bindings and access paths read the state; an expression the analyzer has no transfer for
  may be any double. Operands the domain cannot represent (a negative-zero divisor, a NaN
  base) are left out.\<close>

definition concreteMath :: "string \<Rightarrow> f64 list \<Rightarrow> f64 \<Rightarrow> bool" where
  "concreteMath fn xs y =
     (if fn = ''math.trunc'' then y = math_trunc (hd xs)
      else if fn = ''math.floor'' then y = math_floor (hd xs)
      else if fn = ''math.ceil'' then y = math_ceil (hd xs)
      else if fn = ''math.round'' then y = math_round (hd xs)
      else if fn = ''math.abs'' then y = math_abs (hd xs)
      else if fn = ''math.min'' then y = math_min xs
      else if fn = ''math.max'' then y = math_max xs
      else wf_f64 y \<and> js_le (Fin 0) y \<and> js_lt y (Fin 1))"

definition pathReads :: "cstate \<Rightarrow> string option \<Rightarrow> IntClass option \<Rightarrow> f64 \<Rightarrow> bool" where
  "pathReads s key c x = (case key of Some k \<Rightarrow> s k = Some x
     | None \<Rightarrow> (case c of None \<Rightarrow> wf_f64 x | Some c \<Rightarrow> gamma (classSeed (intClassName c)) x))"

definition slotClass :: "FnCtx \<Rightarrow> json \<Rightarrow> IntClass option" where
  "slotClass ctx e = map_option slotCls (recordSlot ctx (sfld e ''shapeId'') (sfld e ''field''))"

definition MODELLED_KINDS :: "string list" where
  "MODELLED_KINDS = [''numLit'', ''varRef'', ''recordGet'', ''fieldGet'', ''unionNarrow'', ''unary'', ''bin'', ''libCall'']"

inductive pureVal :: "FnCtx \<Rightarrow> cstate \<Rightarrow> json \<Rightarrow> f64 \<Rightarrow> bool" for ctx s where
  lit: "kindOf e = ''numLit'' \<Longrightarrow> wf_f64 (numOf (fld e ''value'')) \<Longrightarrow> pureVal ctx s e (numOf (fld e ''value''))"
| tracked: "kindOf e = ''varRef'' \<Longrightarrow> bindingCarriesNumber ctx (sfld e ''localId'') \<Longrightarrow>
    s (sfld e ''localId'') = Some x \<Longrightarrow> pureVal ctx s e x"
| untracked: "kindOf e = ''varRef'' \<Longrightarrow> \<not> bindingCarriesNumber ctx (sfld e ''localId'') \<Longrightarrow> wf_f64 x \<Longrightarrow> pureVal ctx s e x"
| recordGet: "kindOf e = ''recordGet'' \<Longrightarrow>
    (if numberCarrierKind (fld e ''type'') (md ctx) = None then wf_f64 x
     else pathReads s (pathKey e (slotClass ctx e)) (slotClass ctx e) x) \<Longrightarrow> pureVal ctx s e x"
| fieldGet: "kindOf e = ''fieldGet'' \<Longrightarrow>
    (if numberCarrierKind (fld e ''type'') (md ctx) = None then wf_f64 x
     else pathReads s (pathKey e None) None x) \<Longrightarrow> pureVal ctx s e x"
| narrow: "kindOf e = ''unionNarrow'' \<Longrightarrow> narrowsNumber ctx e \<Longrightarrow> pureVal ctx s (fld e ''value'') x \<Longrightarrow> pureVal ctx s e x"
| narrowOther: "kindOf e = ''unionNarrow'' \<Longrightarrow> \<not> narrowsNumber ctx e \<Longrightarrow> wf_f64 x \<Longrightarrow> pureVal ctx s e x"
| neg: "kindOf e = ''unary'' \<Longrightarrow> sfld e ''op'' = ''-'' \<Longrightarrow> pureVal ctx s (fld e ''operand'') x \<Longrightarrow> pureVal ctx s e (js_neg x)"
| bitnot: "kindOf e = ''unary'' \<Longrightarrow> sfld e ''op'' = ''~'' \<Longrightarrow> pureVal ctx s (fld e ''operand'') x \<Longrightarrow>
    pureVal ctx s e (js_bitnot x)"
| unaryOther: "kindOf e = ''unary'' \<Longrightarrow> sfld e ''op'' \<notin> {''-'', ''~''} \<Longrightarrow> wf_f64 x \<Longrightarrow> pureVal ctx s e x"
| arith: "kindOf e = ''bin'' \<Longrightarrow> sfld e ''op'' \<in> set ARITH_OPS \<Longrightarrow> pureVal ctx s (fld e ''left'') x \<Longrightarrow>
    pureVal ctx s (fld e ''right'') y \<Longrightarrow> tameOperands (sfld e ''op'') x y \<Longrightarrow>
    pureVal ctx s e (js_bin (powOp ctx) (sfld e ''op'') x y)"
| binOther: "kindOf e = ''bin'' \<Longrightarrow> sfld e ''op'' \<notin> set ARITH_OPS \<Longrightarrow> wf_f64 x \<Longrightarrow> pureVal ctx s e x"
| math: "kindOf e = ''libCall'' \<Longrightarrow> mathArity (sfld e ''fn'') = Some n \<Longrightarrow> length xs = n \<Longrightarrow>
    (\<And>i. i < n \<Longrightarrow> pureVal ctx s (nthArg e i) (xs ! i)) \<Longrightarrow> concreteMath (sfld e ''fn'') xs y \<Longrightarrow> pureVal ctx s e y"
| libOther: "kindOf e = ''libCall'' \<Longrightarrow> mathArity (sfld e ''fn'') = None \<Longrightarrow> wf_f64 x \<Longrightarrow> pureVal ctx s e x"
| opaque: "kindOf e \<notin> set MODELLED_KINDS \<Longrightarrow> wf_f64 x \<Longrightarrow> pureVal ctx s e x"

text \<open>No intermediate result has a NaN bound.\<close>

function unbrokenIn :: "FnCtx \<Rightarrow> env \<Rightarrow> json \<Rightarrow> bool" where
  "unbrokenIn ctx env e =
     (if kindOf e = ''unionNarrow'' then unbrokenIn ctx env (fld e ''value'')
      else if kindOf e = ''unary'' then unbrokenIn ctx env (fld e ''operand'')
      else if kindOf e = ''bin'' then
        unbroken (evalPure ctx env e) \<and> unbrokenIn ctx env (fld e ''left'') \<and> unbrokenIn ctx env (fld e ''right'')
      else if kindOf e = ''libCall'' then
        (case mathArity (sfld e ''fn'') of None \<Rightarrow> True
         | Some n \<Rightarrow> list_all (\<lambda>i. unbrokenIn ctx env (nthArg e i)) [0..<n])
      else True)"
  by pat_completeness auto
termination by (relation "measure (\<lambda>(_, _, e). jsz e)") (auto simp: jsz_nthArg)

declare unbrokenIn.simps [simp del]

definition wfEnv :: "env \<Rightarrow> bool" where
  "wfEnv env = (\<forall>k. wfAbs (envGet env k))"

lemma wfAbs_defaultVal [simp]: "wfAbs (defaultVal k)"
  by (simp add: defaultVal_def wfAbs_refine(3) split: option.split)

lemma wfAbs_pathVal: "wfEnv env \<Longrightarrow> wfAbs (pathVal env key c)"
  by (auto simp: pathVal_def wfEnv_def wfAbs_refine(3) split: option.split)

lemma wfAbs_applyMath [simp]: "wfAbs (applyMath fn vs)"
  by (simp add: applyMath_def)

lemma wfAbs_if: "(b \<Longrightarrow> wfAbs x) \<Longrightarrow> (\<not> b \<Longrightarrow> wfAbs y) \<Longrightarrow> wfAbs (if b then x else y)"
  by simp

lemma wfAbs_evalPure: "wfEnv env \<Longrightarrow> wfAbs (evalPure ctx env e)"
proof (induction ctx env e rule: evalPure.induct)
  case (1 ctx env e)
  have narrow: "wfAbs (evalPure ctx env (fld e ''value''))" if "kindOf e = ''unionNarrow''" "narrowsNumber ctx e"
    using 1(1) that "1.prems" by simp
  have var: "wfAbs (readVar ctx e env)" "wfAbs (litVal e)" "wfAbs (readRecord ctx e env)" "wfAbs (readField ctx e env)"
    using "1.prems" by (simp_all add: litVal_def readVar_def readRecord_def readField_def Let_def wfAbs_pathVal) (simp add: wfEnv_def)
  have "wfAbs (case mathArity (sfld e ''fn'') of None \<Rightarrow> TOP | Some n \<Rightarrow> applyMath (sfld e ''fn'') (vs n))" for vs
    by (simp split: option.split)
  note cases = this var narrow wfAbs_transfer
  show ?case unfolding evalPure.simps [of ctx env e]
    by (intro wfAbs_if; (rule cases wfAbs_TOP refl | assumption)+)
qed

lemma gamma_pathVal: "gammaEnv env s \<Longrightarrow> pathReads s key c x \<Longrightarrow> gamma (pathVal env key c) x"
  by (auto simp: pathReads_def pathVal_def gammaEnv_def split: option.splits)

lemma applyMath_sound:
  assumes "mathArity fn = Some n" "length xs = n" "list_all2 gamma vs xs" "concreteMath fn xs y"
  shows "gamma (applyMath fn vs) y"
proof -
  have hd: "gamma (hd vs) (hd xs)" if "n = 1"
    using assms(2,3) that by (cases xs; cases vs) auto
  have r: "gamma (transferMathRound f (hd vs)) (mathRoundFn f (hd xs))" if "n = 1" for f
    using transferMathRound_sound [OF hd [OF that]] .
  have a: "gamma (transferAbs (hd vs)) (math_abs (hd xs))" if "n = 1"
    using transferAbs_sound [OF hd [OF that]] .
  have m: "gamma (transferMinMax ''min'' vs) (math_min xs)" "gamma (transferMinMax ''max'' vs) (math_max xs)"
    using transferMinMax_sound [OF assms(3), of "''min''"] transferMinMax_sound [OF assms(3), of "''max''"]
    by (simp_all add: mathMinMax_def)
  have rand: "gamma (absVal (Fin 0) (Fin 1) False False None) y" if "wf_f64 y" "js_le (Fin 0) y" "js_lt y (Fin 1)"
    using that by (cases "y = NaN") (auto simp: gamma_absVal js_lt_le)
  consider "fn = ''math.trunc''" | "fn = ''math.floor''" | "fn = ''math.ceil''" | "fn = ''math.round''"
    | "fn = ''math.abs''" | "fn = ''math.min''" | "fn = ''math.max''" | "fn = ''math.random''"
  proof -
    have "fn \<in> set MATH_UNARY \<or> fn \<in> set MATH_BINARY \<or> fn = ''math.random''"
      using assms(1) by (auto simp: mathArity_def split: if_splits)
    then have "fn = ''math.trunc'' \<or> fn = ''math.floor'' \<or> fn = ''math.ceil'' \<or> fn = ''math.round'' \<or>
        fn = ''math.abs'' \<or> fn = ''math.min'' \<or> fn = ''math.max'' \<or> fn = ''math.random''"
      by (simp only: MATH_UNARY_def MATH_BINARY_def list.set insert_iff empty_iff simp_thms disj_assoc)
    then show thesis by (elim disjE) (erule that)+
  qed
  then show ?thesis
  proof cases
    case 1 then show ?thesis using assms(1,4) r [of "''trunc''"] by (simp add: mathArity_def MATH_UNARY_def concreteMath_def applyMath_def mathRoundFn_def)
  next
    case 2 then show ?thesis using assms(1,4) r [of "''floor''"] by (simp add: mathArity_def MATH_UNARY_def concreteMath_def applyMath_def mathRoundFn_def)
  next
    case 3 then show ?thesis using assms(1,4) r [of "''ceil''"] by (simp add: mathArity_def MATH_UNARY_def concreteMath_def applyMath_def mathRoundFn_def)
  next
    case 4 then show ?thesis using assms(1,4) r [of "''round''"] by (simp add: mathArity_def MATH_UNARY_def concreteMath_def applyMath_def mathRoundFn_def)
  next
    case 5 then show ?thesis using assms(1,4) a by (simp add: mathArity_def MATH_UNARY_def concreteMath_def applyMath_def)
  next
    case 6 then show ?thesis using assms(4) m(1) by (simp add: concreteMath_def applyMath_def)
  next
    case 7 then show ?thesis using assms(4) m(2) by (simp add: concreteMath_def applyMath_def)
  next
    case 8 then show ?thesis using assms(4) rand by (simp add: concreteMath_def applyMath_def)
  qed
qed

lemma transferBin_other: "op \<notin> set ARITH_OPS \<Longrightarrow> transferBin pow op a b = TOP"
  by (auto simp: transferBin_def ARITH_OPS_def)

lemma gamma_evalPure:
  assumes "pureVal ctx s e x" "gammaEnv env s" "wfEnv env" "pow_laws (powOp ctx)" "unbrokenIn ctx env e"
  shows "gamma (evalPure ctx env e) x"
  using assms(1,5)
proof induction
  case (lit e)
  then show ?case by (simp add: evalPure.simps [of _ _ e] litVal_def gamma_constVal)
next
  case (tracked e x)
  then show ?case using assms(2) by (simp add: evalPure.simps [of _ _ e] readVar_def gammaEnv_def)
next
  case (recordGet e x)
  then show ?case using gamma_pathVal [OF assms(2)]
    by (simp add: evalPure.simps [of _ _ e] readRecord_def Let_def slotClass_def split: if_splits)
next
  case (fieldGet e x)
  then show ?case using gamma_pathVal [OF assms(2)]
    by (simp add: evalPure.simps [of _ _ e] readField_def split: if_splits)
next
  case (neg e x)
  then show ?case using gamma_neg by (simp add: evalPure.simps [of _ _ e] unbrokenIn.simps [of _ _ e])
next
  case (bitnot e x)
  then show ?case using transferBitNot_sound by (simp add: evalPure.simps [of _ _ e] unbrokenIn.simps [of _ _ e])
next
  case (arith e x y)
  have "unbroken (evalPure ctx env e)" "gamma (evalPure ctx env (fld e ''left'')) x" "gamma (evalPure ctx env (fld e ''right'')) y"
    using arith unbrokenIn.simps [of ctx env e] by simp_all
  then show ?case using gamma_transferBin [OF assms(4) wfAbs_evalPure [OF assms(3)] wfAbs_evalPure [OF assms(3)]] arith
    by (simp add: evalPure.simps [of _ _ e])
next
  case (math e n xs y)
  have "gamma (evalPure ctx env (nthArg e i)) (xs ! i)" if "i < n" for i
    using math that unbrokenIn.simps [of ctx env e] by (simp add: list_all_iff)
  then have "list_all2 gamma (map (\<lambda>i. evalPure ctx env (nthArg e i)) [0..<n]) xs"
    using math(3) by (simp add: list_all2_conv_all_nth)
  then show ?case using applyMath_sound [OF math.hyps(2,3) _ math.hyps(5)] math.hyps(1,2) by (simp add: evalPure.simps [of _ _ e])
qed (auto simp: evalPure.simps [of _ _ e for e] unbrokenIn.simps [of _ _ e for e] readVar_def transferBin_other MODELLED_KINDS_def)

section \<open>What a condition evaluates to\<close>

text \<open>An operand that has a refinement key reads the binding or path the key names.\<close>

definition keyAgrees :: "FnCtx \<Rightarrow> cstate \<Rightarrow> json \<Rightarrow> f64 \<Rightarrow> bool" where
  "keyAgrees ctx s e x = (\<forall>allowPaths k z. refinementKey ctx e allowPaths = Some k \<longrightarrow> s k = Some z \<longrightarrow> z = x)"

definition comparesNumbers :: "json \<Rightarrow> bool" where
  "comparesNumbers e = (sfld e ''op'' \<in> set CMP_OPS \<and> kindOf (fld (fld e ''left'') ''type'') = ''f64'' \<and>
     kindOf (fld (fld e ''right'') ''type'') = ''f64'' \<and> isPure (fld e ''left'') \<and> isPure (fld e ''right''))"

definition testsNumber :: "json \<Rightarrow> bool" where
  "testsNumber e = (kindOf (fld (fld e ''operand'') ''type'') = ''f64'' \<and> isPure (fld e ''operand''))"

text \<open>A tag test of an optional number: the number arm is active exactly when the state has a
  number at the tested key, and an active unit arm means it has none.\<close>

definition unionArms :: "FnCtx \<Rightarrow> json \<Rightarrow> json list" where
  "unionArms ctx e = (case findUnion (md ctx) (fld e ''unionId'') of Some def \<Rightarrow> arrOf (fld def ''arms'') | None \<Rightarrow> [])"

definition testedArm :: "FnCtx \<Rightarrow> json \<Rightarrow> json" where
  "testedArm ctx e = unionArms ctx e ! nat \<lfloor>num (numOf (fld e ''tag''))\<rfloor>"

definition tagHolds :: "FnCtx \<Rightarrow> cstate \<Rightarrow> json \<Rightarrow> bool \<Rightarrow> bool" where
  "tagHolds ctx s e active = (\<forall>allowPaths k. refinementKey ctx (fld e ''value'') allowPaths = Some k \<longrightarrow>
     (if kindOf (testedArm ctx e) = ''f64'' then active = (s k \<noteq> None) else active \<longrightarrow> s k = None))"

definition COND_KINDS :: "string list" where
  "COND_KINDS = [''boolLit'', ''unary'', ''logical'', ''unionIsTag'', ''bin'', ''toBool'']"

inductive condVal :: "FnCtx \<Rightarrow> cstate \<Rightarrow> json \<Rightarrow> bool \<Rightarrow> bool" for ctx s where
  boolLit: "kindOf e = ''boolLit'' \<Longrightarrow> fld e ''value'' = JBool b \<Longrightarrow> condVal ctx s e b"
| not: "kindOf e = ''unary'' \<Longrightarrow> sfld e ''op'' = ''!'' \<Longrightarrow> condVal ctx s (fld e ''operand'') b \<Longrightarrow> condVal ctx s e (\<not> b)"
| unaryOther: "kindOf e = ''unary'' \<Longrightarrow> sfld e ''op'' \<noteq> ''!'' \<Longrightarrow> condVal ctx s e b"
| short: "kindOf e = ''logical'' \<Longrightarrow> b = (sfld e ''op'' \<noteq> ''&&'') \<Longrightarrow> condVal ctx s (fld e ''left'') b \<Longrightarrow> condVal ctx s e b"
| both: "kindOf e = ''logical'' \<Longrightarrow> condVal ctx s (fld e ''left'') (sfld e ''op'' = ''&&'') \<Longrightarrow>
    condVal ctx s (fld e ''right'') b \<Longrightarrow> condVal ctx s e b"
| tag: "kindOf e = ''unionIsTag'' \<Longrightarrow> tagHolds ctx s e active \<Longrightarrow>
    condVal ctx s e (if fld e ''negated'' = JBool True then \<not> active else active)"
| cmp: "kindOf e = ''bin'' \<Longrightarrow> comparesNumbers e \<Longrightarrow> pureVal ctx s (fld e ''left'') x \<Longrightarrow> pureVal ctx s (fld e ''right'') y \<Longrightarrow>
    keyAgrees ctx s (fld e ''left'') x \<Longrightarrow> keyAgrees ctx s (fld e ''right'') y \<Longrightarrow> condVal ctx s e (js_cmp (sfld e ''op'') x y)"
| binOther: "kindOf e = ''bin'' \<Longrightarrow> \<not> comparesNumbers e \<Longrightarrow> condVal ctx s e b"
| truthy: "kindOf e = ''toBool'' \<Longrightarrow> testsNumber e \<Longrightarrow> pureVal ctx s (fld e ''operand'') x \<Longrightarrow>
    keyAgrees ctx s (fld e ''operand'') x \<Longrightarrow> condVal ctx s e (x \<noteq> NaN \<and> \<not> isZero x)"
| truthyOther: "kindOf e = ''toBool'' \<Longrightarrow> \<not> testsNumber e \<Longrightarrow> condVal ctx s e b"
| opaque: "kindOf e \<notin> set COND_KINDS \<Longrightarrow> condVal ctx s e b"

text \<open>No operand compared along the refinement has a NaN bound.\<close>

function condUnbroken :: "FnCtx \<Rightarrow> env \<Rightarrow> json \<Rightarrow> bool \<Rightarrow> bool \<Rightarrow> bool" where
  "condUnbroken ctx env e branch ap =
     (if kindOf e = ''unary'' then
        (if sfld e ''op'' = ''!'' then condUnbroken ctx env (fld e ''operand'') (\<not> branch) ap else True)
      else if kindOf e = ''logical'' then
        condUnbroken ctx env (fld e ''left'') branch ap \<and> condUnbroken ctx env (fld e ''left'') (\<not> branch) ap \<and>
        list_all (\<lambda>b. case refine ctx env (fld e ''left'') b ap of None \<Rightarrow> True
                       | Some env1 \<Rightarrow> condUnbroken ctx env1 (fld e ''right'') branch ap) [True, False]
      else if kindOf e = ''bin'' then unbrokenIn ctx env (fld e ''left'') \<and> unbrokenIn ctx env (fld e ''right'')
      else if kindOf e = ''toBool'' then unbrokenIn ctx env (fld e ''operand'')
      else True)"
  by pat_completeness auto
termination by (relation "measure (\<lambda>(_, _, e, _, _). jsz e)") auto

declare condUnbroken.simps [simp del]

section \<open>Refinement loses no state\<close>

lemma gammaEnv_setKey:
  assumes "gammaEnv env s" "\<And>k z. key = Some k \<Longrightarrow> s k = Some z \<Longrightarrow> gamma v z"
  shows "gammaEnv (setKey key v env) s"
  using assms by (auto simp: setKey_def intro: gammaEnv_set split: option.split)

lemma wfEnv_set: "wfEnv env \<Longrightarrow> wfAbs v \<Longrightarrow> wfEnv (jm_set env k v)"
  by (auto simp: wfEnv_def envGet_def jm_get_set)

lemma wfEnv_setKey: "wfEnv env \<Longrightarrow> wfAbs v \<Longrightarrow> wfEnv (setKey key v env)"
  by (auto simp: setKey_def wfEnv_set split: option.split)

lemma wfAbs_truthyVal: "wfAbs v \<Longrightarrow> wfAbs (truthyVal v)"
  by (simp add: truthyVal_def Let_def) (simp add: wfAbs_def hasNumeric_def)

lemma refineBin_sound:
  assumes "comparesNumbers e" "pureVal ctx s (fld e ''left'') x" "pureVal ctx s (fld e ''right'') y"
    "keyAgrees ctx s (fld e ''left'') x" "keyAgrees ctx s (fld e ''right'') y"
    "gammaEnv env s" "wfEnv env" "pow_laws (powOp ctx)"
    "unbrokenIn ctx env (fld e ''left'')" "unbrokenIn ctx env (fld e ''right'')"
  shows "gammaEnv (refineBin ctx env e (js_cmp (sfld e ''op'') x y) ap) s"
proof -
  let ?b = "js_cmp (sfld e ''op'') x y"
  note gl = gamma_evalPure [OF assms(2,6,7,8,9)] and gr = gamma_evalPure [OF assms(3,6,7,8,10)]
  have op: "sfld e ''op'' \<in> set CMP_OPS" using assms(1) by (simp add: comparesNumbers_def)
  note r = gamma_refineLhs [OF gl gr op refl, unfolded edgeOp_def edgeClearNaN_def]
  have "gammaEnv (setKey (refinementKey ctx (fld e ''left'') ap)
      (refineLhs (if ?b then sfld e ''op'' else NEGATE (sfld e ''op'')) (evalPure ctx env (fld e ''left''))
        (evalPure ctx env (fld e ''right'')) (if ?b then sfld e ''op'' \<noteq> ''!=='' else sfld e ''op'' = ''!=='')) env) s"
    using assms(4) r(1) by (intro gammaEnv_setKey assms(6)) (auto simp: keyAgrees_def)
  then have "gammaEnv (setKey (refinementKey ctx (fld e ''right'') ap)
      (refineLhs (FLIP (if ?b then sfld e ''op'' else NEGATE (sfld e ''op''))) (evalPure ctx env (fld e ''right''))
        (evalPure ctx env (fld e ''left'')) (if ?b then sfld e ''op'' \<noteq> ''!=='' else sfld e ''op'' = ''!==''))
      (setKey (refinementKey ctx (fld e ''left'') ap)
      (refineLhs (if ?b then sfld e ''op'' else NEGATE (sfld e ''op'')) (evalPure ctx env (fld e ''left''))
        (evalPure ctx env (fld e ''right'')) (if ?b then sfld e ''op'' \<noteq> ''!=='' else sfld e ''op'' = ''!=='')) env)) s"
    using assms(5) r(2) by (elim gammaEnv_setKey) (auto simp: keyAgrees_def)
  then show ?thesis using assms(1) unfolding refineBin_def comparesNumbers_def Let_def by (simp only: simp_thms if_False)
qed

lemma refineBin_other: "\<not> comparesNumbers e \<Longrightarrow> refineBin ctx env e b ap = env"
  unfolding comparesNumbers_def refineBin_def Let_def by (simp only: de_Morgan_conj if_True split: if_splits) auto

lemma truthyVal_sound:
  assumes "gamma v x" "x \<noteq> NaN" "\<not> isZero x"
  shows "gamma (truthyVal v) x"
proof -
  note n = gamma_numD [OF assms(1,2)]
  have r: "gamma (v\<lparr>maybeNaN := False\<rparr>) x" using assms(1,2) by (simp add: gamma_def)
  have pos: "js_le (Fin 1) x" if "whole v" "js_eq (lo v) (Fin 0)"
  proof -
    have "js_le (Fin 0) x" using that(2) n(1) js_le_trans unfolding js_eq_def by blast
    with n(3) [OF that(1)] assms(3) show ?thesis
      by (cases x) (auto simp: isInteger_Fin elim!: Ints_cases)
  qed
  have neg: "js_le x (Fin (- 1))" if "whole v" "js_eq (hi v) (Fin 0)"
  proof -
    have "js_le x (Fin 0)" using that(2) n(2) js_le_trans unfolding js_eq_def by blast
    with n(3) [OF that(1)] assms(3) show ?thesis
      by (cases x) (auto simp: isInteger_Fin elim!: Ints_cases)
  qed
  show ?thesis using r pos neg n assms(2) unfolding truthyVal_def Let_def
    by (auto intro!: gamma_absValI)
qed

lemma refineToBool_sound:
  assumes "testsNumber e" "pureVal ctx s (fld e ''operand'') x" "keyAgrees ctx s (fld e ''operand'') x"
    "gammaEnv env s" "wfEnv env" "pow_laws (powOp ctx)" "unbrokenIn ctx env (fld e ''operand'')"
  shows "gammaEnv (refineToBool ctx env e (x \<noteq> NaN \<and> \<not> isZero x) ap) s"
proof -
  note g = gamma_evalPure [OF assms(2,4,5,6,7)]
  have "gamma (meetInterval (evalPure ctx env (fld e ''operand'')) (Fin 0) (Fin 0) False) x" if "x = NaN \<or> isZero x"
    using that by (intro meetInterval_sound [OF g]) (cases x; auto)
  then have w: "gamma (if x \<noteq> NaN \<and> \<not> isZero x then truthyVal (evalPure ctx env (fld e ''operand''))
      else meetInterval (evalPure ctx env (fld e ''operand'')) (Fin 0) (Fin 0) False) x"
    using truthyVal_sound [OF g] by simp
  have eq: "refineToBool ctx env e b ap = (case refinementKey ctx (fld e ''operand'') ap of None \<Rightarrow> env
      | Some key \<Rightarrow> jm_set env key (if b then truthyVal (evalPure ctx env (fld e ''operand''))
          else meetInterval (evalPure ctx env (fld e ''operand'')) (Fin 0) (Fin 0) False))" for b
    using assms(1) by (simp add: refineToBool_def testsNumber_def Let_def split: option.split)
  show ?thesis
  proof (cases "refinementKey ctx (fld e ''operand'') ap")
    case (Some k)
    have "z = x" if "s k = Some z" for z using assms(3) Some that by (auto simp: keyAgrees_def)
    then show ?thesis unfolding eq Some option.case using w by (intro gammaEnv_set [OF assms(4)]) metis
  qed (simp add: eq assms(4))
qed

lemma refineToBool_other: "\<not> testsNumber e \<Longrightarrow> refineToBool ctx env e b ap = env"
  by (auto simp: testsNumber_def refineToBool_def Let_def)

lemma refineTag_sound:
  assumes "tagHolds ctx s e active" "gammaEnv env s"
  shows "gammaEnv (refineTag ctx env e (if fld e ''negated'' = JBool True then \<not> active else active) ap) s"
proof (cases "refinementKey ctx (fld e ''value'') ap")
  case None
  then show ?thesis using assms(2) by (simp add: refineTag_def Let_def)
next
  case (Some k)
  define neg where "neg = (fld e ''negated'' = JBool True)"
  have t: "(if neg then \<not> (if neg then \<not> active else active) else (if neg then \<not> active else active)) = active" by simp
  have "gammaEnv (jm_set env k BOTTOM) s"
    if "active \<and> kindOf (testedArm ctx e) \<noteq> ''f64'' \<or> \<not> active \<and> kindOf (testedArm ctx e) = ''f64''"
    using assms that Some by (intro gammaEnv_set) (auto simp: tagHolds_def split: if_splits)
  then show ?thesis using assms(2) Some
    unfolding refineTag_def Let_def testedArm_def unionArms_def neg_def [symmetric] t by simp
qed


lemma wfEnv_joinEnv:
  assumes "\<And>e. a = Some e \<Longrightarrow> wfEnv e" "\<And>e. b = Some e \<Longrightarrow> wfEnv e" "joinEnv a b = Some env"
  shows "wfEnv env"
proof (cases a; cases b)
  fix x y assume a: "a = Some x" and b: "b = Some y"
  have "wfAbs (envGet (zipEnv join x y) k)" for k
    using assms(1) [OF a] assms(2) [OF b] wfAbs_join
    by (simp add: envGet_def [of "zipEnv join x y"] jm_get_zipEnv wfEnv_def)
  then show ?thesis using assms(3) a b by (auto simp: wfEnv_def envGet_clearPathFacts)
qed (use assms in auto)

lemma wfEnv_refineParts:
  assumes "wfEnv env"
  shows "wfEnv (refineBin ctx env e b ap)" "wfEnv (refineTag ctx env e b ap)" "wfEnv (refineToBool ctx env e b ap)"
proof -
  note w = wfAbs_evalPure [OF assms]
  show "wfEnv (refineBin ctx env e b ap)"
    unfolding refineBin_def Let_def using assms w wfAbs_refine(2) by (auto intro!: wfEnv_setKey)
  show "wfEnv (refineTag ctx env e b ap)"
    unfolding refineTag_def Let_def using assms by (auto intro!: wfEnv_set split: option.split)
  show "wfEnv (refineToBool ctx env e b ap)"
    unfolding refineToBool_def Let_def using assms w wfAbs_truthyVal wfAbs_refine(1)
    by (auto intro!: wfEnv_set split: option.split)
qed

lemma refine_kinds:
  "kindOf e = ''boolLit'' \<Longrightarrow> refine ctx env e b ap = (if fld e ''value'' = JBool b then Some env else None)"
  "kindOf e = ''unary'' \<Longrightarrow> refine ctx env e b ap =
     (if sfld e ''op'' = ''!'' then refine ctx env (fld e ''operand'') (\<not> b) ap else Some env)"
  "kindOf e = ''logical'' \<Longrightarrow> (sfld e ''op'' = ''&&'') = b \<Longrightarrow> refine ctx env e b ap =
     (case refine ctx env (fld e ''left'') b ap of None \<Rightarrow> None | Some env1 \<Rightarrow> refine ctx env1 (fld e ''right'') b ap)"
  "kindOf e = ''logical'' \<Longrightarrow> (sfld e ''op'' = ''&&'') \<noteq> b \<Longrightarrow> refine ctx env e b ap =
     joinEnv (refine ctx env (fld e ''left'') b ap)
       (case refine ctx env (fld e ''left'') (\<not> b) ap of None \<Rightarrow> None | Some env1 \<Rightarrow> refine ctx env1 (fld e ''right'') b ap)"
  "kindOf e = ''unionIsTag'' \<Longrightarrow> refine ctx env e b ap = Some (refineTag ctx env e b ap)"
  "kindOf e = ''bin'' \<Longrightarrow> refine ctx env e b ap = Some (refineBin ctx env e b ap)"
  "kindOf e = ''toBool'' \<Longrightarrow> refine ctx env e b ap = Some (refineToBool ctx env e b ap)"
  "kindOf e \<notin> set COND_KINDS \<Longrightarrow> refine ctx env e b ap = Some env"
  by (simp_all add: refine.simps [of ctx env e] COND_KINDS_def)

lemma cond_kind_cases:
  obtains "kindOf e = ''boolLit''" | "kindOf e = ''unary''" | "kindOf e = ''logical''" | "kindOf e = ''unionIsTag''"
    | "kindOf e = ''bin''" | "kindOf e = ''toBool''" | "kindOf e \<notin> set COND_KINDS"
proof (cases "kindOf e \<in> set COND_KINDS")
  case True
  then have "kindOf e = ''boolLit'' \<or> kindOf e = ''unary'' \<or> kindOf e = ''logical'' \<or> kindOf e = ''unionIsTag'' \<or>
      kindOf e = ''bin'' \<or> kindOf e = ''toBool''"
    by (simp only: COND_KINDS_def list.set insert_iff empty_iff simp_thms)
  then show thesis by (elim disjE) (erule that)+
qed (rule that)

lemma wfEnv_refine: "wfEnv env \<Longrightarrow> refine ctx env e b ap = Some env' \<Longrightarrow> wfEnv env'"
proof (induction "jsz e" arbitrary: env e b env' rule: less_induct)
  case less
  have sub: "jsz (fld e k) < jsz e" if "kindOf e = q" "q \<noteq> []" for k q using that by simp
  note parts = wfEnv_refineParts [OF less.prems(1)]
  show ?case
  proof (cases e rule: cond_kind_cases)
    case 1 then show ?thesis using less.prems by (simp add: refine_kinds split: if_splits)
  next
    case 2
    have "jsz (fld e ''operand'') < jsz e" using sub [OF 2] by simp
    from less.hyps [OF this less.prems(1)] show ?thesis using less.prems 2 by (simp add: refine_kinds split: if_splits)
  next
    case 3
    have z: "jsz (fld e ''left'') < jsz e" "jsz (fld e ''right'') < jsz e" using sub [OF 3] by simp_all
    note l = less.hyps [OF z(1) less.prems(1)] and r = less.hyps [OF z(2)]
    show ?thesis
    proof (cases "(sfld e ''op'' = ''&&'') = b")
      case True
      then obtain x where "refine ctx env (fld e ''left'') b ap = Some x" "refine ctx x (fld e ''right'') b ap = Some env'"
        using less.prems(2) unfolding refine_kinds(3) [OF 3 True] by (auto split: option.splits)
      then show ?thesis using r [OF l] by blast
    next
      case False
      have "wfEnv y" if "(case refine ctx env (fld e ''left'') (\<not> b) ap of None \<Rightarrow> None
          | Some env1 \<Rightarrow> refine ctx env1 (fld e ''right'') b ap) = Some y" for y
        using that r [OF l] by (cases "refine ctx env (fld e ''left'') (\<not> b) ap") auto
      then show ?thesis using less.prems(2) l unfolding refine_kinds(4) [OF 3 False] by (elim wfEnv_joinEnv [rotated 2])
    qed
  qed (use less.prems parts in \<open>auto simp: refine_kinds\<close>)
qed

lemma gamma_refine:
  assumes "condVal ctx s e b" "gammaEnv env s" "wfEnv env" "pow_laws (powOp ctx)" "honest s" "condUnbroken ctx env e b ap"
  shows "gammaOpt (refine ctx env e b ap) s"
  using assms(1,2,3,6)
proof (induction arbitrary: env)
  case (boolLit e b)
  then show ?case by (simp add: refine_kinds gammaOpt_def)
next
  case (not e b)
  then show ?case using condUnbroken.simps [of ctx env e "\<not> b" ap] by (simp add: refine_kinds)
next
  case (unaryOther e b)
  then show ?case by (simp add: refine_kinds gammaOpt_def)
next
  case (short e b)
  have u: "condUnbroken ctx env (fld e ''left'') b ap" using short condUnbroken.simps [of ctx env e b ap] by simp
  have "(sfld e ''op'' = ''&&'') \<noteq> b" using short by simp
  from refine_kinds(4) [OF short(1) this] show ?case
    using gammaOpt_joinEnv1 [OF short.IH [OF short.prems(1,2) u] assms(5)] by simp
next
  case (both e b)
  let ?a = "sfld e ''op'' = ''&&''"
  have u: "condUnbroken ctx env (fld e ''left'') ?a ap"
    "\<And>env1. refine ctx env (fld e ''left'') ?a ap = Some env1 \<Longrightarrow> condUnbroken ctx env1 (fld e ''right'') b ap"
    using both.prems(3) both.hyps(1) condUnbroken.simps [of ctx env e b ap] by (cases "?a"; cases b; simp)+
  obtain env1 where e1: "refine ctx env (fld e ''left'') ?a ap = Some env1" "gammaEnv env1 s"
    using both.IH(1) [OF both.prems(1,2) u(1)] by (auto simp: gammaOpt_def split: option.splits)
  have g: "gammaOpt (refine ctx env1 (fld e ''right'') b ap) s"
    using both.IH(2) [OF e1(2) wfEnv_refine [OF both.prems(2) e1(1)] u(2) [OF e1(1)]] .
  show ?case
  proof (cases "?a = b")
    case True
    then show ?thesis using g e1(1) by (simp add: refine_kinds(3) [OF both.hyps(1) True])
  next
    case False
    then have "?a = (\<not> b)" by auto
    then show ?thesis using e1(1) gammaOpt_joinEnv2 [OF g assms(5)] by (simp add: refine_kinds(4) [OF both.hyps(1) False])
  qed
next
  case (tag e active)
  then show ?case using refineTag_sound by (simp add: refine_kinds gammaOpt_def)
next
  case (cmp e x y)
  then have "unbrokenIn ctx env (fld e ''left'')" "unbrokenIn ctx env (fld e ''right'')"
    using condUnbroken.simps [of ctx env e "js_cmp (sfld e ''op'') x y" ap] by simp_all
  from refineBin_sound [OF cmp(2-6) cmp(7,8) assms(4) this] show ?case
    unfolding refine_kinds(6) [OF cmp(1)] by (simp add: gammaOpt_def)
next
  case (binOther e b)
  then show ?case by (simp add: refine_kinds refineBin_other gammaOpt_def)
next
  case (truthy e x)
  then have "unbrokenIn ctx env (fld e ''operand'')"
    using condUnbroken.simps [of ctx env e "x \<noteq> NaN \<and> \<not> isZero x" ap] by simp
  from refineToBool_sound [OF truthy(2-4) truthy(5,6) assms(4) this] show ?case
    unfolding refine_kinds(7) [OF truthy(1)] by (simp add: gammaOpt_def)
next
  case (truthyOther e b)
  then show ?case by (simp add: refine_kinds refineToBool_other gammaOpt_def)
next
  case (opaque e b)
  then show ?case by (simp add: refine_kinds gammaOpt_def)
qed

end
