(* ===== verification/IntInfer.thy ===== *)
theory IntInfer
  imports PureEval
begin

text \<open>
  The abstract interpreter of \<^verbatim>\<open>library/int-infer.ts\<close>: \<^verbatim>\<open>FnAnalyzer\<close>'s evaluation of
  expressions and execution of statements, loops with header widening, jumps through a stack
  of frames, and \<^verbatim>\<open>checkLibraryIntegerSlots\<close>. An environment object that the code mutates in
  place is passed and returned; a statement's result says whether it is that same object, a
  fresh environment, or none because control does not continue. The recursion is on the
  size of the node; a loop header is revisited at most \<^verbatim>\<open>LOOP_CAP\<close> times.
\<close>

section \<open>State\<close>

record LoopFrame =
  frameKind :: string
  labels :: "string list"
  breaks :: "env list"
  continues :: "env list"

record AState =
  frames :: "LoopFrame list"
  collect :: bool
  verdicts :: "IntVerdict list"

datatype Outcome = Same | Fresh env | Unreachable

definition resultEnv :: "Outcome \<Rightarrow> env \<Rightarrow> env option" where
  "resultEnv r env = (case r of Same \<Rightarrow> Some env | Fresh e \<Rightarrow> Some e | Unreachable \<Rightarrow> None)"

definition freshOf :: "env option \<Rightarrow> Outcome" where
  "freshOf e = (case e of None \<Rightarrow> Unreachable | Some x \<Rightarrow> Fresh x)"

text \<open>A result relative to a fresh environment, seen from the object it replaced.\<close>

definition detach :: "Outcome \<Rightarrow> env \<Rightarrow> Outcome" where
  "detach r env = freshOf (resultEnv r env)"

definition emit :: "AbsVal \<Rightarrow> string \<Rightarrow> IntClass \<Rightarrow> json \<Rightarrow> AState \<Rightarrow> AState" where
  "emit v p c l st = (if collect st
     then st\<lparr>verdicts := verdicts st @ [\<lparr>path = p, cls = c, loc = l, outcome = checkBoundary v c\<rparr>]\<rparr> else st)"

definition emitRecordSlot :: "AbsVal \<Rightarrow> RecordIntSlot \<Rightarrow> json \<Rightarrow> AState \<Rightarrow> AState" where
  "emitRecordSlot v slot l st = foldl (\<lambda>st p. emit v p (slotCls slot) l st) st (paths slot)"

definition emitField :: "AbsVal \<Rightarrow> RecordIntSlot option \<Rightarrow> json \<Rightarrow> AState \<Rightarrow> AState" where
  "emitField v slot l st = (case slot of None \<Rightarrow> st | Some sl \<Rightarrow> emitRecordSlot v sl l st)"

section \<open>Jumps\<close>

definition frameMatches :: "string option \<Rightarrow> bool \<Rightarrow> LoopFrame \<Rightarrow> bool" where
  "frameMatches label isBreak f =
     (case label of
        Some l \<Rightarrow> l \<in> set (labels f) \<and> (isBreak \<or> frameKind f = ''loop'')
      | None \<Rightarrow> (isBreak \<and> (frameKind f = ''loop'' \<or> frameKind f = ''switch'')) \<or>
                (\<not> isBreak \<and> frameKind f = ''loop''))"

definition addJump :: "bool \<Rightarrow> env \<Rightarrow> LoopFrame \<Rightarrow> LoopFrame" where
  "addJump isBreak env f = (if isBreak then f\<lparr>breaks := breaks f @ [env]\<rparr> else f\<lparr>continues := continues f @ [env]\<rparr>)"

text \<open>\<^verbatim>\<open>jumpTarget\<close> and the push onto the frame it finds; the innermost frame is the head of the
  list. A jump with no target is dropped.\<close>

fun jumpTo :: "string option \<Rightarrow> bool \<Rightarrow> env \<Rightarrow> LoopFrame list \<Rightarrow> LoopFrame list" where
  "jumpTo label isBreak env [] = []"
| "jumpTo label isBreak env (f # fs) =
     (if frameMatches label isBreak f then addJump isBreak env f # fs else f # jumpTo label isBreak env fs)"

definition labelOf :: "json \<Rightarrow> string option" where
  "labelOf s = spellingOf (fld s ''label'')"

definition labelsOf :: "json \<Rightarrow> string list" where
  "labelsOf s = map strOf (arrOf (fld s ''labels''))"

definition newFrame :: "string \<Rightarrow> string list \<Rightarrow> LoopFrame" where
  "newFrame k ls = \<lparr>frameKind = k, labels = ls, breaks = [], continues = []\<rparr>"

definition pushFrame :: "LoopFrame \<Rightarrow> AState \<Rightarrow> AState" where
  "pushFrame f st = st\<lparr>frames := f # frames st\<rparr>"

definition popFrame :: "AState \<Rightarrow> LoopFrame \<times> AState" where
  "popFrame st = (hd (frames st), st\<lparr>frames := tl (frames st)\<rparr>)"

definition joinAll :: "env option \<Rightarrow> env list \<Rightarrow> env option" where
  "joinAll out envs = foldl (\<lambda>acc e. joinEnv acc (Some e)) out envs"

section \<open>Effects of calls and unwinding\<close>

definition havocAllGlobals :: "env \<Rightarrow> env" where
  "havocAllGlobals env = jm_deleteIf isGlobalId (clearPathFacts env)"

definition havocCall :: "FnCtx \<Rightarrow> string \<Rightarrow> env \<Rightarrow> env" where
  "havocCall ctx callee env =
     (let env1 = clearPathFacts env in
      if callee \<in> set (havocAll (effects ctx)) \<or> \<not> jm_has (perFn (effects ctx)) callee then havocAllGlobals env1
      else foldl jm_delete env1 (writesOf (perFn (effects ctx)) callee))"

text \<open>The bindings a try body can write, as \<^verbatim>\<open>havocForCatch\<close> collects them.\<close>

definition catchItemNodes :: "json \<Rightarrow> (bool \<times> json) list" where
  "catchItemNodes item =
     (if isObject item \<and> hasKind item then [tagNode item]
      else if isObject item then map (Pair True) (arrOf (fld item ''body'')) else [])"

definition catchStmtNodes :: "json \<Rightarrow> (bool \<times> json) list" where
  "catchStmtNodes s = concat (map (\<lambda>v. case v of
      JArr items \<Rightarrow> concat (map catchItemNodes items)
    | _ \<Rightarrow> (if isObject v \<and> hasKind v then [tagNode v] else [])) (objValues s))"

definition catchExprNodes :: "json \<Rightarrow> json list" where
  "catchExprNodes e = concat (map (\<lambda>v. case v of
      JArr items \<Rightarrow> filter (\<lambda>it. isObject it \<and> hasKind it) items
    | _ \<Rightarrow> (if isObject v \<and> hasKind v then [v] else [])) (objValues e))"

lemma catchItemNodes_size: "x \<in> set (catchItemNodes item) \<Longrightarrow> jsz (snd x) \<le> jsz item"
  using jsz_fld_le [of item "''body''"] jsz_arrOf_member [of _ "fld item ''body''"]
  by (fastforce simp: catchItemNodes_def tagNode_def split: if_splits)

lemma catchStmtNodes_size: "x \<in> set (catchStmtNodes s) \<Longrightarrow> jsz (snd x) < jsz s"
proof -
  assume "x \<in> set (catchStmtNodes s)"
  then obtain v where v: "v \<in> set (objValues s)" "x \<in> set (case v of
      JArr items \<Rightarrow> concat (map catchItemNodes items)
    | _ \<Rightarrow> (if isObject v \<and> hasKind v then [tagNode v] else []))" by (auto simp: catchStmtNodes_def)
  have "jsz (snd x) \<le> jsz v"
  proof (cases v)
    case (JArr items)
    with v(2) obtain it where it: "it \<in> set items" "x \<in> set (catchItemNodes it)" by auto
    then show ?thesis using catchItemNodes_size [OF it(2)] jsz_arrOf_member [of it v] JArr by auto
  qed (use v(2) in \<open>auto simp: tagNode_def split: if_splits\<close>)
  then show ?thesis using jsz_objValues_member [OF v(1)] by linarith
qed

lemma catchExprNodes_size: "x \<in> set (catchExprNodes e) \<Longrightarrow> jsz x < jsz e"
proof -
  assume "x \<in> set (catchExprNodes e)"
  then obtain v where v: "v \<in> set (objValues e)" "x \<in> set (case v of
      JArr items \<Rightarrow> filter (\<lambda>it. isObject it \<and> hasKind it) items
    | _ \<Rightarrow> (if isObject v \<and> hasKind v then [v] else []))" by (auto simp: catchExprNodes_def)
  have "jsz x \<le> jsz v"
    using v(2) jsz_arrOf_member [of x v] by (cases v) (auto split: if_splits)
  then show ?thesis using jsz_objValues_member [OF v(1)] by linarith
qed

function assignedExpr :: "string list \<Rightarrow> json \<Rightarrow> string list" and
  assignedStmt :: "string list \<Rightarrow> json \<Rightarrow> string list" where
  "assignedExpr acc e =
     (let acc1 = (if kindOf e = ''assignExpr'' \<or> kindOf e = ''incDec'' then setAdd acc (sfld e ''localId'') else acc);
          acc2 = (if kindOf e = ''seqExpr'' then foldl assignedStmt acc1 (arrOf (fld e ''stmts'')) else acc1)
      in foldl assignedExpr acc2 (catchExprNodes e))"
| "assignedStmt acc s =
     (let acc1 = (if kindOf s = ''assign'' \<or> kindOf s = ''varDecl'' then setAdd acc (sfld s ''localId'') else acc)
      in foldl (\<lambda>acc t. if fst t then assignedStmt acc (snd t) else assignedExpr acc (snd t)) acc1 (catchStmtNodes s))"
  by pat_completeness auto
termination
  by (relation "measure (\<lambda>x. case x of Inl (_, e) \<Rightarrow> jsz e | Inr (_, s) \<Rightarrow> jsz s)")
    (auto simp: jsz_arr_fld catchExprNodes_size dest: catchStmtNodes_size)

declare assignedExpr.simps [simp del] assignedStmt.simps [simp del]

definition havocForCatch :: "FnCtx \<Rightarrow> env \<Rightarrow> json list \<Rightarrow> env" where
  "havocForCatch ctx entry tryBody =
     (let assigned = foldl assignedStmt [] tryBody;
          out = foldl (\<lambda>out i. if bindingCarriesNumber ctx i then jm_set out i TOP else out) entry assigned
      in clearPathFacts (jm_deleteIf isGlobalId out))"

section \<open>Children of an unmodelled node\<close>

definition isExprNode :: "json \<Rightarrow> bool" where
  "isExprNode v = (isObject v \<and> hasKind v \<and> \<not> isStmtKind (kindOf v))"

definition childItems :: "json \<Rightarrow> json list" where
  "childItems item =
     (if \<not> isObject item then []
      else if hasKind item \<and> \<not> isStmtKind (kindOf item) then [item]
      else filter isExprNode (objValues item))"

definition childExprs :: "json \<Rightarrow> json list" where
  "childExprs e = concat (map (\<lambda>kv.
      if fst kv = ''type'' then []
      else case snd kv of
        JArr items \<Rightarrow> concat (map childItems items)
      | v \<Rightarrow> (if isExprNode v then [v] else [])) (objEntries e))"

lemma jszs_append [simp]: "jszs (xs @ ys) = jszs xs + jszs ys"
  by (simp add: jszs_def)

lemma jszs_filter: "jszs (filter P xs) \<le> jszs xs"
  by (induction xs) auto

lemma jszs_concat: "(\<And>x. x \<in> set xs \<Longrightarrow> jszs (f x) \<le> g x) \<Longrightarrow> jszs (concat (map f xs)) \<le> sum_list (map g xs)"
  by (induction xs) (auto intro: add_mono)

lemma childItems_size: "jszs (childItems item) \<le> jsz item"
  using jszs_filter [of isExprNode "objValues item"] jszs_objValues [of item]
  by (auto simp: childItems_def)

lemma childExprs_size: "jszs (childExprs e) < jsz e"
proof -
  have "jszs (if fst kv = ''type'' then [] else case snd kv of JArr items \<Rightarrow> concat (map childItems items)
      | v \<Rightarrow> (if isExprNode v then [v] else [])) \<le> jsz (snd kv)" for kv :: "string \<times> json"
  proof (cases "snd kv")
    case (JArr items)
    have "jszs (concat (map childItems items)) \<le> sum_list (map jsz items)"
      by (rule jszs_concat) (rule childItems_size)
    then show ?thesis using JArr by simp
  qed auto
  then have "jszs (childExprs e) \<le> sum_list (map (\<lambda>kv. jsz (snd kv)) (objEntries e))"
    unfolding childExprs_def by (rule jszs_concat)
  then show ?thesis by (cases e) auto
qed

section \<open>The interpreter\<close>

definition WIDEN_AFTER :: nat where
  "WIDEN_AFTER = 3"

definition LOOP_CAP :: nat where
  "LOOP_CAP = 64"

text \<open>The options \<^verbatim>\<open>execLoop\<close> takes.\<close>

record LoopOpts =
  loopCond :: "json option"
  loopBody :: "json list"
  loopUpdate :: "json option"
  loopLabels :: "string list"
  doWhile :: bool
  seedEachIteration :: "string option"
  alwaysExits :: bool

definition optSize :: "json option \<Rightarrow> nat" where
  "optSize j = (case j of None \<Rightarrow> 0 | Some x \<Rightarrow> jsz x)"

definition optsSize :: "LoopOpts \<Rightarrow> nat" where
  "optsSize opts = max (jszs (loopBody opts)) (max (optSize (loopCond opts)) (optSize (loopUpdate opts)))"

definition present :: "json \<Rightarrow> json option" where
  "present j = (if isNullish j then None else Some j)"

definition bindNumber :: "FnCtx \<Rightarrow> string \<Rightarrow> AbsVal \<Rightarrow> env \<Rightarrow> env" where
  "bindNumber ctx i v env = (let env1 = clearPathsRootedAt env i in
     if bindingCarriesNumber ctx i then jm_set env1 i v else env1)"

definition CONST_KINDS :: "string list" where
  "CONST_KINDS = [''strLit'', ''boolLit'', ''unitLit'', ''regexLit'', ''templateStrings'', ''classRef'', ''selfRef'', ''chainRecv'']"

definition SUSPEND_KINDS :: "string list" where
  "SUSPEND_KINDS = [''ffiCall'', ''yieldExpr'', ''awaitExpr'', ''awaitUnionExpr'']"

definition nthOpt :: "'a option list \<Rightarrow> nat \<Rightarrow> 'a option" where
  "nthOpt xs i = (if i < length xs then xs ! i else None)"

text \<open>The obligations of a direct call: every argument of a declared integer parameter.\<close>

definition emitArgs :: "FnIntSlots \<Rightarrow> AbsVal list \<Rightarrow> json list \<Rightarrow> AState \<Rightarrow> AState" where
  "emitArgs slots vals args st = foldl (\<lambda>st i.
     case nthOpt (params slots) i of
       None \<Rightarrow> st
     | Some c \<Rightarrow> emit (vals ! i) (case nthOpt (paramPaths slots) i of Some p \<Rightarrow> p | None \<Rightarrow> []) c (fld (args ! i) ''loc'') st)
     st [0..<length args]"

definition slotMapOf :: "FnCtx \<Rightarrow> json \<Rightarrow> (string, RecordIntSlot) jsmap" where
  "slotMapOf ctx e = (case jm_get (records (cfg ctx)) (sfld (fld e ''type'') ''shapeId'') of Some m \<Rightarrow> m | None \<Rightarrow> [])"

definition headTop :: "env \<Rightarrow> env" where
  "headTop env = map (\<lambda>kv. (fst kv, TOP)) env"

definition whileOpts :: "json \<Rightarrow> LoopOpts" where
  "whileOpts s = \<lparr>loopCond = Some (fld s ''cond''), loopBody = arrOf (fld s ''body''), loopUpdate = None,
     loopLabels = labelsOf s, doWhile = False, seedEachIteration = None, alwaysExits = False\<rparr>"

definition doWhileOpts :: "json \<Rightarrow> LoopOpts" where
  "doWhileOpts s = (whileOpts s)\<lparr>doWhile := True\<rparr>"

definition forOpts :: "json \<Rightarrow> LoopOpts" where
  "forOpts s = \<lparr>loopCond = (if fld s ''cond'' = JNull then None else Some (fld s ''cond'')), loopBody = arrOf (fld s ''body''),
     loopUpdate = (if fld s ''update'' = JNull then None else Some (fld s ''update'')),
     loopLabels = labelsOf s, doWhile = False, seedEachIteration = None, alwaysExits = False\<rparr>"

definition forOfOpts :: "FnCtx \<Rightarrow> json \<Rightarrow> LoopOpts" where
  "forOfOpts ctx s = \<lparr>loopCond = None, loopBody = arrOf (fld s ''body''), loopUpdate = None,
     loopLabels = labelsOf s, doWhile = False,
     seedEachIteration = (if bindingCarriesNumber ctx (sfld s ''localId'') then Some (sfld s ''localId'') else None),
     alwaysExits = True\<rparr>"

lemma optsSize_loops [simp]:
  assumes "kindOf s \<noteq> []"
  shows "optsSize (whileOpts s) < jsz s" "optsSize (doWhileOpts s) < jsz s" "optsSize (forOpts s) < jsz s"
    "optsSize (forOfOpts ctx s) < jsz s"
  using assms by (simp_all add: optsSize_def whileOpts_def doWhileOpts_def forOpts_def forOfOpts_def optSize_def)

definition HEAP_WRITES :: "string list" where
  "HEAP_WRITES = [''arraySet'', ''bytesSet'']"

definition INDEX_WRITES :: "string list" where
  "INDEX_WRITES = [''arraySetUndefined'', ''arrayDelete'']"

text \<open>Whether a loop's exit edge is its condition, the end of an iteration, or only breaks.\<close>

definition loopExit :: "FnCtx \<Rightarrow> LoopOpts \<Rightarrow> env \<Rightarrow> env option \<Rightarrow> env option" where
  "loopExit ctx opts head postBody =
     (if doWhile opts then
        (case (loopCond opts, postBody) of (Some c, Some e) \<Rightarrow> refine ctx e c False False | _ \<Rightarrow> None)
      else case loopCond opts of
        Some c \<Rightarrow> refine ctx head c False False
      | None \<Rightarrow> (if alwaysExits opts then Some head else None))"

definition jmaxs :: "json list \<Rightarrow> nat" where
  "jmaxs es = foldr (\<lambda>e n. max (jsz e) n) es 0"

lemma jmaxs_simps [simp]: "jmaxs [] = 0" "jmaxs (e # es) = max (jsz e) (jmaxs es)"
  by (simp_all add: jmaxs_def)

lemma jmaxs_less: "(\<And>x. x \<in> set es \<Longrightarrow> jsz x < n) \<Longrightarrow> 0 < n \<Longrightarrow> jmaxs es < n"
  by (induction es) auto

definition anSize :: "((FnCtx \<times> json \<times> env \<times> AState + FnCtx \<times> json list \<times> env \<times> AState) +
    (FnCtx \<times> (string, RecordIntSlot) jsmap \<times> json list \<times> env \<times> AState + FnCtx \<times> json \<times> env \<times> AState)) +
   ((FnCtx \<times> json list \<times> env \<times> AState + FnCtx \<times> json list \<times> env \<times> env option \<times> bool \<times> AState) +
    (FnCtx \<times> LoopOpts \<times> env \<times> AState + FnCtx \<times> LoopOpts \<times> nat \<times> env \<times> AState)) \<Rightarrow> nat" where
  "anSize = case_sum
     (case_sum (case_sum (\<lambda>(_, e, _). jsz e) (\<lambda>(_, es, _). jmaxs es)) (case_sum (\<lambda>(_, _, fs, _). jszs fs) (\<lambda>(_, s, _). jsz s)))
     (case_sum (case_sum (\<lambda>(_, ss, _). jszs ss) (\<lambda>(_, cs, _). jszs cs)) (case_sum (\<lambda>(_, opts, _). optsSize opts) (\<lambda>(_, opts, _). optsSize opts)))"

definition anRank :: "((FnCtx \<times> json \<times> env \<times> AState + FnCtx \<times> json list \<times> env \<times> AState) +
    (FnCtx \<times> (string, RecordIntSlot) jsmap \<times> json list \<times> env \<times> AState + FnCtx \<times> json \<times> env \<times> AState)) +
   ((FnCtx \<times> json list \<times> env \<times> AState + FnCtx \<times> json list \<times> env \<times> env option \<times> bool \<times> AState) +
    (FnCtx \<times> LoopOpts \<times> env \<times> AState + FnCtx \<times> LoopOpts \<times> nat \<times> env \<times> AState)) \<Rightarrow> nat" where
  "anRank = case_sum
     (case_sum (case_sum (\<lambda>_. 0) (\<lambda>_. 1)) (case_sum (\<lambda>_. 1) (\<lambda>_. 0)))
     (case_sum (case_sum (\<lambda>_. 1) (\<lambda>_. 2)) (case_sum (\<lambda>_. 3) (\<lambda>(_, _, iter, _). 4 + (LOOP_CAP - iter))))"

definition anLen :: "((FnCtx \<times> json \<times> env \<times> AState + FnCtx \<times> json list \<times> env \<times> AState) +
    (FnCtx \<times> (string, RecordIntSlot) jsmap \<times> json list \<times> env \<times> AState + FnCtx \<times> json \<times> env \<times> AState)) +
   ((FnCtx \<times> json list \<times> env \<times> AState + FnCtx \<times> json list \<times> env \<times> env option \<times> bool \<times> AState) +
    (FnCtx \<times> LoopOpts \<times> env \<times> AState + FnCtx \<times> LoopOpts \<times> nat \<times> env \<times> AState)) \<Rightarrow> nat" where
  "anLen = case_sum (case_sum (case_sum (\<lambda>_. 0) (\<lambda>(_, es, _). length es)) (\<lambda>_. 0)) (\<lambda>_. 0)"

lemma jmaxs_children: "jmaxs (childExprs e) < jsz e"
  using childExprs_size [of e] jsz_member [of _ "childExprs e"] by (intro jmaxs_less) (fastforce intro: le_less_trans)+

lemma jmaxs_args: "kindOf e \<noteq> [] \<Longrightarrow> jmaxs (arrOf (fld e k)) < jsz e"
  by (intro jmaxs_less) (auto intro: jsz_arr_fld)

lemma jmaxs_nthArgs: "kindOf e \<noteq> [] \<Longrightarrow> jmaxs (map (nthArg e) is) < jsz e"
  by (intro jmaxs_less) (auto intro: jsz_nthArg)

lemma jszs_cons_fld: "jsz (fld c k) \<le> jsz c + n" "jszs (arrOf (fld c k)) < jsz c + n"
  using jsz_fld_le [of c k] jszs_arrOf [of "fld c k"] by linarith+

lemma optsSize_parts:
  "jszs (loopBody opts) \<le> optsSize opts" "loopCond opts = Some c \<Longrightarrow> jsz c \<le> optsSize opts"
  "Some c = loopCond opts \<Longrightarrow> jsz c \<le> optsSize opts"
  "loopUpdate opts = Some c \<Longrightarrow> jsz c \<le> optsSize opts" "Some c = loopUpdate opts \<Longrightarrow> jsz c \<le> optsSize opts"
  by (auto simp: optsSize_def optSize_def split: option.splits)

lemma less_or_eq_nat: "(a < b \<or> a = b) \<longleftrightarrow> a \<le> (b :: nat)"
  by auto

text \<open>The cases of the two dispatches on a node's kind. Kinds that share a case share a tag.\<close>

datatype ExprTag =
  ENumLit | EConst | EVarRef | EBin | ECompare | ETagTest | EUnary | EIncDec | EAssign | ETernary
   | ELogical | EOptChain | ESeq | ECall | EUnionWrap | EUnionNarrow | ELibCall | EUnknown | ESuspend
   | ERecordLit | ERecordClone | ERecordGet | EFieldGet | EOther

definition exprTag :: "json \<Rightarrow> ExprTag" where
  "exprTag e =
     (if kindOf e = ''numLit'' then ENumLit
      else if kindOf e \<in> set CONST_KINDS then EConst
      else if kindOf e = ''varRef'' then EVarRef
      else if kindOf e = ''bin'' then EBin
      else if kindOf e = ''strEq'' \<or> kindOf e = ''strCmp'' then ECompare
      else if kindOf e = ''unionIsTag'' \<or> kindOf e = ''unionDisc'' then ETagTest
      else if kindOf e = ''unary'' then EUnary
      else if kindOf e = ''incDec'' then EIncDec
      else if kindOf e = ''assignExpr'' then EAssign
      else if kindOf e = ''ternary'' then ETernary
      else if kindOf e \<in> {''logical'', ''nullish'', ''orDefault''} then ELogical
      else if kindOf e = ''optChain'' then EOptChain
      else if kindOf e = ''seqExpr'' then ESeq
      else if kindOf e = ''call'' then ECall
      else if kindOf e = ''unionWrap'' then EUnionWrap
      else if kindOf e = ''unionNarrow'' then EUnionNarrow
      else if kindOf e = ''libCall'' then ELibCall
      else if kindOf e \<in> set UNKNOWN_KINDS then EUnknown
      else if kindOf e \<in> set SUSPEND_KINDS then ESuspend
      else if kindOf e = ''recordLit'' then ERecordLit
      else if kindOf e = ''recordClone'' then ERecordClone
      else if kindOf e = ''recordGet'' then ERecordGet
      else if kindOf e = ''fieldGet'' then EFieldGet
      else EOther)"

datatype StmtTag =
  SVarDecl | SAssign | SExpr | SIf | SWhile | SFor | SDoWhile | SForOf | SSwitch | SHeapWrite
   | SSetLength | SIndexWrite | SFieldSet | SRecordSet | SRecordKeySet | SRecordKeyDelete | SReturn
   | SThrow | SLeave | SBreak | SContinue | SBlock | STry | SOther

definition stmtTag :: "json \<Rightarrow> StmtTag" where
  "stmtTag s =
     (if kindOf s = ''varDecl'' then SVarDecl
      else if kindOf s = ''assign'' then SAssign
      else if kindOf s = ''exprStmt'' then SExpr
      else if kindOf s = ''if'' then SIf
      else if kindOf s = ''while'' then SWhile
      else if kindOf s = ''for'' then SFor
      else if kindOf s = ''doWhile'' then SDoWhile
      else if kindOf s = ''forOf'' then SForOf
      else if kindOf s = ''switch'' then SSwitch
      else if kindOf s \<in> set HEAP_WRITES then SHeapWrite
      else if kindOf s = ''arraySetLength'' then SSetLength
      else if kindOf s \<in> set INDEX_WRITES then SIndexWrite
      else if kindOf s = ''fieldSet'' then SFieldSet
      else if kindOf s = ''recordSet'' then SRecordSet
      else if kindOf s = ''recordKeySet'' then SRecordKeySet
      else if kindOf s = ''recordKeyDelete'' then SRecordKeyDelete
      else if kindOf s = ''return'' then SReturn
      else if kindOf s = ''throw'' then SThrow
      else if kindOf s = ''rethrow'' \<or> kindOf s = ''runtimeFence'' then SLeave
      else if kindOf s = ''break'' then SBreak
      else if kindOf s = ''continue'' then SContinue
      else if kindOf s = ''block'' then SBlock
      else if kindOf s = ''tryCatch'' then STry
      else SOther)"

lemma tag_kind:
  "exprTag e \<noteq> EOther \<Longrightarrow> kindOf e \<noteq> []" "stmtTag s \<noteq> SOther \<Longrightarrow> kindOf s \<noteq> []"
proof -
  have "kindOf e = [] \<Longrightarrow> exprTag e = EOther" by (simp add: exprTag_def CONST_KINDS_def UNKNOWN_KINDS_def SUSPEND_KINDS_def)
  then show "exprTag e \<noteq> EOther \<Longrightarrow> kindOf e \<noteq> []" by blast
  have "kindOf s = [] \<Longrightarrow> stmtTag s = SOther" by (simp add: stmtTag_def HEAP_WRITES_def INDEX_WRITES_def)
  then show "stmtTag s \<noteq> SOther \<Longrightarrow> kindOf s \<noteq> []" by blast
qed

lemma tag_size:
  assumes "exprTag e = t" "t \<noteq> EOther"
  shows "jsz (fld e k) < jsz e" "jszs (arrOf (fld e k)) < jsz e" "jmaxs (arrOf (fld e k)) < jsz e" "jmaxs (map (nthArg e) is) < jsz e"
proof -
  have "kindOf e \<noteq> []" using tag_kind(1) assms by blast
  then show "jsz (fld e k) < jsz e" "jszs (arrOf (fld e k)) < jsz e" "jmaxs (arrOf (fld e k)) < jsz e" "jmaxs (map (nthArg e) is) < jsz e"
    by (simp_all add: jmaxs_args jmaxs_nthArgs)
qed

lemma stmt_tag_size:
  assumes "stmtTag s = t" "t \<noteq> SOther"
  shows "jsz (fld s k) < jsz s" "jszs (arrOf (fld s k)) < jsz s" "optsSize (whileOpts s) < jsz s" "optsSize (doWhileOpts s) < jsz s"
    "optsSize (forOpts s) < jsz s" "optsSize (forOfOpts ctx s) < jsz s"
proof -
  have "kindOf s \<noteq> []" using tag_kind(2) assms by blast
  then show "jsz (fld s k) < jsz s" "jszs (arrOf (fld s k)) < jsz s" "optsSize (whileOpts s) < jsz s" "optsSize (doWhileOpts s) < jsz s"
    "optsSize (forOpts s) < jsz s" "optsSize (forOfOpts ctx s) < jsz s" by simp_all
qed

function
  evalExpr :: "FnCtx \<Rightarrow> json \<Rightarrow> env \<Rightarrow> AState \<Rightarrow> AbsVal \<times> env \<times> AState" and
  evalExprs :: "FnCtx \<Rightarrow> json list \<Rightarrow> env \<Rightarrow> AState \<Rightarrow> AbsVal list \<times> env \<times> AState" and
  evalFields :: "FnCtx \<Rightarrow> (string, RecordIntSlot) jsmap \<Rightarrow> json list \<Rightarrow> env \<Rightarrow> AState \<Rightarrow> env \<times> AState" and
  execStmt :: "FnCtx \<Rightarrow> json \<Rightarrow> env \<Rightarrow> AState \<Rightarrow> Outcome \<times> env \<times> AState" and
  execStmts :: "FnCtx \<Rightarrow> json list \<Rightarrow> env \<Rightarrow> AState \<Rightarrow> Outcome \<times> env \<times> AState" and
  execCases :: "FnCtx \<Rightarrow> json list \<Rightarrow> env \<Rightarrow> env option \<Rightarrow> bool \<Rightarrow> AState \<Rightarrow> env option \<times> bool \<times> env \<times> AState" and
  runLoopBodyOnce :: "FnCtx \<Rightarrow> LoopOpts \<Rightarrow> env \<Rightarrow> AState \<Rightarrow> env option \<times> env option \<times> LoopFrame \<times> AState" and
  loopFix :: "FnCtx \<Rightarrow> LoopOpts \<Rightarrow> nat \<Rightarrow> env \<Rightarrow> AState \<Rightarrow> env \<times> AState"
where
  "evalExpr ctx e env st =
     (case exprTag e of
        ENumLit \<Rightarrow> (litVal e, env, st)
      | EConst \<Rightarrow> (TOP, env, st)
      | EVarRef \<Rightarrow> (readVar ctx e env, env, st)
      | EBin \<Rightarrow>
        (case evalExpr ctx (fld e ''left'') env st of (a, env1, st1) \<Rightarrow>
         case evalExpr ctx (fld e ''right'') env1 st1 of (b, env2, st2) \<Rightarrow>
           (if sfld e ''op'' \<in> set CMP_OPS then TOP
            else if kindOf (fld (fld e ''left'') ''type'') \<noteq> ''f64'' \<or> kindOf (fld (fld e ''right'') ''type'') \<noteq> ''f64'' then TOP
            else transferBin (powOp ctx) (sfld e ''op'') a b, env2, st2))
      | ECompare \<Rightarrow>
        (case evalExpr ctx (fld e ''left'') env st of (_, env1, st1) \<Rightarrow>
         case evalExpr ctx (fld e ''right'') env1 st1 of (_, env2, st2) \<Rightarrow> (TOP, env2, st2))
      | ETagTest \<Rightarrow>
        (case evalExpr ctx (fld e ''value'') env st of (_, env1, st1) \<Rightarrow> (TOP, env1, st1))
      | EUnary \<Rightarrow>
        (case evalExpr ctx (fld e ''operand'') env st of (v, env1, st1) \<Rightarrow>
           (if sfld e ''op'' = ''-'' then transferNeg v else if sfld e ''op'' = ''~'' then transferBitNot v else TOP, env1, st1))
      | EIncDec \<Rightarrow>
        (let old = readVar ctx e env;
             nxt = transferAdd old (constVal (if sfld e ''op'' = ''+'' then Fin 1 else Fin (- 1)) None)
         in (if fld e ''prefix'' = JBool True then nxt else old,
             if bindingCarriesNumber ctx (sfld e ''localId'') then jm_set env (sfld e ''localId'') nxt else env, st))
      | EAssign \<Rightarrow>
        (case evalExpr ctx (fld e ''value'') env st of (v, env1, st1) \<Rightarrow>
           (v, bindNumber ctx (sfld e ''localId'') v env1, st1))
      | ETernary \<Rightarrow>
        (case evalExpr ctx (fld e ''cond'') env st of (_, env1, st1) \<Rightarrow>
         let allowPaths = stablePathGuard (fld e ''cond'') in
         case (case refine ctx env1 (fld e ''cond'') True allowPaths of
                 None \<Rightarrow> (BOTTOM, None, st1)
               | Some t \<Rightarrow> (case evalExpr ctx (fld e ''then'') t st1 of (a, t1, st2) \<Rightarrow> (a, Some t1, st2))) of (a, thenEnv, st2) \<Rightarrow>
         case (case refine ctx env1 (fld e ''cond'') False allowPaths of
                 None \<Rightarrow> (BOTTOM, None, st2)
               | Some t \<Rightarrow> (case evalExpr ctx (fld e ''else_'') t st2 of (b, t1, st3) \<Rightarrow> (b, Some t1, st3))) of (b, elseEnv, st3) \<Rightarrow>
           (join a b, case joinEnv thenEnv elseEnv of None \<Rightarrow> env1 | Some m \<Rightarrow> m, st3))
      | ELogical \<Rightarrow>
        (case evalExpr ctx (fld e ''left'') env st of (l, env1, st1) \<Rightarrow>
         case evalExpr ctx (fld e ''right'') env1 st1 of (r, rightEnv, st2) \<Rightarrow>
           (if numberCarrierKind (fld e ''type'') (md ctx) \<noteq> None then join l r else TOP,
            if stablePathGuard e then env1
            else (case joinEnv (Some env1) (Some rightEnv) of None \<Rightarrow> env1 | Some m \<Rightarrow> m), st2))
      | EOptChain \<Rightarrow>
        (case evalExpr ctx (fld e ''receiver'') env st of (_, env1, st1) \<Rightarrow>
         case evalExpr ctx (fld e ''body'') env1 st1 of (b, bodyEnv, st2) \<Rightarrow>
           (if numberCarrierKind (fld e ''type'') (md ctx) \<noteq> None then b else TOP,
            case joinEnv (Some env1) (Some bodyEnv) of None \<Rightarrow> env1 | Some m \<Rightarrow> m, st2))
      | ESeq \<Rightarrow>
        (case execStmts ctx (arrOf (fld e ''stmts'')) env st of (r, env1, st1) \<Rightarrow>
         case resultEnv r env1 of
           None \<Rightarrow> (BOTTOM, env1, st1)
         | Some running \<Rightarrow> evalExpr ctx (fld e ''result'') running st1)
      | ECall \<Rightarrow>
        (case evalExprs ctx (arrOf (fld e ''args'')) env st of (vals, env1, st1) \<Rightarrow>
         let slots = jm_get (fns (cfg ctx)) (sfld e ''callee'');
             st2 = (case slots of None \<Rightarrow> st1 | Some sl \<Rightarrow> emitArgs sl vals (arrOf (fld e ''args'')) st1)
         in (case slots of Some sl \<Rightarrow> (case ret sl of Some c \<Rightarrow> classSeed (intClassName c) | None \<Rightarrow> TOP) | None \<Rightarrow> TOP,
             havocCall ctx (sfld e ''callee'') env1, st2))
      | EUnionWrap \<Rightarrow>
        (case evalExpr ctx (fld e ''value'') env st of (v, env1, st1) \<Rightarrow>
           (if numberCarrierKind (fld e ''type'') (md ctx) \<noteq> Some Optional then TOP
            else if kindOf (fld (fld e ''value'') ''type'') = ''f64'' then v else BOTTOM, env1, st1))
      | EUnionNarrow \<Rightarrow>
        (case evalExpr ctx (fld e ''value'') env st of (v, env1, st1) \<Rightarrow>
           (if narrowsNumber ctx e then v else TOP, env1, st1))
      | ELibCall \<Rightarrow>
        (case mathArity (sfld e ''fn'') of
           Some n \<Rightarrow>
             (case evalExprs ctx (map (nthArg e) [0..<n]) env st of (vs, env1, st1) \<Rightarrow>
                (applyMath (sfld e ''fn'') vs, clearPathFacts env1, st1))
         | None \<Rightarrow>
             (case evalExprs ctx (arrOf (fld e ''args'')) env st of (_, env1, st1) \<Rightarrow>
                (TOP, clearPathFacts (if list_ex (\<lambda>a. typeContainsFunc (fld a ''type'')) (arrOf (fld e ''args''))
                                      then havocAllGlobals env1 else env1), st1)))
      | EUnknown \<Rightarrow>
        (case evalExprs ctx (childExprs e) env st of (_, env1, st1) \<Rightarrow> (TOP, havocAllGlobals env1, st1))
      | ESuspend \<Rightarrow>
        (case evalExprs ctx (childExprs e) env st of (_, env1, st1) \<Rightarrow> (TOP, clearPathFacts env1, st1))
      | ERecordLit \<Rightarrow>
        (case evalFields ctx (slotMapOf ctx e) (arrOf (fld e ''fields'')) env st of (env1, st1) \<Rightarrow> (TOP, env1, st1))
      | ERecordClone \<Rightarrow>
        (case evalExpr ctx (fld e ''source'') env st of (_, env1, st1) \<Rightarrow>
         case evalFields ctx (slotMapOf ctx e) (arrOf (fld e ''overrides'')) env1 st1 of (env2, st2) \<Rightarrow> (TOP, env2, st2))
      | ERecordGet \<Rightarrow>
        (case evalExpr ctx (fld e ''obj'') env st of (_, env1, st1) \<Rightarrow> (readRecord ctx e env1, env1, st1))
      | EFieldGet \<Rightarrow>
        (case evalExpr ctx (fld e ''obj'') env st of (_, env1, st1) \<Rightarrow> (readField ctx e env1, env1, st1))
      | EOther \<Rightarrow>
        (case evalExprs ctx (childExprs e) env st of (_, env1, st1) \<Rightarrow> (TOP, clearPathFacts env1, st1)))"
| "evalExprs ctx [] env st = ([], env, st)"
| "evalExprs ctx (e # es) env st =
     (case evalExpr ctx e env st of (v, env1, st1) \<Rightarrow>
      case evalExprs ctx es env1 st1 of (vs, env2, st2) \<Rightarrow> (v # vs, env2, st2))"
| "evalFields ctx slots [] env st = (env, st)"
| "evalFields ctx slots (f # fs) env st =
     (case evalExpr ctx (fld f ''value'') env st of (v, env1, st1) \<Rightarrow>
      let val = fld f ''value'';
          st2 = (if numberCarrierKind (fld val ''type'') (md ctx) \<noteq> None
                 then emitField v (jm_get slots (sfld f ''name'')) (fld val ''loc'') st1 else st1)
      in evalFields ctx slots fs env1 st2)"
| "execStmt ctx s env st =
     (case stmtTag s of
        SVarDecl \<Rightarrow>
        (if fld s ''init'' = JNull then (Same, env, st)
         else case evalExpr ctx (fld s ''init'') env st of (v, env1, st1) \<Rightarrow>
           (Same, bindNumber ctx (sfld s ''localId'') v env1, st1))
      | SAssign \<Rightarrow>
        (case evalExpr ctx (fld s ''value'') env st of (v, env1, st1) \<Rightarrow>
           (Same, bindNumber ctx (sfld s ''localId'') v env1, st1))
      | SExpr \<Rightarrow>
        (case evalExpr ctx (fld s ''expr'') env st of (_, env1, st1) \<Rightarrow> (Same, env1, st1))
      | SIf \<Rightarrow>
        (case evalExpr ctx (fld s ''cond'') env st of (_, env1, st1) \<Rightarrow>
         let allowPaths = stablePathGuard (fld s ''cond'') in
         case (case refine ctx env1 (fld s ''cond'') True allowPaths of
                 None \<Rightarrow> (None, st1)
               | Some t \<Rightarrow> (case execStmts ctx (arrOf (fld s ''then'')) t st1 of (r, t1, st2) \<Rightarrow> (resultEnv r t1, st2))) of (a, st2) \<Rightarrow>
         case (case refine ctx env1 (fld s ''cond'') False allowPaths of
                 None \<Rightarrow> (None, st2)
               | Some t \<Rightarrow> (if fld s ''else_'' = JNull then (Some t, st2)
                   else case execStmts ctx (arrOf (fld s ''else_'')) t st2 of (r, t1, st3) \<Rightarrow> (resultEnv r t1, st3))) of (b, st3) \<Rightarrow>
           (freshOf (joinEnv a b), env1, st3))
      | SWhile \<Rightarrow>
        (case loopFix ctx (whileOpts s) 0 (clearPathFacts env) (st\<lparr>collect := False\<rparr>) of (head, st1) \<Rightarrow>
         case runLoopBodyOnce ctx (whileOpts s) head (st1\<lparr>collect := collect st\<rparr>) of (_, postBody, f, st2) \<Rightarrow>
           (freshOf (joinAll (loopExit ctx (whileOpts s) head postBody) (breaks f)), clearPathFacts env, st2))
      | SFor \<Rightarrow>
        (case (if fld s ''init'' = JNull then (Same, env, st) else execStmt ctx (fld s ''init'') env st) of (r, env1, st1) \<Rightarrow>
         case resultEnv r env1 of
           None \<Rightarrow> (Unreachable, env1, st1)
         | Some e \<Rightarrow>
             (case loopFix ctx (forOpts s) 0 (clearPathFacts e) (st1\<lparr>collect := False\<rparr>) of (head, st2) \<Rightarrow>
              case runLoopBodyOnce ctx (forOpts s) head (st2\<lparr>collect := collect st1\<rparr>) of (_, postBody, f, st3) \<Rightarrow>
                (freshOf (joinAll (loopExit ctx (forOpts s) head postBody) (breaks f)),
                 (if r = Same then clearPathFacts e else env1), st3)))
      | SDoWhile \<Rightarrow>
        (case loopFix ctx (doWhileOpts s) 0 (clearPathFacts env) (st\<lparr>collect := False\<rparr>) of (head, st1) \<Rightarrow>
         case runLoopBodyOnce ctx (doWhileOpts s) head (st1\<lparr>collect := collect st\<rparr>) of (_, postBody, f, st2) \<Rightarrow>
           (freshOf (joinAll (loopExit ctx (doWhileOpts s) head postBody) (breaks f)), clearPathFacts env, st2))
      | SForOf \<Rightarrow>
        (case evalExpr ctx (fld s ''iterable'') env st of (_, env1, st1) \<Rightarrow>
         case loopFix ctx (forOfOpts ctx s) 0 (clearPathFacts env1) (st1\<lparr>collect := False\<rparr>) of (head, st2) \<Rightarrow>
         case runLoopBodyOnce ctx (forOfOpts ctx s) head (st2\<lparr>collect := collect st1\<rparr>) of (_, postBody, f, st3) \<Rightarrow>
           (freshOf (joinAll (loopExit ctx (forOfOpts ctx s) head postBody) (breaks f)), clearPathFacts env1, st3))
      | SSwitch \<Rightarrow>
        (case evalExpr ctx (fld s ''disc'') env st of (_, env1, st1) \<Rightarrow>
         case execCases ctx (arrOf (fld s ''cases'')) env1 None False (pushFrame (newFrame ''switch'' (labelsOf s)) st1) of
           (running, hasDefault, env2, st2) \<Rightarrow>
         case popFrame st2 of (f, st3) \<Rightarrow>
         let out = joinAll running (breaks f)
         in (freshOf (if hasDefault then out else joinEnv out (Some env2)), env2, st3))
      | SHeapWrite \<Rightarrow>
        (case evalExprs ctx [fld s ''arr'', fld s ''index'', fld s ''value''] env st of (_, env1, st1) \<Rightarrow>
           (Same, clearPathFacts env1, st1))
      | SSetLength \<Rightarrow>
        (case evalExprs ctx [fld s ''arr'', fld s ''length''] env st of (_, env1, st1) \<Rightarrow> (Same, clearPathFacts env1, st1))
      | SIndexWrite \<Rightarrow>
        (case evalExprs ctx [fld s ''arr'', fld s ''index''] env st of (_, env1, st1) \<Rightarrow> (Same, clearPathFacts env1, st1))
      | SFieldSet \<Rightarrow>
        (case evalExprs ctx [fld s ''obj'', fld s ''value''] env st of (_, env1, st1) \<Rightarrow> (Same, clearPathFacts env1, st1))
      | SRecordSet \<Rightarrow>
        (case evalExpr ctx (fld s ''obj'') env st of (_, env1, st1) \<Rightarrow>
         case evalExpr ctx (fld s ''value'') env1 st1 of (v, env2, st2) \<Rightarrow>
           (Same, clearPathFacts env2,
            emitField v (recordSlot ctx (sfld s ''shapeId'') (sfld s ''field'')) (fld s ''loc'') st2))
      | SRecordKeySet \<Rightarrow>
        (case evalExprs ctx [fld s ''obj'', fld s ''key''] env st of (_, env1, st1) \<Rightarrow>
         case evalExpr ctx (fld s ''value'') env1 st1 of (v, env2, st2) \<Rightarrow>
           (Same, clearPathFacts env2,
            if fld s ''overflowOnly'' = JBool True then st2
            else foldl (\<lambda>st slot. emitRecordSlot v (snd slot) (fld s ''loc'') st) st2
                   (case jm_get (records (cfg ctx)) (sfld s ''shapeId'') of Some m \<Rightarrow> m | None \<Rightarrow> [])))
      | SRecordKeyDelete \<Rightarrow>
        (case evalExprs ctx [fld s ''obj'', fld s ''key''] env st of (_, env1, st1) \<Rightarrow> (Same, clearPathFacts env1, st1))
      | SReturn \<Rightarrow>
        (if fld s ''value'' = JNull then (Unreachable, env, st)
         else case evalExpr ctx (fld s ''value'') env st of (v, env1, st1) \<Rightarrow>
           (Unreachable, env1, case retSlot ctx of None \<Rightarrow> st1 | Some (c, p) \<Rightarrow> emit v p c (fld s ''loc'') st1))
      | SThrow \<Rightarrow>
        (case evalExpr ctx (fld s ''value'') env st of (_, env1, st1) \<Rightarrow> (Unreachable, env1, st1))
      | SLeave \<Rightarrow> (Unreachable, env, st)
      | SBreak \<Rightarrow> (Unreachable, env, st\<lparr>frames := jumpTo (labelOf s) True env (frames st)\<rparr>)
      | SContinue \<Rightarrow> (Unreachable, env, st\<lparr>frames := jumpTo (labelOf s) False env (frames st)\<rparr>)
      | SBlock \<Rightarrow>
        (if labelsOf s = [] then execStmts ctx (arrOf (fld s ''body'')) env st
         else case execStmts ctx (arrOf (fld s ''body'')) env (pushFrame (newFrame ''block'' (labelsOf s)) st) of (r, env1, st1) \<Rightarrow>
              case popFrame st1 of (f, st2) \<Rightarrow>
                (if breaks f = [] then (r, env1, st2)
                 else (freshOf (joinAll (resultEnv r env1) (breaks f)), env1, st2)))
      | STry \<Rightarrow>
        (case execStmts ctx (arrOf (fld s ''tryBody'')) env st of (r, env1, st1) \<Rightarrow>
         let havoc = havocForCatch ctx env (arrOf (fld s ''tryBody'')) in
         case (if fld s ''catchBody'' = JNull then (None, st1)
               else case execStmts ctx (arrOf (fld s ''catchBody'')) havoc st1 of (c, h1, st2) \<Rightarrow> (resultEnv c h1, st2)) of (afterCatch, st2) \<Rightarrow>
         let out = joinEnv (resultEnv r env1) afterCatch in
         if fld s ''finallyBody'' = JNull then (freshOf out, env1, st2)
         else let f0 = (case joinEnv out (Some havoc) of None \<Rightarrow> havoc | Some x \<Rightarrow> x) in
           case execStmts ctx (arrOf (fld s ''finallyBody'')) f0 st2 of (q, f1, st3) \<Rightarrow> (detach q f1, env1, st3))
      | SOther \<Rightarrow> (Same, env, st))"
| "execStmts ctx [] env st = (Same, env, st)"
| "execStmts ctx (s # ss) env st =
     (case execStmt ctx s env st of (r, env1, st1) \<Rightarrow>
        (case r of
           Same \<Rightarrow> execStmts ctx ss env1 st1
         | Fresh e \<Rightarrow> (case execStmts ctx ss e st1 of (r2, e1, st2) \<Rightarrow> (detach r2 e1, env1, st2))
         | Unreachable \<Rightarrow> (Unreachable, env1, st1)))"
| "execCases ctx [] env running hasDefault st = (running, hasDefault, env, st)"
| "execCases ctx (c # cs) env running hasDefault st =
     (case (if fld c ''test'' = JNull then (TOP, env, st) else evalExpr ctx (fld c ''test'') env st) of (_, env1, st1) \<Rightarrow>
      case joinEnv running (Some env1) of
        None \<Rightarrow> execCases ctx cs env1 None (hasDefault \<or> fld c ''test'' = JNull) st1
      | Some e \<Rightarrow>
          (case execStmts ctx (arrOf (fld c ''body'')) e st1 of (r, e1, st2) \<Rightarrow>
             execCases ctx cs env1 (resultEnv r e1) (hasDefault \<or> fld c ''test'' = JNull) st2))"
| "runLoopBodyOnce ctx opts head st =
     (case (case loopCond opts of
              Some c \<Rightarrow> (if doWhile opts then (Some head, st)
                        else case evalExpr ctx c head st of (_, bodyIn, st1) \<Rightarrow> (refine ctx bodyIn c True False, st1))
            | None \<Rightarrow> (Some head, st)) of (bodyIn0, st1) \<Rightarrow>
      let bodyIn = (case (bodyIn0, seedEachIteration opts) of
            (Some b, Some i) \<Rightarrow> Some (jm_set b i TOP) | _ \<Rightarrow> bodyIn0);
          st2 = pushFrame (newFrame ''loop'' (loopLabels opts)) st1 in
      case (case bodyIn of
              None \<Rightarrow> (None, st2)
            | Some b \<Rightarrow> (case execStmts ctx (loopBody opts) b st2 of (r, b1, st3) \<Rightarrow> (resultEnv r b1, st3))) of (out, st3) \<Rightarrow>
      case popFrame st3 of (f, st4) \<Rightarrow>
      let out1 = joinAll out (continues f) in
      case (case (loopUpdate opts, out1) of
              (Some u, Some o1) \<Rightarrow> (case execStmt ctx u o1 st4 of (r, o2, st5) \<Rightarrow> (resultEnv r o2, st5))
            | _ \<Rightarrow> (out1, st4)) of (out2, st5) \<Rightarrow>
      (case (loopCond opts, out2) of
         (Some c, Some o2) \<Rightarrow>
           (if doWhile opts
            then (case evalExpr ctx c o2 st5 of (_, o3, st6) \<Rightarrow> (refine ctx o3 c True False, Some o3, f, st6))
            else (out2, None, f, st5))
       | _ \<Rightarrow> (out2, None, f, st5)))"
| "loopFix ctx opts iter head st =
     (if LOOP_CAP \<le> iter then (head, st)
      else case runLoopBodyOnce ctx opts head st of (back, _, _, st1) \<Rightarrow>
        let nxt0 = (case joinEnv (Some head) back of Some n \<Rightarrow> n | None \<Rightarrow> head);
            nxt = (if Suc iter > WIDEN_AFTER then widenEnv head nxt0 else nxt0) in
        if envEquals head nxt then (head, st1)
        else if iter = LOOP_CAP - 1 then (headTop nxt, st1)
        else loopFix ctx opts (Suc iter) nxt st1)"
  by pat_completeness auto

termination
  by (relation "measures [anSize, anRank, anLen]")
    (simp_all add: anSize_def anRank_def anLen_def jmaxs_children jszs_cons_fld tag_size stmt_tag_size
      optsSize_parts less_or_eq_nat jsz_fld_le trans_le_add1, auto)

declare evalExpr.simps [simp del] execStmt.simps [simp del] runLoopBodyOnce.simps [simp del] loopFix.simps [simp del]

section \<open>Entry points\<close>

definition seedParams :: "FnCtx \<Rightarrow> json \<Rightarrow> FnIntSlots option \<Rightarrow> env" where
  "seedParams ctx fn slots =
     (let ps = arrOf (fld fn ''params'') in
      foldl (\<lambda>env i.
        let localId = sfld (ps ! i) ''localId'';
            declared = (case slots of None \<Rightarrow> None | Some sl \<Rightarrow> nthOpt (params sl) i);
            seed = (case slots of None \<Rightarrow> None | Some sl \<Rightarrow> nthOpt (paramSeeds sl) i)
        in if \<not> bindingCarriesNumber ctx localId then env
           else case declared of
               Some c \<Rightarrow> jm_set env localId (classSeed (intClassName c))
             | None \<Rightarrow> (case seed of Some v \<Rightarrow> jm_set env localId v | None \<Rightarrow> jm_set env localId TOP))
        [] [0..<length ps])"

definition analyze :: "FnCtx \<Rightarrow> json \<Rightarrow> IntVerdict list \<Rightarrow> IntVerdict list" where
  "analyze ctx fn vs =
     (let slots = jm_get (fns (cfg ctx)) (sfld fn ''name'');
          rs = (case slots of None \<Rightarrow> None
                | Some sl \<Rightarrow> (case ret sl of None \<Rightarrow> None
                    | Some c \<Rightarrow> Some (c, case retPath sl of Some p \<Rightarrow> p | None \<Rightarrow> [])));
          ctx1 = ctx\<lparr>retSlot := rs\<rparr>
      in case execStmts ctx1 (arrOf (fld fn ''body'')) (seedParams ctx1 fn slots)
           \<lparr>frames = [], collect = True, verdicts = vs\<rparr> of (_, _, st) \<Rightarrow> verdicts st)"

definition checkLibraryIntegerSlots :: "(f64 \<Rightarrow> f64 \<Rightarrow> f64) \<Rightarrow> json \<Rightarrow> IntSlotConfig \<Rightarrow> IntVerdict list" where
  "checkLibraryIntegerSlots pow m c =
     (if \<not> hasIntSlots c then []
      else let fx = globalEffectsOf m in
           foldl (\<lambda>vs fn. analyze \<lparr>md = m, cfg = c, effects = fx, numberBindings = seedBindings fn m,
                                    retSlot = None, powOp = pow\<rparr> fn vs) [] (arrOf (fld m ''functions'')))"

end
