(* ===== verification/IntInferSound.thy ===== *)
theory IntInferSound
  imports PureSound IntInfer
begin

text \<open>
  Properties of the integer inference's interpreter: pure evaluation and branch refinement
  over-approximate the concrete semantics of conditions and expressions, and a call or an
  exception edge forgets every binding the callee or the interrupted body may have changed.
\<close>

section \<open>Calls\<close>

lemma global_not_path: "isGlobalId k \<Longrightarrow> pathSeedOfKey k = None"
  by (auto simp: isGlobalId_def pathSeedOfKey_def PATH_TOP_PREFIX_def PATH_I64_PREFIX_def PATH_U64_PREFIX_def
      startsWith_def prefix_def)

lemma jm_get_foldl_delete: "jm_get (foldl jm_delete m ks) k = (if k \<in> set ks then None else jm_get m k)"
  by (induction ks arbitrary: m) (auto simp: jm_get_delete)

lemma envGet_havocAll: "envGet (havocAllGlobals env) k =
  (if isGlobalId k then TOP else envGet (clearPathFacts env) k)"
  by (auto simp: havocAllGlobals_def envGet_def jm_get_deleteIf defaultVal_def global_not_path)

text \<open>The states a call can leave behind: only globals written by functions the callee
  reaches change (any global when it reaches unknown code), and every number is a double.\<close>

definition callChanges :: "json \<Rightarrow> string \<Rightarrow> cstate \<Rightarrow> cstate \<Rightarrow> bool" where
  "callChanges m callee s s' =
     (honest s' \<and> (\<forall>k x. isGlobalId k \<longrightarrow> s' k = Some x \<longrightarrow> wf_f64 x) \<and>
      (\<forall>k. pathSeedOfKey k = None \<longrightarrow> s' k \<noteq> s k \<longrightarrow> isGlobalId k \<and>
         ((\<exists>g. reaches (directCalls m) callee g \<and>
            (k \<in> set (writesOf (directWrites m) g) \<or> g \<in> set (directUnknown m))) \<or>
          \<not> jm_has (directWrites m) callee)))"

lemma jm_has_jm_set: "jm_has (jm_set m k v) k' = (k = k' \<or> jm_has m k')"
  by (auto simp: jm_has_def jm_get_set)

lemma closeCallee_has: "jm_has (fst (closeCallee f st g)) k \<Longrightarrow> jm_has (fst st) k \<or> k = f"
  by (cases st) (auto simp: closeCallee_def Let_def jm_has_jm_set split: if_splits)

lemma foldl_insert_keys: "jm_has (foldl (\<lambda>m fn. jm_set m (key fn) (val fn)) m0 xs) k \<longleftrightarrow> jm_has m0 k \<or> k \<in> key ` set xs"
  by (induction xs arbitrary: m0) (auto simp: jm_has_jm_set)

lemma directCalls_keys: "jm_has (directCalls m) k = jm_has (directWrites m) k"
  by (simp add: directCalls_def directWrites_def foldl_insert_keys)

lemma jm_has_keys: "jm_has m k \<longleftrightarrow> k \<in> fst ` set m"
  using jm_get_keys [of m k] by (simp add: jm_has_def jm_keys_def)

lemma closePass_has:
  assumes "jm_has (fst (closePass calls st)) k"
  shows "jm_has (fst st) k \<or> jm_has calls k"
proof -
  have "jm_has (fst (foldl (\<lambda>st e. closeCallee (fst e) st (snd e)) st es)) k \<Longrightarrow> jm_has (fst st) k \<or> k \<in> fst ` set es"
    for es st
  proof (induction es arbitrary: st)
    case (Cons e es)
    then show ?case using closeCallee_has [of "fst e" st "snd e" k] by fastforce
  qed simp
  moreover have "fst ` set (edges calls) \<subseteq> fst ` set calls" by (force simp: edges_def)
  ultimately show ?thesis using assms unfolding closePass_edges jm_has_keys [of calls] by blast
qed

lemma closeLoop_has:
  "closeLoop calls W U = (W', U') \<Longrightarrow> jm_has W' k \<Longrightarrow> jm_has W k \<or> jm_has calls k"
proof (induction calls W U rule: closeLoop.induct)
  case (1 calls W U)
  obtain V X c where p: "closePass calls (W, U, False) = (V, X, c)" by (metis prod_cases3)
  have V: "jm_has V k \<Longrightarrow> jm_has W k \<or> jm_has calls k" using closePass_has [of calls "(W, U, False)" k] p by simp
  show ?case
  proof (cases c)
    case True
    then show ?thesis using 1(1) [OF p [symmetric]] 1(2,3) p V by (auto simp: closeLoop.simps [of calls W U])
  next
    case False
    then show ?thesis using 1(2,3) p V by (auto simp: closeLoop.simps [of calls W U])
  qed
qed

lemma perFn_has: "jm_has (perFn (globalEffectsOf m)) k \<Longrightarrow> jm_has (directWrites m) k"
  using closeLoop_has [of "directCalls m" "directWrites m" "directUnknown m" _ _ k] directCalls_keys [of m k]
  by (auto simp: globalEffectsOf_def split: prod.splits)

lemma havocCall_sound:
  assumes "gammaEnv env s" "effects ctx = globalEffectsOf m" "callChanges m callee s s'"
  shows "gammaEnv (havocCall ctx callee env) s'"
  unfolding gammaEnv_def
proof (intro allI impI)
  fix k x assume x: "s' k = Some x"
  note c = assms(3) [unfolded callChanges_def]
  let ?all = "callee \<in> set (havocAll (effects ctx)) \<or> \<not> jm_has (perFn (effects ctx)) callee"
  show "gamma (envGet (havocCall ctx callee env) k) x"
  proof (cases "pathSeedOfKey k = None")
    case False
    then have "\<not> isGlobalId k" using global_not_path by auto
    moreover have "k \<notin> set (writesOf (perFn (effects ctx)) callee)"
      using assms(2) perFn_global [of k m callee] \<open>\<not> isGlobalId k\<close> by auto
    ultimately have "envGet (havocCall ctx callee env) k = defaultVal k" using False
      by (auto simp: havocCall_def Let_def envGet_havocAll envGet_clearPathFacts)
        (simp add: envGet_def jm_get_foldl_delete clearPathFacts_def jm_get_deleteIf)
    then show ?thesis using c x False unfolding honest_def by auto
  next
    case True
    have global: "envGet (havocCall ctx callee env) k = TOP"
      if "isGlobalId k" "?all \<or> k \<in> set (writesOf (perFn (effects ctx)) callee)"
      using that global_not_path
      by (auto simp: havocCall_def Let_def envGet_havocAll) (simp add: envGet_def jm_get_foldl_delete defaultVal_def)
    show ?thesis
    proof (cases "isGlobalId k \<and> (?all \<or> k \<in> set (writesOf (perFn (effects ctx)) callee))")
      case T: True
      then show ?thesis using global c x by auto
    next
      case F: False
      have "s' k = s k"
      proof (rule ccontr)
        assume "s' k \<noteq> s k"
        then have "isGlobalId k" "(\<exists>g. reaches (directCalls m) callee g \<and>
            (k \<in> set (writesOf (directWrites m) g) \<or> g \<in> set (directUnknown m))) \<or> \<not> jm_has (directWrites m) callee"
          using c True by blast+
        then show False using F assms(2) globalEffects_reach [of m callee] perFn_has [of m callee] by auto
      qed
      moreover have "envGet (havocCall ctx callee env) k = envGet env k"
        using F True perFn_global [of k m callee] assms(2)
        by (auto simp: havocCall_def Let_def envGet_havocAll envGet_clearPathFacts)
          (auto simp: envGet_def jm_get_foldl_delete clearPathFacts_def jm_get_deleteIf)
      ultimately show ?thesis using assms(1) x unfolding gammaEnv_def by auto
    qed
  qed
qed

section \<open>Exception edges\<close>

text \<open>The states from which a catch or finally block can start: the interrupted body may have
  changed globals and the bindings it assigns.\<close>

definition tryChanges :: "FnCtx \<Rightarrow> json list \<Rightarrow> cstate \<Rightarrow> cstate \<Rightarrow> bool" where
  "tryChanges ctx tryBody s s' =
     (honest s' \<and> (\<forall>k x. s' k = Some x \<longrightarrow> wf_f64 x) \<and>
      (\<forall>k. pathSeedOfKey k = None \<longrightarrow> s' k \<noteq> s k \<longrightarrow>
         isGlobalId k \<or> (k \<in> set (foldl assignedStmt [] tryBody) \<and> bindingCarriesNumber ctx k)))"

lemma jm_get_foldl_top:
  "jm_get (foldl (\<lambda>out i. if P i then jm_set out i TOP else out) m ks) k =
     (if k \<in> set ks \<and> P k then Some TOP else jm_get m k)"
  by (induction ks arbitrary: m) (auto simp: jm_get_set)

lemma envGet_havocForCatch:
  "pathSeedOfKey k = None \<Longrightarrow> envGet (havocForCatch ctx entry body) k =
     (if isGlobalId k \<or> (k \<in> set (foldl assignedStmt [] body) \<and> bindingCarriesNumber ctx k) then TOP else envGet entry k)"
  by (auto simp: havocForCatch_def Let_def envGet_def clearPathFacts_def jm_get_deleteIf jm_get_foldl_top defaultVal_def)

lemma havocForCatch_gamma:
  assumes "gammaEnv entry s" "tryChanges ctx body s s'"
  shows "gammaEnv (havocForCatch ctx entry body) s'"
  unfolding gammaEnv_def
proof (intro allI impI)
  fix k x assume x: "s' k = Some x"
  note c = assms(2) [unfolded tryChanges_def]
  show "gamma (envGet (havocForCatch ctx entry body) k) x"
  proof (cases "pathSeedOfKey k = None")
    case True
    have "s' k = s k" if "\<not> (isGlobalId k \<or> (k \<in> set (foldl assignedStmt [] body) \<and> bindingCarriesNumber ctx k))"
      using c True that by blast
    then show ?thesis using c x assms(1) unfolding gammaEnv_def envGet_havocForCatch [OF True] by auto
  next
    case False
    then have "envGet (havocForCatch ctx entry body) k = defaultVal k"
      by (simp add: havocForCatch_def Let_def envGet_clearPathFacts)
    then show ?thesis using c x False unfolding honest_def by auto
  qed
qed

section \<open>Properties\<close>

text \<open>A small context for the witnesses: one tracked binding \<open>n\<close>.\<close>

definition demoCtx :: FnCtx where
  "demoCtx = \<lparr>md = JObj [], cfg = \<lparr>fns = [], records = []\<rparr>, effects = globalEffectsOf (JObj []),
     numberBindings = [''n''], retSlot = None, powOp = refPow\<rparr>"

definition demoVar :: json where
  "demoVar = JObj [(''kind'', JStr ''varRef''), (''localId'', JStr ''n''), (''type'', JObj [(''kind'', JStr ''f64'')])]"

definition demoLit :: json where
  "demoLit = JObj [(''kind'', JStr ''numLit''), (''value'', JNum (Fin 10)), (''type'', JObj [(''kind'', JStr ''f64'')])]"

definition demoSum :: json where
  "demoSum = JObj [(''kind'', JStr ''bin''), (''op'', JStr ''+''), (''left'', demoVar), (''right'', demoLit),
     (''type'', JObj [(''kind'', JStr ''f64'')])]"

definition demoCond :: json where
  "demoCond = JObj [(''kind'', JStr ''bin''), (''op'', JStr ''<''), (''left'', demoVar), (''right'', demoLit)]"

definition demoAssign :: json where
  "demoAssign = JObj [(''kind'', JStr ''assign''), (''localId'', JStr ''n''), (''value'', demoLit)]"

definition demoEnv :: env where
  "demoEnv = [(''n'', classSeed ''u8'')]"

definition demoState :: cstate where
  "demoState = (\<lambda>k. if k = ''n'' then Some (Fin 7) else None)"

lemmas demo_defs = demoCtx_def demoVar_def demoLit_def demoSum_def demoCond_def demoEnv_def demoState_def
  kindOf_def sfld_def bindingCarriesNumber_def

lemma demo_env: "gammaEnv demoEnv demoState" "wfEnv demoEnv" "honest demoState" "pow_laws (powOp demoCtx)"
proof -
  have "gamma (classSeed ''u8'') (Fin 7)" by (simp add: abs_eval)
  then show "gammaEnv demoEnv demoState" by (auto simp: gammaEnv_def demo_defs envGet_def)
  show "wfEnv demoEnv" by (auto simp: wfEnv_def demo_defs envGet_def wfAbs_refine(3) split: option.split)
  show "honest demoState" by (auto simp: honest_def demo_defs pathSeedOfKey_def startsWith_def prefix_def
        PATH_TOP_PREFIX_def PATH_I64_PREFIX_def PATH_U64_PREFIX_def)
  show "pow_laws (powOp demoCtx)" by (simp add: demo_defs pow_laws_refPow)
qed

lemma demo_vals: "pureVal demoCtx demoState demoVar (Fin 7)" "pureVal demoCtx demoState demoLit (Fin 10)"
proof -
  show "pureVal demoCtx demoState demoVar (Fin 7)" by (rule pureVal.tracked) (simp_all add: demo_defs)
  have "numOf (fld demoLit ''value'') = Fin 10" by (simp add: demo_defs)
  then show "pureVal demoCtx demoState demoLit (Fin 10)"
    using pureVal.lit [of demoLit demoCtx demoState] by (simp add: demo_defs)
qed

lemma demo_sum: "pureVal demoCtx demoState demoSum (js_bin refPow ''+'' (Fin 7) (Fin 10))"
proof -
  have "kindOf demoSum = ''bin''" "sfld demoSum ''op'' = ''+''" "fld demoSum ''left'' = demoVar" "fld demoSum ''right'' = demoLit"
    "powOp demoCtx = refPow" by (simp_all add: demo_defs)
  then show ?thesis using pureVal.arith [of demoSum demoCtx demoState "Fin 7" "Fin 10"] demo_vals
    by (simp add: ARITH_OPS_def tameOperands_def)
qed

lemma demo_eval: "evalPure demoCtx demoEnv demoSum = absVal (Fin 10) (Fin 265) True False None" "unbrokenIn demoCtx demoEnv demoSum"
proof -
  have k: "kindOf demoSum = ''bin''" "sfld demoSum ''op'' = ''+''" "fld demoSum ''left'' = demoVar" "fld demoSum ''right'' = demoLit"
    "kindOf demoVar = ''varRef''" "kindOf demoLit = ''numLit''" by (simp_all add: demo_defs)
  have v: "evalPure demoCtx demoEnv demoVar = classSeed ''u8''" "evalPure demoCtx demoEnv demoLit = constVal (Fin 10) None"
    by (simp_all add: evalPure.simps k readVar_def litVal_def) (simp_all add: demo_defs envGet_def)
  show e: "evalPure demoCtx demoEnv demoSum = absVal (Fin 10) (Fin 265) True False None"
    by (simp add: evalPure.simps [of _ _ demoSum] k v transferBin_def transferAdd_def abs_eval)
  show "unbrokenIn demoCtx demoEnv demoSum"
    by (simp add: unbrokenIn.simps k e) (simp add: unbroken_def absVal_def)
qed

lemma demo_cond: "condVal demoCtx demoState demoCond True" "condUnbroken demoCtx demoEnv demoCond True ap"
proof -
  have k: "kindOf demoCond = ''bin''" "sfld demoCond ''op'' = ''<''" "fld demoCond ''left'' = demoVar" "fld demoCond ''right'' = demoLit"
    "kindOf demoVar = ''varRef''" "kindOf demoLit = ''numLit''" "kindOf (fld demoVar ''type'') = ''f64''" "kindOf (fld demoLit ''type'') = ''f64''"
    by (simp_all add: demo_defs)
  have "comparesNumbers demoCond" by (simp add: comparesNumbers_def k CMP_OPS_def isPure.simps PURE_LEAVES_def)
  moreover have "keyAgrees demoCtx demoState demoVar (Fin 7)" "keyAgrees demoCtx demoState demoLit (Fin 10)"
    by (simp_all add: keyAgrees_def refinementKey.simps k) (simp add: demo_defs)
  ultimately have "condVal demoCtx demoState demoCond (js_cmp ''<'' (Fin 7) (Fin 10))"
    using condVal.cmp [of demoCond demoCtx demoState "Fin 7" "Fin 10"] demo_vals k by simp
  then show "condVal demoCtx demoState demoCond True" by (simp add: js_cmp_def)
  show "condUnbroken demoCtx demoEnv demoCond True ap"
    by (simp add: condUnbroken.simps k unbrokenIn.simps)
qed









end
