(* ===== verification/InterpSound.thy ===== *)
theory InterpSound
  imports IntInfer
begin

text \<open>
  The bookkeeping of the abstract interpreter of \<^verbatim>\<open>library/int-infer.ts\<close>. Its mutable state is a stack
  of jump frames, the flag that says whether verdicts are recorded, and the verdicts. Whatever is
  evaluated or executed, the stack comes back with the same frames (so every pop meets the frame
  that was pushed), the flag comes back as it was, verdicts are only appended, none while the
  flag is off, and each belongs to a slot the configuration declares.
\<close>

section \<open>The discipline\<close>

definition declaredAt :: "FnCtx \<Rightarrow> string \<Rightarrow> IntClass \<Rightarrow> bool" where
  "declaredAt ctx p c =
     ((\<exists>f sl i. jm_get (fns (cfg ctx)) f = Some sl \<and> nthOpt (params sl) i = Some c \<and>
         p = (case nthOpt (paramPaths sl) i of Some q \<Rightarrow> q | None \<Rightarrow> [])) \<or>
      retSlot ctx = Some (c, p) \<or>
      (\<exists>shp slots f sl. jm_get (records (cfg ctx)) shp = Some slots \<and> (f, sl) \<in> set slots \<and> c = slotCls sl \<and> p \<in> set (paths sl)))"

definition frameShape :: "LoopFrame \<Rightarrow> string \<times> string list" where
  "frameShape f = (frameKind f, labels f)"

definition keeps :: "FnCtx \<Rightarrow> AState \<Rightarrow> AState \<Rightarrow> bool" where
  "keeps ctx st st' =
     (map frameShape (frames st') = map frameShape (frames st) \<and> collect st' = collect st \<and>
      (\<exists>ws. verdicts st' = verdicts st @ ws \<and> (collect st \<or> ws = []) \<and> list_all (\<lambda>w. declaredAt ctx (path w) (cls w)) ws))"

lemma keeps_refl [simp, intro]: "keeps ctx st st"
  by (simp add: keeps_def)

lemma keeps_trans: "keeps ctx st st1 \<Longrightarrow> keeps ctx st1 st2 \<Longrightarrow> keeps ctx st st2"
  by (auto simp: keeps_def)

lemma keeps_foldl: "(\<And>st x. x \<in> set xs \<Longrightarrow> keeps ctx st (f st x)) \<Longrightarrow> keeps ctx st (foldl f st xs)"
proof (induction xs arbitrary: st)
  case (Cons x xs)
  have "keeps ctx st (f st x)" "keeps ctx (f st x) (foldl f (f st x) xs)" using Cons by simp_all
  then show ?case using keeps_trans by simp
qed simp

lemma keeps_emit: "declaredAt ctx p c \<Longrightarrow> keeps ctx st (emit v p c l st)"
  by (simp add: keeps_def emit_def)

lemma keeps_emitRecordSlot:
  "jm_get (records (cfg ctx)) shp = Some slots \<Longrightarrow> (f, sl) \<in> set slots \<Longrightarrow> keeps ctx st (emitRecordSlot v sl l st)"
  unfolding emitRecordSlot_def by (rule keeps_foldl, rule keeps_emit) (auto simp: declaredAt_def)

lemma keeps_emitArgs:
  assumes "jm_get (fns (cfg ctx)) f = Some sl"
  shows "keeps ctx st (emitArgs sl vals args st)"
proof -
  have "declaredAt ctx (case nthOpt (paramPaths sl) i of Some q \<Rightarrow> q | None \<Rightarrow> []) c" if "nthOpt (params sl) i = Some c" for i c
    unfolding declaredAt_def using assms that by blast
  then show ?thesis unfolding emitArgs_def
    by (intro keeps_foldl) (simp add: keeps_emit split: option.split_asm option.split)
qed

definition recordSlots :: "FnCtx \<Rightarrow> (string, RecordIntSlot) jsmap \<Rightarrow> bool" where
  "recordSlots ctx slots = (slots = [] \<or> (\<exists>shp. jm_get (records (cfg ctx)) shp = Some slots))"

lemma recordSlots_map: "recordSlots ctx (slotMapOf ctx e)"
  by (cases "jm_get (records (cfg ctx)) (sfld (fld e ''type'') ''shapeId'')") (auto simp: recordSlots_def slotMapOf_def)

lemma jm_get_member: "jm_get m k = Some v \<Longrightarrow> (k, v) \<in> set m"
  by (induction m k rule: jm_get.induct) (auto split: if_splits)

lemma keeps_emitField: "recordSlots ctx slots \<Longrightarrow> keeps ctx st (emitField v (jm_get slots k) l st)"
  unfolding emitField_def recordSlots_def
  using keeps_emitRecordSlot jm_get_member by (fastforce split: option.split)

lemma frameShape_jumpTo: "map frameShape (jumpTo label b env fs) = map frameShape fs"
  by (induction fs) (simp_all add: frameShape_def addJump_def)

lemma keeps_jump: "keeps ctx st (st\<lparr>frames := jumpTo label b env (frames st)\<rparr>)"
  by (simp add: keeps_def frameShape_jumpTo)

lemma keeps_frame:
  assumes "keeps ctx (pushFrame f st) st1" "popFrame st1 = (g, st2)"
  shows "keeps ctx st st2" "frameShape g = frameShape f"
  using assms by (auto simp: keeps_def pushFrame_def popFrame_def map_eq_Cons_conv)

lemma keeps_muted:
  assumes "keeps ctx (st\<lparr>collect := False\<rparr>) st1" "keeps ctx (st1\<lparr>collect := collect st\<rparr>) st2"
  shows "keeps ctx st st2"
  using assms by (auto simp: keeps_def)

section \<open>The parts of the interpreter\<close>

text \<open>Results carry the state last; the rules follow the shape of the code.\<close>

definition keeps2 :: "FnCtx \<Rightarrow> AState \<Rightarrow> 'a \<times> 'b \<times> AState \<Rightarrow> bool" where
  "keeps2 ctx st r = keeps ctx st (snd (snd r))"

lemma keeps2_simps [simp]: "keeps2 ctx st (a, b, st1) = keeps ctx st st1"
  by (simp add: keeps2_def)

lemma keeps2_case:
  assumes "keeps2 ctx st p" "\<And>a b st1. keeps ctx st st1 \<Longrightarrow> keeps2 ctx st1 (k a b st1)"
  shows "keeps2 ctx st (case p of (a, b, st1) \<Rightarrow> k a b st1)"
  using assms by (cases p) (auto simp: keeps2_def intro: keeps_trans)

lemma keeps2_if:
  "(b \<Longrightarrow> keeps2 ctx st x) \<Longrightarrow> (\<not> b \<Longrightarrow> keeps2 ctx st y) \<Longrightarrow> keeps2 ctx st (if b then x else y)"
  by simp

lemma keeps2_option:
  "(o1 = None \<Longrightarrow> keeps2 ctx st x) \<Longrightarrow> (\<And>v. o1 = Some v \<Longrightarrow> keeps2 ctx st (f v)) \<Longrightarrow> keeps2 ctx st (case o1 of None \<Rightarrow> x | Some v \<Rightarrow> f v)"
  by (cases o1) simp_all

lemma keeps2_pair:
  "keeps ctx st (snd p) \<Longrightarrow> (\<And>a st1. keeps ctx st st1 \<Longrightarrow> keeps2 ctx st1 (k a st1)) \<Longrightarrow> keeps2 ctx st (case p of (a, st1) \<Rightarrow> k a st1)"
  by (cases p) (auto simp: keeps2_def intro: keeps_trans)

lemmas keeps2_rules = keeps2_case keeps2_if keeps2_option keeps2_pair

lemma evalExprs_keeps:
  "(\<And>e env st. e \<in> set es \<Longrightarrow> keeps2 ctx st (evalExpr ctx e env st)) \<Longrightarrow> keeps2 ctx st (evalExprs ctx es env st)"
proof (induction es arbitrary: env st)
  case (Cons e es)
  then show ?case unfolding evalExprs.simps by (intro keeps2_case) simp_all
qed simp

lemma evalFields_keeps:
  assumes "recordSlots ctx slots" "\<And>f env st. f \<in> set fs \<Longrightarrow> keeps2 ctx st (evalExpr ctx (fld f ''value'') env st)"
  shows "keeps ctx st (snd (evalFields ctx slots fs env st))"
  using assms(2)
proof (induction fs arbitrary: env st)
  case (Cons f fs)
  obtain v env1 st1 where e: "evalExpr ctx (fld f ''value'') env st = (v, env1, st1)" using prod_cases3 by blast
  then have "keeps ctx st st1" using Cons.prems [of f st env] by simp
  moreover have "keeps ctx st1 (emitField v (jm_get slots (sfld f ''name'')) l st1)" for l by (rule keeps_emitField [OF assms(1)])
  moreover have "keeps ctx st2 (snd (evalFields ctx slots fs env1 st2))" for st2 using Cons by simp
  ultimately show ?case unfolding evalFields.simps e Let_def prod.case by (smt (verit) keeps_trans)
qed simp

lemma execStmts_keeps:
  "(\<And>s env st. s \<in> set ss \<Longrightarrow> keeps2 ctx st (execStmt ctx s env st)) \<Longrightarrow> keeps2 ctx st (execStmts ctx ss env st)"
proof (induction ss arbitrary: env st)
  case (Cons s ss)
  then show ?case unfolding execStmts.simps by (intro keeps2_case) (auto split: Outcome.split intro!: keeps2_case [where k = "\<lambda>r e st. (_ r e, _, st)"])
qed simp

lemma evalExpr_keeps:
  assumes ex: "\<And>x env st. jsz x < jsz e \<Longrightarrow> keeps2 ctx st (evalExpr ctx x env st)"
    and ss: "\<And>ss env st. jszs ss < jsz e \<Longrightarrow> keeps2 ctx st (execStmts ctx ss env st)"
  shows "keeps2 ctx st (evalExpr ctx e env st)"
proof -
  have es: "keeps2 ctx st (evalExprs ctx es env st)" if "jmaxs es < jsz e" for es env st
    using that by (intro evalExprs_keeps ex) (induction es, auto)
  have fs: "keeps ctx st (snd (evalFields ctx (slotMapOf ctx e) fs env st))" if "jszs fs < jsz e" for fs env st
    using that jsz_member jsz_fld_le by (intro evalFields_keeps recordSlots_map ex) (meson le_less_trans)
  have args: "keeps ctx st (case jm_get (fns (cfg ctx)) c of None \<Rightarrow> st | Some sl \<Rightarrow> emitArgs sl vals as st)" for c vals as st
    by (auto split: option.split intro: keeps_emitArgs)
  show ?thesis
    by (cases "exprTag e"; simp only: evalExpr.simps [of ctx e] ExprTag.case Let_def;
        (intro keeps2_rules ex ss es fs)?; simp add: tag_size jmaxs_children args)
qed

text \<open>Loops push a frame around the body and pop it before the update.\<close>

definition keeps3 :: "FnCtx \<Rightarrow> AState \<Rightarrow> 'a \<times> 'b \<times> 'c \<times> AState \<Rightarrow> bool" where
  "keeps3 ctx st r = keeps ctx st (snd (snd (snd r)))"

lemma keeps3_simps [simp]: "keeps3 ctx st (a, b, c, st1) = keeps ctx st st1"
  by (simp add: keeps3_def)

lemma keeps3_case:
  "keeps2 ctx st p \<Longrightarrow> (\<And>a b st1. keeps ctx st st1 \<Longrightarrow> keeps3 ctx st1 (k a b st1)) \<Longrightarrow> keeps3 ctx st (case p of (a, b, st1) \<Rightarrow> k a b st1)"
  by (cases p) (auto simp: keeps3_def intro: keeps_trans)

lemma keeps3_pair:
  "keeps ctx st (snd p) \<Longrightarrow> (\<And>a st1. keeps ctx st st1 \<Longrightarrow> keeps3 ctx st1 (k a st1)) \<Longrightarrow> keeps3 ctx st (case p of (a, st1) \<Rightarrow> k a st1)"
  by (cases p) (auto simp: keeps3_def intro: keeps_trans)

lemma keeps3_frame:
  assumes "keeps ctx (pushFrame f st) (snd p)" "\<And>out g st4. keeps ctx st st4 \<Longrightarrow> keeps3 ctx st4 (k out g st4)"
  shows "keeps3 ctx st (case p of (out, st3) \<Rightarrow> case popFrame st3 of (g, st4) \<Rightarrow> k out g st4)"
proof -
  obtain out st3 g st4 where p: "p = (out, st3)" "popFrame st3 = (g, st4)" by (metis surj_pair)
  then have "keeps ctx st st4" using keeps_frame(1) assms(1) by auto
  then show ?thesis using assms(2) [of st4 out g] p by (auto simp: keeps3_def intro: keeps_trans)
qed

lemma keeps3_if: "(b \<Longrightarrow> keeps3 ctx st x) \<Longrightarrow> (\<not> b \<Longrightarrow> keeps3 ctx st y) \<Longrightarrow> keeps3 ctx st (if b then x else y)"
  by simp

lemma keeps3_option:
  "(o1 = None \<Longrightarrow> keeps3 ctx st x) \<Longrightarrow> (\<And>v. o1 = Some v \<Longrightarrow> keeps3 ctx st (f v)) \<Longrightarrow> keeps3 ctx st (case o1 of None \<Rightarrow> x | Some v \<Rightarrow> f v)"
  by (cases o1) simp_all

lemma keeps2_state: "keeps2 ctx st p \<Longrightarrow> keeps ctx st (snd (case p of (r, env, st1) \<Rightarrow> (g r env, st1)))"
  by (cases p) (simp add: keeps2_def)

lemma runLoopBodyOnce_keeps:
  assumes cond: "\<And>c env st. loopCond opts = Some c \<Longrightarrow> keeps2 ctx st (evalExpr ctx c env st)"
    and body: "\<And>env st. keeps2 ctx st (execStmts ctx (loopBody opts) env st)"
    and upd: "\<And>u env st. loopUpdate opts = Some u \<Longrightarrow> keeps2 ctx st (execStmt ctx u env st)"
  shows "keeps3 ctx st (runLoopBodyOnce ctx opts head st)"
  unfolding runLoopBodyOnce.simps [of ctx opts] Let_def
proof (rule keeps3_pair, goal_cases)
  case 1
  show ?case by (auto split: option.split intro!: keeps2_state cond)
next
  case (2 bodyIn0 st1)
  show ?case
  proof (rule keeps3_frame [where f = "newFrame ''loop'' (loopLabels opts)"], goal_cases)
    case 1
    show ?case by (auto split: option.split intro!: keeps2_state body)
  next
    case (2 out f st4)
    show ?case
    proof (rule keeps3_pair, goal_cases)
      case 1
      show ?case by (auto split: option.split intro!: keeps2_state upd)
    next
      case (2 out2 st5)
      show ?case unfolding prod.case by (intro keeps3_option keeps3_if keeps3_case cond) simp_all
    qed
  qed
qed

lemma loopFix_keeps:
  assumes "\<And>head st. keeps3 ctx st (runLoopBodyOnce ctx opts head st)"
  shows "keeps ctx st (snd (loopFix ctx opts iter head st))"
proof (induction "LOOP_CAP - iter" arbitrary: iter head st rule: less_induct)
  case less
  obtain bk post fr st1 where run: "runLoopBodyOnce ctx opts head st = (bk, post, fr, st1)" using prod_cases4 by blast
  then have "keeps ctx st st1" using assms [of st head] by simp
  moreover have "keeps ctx st1 (snd (loopFix ctx opts (Suc iter) nxt st1))" if "\<not> LOOP_CAP \<le> iter" for nxt
    using that less by simp
  ultimately show ?case unfolding loopFix.simps [of ctx opts iter] run Let_def prod.case
    by (auto intro: keeps_trans)
qed

lemma execCases_keeps:
  assumes "\<And>c env st. c \<in> set cs \<Longrightarrow> keeps2 ctx st (evalExpr ctx (fld c ''test'') env st)"
    "\<And>c env st. c \<in> set cs \<Longrightarrow> keeps2 ctx st (execStmts ctx (arrOf (fld c ''body'')) env st)"
  shows "keeps3 ctx st (execCases ctx cs env running hasDefault st)"
  using assms
proof (induction cs arbitrary: env running hasDefault st)
  case (Cons c cs)
  show ?case unfolding execCases.simps
    by (intro keeps3_case keeps3_option keeps2_if) (simp_all add: Cons)
qed simp

lemma keeps2_loop:
  assumes "keeps ctx (st\<lparr>collect := False\<rparr>) (snd p)" "\<And>head st1. keeps3 ctx (st1\<lparr>collect := collect st\<rparr>) (q head st1)"
  shows "keeps2 ctx st (case p of (head, st1) \<Rightarrow> case q head st1 of (a, post, f, st2) \<Rightarrow> (r head post f, e head, st2))"
proof -
  obtain head st1 where p: "p = (head, st1)" by force
  obtain a post f st2 where q: "q head st1 = (a, post, f, st2)" using prod_cases4 by blast
  have "keeps ctx (st1\<lparr>collect := collect st\<rparr>) st2" using assms(2) [of st1 head] q by simp
  then show ?thesis using keeps_muted assms(1) p q by simp
qed

lemma keeps2_frame:
  assumes "keeps2 ctx (pushFrame f st) p" "\<And>r env1 g st2. keeps ctx st st2 \<Longrightarrow> keeps2 ctx st2 (k r env1 g st2)"
  shows "keeps2 ctx st (case p of (r, env1, st1) \<Rightarrow> case popFrame st1 of (g, st2) \<Rightarrow> k r env1 g st2)"
proof -
  obtain r env1 st1 g st2 where p: "p = (r, env1, st1)" "popFrame st1 = (g, st2)" by (metis surj_pair)
  then have "keeps ctx st st2" using keeps_frame(1) assms(1) by auto
  then show ?thesis using assms(2) [of st2 r env1 g] p by (auto simp: keeps2_def intro: keeps_trans)
qed

lemma keeps3_switch:
  assumes "keeps3 ctx (pushFrame f st) p"
  shows "keeps2 ctx st (case p of (running, d, env2, st2) \<Rightarrow> case popFrame st2 of (g, st3) \<Rightarrow> (r running d env2 g, env2, st3))"
proof -
  obtain running d env2 st2 g st3 where p: "p = (running, d, env2, st2)" "popFrame st2 = (g, st3)" by (metis surj_pair)
  then show ?thesis using keeps_frame(1) assms by auto
qed

lemma execStmt_keeps:
  assumes ex: "\<And>x env st. jsz x < jsz s \<Longrightarrow> keeps2 ctx st (evalExpr ctx x env st)"
    and sub: "\<And>x env st. jsz x < jsz s \<Longrightarrow> keeps2 ctx st (execStmt ctx x env st)"
    and ss: "\<And>ss env st. jszs ss < jsz s \<Longrightarrow> keeps2 ctx st (execStmts ctx ss env st)"
  shows "keeps2 ctx st (execStmt ctx s env st)"
proof -
  have es: "keeps2 ctx st (evalExprs ctx es env st)" if "jmaxs es < jsz s" for es env st
    using that by (intro evalExprs_keeps ex) (induction es, auto)
  have once: "keeps3 ctx st (runLoopBodyOnce ctx opts head st)" if "optsSize opts < jsz s" for opts head st
    using that optsSize_parts [where opts = opts] by (intro runLoopBodyOnce_keeps ex ss sub) (meson le_less_trans)+
  have fix_: "keeps ctx st (snd (loopFix ctx opts iter head st))" if "optsSize opts < jsz s" for opts iter head st
    using once that by (intro loopFix_keeps) blast
  have cs: "keeps3 ctx st (execCases ctx cs env running d st)" if "jszs cs < jsz s" for cs env running d st
    using that jsz_member jsz_fld_le jszs_arrOf by (intro execCases_keeps ex ss) (meson le_less_trans less_trans)+
  have rec: "keeps ctx st (emitField v (recordSlot ctx shp f) l st)" for v shp f l st
    by (cases "jm_get (records (cfg ctx)) shp") (auto simp: recordSlot_def emitField_def recordSlots_def intro!: keeps_emitField [unfolded emitField_def])
  have keys: "keeps ctx st (foldl (\<lambda>st slot. emitRecordSlot v (snd slot) l st) st
      (case jm_get (records (cfg ctx)) shp of None \<Rightarrow> [] | Some m \<Rightarrow> m))" for v shp l st
    by (auto intro!: keeps_foldl keeps_emitRecordSlot split: option.split)
  have return: "keeps ctx st (case retSlot ctx of None \<Rightarrow> st | Some (c, p) \<Rightarrow> emit v p c l st)" for v l st
    by (auto intro!: keeps_emit simp: declaredAt_def split: option.split)
  show ?thesis
    by (cases "stmtTag s"; simp only: execStmt.simps [of ctx s] StmtTag.case Let_def;
        (intro keeps2_loop keeps3_switch [where f = "newFrame ''switch'' (labelsOf s)"] keeps2_frame [where f = "newFrame ''block'' (labelsOf s)"]
          keeps2_rules ex ss es sub once fix_ cs)?;
        auto simp: stmt_tag_size rec keys return keeps_jump intro!: keeps2_state ss split: option.split)
qed


section \<open>The whole interpreter\<close>

lemma interpreter_keeps:
  "(\<forall>e env st. jsz e = n \<longrightarrow> keeps2 ctx st (evalExpr ctx e env st)) \<and>
   (\<forall>s env st. jsz s = n \<longrightarrow> keeps2 ctx st (execStmt ctx s env st))"
proof (induction n rule: less_induct)
  case (less n)
  then have ex: "keeps2 ctx st (evalExpr ctx x env st)" and sub: "keeps2 ctx st (execStmt ctx x env st)" if "jsz x < n" for x env st
    using that by blast+
  have ss: "keeps2 ctx st (execStmts ctx ss env st)" if "jszs ss < n" for ss env st
    using that jsz_member [of _ ss] by (intro execStmts_keeps sub) (meson le_less_trans less_trans)
  show ?case
  proof (intro conjI allI impI, goal_cases)
    case (1 e env st)
    show ?case by (rule evalExpr_keeps) (simp_all add: 1 ex ss)
  next
    case (2 s env st)
    show ?case by (rule execStmt_keeps) (simp_all add: 2 ex sub ss)
  qed
qed

lemma execStmts_discipline: "keeps2 ctx st (execStmts ctx ss env st)"
  using interpreter_keeps by (intro execStmts_keeps) blast

text \<open>The slots of a configuration: a parameter or the result of a function, or a field of a record shape.\<close>

definition slotDeclared :: "IntSlotConfig \<Rightarrow> string \<Rightarrow> IntClass \<Rightarrow> bool" where
  "slotDeclared cf p c =
     ((\<exists>f sl i. jm_get (fns cf) f = Some sl \<and> nthOpt (params sl) i = Some c \<and>
         p = (case nthOpt (paramPaths sl) i of Some q \<Rightarrow> q | None \<Rightarrow> [])) \<or>
      (\<exists>f sl. jm_get (fns cf) f = Some sl \<and> ret sl = Some c \<and> p = (case retPath sl of Some q \<Rightarrow> q | None \<Rightarrow> [])) \<or>
      (\<exists>shp slots f sl. jm_get (records cf) shp = Some slots \<and> (f, sl) \<in> set slots \<and> c = slotCls sl \<and> p \<in> set (paths sl)))"

lemma analyze_declared:
  assumes "list_all (\<lambda>w. slotDeclared (cfg ctx) (path w) (cls w)) vs"
  shows "list_all (\<lambda>w. slotDeclared (cfg ctx) (path w) (cls w)) (analyze ctx fn vs)"
proof -
  define slots where "slots = jm_get (fns (cfg ctx)) (sfld fn ''name'')"
  define rs where "rs = (case slots of None \<Rightarrow> None | Some sl \<Rightarrow> (case ret sl of None \<Rightarrow> None
      | Some c \<Rightarrow> Some (c, case retPath sl of Some p \<Rightarrow> p | None \<Rightarrow> [])))"
  let ?c = "ctx\<lparr>retSlot := rs\<rparr>" and ?st = "\<lparr>frames = [], collect = True, verdicts = vs\<rparr>"
  obtain r env st where run: "execStmts ?c (arrOf (fld fn ''body'')) (seedParams ?c fn slots) ?st = (r, env, st)"
    using prod_cases3 by blast
  then have "keeps ?c ?st st" using execStmts_discipline [of ?c ?st] by (metis keeps2_simps)
  then obtain ws where ws: "verdicts st = vs @ ws" "list_all (\<lambda>w. declaredAt ?c (path w) (cls w)) ws"
    by (auto simp: keeps_def)
  have "\<exists>sl. slots = Some sl \<and> ret sl = Some c \<and> p = (case retPath sl of Some q \<Rightarrow> q | None \<Rightarrow> [])" if "rs = Some (c, p)" for c p
    using that by (auto simp: rs_def split: option.splits)
  moreover have "cfg ?c = cfg ctx" "retSlot ?c = rs" by simp_all
  ultimately have "declaredAt ?c p c \<Longrightarrow> slotDeclared (cfg ctx) p c" for p c
    unfolding declaredAt_def slotDeclared_def slots_def by metis
  then have "list_all (\<lambda>w. slotDeclared (cfg ctx) (path w) (cls w)) ws" using ws(2) by (auto simp: list_all_iff)
  moreover have "analyze ctx fn vs = verdicts st"
    using run unfolding analyze_def Let_def rs_def slots_def by simp
  ultimately show ?thesis using assms ws(1) by simp
qed

lemma check_declared: "list_all (\<lambda>w. slotDeclared c (path w) (cls w)) (checkLibraryIntegerSlots pow m c)"
proof -
  have "list_all (\<lambda>w. slotDeclared c (path w) (cls w)) (foldl (\<lambda>vs fn. analyze (ctxOf fn) fn vs) vs fs)"
    if "\<And>fn. cfg (ctxOf fn) = c" "list_all (\<lambda>w. slotDeclared c (path w) (cls w)) vs" for ctxOf vs fs
    using that(2)
  proof (induction fs arbitrary: vs)
    case (Cons fn fs)
    then show ?case using analyze_declared [of "ctxOf fn" vs fn] that(1) by simp
  qed simp
  then show ?thesis by (simp add: checkLibraryIntegerSlots_def Let_def)
qed

text \<open>C13. The interpreter keeps its books: whatever expression or statement list it runs on, the jump
  frames come back with the same kinds and labels in the same order and the recording flag as it
  was; verdicts are only appended, none while the flag is off, so the passes that search a loop's
  fixed point report nothing. And every verdict of the whole check is about a slot the
  configuration declares, with that slot's class.\<close>

theorem interpreter_discipline:
  "keeps ctx st (snd (snd (evalExpr ctx e env st))) \<and> keeps ctx st (snd (snd (execStmts ctx ss env st))) \<and>
   list_all (\<lambda>w. slotDeclared c (path w) (cls w)) (checkLibraryIntegerSlots pow m c)"
  using interpreter_keeps execStmts_discipline check_declared by (auto simp: keeps2_def)

end
