(* ===== verification/MayThrow.thy ===== *)
theory MayThrow
  imports Json
begin

text \<open>
  \<^verbatim>\<open>backend/c/may-throw.ts\<close>: the whole-module analysis that tells the C and LLVM emitters where a pending
  exception has to be tested. One walk per function collects whether it can throw by itself, whom it
  calls and whether it calls a closure value; a loop then closes these facts over the call graph.
  The tables of throwing operations are those of \<^verbatim>\<open>ir/ir.ts\<close>. \<open>None\<close> stands for a walk that does
  not return: the search along a class's bases runs forever on a cyclic hierarchy.
\<close>

section \<open>Throwing operations\<close>

definition BIGINT_MAY_THROW :: "string list" where
  "BIGINT_MAY_THROW = [''bigint.fromString'', ''bigint.fromNumber'', ''bigint.fromBool'', ''bigint.parse'', ''bigint.fromF64'', ''bigint.toString'',
     ''bigint.toNumber'', ''bigint.toF64'', ''bigint.inspect'', ''bigint.truthy'', ''bigint.radix'', ''bigint.add'', ''bigint.sub'',
     ''bigint.mul'', ''bigint.div'', ''bigint.rem'', ''bigint.mod'', ''bigint.pow'', ''bigint.and'', ''bigint.or'', ''bigint.xor'',
     ''bigint.shl'', ''bigint.shr'', ''bigint.neg'', ''bigint.not'', ''bigint.cmp'', ''bigint.cmpNumber'', ''bigint.eq'',
     ''bigint.eqString'', ''bigint.asIntN'', ''bigint.asUintN'', ''bigint.bufferRead'', ''bigint.bufferWrite'',
     ''bigint.dataViewGet'', ''bigint.dataViewSet'']"

definition THROWING_COERCION_FNS :: "string list" where
  "THROWING_COERCION_FNS = [''dyn.toStringCoerce'', ''dyn.stringConstructor'', ''dyn.toNumberCoerce'', ''dyn.compare'']"

definition SQLITE_MAY_THROW_LIB_FNS :: "string list" where
  "SQLITE_MAY_THROW_LIB_FNS = [''sqlite.open'', ''sqlite.exec'', ''sqlite.dbRun'', ''sqlite.query'', ''sqlite.prepare'', ''sqlite.serialize'',
     ''sqlite.loadExtension'', ''sqlite.all'', ''sqlite.get'', ''sqlite.values'', ''sqlite.stmtRun'']"

definition MAY_THROW_LIB_FNS :: "string list" where
  "MAY_THROW_LIB_FNS = [''process.exit'', ''process.exitCodeSet'', ''process.setExitCode''] @
     BIGINT_MAY_THROW @
     [''json.stringifyReplacer'', ''bigint.parse'', ''bigint.fromF64'', ''bigint.div'', ''bigint.mod'', ''bigint.pow'',
     ''bigint.shl'', ''bigint.shr'', ''bigint.toString'', ''bigint.asUintN'', ''bigint.asIntN'', ''bigint.bufferRead'',
     ''bigint.bufferWrite'', ''bigint.dataViewGet'', ''bigint.dataViewSet'', ''fetch.responseNew'', ''fetch.abortTimeout'',
     ''fetch.abortAny'', ''fetch.streamNew'', ''fetch.streamFrom'', ''num.toFixed'', ''num.toPrecision'', ''num.toRadixString'',
     ''insp.jsonDyn'', ''crypto.timingSafeEqual'', ''dc.publish'', ''dc.subscribe'', ''dc.unsubscribe'', ''dc.chanSubscribe'',
     ''dc.chanUnsubscribe'', ''dc.tcSubscribe'', ''dc.tcUnsubscribe'', ''dc.tcTraceSync'', ''dc.tcTraceCallback'',
     ''dc.tcTracePromise'', ''process.onUnhandledRejection'', ''process.onRejectionHandled'', ''process.onUncaughtException'',
     ''async.awaitDyn'', ''als.run'', ''als.exitRun'', ''dc.chanBindStore'', ''dc.chanRunStores'', ''http.resWriteHeadDyn'',
     ''http.serverMaxHeaderSizeSet'', ''http.resWriteContinue'', ''http.resWriteProcessing'', ''http.resWriteEarlyHints'',
     ''http.validateHeaderName'', ''http.validateHeaderValue'', ''http.serverTimeoutGet'', ''http.serverTimeoutOptionSet'',
     ''net.sockSetEncoding'', ''http.reqSetEncoding'', ''fs.readFileSyncBuf'', ''fs.readFileSyncDyn'', ''tls.pemDyn'',
     ''tls.createServerDyn'', ''tls.createSecureContextDyn'', ''tls.caCertsChk'', ''tls.createServerDynCb'',
     ''https.createServerDyn'', ''https.createServerDynCb'', ''http2.createSecureServerDyn'', ''http2.createSecureServerDynCb'',
     ''tls.connect'', ''tls.connectCb'', ''tlsca.get'', ''tlsca.set'', ''emitter.emit'', ''emitter.emitFlex'', ''emitter.emitError'',
     ''emitter.on'', ''emitter.off'', ''emitter.checkListener'', ''emitter.onDyn'', ''emitter.onFlex'', ''emitter.offDyn'',
     ''emitter.onData'', ''emitter.onDataDyn'', ''emitter.emitData'', ''readable.nextChunk'', ''readable.nextChunkDyn'',
     ''net.sockWriteDyn'', ''net.sockEndDyn'', ''http.resWriteDyn'', ''http.resEndDyn'', ''http.resAddTrailers'',
     ''http.resFlushHeaders'', ''http.resUncork'', ''http.resWriteHead'', ''http.resWriteHeadN'', ''http.resWriteHeadPairs'',
     ''http.resWrite'', ''http.resWriteBytes'', ''http.resEnd'', ''http.resEndStr'', ''http.resEndBytes'', ''http.clientWriteDyn'',
     ''http.clientEndDyn'', ''http.clientAddTrailers'', ''http.clientFlushHeaders'', ''http.clientUncork'', ''http.clientWrite'',
     ''http.clientWriteBytes'', ''http.clientEnd'', ''http.clientEndStr'', ''http.clientEndBytes'', ''http.requestUrl'',
     ''http.requestUrlCb'', ''http2.connect'', ''http2.connectCb'', ''http2.sessionRequest'', ''http2.streamSetEncoding'',
     ''http2.streamRespond'', ''http2.streamWrite'', ''http2.streamWriteBytes'', ''http2.streamEnd'', ''http2.streamEndStr'',
     ''http2.streamEndBytes'', ''emitter.removeAll'', ''stream.finished'', ''stream.finishedDyn'', ''stream.pipeline'',
     ''stream.pipelineDyn'', ''sp.finished'', ''sp.pipeline'', ''sc.text'', ''sc.json'', ''sc.buffer'', ''readable.newDyn'',
     ''writable.newDyn'', ''duplex.newDyn'', ''transform.newDyn'', ''passthrough.newDyn'', ''readable.initDyn'',
     ''writable.initDyn'', ''duplex.initDyn'', ''transform.initDyn'', ''passthrough.initDyn'', ''readable.push'',
     ''readable.pushStr'', ''readable.pushStrEnc'', ''readable.pushNull'', ''readable.pushU'', ''readable.pushDyn'',
     ''readable.unshift'', ''readable.unshiftStr'', ''readable.read'', ''readable.resume'', ''readable.pipe'', ''readable.unpipe'',
     ''writable.write'', ''writable.writeStr'', ''writable.writeU'', ''writable.writeDyn'', ''writable.end'', ''writable.uncork'',
     ''stream.destroy'', ''stream.destroyErr'', ''stream.iteratorClose'', ''emitter.setMax'', ''emitter.setDefaultMax'',
     ''http.requestConn'', ''http.requestConnCb'', ''process.kill'', ''process.killNum'', ''process.setExitCode'',
     ''process.cpuPrevValidate'', ''process.stdinSetRawMode'', ''http2.streamUndefCall'', ''http.reqH2StreamOrThrow'',
     ''global.undefRead'', ''error.nodeThrow'', ''error.captureStackTrace'', ''error.captureStackTraceExclude'', ''error.stack''] @
     THROWING_COERCION_FNS @
     [''dyn.objectTag'', ''child.kill'', ''net.connectLookup'', ''cp.execSync'', ''cp.execCapture'', ''http.request'',
     ''http.requestCb'', ''http.requestConn'', ''http.requestConnCb'', ''http.agentNew'', ''http.requestAgent'',
     ''http.requestAgentCb'', ''https.requestAgent'', ''https.requestAgentCb'', ''https.request'', ''https.requestCb'',
     ''https.requestUrl'', ''https.requestUrlCb'', ''https.requestFn'', ''https.requestFnCb'', ''rl.question'', ''island.eval'',
     ''island.import'', ''island.castFail'', ''json.parse'', ''util.parseArgs'', ''str.decodeUriComponent'', ''str.decodeUri'',
     ''str.normalize'', ''str.atob'', ''str.btoa'', ''str.b64Missing'', ''timers.queueMicrotaskDyn'', ''dyn.structuredClone'',
     ''dyn.cloneMissing'', ''dyn.cloneTransferFail'', ''dyn.objKeys'', ''dyn.objectRestCheck'', ''dyn.objectAssignSourceCheck'',
     ''dyn.hasOwn'', ''dyn.hasKey'', ''dyn.getPrototypeOf'', ''dyn.assign'', ''dyn.packPushSpread'', ''dyn.packPushSpreadIter'',
     ''dyn.assignAll'', ''dyn.objValues'', ''dyn.objEntries'', ''error.domClone'', ''regex.new'', ''dyn.keySet'',
     ''dyn.keySetComputed'', ''dyn.iterPack'', ''dyn.toString'', ''dyn.defineProps'', ''dyn.proxyNew'', ''process.chdir'',
     ''fs.realpathSync'', ''fs.readFileSync'', ''fs.writeFileSync'', ''fs.appendFileSync'', ''fs.appendFileModeSync'',
     ''fs.mkdirSync'', ''fs.rmSync'', ''fs.rmdirSync'', ''fs.readdirSync'', ''fs.readdirTypesSync'', ''url.new''] @
     SQLITE_MAY_THROW_LIB_FNS @
     [''url.newBase'', ''url.fileURLToPathUrl'', ''url.fileURLToPathStr'', ''url.pathToFileURLWin32'', ''sp.fromPairs'',
     ''fs.statSync'', ''crypto.randomBytesToString'', ''crypto.randomBytes'', ''crypto.hashDigestStr'', ''crypto.hashDigestBytes'',
     ''crypto.hashNew'', ''crypto.hmacNewStr'', ''crypto.hmacNewBytes'', ''crypto.hashUpdateStr'', ''crypto.hashUpdateBytes'',
     ''crypto.hmacUpdateStr'', ''crypto.hmacUpdateBytes'', ''crypto.hashCopy'', ''crypto.hashDigestString'',
     ''crypto.hashDigestBuffer'', ''crypto.hmacDigestString'', ''crypto.hmacDigestBuffer'', ''crypto.timingSafeEqual'',
     ''crypto.randomFill'', ''crypto.randomFillRest'', ''crypto.randomInt'', ''crypto.pbkdf2'', ''crypto.randomBytesCb'',
     ''crypto.pbkdf2Cb'', ''buffer.concat'', ''buffer.concatLen'', ''buffer.fromDyn'', ''buffer.compareChk'', ''bytes.equalsChk'',
     ''bytes.compareChk'', ''buffer.newStringFail'', ''fs.toUnixTimestamp'', ''fs.existsChk'', ''fs.mkdtempChk'',
     ''fs.mkdtempSyncChk'', ''fs.readFileChk'', ''fs.opendirChk'', ''fs.watchFileChk'', ''fs.lchmodChk'', ''fs.lchmodSyncChk'',
     ''fsp.lchmodChk'', ''fs.readChk'', ''fs.streamOptsChk'', ''net.connectAttempt'', ''net.connectOptsChk'',
     ''net.setAutoSelTimeout'', ''error.argTypeThrow'', ''error.propTypeThrow'', ''emitter.setMaxChk'', ''emitter.setDefaultMaxChk'',
     ''fs.readFileSyncBytes'', ''fs.writeFileSyncBytes'', ''zlib.inflateSync'', ''zlib.inflateRawSync'', ''zlib.gunzipSync'',
     ''zlib.unzipSync'', ''zlib.crc32'', ''date.toISOString'', ''date.toISOStringValue'', ''fs.mkdirRecursiveSync'',
     ''fs.rmOptsSync'', ''fs.rmRetrySync'', ''fs.mkdtempSync'', ''fs.accessSync'', ''fs.readFdSync'', ''fs.readFdSyncBytes'',
     ''dgram.bind'', ''dgram.bindCb'', ''dgram.connect'', ''dgram.connectCb'', ''dgram.sendStr'', ''dgram.sendBytes'',
     ''dgram.sendChk'', ''dgram.address'', ''dgram.close'', ''dgram.closeCb'', ''assert.ok'', ''assert.eqF64'', ''assert.eqBigInt'',
     ''assert.eqStr'', ''assert.eqBool'', ''assert.eqSym'', ''assert.eqDyn'', ''assert.looseResult'', ''assert.deepResult'',
     ''assert.match'', ''assert.refEqBytes'', ''assert.refEqFn'', ''assert.throwsNone'', ''assert.throwsMismatch'',
     ''assert.throwsRegex'', ''assert.shapeEnd'', ''assert.unwantedRejection'', ''assert.expectsErrDyn'', ''assert.ifErrorErr'',
     ''assert.ifErrorF64'', ''assert.ifErrorStr'', ''assert.ifErrorBool'', ''assert.ifErrorDyn'', ''insp.jsval'', ''fs.unlinkSync'',
     ''fs.chmodSync'', ''fs.chownSync'', ''fs.copyFileSync'', ''fs.renameSync'', ''fs.lstatSync'', ''fs.fstatSync'',
     ''fs.fchmodSync'', ''fs.fsyncSync'', ''fs.linkSync'', ''fs.writeFileModeSync'', ''fs.writeFileExclusiveModeSync'',
     ''fs.mkdirModeSync'', ''fs.mkdirRecursiveModeSync'', ''fs.openSync'', ''fs.openNumericSync'', ''fs.readSync'', ''fs.writeSync'',
     ''fs.writeStrSync'', ''fs.closeSync'', ''fs.watch'', ''fs.watchCb'', ''crypto.x509Fingerprint'', ''crypto.x509FingerprintStr'',
     ''crypto.x509ValidFrom'', ''crypto.x509ValidFromStr'', ''crypto.x509ValidTo'', ''crypto.x509ValidToStr'']"

definition MAY_THROW_ARR_METHODS :: "string list" where
  "MAY_THROW_ARR_METHODS = [''with'', ''withUndefined'']"

definition MAY_THROW_STR_METHODS :: "string list" where
  "MAY_THROW_STR_METHODS = [''at'']"

definition MAY_THROW_BYTES_METHODS :: "string list" where
  "MAY_THROW_BYTES_METHODS = [''toStringVar'', ''with'', ''setFrom'', ''readNum'', ''writeNum'', ''readNumVar'', ''writeNumVar'', ''compareBuf'', ''fill'',
     ''fillNum'', ''fillStr'', ''copy'', ''swap16'', ''swap32'', ''swap64'', ''writeStr'', ''dataViewNew'', ''dvGetUint8'',
     ''dvGetInt8'', ''dvGetUint16'', ''dvGetInt16'', ''dvGetUint32'', ''dvGetInt32'', ''dvGetFloat32'', ''dvGetFloat64'',
     ''dvGetBigUint64Number'', ''dvGetBigInt64Number'', ''dvSetUint8'', ''dvSetInt8'', ''dvSetUint16'', ''dvSetInt16'',
     ''dvSetUint32'', ''dvSetInt32'', ''dvSetFloat32'', ''dvSetFloat64'']"

definition ERROR_TOSTRING_DISPATCH_FN :: string where
  "ERROR_TOSTRING_DISPATCH_FN = ''%error.toString.dispatch''"

section \<open>What the walk reads of the module\<close>

record ThrowCtx =
  tcClasses :: "json list"
  tcRecords :: "json list"
  tcErrorDispatch :: bool
  tcAsyncFns :: "string list"
  tcGenFns :: "string list"
  tcCallbackImports :: "string list"
  tcRetained :: bool
  tcMethodImpls :: "(string, string list) jsmap"
  tcTdzIds :: "string list"

definition isFfiCallbackParam :: "json \<Rightarrow> bool" where
  "isFfiCallbackParam p = (isDict p \<and> hasKey ''callback'' p \<and> hasKey ''id'' (fld p ''callback''))"

definition retainedImports :: "json list \<Rightarrow> bool" where
  "retainedImports imports = list_ex (\<lambda>entry. list_ex (\<lambda>p. isFfiCallbackParam p \<and> fld (fld p ''callback'') ''lifetime'' = JStr ''retained'')
     (arrOf (fld entry ''params''))) imports"

definition methodName :: "json \<Rightarrow> string \<Rightarrow> string" where
  "methodName k m = ''%'' @ sfld k ''name'' @ ''.'' @ m"

definition addImpl :: "json \<Rightarrow> (string, string list) jsmap \<Rightarrow> json \<Rightarrow> (string, string list) jsmap" where
  "addImpl k impls m = (let old = (case jm_get impls (strOf m) of Some xs \<Rightarrow> xs | None \<Rightarrow> []) in
     jm_set impls (strOf m) (old @ [methodName k (strOf m)]))"

definition methodImpls :: "json list \<Rightarrow> (string, string list) jsmap" where
  "methodImpls classes = foldl (\<lambda>impls k. foldl (addImpl k) impls (arrOf (fld k ''methods''))) [] classes"

definition functionsWith :: "string \<Rightarrow> json \<Rightarrow> string list" where
  "functionsWith flag md = foldl setAdd [] (map (\<lambda>f. sfld f ''name'') (filter (\<lambda>f. truthy (fld f flag)) (arrOf (fld md ''functions''))))"

definition throwCtx :: "json \<Rightarrow> ThrowCtx" where
  "throwCtx md = \<lparr>tcClasses = arrOf (fld md ''classes''), tcRecords = arrOf (fld md ''records''),
     tcErrorDispatch = list_ex (\<lambda>f. fld f ''name'' = JStr ERROR_TOSTRING_DISPATCH_FN) (arrOf (fld md ''functions'')),
     tcAsyncFns = functionsWith ''async'' md, tcGenFns = functionsWith ''generator'' md,
     tcCallbackImports = foldl setAdd [] (map (\<lambda>e. sfld e ''name'')
       (filter (\<lambda>e. list_ex isFfiCallbackParam (arrOf (fld e ''params''))) (arrOf (fld md ''ffiImports'')))),
     tcRetained = retainedImports (arrOf (fld md ''ffiImports'')), tcMethodImpls = methodImpls (arrOf (fld md ''classes'')), tcTdzIds = []\<rparr>"

definition tdzIds :: "json \<Rightarrow> string list" where
  "tdzIds fn = foldl setAdd [] (map (\<lambda>l. sfld l ''id'') (filter (\<lambda>l. truthy (fld l ''tdz'')) (arrOf (fld fn ''locals''))))"

section \<open>One node\<close>

definition typeKind :: "json \<Rightarrow> string" where
  "typeKind e = kindOf (fld e ''type'')"

definition keySetThrows :: "ThrowCtx \<Rightarrow> json \<Rightarrow> bool" where
  "keySetThrows ctx node = (fld node ''overflowOnly'' \<noteq> JBool True \<and>
     (case find (\<lambda>r. fld r ''id'' = fld node ''shapeId'') (tcRecords ctx) of None \<Rightarrow> False
      | Some shape \<Rightarrow> \<not> truthy (fld shape ''indexValue'') \<or> kindOf (fld shape ''indexValue'') = ''dyn'' \<and> arrOf (fld shape ''fields'') \<noteq> []))"

definition ALWAYS_THROWS :: "string list" where
  "ALWAYS_THROWS = [''throw'', ''rethrow'', ''runtimeFence'', ''dynCheck'', ''caughtCheck'', ''dynCall'', ''dynInvoke'', ''dynKeyGet'',
     ''dynDestrCheck'', ''dynIterN'', ''awaitExpr'', ''awaitUnionExpr'', ''yieldExpr'', ''genResume'', ''jsOp'', ''jsExit'', ''jsMarshal'',
     ''jsBridgePromise'', ''arraySetLength'']"

text \<open>The cases of the switch that set \<^verbatim>\<open>throws\<close>.\<close>

definition seeds :: "ThrowCtx \<Rightarrow> json \<Rightarrow> bool" where
  "seeds ctx node = (let k = kindOf node in
     k \<in> set ALWAYS_THROWS \<or>
     k = ''varRef'' \<and> sfld node ''localId'' \<in> set (tcTdzIds ctx) \<or>
     k = ''fieldIncDec'' \<and> fld node ''fieldDyn'' = JBool True \<or>
     k = ''intrinsic'' \<and> fld node ''name'' = JStr ''module.await'' \<or>
     k = ''recordKeySet'' \<and> keySetThrows ctx node \<or>
     k = ''jsonStringify'' \<and> typeKind (fld node ''value'') \<in> {''dyn'', ''record'', ''array'', ''union''} \<or>
     k = ''libCall'' \<and> sfld node ''fn'' \<in> set MAY_THROW_LIB_FNS \<or>
     k = ''ffiCall'' \<and> (sfld node ''import'' \<in> set (tcCallbackImports ctx) \<or> tcRetained ctx) \<or>
     k = ''bytesNew'' \<and> typeKind (fld node ''source'') = ''f64'' \<or>
     k = ''bytesIntrinsic'' \<and> sfld node ''method'' \<in> set MAY_THROW_BYTES_METHODS \<or>
     k = ''strIntrinsic'' \<and> sfld node ''method'' \<in> set MAY_THROW_STR_METHODS \<or>
     k = ''arrIntrinsic'' \<and> sfld node ''method'' \<in> set MAY_THROW_ARR_METHODS \<or>
     k = ''regexIntrinsic'' \<and> sfld node ''method'' \<in> {''replaceAll'', ''split'', ''matchAll'', ''matchAllInto''})"

definition classNamed :: "json list \<Rightarrow> string \<Rightarrow> json option" where
  "classNamed classes n = find (\<lambda>k. fld k ''name'' = JStr n) classes"

text \<open>The loop along the bases of a class.\<close>

partial_function (option) descendsFrom :: "json list \<Rightarrow> string \<Rightarrow> json option \<Rightarrow> bool option" where
  "descendsFrom classes cls c = (case c of None \<Rightarrow> Some False
     | Some k \<Rightarrow> if sfld k ''name'' = cls then Some True
         else if fld k ''base'' = JUndef then Some False
         else descendsFrom classes cls (classNamed classes (sfld k ''base'')))"

lemma descendsFrom_code [code]:
  "descendsFrom classes cls None = Some False"
  "descendsFrom classes cls (Some k) = (if sfld k ''name'' = cls then Some True
     else if fld k ''base'' = JUndef then Some False else descendsFrom classes cls (classNamed classes (sfld k ''base'')))"
  by (simp_all add: descendsFrom.simps)

definition descends :: "json list \<Rightarrow> string \<Rightarrow> string \<Rightarrow> bool option" where
  "descends classes cls name = descendsFrom classes cls (classNamed classes name)"

fun foldO :: "('s \<Rightarrow> 'a \<Rightarrow> 's option) \<Rightarrow> 's \<Rightarrow> 'a list \<Rightarrow> 's option" where
  "foldO f s [] = Some s"
| "foldO f s (x # xs) = (case f s x of None \<Rightarrow> None | Some t \<Rightarrow> foldO f t xs)"

lemma foldO_cong [fundef_cong]:
  "s = s' \<Longrightarrow> xs = ys \<Longrightarrow> (\<And>t x. x \<in> set ys \<Longrightarrow> f t x = g t x) \<Longrightarrow> foldO f s xs = foldO g s' ys"
  by (induction ys arbitrary: s s' xs) (auto split: option.split)

definition ctorName :: "string \<Rightarrow> string" where
  "ctorName n = ''%'' @ n @ ''.constructor''"

definition hierarchyCtor :: "json list \<Rightarrow> string \<Rightarrow> string list \<Rightarrow> json \<Rightarrow> string list option" where
  "hierarchyCtor classes cls acc k = (case descends classes cls (sfld k ''name'') of None \<Rightarrow> None
     | Some b \<Rightarrow> Some (if b then acc @ [ctorName (sfld k ''name'')] else acc))"

text \<open>The cases of the switch that push callees.\<close>

definition calleesOf :: "ThrowCtx \<Rightarrow> json \<Rightarrow> string list option" where
  "calleesOf ctx node = (let k = kindOf node in
     if k = ''toString'' then Some (if tcErrorDispatch ctx \<and> typeKind (fld node ''operand'') = ''dyn'' then [ERROR_TOSTRING_DISPATCH_FN] else [])
     else if k = ''call'' then (let callee = sfld node ''callee'' in
       Some (if callee \<notin> set (tcAsyncFns ctx) \<and> callee \<notin> set (tcGenFns ctx) then [callee] else []))
     else if k = ''new'' then Some [ctorName (sfld node ''className'')]
     else if k = ''newValue'' then
       (case fld (fld (fld node ''callee'') ''type'') ''className'' of JUndef \<Rightarrow> Some []
        | cls \<Rightarrow> foldO (hierarchyCtor (tcClasses ctx) (strOf cls)) [] (tcClasses ctx))
     else if k = ''virtualCall'' then Some (case jm_get (tcMethodImpls ctx) (sfld node ''method'') of Some impls \<Rightarrow> impls | None \<Rightarrow> [])
     else Some [])"

record ThrowFacts =
  tfThrows :: bool
  tfCallees :: "string list"
  tfCallsValue :: bool

record ThrowWalk =
  twFacts :: ThrowFacts
  twTargets :: "string list"
  twAdapter :: bool

definition mintsAdapter :: "json \<Rightarrow> bool" where
  "mintsAdapter node = (kindOf node \<in> {''dynCheck'', ''caughtCheck''} \<and> typeKind node = ''func'')"

definition noteThrow :: "ThrowCtx \<Rightarrow> ThrowWalk \<Rightarrow> json \<Rightarrow> ThrowWalk option" where
  "noteThrow ctx w node = (case calleesOf ctx node of None \<Rightarrow> None
     | Some cs \<Rightarrow> let f = twFacts w in Some (w\<lparr>
         twFacts := f\<lparr>tfThrows := tfThrows f \<or> seeds ctx node, tfCallees := tfCallees f @ cs,
           tfCallsValue := tfCallsValue f \<or> kindOf node = ''callValue''\<rparr>,
         twTargets := (if kindOf node = ''closure'' then setAdd (twTargets w) (sfld node ''fnName'') else twTargets w),
         twAdapter := twAdapter w \<or> mintsAdapter node\<rparr>))"

section \<open>The walk\<close>

definition codeChildren :: "json \<Rightarrow> json list" where
  "codeChildren v = map snd (filter (\<lambda>kv. fst kv \<noteq> ''loc'' \<and> fst kv \<noteq> ''type'') (objEntries v))"

lemma jsz_codeChildren: "x \<in> set (codeChildren v) \<Longrightarrow> jsz x < jsz v"
  using jsz_objEntries_member by (force simp: codeChildren_def)

function visitThrow :: "ThrowCtx \<Rightarrow> ThrowWalk \<Rightarrow> json \<Rightarrow> ThrowWalk option" where
  "visitThrow ctx w v = (case v of
     JArr xs \<Rightarrow> foldO (visitThrow ctx) w xs
   | JObj kvs \<Rightarrow> (case noteThrow ctx w v of None \<Rightarrow> None | Some w1 \<Rightarrow> foldO (visitThrow ctx) w1 (codeChildren v))
   | _ \<Rightarrow> Some w)"
  by pat_completeness auto
termination
proof (relation "measure (\<lambda>(_, _, v). jsz v)")
  fix ctx w v xs and t :: ThrowWalk and x assume "v = JArr xs" "x \<in> set xs"
  then show "((ctx, t, x), ctx, w, v) \<in> measure (\<lambda>(_, _, v). jsz v)" using jsz_arrOf_member [of x v] by simp
next
  fix ctx w v kvs w1 and t :: ThrowWalk and x assume "x \<in> set (codeChildren v)"
  then show "((ctx, t, x), ctx, w, v) \<in> measure (\<lambda>(_, _, v). jsz v)" using jsz_codeChildren [of x v] by simp
qed simp

declare visitThrow.simps [simp del]

record ThrowState =
  tsFacts :: "(string, ThrowFacts) jsmap"
  tsTargets :: "string list"
  tsAdapter :: bool

definition noFacts :: ThrowFacts where
  "noFacts = \<lparr>tfThrows = False, tfCallees = [], tfCallsValue = False\<rparr>"

definition functionFacts :: "ThrowCtx \<Rightarrow> ThrowState \<Rightarrow> json \<Rightarrow> ThrowState option" where
  "functionFacts ctx st fn =
     (case visitThrow (ctx\<lparr>tcTdzIds := tdzIds fn\<rparr>) \<lparr>twFacts = noFacts, twTargets = tsTargets st, twAdapter = tsAdapter st\<rparr> (fld fn ''body'') of
        None \<Rightarrow> None
      | Some w \<Rightarrow> Some \<lparr>tsFacts = jm_set (tsFacts st) (sfld fn ''name'') (twFacts w), tsTargets = twTargets w, tsAdapter = twAdapter w\<rparr>)"

section \<open>The fixpoint\<close>

definition escaping :: "ThrowCtx \<Rightarrow> string list \<Rightarrow> string list \<Rightarrow> bool" where
  "escaping ctx targets may = list_ex (\<lambda>t. t \<in> set may \<and> t \<notin> set (tcAsyncFns ctx) \<and> t \<notin> set (tcGenFns ctx)) targets"

definition throwStep :: "bool \<Rightarrow> string list \<Rightarrow> string \<times> ThrowFacts \<Rightarrow> string list" where
  "throwStep indirect may nf = (case nf of (name, f) \<Rightarrow>
     if name \<in> set may then may
     else if tfCallsValue f \<and> indirect \<or> list_ex (\<lambda>c. c \<in> set may) (tfCallees f) then may @ [name] else may)"

definition throwPass :: "(string, ThrowFacts) jsmap \<Rightarrow> bool \<Rightarrow> string list \<Rightarrow> string list" where
  "throwPass facts indirect may = foldl (throwStep indirect) may facts"

lemma throwStep_grows: "set may \<subseteq> set (throwStep indirect may nf) \<and> set (throwStep indirect may nf) \<subseteq> set may \<union> {fst nf}"
  by (cases nf) (auto simp: throwStep_def)

lemma throwPass_grows: "set may \<subseteq> set (throwPass facts indirect may) \<and> set (throwPass facts indirect may) \<subseteq> set may \<union> set (jm_keys facts)"
proof (induction facts arbitrary: may)
  case (Cons nf facts)
  show ?case using Cons [of "throwStep indirect may nf"] throwStep_grows [of may indirect nf]
    by (auto simp: throwPass_def jm_keys_def)
qed (simp add: throwPass_def)

function throwLoop :: "ThrowCtx \<Rightarrow> (string, ThrowFacts) jsmap \<Rightarrow> string list \<Rightarrow> string list \<times> bool \<Rightarrow> string list \<times> bool" where
  "throwLoop ctx facts targets mi = (case mi of (may, indirect) \<Rightarrow>
     let may1 = throwPass facts indirect may; indirect1 = (indirect \<or> escaping ctx targets may1) in
     if set may1 = set may \<and> indirect1 = indirect then (may1, indirect1) else throwLoop ctx facts targets (may1, indirect1))"
  by pat_completeness auto
termination
proof (relation "measure (\<lambda>(ctx, facts, targets, mi). card (set (jm_keys facts) - set (fst mi)) + (if snd mi then 0 else 1))")
  fix ctx facts targets mi may indirect may1 indirect1
  assume mi: "(may, indirect) = mi" and may1: "may1 = throwPass facts indirect may" and ind: "indirect1 = (indirect \<or> escaping ctx targets may1)"
    and c: "\<not> (set may1 = set may \<and> indirect1 = indirect)"
  have sub: "set may \<subseteq> set may1" "set may1 \<subseteq> set may \<union> set (jm_keys facts)" using throwPass_grows [of may facts indirect] may1 by auto
  have le: "card (set (jm_keys facts) - set may1) \<le> card (set (jm_keys facts) - set may)" using sub by (intro card_mono) auto
  have less: "card (set (jm_keys facts) - set may1) < card (set (jm_keys facts) - set may)" if "set may1 \<noteq> set may"
    using sub that by (intro psubset_card_mono) auto
  show "((ctx, facts, targets, may1, indirect1), ctx, facts, targets, mi) \<in>
      measure (\<lambda>(ctx, facts, targets, mi). card (set (jm_keys facts) - set (fst mi)) + (if snd mi then 0 else 1))"
  proof (cases "set may1 = set may")
    case True
    then have "\<not> indirect" "indirect1" using c ind by auto
    then show ?thesis using True mi by auto
  next
    case False
    then show ?thesis using less le ind mi by (cases indirect) auto
  qed
qed simp

declare throwLoop.simps [simp del]

definition seeded :: "(string, ThrowFacts) jsmap \<Rightarrow> string list" where
  "seeded facts = map fst (filter (\<lambda>nf. tfThrows (snd nf)) facts)"

definition computeMayThrow :: "json \<Rightarrow> (string list \<times> bool) option" where
  "computeMayThrow md = (let ctx = throwCtx md in
     case foldO (functionFacts ctx) \<lparr>tsFacts = [], tsTargets = [], tsAdapter = False\<rparr> (arrOf (fld md ''functions'')) of None \<Rightarrow> None
     | Some st \<Rightarrow> let may = seeded (tsFacts st) in
         Some (throwLoop ctx (tsFacts st) (tsTargets st) (may, tsAdapter st \<or> escaping ctx (tsTargets st) may)))"

end
