(* ===== verification/MayThrowSound.thy ===== *)
theory MayThrowSound
  imports MayThrow
begin

text \<open>
  The may-throw analysis against its comment: a function may throw exactly when one of its own nodes
  throws, when it calls a function that may throw, or when it calls a closure value while a closure
  over a throwing function, or a checked adapter, exists anywhere in the module. The
  specification is a pair of mutually inductive predicates over the nodes of the module; the
  analysis computes exactly their least solution, and returns on every acyclic class hierarchy.
\<close>

section \<open>Specification\<close>

text \<open>The nodes of a body: everything under it except locations and types.\<close>

inductive codeNode :: "json \<Rightarrow> json \<Rightarrow> bool" where
  here: "codeNode (JObj kvs) (JObj kvs)"
| item: "x \<in> set xs \<Longrightarrow> codeNode n x \<Longrightarrow> codeNode n (JArr xs)"
| part: "x \<in> set (codeChildren (JObj kvs)) \<Longrightarrow> codeNode n x \<Longrightarrow> codeNode n (JObj kvs)"

inductive_simps codeNode_simps: "codeNode n (JArr xs)" "codeNode n (JObj kvs)" "codeNode n JUndef" "codeNode n JNull"
  "codeNode n (JBool b)" "codeNode n (JNum x)" "codeNode n (JStr s)"

definition baseRel :: "json list \<Rightarrow> (string \<times> string) set" where
  "baseRel classes = {(n, b). \<exists>k. classNamed classes n = Some k \<and> fld k ''base'' \<noteq> JUndef \<and> b = sfld k ''base''}"

text \<open>The functions a node can enter on the caller's stack.\<close>

definition mayCall :: "json \<Rightarrow> json \<Rightarrow> string \<Rightarrow> bool" where
  "mayCall md n c = (let ctx = throwCtx md; classes = arrOf (fld md ''classes'') in
     kindOf n = ''toString'' \<and> tcErrorDispatch ctx \<and> typeKind (fld n ''operand'') = ''dyn'' \<and> c = ERROR_TOSTRING_DISPATCH_FN \<or>
     kindOf n = ''call'' \<and> c = sfld n ''callee'' \<and> c \<notin> set (tcAsyncFns ctx) \<and> c \<notin> set (tcGenFns ctx) \<or>
     kindOf n = ''new'' \<and> c = ctorName (sfld n ''className'') \<or>
     kindOf n = ''newValue'' \<and> (\<exists>k\<in>set classes. \<exists>super. c = ctorName (sfld k ''name'') \<and>
       fld (fld (fld n ''callee'') ''type'') ''className'' \<noteq> JUndef \<and> super = sfld (fld (fld n ''callee'') ''type'') ''className'' \<and>
       classNamed classes super \<noteq> None \<and> (sfld k ''name'', super) \<in> (baseRel classes)\<^sup>*) \<or>
     kindOf n = ''virtualCall'' \<and> (\<exists>k\<in>set classes. \<exists>m\<in>set (arrOf (fld k ''methods'')).
       strOf m = sfld n ''method'' \<and> c = methodName k (strOf m)))"

text \<open>The function a name stands for: the last one of that name.\<close>

definition fnNamed :: "json list \<Rightarrow> string \<Rightarrow> json option" where
  "fnNamed fns f = find (\<lambda>fn. sfld fn ''name'' = f) (rev fns)"

definition functionsOf :: "json \<Rightarrow> json list" where
  "functionsOf md = arrOf (fld md ''functions'')"

definition throwsItself :: "json \<Rightarrow> json \<Rightarrow> bool" where
  "throwsItself md fn = (\<exists>n. codeNode n (fld fn ''body'') \<and> seeds ((throwCtx md)\<lparr>tcTdzIds := tdzIds fn\<rparr>) n)"

inductive mayThrow :: "json \<Rightarrow> string \<Rightarrow> bool" and indirectThrow :: "json \<Rightarrow> bool" for md where
  own: "fnNamed (functionsOf md) f = Some fn \<Longrightarrow> throwsItself md fn \<Longrightarrow> mayThrow md f"
| callee: "fnNamed (functionsOf md) f = Some fn \<Longrightarrow> codeNode n (fld fn ''body'') \<Longrightarrow> mayCall md n c \<Longrightarrow> mayThrow md c \<Longrightarrow> mayThrow md f"
| val: "fnNamed (functionsOf md) f = Some fn \<Longrightarrow> codeNode n (fld fn ''body'') \<Longrightarrow> kindOf n = ''callValue'' \<Longrightarrow>
    indirectThrow md \<Longrightarrow> mayThrow md f"
| adapter: "fn \<in> set (functionsOf md) \<Longrightarrow> codeNode n (fld fn ''body'') \<Longrightarrow> mintsAdapter n \<Longrightarrow> indirectThrow md"
| clo: "fn \<in> set (functionsOf md) \<Longrightarrow> codeNode n (fld fn ''body'') \<Longrightarrow> kindOf n = ''closure'' \<Longrightarrow> t = sfld n ''fnName'' \<Longrightarrow>
    mayThrow md t \<Longrightarrow> t \<notin> set (tcAsyncFns (throwCtx md)) \<Longrightarrow> t \<notin> set (tcGenFns (throwCtx md)) \<Longrightarrow> indirectThrow md"

section \<open>The class hierarchy\<close>

lemma classNamed_name: "classNamed classes n = Some k \<Longrightarrow> sfld k ''name'' = n"
  by (auto simp: classNamed_def find_Some_iff sfld_def)

lemma finite_baseRel: "finite (baseRel classes)"
proof -
  have "baseRel classes \<subseteq> (\<lambda>k. (sfld k ''name'', sfld k ''base'')) ` set classes"
  proof (rule subrelI)
    fix n b assume "(n, b) \<in> baseRel classes"
    then obtain k where k: "classNamed classes n = Some k" "b = sfld k ''base''" by (auto simp: baseRel_def)
    then have "k \<in> set classes" by (auto simp: classNamed_def find_Some_iff)
    then show "(n, b) \<in> (\<lambda>k. (sfld k ''name'', sfld k ''base'')) ` set classes" using k classNamed_name [OF k(1)] by blast
  qed
  then show ?thesis using finite_surj by blast
qed

text \<open>On an acyclic hierarchy the search along the bases returns, and finds exactly the ancestors.\<close>

lemma descends_exact:
  assumes "acyclic (baseRel classes)"
  shows "descends classes cls name = Some ((name, cls) \<in> (baseRel classes)\<^sup>* \<and> classNamed classes name \<noteq> None \<and> classNamed classes cls \<noteq> None)"
proof -
  have "wf ((baseRel classes)\<inverse>)" using finite_acyclic_wf_converse finite_baseRel assms by blast
  then show ?thesis
  proof (induction name rule: wf_induct_rule)
    case (less name)
    show ?case
    proof (cases "classNamed classes name")
      case None
      then show ?thesis by (simp add: descends_def descendsFrom.simps)
    next
      case (Some k)
      note nm = classNamed_name [OF Some]
      consider "name = cls" | "name \<noteq> cls" "fld k ''base'' = JUndef" | "name \<noteq> cls" "fld k ''base'' \<noteq> JUndef" by blast
      then show ?thesis
      proof cases
        case 1
        then show ?thesis using Some nm by (simp add: descends_def descendsFrom.simps)
      next
        case 2
        then have "(name, cls) \<notin> (baseRel classes)\<^sup>*" using Some by (auto simp: baseRel_def elim: converse_rtranclE)
        then show ?thesis using 2 Some nm by (simp add: descends_def descendsFrom.simps)
      next
        case 3
        let ?b = "sfld k ''base''"
        have b: "(name, x) \<in> baseRel classes \<longleftrightarrow> x = ?b" for x using 3 Some by (auto simp: baseRel_def)
        have "(name, cls) \<in> (baseRel classes)\<^sup>* \<longleftrightarrow> (?b, cls) \<in> (baseRel classes)\<^sup>*"
          using b 3(1) by (metis converse_rtranclE converse_rtrancl_into_rtrancl)
        moreover have "descends classes cls name = descends classes cls ?b"
          using 3 Some nm by (simp add: descends_def descendsFrom.simps [of classes cls "Some k"])
        moreover have "classNamed classes ?b \<noteq> None" if "(?b, cls) \<in> (baseRel classes)\<^sup>*" "classNamed classes cls \<noteq> None"
          using that by (cases rule: converse_rtranclE) (auto simp: baseRel_def)
        ultimately show ?thesis using less [of ?b] b Some by auto
      qed
    qed
  qed
qed

section \<open>Callees of a node\<close>

definition implsOf :: "(string, string list) jsmap \<Rightarrow> string \<Rightarrow> string set" where
  "implsOf impls m = (case jm_get impls m of Some xs \<Rightarrow> set xs | None \<Rightarrow> {})"

lemma implsOf_class:
  "implsOf (foldl (addImpl k) impls ms) m = implsOf impls m \<union> {methodName k m | x. x \<in> set ms \<and> strOf x = m}"
proof (induction ms arbitrary: impls)
  case (Cons x ms)
  have "implsOf (addImpl k impls x) m = implsOf impls m \<union> (if strOf x = m then {methodName k m} else {})"
    by (auto simp: implsOf_def addImpl_def jm_get_set Let_def split: option.split)
  then show ?case using Cons [of "addImpl k impls x"] by auto
qed simp

lemma implsOf_classes:
  "implsOf (foldl (\<lambda>impls k. foldl (addImpl k) impls (arrOf (fld k ''methods''))) impls classes) m =
     implsOf impls m \<union> {methodName k m | k x. k \<in> set classes \<and> x \<in> set (arrOf (fld k ''methods'')) \<and> strOf x = m}"
proof (induction classes arbitrary: impls)
  case (Cons k classes)
  show ?case unfolding foldl.simps Cons implsOf_class by auto
qed simp

lemma foldO_collect:
  "(\<And>acc x. f acc x = Some (if P x then acc @ [g x] else acc)) \<Longrightarrow> foldO f acc xs = Some (acc @ map g (filter P xs))"
  by (induction xs arbitrary: acc) auto

definition calleeSet :: "ThrowCtx \<Rightarrow> json \<Rightarrow> string set" where
  "calleeSet ctx n = (case calleesOf ctx n of Some cs \<Rightarrow> set cs | None \<Rightarrow> {})"

lemma newValue_exact:
  assumes "acyclic (baseRel classes)"
  shows "foldO (hierarchyCtor classes cls) [] classes =
    Some (map (\<lambda>k. ctorName (sfld k ''name'')) (filter (\<lambda>k. (sfld k ''name'', cls) \<in> (baseRel classes)\<^sup>* \<and>
      classNamed classes (sfld k ''name'') \<noteq> None \<and> classNamed classes cls \<noteq> None) classes))"
  by (subst foldO_collect) (auto simp: hierarchyCtor_def descends_exact [OF assms])

text \<open>Classes carry their name as a string.\<close>

definition namedClasses :: "json list \<Rightarrow> bool" where
  "namedClasses classes = list_all (\<lambda>k. isStr (fld k ''name'')) classes"

lemma classNamed_member: "namedClasses classes \<Longrightarrow> k \<in> set classes \<Longrightarrow> classNamed classes (sfld k ''name'') \<noteq> None"
  by (cases "fld k ''name''") (auto simp: namedClasses_def classNamed_def find_None_iff sfld_def list_all_iff)

lemma callees_exact:
  assumes "acyclic (baseRel (arrOf (fld md ''classes'')))" "namedClasses (arrOf (fld md ''classes''))"
  shows "calleesOf ((throwCtx md)\<lparr>tcTdzIds := ids\<rparr>) n \<noteq> None"
    "c \<in> calleeSet ((throwCtx md)\<lparr>tcTdzIds := ids\<rparr>) n \<longleftrightarrow> mayCall md n c"
proof -
  let ?ctx = "throwCtx md" and ?cs = "arrOf (fld md ''classes'')"
  have sel: "tcClasses ?ctx = ?cs" "tcMethodImpls ?ctx = methodImpls ?cs" by (simp_all add: throwCtx_def)
  have impls: "c \<in> implsOf (methodImpls ?cs) m \<longleftrightarrow>
      (\<exists>k\<in>set ?cs. \<exists>x\<in>set (arrOf (fld k ''methods'')). strOf x = m \<and> c = methodName k (strOf x))" for m
    unfolding methodImpls_def implsOf_classes by (auto simp: implsOf_def)
  consider "kindOf n = ''toString''" | "kindOf n = ''call''" | "kindOf n = ''new''" | "kindOf n = ''newValue''" | "kindOf n = ''virtualCall''"
    | "kindOf n \<notin> {''toString'', ''call'', ''new'', ''newValue'', ''virtualCall''}" by blast
  then have "calleesOf (?ctx\<lparr>tcTdzIds := ids\<rparr>) n \<noteq> None \<and> (c \<in> calleeSet (?ctx\<lparr>tcTdzIds := ids\<rparr>) n \<longleftrightarrow> mayCall md n c)"
  proof cases
    case 4
    show ?thesis
    proof (cases "fld (fld (fld n ''callee'') ''type'') ''className'' = JUndef")
      case True
      then show ?thesis using 4 by (simp add: calleeSet_def calleesOf_def mayCall_def Let_def)
    next
      case False
      then have "calleesOf (?ctx\<lparr>tcTdzIds := ids\<rparr>) n = foldO (hierarchyCtor ?cs (sfld (fld (fld n ''callee'') ''type'') ''className'')) [] ?cs"
        using 4 by (cases "fld (fld (fld n ''callee'') ''type'') ''className''") (simp_all add: calleesOf_def sfld_def sel)
      then show ?thesis using 4 False classNamed_member [OF assms(2)] unfolding calleeSet_def newValue_exact [OF assms(1)]
        by (auto simp: mayCall_def Let_def)
    qed
  next
    case 5
    then have "calleeSet (?ctx\<lparr>tcTdzIds := ids\<rparr>) n = implsOf (methodImpls ?cs) (sfld n ''method'')"
      "calleesOf (?ctx\<lparr>tcTdzIds := ids\<rparr>) n \<noteq> None"
      by (cases "jm_get (methodImpls ?cs) (sfld n ''method'')"; simp add: calleeSet_def calleesOf_def implsOf_def sel)+
    moreover have "mayCall md n c \<longleftrightarrow> (\<exists>k\<in>set ?cs. \<exists>x\<in>set (arrOf (fld k ''methods'')). strOf x = sfld n ''method'' \<and> c = methodName k (strOf x))"
      unfolding mayCall_def Let_def 5 by simp
    ultimately show ?thesis using impls [of "sfld n ''method''"] by blast
  qed (auto simp: calleeSet_def calleesOf_def mayCall_def Let_def)
  then show "calleesOf ((throwCtx md)\<lparr>tcTdzIds := ids\<rparr>) n \<noteq> None" "c \<in> calleeSet ((throwCtx md)\<lparr>tcTdzIds := ids\<rparr>) n \<longleftrightarrow> mayCall md n c"
    by blast+
qed

section \<open>Folds that accumulate\<close>

text \<open>A walk that only adds what it finds: from a relation between the state before, the state after
  and what was visited, that composes, follows the relation of a whole list.\<close>

locale accumulating =
  fixes R :: "'s \<Rightarrow> 's \<Rightarrow> 'n set \<Rightarrow> bool"
  assumes none: "R w w {}"
    and both: "R w w1 A \<Longrightarrow> R w1 w2 B \<Longrightarrow> R w w2 (A \<union> B)"
begin

lemma fold_all:
  assumes "\<And>w x. x \<in> set xs \<Longrightarrow> \<exists>w'. f w x = Some w' \<and> R w w' (N x)"
  shows "\<exists>w'. foldO f w xs = Some w' \<and> R w w' (\<Union>x\<in>set xs. N x)"
  using assms
proof (induction xs arbitrary: w)
  case (Cons x xs)
  from Cons.prems [of x w] obtain w1 where 1: "f w x = Some w1" "R w w1 (N x)" by auto
  from Cons.IH [of w1] Cons.prems obtain w2 where 2: "foldO f w1 xs = Some w2" "R w1 w2 (\<Union>x\<in>set xs. N x)" by auto
  show ?case using 1 2 both [OF 1(2) 2(2)] by auto
qed (simp add: none)

end

section \<open>The walk over a body\<close>

definition walked :: "ThrowCtx \<Rightarrow> ThrowWalk \<Rightarrow> ThrowWalk \<Rightarrow> json set \<Rightarrow> bool" where
  "walked ctx w w' N =
     ((tfThrows (twFacts w') \<longleftrightarrow> tfThrows (twFacts w) \<or> (\<exists>n\<in>N. seeds ctx n)) \<and>
      (\<forall>c. c \<in> set (tfCallees (twFacts w')) \<longleftrightarrow> c \<in> set (tfCallees (twFacts w)) \<or> (\<exists>n\<in>N. c \<in> calleeSet ctx n)) \<and>
      (tfCallsValue (twFacts w') \<longleftrightarrow> tfCallsValue (twFacts w) \<or> (\<exists>n\<in>N. kindOf n = ''callValue'')) \<and>
      (\<forall>t. t \<in> set (twTargets w') \<longleftrightarrow> t \<in> set (twTargets w) \<or> (\<exists>n\<in>N. kindOf n = ''closure'' \<and> t = sfld n ''fnName'')) \<and>
      (twAdapter w' \<longleftrightarrow> twAdapter w \<or> (\<exists>n\<in>N. mintsAdapter n)))"

interpretation wk: accumulating "walked ctx" for ctx
  by unfold_locales (simp_all add: walked_def bex_Un disj_assoc)

lemma noteThrow_walked:
  assumes "calleesOf ctx n \<noteq> None"
  shows "\<exists>w'. noteThrow ctx w n = Some w' \<and> walked ctx w w' {n}"
proof -
  from assms obtain cs where cs: "calleesOf ctx n = Some cs" by blast
  then have "calleeSet ctx n = set cs" by (simp add: calleeSet_def)
  then show ?thesis by (auto simp: noteThrow_def cs walked_def Let_def)
qed

lemma visitThrow_walked:
  assumes "\<And>n. calleesOf ctx n \<noteq> None"
  shows "\<exists>w'. visitThrow ctx w v = Some w' \<and> walked ctx w w' {n. codeNode n v}"
proof (induction v arbitrary: w rule: measure_induct_rule [of jsz])
  case (less v)
  show ?case
  proof (cases v)
    case (JArr xs)
    then have "\<exists>w'. visitThrow ctx w x = Some w' \<and> walked ctx w w' {n. codeNode n x}" if "x \<in> set xs" for w x
      using less [of x w] jsz_arrOf_member [of x v] that by simp
    note step = wk.fold_all [of xs "visitThrow ctx", OF this]
    have codes: "{n. codeNode n (JArr xs)} = (\<Union>x\<in>set xs. {n. codeNode n x})" unfolding codeNode_simps by auto
    from step show ?thesis
      using JArr codes by (simp add: visitThrow.simps [of ctx w])
  next
    case (JObj kvs)
    obtain w1 where w1: "noteThrow ctx w v = Some w1" "walked ctx w w1 {v}" using noteThrow_walked assms by blast
    have "\<exists>w'. visitThrow ctx w x = Some w' \<and> walked ctx w w' {n. codeNode n x}" if "x \<in> set (codeChildren v)" for w x
      using less [of x w] jsz_codeChildren that by blast
    from wk.fold_all [of "codeChildren v" "visitThrow ctx", OF this] obtain w2 where
      w2: "foldO (visitThrow ctx) w1 (codeChildren v) = Some w2" "walked ctx w1 w2 (\<Union>x\<in>set (codeChildren v). {n. codeNode n x})" by blast
    have "{n. codeNode n v} = {v} \<union> (\<Union>x\<in>set (codeChildren v). {n. codeNode n x})" unfolding JObj codeNode_simps by auto
    then show ?thesis using JObj w1 w2 wk.both [OF w1(2) w2(2)] by (simp add: visitThrow.simps [of ctx w])
  qed (simp_all add: visitThrow.simps [of ctx w] codeNode_simps wk.none)
qed

section \<open>The facts of the module\<close>

definition describes :: "json \<Rightarrow> json \<Rightarrow> ThrowFacts \<Rightarrow> bool" where
  "describes md fn F =
     ((tfThrows F \<longleftrightarrow> throwsItself md fn) \<and>
      (\<forall>c. c \<in> set (tfCallees F) \<longleftrightarrow> (\<exists>n. codeNode n (fld fn ''body'') \<and> mayCall md n c)) \<and>
      (tfCallsValue F \<longleftrightarrow> (\<exists>n. codeNode n (fld fn ''body'') \<and> kindOf n = ''callValue'')))"

definition closureIn :: "json \<Rightarrow> string \<Rightarrow> bool" where
  "closureIn fn t = (\<exists>n. codeNode n (fld fn ''body'') \<and> kindOf n = ''closure'' \<and> t = sfld n ''fnName'')"

definition adapterIn :: "json \<Rightarrow> bool" where
  "adapterIn fn = (\<exists>n. codeNode n (fld fn ''body'') \<and> mintsAdapter n)"

lemma functionFacts_exact:
  assumes "acyclic (baseRel (arrOf (fld md ''classes'')))" "namedClasses (arrOf (fld md ''classes''))"
  shows "\<exists>F st'. functionFacts (throwCtx md) st fn = Some st' \<and> tsFacts st' = jm_set (tsFacts st) (sfld fn ''name'') F \<and> describes md fn F \<and>
    (\<forall>t. t \<in> set (tsTargets st') \<longleftrightarrow> t \<in> set (tsTargets st) \<or> closureIn fn t) \<and> (tsAdapter st' \<longleftrightarrow> tsAdapter st \<or> adapterIn fn)"
proof -
  let ?ctx = "(throwCtx md)\<lparr>tcTdzIds := tdzIds fn\<rparr>" and ?w = "\<lparr>twFacts = noFacts, twTargets = tsTargets st, twAdapter = tsAdapter st\<rparr>"
  obtain w where w: "visitThrow ?ctx ?w (fld fn ''body'') = Some w" "walked ?ctx ?w w {n. codeNode n (fld fn ''body'')}"
    using visitThrow_walked callees_exact(1) [OF assms] by blast
  have "describes md fn (twFacts w)"
    using w(2) callees_exact(2) [OF assms] by (simp add: walked_def describes_def noFacts_def throwsItself_def)
  then show ?thesis using w
    by (intro exI [of _ "twFacts w"]) (simp add: functionFacts_def walked_def closureIn_def adapterIn_def)
qed

lemma fnNamed_Cons: "fnNamed (fn # fns) f = (case fnNamed fns f of Some g \<Rightarrow> Some g | None \<Rightarrow> if sfld fn ''name'' = f then Some fn else None)"
proof -
  have "find P (xs @ [x]) = (case find P xs of Some g \<Rightarrow> Some g | None \<Rightarrow> if P x then Some x else None)" for P xs and x :: json
    by (induction xs) auto
  then show ?thesis by (simp add: fnNamed_def)
qed

lemma module_facts:
  assumes "acyclic (baseRel (arrOf (fld md ''classes'')))" "namedClasses (arrOf (fld md ''classes''))"
  shows "\<exists>st'. foldO (functionFacts (throwCtx md)) st fns = Some st' \<and> (jm_wf (tsFacts st) \<longrightarrow> jm_wf (tsFacts st')) \<and>
    (\<forall>f. case fnNamed fns f of Some fn \<Rightarrow> \<exists>F. jm_get (tsFacts st') f = Some F \<and> describes md fn F
       | None \<Rightarrow> jm_get (tsFacts st') f = jm_get (tsFacts st) f) \<and>
    (\<forall>t. t \<in> set (tsTargets st') \<longleftrightarrow> t \<in> set (tsTargets st) \<or> (\<exists>fn\<in>set fns. closureIn fn t)) \<and>
    (tsAdapter st' \<longleftrightarrow> tsAdapter st \<or> (\<exists>fn\<in>set fns. adapterIn fn))"
proof (induction fns arbitrary: st)
  case (Cons fn fns)
  from functionFacts_exact [OF assms, of st fn] obtain F st1 where 1: "functionFacts (throwCtx md) st fn = Some st1"
      "tsFacts st1 = jm_set (tsFacts st) (sfld fn ''name'') F" "describes md fn F"
      "\<forall>t. t \<in> set (tsTargets st1) \<longleftrightarrow> t \<in> set (tsTargets st) \<or> closureIn fn t" "tsAdapter st1 \<longleftrightarrow> tsAdapter st \<or> adapterIn fn" by blast
  from Cons [of st1] obtain st2 where 2: "foldO (functionFacts (throwCtx md)) st1 fns = Some st2" "jm_wf (tsFacts st1) \<longrightarrow> jm_wf (tsFacts st2)"
      "\<And>f. case fnNamed fns f of Some fn \<Rightarrow> \<exists>F. jm_get (tsFacts st2) f = Some F \<and> describes md fn F
         | None \<Rightarrow> jm_get (tsFacts st2) f = jm_get (tsFacts st1) f"
      "\<forall>t. t \<in> set (tsTargets st2) \<longleftrightarrow> t \<in> set (tsTargets st1) \<or> (\<exists>fn\<in>set fns. closureIn fn t)"
      "tsAdapter st2 \<longleftrightarrow> tsAdapter st1 \<or> (\<exists>fn\<in>set fns. adapterIn fn)" by blast
  have "case fnNamed (fn # fns) f of Some fn \<Rightarrow> \<exists>F. jm_get (tsFacts st2) f = Some F \<and> describes md fn F
       | None \<Rightarrow> jm_get (tsFacts st2) f = jm_get (tsFacts st) f" for f
    using 2(3) [of f] 1(2,3) by (cases "fnNamed fns f") (auto simp: fnNamed_Cons jm_get_set)
  moreover have "foldO (functionFacts (throwCtx md)) st (fn # fns) = Some st2" using 1(1) 2(1) by simp
  moreover have "jm_wf (tsFacts st) \<longrightarrow> jm_wf (tsFacts st2)" using 1(2) 2(2) jm_wf_set [of "tsFacts st"] by simp
  moreover have "\<forall>t. t \<in> set (tsTargets st2) \<longleftrightarrow> t \<in> set (tsTargets st) \<or> (\<exists>fn\<in>set (fn # fns). closureIn fn t)"
    "tsAdapter st2 \<longleftrightarrow> tsAdapter st \<or> (\<exists>fn\<in>set (fn # fns). adapterIn fn)" using 1(4,5) 2(4,5) by simp_all
  ultimately show ?case by blast
qed (simp add: fnNamed_def)

section \<open>The fixpoint\<close>

definition closed :: "ThrowCtx \<Rightarrow> (string, ThrowFacts) jsmap \<Rightarrow> string list \<Rightarrow> string set \<Rightarrow> bool \<Rightarrow> bool" where
  "closed ctx facts targets M ind =
     ((\<forall>(n, F)\<in>set facts. tfCallsValue F \<and> ind \<or> set (tfCallees F) \<inter> M \<noteq> {} \<longrightarrow> n \<in> M) \<and>
      (\<forall>t\<in>set targets. t \<in> M \<and> t \<notin> set (tcAsyncFns ctx) \<and> t \<notin> set (tcGenFns ctx) \<longrightarrow> ind))"

lemma escaping_iff: "escaping ctx targets may \<longleftrightarrow> (\<exists>t\<in>set targets. t \<in> set may \<and> t \<notin> set (tcAsyncFns ctx) \<and> t \<notin> set (tcGenFns ctx))"
  by (simp add: escaping_def list_ex_iff)

lemma throwPass_below:
  "set may \<subseteq> M \<Longrightarrow> (ind \<longrightarrow> I) \<Longrightarrow> (\<forall>(n, F)\<in>set facts. tfCallsValue F \<and> I \<or> set (tfCallees F) \<inter> M \<noteq> {} \<longrightarrow> n \<in> M) \<Longrightarrow>
     set (throwPass facts ind may) \<subseteq> M"
proof (induction facts arbitrary: may)
  case (Cons nf facts)
  obtain n F where nf: "nf = (n, F)" by force
  then have "tfCallsValue F \<and> I \<or> set (tfCallees F) \<inter> M \<noteq> {} \<longrightarrow> n \<in> M" using Cons.prems(3) by auto
  then have "set (throwStep ind may nf) \<subseteq> M" using Cons.prems(1,2) by (auto simp: nf throwStep_def list_ex_iff)
  then show ?case using Cons.IH Cons.prems by (simp add: throwPass_def)
qed (simp add: throwPass_def)

lemma throwPass_stable:
  assumes "set (throwPass facts ind may) = set may" "(n, F) \<in> set facts" "tfCallsValue F \<and> ind \<or> set (tfCallees F) \<inter> set may \<noteq> {}"
  shows "n \<in> set may"
  using assms
proof (induction facts arbitrary: may)
  case (Cons nf facts)
  let ?m = "throwStep ind may nf"
  have all: "throwPass (nf # facts) ind may = throwPass facts ind ?m" by (simp add: throwPass_def)
  have same: "set ?m = set may" using throwStep_grows [of may ind nf] throwPass_grows [of ?m facts ind] Cons.prems(1) unfolding all by blast
  show ?case
  proof (cases "(n, F) = nf")
    case True
    then show ?thesis using Cons.prems(3) same by (auto simp: throwStep_def list_ex_iff split: if_splits)
  next
    case False
    then show ?thesis using Cons.IH [of ?m] Cons.prems same unfolding all by auto
  qed
qed simp

lemma throwLoop_step:
  assumes "m = throwPass facts ind may" "i = (ind \<or> escaping ctx targets m)"
  shows "throwLoop ctx facts targets (may, ind) =
    (if set m = set may \<and> i = ind then (m, i) else throwLoop ctx facts targets (m, i))"
  using throwLoop.simps [of ctx facts targets "(may, ind)"] assms by (simp only: prod.case Let_def)

lemma throwLoop_least:
  assumes "throwLoop ctx facts targets (may, ind) = (may', ind')" "set may \<subseteq> M" "ind \<longrightarrow> I" "closed ctx facts targets M I"
  shows "set may' \<subseteq> M \<and> (ind' \<longrightarrow> I)"
  using assms
proof (induction ctx facts targets "(may, ind)" arbitrary: may ind rule: throwLoop.induct)
  case (1 ctx facts targets may ind)
  let ?m = "throwPass facts ind may" let ?i = "ind \<or> escaping ctx targets ?m"
  have m: "set ?m \<subseteq> M" using 1(3,4,5) by (intro throwPass_below) (auto simp: closed_def)
  then have i: "?i \<longrightarrow> I" using 1(4,5) by (auto simp: closed_def escaping_iff)
  show ?case
  proof (cases "set ?m = set may \<and> ?i = ind")
    case True
    then have "(may', ind') = (?m, ?i)" using 1(2) throwLoop_step [OF refl refl, of ctx facts targets may ind] by (simp only: if_True simp_thms)
    then show ?thesis using m i by (simp only: prod.inject)
  next
    case False
    then have "throwLoop ctx facts targets (?m, ?i) = (may', ind')" using 1(2) throwLoop_step [OF refl refl, of ctx facts targets may ind] by (simp only: if_False)
    then show ?thesis using 1(1) [OF refl refl refl False _ m i 1(5)] by blast
  qed
qed

lemma throwLoop_closed:
  "throwLoop ctx facts targets (may, ind) = (may', ind') \<Longrightarrow> set may \<subseteq> set may' \<and> (ind \<longrightarrow> ind') \<and> closed ctx facts targets (set may') ind'"
proof (induction ctx facts targets "(may, ind)" arbitrary: may ind rule: throwLoop.induct)
  case (1 ctx facts targets may ind)
  let ?m = "throwPass facts ind may" let ?i = "ind \<or> escaping ctx targets ?m"
  have grow: "set may \<subseteq> set ?m" using throwPass_grows by blast
  show ?case
  proof (cases "set ?m = set may \<and> ?i = ind")
    case True
    then have "(may', ind') = (?m, ?i)" using 1(2) throwLoop_step [OF refl refl, of ctx facts targets may ind] by (simp only: if_True simp_thms)
    then have eq: "may' = ?m" "ind' = ind" using True by simp_all
    have "closed ctx facts targets (set may) ind"
      unfolding closed_def using throwPass_stable [of facts ind may] True by (auto simp: escaping_iff)
    then show ?thesis using eq True by simp
  next
    case False
    then have "throwLoop ctx facts targets (?m, ?i) = (may', ind')" using 1(2) throwLoop_step [OF refl refl, of ctx facts targets may ind] by (simp only: if_False)
    then show ?thesis using 1(1) [OF refl refl refl False] grow by blast
  qed
qed

section \<open>The analysis\<close>

lemma analysis_exact:
  assumes wf: "jm_wf facts"
    and facts: "\<And>f. case fnNamed (functionsOf md) f of Some fn \<Rightarrow> \<exists>F. jm_get facts f = Some F \<and> describes md fn F | None \<Rightarrow> jm_get facts f = None"
    and targets: "\<And>t. t \<in> set targets \<longleftrightarrow> (\<exists>fn\<in>set (functionsOf md). closureIn fn t)"
    and adapter: "adapterSeen \<longleftrightarrow> (\<exists>fn\<in>set (functionsOf md). adapterIn fn)"
    and run: "throwLoop (throwCtx md) facts targets (seeded facts, adapterSeen \<or> escaping (throwCtx md) targets (seeded facts)) = (may, ind)"
  shows "(f \<in> set may \<longleftrightarrow> mayThrow md f) \<and> (ind \<longleftrightarrow> indirectThrow md)"
proof -
  have fact: "\<exists>fn. fnNamed (functionsOf md) n = Some fn \<and> describes md fn F" if "(n, F) \<in> set facts" for n F
  proof -
    have "jm_get facts n = Some F" using wf that by (simp add: jm_wf_def jm_get_map_of)
    then show ?thesis using facts [of n] by (cases "fnNamed (functionsOf md) n") auto
  qed
  have entry: "\<exists>F. (f, F) \<in> set facts \<and> describes md fn F" if "fnNamed (functionsOf md) f = Some fn" for f fn
    using facts [of f] that by (auto simp: jm_get_map_of dest: map_of_SomeD)
  have seed: "f \<in> set (seeded facts) \<longleftrightarrow> (\<exists>fn. fnNamed (functionsOf md) f = Some fn \<and> throwsItself md fn)" for f
  proof -
    have "f \<in> set (seeded facts) \<longleftrightarrow> (\<exists>F. (f, F) \<in> set facts \<and> tfThrows F)" by (force simp: seeded_def)
    moreover have "tfThrows F \<longleftrightarrow> throwsItself md fn" if "describes md fn F" for F fn using that by (simp add: describes_def)
    ultimately show ?thesis using fact entry by blast
  qed
  have cl: "closed (throwCtx md) facts targets {f. mayThrow md f} (indirectThrow md)"
  proof -
    have "mayThrow md n" if e: "(n, F) \<in> set facts" and q: "tfCallsValue F \<and> indirectThrow md \<or> (\<exists>x\<in>set (tfCallees F). mayThrow md x)" for n F
    proof -
      obtain fn where "fnNamed (functionsOf md) n = Some fn" "describes md fn F" using fact [OF e] by blast
      then show ?thesis using q mayThrow_indirectThrow.val mayThrow_indirectThrow.callee unfolding describes_def by blast
    qed
    moreover have "indirectThrow md" if "t \<in> set targets" "mayThrow md t" "t \<notin> set (tcAsyncFns (throwCtx md))" "t \<notin> set (tcGenFns (throwCtx md))" for t
      using that targets mayThrow_indirectThrow.clo unfolding closureIn_def by blast
    ultimately show ?thesis unfolding closed_def by blast
  qed
  have "set (seeded facts) \<subseteq> {f. mayThrow md f}" using seed mayThrow_indirectThrow.own by blast
  moreover have "adapterSeen \<or> escaping (throwCtx md) targets (seeded facts) \<longrightarrow> indirectThrow md"
    using adapter cl mayThrow_indirectThrow.adapter calculation by (auto simp: adapterIn_def escaping_iff closed_def)
  ultimately have least: "set may \<subseteq> {f. mayThrow md f} \<and> (ind \<longrightarrow> indirectThrow md)" using throwLoop_least [OF run] cl by blast
  from throwLoop_closed [OF run] have big: "set (seeded facts) \<subseteq> set may" "adapterSeen \<longrightarrow> ind"
    and c: "\<And>n F. (n, F) \<in> set facts \<Longrightarrow> tfCallsValue F \<and> ind \<or> set (tfCallees F) \<inter> set may \<noteq> {} \<Longrightarrow> n \<in> set may"
      "\<And>t. t \<in> set targets \<Longrightarrow> t \<in> set may \<Longrightarrow> t \<notin> set (tcAsyncFns (throwCtx md)) \<Longrightarrow> t \<notin> set (tcGenFns (throwCtx md)) \<Longrightarrow> ind"
    unfolding closed_def by blast+
  have all: "(mayThrow md f \<longrightarrow> f \<in> set may)" "(indirectThrow md \<longrightarrow> ind)" for f
  proof -
    have "mayThrow md f \<Longrightarrow> f \<in> set may" "indirectThrow md \<Longrightarrow> ind" for f
    proof (induction rule: mayThrow_indirectThrow.inducts)
      case (own f fn)
      then show ?case using seed big(1) by blast
    next
      case (callee f fn n g)
      from entry [OF callee(1)] obtain F where "(f, F) \<in> set facts" "g \<in> set (tfCallees F)" using callee unfolding describes_def by blast
      then show ?case using c(1) callee by blast
    next
      case (val f fn n)
      from entry [OF val(1)] obtain F where "(f, F) \<in> set facts" "tfCallsValue F" using val unfolding describes_def by blast
      then show ?case using c(1) val by blast
    next
      case (adapter fn n)
      then show ?case using big(2) assms(4) by (auto simp: adapterIn_def)
    next
      case (clo fn n t)
      then show ?case using c(2) targets by (auto simp: closureIn_def)
    qed
    then show "(mayThrow md f \<longrightarrow> f \<in> set may)" "(indirectThrow md \<longrightarrow> ind)" by blast+
  qed
  show ?thesis using least all by blast
qed

text \<open>C14. The may-throw analysis is exact: on an acyclic class hierarchy it returns, and the functions it
  reports are exactly those of the least solution of the rules in its comment: a function may throw
  when a node of its body throws, when it can enter a function that may throw (by a direct call, a
  constructor, any constructor of the hierarchy of a class value, any implementation of a
  virtual method, or the error text dispatcher), or when it calls a closure value while closures
  may throw; closures may throw when a checked adapter is minted anywhere or a closure is made
  over a function that may throw and is neither async nor a generator.\<close>

theorem may_throw_exact:
  assumes "acyclic (baseRel (arrOf (fld md ''classes'')))" "namedClasses (arrOf (fld md ''classes''))"
  shows "\<exists>may ind. computeMayThrow md = Some (may, ind) \<and> (\<forall>f. f \<in> set may \<longleftrightarrow> mayThrow md f) \<and> (ind \<longleftrightarrow> indirectThrow md)"
proof -
  let ?st = "\<lparr>tsFacts = [], tsTargets = [], tsAdapter = False\<rparr>"
  from module_facts [OF assms, of ?st "functionsOf md"] obtain st where st:
    "foldO (functionFacts (throwCtx md)) ?st (functionsOf md) = Some st" "jm_wf (tsFacts st)"
    "\<And>f. case fnNamed (functionsOf md) f of Some fn \<Rightarrow> \<exists>F. jm_get (tsFacts st) f = Some F \<and> describes md fn F | None \<Rightarrow> jm_get (tsFacts st) f = None"
    "\<And>t. t \<in> set (tsTargets st) \<longleftrightarrow> (\<exists>fn\<in>set (functionsOf md). closureIn fn t)" "tsAdapter st \<longleftrightarrow> (\<exists>fn\<in>set (functionsOf md). adapterIn fn)"
    using jm_wf_empty by (simp only: ThrowState.simps jm_get.simps list.set empty_iff simp_thms) blast
  obtain may ind where run: "throwLoop (throwCtx md) (tsFacts st) (tsTargets st)
      (seeded (tsFacts st), tsAdapter st \<or> escaping (throwCtx md) (tsTargets st) (seeded (tsFacts st))) = (may, ind)" by force
  have "computeMayThrow md = Some (may, ind)" using st(1) run by (simp add: computeMayThrow_def functionsOf_def Let_def)
  then show ?thesis using analysis_exact [OF st(2-5) run] by blast
qed

definition nodeJson :: "string \<Rightarrow> (string \<times> json) list \<Rightarrow> json" where
  "nodeJson k kvs = JObj ((''kind'', JStr k) # kvs)"

definition fnJson :: "string \<Rightarrow> json list \<Rightarrow> json" where
  "fnJson n body = JObj [(''name'', JStr n), (''locals'', JArr []), (''body'', JArr body)]"

definition demoThrows :: json where
  "demoThrows = JObj [
     (''classes'', JArr [JObj [(''name'', JStr ''A'')], JObj [(''name'', JStr ''B''), (''base'', JStr ''A'')]]),
     (''functions'', JArr [
        fnJson ''f'' [nodeJson ''exprStmt'' [(''expr'', nodeJson ''callValue'' [])]],
        fnJson ''g'' [nodeJson ''throw'' []],
        fnJson ''h'' [nodeJson ''closure'' [(''fnName'', JStr ''g'')]],
        fnJson ''%B.constructor'' [nodeJson ''call'' [(''callee'', JStr ''f'')]],
        fnJson ''k'' [nodeJson ''newValue'' [(''callee'', JObj [(''type'', JObj [(''className'', JStr ''A'')])])]]])]"

theorem may_throw_exact_witness:
  "computeMayThrow demoThrows = Some ([''g'', ''f'', ''%B.constructor'', ''k''], True) \<and>
   mayThrow demoThrows ''k'' \<and> \<not> mayThrow demoThrows ''h'' \<and> indirectThrow demoThrows"
proof -
  have cls: "arrOf (fld demoThrows ''classes'') = [JObj [(''name'', JStr ''A'')], JObj [(''name'', JStr ''B''), (''base'', JStr ''A'')]]"
    by (simp add: demoThrows_def)
  have "baseRel (arrOf (fld demoThrows ''classes'')) \<subseteq> {(''B'', ''A'')}"
    unfolding cls by (auto simp: baseRel_def classNamed_def sfld_def split: if_splits)
  then have "acyclic (baseRel (arrOf (fld demoThrows ''classes'')))"
    by (rule acyclic_subset [rotated]) (simp add: acyclic_def trancl_insert2)
  moreover have "namedClasses (arrOf (fld demoThrows ''classes''))" by (simp add: cls namedClasses_def)
  ultimately obtain may ind where r: "computeMayThrow demoThrows = Some (may, ind)" "\<forall>f. f \<in> set may \<longleftrightarrow> mayThrow demoThrows f"
      "ind \<longleftrightarrow> indirectThrow demoThrows" using may_throw_exact by blast
  have e: "computeMayThrow demoThrows = Some ([''g'', ''f'', ''%B.constructor'', ''k''], True)" by code_simp
  then have m: "may = [''g'', ''f'', ''%B.constructor'', ''k'']" "ind" using r(1) by simp_all
  have "mayThrow demoThrows ''k''" "\<not> mayThrow demoThrows ''h''"
    using spec [OF r(2), of "''k''"] spec [OF r(2), of "''h''"] unfolding m by simp_all
  then show ?thesis using e r(3) m(2) by blast
qed

end
