(* ===== verification/IntRanges.thy ===== *)
theory IntRanges
  imports Json
begin

text \<open>
  \<^verbatim>\<open>ir/integer-ranges.ts\<close>: the local range analysis that lets the native emitters keep a number in an
  integer register. The code stores its facts in a \<^verbatim>\<open>Map\<close> keyed by expression objects; here an
  occurrence of an expression is its path in the function, and \<open>ident\<close> gives the object at a path, so
  that one object may occur at several paths.
\<close>

section \<open>Occurrences\<close>

datatype Step = Key string | Index nat

type_synonym occurrence = "Step list"

record IntegerRange =
  rMin :: f64
  rMax :: f64

type_synonym 'i ranges = "('i, IntegerRange option) jsmap"

type_synonym facts = "(string, IntegerRange) jsmap"

definition SIGNED :: IntegerRange where
  "SIGNED = \<lparr>rMin = Fin (- 2147483648), rMax = Fin 2147483647\<rparr>"

definition UNSIGNED :: IntegerRange where
  "UNSIGNED = \<lparr>rMin = Fin 0, rMax = Fin 4294967295\<rparr>"

text \<open>A second occurrence of an object widens its range; an unknown one forgets it.\<close>

definition remember :: "'i \<Rightarrow> IntegerRange option \<Rightarrow> 'i ranges \<Rightarrow> 'i ranges" where
  "remember i rng R = jm_set R i (case jm_get R i of None \<Rightarrow> rng
     | Some previous \<Rightarrow> (case (previous, rng) of
         (Some p, Some r) \<Rightarrow> Some \<lparr>rMin = math_min [rMin p, rMin r], rMax = math_max [rMax p, rMax r]\<rparr>
       | _ \<Rightarrow> None))"

function opaque :: "(occurrence \<Rightarrow> 'i) \<Rightarrow> occurrence \<Rightarrow> json \<Rightarrow> 'i ranges \<Rightarrow> 'i ranges" where
  "opaque ident p v R = (case v of
     JArr xs \<Rightarrow> foldl (\<lambda>R ix. opaque ident (p @ [Index (fst ix)]) (snd ix) R) R (enumerate 0 xs)
   | JObj kvs \<Rightarrow> foldl (\<lambda>R kx. if fst kx = ''type'' \<or> fst kx = ''loc'' then R else opaque ident (p @ [Key (fst kx)]) (snd kx) R)
       (if isStr (fld v ''kind'') then jm_set R (ident p) None else R) kvs
   | _ \<Rightarrow> R)"
  by pat_completeness auto
termination
proof (relation "measure (\<lambda>(_, _, v, _). jsz v)")
  fix ident :: "occurrence \<Rightarrow> 'i" and p v R xs Q ix
  assume "v = JArr xs" "ix \<in> set (enumerate 0 xs)"
  then show "((ident, p @ [Index (fst ix)], snd ix, Q), ident, p, v, R) \<in> measure (\<lambda>(_, _, v, _). jsz v)"
    using jsz_arrOf_member [of "snd ix" v] nth_mem [of "fst ix" xs] by (simp add: in_set_enumerate_eq)
next
  fix ident :: "occurrence \<Rightarrow> 'i" and p v R kvs Q kx
  assume "v = JObj kvs" "kx \<in> set kvs"
  then show "((ident, p @ [Key (fst kx)], snd kx, Q), ident, p, v, R) \<in> measure (\<lambda>(_, _, v, _). jsz v)"
    using jsz_objEntries_member [of kx v] by (cases kx) auto
qed simp

declare opaque.simps [simp del]

section \<open>Expressions\<close>

definition litRange :: "json \<Rightarrow> IntegerRange option" where
  "litRange v = (case v of JNum n \<Rightarrow> if isSafeInteger n \<and> n \<noteq> NegZero then Some \<lparr>rMin = n, rMax = n\<rparr> else None | _ \<Rightarrow> None)"

definition binRange :: "json \<Rightarrow> IntegerRange option \<Rightarrow> IntegerRange option \<Rightarrow> IntegerRange option" where
  "binRange e left right = (let op = sfld e ''op'' in
     if kindOf (fld e ''type'') \<noteq> ''f64'' then None
     else if op = ''>>>'' then Some UNSIGNED
     else if op \<in> set [''&'', ''|'', ''^'', ''<<'', ''>>''] then Some SIGNED
     else (case (left, right) of
        (Some l, Some r) \<Rightarrow> if op = ''+'' \<or> op = ''-'' then
            (let mn = (if op = ''+'' then js_add (rMin l) (rMin r) else js_sub (rMin l) (rMax r));
                 mx = (if op = ''+'' then js_add (rMax l) (rMax r) else js_sub (rMax l) (rMin r))
             in if isSafeInteger mn \<and> isSafeInteger mx then Some \<lparr>rMin = mn, rMax = mx\<rparr> else None)
          else None
      | _ \<Rightarrow> None))"

function rangeExpr :: "(occurrence \<Rightarrow> 'i) \<Rightarrow> occurrence \<Rightarrow> json \<Rightarrow> facts \<Rightarrow> 'i ranges \<Rightarrow> IntegerRange option \<times> facts \<times> 'i ranges" where
  "rangeExpr ident p e F R =
     (if kindOf e = ''numLit'' then (let r = litRange (fld e ''value'') in (r, F, remember (ident p) r R))
      else if kindOf e = ''varRef'' then (let r = jm_get F (sfld e ''localId'') in (r, F, remember (ident p) r R))
      else if kindOf e = ''bin'' then
        (case rangeExpr ident (p @ [Key ''left'']) (fld e ''left'') F R of (l, F1, R1) \<Rightarrow>
         case rangeExpr ident (p @ [Key ''right'']) (fld e ''right'') F1 R1 of (r, F2, R2) \<Rightarrow>
           let x = binRange e l r in (x, F2, remember (ident p) x R2))
      else if kindOf e = ''unary'' then
        (case rangeExpr ident (p @ [Key ''operand'']) (fld e ''operand'') F R of (_, F1, R1) \<Rightarrow>
           let x = (if sfld e ''op'' = ''~'' then Some SIGNED else None) in (x, F1, remember (ident p) x R1))
      else (None, [], opaque ident p e R))"
  by pat_completeness auto
termination by (relation "measure (\<lambda>(_, _, e, _). jsz e)") auto

declare rangeExpr.simps [simp del]

section \<open>Statements\<close>

definition BODY_KEYS :: "string list" where
  "BODY_KEYS = [''body'', ''then'', ''else_'', ''tryBody'', ''catchBody'', ''finallyBody'']"

definition bindRange :: "string list \<Rightarrow> string \<Rightarrow> IntegerRange option \<Rightarrow> facts \<Rightarrow> facts" where
  "bindRange eligible i rng F = (let F1 = jm_delete F i in
     case rng of Some r \<Rightarrow> if i \<in> set eligible then jm_set F1 i r else F1 | None \<Rightarrow> F1)"

definition rangeValue :: "(occurrence \<Rightarrow> 'i) \<Rightarrow> occurrence \<Rightarrow> json \<Rightarrow> facts \<Rightarrow> 'i ranges \<Rightarrow> IntegerRange option \<times> facts \<times> 'i ranges" where
  "rangeValue ident p v F R = (if truthy v then rangeExpr ident p v F R else (None, F, R))"

lemma jszs_fld: "jszs (arrOf (fld c k)) \<le> jsz c"
proof (cases c)
  case (JObj kvs)
  then show ?thesis
  proof (cases "jm_get kvs k")
    case (Some v)
    then have "jsz v < jsz c" using JObj jsz_objEntries_member [of "(k, v)" c] by (simp add: jm_get_map_of map_of_SomeD)
    then show ?thesis using JObj Some jszs_arrOf [of v] by simp
  qed simp
qed simp_all

lemma jsz_entries: "(\<Sum>kv\<leftarrow>objEntries s. jsz (snd kv)) < jsz s"
  by (cases s) simp_all

lemma jszs_arr: "jszs (arrOf j) < jsz j + n"
  using jszs_arrOf [of j] by linarith

lemma less_or_eq: "jszs (arrOf (fld c k)) < jsz c + n \<or> jszs (arrOf (fld c k)) = jsz c + n"
  using jszs_fld [of c k] by linarith

function
  rangeBody :: "(occurrence \<Rightarrow> 'i) \<Rightarrow> string list \<Rightarrow> occurrence \<Rightarrow> json list \<Rightarrow> nat \<Rightarrow> facts \<Rightarrow> 'i ranges \<Rightarrow> 'i ranges" and
  rangeStmt :: "(occurrence \<Rightarrow> 'i) \<Rightarrow> string list \<Rightarrow> occurrence \<Rightarrow> json \<Rightarrow> facts \<Rightarrow> 'i ranges \<Rightarrow> facts \<times> 'i ranges" and
  rangeEntries :: "(occurrence \<Rightarrow> 'i) \<Rightarrow> string list \<Rightarrow> occurrence \<Rightarrow> string \<Rightarrow> (string \<times> json) list \<Rightarrow> 'i ranges \<Rightarrow> 'i ranges" and
  rangeCases :: "(occurrence \<Rightarrow> 'i) \<Rightarrow> string list \<Rightarrow> occurrence \<Rightarrow> json list \<Rightarrow> nat \<Rightarrow> 'i ranges \<Rightarrow> 'i ranges"
where
  "rangeBody ident el p [] i F R = R"
| "rangeBody ident el p (s # ss) i F R =
     (case rangeStmt ident el (p @ [Index i]) s F R of (F1, R1) \<Rightarrow> rangeBody ident el p ss (Suc i) F1 R1)"
| "rangeStmt ident el p s F R =
     (if kindOf s = ''varDecl'' \<or> kindOf s = ''assign'' then
        (let key = (if kindOf s = ''varDecl'' then ''init'' else ''value'') in
         case rangeValue ident (p @ [Key key]) (fld s key) F R of (r, F1, R1) \<Rightarrow> (bindRange el (sfld s ''localId'') r F1, R1))
      else if kindOf s = ''return'' then
        (case rangeValue ident (p @ [Key ''value'']) (fld s ''value'') F R of (_, _, R1) \<Rightarrow> ([], R1))
      else if kindOf s = ''exprStmt'' then
        (case rangeExpr ident (p @ [Key ''expr'']) (fld s ''expr'') F R of (_, F1, R1) \<Rightarrow> (F1, R1))
      else ([], rangeEntries ident el p (kindOf s) (objEntries s) R))"
| "rangeEntries ident el p kind [] R = R"
| "rangeEntries ident el p kind (kv # kvs) R =
     rangeEntries ident el p kind kvs
       (if fst kv = ''loc'' then R
        else if fst kv \<in> set BODY_KEYS \<and> isArr (snd kv) then rangeBody ident el (p @ [Key (fst kv)]) (arrOf (snd kv)) 0 [] R
        else if kind = ''switch'' \<and> fst kv = ''cases'' then rangeCases ident el (p @ [Key ''cases'']) (arrOf (snd kv)) 0 R
        else opaque ident (p @ [Key (fst kv)]) (snd kv) R)"
| "rangeCases ident el p [] i R = R"
| "rangeCases ident el p (c # cs) i R =
     rangeCases ident el p cs (Suc i)
       (rangeBody ident el (p @ [Index i, Key ''body'']) (arrOf (fld c ''body'')) 0 []
          (opaque ident (p @ [Index i, Key ''test'']) (fld c ''test'') R))"
  by pat_completeness auto
termination
  by (relation "measures [\<lambda>x. case x of Inl (Inl (_, _, _, ss, _)) \<Rightarrow> jszs ss | Inl (Inr (_, _, _, s, _)) \<Rightarrow> jsz s
      | Inr (Inl (_, _, _, _, kvs, _)) \<Rightarrow> sum_list (map (\<lambda>kv. jsz (snd kv)) kvs) | Inr (Inr (_, _, _, cs, _)) \<Rightarrow> jszs cs,
      \<lambda>x. case x of Inl (Inl _) \<Rightarrow> 1 | Inl (Inr _) \<Rightarrow> 0 | Inr (Inl _) \<Rightarrow> 0 | Inr (Inr _) \<Rightarrow> 2]")
    (simp_all add: jsz_entries jszs_arr less_or_eq jszs_fld, auto)

declare rangeStmt.simps [simp del]

section \<open>Functions\<close>

definition eligibleLocals :: "json \<Rightarrow> string list" where
  "eligibleLocals fn = (let captures = map (\<lambda>c. sfld c ''localId'') (arrOf (fld fn ''captures'')) in
     map (\<lambda>l. sfld l ''id'') (filter (\<lambda>l. kindOf (fld l ''type'') = ''f64'' \<and> \<not> truthy (fld l ''boxed'') \<and> \<not> truthy (fld l ''tdz'') \<and>
       sfld l ''id'' \<notin> set captures) (arrOf (fld fn ''locals''))))"

definition analyzeIntegerRanges :: "(occurrence \<Rightarrow> 'i) \<Rightarrow> json \<Rightarrow> 'i ranges" where
  "analyzeIntegerRanges ident fn =
     (if truthy (fld fn ''async'') \<or> truthy (fld fn ''generator'') then []
      else rangeBody ident (eligibleLocals fn) [Key ''body''] (arrOf (fld fn ''body'')) 0 [] [])"

end
