(* ===== verification/IntRangesSound.thy ===== *)
theory IntRangesSound
  imports IntRanges AbsSound
begin

text \<open>
  The integer ranges are facts: whatever the function does between the straight-line parts the
  analysis looks at, a number observed at an occurrence whose object has a range is an exactly
  representable integer of that range, and not negative zero. The executions considered are a
  superset of the program's: an expression the analysis does not follow may yield any value, change
  every local and throw, a nested statement list may run any number of times from any store, and
  execution may stop anywhere.
\<close>

section \<open>Executions\<close>

type_synonym store = "string \<Rightarrow> f64 option"

type_synonym observation = "occurrence \<times> f64 option"

datatype Result = Done "f64 option" | Halt

text \<open>The occurrences below a node, types and locations excluded.\<close>

inductive below :: "occurrence \<Rightarrow> json \<Rightarrow> occurrence \<Rightarrow> bool" where
  at: "isStr (fld (JObj kvs) ''kind'') \<Longrightarrow> below p (JObj kvs) p"
| arr: "i < length xs \<Longrightarrow> below (p @ [Index i]) (xs ! i) q \<Longrightarrow> below p (JArr xs) q"
| obj: "(k, x) \<in> set kvs \<Longrightarrow> k \<noteq> ''type'' \<Longrightarrow> k \<noteq> ''loc'' \<Longrightarrow> below (p @ [Key k]) x q \<Longrightarrow> below p (JObj kvs) q"

text \<open>A numeric operator is applied to numbers; the values of other operators are left open.\<close>

definition binVal :: "(f64 \<Rightarrow> f64 \<Rightarrow> f64) \<Rightarrow> json \<Rightarrow> f64 option \<Rightarrow> f64 option \<Rightarrow> f64 option \<Rightarrow> bool" where
  "binVal pow e a b v = (kindOf (fld e ''type'') = ''f64'' \<longrightarrow> (\<exists>x y. a = Some x \<and> b = Some y \<and> v = Some (js_bin pow (sfld e ''op'') x y)))"

definition unVal :: "json \<Rightarrow> f64 option \<Rightarrow> f64 option \<Rightarrow> bool" where
  "unVal e a v = (sfld e ''op'' = ''~'' \<longrightarrow> (\<exists>x. a = Some x \<and> v = Some (js_bitnot x)))"

definition FOLLOWED :: "string list" where
  "FOLLOWED = [''numLit'', ''varRef'', ''bin'', ''unary'']"

inductive evalE :: "(f64 \<Rightarrow> f64 \<Rightarrow> f64) \<Rightarrow> occurrence \<Rightarrow> json \<Rightarrow> store \<Rightarrow> Result \<Rightarrow> store \<Rightarrow> observation list \<Rightarrow> bool" for pow where
  stuck: "evalE pow p e \<sigma> Halt \<sigma> []"
| lit: "kindOf e = ''numLit'' \<Longrightarrow> fld e ''value'' = JNum n \<Longrightarrow> evalE pow p e \<sigma> (Done (Some n)) \<sigma> [(p, Some n)]"
| var: "kindOf e = ''varRef'' \<Longrightarrow> v = \<sigma> (sfld e ''localId'') \<Longrightarrow> evalE pow p e \<sigma> (Done v) \<sigma> [(p, v)]"
| bin: "kindOf e = ''bin'' \<Longrightarrow> evalE pow (p @ [Key ''left'']) (fld e ''left'') \<sigma> (Done a) \<sigma>1 xs \<Longrightarrow>
    evalE pow (p @ [Key ''right'']) (fld e ''right'') \<sigma>1 (Done b) \<sigma>2 ys \<Longrightarrow> binVal pow e a b v \<Longrightarrow>
    evalE pow p e \<sigma> (Done v) \<sigma>2 (xs @ ys @ [(p, v)])"
| binL: "kindOf e = ''bin'' \<Longrightarrow> evalE pow (p @ [Key ''left'']) (fld e ''left'') \<sigma> Halt \<sigma>1 xs \<Longrightarrow> evalE pow p e \<sigma> Halt \<sigma>1 xs"
| binR: "kindOf e = ''bin'' \<Longrightarrow> evalE pow (p @ [Key ''left'']) (fld e ''left'') \<sigma> (Done a) \<sigma>1 xs \<Longrightarrow>
    evalE pow (p @ [Key ''right'']) (fld e ''right'') \<sigma>1 Halt \<sigma>2 ys \<Longrightarrow> evalE pow p e \<sigma> Halt \<sigma>2 (xs @ ys)"
| un: "kindOf e = ''unary'' \<Longrightarrow> evalE pow (p @ [Key ''operand'']) (fld e ''operand'') \<sigma> (Done a) \<sigma>1 xs \<Longrightarrow> unVal e a v \<Longrightarrow>
    evalE pow p e \<sigma> (Done v) \<sigma>1 (xs @ [(p, v)])"
| unH: "kindOf e = ''unary'' \<Longrightarrow> evalE pow (p @ [Key ''operand'']) (fld e ''operand'') \<sigma> Halt \<sigma>1 xs \<Longrightarrow> evalE pow p e \<sigma> Halt \<sigma>1 xs"
| other: "kindOf e \<notin> set FOLLOWED \<Longrightarrow> list_all (\<lambda>ob. below p e (fst ob)) xs \<Longrightarrow> evalE pow p e \<sigma> res \<sigma>1 xs"

definition SIMPLE_STMTS :: "string list" where
  "SIMPLE_STMTS = [''varDecl'', ''assign'', ''return'', ''exprStmt'']"

definition boundKey :: "json \<Rightarrow> string" where
  "boundKey s = (if kindOf s = ''varDecl'' then ''init'' else ''value'')"

text \<open>A statement ends in a store, or execution leaves the list.\<close>

inductive runB :: "(f64 \<Rightarrow> f64 \<Rightarrow> f64) \<Rightarrow> occurrence \<Rightarrow> nat \<Rightarrow> json list \<Rightarrow> store \<Rightarrow> observation list \<Rightarrow> bool"
  and execS :: "(f64 \<Rightarrow> f64 \<Rightarrow> f64) \<Rightarrow> occurrence \<Rightarrow> json \<Rightarrow> store \<Rightarrow> store option \<Rightarrow> observation list \<Rightarrow> bool"
  and nestedAt :: "(f64 \<Rightarrow> f64 \<Rightarrow> f64) \<Rightarrow> occurrence \<Rightarrow> json \<Rightarrow> observation \<Rightarrow> bool" for pow where
  stop: "runB pow p i ss \<sigma> []"
| next_: "execS pow (p @ [Index i]) s \<sigma> (Some \<sigma>1) xs \<Longrightarrow> runB pow p (Suc i) ss \<sigma>1 ys \<Longrightarrow> runB pow p i (s # ss) \<sigma> (xs @ ys)"
| leave: "execS pow (p @ [Index i]) s \<sigma> None xs \<Longrightarrow> runB pow p i (s # ss) \<sigma> xs"
| bindS: "kindOf s \<in> {''varDecl'', ''assign''} \<Longrightarrow> truthy (fld s (boundKey s)) \<Longrightarrow>
    evalE pow (p @ [Key (boundKey s)]) (fld s (boundKey s)) \<sigma> (Done v) \<sigma>1 xs \<Longrightarrow> execS pow p s \<sigma> (Some (\<sigma>1(sfld s ''localId'' := v))) xs"
| bindH: "kindOf s \<in> {''varDecl'', ''assign''} \<Longrightarrow> truthy (fld s (boundKey s)) \<Longrightarrow>
    evalE pow (p @ [Key (boundKey s)]) (fld s (boundKey s)) \<sigma> Halt \<sigma>1 xs \<Longrightarrow> execS pow p s \<sigma> None xs"
| bindN: "kindOf s \<in> {''varDecl'', ''assign''} \<Longrightarrow> \<not> truthy (fld s (boundKey s)) \<Longrightarrow> execS pow p s \<sigma> (Some (\<sigma>(sfld s ''localId'' := v))) []"
| retV: "kindOf s = ''return'' \<Longrightarrow> truthy (fld s ''value'') \<Longrightarrow> evalE pow (p @ [Key ''value'']) (fld s ''value'') \<sigma> res \<sigma>1 xs \<Longrightarrow> execS pow p s \<sigma> None xs"
| retN: "kindOf s = ''return'' \<Longrightarrow> execS pow p s \<sigma> None []"
| exprS: "kindOf s = ''exprStmt'' \<Longrightarrow> evalE pow (p @ [Key ''expr'']) (fld s ''expr'') \<sigma> (Done v) \<sigma>1 xs \<Longrightarrow> execS pow p s \<sigma> (Some \<sigma>1) xs"
| exprH: "kindOf s = ''exprStmt'' \<Longrightarrow> evalE pow (p @ [Key ''expr'']) (fld s ''expr'') \<sigma> Halt \<sigma>1 xs \<Longrightarrow> execS pow p s \<sigma> None xs"
| otherS: "kindOf s \<notin> set SIMPLE_STMTS \<Longrightarrow> list_all (nestedAt pow p s) xs \<Longrightarrow> execS pow p s \<sigma> res xs"
| nbody: "(k, v) \<in> set (objEntries s) \<Longrightarrow> k \<in> set BODY_KEYS \<Longrightarrow> isArr v \<Longrightarrow> runB pow (p @ [Key k]) 0 (arrOf v) \<sigma> xs \<Longrightarrow> ob \<in> set xs \<Longrightarrow>
    nestedAt pow p s ob"
| ncase: "kindOf s = ''switch'' \<Longrightarrow> (''cases'', v) \<in> set (objEntries s) \<Longrightarrow> i < length (arrOf v) \<Longrightarrow>
    runB pow (p @ [Key ''cases'', Index i, Key ''body'']) 0 (arrOf (fld (arrOf v ! i) ''body'')) \<sigma> xs \<Longrightarrow> ob \<in> set xs \<Longrightarrow> nestedAt pow p s ob"
| ntest: "kindOf s = ''switch'' \<Longrightarrow> (''cases'', v) \<in> set (objEntries s) \<Longrightarrow> i < length (arrOf v) \<Longrightarrow>
    below (p @ [Key ''cases'', Index i, Key ''test'']) (fld (arrOf v ! i) ''test'') (fst ob) \<Longrightarrow> nestedAt pow p s ob"
| nrest: "(k, v) \<in> set (objEntries s) \<Longrightarrow> k \<noteq> ''loc'' \<Longrightarrow> \<not> (k \<in> set BODY_KEYS \<and> isArr v) \<Longrightarrow> \<not> (kindOf s = ''switch'' \<and> k = ''cases'') \<Longrightarrow>
    below (p @ [Key k]) v (fst ob) \<Longrightarrow> nestedAt pow p s ob"

section \<open>Ranges\<close>

definition inRange :: "IntegerRange \<Rightarrow> f64 \<Rightarrow> bool" where
  "inRange r x = (\<exists>n. x = Fin (of_int n) \<and> js_le (rMin r) x \<and> js_le x (rMax r))"

definition safeBound :: "f64 \<Rightarrow> bool" where
  "safeBound x = (isSafeInteger x \<and> x \<noteq> NegZero)"

definition safeRange :: "IntegerRange \<Rightarrow> bool" where
  "safeRange r = (safeBound (rMin r) \<and> safeBound (rMax r))"

definition safeOpt :: "IntegerRange option \<Rightarrow> bool" where
  "safeOpt w = (case w of Some r \<Rightarrow> safeRange r | None \<Rightarrow> True)"

definition okVal :: "IntegerRange option \<Rightarrow> f64 option \<Rightarrow> bool" where
  "okVal w v = (case w of Some r \<Rightarrow> (case v of Some x \<Rightarrow> inRange r x | None \<Rightarrow> False) | None \<Rightarrow> True)"

lemma okVal_simps [simp]: "okVal None v" "okVal (Some r) (Some x) = inRange r x" "okVal (Some r) None = False"
  by (simp_all add: okVal_def)

lemma safeOpt_simps [simp]: "safeOpt None" "safeOpt (Some r) = safeRange r"
  by (simp_all add: safeOpt_def)

lemma safeBound_iff: "safeBound x \<longleftrightarrow> (\<exists>n. x = Fin (of_int n) \<and> \<bar>n\<bar> \<le> 9007199254740991)"
proof
  assume "safeBound x"
  then have x: "isFinite x" "num x = of_int \<lfloor>num x\<rfloor>" "\<bar>num x\<bar> \<le> 9007199254740991" "x \<noteq> NegZero"
    by (auto simp: safeBound_def isSafeInteger_def isInteger_def)
  then obtain q where q: "x = Fin q" by (cases x) auto
  then have n: "q = of_int \<lfloor>q\<rfloor>" using x(2) by simp
  have "of_int \<bar>\<lfloor>q\<rfloor>\<bar> = \<bar>q\<bar>" using n by (metis of_int_abs)
  then have "of_int \<bar>\<lfloor>q\<rfloor>\<bar> \<le> (of_int 9007199254740991 :: rat)" using x(3) q by simp
  then have "\<bar>\<lfloor>q\<rfloor>\<bar> \<le> 9007199254740991" unfolding of_int_le_iff .
  then show "\<exists>n. x = Fin (of_int n) \<and> \<bar>n\<bar> \<le> 9007199254740991" using q n by metis
next
  assume "\<exists>n. x = Fin (of_int n) \<and> \<bar>n\<bar> \<le> 9007199254740991"
  then obtain n where n: "x = Fin (of_int n)" "\<bar>n\<bar> \<le> 9007199254740991" by blast
  then have "of_int \<bar>n\<bar> \<le> (of_int 9007199254740991 :: rat)" unfolding of_int_le_iff by blast
  then show "safeBound x" using n(1) by (simp add: safeBound_def isSafeInteger_def isInteger_def)
qed

lemma toF64_safe:
  assumes "isSafeInteger (toF64 (of_int k))"
  shows "\<bar>k\<bar> \<le> 9007199254740991" "toF64 (of_int k) = Fin (of_int k)"
proof -
  have big: "\<not> isSafeInteger (toF64 q)" if "of_int (2 ^ 53) \<le> \<bar>q\<bar>" for q
  proof (cases "0 \<le> q")
    case True
    then have "js_le (toF64 (of_int (2 ^ 53))) (toF64 q)" using that by (intro toF64_mono) simp
    then have "js_le (Fin 9007199254740992) (toF64 q)" using toF64_exact_int [of "2 ^ 53"] by simp
    then show ?thesis by (cases "toF64 q") (auto simp: isSafeInteger_def isInteger_def)
  next
    case False
    then have "js_le (toF64 q) (toF64 (of_int (- (2 ^ 53))))" using that by (intro toF64_mono) simp
    then have "js_le (toF64 q) (Fin (- 9007199254740992))" using toF64_exact_int [of "- (2 ^ 53)"] by simp
    then show ?thesis by (cases "toF64 q") (auto simp: isSafeInteger_def isInteger_def)
  qed
  have "\<not> of_int (2 ^ 53) \<le> (of_int \<bar>k\<bar> :: rat)" using big [of "of_int k"] assms by auto
  then have "\<bar>k\<bar> < 2 ^ 53" unfolding of_int_le_iff by simp
  then show "\<bar>k\<bar> \<le> 9007199254740991" "toF64 (of_int k) = Fin (of_int k)" using toF64_exact_int [of k] by simp_all
qed

lemma js_sub_Fin: "js_sub (Fin p) (Fin q) = toF64 (p - q)"
  by (simp add: js_sub_def)

lemma js_add_Fin: "js_add (Fin p) (Fin q) = toF64 (p + q)"
  by simp

lemma inRange_between:
  assumes "isSafeInteger (toF64 (of_int a))" "isSafeInteger (toF64 (of_int b))" "a \<le> k" "k \<le> b"
  shows "inRange \<lparr>rMin = toF64 (of_int a), rMax = toF64 (of_int b)\<rparr> (toF64 (of_int k)) \<and>
    safeRange \<lparr>rMin = toF64 (of_int a), rMax = toF64 (of_int b)\<rparr>"
proof -
  note a = toF64_safe [OF assms(1)] and b = toF64_safe [OF assms(2)]
  have k: "toF64 (of_int k) = Fin (of_int k)" using a(1) b(1) assms(3,4) by (intro toF64_exact_int) simp
  have "safeBound (Fin (of_int a))" "safeBound (Fin (of_int b))" using a(1) b(1) unfolding safeBound_iff by blast+
  then show ?thesis using assms(3,4) by (auto simp: inRange_def safeRange_def a(2) b(2) k)
qed

lemma range_ints:
  assumes "safeRange r" "inRange r x"
  obtains a b n where "rMin r = Fin (of_int a)" "rMax r = Fin (of_int b)" "x = Fin (of_int n)" "a \<le> n" "n \<le> b"
proof -
  obtain a b where ab: "rMin r = Fin (of_int a)" "rMax r = Fin (of_int b)" using assms(1) by (auto simp: safeRange_def safeBound_iff)
  obtain n where n: "x = Fin (of_int n)" "js_le (rMin r) x" "js_le x (rMax r)" using assms(2) by (auto simp: inRange_def)
  then have "a \<le> n" "n \<le> b" using ab by simp_all
  with ab n(1) show ?thesis by (rule that)
qed

lemma inRange_add:
  assumes "safeRange l" "safeRange r" "inRange l x" "inRange r y"
    "isSafeInteger (js_add (rMin l) (rMin r))" "isSafeInteger (js_add (rMax l) (rMax r))"
  shows "inRange \<lparr>rMin = js_add (rMin l) (rMin r), rMax = js_add (rMax l) (rMax r)\<rparr> (js_add x y)"
proof -
  obtain a b n where 1: "rMin l = Fin (of_int a)" "rMax l = Fin (of_int b)" "x = Fin (of_int n)" "a \<le> n" "n \<le> b" using range_ints assms(1,3) .
  obtain c d m where 2: "rMin r = Fin (of_int c)" "rMax r = Fin (of_int d)" "y = Fin (of_int m)" "c \<le> m" "m \<le> d" using range_ints assms(2,4) .
  show ?thesis using inRange_between [of "a + c" "b + d" "n + m"] assms(5,6) 1(4,5) 2(4,5)
    unfolding 1(1-3) 2(1-3) js_add_Fin of_int_add [symmetric] by simp
qed

lemma inRange_sub:
  assumes "safeRange l" "safeRange r" "inRange l x" "inRange r y"
    "isSafeInteger (js_sub (rMin l) (rMax r))" "isSafeInteger (js_sub (rMax l) (rMin r))"
  shows "inRange \<lparr>rMin = js_sub (rMin l) (rMax r), rMax = js_sub (rMax l) (rMin r)\<rparr> (js_sub x y)"
proof -
  obtain a b n where 1: "rMin l = Fin (of_int a)" "rMax l = Fin (of_int b)" "x = Fin (of_int n)" "a \<le> n" "n \<le> b" using range_ints assms(1,3) .
  obtain c d m where 2: "rMin r = Fin (of_int c)" "rMax r = Fin (of_int d)" "y = Fin (of_int m)" "c \<le> m" "m \<le> d" using range_ints assms(2,4) .
  show ?thesis using inRange_between [of "a - d" "b - c" "n - m"] assms(5,6) 1(4,5) 2(4,5)
    unfolding 1(1-3) 2(1-3) js_sub_Fin of_int_diff [symmetric] by simp
qed

lemma inRange_int32: "inRange SIGNED (fromInt32 w)"
proof -
  have "- (2 ^ 31) \<le> sint w" "sint w \<le> 2 ^ 31 - 1" using sint_greater_eq [of w] sint_less [of w] by simp_all
  then have "(of_int (- (2 ^ 31)) :: rat) \<le> of_int (sint w)" "of_int (sint w) \<le> (of_int (2 ^ 31 - 1) :: rat)"
    by (simp_all only: of_int_le_iff)
  then show ?thesis unfolding inRange_def by (intro exI [of _ "sint w"]) (simp add: SIGNED_def fromInt32_def)
qed

lemma inRange_uint32: "inRange UNSIGNED (fromUint32 w)"
proof -
  have "0 \<le> uint w" "uint w \<le> 2 ^ 32 - 1" using uint_lt2p [of w] by simp_all
  then have "(of_int 0 :: rat) \<le> of_int (uint w)" "of_int (uint w) \<le> (of_int (2 ^ 32 - 1) :: rat)"
    by (simp_all only: of_int_le_iff)
  then show ?thesis unfolding inRange_def by (intro exI [of _ "uint w"]) (simp add: UNSIGNED_def fromUint32_def)
qed

lemma safeRange_consts: "safeRange SIGNED" "safeRange UNSIGNED"
proof -
  have "safeBound (Fin (of_int (- 2147483648)))" "safeBound (Fin (of_int 2147483647))" "safeBound (Fin (of_int 0))" "safeBound (Fin (of_int 4294967295))"
    unfolding safeBound_iff f64.inject of_int_eq_iff by auto
  then show "safeRange SIGNED" "safeRange UNSIGNED" by (simp_all add: safeRange_def SIGNED_def UNSIGNED_def)
qed

lemma litRange_sound: "safeOpt (litRange (JNum n)) \<and> okVal (litRange (JNum n)) (Some n)"
proof (cases "safeBound n")
  case True
  then obtain k where "n = Fin (of_int k)" unfolding safeBound_iff by blast
  then show ?thesis using True by (simp add: litRange_def safeRange_def safeBound_def inRange_def)
qed (auto simp: litRange_def safeBound_def)

lemma safeOpt_litRange: "safeOpt (litRange v)"
  using litRange_sound by (cases v) (auto simp: litRange_def)

lemma binRange_safe:
  assumes "safeOpt l" "safeOpt r"
  shows "safeOpt (binRange e l r)"
proof -
  have nz: "toF64 (of_int k) \<noteq> NegZero" if "isSafeInteger (toF64 (of_int k))" for k using toF64_safe(2) [OF that] by simp
  have "safeBound (js_add (Fin (of_int a)) (Fin (of_int b)))" if "isSafeInteger (js_add (Fin (of_int a)) (Fin (of_int b)))" for a b
    using that nz [of "a + b"] unfolding js_add_Fin of_int_add [symmetric] safeBound_def by blast
  moreover have "safeBound (js_sub (Fin (of_int a)) (Fin (of_int b)))" if "isSafeInteger (js_sub (Fin (of_int a)) (Fin (of_int b)))" for a b
    using that nz [of "a - b"] unfolding js_sub_Fin of_int_diff [symmetric] safeBound_def by blast
  ultimately have s: "isSafeInteger (js_add x y) \<Longrightarrow> safeBound (js_add x y)" "isSafeInteger (js_sub x y) \<Longrightarrow> safeBound (js_sub x y)"
    if "safeBound x" "safeBound y" for x y using that unfolding safeBound_iff [of x] safeBound_iff [of y] by blast+
  show ?thesis
  proof (cases "l = None \<or> r = None")
    case True
    then show ?thesis by (cases l; cases r) (simp_all add: binRange_def Let_def safeRange_consts)
  next
    case False
    then obtain a b where lr: "l = Some a" "r = Some b" by auto
    then have "safeBound (rMin a)" "safeBound (rMax a)" "safeBound (rMin b)" "safeBound (rMax b)" using assms by (simp_all add: safeRange_def)
    note ss = s(1) [OF this(1,3)] s(1) [OF this(2,4)] s(2) [OF this(1,4)] s(2) [OF this(2,3)]
    show ?thesis unfolding lr binRange_def Let_def prod.case option.case using ss safeRange_consts
      by (simp add: safeRange_def)
  qed
qed

lemma binRange_sound:
  assumes "safeOpt l" "safeOpt r" "okVal l a" "okVal r b" "binVal pow e a b v"
  shows "okVal (binRange e l r) v"
proof (cases "kindOf (fld e ''type'') = ''f64''")
  case True
  then obtain x y where v: "a = Some x" "b = Some y" "v = Some (js_bin pow (sfld e ''op'') x y)" using assms(5) by (auto simp: binVal_def)
  let ?op = "sfld e ''op''"
  consider "?op = ''>>>''" | "?op \<in> set [''&'', ''|'', ''^'', ''<<'', ''>>'']" | "?op = ''+''" | "?op = ''-''"
    | "?op \<notin> set [''>>>'', ''&'', ''|'', ''^'', ''<<'', ''>>'', ''+'', ''-'']" by auto
  then show ?thesis
  proof cases
    case 1
    then have "js_bin pow ?op x y = js_shr x y" by (simp add: js_bin_def bitwiseOp_def)
    then show ?thesis using 1 True v inRange_uint32 by (simp add: binRange_def js_shr_def)
  next
    case 2
    then have "js_bin pow ?op x y \<in> {js_and x y, js_or x y, js_xor x y, js_shl x y, js_sar x y}" by (auto simp: js_bin_def bitwiseOp_def)
    then have "inRange SIGNED (js_bin pow ?op x y)" unfolding js_and_def js_or_def js_xor_def js_shl_def js_sar_def using inRange_int32 by auto
    then show ?thesis using 2 True v by (auto simp: binRange_def)
  next
    case 3
    then show ?thesis using True v assms inRange_add [of _ _ x y]
      by (cases l; cases r) (auto simp: binRange_def js_bin_def Let_def)
  next
    case 4
    then show ?thesis using True v assms inRange_sub [of _ _ x y]
      by (cases l; cases r) (auto simp: binRange_def js_bin_def Let_def)
  next
    case 5
    then have "binRange e l r = None" using True by (cases l; cases r) (auto simp: binRange_def Let_def)
    then show ?thesis by simp
  qed
qed (simp add: binRange_def)

section \<open>The map of ranges only weakens\<close>

definition safeR :: "'i ranges \<Rightarrow> bool" where
  "safeR R = (\<forall>i w. jm_get R i = Some w \<longrightarrow> safeOpt w)"

definition weaker :: "'i ranges \<Rightarrow> 'i ranges \<Rightarrow> bool" where
  "weaker R R' = (\<forall>i w. jm_get R i = Some w \<longrightarrow> (\<exists>w'. jm_get R' i = Some w' \<and> (\<forall>v. okVal w v \<longrightarrow> okVal w' v)))"

definition okAt :: "(occurrence \<Rightarrow> 'i) \<Rightarrow> 'i ranges \<Rightarrow> observation \<Rightarrow> bool" where
  "okAt ident R ob = (\<exists>w. jm_get R (ident (fst ob)) = Some w \<and> okVal w (snd ob))"

lemma weaker_refl [simp]: "weaker R R"
  by (auto simp: weaker_def)

lemma weaker_trans: "weaker R R1 \<Longrightarrow> weaker R1 R2 \<Longrightarrow> weaker R R2"
  unfolding weaker_def by meson

lemma okAt_weaker: "okAt ident R ob \<Longrightarrow> weaker R R' \<Longrightarrow> okAt ident R' ob"
  unfolding okAt_def weaker_def by meson

lemma hull_wider:
  assumes "safeRange a" "safeRange b" "inRange a x \<or> inRange b x"
  shows "inRange \<lparr>rMin = math_min [rMin a, rMin b], rMax = math_max [rMax a, rMax b]\<rparr> x"
proof -
  have nn: "rMin a \<noteq> NaN" "rMin b \<noteq> NaN" "rMax a \<noteq> NaN" "rMax b \<noteq> NaN"
    using assms(1,2) by (auto simp: safeRange_def safeBound_def isSafeInteger_def isInteger_def)
  then have "js_le (math_min [rMin a, rMin b]) z" if "js_le (rMin a) z \<or> js_le (rMin b) z" for z
    using that math_min_lower [of "[rMin a, rMin b]"] by auto
  moreover have "js_le z (math_max [rMax a, rMax b])" if "js_le z (rMax a) \<or> js_le z (rMax b)" for z
    using nn that math_max_upper [of "[rMax a, rMax b]"] by auto
  ultimately show ?thesis using assms(3) unfolding inRange_def by auto
qed

lemma hull_safe:
  assumes "safeRange a" "safeRange b"
  shows "safeRange \<lparr>rMin = math_min [rMin a, rMin b], rMax = math_max [rMax a, rMax b]\<rparr>"
proof -
  have "math_min [x, y] \<in> {x, y}" "math_max [x, y] \<in> {x, y}" if xy: "safeBound x" "safeBound y" for x y
  proof -
    obtain a b where "x = Fin (of_int a)" "y = Fin (of_int b)" using xy unfolding safeBound_iff by blast
    then show "math_min [x, y] \<in> {x, y}" "math_max [x, y] \<in> {x, y}"
      by (auto simp: math_min_def math_max_def min2_def max2_def)
  qed
  then show ?thesis using assms unfolding safeRange_def by (metis IntegerRange.select_convs empty_iff insert_iff)
qed

lemma remember_step:
  assumes "safeR R" "safeOpt w"
  shows "safeR (remember i w R)" "weaker R (remember i w R)" "\<exists>w'. jm_get (remember i w R) i = Some w' \<and> (\<forall>v. okVal w v \<longrightarrow> okVal w' v)"
proof -
  define new where "new = (case jm_get R i of None \<Rightarrow> w | Some previous \<Rightarrow> (case (previous, w) of
      (Some p, Some r) \<Rightarrow> Some \<lparr>rMin = math_min [rMin p, rMin r], rMax = math_max [rMax p, rMax r]\<rparr> | _ \<Rightarrow> None))"
  have get: "jm_get (remember i w R) j = (if i = j then Some new else jm_get R j)" for j
    by (simp add: remember_def new_def jm_get_set)
  have old: "safeOpt u \<and> (\<forall>v. okVal u v \<longrightarrow> okVal new v)" if "jm_get R i = Some u" for u
  proof -
    have "safeOpt u" using assms(1) that by (simp add: safeR_def)
    then show ?thesis using assms(2) hull_wider by (cases u; cases w) (auto simp: new_def that okVal_def split: option.splits)
  qed
  have new: "safeOpt new \<and> (\<forall>v. okVal w v \<longrightarrow> okVal new v)"
  proof (cases "jm_get R i")
    case (Some u)
    have "safeOpt u" using assms(1) Some by (simp add: safeR_def)
    then show ?thesis using assms(2) hull_wider hull_safe by (cases u; cases w) (auto simp: new_def Some okVal_def split: option.splits)
  qed (simp add: new_def assms(2))
  show "safeR (remember i w R)" using assms(1) new by (simp add: safeR_def get)
  show "weaker R (remember i w R)" using old by (auto simp: weaker_def get)
  show "\<exists>w'. jm_get (remember i w R) i = Some w' \<and> (\<forall>v. okVal w v \<longrightarrow> okVal w' v)" using new get by simp
qed

lemma forget_step: "safeR R \<Longrightarrow> safeR (jm_set R i None)" "weaker R (jm_set R i None)"
  by (auto simp: safeR_def weaker_def jm_get_set)

text \<open>Steps that keep the map safe and only weaken it, and their folds.\<close>

definition weakens :: "('i ranges \<Rightarrow> 'i ranges) \<Rightarrow> bool" where
  "weakens f = (\<forall>R. safeR R \<longrightarrow> safeR (f R) \<and> weaker R (f R))"

lemma weakens_foldl: "(\<And>x. x \<in> set xs \<Longrightarrow> weakens (\<lambda>R. f R x)) \<Longrightarrow> weakens (\<lambda>R. foldl f R xs)"
proof (induction xs)
  case (Cons x xs)
  then have "weakens (\<lambda>R. f R x)" "weakens (\<lambda>R. foldl f R xs)" by simp_all
  then show ?case unfolding weakens_def using weaker_trans by (metis foldl_Cons)
qed (simp add: weakens_def)

text \<open>What a step does to one element of a fold is only weakened by the rest.\<close>

lemma foldl_reaches:
  assumes "\<And>x. x \<in> set xs \<Longrightarrow> weakens (\<lambda>R. f R x)" "x \<in> set xs" "safeR R"
  shows "\<exists>R0. safeR R0 \<and> weaker (f R0 x) (foldl f R xs)"
  using assms
proof (induction xs arbitrary: R)
  case (Cons y ys)
  have y: "safeR (f R y)" using Cons.prems(1) [of y] Cons.prems(3) by (simp add: weakens_def)
  show ?case
  proof (cases "x = y")
    case True
    have "weakens (\<lambda>R. foldl f R ys)" using Cons.prems(1) by (intro weakens_foldl) simp
    then have "weaker (f R y) (foldl f (f R y) ys)" using y by (simp add: weakens_def)
    then show ?thesis using True Cons.prems(3) by auto
  next
    case False
    then show ?thesis using Cons.IH [of "f R y"] Cons.prems y by auto
  qed
qed simp

definition opaqueItem :: "(occurrence \<Rightarrow> 'i) \<Rightarrow> occurrence \<Rightarrow> 'i ranges \<Rightarrow> nat \<times> json \<Rightarrow> 'i ranges" where
  "opaqueItem ident p R ix = opaque ident (p @ [Index (fst ix)]) (snd ix) R"

definition opaqueEntry :: "(occurrence \<Rightarrow> 'i) \<Rightarrow> occurrence \<Rightarrow> 'i ranges \<Rightarrow> string \<times> json \<Rightarrow> 'i ranges" where
  "opaqueEntry ident p R kx = (if fst kx = ''type'' \<or> fst kx = ''loc'' then R else opaque ident (p @ [Key (fst kx)]) (snd kx) R)"

definition opaqueNode :: "(occurrence \<Rightarrow> 'i) \<Rightarrow> occurrence \<Rightarrow> json \<Rightarrow> 'i ranges \<Rightarrow> 'i ranges" where
  "opaqueNode ident p v R = (if isStr (fld v ''kind'') then jm_set R (ident p) None else R)"

lemma opaque_eqs:
  "opaque ident p (JArr xs) R = foldl (opaqueItem ident p) R (enumerate 0 xs)"
  "opaque ident p (JObj kvs) R = foldl (opaqueEntry ident p) (opaqueNode ident p (JObj kvs) R) kvs"
  unfolding opaqueItem_def [abs_def] opaqueEntry_def [abs_def] opaqueNode_def
  by (simp_all only: opaque.simps [of ident p "JArr xs"] opaque.simps [of ident p "JObj kvs"] json.case)

lemma opaqueNode_weakens: "weakens (opaqueNode ident p v)"
  using forget_step by (auto simp: opaqueNode_def weakens_def)

lemma weakens_comp: "weakens f \<Longrightarrow> weakens g \<Longrightarrow> weakens (\<lambda>R. g (f R))"
  unfolding weakens_def using weaker_trans by blast

lemma opaque_weakens: "weakens (opaque ident p v)"
proof (induction v arbitrary: p rule: measure_induct_rule [of jsz])
  case (less v)
  show ?case
  proof (cases v)
    case (JArr xs)
    have "weakens (\<lambda>R. opaqueItem ident p R ix)" if "ix \<in> set (enumerate 0 xs)" for ix
      using less [of "snd ix"] that jsz_arrOf_member [of "snd ix" v] nth_mem [of "fst ix" xs] JArr
      by (simp add: in_set_enumerate_eq opaqueItem_def)
    from weakens_foldl [of "enumerate 0 xs" "opaqueItem ident p", OF this] show ?thesis
      unfolding JArr opaque_eqs [abs_def] .
  next
    case (JObj kvs)
    have "weakens (\<lambda>R. opaqueEntry ident p R kx)" if "kx \<in> set kvs" for kx
      using less [of "snd kx"] that jsz_objEntries_member [of kx v] JObj by (cases kx) (auto simp: weakens_def opaqueEntry_def)
    from weakens_comp [OF opaqueNode_weakens weakens_foldl [of kvs "opaqueEntry ident p", OF this]] show ?thesis
      unfolding JObj opaque_eqs [abs_def] .
  qed (simp_all add: opaque.simps weakens_def)
qed

lemma opaqueEntry_weakens: "weakens (\<lambda>R. opaqueEntry ident p R kx)"
  using opaque_weakens [of ident "p @ [Key (fst kx)]" "snd kx"] by (auto simp: opaqueEntry_def weakens_def)

lemma opaqueItem_weakens: "weakens (\<lambda>R. opaqueItem ident p R ix)"
  unfolding opaqueItem_def by (rule opaque_weakens)

definition forgotten :: "'i ranges \<Rightarrow> 'i \<Rightarrow> bool" where
  "forgotten R i = (\<exists>w. jm_get R i = Some w \<and> (\<forall>x. okVal w x))"

lemma forgotten_weaker: "forgotten R i \<Longrightarrow> weaker R R' \<Longrightarrow> forgotten R' i"
  unfolding forgotten_def weaker_def by blast

lemma opaque_forgets: "below p v q \<Longrightarrow> safeR R \<Longrightarrow> forgotten (opaque ident p v R) (ident q)"
proof (induction arbitrary: R rule: below.induct)
  case (at kvs p)
  have "safeR (opaqueNode ident p (JObj kvs) R)" using at opaqueNode_weakens [of ident p] by (simp add: weakens_def)
  then have w: "weaker (opaqueNode ident p (JObj kvs) R) (opaque ident p (JObj kvs) R)"
    unfolding opaque_eqs using weakens_foldl [of kvs "opaqueEntry ident p", OF opaqueEntry_weakens] unfolding weakens_def by blast
  have "jm_get (opaqueNode ident p (JObj kvs) R) (ident p) = Some None" using at(1) by (simp add: opaqueNode_def jm_get_set)
  then have "forgotten (opaqueNode ident p (JObj kvs) R) (ident p)" unfolding forgotten_def by (intro exI [of _ None] conjI allI okVal_simps(1))
  from this w show ?case by (rule forgotten_weaker)
next
  case (arr i xs p q)
  have "(i, xs ! i) \<in> set (enumerate 0 xs)" using arr(1) by (simp add: in_set_enumerate_eq)
  from foldl_reaches [of "enumerate 0 xs" "opaqueItem ident p", OF opaqueItem_weakens this arr.prems] obtain R0 where
    R0: "safeR R0" "weaker (opaque ident (p @ [Index i]) (xs ! i) R0) (opaque ident p (JArr xs) R)"
    unfolding opaque_eqs opaqueItem_def fst_conv snd_conv by blast
  from forgotten_weaker [OF arr.IH [OF R0(1)] R0(2)] show ?case .
next
  case (obj k x kvs p q)
  have "safeR (opaqueNode ident p (JObj kvs) R)" using obj.prems opaqueNode_weakens [of ident p] by (simp add: weakens_def)
  from foldl_reaches [of kvs "opaqueEntry ident p", OF opaqueEntry_weakens obj(1) this] obtain R0 where
    R0: "safeR R0" "weaker (opaqueEntry ident p R0 (k, x)) (opaque ident p (JObj kvs) R)"
    unfolding opaque_eqs by blast
  have "opaqueEntry ident p R0 (k, x) = opaque ident (p @ [Key k]) x R0" using obj(2,3) by (simp add: opaqueEntry_def)
  with R0(2) have "weaker (opaque ident (p @ [Key k]) x R0) (opaque ident p (JObj kvs) R)" by simp
  from forgotten_weaker [OF obj.IH [OF R0(1)] this] show ?case .
qed

section \<open>Expressions\<close>

definition safeF :: "facts \<Rightarrow> bool" where
  "safeF F = (\<forall>i r. jm_get F i = Some r \<longrightarrow> safeRange r)"

definition models :: "facts \<Rightarrow> store \<Rightarrow> bool" where
  "models F \<sigma> = (\<forall>i r. jm_get F i = Some r \<longrightarrow> okVal (Some r) (\<sigma> i))"

lemma models_empty [simp]: "models [] \<sigma>" "safeF []"
  by (simp_all add: models_def safeF_def)

lemma safeOpt_get: "safeF F \<Longrightarrow> safeOpt (jm_get F i)"
  by (cases "jm_get F i") (auto simp: safeF_def)

lemma okVal_get: "models F \<sigma> \<Longrightarrow> okVal (jm_get F i) (\<sigma> i)"
  by (cases "jm_get F i") (auto simp: models_def)

text \<open>The analysis of an expression, kind by kind.\<close>

definition unRange :: "json \<Rightarrow> IntegerRange option" where
  "unRange e = (if sfld e ''op'' = ''~'' then Some SIGNED else None)"

lemma rangeExpr_lit: "kindOf e = ''numLit'' \<Longrightarrow>
    rangeExpr ident p e F R = (litRange (fld e ''value''), F, remember (ident p) (litRange (fld e ''value'')) R)"
  by (subst rangeExpr.simps) (simp add: Let_def)

lemma rangeExpr_var: "kindOf e = ''varRef'' \<Longrightarrow>
    rangeExpr ident p e F R = (jm_get F (sfld e ''localId''), F, remember (ident p) (jm_get F (sfld e ''localId'')) R)"
  by (subst rangeExpr.simps) (simp add: Let_def)

lemma rangeExpr_bin: "kindOf e = ''bin'' \<Longrightarrow> rangeExpr ident (p @ [Key ''left'']) (fld e ''left'') F R = (l, F1, R1) \<Longrightarrow>
    rangeExpr ident (p @ [Key ''right'']) (fld e ''right'') F1 R1 = (r, F2, R2) \<Longrightarrow>
    rangeExpr ident p e F R = (binRange e l r, F2, remember (ident p) (binRange e l r) R2)"
  by (subst rangeExpr.simps) (simp add: Let_def)

lemma rangeExpr_un: "kindOf e = ''unary'' \<Longrightarrow> rangeExpr ident (p @ [Key ''operand'']) (fld e ''operand'') F R = (l, F1, R1) \<Longrightarrow>
    rangeExpr ident p e F R = (unRange e, F1, remember (ident p) (unRange e) R1)"
  by (subst rangeExpr.simps) (simp add: Let_def unRange_def)

lemma rangeExpr_other: "kindOf e \<notin> set FOLLOWED \<Longrightarrow> rangeExpr ident p e F R = (None, [], opaque ident p e R)"
  by (subst rangeExpr.simps) (simp add: FOLLOWED_def)

lemma unRange_safe: "safeOpt (unRange e)"
  by (simp add: unRange_def safeRange_consts)

lemma unRange_sound: "unVal e a v \<Longrightarrow> okVal (unRange e) v"
  using inRange_int32 by (auto simp: unRange_def unVal_def js_bitnot_def)

definition exprStep :: "(occurrence \<Rightarrow> 'i) \<Rightarrow> occurrence \<Rightarrow> json \<Rightarrow> bool" where
  "exprStep ident p e = (\<forall>F R x F' R'. rangeExpr ident p e F R = (x, F', R') \<longrightarrow> safeR R \<longrightarrow> safeF F \<longrightarrow>
     safeR R' \<and> weaker R R' \<and> safeF F' \<and> safeOpt x)"

lemma exprStepD:
  "exprStep ident p e \<Longrightarrow> rangeExpr ident p e F R = (x, F', R') \<Longrightarrow> safeR R \<Longrightarrow> safeF F \<Longrightarrow>
     safeR R' \<and> weaker R R' \<and> safeF F' \<and> safeOpt x"
  unfolding exprStep_def by blast

text \<open>The last step of every followed expression.\<close>

lemma remember_last:
  assumes "safeR R1" "safeOpt x" "weaker R R1"
  shows "safeR (remember i x R1) \<and> weaker R (remember i x R1)"
  using remember_step(1,2) [OF assms(1,2), of i] weaker_trans [OF assms(3)] by blast

lemma rangeExpr_step: "exprStep ident p e"
proof (induction e arbitrary: p rule: measure_induct_rule [of jsz])
  case (less e)
  have goal: "safeR R' \<and> weaker R R' \<and> safeF F' \<and> safeOpt x"
    if run: "rangeExpr ident p e F R = (x, F', R')" and R: "safeR R" and F: "safeF F" for F R x F' R'
  proof -
    consider "kindOf e = ''numLit''" | "kindOf e = ''varRef''" | "kindOf e = ''bin''" | "kindOf e = ''unary''" | "kindOf e \<notin> set FOLLOWED"
      by (auto simp: FOLLOWED_def)
    then show ?thesis
    proof cases
      case 1
      have "(x, F', R') = (litRange (fld e ''value''), F, remember (ident p) (litRange (fld e ''value'')) R)"
        unfolding run [symmetric] by (rule rangeExpr_lit) (rule 1)
      then show ?thesis using F remember_last [OF R safeOpt_litRange weaker_refl] safeOpt_litRange by blast
    next
      case 2
      have "(x, F', R') = (jm_get F (sfld e ''localId''), F, remember (ident p) (jm_get F (sfld e ''localId'')) R)"
        unfolding run [symmetric] by (rule rangeExpr_var) (rule 2)
      then show ?thesis using F remember_last [OF R safeOpt_get [OF F] weaker_refl] safeOpt_get [OF F] by blast
    next
      case 3
      obtain l F1 R1 where l: "rangeExpr ident (p @ [Key ''left'']) (fld e ''left'') F R = (l, F1, R1)" using prod_cases3 by blast
      obtain r F2 R2 where r: "rangeExpr ident (p @ [Key ''right'']) (fld e ''right'') F1 R1 = (r, F2, R2)" using prod_cases3 by blast
      note 1 = exprStepD [OF less l R F] note 2 = exprStepD [OF less r]
      have 2: "safeR R2 \<and> weaker R R2 \<and> safeF F2 \<and> safeOpt l \<and> safeOpt r" using 1 2 3 weaker_trans by simp blast
      have "(x, F', R') = (binRange e l r, F2, remember (ident p) (binRange e l r) R2)"
        unfolding run [symmetric] by (rule rangeExpr_bin [OF 3 l r])
      then show ?thesis using 2 remember_last [of R2 "binRange e l r" R] binRange_safe [of l r e] by simp
    next
      case 4
      obtain l F1 R1 where l: "rangeExpr ident (p @ [Key ''operand'']) (fld e ''operand'') F R = (l, F1, R1)" using prod_cases3 by blast
      note 1 = exprStepD [OF less l R F]
      have "(x, F', R') = (unRange e, F1, remember (ident p) (unRange e) R1)" unfolding run [symmetric] by (rule rangeExpr_un [OF 4 l])
      then show ?thesis using 1 4 remember_last [of R1 "unRange e" R] unRange_safe by simp
    next
      case 5
      have "(x, F', R') = (None, [], opaque ident p e R)" unfolding run [symmetric] by (rule rangeExpr_other [OF 5])
      then show ?thesis using opaque_weakens [of ident p e] R by (simp add: weakens_def)
    qed
  qed
  then show ?case unfolding exprStep_def by blast
qed

lemmas rangeExpr_safe = exprStepD [OF rangeExpr_step]

lemma okAt_remember:
  assumes "safeR R" "safeOpt x" "okVal x v"
  shows "okAt ident (remember (ident p) x R) (p, v)"
  using remember_step(3) [OF assms(1,2), of "ident p"] assms(3) by (auto simp: okAt_def)

lemma okAt_below:
  assumes "list_all (\<lambda>ob. below p e (fst ob)) xs" "safeR R"
  shows "list_all (okAt ident (opaque ident p e R)) xs"
proof -
  have "forgotten (opaque ident p e R) (ident (fst ob))" if "ob \<in> set xs" for ob
    using assms that opaque_forgets unfolding list_all_iff by blast
  then show ?thesis unfolding list_all_iff okAt_def forgotten_def by blast
qed

lemma list_all_okAt: "list_all (okAt ident R) xs \<Longrightarrow> weaker R R' \<Longrightarrow> list_all (okAt ident R') xs"
  unfolding list_all_iff using okAt_weaker by blast

lemma evalE_sound:
  "evalE pow p e \<sigma> res \<sigma>' xs \<Longrightarrow> rangeExpr ident p e F R = (x, F', R') \<Longrightarrow> models F \<sigma> \<Longrightarrow> safeF F \<Longrightarrow> safeR R \<Longrightarrow>
     list_all (okAt ident R') xs \<and> (\<forall>v. res = Done v \<longrightarrow> okVal x v \<and> models F' \<sigma>')"
proof (induction arbitrary: F R x F' R' rule: evalE.induct)
  case (stuck p e \<sigma>)
  then show ?case by simp
next
  case (lit e n p \<sigma>)
  have "(x, F', R') = (litRange (JNum n), F, remember (ident p) (litRange (JNum n)) R)"
    unfolding lit.prems(1) [symmetric] lit.hyps(2) [symmetric] by (rule rangeExpr_lit) (rule lit.hyps(1))
  then show ?case using lit.prems litRange_sound [of n] okAt_remember [of R "litRange (JNum n)" "Some n"] by auto
next
  case (var e v \<sigma> p)
  have "(x, F', R') = (jm_get F (sfld e ''localId''), F, remember (ident p) (jm_get F (sfld e ''localId'')) R)"
    unfolding var.prems(1) [symmetric] by (rule rangeExpr_var) (rule var.hyps(1))
  then show ?case using var.prems var.hyps okVal_get [of F \<sigma>] safeOpt_get [of F] okAt_remember [of R] by auto
next
  case (bin e p \<sigma> a \<sigma>1 xs b \<sigma>2 ys v)
  obtain l F1 R1 where l: "rangeExpr ident (p @ [Key ''left'']) (fld e ''left'') F R = (l, F1, R1)" using prod_cases3 by blast
  obtain r F2 R2 where r: "rangeExpr ident (p @ [Key ''right'']) (fld e ''right'') F1 R1 = (r, F2, R2)" using prod_cases3 by blast
  note s1 = rangeExpr_safe [OF l bin.prems(4,3)]
  then have s2: "safeR R2 \<and> weaker R1 R2 \<and> safeF F2 \<and> safeOpt r" using rangeExpr_safe [OF r] by blast
  have 1: "list_all (okAt ident R1) xs" "okVal l a" "models F1 \<sigma>1" using bin.IH(1) [OF l bin.prems(2-4)] by simp_all
  have 2: "list_all (okAt ident R2) ys" "okVal r b" "models F2 \<sigma>2" using bin.IH(2) [OF r 1(3)] s1 by simp_all
  have x: "(x, F', R') = (binRange e l r, F2, remember (ident p) (binRange e l r) R2)"
    unfolding bin.prems(1) [symmetric] by (rule rangeExpr_bin [OF bin.hyps(1) l r])
  have v: "okVal (binRange e l r) v" "safeOpt (binRange e l r)"
    using binRange_sound [of l r a b pow e v] binRange_safe [of l r e] s1 s2 1(2) 2(2) bin.hyps(4) by simp_all
  have w: "weaker R2 R'" using x remember_step(2) [of R2 "binRange e l r" "ident p"] s2 v(2) by simp
  have "list_all (okAt ident R') xs" using list_all_okAt [OF 1(1)] weaker_trans [OF _ w] s2 by simp
  moreover have "list_all (okAt ident R') ys" by (rule list_all_okAt [OF 2(1) w])
  moreover have "okAt ident R' (p, v)" using x okAt_remember [of R2 "binRange e l r" v ident p] s2 v by simp
  ultimately show ?case using x v(1) 2(3) by simp
next
  case (binL e p \<sigma> \<sigma>1 xs)
  obtain l F1 R1 where l: "rangeExpr ident (p @ [Key ''left'']) (fld e ''left'') F R = (l, F1, R1)" using prod_cases3 by blast
  obtain r F2 R2 where r: "rangeExpr ident (p @ [Key ''right'']) (fld e ''right'') F1 R1 = (r, F2, R2)" using prod_cases3 by blast
  note s1 = rangeExpr_safe [OF l binL.prems(4,3)]
  then have s2: "safeR R2 \<and> weaker R1 R2 \<and> safeF F2 \<and> safeOpt r" using rangeExpr_safe [OF r] by blast
  have x: "R' = remember (ident p) (binRange e l r) R2"
    using rangeExpr_bin [OF binL.hyps(1) l r] binL.prems(1) by simp
  have "weaker R2 R'" unfolding x using remember_step(2) [of R2 "binRange e l r"] binRange_safe [of l r e] s1 s2 by simp
  then have w: "weaker R1 R'" using s2 weaker_trans [of R1 R2 R'] by simp
  have "list_all (okAt ident R1) xs" using binL.IH [OF l binL.prems(2-4)] by simp
  from list_all_okAt [OF this w] show ?case by simp
next
  case (binR e p \<sigma> a \<sigma>1 xs \<sigma>2 ys)
  obtain l F1 R1 where l: "rangeExpr ident (p @ [Key ''left'']) (fld e ''left'') F R = (l, F1, R1)" using prod_cases3 by blast
  obtain r F2 R2 where r: "rangeExpr ident (p @ [Key ''right'']) (fld e ''right'') F1 R1 = (r, F2, R2)" using prod_cases3 by blast
  note s1 = rangeExpr_safe [OF l binR.prems(4,3)]
  then have s2: "safeR R2 \<and> weaker R1 R2 \<and> safeF F2 \<and> safeOpt r" using rangeExpr_safe [OF r] by blast
  have x: "R' = remember (ident p) (binRange e l r) R2"
    using rangeExpr_bin [OF binR.hyps(1) l r] binR.prems(1) by simp
  have w: "weaker R2 R'" unfolding x using remember_step(2) [of R2 "binRange e l r"] binRange_safe [of l r e] s1 s2 by simp
  have 1: "list_all (okAt ident R1) xs" "models F1 \<sigma>1" using binR.IH(1) [OF l binR.prems(2-4)] by simp_all
  have 2: "list_all (okAt ident R2) ys" using binR.IH(2) [OF r 1(2)] s1 by simp
  have "list_all (okAt ident R') xs" using list_all_okAt [OF 1(1)] weaker_trans [OF _ w] s2 by simp
  then show ?case using list_all_okAt [OF 2 w] by simp
next
  case (un e p \<sigma> a \<sigma>1 xs v)
  obtain l F1 R1 where l: "rangeExpr ident (p @ [Key ''operand'']) (fld e ''operand'') F R = (l, F1, R1)" using prod_cases3 by blast
  note s1 = rangeExpr_safe [OF l un.prems(4,3)]
  have x: "(x, F', R') = (unRange e, F1, remember (ident p) (unRange e) R1)" unfolding un.prems(1) [symmetric] by (rule rangeExpr_un [OF un.hyps(1) l])
  note v = unRange_sound [OF un.hyps(3)] unRange_safe [of e]
  have 1: "list_all (okAt ident R1) xs" "models F1 \<sigma>1" using un.IH [OF l un.prems(2-4)] by simp_all
  have "list_all (okAt ident R') xs" using x list_all_okAt [OF 1(1)] remember_step(2) [of R1 "unRange e"] s1 v(2) by simp
  moreover have "okAt ident R' (p, v)" using x okAt_remember [of R1 "unRange e" v ident p] s1 v by simp
  ultimately show ?case using x v(1) 1(2) by simp
next
  case (unH e p \<sigma> \<sigma>1 xs)
  obtain l F1 R1 where l: "rangeExpr ident (p @ [Key ''operand'']) (fld e ''operand'') F R = (l, F1, R1)" using prod_cases3 by blast
  note s1 = rangeExpr_safe [OF l unH.prems(4,3)]
  have x: "R' = remember (ident p) (unRange e) R1" using rangeExpr_un [OF unH.hyps(1) l] unH.prems(1) by simp
  have "list_all (okAt ident R1) xs" using unH.IH [OF l unH.prems(2-4)] by simp
  from list_all_okAt [OF this] show ?case using x unRange_safe [of e] remember_step(2) [of R1 "unRange e"] s1 by simp
next
  case (other e p xs \<sigma> res \<sigma>1)
  have "(x, F', R') = (None, [], opaque ident p e R)" unfolding other.prems(1) [symmetric] by (rule rangeExpr_other [OF other.hyps(1)])
  then show ?case using okAt_below [OF other.hyps(2) other.prems(4)] by simp
qed

section \<open>Statements\<close>

lemma bindRange_get: "jm_get (bindRange el i w F) j =
    (if j = i then (if i \<in> set el then w else None) else jm_get F j)"
  by (cases w) (auto simp: bindRange_def Let_def jm_get_set jm_get_delete)

lemma bindRange_safe: "safeF F \<Longrightarrow> safeOpt w \<Longrightarrow> safeF (bindRange el i w F)"
  by (auto simp: safeF_def bindRange_get split: if_splits)

lemma bindRange_models: "models F \<sigma> \<Longrightarrow> okVal w v \<Longrightarrow> models (bindRange el i w F) (\<sigma>(i := v))"
  by (auto simp: models_def bindRange_get split: if_splits)

lemma rangeValue_safe:
  assumes "rangeValue ident p v F R = (x, F', R')" "safeR R" "safeF F"
  shows "safeR R' \<and> weaker R R' \<and> safeF F' \<and> safeOpt x"
  using assms rangeExpr_safe [of ident p v F R x F' R'] by (cases "truthy v") (auto simp: rangeValue_def)

lemma rangeStmt_bind: "kindOf s \<in> {''varDecl'', ''assign''} \<Longrightarrow>
    rangeValue ident (p @ [Key (boundKey s)]) (fld s (boundKey s)) F R = (r, F1, R1) \<Longrightarrow>
    rangeStmt ident el p s F R = (bindRange el (sfld s ''localId'') r F1, R1)"
  by (subst rangeStmt.simps) (auto simp: boundKey_def Let_def)

lemma rangeStmt_return: "kindOf s = ''return'' \<Longrightarrow> rangeValue ident (p @ [Key ''value'']) (fld s ''value'') F R = (r, F1, R1) \<Longrightarrow>
    rangeStmt ident el p s F R = ([], R1)"
  by (subst rangeStmt.simps) simp

lemma rangeStmt_expr: "kindOf s = ''exprStmt'' \<Longrightarrow> rangeExpr ident (p @ [Key ''expr'']) (fld s ''expr'') F R = (r, F1, R1) \<Longrightarrow>
    rangeStmt ident el p s F R = (F1, R1)"
  by (subst rangeStmt.simps) simp

lemma rangeStmt_other: "kindOf s \<notin> set SIMPLE_STMTS \<Longrightarrow>
    rangeStmt ident el p s F R = ([], rangeEntries ident el p (kindOf s) (objEntries s) R)"
  by (subst rangeStmt.simps) (simp add: SIMPLE_STMTS_def)

lemma stmt_kinds:
  obtains (bind) "kindOf s \<in> {''varDecl'', ''assign''}" | (ret) "kindOf s = ''return''" | (expr) "kindOf s = ''exprStmt''"
    | (other) "kindOf s \<notin> set SIMPLE_STMTS"
  by (auto simp: SIMPLE_STMTS_def)

text \<open>Every part of the statement pass keeps the map safe and only weakens it.\<close>

definition onlyWeakens :: "'i ranges \<Rightarrow> 'i ranges \<Rightarrow> bool" where
  "onlyWeakens R R' = (safeR R \<longrightarrow> safeR R' \<and> weaker R R')"

lemma onlyWeakens_refl [simp]: "onlyWeakens R R"
  by (simp add: onlyWeakens_def)

lemma onlyWeakens_trans: "onlyWeakens R R1 \<Longrightarrow> onlyWeakens R1 R2 \<Longrightarrow> onlyWeakens R R2"
  using weaker_trans [of R R1 R2] by (auto simp: onlyWeakens_def)

lemma opaque_grows: "onlyWeakens R (opaque ident p v R)"
  using opaque_weakens [of ident p v] by (simp add: onlyWeakens_def weakens_def)

lemma rangeStmt_grows:
  assumes other: "kindOf s \<notin> set SIMPLE_STMTS \<Longrightarrow> onlyWeakens R (rangeEntries ident el p (kindOf s) (objEntries s) R)"
    and "safeF F" "safeR R"
  shows "onlyWeakens R (snd (rangeStmt ident el p s F R)) \<and> safeF (fst (rangeStmt ident el p s F R))"
proof (cases s rule: stmt_kinds)
  case bind
  obtain r F1 R1 where v: "rangeValue ident (p @ [Key (boundKey s)]) (fld s (boundKey s)) F R = (r, F1, R1)" using prod_cases3 by blast
  then show ?thesis unfolding rangeStmt_bind [OF bind v] using rangeValue_safe [OF v assms(3,2)] bindRange_safe by (simp add: onlyWeakens_def)
next
  case ret
  obtain r F1 R1 where v: "rangeValue ident (p @ [Key ''value'']) (fld s ''value'') F R = (r, F1, R1)" using prod_cases3 by blast
  then show ?thesis unfolding rangeStmt_return [OF ret v] using rangeValue_safe [OF v assms(3,2)] by (simp add: onlyWeakens_def)
next
  case expr
  obtain r F1 R1 where v: "rangeExpr ident (p @ [Key ''expr'']) (fld s ''expr'') F R = (r, F1, R1)" using prod_cases3 by blast
  then show ?thesis unfolding rangeStmt_expr [OF expr v] using rangeExpr_safe [OF v assms(3,2)] by (simp add: onlyWeakens_def)
next
  case other
  then show ?thesis unfolding rangeStmt_other [OF other] using assms(1) by simp
qed

lemma range_grows:
  fixes R :: "'i ranges"
  shows rangeBody_grows: "safeF F \<Longrightarrow> onlyWeakens R (rangeBody ident el p ss i F R)"
    and "safeF F \<Longrightarrow> safeR R \<Longrightarrow> onlyWeakens R (snd (rangeStmt ident el p s F R)) \<and> safeF (fst (rangeStmt ident el p s F R))"
    and rangeEntries_grows: "onlyWeakens R (rangeEntries ident el p kind kvs R)"
    and rangeCases_grows: "onlyWeakens R (rangeCases ident el p cs i R)"
proof (induction ident el p ss i F R and ident el p s F R and ident el p kind kvs R and ident el p cs i R
    rule: rangeBody_rangeStmt_rangeEntries_rangeCases.induct)
  case (2 ident el p s ss i F R)
  obtain F1 R1 where s: "rangeStmt ident el (p @ [Index i]) s F R = (F1, R1)" by (cases "rangeStmt ident el (p @ [Index i]) s F R")
  show ?case
  proof (cases "safeR R")
    case True
    have 1: "onlyWeakens R R1" "safeF F1" using 2(1) [OF 2(3) True] s by simp_all
    show ?thesis using onlyWeakens_trans [OF 1(1) 2(2) [OF s [symmetric] 1(2)]] s by simp
  qed (simp add: onlyWeakens_def)
next
  case (3 ident el p s F R)
  show ?case using 3(1) 3(2,3) by (intro rangeStmt_grows) (auto simp: SIMPLE_STMTS_def)
next
  case (5 ident el p kind kv kvs R)
  show ?case unfolding rangeEntries.simps
    by (rule onlyWeakens_trans [OF _ 5(3)]) (use 5(1,2) opaque_grows in auto)
next
  case (7 ident el p c cs i R)
  show ?case unfolding rangeCases.simps
    by (rule onlyWeakens_trans [OF opaque_grows onlyWeakens_trans [OF 7(1) 7(2)]]) simp
qed simp_all

text \<open>The entries of a statement and the cases of a switch are visited one after the other.\<close>

definition entryRange :: "(occurrence \<Rightarrow> 'i) \<Rightarrow> string list \<Rightarrow> occurrence \<Rightarrow> string \<Rightarrow> 'i ranges \<Rightarrow> string \<times> json \<Rightarrow> 'i ranges" where
  "entryRange ident el p kind R kv = rangeEntries ident el p kind [kv] R"

lemma rangeEntries_foldl: "rangeEntries ident el p kind kvs R = foldl (entryRange ident el p kind) R kvs"
  by (induction kvs arbitrary: R) (simp_all add: entryRange_def)

definition caseRange :: "(occurrence \<Rightarrow> 'i) \<Rightarrow> string list \<Rightarrow> occurrence \<Rightarrow> 'i ranges \<Rightarrow> nat \<times> json \<Rightarrow> 'i ranges" where
  "caseRange ident el p R ic = rangeCases ident el p [snd ic] (fst ic) R"

lemma rangeCases_foldl: "rangeCases ident el p cs i R = foldl (caseRange ident el p) R (enumerate i cs)"
  by (induction cs arbitrary: i R) (simp_all add: caseRange_def)

lemma entryRange_weakens: "weakens (\<lambda>R. entryRange ident el p kind R kv)"
  unfolding weakens_def entryRange_def using rangeEntries_grows unfolding onlyWeakens_def by blast

lemma caseRange_weakens: "weakens (\<lambda>R. caseRange ident el p R ic)"
  unfolding weakens_def caseRange_def using rangeCases_grows unfolding onlyWeakens_def by blast

lemma entries_reach:
  assumes "kv \<in> set (objEntries s)" "safeR R"
  shows "\<exists>R0. safeR R0 \<and> weaker (entryRange ident el p kind R0 kv) (rangeEntries ident el p kind (objEntries s) R)"
  unfolding rangeEntries_foldl by (rule foldl_reaches [OF entryRange_weakens assms])

lemma cases_reach:
  assumes "i < length cs" "safeR R"
  shows "\<exists>R0. safeR R0 \<and> weaker (caseRange ident el p R0 (i, cs ! i)) (rangeCases ident el p cs 0 R)"
  unfolding rangeCases_foldl using assms by (intro foldl_reaches [OF caseRange_weakens]) (simp_all add: in_set_enumerate_eq)

lemma case_reach:
  assumes "kind = ''switch''" "(''cases'', v) \<in> set (objEntries s)" "i < length (arrOf v)" "safeR R"
  shows "\<exists>R0. safeR R0 \<and> weaker (caseRange ident el (p @ [Key ''cases'']) R0 (i, arrOf v ! i)) (rangeEntries ident el p kind (objEntries s) R)"
proof -
  obtain R0 where R0: "safeR R0" "weaker (entryRange ident el p kind R0 (''cases'', v)) (rangeEntries ident el p kind (objEntries s) R)"
    using entries_reach [OF assms(2,4)] by blast
  have "entryRange ident el p kind R0 (''cases'', v) = rangeCases ident el (p @ [Key ''cases'']) (arrOf v) 0 R0"
    using assms(1) by (simp add: entryRange_def BODY_KEYS_def)
  with R0(2) have w: "weaker (rangeCases ident el (p @ [Key ''cases'']) (arrOf v) 0 R0) (rangeEntries ident el p kind (objEntries s) R)" by simp
  obtain R1 where R1: "safeR R1" "weaker (caseRange ident el (p @ [Key ''cases'']) R1 (i, arrOf v ! i)) (rangeCases ident el (p @ [Key ''cases'']) (arrOf v) 0 R0)"
    using cases_reach [OF assms(3) R0(1)] by blast
  show ?thesis by (intro exI [of _ R1] conjI R1(1) weaker_trans [OF R1(2) w])
qed

lemma okAt_forgotten: "forgotten R (ident (fst ob)) \<Longrightarrow> okAt ident R ob"
  by (auto simp: forgotten_def okAt_def)

lemma okAt_in: "list_all (okAt ident R) xs \<Longrightarrow> ob \<in> set xs \<Longrightarrow> weaker R R' \<Longrightarrow> okAt ident R' ob"
  unfolding list_all_iff using okAt_weaker by blast

lemma safe_empty [simp]: "safeR []"
  by (simp add: safeR_def)

text \<open>What an execution observes agrees with the ranges the analysis ends with: for a list of
  statements, for one statement, and for what is nested in one.\<close>

definition bodyOk :: "(occurrence \<Rightarrow> 'i) \<Rightarrow> string list \<Rightarrow> occurrence \<Rightarrow> nat \<Rightarrow> json list \<Rightarrow> store \<Rightarrow> observation list \<Rightarrow> bool" where
  "bodyOk ident el p i ss \<sigma> xs = (\<forall>F R. models F \<sigma> \<longrightarrow> safeF F \<longrightarrow> safeR R \<longrightarrow> list_all (okAt ident (rangeBody ident el p ss i F R)) xs)"

definition stmtOk :: "(occurrence \<Rightarrow> 'i) \<Rightarrow> string list \<Rightarrow> occurrence \<Rightarrow> json \<Rightarrow> store \<Rightarrow> store option \<Rightarrow> observation list \<Rightarrow> bool" where
  "stmtOk ident el p s \<sigma> res xs = (\<forall>F R F1 R1. rangeStmt ident el p s F R = (F1, R1) \<longrightarrow> models F \<sigma> \<longrightarrow> safeF F \<longrightarrow> safeR R \<longrightarrow>
     list_all (okAt ident R1) xs \<and> (\<forall>\<sigma>1. res = Some \<sigma>1 \<longrightarrow> models F1 \<sigma>1))"

definition nestOk :: "(occurrence \<Rightarrow> 'i) \<Rightarrow> string list \<Rightarrow> occurrence \<Rightarrow> json \<Rightarrow> observation \<Rightarrow> bool" where
  "nestOk ident el p s ob = (\<forall>R. safeR R \<longrightarrow> okAt ident (rangeEntries ident el p (kindOf s) (objEntries s) R) ob)"

lemma bodyOkD: "bodyOk ident el p i ss \<sigma> xs \<Longrightarrow> models F \<sigma> \<Longrightarrow> safeF F \<Longrightarrow> safeR R \<Longrightarrow> list_all (okAt ident (rangeBody ident el p ss i F R)) xs"
  unfolding bodyOk_def by blast

lemma stmtOkI:
  assumes "\<And>F R F1 R1. rangeStmt ident el p s F R = (F1, R1) \<Longrightarrow> models F \<sigma> \<Longrightarrow> safeF F \<Longrightarrow> safeR R \<Longrightarrow>
    list_all (okAt ident R1) xs \<and> (\<forall>\<sigma>1. res = Some \<sigma>1 \<longrightarrow> models F1 \<sigma>1)"
  shows "stmtOk ident el p s \<sigma> res xs"
  unfolding stmtOk_def using assms by blast

lemma bodyOk_Cons:
  assumes s: "stmtOk ident el (p @ [Index i]) s \<sigma> res xs"
    and ss: "\<And>\<sigma>1. res = Some \<sigma>1 \<Longrightarrow> bodyOk ident el p (Suc i) ss \<sigma>1 ys" and leave: "res = None \<Longrightarrow> ys = []"
  shows "bodyOk ident el p i (s # ss) \<sigma> (xs @ ys)"
  unfolding bodyOk_def
proof (intro allI impI)
  fix F and R :: "'a ranges" assume F: "models F \<sigma>" "safeF F" and R: "safeR R"
  obtain F1 R1 where eq: "rangeStmt ident el (p @ [Index i]) s F R = (F1, R1)" by (cases "rangeStmt ident el (p @ [Index i]) s F R")
  have 1: "list_all (okAt ident R1) xs" "\<And>\<sigma>1. res = Some \<sigma>1 \<Longrightarrow> models F1 \<sigma>1" using s eq F R unfolding stmtOk_def by blast+
  have 2: "safeF F1" "safeR R1" using range_grows(2) [OF F(2) R, of ident el "p @ [Index i]" s] R eq by (simp_all add: onlyWeakens_def)
  then have "weaker R1 (rangeBody ident el p ss (Suc i) F1 R1)" using rangeBody_grows [of F1 R1] by (simp add: onlyWeakens_def)
  moreover have "list_all (okAt ident (rangeBody ident el p ss (Suc i) F1 R1)) ys"
    using leave bodyOkD [OF ss 1(2) 2] by (cases res) simp_all
  ultimately show "list_all (okAt ident (rangeBody ident el p (s # ss) i F R)) (xs @ ys)" using list_all_okAt [OF 1(1)] eq by simp
qed

lemma stmtOk_bind:
  assumes "kindOf s \<in> {''varDecl'', ''assign''}" "truthy (fld s (boundKey s))"
    "evalE pow (p @ [Key (boundKey s)]) (fld s (boundKey s)) \<sigma> res \<sigma>1 xs"
  shows "stmtOk ident el p s \<sigma> (case res of Done v \<Rightarrow> Some (\<sigma>1(sfld s ''localId'' := v)) | Halt \<Rightarrow> None) xs"
proof (rule stmtOkI)
  fix F R F1 R1 assume s: "rangeStmt ident el p s F R = (F1, R1)" and F: "models F \<sigma>" "safeF F" and R: "safeR R"
  obtain r F2 R2 where v: "rangeExpr ident (p @ [Key (boundKey s)]) (fld s (boundKey s)) F R = (r, F2, R2)" using prod_cases3 by blast
  then have "rangeValue ident (p @ [Key (boundKey s)]) (fld s (boundKey s)) F R = (r, F2, R2)" using assms(2) by (simp add: rangeValue_def)
  from rangeStmt_bind [OF assms(1) this] have "F1 = bindRange el (sfld s ''localId'') r F2" "R1 = R2" using s by simp_all
  then show "list_all (okAt ident R1) xs \<and> (\<forall>\<sigma>2. (case res of Done v \<Rightarrow> Some (\<sigma>1(sfld s ''localId'' := v)) | Halt \<Rightarrow> None) = Some \<sigma>2 \<longrightarrow> models F1 \<sigma>2)"
    using evalE_sound [OF assms(3) v F R] bindRange_models by (cases res) simp_all
qed

lemma stmtOk_unbound:
  assumes "kindOf s \<in> {''varDecl'', ''assign''}" "\<not> truthy (fld s (boundKey s))"
  shows "stmtOk ident el p s \<sigma> (Some (\<sigma>(sfld s ''localId'' := v))) []"
proof (rule stmtOkI)
  fix F R F1 R1 assume s: "rangeStmt ident el p s F R = (F1, R1)" and F: "models F \<sigma>" "safeF F" and R: "safeR R"
  have "rangeValue ident (p @ [Key (boundKey s)]) (fld s (boundKey s)) F R = (None, F, R)" using assms(2) by (simp add: rangeValue_def)
  from rangeStmt_bind [OF assms(1) this] have "F1 = bindRange el (sfld s ''localId'') None F" using s by simp
  then show "list_all (okAt ident R1) [] \<and> (\<forall>\<sigma>2. Some (\<sigma>(sfld s ''localId'' := v)) = Some \<sigma>2 \<longrightarrow> models F1 \<sigma>2)"
    using bindRange_models [OF F(1), of None] by simp
qed

lemma stmtOk_return:
  assumes "kindOf s = ''return''" "truthy (fld s ''value'')" "evalE pow (p @ [Key ''value'']) (fld s ''value'') \<sigma> res \<sigma>1 xs"
  shows "stmtOk ident el p s \<sigma> None xs"
proof (rule stmtOkI)
  fix F R F1 R1 assume s: "rangeStmt ident el p s F R = (F1, R1)" and F: "models F \<sigma>" "safeF F" and R: "safeR R"
  obtain r F2 R2 where v: "rangeExpr ident (p @ [Key ''value'']) (fld s ''value'') F R = (r, F2, R2)" using prod_cases3 by blast
  then have "rangeValue ident (p @ [Key ''value'']) (fld s ''value'') F R = (r, F2, R2)" using assms(2) by (simp add: rangeValue_def)
  from rangeStmt_return [OF assms(1) this] have "R1 = R2" using s by simp
  then show "list_all (okAt ident R1) xs \<and> (\<forall>\<sigma>2. None = Some \<sigma>2 \<longrightarrow> models F1 \<sigma>2)" using evalE_sound [OF assms(3) v F R] by simp
qed

lemma stmtOk_expr:
  assumes "kindOf s = ''exprStmt''" "evalE pow (p @ [Key ''expr'']) (fld s ''expr'') \<sigma> res \<sigma>1 xs"
  shows "stmtOk ident el p s \<sigma> (case res of Done v \<Rightarrow> Some \<sigma>1 | Halt \<Rightarrow> None) xs"
proof (rule stmtOkI)
  fix F R F1 R1 assume s: "rangeStmt ident el p s F R = (F1, R1)" and F: "models F \<sigma>" "safeF F" and R: "safeR R"
  obtain r F2 R2 where v: "rangeExpr ident (p @ [Key ''expr'']) (fld s ''expr'') F R = (r, F2, R2)" using prod_cases3 by blast
  have "F1 = F2" "R1 = R2" using rangeStmt_expr [OF assms(1) v] s by simp_all
  then show "list_all (okAt ident R1) xs \<and> (\<forall>\<sigma>2. (case res of Done v \<Rightarrow> Some \<sigma>1 | Halt \<Rightarrow> None) = Some \<sigma>2 \<longrightarrow> models F1 \<sigma>2)"
    using evalE_sound [OF assms(2) v F R] by (cases res) simp_all
qed

lemma stmtOk_other: "kindOf s \<notin> set SIMPLE_STMTS \<Longrightarrow> list_all (nestOk ident el p s) xs \<Longrightarrow> stmtOk ident el p s \<sigma> res xs"
  by (simp add: stmtOk_def nestOk_def rangeStmt_other list_all_iff)

lemma nestOk_body:
  assumes "(k, v) \<in> set (objEntries s)" "k \<in> set BODY_KEYS" "isArr v" "bodyOk ident el (p @ [Key k]) 0 (arrOf v) \<sigma> xs" "ob \<in> set xs"
  shows "nestOk ident el p s ob"
  unfolding nestOk_def
proof (intro allI impI)
  fix R :: "'a ranges" assume "safeR R"
  then obtain R0 where R0: "safeR R0" "weaker (entryRange ident el p (kindOf s) R0 (k, v)) (rangeEntries ident el p (kindOf s) (objEntries s) R)"
    using entries_reach [OF assms(1)] by blast
  have "entryRange ident el p (kindOf s) R0 (k, v) = rangeBody ident el (p @ [Key k]) (arrOf v) 0 [] R0"
    using assms(2,3) by (auto simp: entryRange_def BODY_KEYS_def)
  then have "list_all (okAt ident (entryRange ident el p (kindOf s) R0 (k, v))) xs" using bodyOkD [OF assms(4)] R0(1) by simp
  then show "okAt ident (rangeEntries ident el p (kindOf s) (objEntries s) R) ob" by (rule okAt_in [OF _ assms(5) R0(2)])
qed

lemma nestOk_case:
  assumes "kindOf s = ''switch''" "(''cases'', v) \<in> set (objEntries s)" "i < length (arrOf v)"
    and "(\<exists>\<sigma> xs. bodyOk ident el (p @ [Key ''cases'', Index i, Key ''body'']) 0 (arrOf (fld (arrOf v ! i) ''body'')) \<sigma> xs \<and> ob \<in> set xs) \<or>
      below (p @ [Key ''cases'', Index i, Key ''test'']) (fld (arrOf v ! i) ''test'') (fst ob)"
  shows "nestOk ident el p s ob"
  unfolding nestOk_def
proof (intro allI impI)
  fix R :: "'a ranges" assume "safeR R"
  then obtain R0 where R0: "safeR R0" "weaker (caseRange ident el (p @ [Key ''cases'']) R0 (i, arrOf v ! i)) (rangeEntries ident el p (kindOf s) (objEntries s) R)"
    using case_reach [OF assms(1-3)] by blast
  define R1 where "R1 = opaque ident (p @ [Key ''cases'', Index i, Key ''test'']) (fld (arrOf v ! i) ''test'') R0"
  define R2 where "R2 = rangeBody ident el (p @ [Key ''cases'', Index i, Key ''body'']) (arrOf (fld (arrOf v ! i) ''body'')) 0 [] R1"
  have R1: "safeR R1" using opaque_grows R0(1) unfolding R1_def onlyWeakens_def by blast
  have w: "weaker R2 (rangeEntries ident el p (kindOf s) (objEntries s) R)" using R0(2) by (simp add: caseRange_def R1_def R2_def)
  have "weaker R1 R2" using rangeBody_grows [of "[]" R1] R1 by (simp add: R2_def onlyWeakens_def)
  from assms(4) show "okAt ident (rangeEntries ident el p (kindOf s) (objEntries s) R) ob"
  proof
    assume "\<exists>\<sigma> xs. bodyOk ident el (p @ [Key ''cases'', Index i, Key ''body'']) 0 (arrOf (fld (arrOf v ! i) ''body'')) \<sigma> xs \<and> ob \<in> set xs"
    then obtain \<sigma> xs where xs: "bodyOk ident el (p @ [Key ''cases'', Index i, Key ''body'']) 0 (arrOf (fld (arrOf v ! i) ''body'')) \<sigma> xs" "ob \<in> set xs" by blast
    have "list_all (okAt ident R2) xs" using bodyOkD [OF xs(1) _ _ R1, of "[]"] by (simp add: R2_def)
    then show ?thesis by (rule okAt_in [OF _ xs(2) w])
  next
    assume "below (p @ [Key ''cases'', Index i, Key ''test'']) (fld (arrOf v ! i) ''test'') (fst ob)"
    from opaque_forgets [OF this R0(1), of ident] have "forgotten R1 (ident (fst ob))" unfolding R1_def .
    from forgotten_weaker [OF this weaker_trans [OF \<open>weaker R1 R2\<close> w]] show ?thesis by (rule okAt_forgotten)
  qed
qed

lemma nestOk_rest:
  assumes "(k, v) \<in> set (objEntries s)" "k \<noteq> ''loc''" "\<not> (k \<in> set BODY_KEYS \<and> isArr v)" "\<not> (kindOf s = ''switch'' \<and> k = ''cases'')"
    "below (p @ [Key k]) v (fst ob)"
  shows "nestOk ident el p s ob"
  unfolding nestOk_def
proof (intro allI impI)
  fix R :: "'a ranges" assume "safeR R"
  then obtain R0 where R0: "safeR R0" "weaker (entryRange ident el p (kindOf s) R0 (k, v)) (rangeEntries ident el p (kindOf s) (objEntries s) R)"
    using entries_reach [OF assms(1)] by blast
  have "entryRange ident el p (kindOf s) R0 (k, v) = opaque ident (p @ [Key k]) v R0" using assms(2-4) by (auto simp: entryRange_def)
  then have "weaker (opaque ident (p @ [Key k]) v R0) (rangeEntries ident el p (kindOf s) (objEntries s) R)" using R0(2) by simp
  from forgotten_weaker [OF opaque_forgets [OF assms(5) R0(1), of ident] this]
  show "okAt ident (rangeEntries ident el p (kindOf s) (objEntries s) R) ob" by (rule okAt_forgotten)
qed

lemma run_sound:
  shows runB_sound: "runB pow p i ss \<sigma> xs \<Longrightarrow> bodyOk ident el p i ss \<sigma> xs"
    and "execS pow p s \<sigma> res xs \<Longrightarrow> stmtOk ident el p s \<sigma> res xs"
    and "nestedAt pow p s ob \<Longrightarrow> nestOk ident el p s ob"
proof (induction rule: runB_execS_nestedAt.inducts)
  case (stop p i ss \<sigma>)
  show ?case by (simp add: bodyOk_def)
next
  case (next_ p i s \<sigma> \<sigma>1 xs ss ys)
  then show ?case using bodyOk_Cons [of ident el p i s \<sigma> "Some \<sigma>1" xs ss ys] by simp
next
  case (leave p i s \<sigma> xs ss)
  then show ?case using bodyOk_Cons [of ident el p i s \<sigma> None xs ss "[]"] by simp
next
  case (bindS s p \<sigma> v \<sigma>1 xs)
  from stmtOk_bind [OF bindS] show ?case by simp
next
  case (bindH s p \<sigma> \<sigma>1 xs)
  from stmtOk_bind [OF bindH] show ?case by simp
next
  case (retN s p \<sigma>)
  show ?case by (simp add: stmtOk_def)
next
  case (exprS s p \<sigma> v \<sigma>1 xs)
  from stmtOk_expr [OF exprS] show ?case by simp
next
  case (exprH s p \<sigma> \<sigma>1 xs)
  from stmtOk_expr [OF exprH] show ?case by simp
next
  case (otherS s p xs \<sigma> res)
  then show ?case by (intro stmtOk_other) (simp_all add: list_all_iff)
next
  case (nbody k v s p \<sigma> xs ob)
  then show ?case using nestOk_body by blast
next
  case (ncase s v i p \<sigma> xs ob)
  then show ?case using nestOk_case by blast
next
  case (ntest s v i p ob)
  then show ?case using nestOk_case by blast
qed (rule stmtOk_unbound stmtOk_return nestOk_rest; assumption)+

section \<open>Functions\<close>

lemma safe_inRange:
  assumes "safeRange r" "inRange r x"
  shows "\<exists>n. x = Fin (of_int n) \<and> \<bar>n\<bar> \<le> 9007199254740991 \<and> js_le (rMin r) x \<and> js_le x (rMax r)"
proof -
  obtain a b n where n: "rMin r = Fin (of_int a)" "rMax r = Fin (of_int b)" "x = Fin (of_int n)" "a \<le> n" "n \<le> b" using range_ints assms .
  have "\<bar>a\<bar> \<le> 9007199254740991" "\<bar>b\<bar> \<le> 9007199254740991"
    using assms(1) n(1,2) unfolding safeRange_def safeBound_iff f64.inject of_int_eq_iff by auto
  then have "\<bar>n\<bar> \<le> 9007199254740991" using n(4,5) by linarith
  then show ?thesis using n(3) assms(2) by (auto simp: inRange_def)
qed

text \<open>C15. Whatever an execution of the function observes at an occurrence whose object the analysis
  gives a range is an integer double of that range (and not negative zero), of magnitude at most
  \<open>2\<^sup>5\<^sup>3 - 1\<close>, so that the emitters may hold it in a 64-bit integer.\<close>

theorem integer_ranges_sound:
  assumes "runB pow [Key ''body''] 0 (arrOf (fld fn ''body'')) \<sigma> obs" "(q, v) \<in> set obs"
    "jm_get (analyzeIntegerRanges ident fn) (ident q) = Some (Some r)"
  shows "\<exists>n. v = Some (Fin (of_int n)) \<and> \<bar>n\<bar> \<le> 9007199254740991 \<and> js_le (rMin r) (Fin (of_int n)) \<and> js_le (Fin (of_int n)) (rMax r)"
proof -
  let ?R = "rangeBody ident (eligibleLocals fn) [Key ''body''] (arrOf (fld fn ''body'')) 0 [] []"
  have R: "analyzeIntegerRanges ident fn = ?R" using assms(3) by (auto simp: analyzeIntegerRanges_def split: if_splits)
  have "list_all (okAt ident ?R) obs" by (rule bodyOkD [OF runB_sound [OF assms(1)]]) simp_all
  then have "okVal (Some r) v" using assms(2,3) unfolding R list_all_iff okAt_def by fastforce
  then obtain x where x: "v = Some x" "inRange r x" by (cases v) simp_all
  have "onlyWeakens [] ?R" by (rule rangeBody_grows) simp
  then have "safeR ?R" by (simp add: onlyWeakens_def)
  then have "safeRange r" using assms(3) unfolding R safeR_def by fastforce
  from safe_inRange [OF this x(2)] show ?thesis using x(1) by auto
qed

text \<open>The function \<open>let x = 5; x + 2\<close>: the sum has the range \<open>[7, 7]\<close>.\<close>

definition rangeDemoLit :: "rat \<Rightarrow> json" where
  "rangeDemoLit n = JObj [(''kind'', JStr ''numLit''), (''value'', JNum (Fin n)), (''type'', JObj [(''kind'', JStr ''f64'')])]"

definition rangeDemoSum :: json where
  "rangeDemoSum = JObj [(''kind'', JStr ''bin''), (''op'', JStr ''+''), (''left'', JObj [(''kind'', JStr ''varRef''), (''localId'', JStr ''x'')]),
     (''right'', rangeDemoLit 2), (''type'', JObj [(''kind'', JStr ''f64'')])]"

definition demoRangeFn :: json where
  "demoRangeFn = JObj [(''locals'', JArr [JObj [(''id'', JStr ''x''), (''type'', JObj [(''kind'', JStr ''f64'')])]]),
     (''body'', JArr [JObj [(''kind'', JStr ''varDecl''), (''localId'', JStr ''x''), (''init'', rangeDemoLit 5)],
       JObj [(''kind'', JStr ''exprStmt''), (''expr'', rangeDemoSum)]])]"

definition demoObs :: "observation list" where
  "demoObs = [([Key ''body'', Index 0, Key ''init''], Some (Fin 5)), ([Key ''body'', Index 1, Key ''expr'', Key ''left''], Some (Fin 5)),
     ([Key ''body'', Index 1, Key ''expr'', Key ''right''], Some (Fin 2)), ([Key ''body'', Index 1, Key ''expr''], Some (Fin 7))]"

definition demoSumAt :: occurrence where
  "demoSumAt = [Key ''body'', Index 1, Key ''expr'']"

lemma toF64_7: "toF64 7 = Fin 7"
  using toF64_exact_int [of 7] by simp

lemma demo_analysis: "jm_get (analyzeIntegerRanges (\<lambda>p. p) demoRangeFn) demoSumAt = Some (Some \<lparr>rMin = Fin 7, rMax = Fin 7\<rparr>)"
  by (simp add: kindOf_def sfld_def analyzeIntegerRanges_def demoRangeFn_def eligibleLocals_def rangeStmt.simps rangeValue_def rangeExpr.simps rangeDemoLit_def rangeDemoSum_def
      litRange_def binRange_def bindRange_def remember_def demoSumAt_def isSafeInteger_def isInteger_def toF64_7 Let_def jm_get_set jm_get_delete)

lemma demo_run: "runB (\<lambda>x _. x) [Key ''body''] 0 (arrOf (fld demoRangeFn ''body'')) (\<lambda>_. None) demoObs"
proof -
  let ?decl = "JObj [(''kind'', JStr ''varDecl''), (''localId'', JStr ''x''), (''init'', rangeDemoLit 5)]"
  let ?sum = "JObj [(''kind'', JStr ''exprStmt''), (''expr'', rangeDemoSum)]"
  let ?p = "[Key ''body'']" and ?pow = "\<lambda>x _. x :: f64" and ?\<sigma> = "(\<lambda>_. None)(''x'' := Some (Fin 5)) :: store"
  have lit: "evalE ?pow p (rangeDemoLit n) \<sigma> (Done (Some (Fin n))) \<sigma> [(p, Some (Fin n))]" for p n \<sigma>
    by (rule evalE.lit) (simp_all add: rangeDemoLit_def kindOf_def sfld_def)
  have "evalE ?pow (?p @ [Index 0] @ [Key ''init'']) (rangeDemoLit 5) (\<lambda>_. None) (Done (Some (Fin 5))) (\<lambda>_. None) [(?p @ [Index 0] @ [Key ''init''], Some (Fin 5))]"
    by (rule lit)
  then have decl: "execS ?pow (?p @ [Index 0]) ?decl (\<lambda>_. None) (Some ?\<sigma>) [([Key ''body'', Index 0, Key ''init''], Some (Fin 5))]"
    using bindS [of ?decl ?pow "?p @ [Index 0]" "\<lambda>_. None" "Some (Fin 5)" "\<lambda>_. None"] by (simp add: boundKey_def rangeDemoLit_def kindOf_def sfld_def)
  define q where "q = ?p @ [Index 1] @ [Key ''expr'']"
  have "evalE ?pow (q @ [Key ''left'']) (fld rangeDemoSum ''left'') ?\<sigma> (Done (Some (Fin 5))) ?\<sigma> [(q @ [Key ''left''], Some (Fin 5))]"
    by (rule evalE.var) (simp_all add: rangeDemoSum_def kindOf_def sfld_def)
  moreover have "evalE ?pow (q @ [Key ''right'']) (fld rangeDemoSum ''right'') ?\<sigma> (Done (Some (Fin 2))) ?\<sigma> [(q @ [Key ''right''], Some (Fin 2))]"
    using lit [of "q @ [Key ''right'']" 2 ?\<sigma>] by (simp add: rangeDemoSum_def)
  moreover have "binVal ?pow rangeDemoSum (Some (Fin 5)) (Some (Fin 2)) (Some (Fin 7))" by (simp add: binVal_def rangeDemoSum_def kindOf_def sfld_def js_bin_def toF64_7)
  moreover have "kindOf rangeDemoSum = ''bin''" by (simp add: rangeDemoSum_def kindOf_def sfld_def)
  ultimately have "evalE ?pow q rangeDemoSum ?\<sigma> (Done (Some (Fin 7))) ?\<sigma>
      ([(q @ [Key ''left''], Some (Fin 5))] @ [(q @ [Key ''right''], Some (Fin 2))] @ [(q, Some (Fin 7))])" using evalE.bin by blast
  then have "execS ?pow (?p @ [Index 1]) ?sum ?\<sigma> (Some ?\<sigma>) (tl demoObs)"
    using exprS [of ?sum ?pow "?p @ [Index 1]" ?\<sigma> "Some (Fin 7)" ?\<sigma>] by (simp add: q_def demoObs_def kindOf_def sfld_def)
  from next_ [OF this stop] have "runB ?pow ?p (Suc 0) [?sum] ?\<sigma> (tl demoObs)" by simp
  from next_ [OF decl this] show ?thesis by (simp add: demoRangeFn_def demoObs_def)
qed

theorem integer_ranges_sound_witness:
  "jm_get (analyzeIntegerRanges (\<lambda>p. p) demoRangeFn) demoSumAt = Some (Some \<lparr>rMin = Fin 7, rMax = Fin 7\<rparr>) \<and>
   (\<exists>n. Some (Fin 7) = Some (Fin (of_int n)) \<and> \<bar>n\<bar> \<le> 9007199254740991 \<and> js_le (Fin 7) (Fin (of_int n)) \<and> js_le (Fin (of_int n)) (Fin 7))"
proof -
  have "(demoSumAt, Some (Fin 7)) \<in> set demoObs" by (simp add: demoSumAt_def demoObs_def)
  from integer_ranges_sound [OF demo_run this demo_analysis] demo_analysis show ?thesis by simp
qed

end
