(* ===== verification/IrWalk.thy ===== *)
theory IrWalk
  imports Json
begin

text \<open>
  The generic walk over a compiled module that \<^verbatim>\<open>ir/ir.ts\<close>, \<^verbatim>\<open>library/fence-eval.ts\<close> and
  \<^verbatim>\<open>backend/wasi-surface.ts\<close> repeat: a \<^verbatim>\<open>visit\<close> closure that ignores primitives, goes
  through arrays, inspects an object and then goes through its property values. Three variants
  occur: one sets a flag, one returns the first surface it meets together with the nearest
  enclosing \<^verbatim>\<open>loc\<close>, one collects facts. All three are folds over the same list, the objects
  of the module in document order; \<open>preorder_scan\<close> is that contract.
\<close>

section \<open>The objects of a module, in document order\<close>

text \<open>\<^verbatim>\<open>node.loc ?? loc\<close>: the location a node is reported at.\<close>

definition here :: "json \<Rightarrow> json \<Rightarrow> json" where
  "here v loc = (if isNullish (fld v ''loc'') then loc else fld v ''loc'')"

function lnodes :: "json \<Rightarrow> json \<Rightarrow> (json \<times> json) list" where
  "lnodes loc v = (case v of
     JArr xs \<Rightarrow> concat (map (lnodes loc) xs)
   | JObj kvs \<Rightarrow> (v, here v loc) # concat (map (lnodes (here v loc)) (objValues v))
   | _ \<Rightarrow> [])"
  by pat_completeness auto
termination
proof (relation "measure (\<lambda>(_, v). jsz v)")
  fix loc v xs x assume "v = JArr xs" "x \<in> set xs"
  then show "((loc, x), loc, v) \<in> measure (\<lambda>(_, v). jsz v)" using jsz_arrOf_member [of x v] by simp
next
  fix loc v kvs x assume "v = JObj kvs" "x \<in> set (objValues v)"
  then show "((here v loc, x), loc, v) \<in> measure (\<lambda>(_, v). jsz v)" using jsz_objValues_member [of x v] by simp
qed simp

declare lnodes.simps [simp del]

lemma lnodes_simps:
  "lnodes loc (JArr xs) = concat (map (lnodes loc) xs)"
  "lnodes loc (JObj kvs) = (JObj kvs, here (JObj kvs) loc) # concat (map (lnodes (here (JObj kvs) loc)) (map snd kvs))"
  "lnodes loc JUndef = []" "lnodes loc JNull = []" "lnodes loc (JBool b) = []" "lnodes loc (JNum x) = []"
  "lnodes loc (JStr s) = []"
  by (simp_all add: lnodes.simps [of loc "JArr xs"] lnodes.simps [of loc "JObj kvs"] lnodes.simps [of loc JUndef] lnodes.simps [of loc JNull]
    lnodes.simps [of loc "JBool b"] lnodes.simps [of loc "JNum x"] lnodes.simps [of loc "JStr s"])

definition nodes :: "json \<Rightarrow> json list" where
  "nodes v = map fst (lnodes JNull v)"

lemma fst_lnodes: "map fst (lnodes loc v) = map fst (lnodes loc' v)"
proof (induction v arbitrary: loc loc' rule: measure_induct_rule [where f = jsz])
  case (less v)
  have IH: "map fst (lnodes l x) = map fst (lnodes l' x)" if "x \<in> set (objValues v)" for x l l'
    using less.IH jsz_objValues_member [OF that] by blast
  show ?case
  proof (cases v)
    case (JArr xs)
    then have "map (\<lambda>x. map fst (lnodes loc x)) xs = map (\<lambda>x. map fst (lnodes loc' x)) xs"
      by (intro map_cong refl IH) simp
    then show ?thesis unfolding JArr lnodes_simps map_concat map_map comp_def by (rule arg_cong)
  next
    case (JObj kvs)
    then have "map (\<lambda>x. map fst (lnodes (here v loc) (snd x))) kvs = map (\<lambda>x. map fst (lnodes (here v loc') (snd x))) kvs"
      by (intro map_cong refl IH) simp
    from arg_cong [OF this, of concat] show ?thesis
      unfolding JObj lnodes_simps by (simp add: map_concat comp_def del: map_eq_conv)
  qed (simp_all add: lnodes_simps)
qed

lemma set_nodes: "set (nodes v) = fst ` set (lnodes loc v)"
  unfolding nodes_def using fst_lnodes [of JNull v loc] by (metis set_map)

lemma nodes_simps:
  "nodes (JArr xs) = concat (map nodes xs)"
  "nodes (JObj kvs) = JObj kvs # concat (map nodes (map snd kvs))"
  "nodes JUndef = []" "nodes JNull = []" "nodes (JBool b) = []" "nodes (JNum x) = []" "nodes (JStr s) = []"
  unfolding nodes_def
  by (simp_all add: lnodes_simps map_concat comp_def fst_lnodes [of "here (JObj kvs) JNull" _ JNull] cong: map_cong)

text \<open>Membership in the list is membership in the tree.\<close>

inductive subNode :: "json \<Rightarrow> json \<Rightarrow> bool" where
  sn_self: "subNode (JObj kvs) (JObj kvs)"
| sn_elem: "x \<in> set xs \<Longrightarrow> subNode n x \<Longrightarrow> subNode n (JArr xs)"
| sn_prop: "x \<in> snd ` set kvs \<Longrightarrow> subNode n x \<Longrightarrow> subNode n (JObj kvs)"

inductive_cases subNode_JArr: "subNode n (JArr xs)"
inductive_cases subNode_JObj: "subNode n (JObj kvs)"
inductive_simps subNode_simps [simp]: "subNode n JUndef" "subNode n JNull" "subNode n (JBool b)"
  "subNode n (JNum x)" "subNode n (JStr s)"

lemma nodes_subNode: "n \<in> set (nodes v) \<longleftrightarrow> subNode n v"
proof
  show "subNode n v \<Longrightarrow> n \<in> set (nodes v)"
    by (induction rule: subNode.induct) (auto simp: nodes_simps)
next
  show "n \<in> set (nodes v) \<Longrightarrow> subNode n v"
  proof (induction v rule: measure_induct_rule [where f = jsz])
    case (less v)
    have step: "x \<in> set (objValues v) \<Longrightarrow> n \<in> set (nodes x) \<Longrightarrow> subNode n x" for x
      using less.IH jsz_objValues_member by blast
    show ?case
      using less.prems step
      by (cases v) (auto simp: nodes_simps intro: subNode.intros)
  qed
qed

lemma nodes_JObj: "n \<in> set (nodes v) \<Longrightarrow> \<exists>kvs. n = JObj kvs"
  unfolding nodes_subNode by (induction rule: subNode.induct) auto

section \<open>The contract of a walk\<close>

locale preorder_scan =
  fixes scan :: "'a \<Rightarrow> json \<Rightarrow> json \<Rightarrow> 'a"
    and step :: "'a \<Rightarrow> json \<times> json \<Rightarrow> 'a"
  assumes scan_fold: "scan acc loc v = foldl step acc (lnodes loc v)"
begin

lemma scan_invariant:
  assumes "P acc" "\<And>a n. P a \<Longrightarrow> n \<in> set (lnodes loc v) \<Longrightarrow> P (step a n)"
  shows "P (scan acc loc v)"
proof -
  have "set ns \<subseteq> set (lnodes loc v) \<Longrightarrow> P a \<Longrightarrow> P (foldl step a ns)" for ns a
    by (induction ns arbitrary: a) (auto intro: assms(2))
  then show ?thesis unfolding scan_fold using assms(1) by blast
qed

lemma scan_quiet: "(\<And>n. n \<in> set (lnodes loc v) \<Longrightarrow> step acc n = acc) \<Longrightarrow> scan acc loc v = acc"
  by (rule scan_invariant [where P = "\<lambda>a. a = acc"]) auto

end

section \<open>The walk that sets a flag\<close>

text \<open>\<^verbatim>\<open>if (found || v === null || typeof v !== "object") return; ... found = true; return;\<close>\<close>

function visitFound :: "(json \<Rightarrow> bool) \<Rightarrow> bool \<Rightarrow> json \<Rightarrow> bool" where
  "visitFound p found v =
     (if found then True
      else case v of
        JArr xs \<Rightarrow> foldl (visitFound p) False xs
      | JObj kvs \<Rightarrow> if p v then True else foldl (visitFound p) False (objValues v)
      | _ \<Rightarrow> False)"
  by pat_completeness auto
termination
proof (relation "measure (\<lambda>(_, _, v). jsz v)")
  fix p :: "json \<Rightarrow> bool" and found v xs x fd assume "v = JArr xs" "x \<in> set xs"
  then show "((p, fd, x), p, found, v) \<in> measure (\<lambda>(_, _, v). jsz v)" using jsz_arrOf_member [of x v] by simp
next
  fix p :: "json \<Rightarrow> bool" and found v kvs x fd assume "v = JObj kvs" "x \<in> set (objValues v)"
  then show "((p, fd, x), p, found, v) \<in> measure (\<lambda>(_, _, v). jsz v)" using jsz_objValues_member [of x v] by simp
qed simp

declare visitFound.simps [simp del]

section \<open>The walk that returns the first surface\<close>

text \<open>The same walk with \<^verbatim>\<open>found\<close> a value and the nearest enclosing location passed down.\<close>

function visitFirst :: "(json \<Rightarrow> json \<Rightarrow> 'a option) \<Rightarrow> 'a option \<Rightarrow> json \<Rightarrow> json \<Rightarrow> 'a option" where
  "visitFirst s found loc v =
     (case found of Some r \<Rightarrow> Some r
      | None \<Rightarrow> (case v of
          JArr xs \<Rightarrow> foldl (\<lambda>f x. visitFirst s f loc x) None xs
        | JObj kvs \<Rightarrow> (case s v (here v loc) of Some r \<Rightarrow> Some r
            | None \<Rightarrow> foldl (\<lambda>f x. visitFirst s f (here v loc) x) None (objValues v))
        | _ \<Rightarrow> None))"
  by pat_completeness auto
termination
proof (relation "measure (\<lambda>(_, _, _, v). jsz v)")
  fix s :: "json \<Rightarrow> json \<Rightarrow> 'a option" and found loc v xs x fd assume "v = JArr xs" "x \<in> set xs"
  then show "((s, fd, loc, x), s, found, loc, v) \<in> measure (\<lambda>(_, _, _, v). jsz v)" using jsz_arrOf_member [of x v] by simp
next
  fix s :: "json \<Rightarrow> json \<Rightarrow> 'a option" and found loc v kvs x fd assume "v = JObj kvs" "x \<in> set (objValues v)"
  then show "((s, fd, here v loc, x), s, found, loc, v) \<in> measure (\<lambda>(_, _, _, v). jsz v)"
    using jsz_objValues_member [of x v] by simp
qed simp

declare visitFirst.simps [simp del]

fun orElse :: "'a option \<Rightarrow> 'a option \<Rightarrow> 'a option" where
  "orElse (Some r) _ = Some r"
| "orElse None y = y"

lemma foldl_concat_map:
  "(\<And>a x. x \<in> set xs \<Longrightarrow> f a x = foldl g a (h x)) \<Longrightarrow> foldl f a xs = foldl g a (concat (map h xs))"
  by (induction xs arbitrary: a) auto

lemma foldl_absorb: "(\<And>x. x \<in> set xs \<Longrightarrow> f a x = a) \<Longrightarrow> foldl f a xs = a"
  by (induction xs) auto

lemma visitFound_fold: "visitFound p acc v = foldl (\<lambda>a n. a \<or> p (fst n)) acc (lnodes loc v)"
proof (induction v arbitrary: acc loc rule: measure_induct_rule [where f = jsz])
  case (less v)
  have absorb: "foldl (\<lambda>a n. a \<or> p (fst n)) True ns = True" for ns :: "(json \<times> json) list"
    by (rule foldl_absorb) simp
  have kids: "foldl (visitFound p) a xs = foldl (\<lambda>a n. a \<or> p (fst n)) a (concat (map (lnodes l) xs))"
    if "set xs \<subseteq> set (objValues v)" for a xs l
    using that less.IH jsz_objValues_member by (intro foldl_concat_map) blast
  show ?case
  proof (cases v)
    case (JArr xs)
    then show ?thesis
      by (subst visitFound.simps, cases acc) (simp_all add: lnodes_simps absorb kids [where l = loc])
  next
    case (JObj kvs)
    then show ?thesis
      by (subst visitFound.simps, cases acc) (simp_all add: lnodes_simps absorb kids [where l = "here v loc"])
  qed (subst visitFound.simps; cases acc; simp add: lnodes_simps absorb)+
qed

lemma visitFirst_fold: "visitFirst s acc loc v = foldl (\<lambda>a n. orElse a (s (fst n) (snd n))) acc (lnodes loc v)"
proof (induction v arbitrary: acc loc rule: measure_induct_rule [where f = jsz])
  case (less v)
  have absorb: "foldl (\<lambda>a n. orElse a (s (fst n) (snd n))) (Some r) ns = Some r" for r and ns :: "(json \<times> json) list"
    by (rule foldl_absorb) simp
  have "foldl (\<lambda>f x. visitFirst s f l x) a xs =
      foldl (\<lambda>a n. orElse a (s (fst n) (snd n))) a (concat (map (lnodes l) xs))"
    if "set xs \<subseteq> set (objValues v)" for a xs l
    using that less.IH jsz_objValues_member by (intro foldl_concat_map) blast
  then show ?case
    by (subst visitFirst.simps, cases v; cases acc) (auto simp: lnodes_simps absorb split: option.splits)
qed

interpretation fw: preorder_scan "\<lambda>acc loc v. visitFound p acc v" "\<lambda>a n. a \<or> p (fst n)" for p
  by unfold_locales (rule visitFound_fold)

interpretation sw: preorder_scan "visitFirst s" "\<lambda>a n. orElse a (s (fst n) (snd n))" for s
  by unfold_locales (rule visitFirst_fold)

text \<open>What the two walks compute: whether some object of the module has the property, and the
  answer of the first one that has any.\<close>

lemma visitFound_iff: "visitFound p found v \<longleftrightarrow> found \<or> (\<exists>n\<in>set (nodes v). p n)"
proof -
  have "foldl (\<lambda>a n. a \<or> p (fst n)) a ns \<longleftrightarrow> a \<or> (\<exists>n\<in>fst ` set ns. p n)" for a and ns :: "(json \<times> json) list"
    by (induction ns arbitrary: a) auto
  then show ?thesis by (simp add: visitFound_fold [where loc = JNull] set_nodes [where loc = JNull])
qed

lemma visitFirst_eq:
  "visitFirst s None loc v =
     (case filter (\<lambda>n. s (fst n) (snd n) \<noteq> None) (lnodes loc v) of [] \<Rightarrow> None | n # _ \<Rightarrow> s (fst n) (snd n))"
proof -
  have absorb: "foldl (\<lambda>a n. orElse a (s (fst n) (snd n))) (Some r) ns = Some r" for r and ns :: "(json \<times> json) list"
    by (rule foldl_absorb) simp
  have "foldl (\<lambda>a n. orElse a (s (fst n) (snd n))) None ns =
      (case filter (\<lambda>n. s (fst n) (snd n) \<noteq> None) ns of [] \<Rightarrow> None | n # _ \<Rightarrow> s (fst n) (snd n))"
    for ns :: "(json \<times> json) list"
    by (induction ns) (auto simp: absorb)
  then show ?thesis by (simp add: visitFirst_fold)
qed

lemma visitFirst_None: "visitFirst s None loc v = None \<longleftrightarrow> (\<forall>n\<in>set (lnodes loc v). s (fst n) (snd n) = None)"
proof (cases "filter (\<lambda>n. s (fst n) (snd n) \<noteq> None) (lnodes loc v)")
  case Nil
  then show ?thesis by (auto simp: visitFirst_eq filter_empty_conv)
next
  case (Cons n ns)
  then have "n \<in> set (filter (\<lambda>n. s (fst n) (snd n) \<noteq> None) (lnodes loc v))" by simp
  then show ?thesis using Cons by (auto simp: visitFirst_eq)
qed

lemma visitFirst_Some: "visitFirst s None loc v = Some r \<Longrightarrow> \<exists>n\<in>set (lnodes loc v). s (fst n) (snd n) = Some r"
  unfolding visitFirst_eq
  by (auto split: list.splits dest!: filter_eq_ConsD)

end
