(* ===== verification/LinkSwitches.thy ===== *)
theory LinkSwitches
  imports IrWalk
begin

text \<open>
  The link switches of \<^verbatim>\<open>ir/ir.ts\<close>: one predicate per optional runtime unit that says whether a
  compiled module needs it. Every switch is the flag-setting walk of \<open>IrWalk\<close> with its own test
  of a node (the definitions called \<open>\<dots>Node\<close>), some preceded by a look at the class table or the
  embedded npm graph. The module is the JSON tree the IR is defined to be.
\<close>

section \<open>Reading a node\<close>

definition isLib :: "json \<Rightarrow> bool" where
  "isLib n = (kindOf n = ''libCall'')"

definition libFn :: "json \<Rightarrow> string" where
  "libFn n = sfld n ''fn''"

definition PROCESS_EVENT_LIB_FNS :: "string list" where
  "PROCESS_EVENT_LIB_FNS =
     [''process.onSignal'', ''process.offSignal'', ''process.onExit'', ''process.offExit'', ''stdin.onData'',
      ''stdin.onEnd'', ''stdin.onError'', ''stdin.nextChunk'', ''rl.create'', ''rl.question'', ''rl.close'',
      ''rl.onClose'', ''rl.nextLine'']"

definition RUNTIME_EMITTER_CLASS :: string where
  "RUNTIME_EMITTER_CLASS = ''%EventEmitter''"

definition RUNTIME_STREAM_CLASSES :: "string list" where
  "RUNTIME_STREAM_CLASSES = [''%Readable'', ''%Writable'', ''%Duplex'', ''%Transform'', ''%PassThrough'']"

definition PROCESS_IPC_FNS :: "string list" where
  "PROCESS_IPC_FNS =
     [''process.forkTarget'', ''process.connected'', ''process.send'', ''process.sendCb'', ''process.disconnect'',
      ''process.onMessage'', ''process.onDisconnect'']"

definition HTTP2_LEGACY_FNS :: "string list" where
  "HTTP2_LEGACY_FNS = [''http2.streamNoop'', ''http2.streamUndefCall'']"

definition HTTP2_KINDS :: "string list" where
  "HTTP2_KINDS = [''http2Session'', ''http2Stream'']"

definition HTTP_KINDS :: "string list" where
  "HTTP_KINDS = [''httpReq'', ''httpRes'', ''httpClientReq'', ''secureCtx'']"

definition NET_KINDS :: "string list" where
  "NET_KINDS = [''netServer'', ''netSocket'', ''http2Session'', ''http2Stream'', ''httpReq'', ''httpRes'',
      ''httpClientReq'', ''secureCtx'']"

section \<open>The embedded npm graph\<close>

definition moduleEmbedsBuiltin :: "json \<Rightarrow> string \<Rightarrow> bool" where
  "moduleEmbedsBuiltin md builtin =
     (fld md ''embedded'' \<noteq> JUndef \<and>
      list_ex (\<lambda>e. fld e ''to'' = JStr builtin) (arrOf (fld (fld md ''embedded'') ''edges'')))"

definition NPM_COMPRESS_MIN :: nat where
  "NPM_COMPRESS_MIN = 1024"

definition moduleEmbedsCompressedNpm :: "json \<Rightarrow> bool" where
  "moduleEmbedsCompressedNpm md =
     (fld md ''embedded'' \<noteq> JUndef \<and>
      list_ex (\<lambda>e. NPM_COMPRESS_MIN \<le> length (sfld e ''source'') \<or> NPM_COMPRESS_MIN \<le> length (sfld e ''esm''))
        (arrOf (fld (fld md ''embedded'') ''modules'')))"

definition fetchEmbedded :: "json \<Rightarrow> bool" where
  "fetchEmbedded md = list_ex (\<lambda>e. fld e ''usesFetch'' = JBool True) (arrOf (fld (fld md ''embedded'') ''modules''))"

section \<open>The switches\<close>

definition regexNode :: "json \<Rightarrow> bool" where
  "regexNode n =
     (kindOf n = ''regex'' \<or> kindOf n = ''regexLit'' \<or> kindOf n = ''regexIntrinsic'' \<or>
      kindOf n = ''strIntrinsic'' \<and> (sfld n ''method'' = ''toLowerCase'' \<or> sfld n ''method'' = ''toUpperCase'') \<or>
      isLib n \<and> libFn n = ''regexp.escape'')"

definition moduleUsesRegex :: "json \<Rightarrow> bool" where
  "moduleUsesRegex md = visitFound regexNode False md"

definition copyingNode :: "json \<Rightarrow> bool" where
  "copyingNode n =
     (kindOf n = ''arrIntrinsic'' \<and> (sfld n ''method'' = ''toReversed'' \<or> sfld n ''method'' = ''toSpliced'' \<or> sfld n ''method'' = ''with'' \<or> sfld n ''method'' = ''withUndefined'') \<or>
      kindOf n = ''bytesIntrinsic'' \<and> (sfld n ''method'' = ''toReversed'' \<or> sfld n ''method'' = ''with'' \<or> sfld n ''method'' = ''join'' \<or> sfld n ''method'' = ''toArray''))"

definition moduleUsesCopying :: "json \<Rightarrow> bool" where
  "moduleUsesCopying md = visitFound copyingNode False md"

definition legacyTextDecoderNode :: "json \<Rightarrow> bool" where
  "legacyTextDecoderNode n =
     (isLib n \<and> libFn n = ''text.decodeLegacy'')"

definition moduleUsesLegacyTextDecoder :: "json \<Rightarrow> bool" where
  "moduleUsesLegacyTextDecoder md = visitFound legacyTextDecoderNode False md"

definition fileHandleNode :: "json \<Rightarrow> bool" where
  "fileHandleNode n =
     (kindOf n = ''fileHandle'')"

definition moduleUsesFileHandle :: "json \<Rightarrow> bool" where
  "moduleUsesFileHandle md = visitFound fileHandleNode False md"

definition fetchNode :: "json \<Rightarrow> bool" where
  "fetchNode n =
     (kindOf n = ''jsOp'' \<and> sfld n ''op'' = ''globalGet'' \<and> sfld n ''name'' = ''fetch'' \<or>
      isLib n \<and> startsWith (libFn n) ''fetch.'')"

definition moduleUsesFetch :: "json \<Rightarrow> bool" where
  "moduleUsesFetch md = (fetchEmbedded md \<or> visitFound fetchNode False md)"

definition processEventsNode :: "json \<Rightarrow> bool" where
  "processEventsNode n =
     (isLib n \<and> libFn n \<in> set PROCESS_EVENT_LIB_FNS)"

definition moduleUsesProcessEvents :: "json \<Rightarrow> bool" where
  "moduleUsesProcessEvents md = visitFound processEventsNode False md"

definition emitterNode :: "json \<Rightarrow> bool" where
  "emitterNode n =
     (isLib n \<and> startsWith (libFn n) ''emitter.'')"

definition moduleUsesEmitter :: "json \<Rightarrow> bool" where
  "moduleUsesEmitter md = (list_ex (\<lambda>c. sfld c ''name'' = RUNTIME_EMITTER_CLASS) (arrOf (fld md ''classes'')) \<or>
     visitFound emitterNode False md)"

definition streamNode :: "json \<Rightarrow> bool" where
  "streamNode n =
     (isLib n \<and>
      (startsWith (libFn n) ''readable.'' \<or> startsWith (libFn n) ''writable.'' \<or>
       startsWith (libFn n) ''duplex.'' \<or> startsWith (libFn n) ''transform.'' \<or>
       startsWith (libFn n) ''passthrough.'' \<or>
       libFn n = ''stream.destroy'' \<or> libFn n = ''stream.destroyErr'' \<or> libFn n = ''stream.prop'' \<or> libFn n = ''stream.errored'' \<or>
       libFn n = ''sp.finished'' \<or> libFn n = ''sp.pipeline'' \<or> startsWith (libFn n) ''sc.'' \<or> startsWith (libFn n) ''stream.set''))"

definition moduleUsesStream :: "json \<Rightarrow> bool" where
  "moduleUsesStream md = (list_ex (\<lambda>c. sfld c ''name'' \<in> set RUNTIME_STREAM_CLASSES) (arrOf (fld md ''classes'')) \<or>
     visitFound streamNode False md)"

definition zlibNode :: "json \<Rightarrow> bool" where
  "zlibNode n =
     (isLib n \<and> startsWith (libFn n) ''zlib.'')"

definition moduleUsesZlib :: "json \<Rightarrow> bool" where
  "moduleUsesZlib md = (moduleEmbedsBuiltin md ''node:zlib'' \<or> visitFound zlibNode False md)"

definition dcNode :: "json \<Rightarrow> bool" where
  "dcNode n =
     (isLib n \<and> startsWith (libFn n) ''dc.'')"

definition moduleUsesDc :: "json \<Rightarrow> bool" where
  "moduleUsesDc md = visitFound dcNode False md"

definition assertNode :: "json \<Rightarrow> bool" where
  "assertNode n =
     (isLib n \<and> startsWith (libFn n) ''assert.'')"

definition moduleUsesAssert :: "json \<Rightarrow> bool" where
  "moduleUsesAssert md = visitFound assertNode False md"

definition dynInvokeNode :: "json \<Rightarrow> bool" where
  "dynInvokeNode n =
     (kindOf n = ''dynInvoke'' \<or> isLib n \<and> libFn n = ''dyn.defineProps'')"

definition moduleUsesDynInvoke :: "json \<Rightarrow> bool" where
  "moduleUsesDynInvoke md = visitFound dynInvokeNode False md"

definition inspectNode :: "json \<Rightarrow> bool" where
  "inspectNode n =
     (isLib n \<and> startsWith (libFn n) ''insp.'')"

definition moduleUsesInspect :: "json \<Rightarrow> bool" where
  "moduleUsesInspect md = visitFound inspectNode False md"

definition childProcessNode :: "json \<Rightarrow> bool" where
  "childProcessNode n =
     (isLib n \<and> (startsWith (libFn n) ''cp.'' \<or> startsWith (libFn n) ''child.'' \<or> startsWith (libFn n) ''writer.'' \<or> startsWith (libFn n) ''spawnRes.'' \<or>
        libFn n \<in> set PROCESS_IPC_FNS) \<or>
      kindOf n = ''child'' \<or> kindOf n = ''childStream'' \<or> kindOf n = ''childWriter'' \<or> kindOf n = ''spawnRes'')"

definition moduleUsesChildProcess :: "json \<Rightarrow> bool" where
  "moduleUsesChildProcess md = visitFound childProcessNode False md"

definition netNode :: "json \<Rightarrow> bool" where
  "netNode n =
     (isLib n \<and> (startsWith (libFn n) ''net.'' \<or> startsWith (libFn n) ''http.'' \<or>
        startsWith (libFn n) ''tls.'' \<or> startsWith (libFn n) ''https.'' \<or> startsWith (libFn n) ''http2.'') \<or>
      kindOf n \<in> set NET_KINDS)"

definition moduleUsesNet :: "json \<Rightarrow> bool" where
  "moduleUsesNet md = visitFound netNode False md"

definition symbolNode :: "json \<Rightarrow> bool" where
  "symbolNode n =
     (isLib n \<and> startsWith (libFn n) ''sym.'' \<or> kindOf n = ''symbol'')"

definition moduleUsesSymbol :: "json \<Rightarrow> bool" where
  "moduleUsesSymbol md = visitFound symbolNode False md"

definition bigintNode :: "json \<Rightarrow> bool" where
  "bigintNode n =
     (kindOf n = ''bigint'' \<or> isLib n \<and> startsWith (libFn n) ''bigint.'')"

definition moduleUsesBigInt :: "json \<Rightarrow> bool" where
  "moduleUsesBigInt md = visitFound bigintNode False md"

definition searchParamsNode :: "json \<Rightarrow> bool" where
  "searchParamsNode n =
     (isLib n \<and> (startsWith (libFn n) ''sp.'' \<or> libFn n = ''url.searchParams'') \<or> kindOf n = ''searchParams'')"

definition moduleUsesSearchParams :: "json \<Rightarrow> bool" where
  "moduleUsesSearchParams md = visitFound searchParamsNode False md"

definition qsNode :: "json \<Rightarrow> bool" where
  "qsNode n =
     (isLib n \<and> (libFn n = ''qs.parse'' \<or> libFn n = ''qs.stringify'' \<or> libFn n = ''qs.unescape''))"

definition moduleUsesQs :: "json \<Rightarrow> bool" where
  "moduleUsesQs md = visitFound qsNode False md"

definition parseArgsNode :: "json \<Rightarrow> bool" where
  "parseArgsNode n =
     (isLib n \<and> libFn n = ''util.parseArgs'')"

definition moduleUsesParseArgs :: "json \<Rightarrow> bool" where
  "moduleUsesParseArgs md = visitFound parseArgsNode False md"

definition fsWatchNode :: "json \<Rightarrow> bool" where
  "fsWatchNode n =
     (isLib n \<and> (startsWith (libFn n) ''fs.watch'' \<or> startsWith (libFn n) ''watcher.'') \<or> kindOf n = ''fsWatcher'')"

definition moduleUsesFsWatch :: "json \<Rightarrow> bool" where
  "moduleUsesFsWatch md = visitFound fsWatchNode False md"

definition nodeTestNode :: "json \<Rightarrow> bool" where
  "nodeTestNode n =
     (isLib n \<and> startsWith (libFn n) ''test.'' \<or> kindOf n = ''testCtx'')"

definition moduleUsesNodeTest :: "json \<Rightarrow> bool" where
  "moduleUsesNodeTest md = visitFound nodeTestNode False md"

definition dgramNode :: "json \<Rightarrow> bool" where
  "dgramNode n =
     (isLib n \<and> (startsWith (libFn n) ''dgram.'' \<or> startsWith (libFn n) ''dns.'') \<or> kindOf n = ''dgramSocket'')"

definition moduleUsesDgram :: "json \<Rightarrow> bool" where
  "moduleUsesDgram md = visitFound dgramNode False md"

definition httpServerNode :: "json \<Rightarrow> bool" where
  "httpServerNode n =
     (isLib n \<and> (startsWith (libFn n) ''http.'' \<or> startsWith (libFn n) ''tls.'' \<or>
        startsWith (libFn n) ''https.'' \<or> startsWith (libFn n) ''http2.'') \<or>
      kindOf n \<in> set HTTP_KINDS)"

definition moduleUsesHttpServer :: "json \<Rightarrow> bool" where
  "moduleUsesHttpServer md = visitFound httpServerNode False md"

definition http2Node :: "json \<Rightarrow> bool" where
  "http2Node n =
     (isLib n \<and> startsWith (libFn n) ''http2.'' \<and> libFn n \<notin> set HTTP2_LEGACY_FNS \<or>
      kindOf n \<in> set HTTP2_KINDS)"

definition moduleUsesHttp2 :: "json \<Rightarrow> bool" where
  "moduleUsesHttp2 md = visitFound http2Node False md"

definition tlsNode :: "json \<Rightarrow> bool" where
  "tlsNode n =
     (isLib n \<and> (startsWith (libFn n) ''tls.'' \<or> startsWith (libFn n) ''https.'' \<or> startsWith (libFn n) ''http2.'') \<or>
      kindOf n = ''secureCtx'')"

definition moduleUsesTls :: "json \<Rightarrow> bool" where
  "moduleUsesTls md = visitFound tlsNode False md"

definition tlsCaNode :: "json \<Rightarrow> bool" where
  "tlsCaNode n =
     (isLib n \<and> startsWith (libFn n) ''tlsca.'')"

definition moduleUsesTlsCa :: "json \<Rightarrow> bool" where
  "moduleUsesTlsCa md = visitFound tlsCaNode False md"

text \<open>\<^verbatim>\<open>moduleHasLibCall\<close> recurses over \<^verbatim>\<open>Object.values\<close> and skips objects it has seen; on a
  tree no object occurs twice.\<close>

function moduleHasLibCall :: "json \<Rightarrow> string \<Rightarrow> bool" where
  "moduleHasLibCall v fn =
     (isObject v \<and> (isLib v \<and> libFn v = fn \<or> list_ex (\<lambda>x. moduleHasLibCall x fn) (objValues v)))"
  by pat_completeness auto
termination by (relation "measure (\<lambda>(v, _). jsz v)") (auto intro: jsz_objValues_member)

declare moduleHasLibCall.simps [simp del]

section \<open>Promises that cross into the dynamic tree\<close>

text \<open>\<^verbatim>\<open>needsDynPromiseRuntime\<close>: the registries are the id-indexed maps of the module's record
  shapes and unions; \<^verbatim>\<open>visiting\<close> holds the ids on the current path.\<close>

definition byId :: "json list \<Rightarrow> (string, json) jsmap" where
  "byId xs = foldl (\<lambda>m r. jm_set m (sfld r ''id'') r) [] xs"

definition unvisited :: "(string, json) jsmap \<Rightarrow> (string, json) jsmap \<Rightarrow> string list \<Rightarrow> nat" where
  "unvisited records unions visiting = card ((set (jm_keys records) \<union> set (jm_keys unions)) - set visiting)"

lemma unvisited_less:
  assumes "k \<notin> set visiting" "jm_get records k = Some x \<or> jm_get unions k = Some x"
  shows "unvisited records unions (k # visiting) < unvisited records unions visiting"
proof -
  have "k \<in> set (jm_keys records) \<union> set (jm_keys unions)"
    using assms(2) jm_get_keys [of records k] jm_get_keys [of unions k] by auto
  then show ?thesis
    unfolding unvisited_def using assms(1) by (intro psubset_card_mono) auto
qed

function needsDynPromiseRuntime ::
    "(string, json) jsmap \<Rightarrow> (string, json) jsmap \<Rightarrow> json \<Rightarrow> string list \<Rightarrow> bool" where
  "needsDynPromiseRuntime records unions t visiting =
     (if kindOf t = ''promise'' then True
      else if kindOf t = ''func'' then needsDynPromiseRuntime records unions (fld t ''ret'') visiting
      else if kindOf t = ''array'' then needsDynPromiseRuntime records unions (fld t ''elem'') visiting
      else if kindOf t = ''record'' then
        (if sfld t ''shapeId'' \<in> set visiting then False
         else case jm_get records (sfld t ''shapeId'') of
             None \<Rightarrow> False
           | Some shape \<Rightarrow>
               (let nxt = sfld t ''shapeId'' # visiting in
                list_ex (\<lambda>field. needsDynPromiseRuntime records unions (fld field ''type'') nxt) (arrOf (fld shape ''fields'')) \<or>
                fld shape ''indexValue'' \<noteq> JUndef \<and>
                  needsDynPromiseRuntime records unions (fld shape ''indexValue'') nxt))
      else if kindOf t = ''union'' then
        (if sfld t ''unionId'' \<in> set visiting then False
         else case jm_get unions (sfld t ''unionId'') of
             None \<Rightarrow> False
           | Some un \<Rightarrow>
               (let nxt = sfld t ''unionId'' # visiting in
                list_ex (\<lambda>arm. needsDynPromiseRuntime records unions arm nxt) (arrOf (fld un ''arms''))))
      else False)"
  by pat_completeness auto
termination
  by (relation "measures [\<lambda>(r, u, t, v). unvisited r u v, \<lambda>(r, u, t, v). jsz t]") (auto intro: unvisited_less)

declare needsDynPromiseRuntime.simps [simp del]

definition DYN_ASYNC_FNS :: "string list" where
  "DYN_ASYNC_FNS =
     [''async.awaitDyn'', ''timers.immediatePromise'', ''process.onUnhandledRejection'', ''process.offUnhandledRejection'',
      ''process.onRejectionHandled'', ''process.offRejectionHandled'', ''process.onUncaughtException'',
      ''process.offUncaughtException'', ''process.onWarning'', ''process.offWarning'', ''process.emitWarning'',
      ''als.new'', ''als.get'', ''als.run'', ''als.exitRun'', ''als.enterWith'', ''als.disable'',
      ''dc.chanBindStore'', ''dc.chanUnbindStore'', ''dc.chanRunStores'']"

definition dynAsyncNode :: "(string, json) jsmap \<Rightarrow> (string, json) jsmap \<Rightarrow> json \<Rightarrow> bool" where
  "dynAsyncNode records unions n =
     (isLib n \<and> libFn n \<in> set DYN_ASYNC_FNS \<or>
      kindOf n = ''awaitExpr'' \<and> fld n ''type'' \<noteq> JUndef \<and> kindOf (fld n ''type'') = ''dyn'' \<or>
      kindOf n = ''dynFrom'' \<and> fld (fld n ''value'') ''type'' \<noteq> JUndef \<and>
        needsDynPromiseRuntime records unions (fld (fld n ''value'') ''type'') [])"

definition moduleUsesDynAsync :: "json \<Rightarrow> bool" where
  "moduleUsesDynAsync md =
     visitFound (dynAsyncNode (byId (arrOf (fld md ''records''))) (byId (arrOf (fld md ''unions'')))) False md"

lemmas switch_defs =
  moduleUsesRegex_def moduleUsesCopying_def moduleUsesLegacyTextDecoder_def moduleUsesFileHandle_def
  moduleUsesFetch_def moduleUsesProcessEvents_def moduleUsesEmitter_def moduleUsesStream_def
  moduleUsesZlib_def moduleUsesDc_def moduleUsesAssert_def moduleUsesDynInvoke_def
  moduleUsesInspect_def moduleUsesChildProcess_def moduleUsesNet_def moduleUsesSymbol_def
  moduleUsesBigInt_def moduleUsesSearchParams_def moduleUsesQs_def moduleUsesParseArgs_def
  moduleUsesFsWatch_def moduleUsesNodeTest_def moduleUsesDgram_def moduleUsesHttpServer_def
  moduleUsesHttp2_def moduleUsesTls_def moduleUsesTlsCa_def moduleUsesDynAsync_def

lemmas node_defs =
  regexNode_def copyingNode_def legacyTextDecoderNode_def fileHandleNode_def
  fetchNode_def processEventsNode_def emitterNode_def streamNode_def
  zlibNode_def dcNode_def assertNode_def dynInvokeNode_def
  inspectNode_def childProcessNode_def netNode_def symbolNode_def
  bigintNode_def searchParamsNode_def qsNode_def parseArgsNode_def
  fsWatchNode_def nodeTestNode_def dgramNode_def httpServerNode_def
  http2Node_def tlsNode_def tlsCaNode_def

end
