(* ===== verification/LibGates.thy ===== *)
theory LibGates
  imports LinkSwitches
begin

text \<open>
  The gates that refuse a module: the async-free requirement and the determinism attestation of
  library mode (\<^verbatim>\<open>ir/ir.ts\<close>) and the portable-WASI capability check
  (\<^verbatim>\<open>backend/wasi-surface.ts\<close>). Each walks the module with \<open>visitFirst\<close> and answers the first
  offending surface with its location, then falls back on the coarse link switches.
\<close>

section \<open>Tables and table lookups\<close>

fun prefixSurface :: "(string \<times> string) list \<Rightarrow> string \<Rightarrow> string option" where
  "prefixSurface [] fn = None"
| "prefixSurface ((p, surface) # rows) fn = (if startsWith fn p then Some surface else prefixSurface rows fn)"

definition entryLoc :: "json \<Rightarrow> json" where
  "entryLoc md = JObj [(''file'', fld md ''sourceFile''), (''start'', JNum (Fin 0)), (''end'', JNum (Fin 0))]"

definition LIB_MODE_REFUSED_PREFIXES :: "(string \<times> string) list" where
  "LIB_MODE_REFUSED_PREFIXES =
     [(''fs.existsChk'', ''the async fs callback surface (fs.exists)''),
      (''fs.renameCb'', ''the async fs callback surface (fs.rename)''),
      (''zlib.deflateCb'', ''the async node:zlib callback surface''),
      (''zlib.inflateCb'', ''the async node:zlib callback surface''),
      (''zlib.deflateRawCb'', ''the async node:zlib callback surface''),
      (''zlib.inflateRawCb'', ''the async node:zlib callback surface''),
      (''zlib.deflateRawAsync'', ''the promisified node:zlib surface''),
      (''zlib.inflateRawAsync'', ''the promisified node:zlib surface''),
      (''zlib.gzipCb'', ''the async node:zlib callback surface''),
      (''zlib.gunzipCb'', ''the async node:zlib callback surface''),
      (''zlib.unzipCb'', ''the async node:zlib callback surface''),
      (''process.stdoutWriteBytesCb'', ''process.stdout.write completion callbacks''),
      (''process.stderrWriteBytesCb'', ''process.stderr.write completion callbacks''),
      (''timers.'', ''the timers surface (setTimeout family)''),
      (''tp.'', ''the timers/promises surface''),
      (''cp.'', ''the child_process surface''),
      (''child.'', ''the child_process surface''),
      (''spawnRes.'', ''the child_process surface''),
      (''process.on'', ''process signal/exit listeners''),
      (''process.off'', ''process signal/exit listeners''),
      (''stdin.'', ''the stdin event surface''),
      (''rl.'', ''the node:readline surface''),
      (''net.'', ''the node:net surface''),
      (''http.'', ''the node:http surface''),
      (''https.'', ''the node:https surface''),
      (''http2.'', ''the node:http2 surface''),
      (''h2.'', ''the node:http2 surface''),
      (''dgram.'', ''the node:dgram surface''),
      (''dns.'', ''the node:dns surface''),
      (''tls.'', ''the node:tls surface''),
      (''fs.watch'', ''fs.watch''),
      (''watcher.'', ''fs.watch''),
      (''test.'', ''the node:test surface''),
      (''readable.'', ''the node:stream surface''),
      (''writable.'', ''the node:stream surface''),
      (''duplex.'', ''the node:stream surface''),
      (''transform.'', ''the node:stream surface''),
      (''passthrough.'', ''the node:stream surface''),
      (''stream.'', ''the node:stream surface''),
      (''als.'', ''AsyncLocalStorage''),
      (''urj.'', ''unhandled-rejection tracking''),
      (''dc.'', ''the diagnostics_channel surface''),
      (''dyn.defineProps'', ''checked-dynamic prototype dispatch'')]"

definition LIB_MODE_REFUSED_KINDS :: "(string \<times> string) list" where
  "LIB_MODE_REFUSED_KINDS =
     [(''promise'', ''promise values''),
      (''generator'', ''generator values''),
      (''awaitExpr'', ''await''),
      (''awaitUnionExpr'', ''await''),
      (''yieldExpr'', ''yield''),
      (''child'', ''the child_process surface''),
      (''effect'', ''the effect kernel''),
      (''genericFunc'', ''generic function values''),
      (''spawnRes'', ''the child_process surface''),
      (''childStream'', ''the child_process surface''),
      (''childWriter'', ''the child_process surface''),
      (''netServer'', ''the node:net surface''),
      (''netSocket'', ''the node:net surface''),
      (''http2Session'', ''the node:http2 surface''),
      (''http2Stream'', ''the node:http2 surface''),
      (''dgramSocket'', ''the node:dgram surface''),
      (''fsWatcher'', ''fs.watch''),
      (''testCtx'', ''the node:test surface''),
      (''httpReq'', ''the node:http surface''),
      (''httpRes'', ''the node:http surface''),
      (''httpClientReq'', ''the node:http surface''),
      (''secureCtx'', ''the node:tls surface''),
      (''dynInvoke'', ''checked-dynamic prototype dispatch'')]"

section \<open>The async-free gate\<close>

definition asyncHit :: "json \<Rightarrow> json \<Rightarrow> (string \<times> json) option" where
  "asyncHit n loc =
     (if hasKind n then
        (case jm_get LIB_MODE_REFUSED_KINDS (kindOf n) of
           Some bad \<Rightarrow> Some (bad, loc)
         | None \<Rightarrow>
             (if isLib n \<and> isStr (fld n ''fn'') then
                map_option (\<lambda>surface. (surface, loc)) (prefixSurface LIB_MODE_REFUSED_PREFIXES (libFn n))
              else None))
      else None)"

definition stripPercent :: "string \<Rightarrow> string" where
  "stripPercent s = (case s of c # cs \<Rightarrow> if c = CHR ''%'' then cs else s | [] \<Rightarrow> [])"

fun asyncFunction :: "json list \<Rightarrow> (string \<times> json) option" where
  "asyncFunction [] = None"
| "asyncFunction (fn # fns) =
     (if fld fn ''async'' = JBool True then
        Some (''an async function ('' @ squote (stripPercent (sfld fn ''name'')) @ '')'', fld fn ''loc'')
      else if fld fn ''generator'' \<noteq> JUndef then
        Some (''a generator function ('' @ squote (stripPercent (sfld fn ''name'')) @ '')'', fld fn ''loc'')
      else asyncFunction fns)"

definition coarseSurfaces :: "json \<Rightarrow> (bool \<times> string) list" where
  "coarseSurfaces md =
     [(moduleUsesProcessEvents md, ''process signal/exit listeners or the stdin event surface''),
      (moduleUsesNet md, ''the node:net surface''),
      (moduleUsesHttpServer md, ''the node:http surface''),
      (moduleUsesHttp2 md, ''the node:http2 surface''),
      (moduleUsesDgram md, ''the node:dgram surface''),
      (moduleUsesFsWatch md, ''fs.watch''),
      (moduleUsesStream md, ''the node:stream surface''),
      (moduleUsesTls md, ''the node:tls surface''),
      (moduleUsesFetch md, ''fetch''),
      (moduleUsesNodeTest md, ''the node:test surface''),
      (moduleUsesDynAsync md, ''the checked-dynamic async surface''),
      (moduleUsesDc md, ''the diagnostics_channel surface''),
      (moduleUsesDynInvoke md, ''checked-dynamic prototype dispatch'')]"

fun firstOn :: "(bool \<times> string) list \<Rightarrow> json \<Rightarrow> (string \<times> json) option" where
  "firstOn [] loc = None"
| "firstOn ((on, surface) # rows) loc = (if on then Some (surface, loc) else firstOn rows loc)"

definition moduleLibAsyncSurface :: "json \<Rightarrow> (string \<times> json) option" where
  "moduleLibAsyncSurface md =
     (case asyncFunction (arrOf (fld md ''functions'')) of
        Some r \<Rightarrow> Some r
      | None \<Rightarrow>
          (case visitFirst asyncHit None (entryLoc md) md of
             Some r \<Rightarrow> Some r
           | None \<Rightarrow> firstOn (coarseSurfaces md) (entryLoc md)))"

section \<open>The determinism attestation\<close>

definition LIB_NONDETERMINISTIC_PREFIXES :: "(string \<times> string) list" where
  "LIB_NONDETERMINISTIC_PREFIXES =
     [(''math.random'', ''Math.random''),
      (''crypto.random'', ''crypto randomness''),
      (''date.'', ''the live clock (Date)''),
      (''perf.'', ''the live clock (performance)''),
      (''process.env'', ''environment reads''),
      (''process.argv'', ''process.argv''),
      (''process.cwd'', ''process.cwd''),
      (''process.chdir'', ''process.chdir''),
      (''process.pid'', ''process identity''),
      (''process.getuid'', ''process identity''),
      (''process.getgid'', ''process identity''),
      (''process.execPath'', ''process identity''),
      (''process.uptime'', ''the live clock (process.uptime)''),
      (''process.availableMemory'', ''machine memory state''),
      (''process.constrainedMemory'', ''machine memory state''),
      (''process.rusage'', ''machine resource usage (process.resourceUsage)''),
      (''process.cpu'', ''the process CPU clock (process.cpuUsage)''),
      (''process.threadCpu'', ''the thread CPU clock (process.threadCpuUsage)''),
      (''process.isTTY'', ''terminal attachment (isTTY)''),
      (''process.columns'', ''terminal geometry (columns)''),
      (''process.rows'', ''terminal geometry (rows)''),
      (''process.kill'', ''process authority (kill)''),
      (''process.umask'', ''process authority (umask)''),
      (''process.exit'', ''process authority (exit)''),
      (''process.setExitCode'', ''process authority (exit status)''),
      (''fs.'', ''the filesystem''),
      (''os.'', ''machine/OS identity''),
      (''tlsca.'', ''the host CA store'')]"

definition nondetHit :: "json \<Rightarrow> json \<Rightarrow> string option" where
  "nondetHit n loc =
     (if isLib n \<and> isStr (fld n ''fn'') then prefixSurface LIB_NONDETERMINISTIC_PREFIXES (libFn n) else None)"

definition moduleLibNondeterministicSurface :: "json \<Rightarrow> string option" where
  "moduleLibNondeterministicSurface md = visitFirst nondetHit None JNull md"

section \<open>Portable WASI\<close>

definition WASI_PREFIXES :: "(string \<times> string) list" where
  "WASI_PREFIXES =
     [(''cp.'', ''child processes (WASI Preview 1 has no process-spawning API)''),
      (''child.'', ''child processes (WASI Preview 1 has no process-spawning API)''),
      (''spawnRes.'', ''child processes (WASI Preview 1 has no process-spawning API)''),
      (''net.'', ''network sockets (WASI Preview 1 has no socket API)''),
      (''http.'', ''network sockets (WASI Preview 1 has no socket API)''),
      (''https.'', ''network sockets (WASI Preview 1 has no socket API)''),
      (''http2.'', ''network sockets (WASI Preview 1 has no socket API)''),
      (''h2.'', ''network sockets (WASI Preview 1 has no socket API)''),
      (''dgram.'', ''network sockets (WASI Preview 1 has no socket API)''),
      (''dns.'', ''network sockets (WASI Preview 1 has no socket API)''),
      (''tls.'', ''network sockets (WASI Preview 1 has no socket API)''),
      (''fetch.'', ''network-backed fetch (WASI Preview 1 has no socket API)''),
      (''fs.watch'', ''filesystem watching (WASI Preview 1 has no notification API)''),
      (''fs.realpath'', ''filesystem canonical paths (the WASI runtime has no realpath implementation)''),
      (''fs.chmod'', ''filesystem permission changes (WASI Preview 1 has no chmod API)''),
      (''fsp.chmod'', ''filesystem permission changes (WASI Preview 1 has no chmod API)''),
      (''watcher.'', ''filesystem watching (WASI Preview 1 has no notification API)'')]"

definition WASI_KINDS :: "(string \<times> string) list" where
  "WASI_KINDS =
     [(''child'', ''child processes (WASI Preview 1 has no process-spawning API)''),
      (''spawnRes'', ''child processes (WASI Preview 1 has no process-spawning API)''),
      (''childStream'', ''child processes (WASI Preview 1 has no process-spawning API)''),
      (''netServer'', ''network sockets (WASI Preview 1 has no socket API)''),
      (''netSocket'', ''network sockets (WASI Preview 1 has no socket API)''),
      (''http2Session'', ''network sockets (WASI Preview 1 has no socket API)''),
      (''http2Stream'', ''network sockets (WASI Preview 1 has no socket API)''),
      (''dgramSocket'', ''network sockets (WASI Preview 1 has no socket API)''),
      (''fsWatcher'', ''filesystem watching (WASI Preview 1 has no notification API)''),
      (''httpReq'', ''network sockets (WASI Preview 1 has no socket API)''),
      (''httpRes'', ''network sockets (WASI Preview 1 has no socket API)''),
      (''httpClientReq'', ''network sockets (WASI Preview 1 has no socket API)''),
      (''secureCtx'', ''network sockets (WASI Preview 1 has no socket API)'')]"

definition WASI_SIGNAL_FNS :: "string list" where
  "WASI_SIGNAL_FNS = [''process.kill'', ''process.killNum'', ''process.onSignal'', ''process.offSignal'']"

definition wasiHit :: "json \<Rightarrow> json \<Rightarrow> (string \<times> json) option" where
  "wasiHit n loc =
     (if hasKind n then
        (case jm_get WASI_KINDS (kindOf n) of
           Some kindSurface \<Rightarrow> Some (kindSurface, loc)
         | None \<Rightarrow>
             (if isLib n \<and> isStr (fld n ''fn'') then
                (if libFn n \<in> set WASI_SIGNAL_FNS then Some (''OS signals (WASI Preview 1 has no signal API)'', loc)
                 else if libFn n = ''os.networkInterfaces'' then
                   Some (''network-interface enumeration (WASI Preview 1 has no interface API)'', loc)
                 else map_option (\<lambda>surface. (surface, loc)) (prefixSurface WASI_PREFIXES (libFn n)))
              else None))
      else None)"

definition WASI_BUILTINS :: "string list" where
  "WASI_BUILTINS = [''node:http'', ''node:https'', ''node:net'', ''node:tls'']"

definition moduleWasiUnavailableSurface :: "json \<Rightarrow> (string \<times> json) option" where
  "moduleWasiUnavailableSurface md =
     (case visitFirst wasiHit None (entryLoc md) md of
        Some r \<Rightarrow> Some r
      | None \<Rightarrow>
          (if moduleUsesFetch md then
             Some (''network-backed fetch (WASI Preview 1 has no socket API)'', entryLoc md)
           else case filter (moduleEmbedsBuiltin md) WASI_BUILTINS of
               [] \<Rightarrow> None
             | builtin # _ \<Rightarrow> Some (builtin @ '' networking (WASI Preview 1 has no socket API)'', entryLoc md)))"

end
