(* ===== verification/Targets.thy ===== *)
theory Targets
  imports Json
begin

text \<open>
  \<^verbatim>\<open>backend/targets.ts\<close>: the table of native targets and the selection of one for a host. The
  properties of the record that the linker and the object emitter read are kept; the host is
  passed in as the code's own parameters (platform, architecture, OS release, C library).
\<close>

section \<open>Records\<close>

record NativeHelperSpec =
  packageName :: string
  defaultTarget :: string
  defaultDataLayout :: string
  backend :: string

record OutputSuffixes =
  asmSuffix :: string
  objSuffix :: string
  exeSuffix :: string

record TargetSupports =
  supportsAsm :: bool
  supportsObj :: bool
  supportsExe :: bool
  supportsLibrary :: bool

record NativeTargetSpec =
  targetName :: string
  llvmTriple :: string
  dataLayout :: string
  cpu :: string
  cpuFeatures :: string
  pointerBits :: nat
  endianness :: string
  objectFormat :: string
  relocationModel :: string
  codeModel :: string
  minimumOs :: string
  helperMinimumOs :: string
  architecture :: string
  platform :: string
  outputSuffixes :: OutputSuffixes
  executableLinkerArgs :: "string list"
  defaultLinker :: string
  defaultLinkerArgs :: "string list"
  linkerTargetTriple :: string
  runtimeSystemLibraries :: "string list"
  runtimeCompileDefines :: "string list"
  supports :: TargetSupports
  helperPackage :: string
  helper :: NativeHelperSpec
  llvmBackend :: string
  hostHelpers :: "(string, NativeHelperSpec) jsmap"
  runtimePackPackage :: string

section \<open>Linker arguments\<close>

text \<open>The thrown errors are the left component.\<close>

definition windowsSubsystemLinkerArgs :: "string \<Rightarrow> string option \<Rightarrow> string + string list" where
  "windowsSubsystemLinkerArgs plat subsystem =
     (case subsystem of
        None \<Rightarrow> Inr []
      | Some s \<Rightarrow>
          (if s \<noteq> ''console'' \<and> s \<noteq> ''gui'' then
             Inl (''unknown Windows subsystem '' @ squote s @ '' (supported: console, gui)'')
           else if plat \<noteq> ''win32'' then Inl ''--windows-subsystem requires a Windows executable target''
           else Inr (if s = ''gui'' then [''-Wl,--subsystem,windows''] else [])))"

definition executableOptimizationLinkerArgs :: "string \<Rightarrow> string \<Rightarrow> string list" where
  "executableOptimizationLinkerArgs plat optimization =
     (if plat = ''wasi'' \<and> optimization = ''release'' then [''-Wl,--strip-debug''] else [])"

definition executableStripLinkerArgs :: "string \<Rightarrow> bool \<Rightarrow> string + string list" where
  "executableStripLinkerArgs plat strip =
     (if \<not> strip then Inr []
      else if plat = ''darwin'' then Inr [''-Wl,-S,-x'']
      else if plat = ''linux'' \<or> plat = ''win32'' then Inr [''-Wl,-s'']
      else if plat = ''wasi'' then Inr [''-Wl,--strip-all'']
      else Inl (''--strip is not supported for the '' @ plat @ '' executable target''))"

section \<open>The target table\<close>

definition ARM64_DARWIN_LAYOUT :: string where
  "ARM64_DARWIN_LAYOUT = ''e-m:o-p270:32:32-p271:32:32-p272:64:64-i64:64-i128:128-n32:64-S128-Fn32''"

definition X64_DARWIN_LAYOUT :: string where
  "X64_DARWIN_LAYOUT = ''e-m:o-p270:32:32-p271:32:32-p272:64:64-i64:64-i128:128-f80:128-n8:16:32:64-S128''"

definition X64_ELF_LAYOUT :: string where
  "X64_ELF_LAYOUT = ''e-m:e-p270:32:32-p271:32:32-p272:64:64-i64:64-i128:128-f80:128-n8:16:32:64-S128''"

definition ARM64_ELF_LAYOUT :: string where
  "ARM64_ELF_LAYOUT = ''e-m:e-p270:32:32-p271:32:32-p272:64:64-i8:8:32-i16:16:32-i64:64-i128:128-n32:64-S128-Fn32''"

definition X64_COFF_LAYOUT :: string where
  "X64_COFF_LAYOUT = ''e-m:w-p270:32:32-p271:32:32-p272:64:64-i64:64-i128:128-f80:128-n8:16:32:64-S128''"

definition WASI_LAYOUT :: string where
  "WASI_LAYOUT = ''e-m:e-p:32:32-p10:8:8-p20:8:8-i64:64-i128:128-n32:64-S128-ni:1:10:20''"

definition DARWIN_ARM64_HELPER :: NativeHelperSpec where
  "DARWIN_ARM64_HELPER = \<lparr>packageName = ''@scriptc/llvm-darwin-arm64'', defaultTarget = ''arm64-apple-macosx14.0.0'',
     defaultDataLayout = ARM64_DARWIN_LAYOUT, backend = ''AArch64''\<rparr>"

definition DARWIN_X64_HELPER :: NativeHelperSpec where
  "DARWIN_X64_HELPER = \<lparr>packageName = ''@scriptc/llvm-darwin-x64'', defaultTarget = ''x86_64-apple-macosx14.0.0'',
     defaultDataLayout = X64_DARWIN_LAYOUT, backend = ''X86''\<rparr>"

definition LINUX_X64_HELPER :: NativeHelperSpec where
  "LINUX_X64_HELPER = \<lparr>packageName = ''@scriptc/llvm-linux-x64-gnu'', defaultTarget = ''x86_64-unknown-linux-gnu'',
     defaultDataLayout = X64_ELF_LAYOUT, backend = ''X86''\<rparr>"

definition LINUX_ARM64_HELPER :: NativeHelperSpec where
  "LINUX_ARM64_HELPER = \<lparr>packageName = ''@scriptc/llvm-linux-arm64-gnu'', defaultTarget = ''aarch64-unknown-linux-gnu'',
     defaultDataLayout = ARM64_ELF_LAYOUT, backend = ''AArch64''\<rparr>"

definition LINUX_X64_MUSL_HELPER :: NativeHelperSpec where
  "LINUX_X64_MUSL_HELPER = \<lparr>packageName = ''@scriptc/llvm-linux-x64-musl'', defaultTarget = ''x86_64-unknown-linux-musl'',
     defaultDataLayout = X64_ELF_LAYOUT, backend = ''X86''\<rparr>"

definition LINUX_ARM64_MUSL_HELPER :: NativeHelperSpec where
  "LINUX_ARM64_MUSL_HELPER = \<lparr>packageName = ''@scriptc/llvm-linux-arm64-musl'', defaultTarget = ''aarch64-unknown-linux-musl'',
     defaultDataLayout = ARM64_ELF_LAYOUT, backend = ''AArch64''\<rparr>"

definition WINDOWS_X64_HELPER :: NativeHelperSpec where
  "WINDOWS_X64_HELPER = \<lparr>packageName = ''@scriptc/llvm-win32-x64-msvc'', defaultTarget = ''x86_64-pc-windows-msvc'',
     defaultDataLayout = X64_COFF_LAYOUT, backend = ''X86''\<rparr>"

definition MACOS_ARM64_TARGET :: NativeTargetSpec where
  "MACOS_ARM64_TARGET = \<lparr>targetName = ''macos-arm64'',
     llvmTriple = ''arm64-apple-macosx14.0.0'',
     dataLayout = ARM64_DARWIN_LAYOUT,
     cpu = ''generic'',
     cpuFeatures = '''',
     pointerBits = 64,
     endianness = ''little'',
     objectFormat = ''macho'',
     relocationModel = ''pic'',
     codeModel = ''small'',
     minimumOs = ''14.0'',
     helperMinimumOs = ''15.0'',
     architecture = ''arm64'',
     platform = ''darwin'',
     outputSuffixes = \<lparr>asmSuffix = ''.s'', objSuffix = ''.o'', exeSuffix = ''''\<rparr>,
     executableLinkerArgs = [''-target'', ''arm64-apple-macosx14.0.0'', ''-pthread'', ''-Wl,-dead_strip''],
     defaultLinker = ''clang'',
     defaultLinkerArgs = [],
     linkerTargetTriple = ''arm64-apple-macosx14.0.0'',
     runtimeSystemLibraries = [''System''],
     runtimeCompileDefines = [],
     supports = \<lparr>supportsAsm = True, supportsObj = True, supportsExe = True, supportsLibrary = False\<rparr>,
     helperPackage = packageName DARWIN_ARM64_HELPER,
     helper = DARWIN_ARM64_HELPER,
     llvmBackend = ''AArch64'',
     hostHelpers = [],
     runtimePackPackage = ''@scriptc/runtime-darwin-arm64''\<rparr>"

definition MACOS_X64_TARGET :: NativeTargetSpec where
  "MACOS_X64_TARGET = \<lparr>targetName = ''macos-x64'',
     llvmTriple = ''x86_64-apple-macosx14.0.0'',
     dataLayout = X64_DARWIN_LAYOUT,
     cpu = ''generic'',
     cpuFeatures = '''',
     pointerBits = 64,
     endianness = ''little'',
     objectFormat = ''macho'',
     relocationModel = ''pic'',
     codeModel = ''small'',
     minimumOs = ''14.0'',
     helperMinimumOs = ''15.0'',
     architecture = ''x64'',
     platform = ''darwin'',
     outputSuffixes = \<lparr>asmSuffix = ''.s'', objSuffix = ''.o'', exeSuffix = ''''\<rparr>,
     executableLinkerArgs = [''-target'', ''x86_64-apple-macosx14.0.0'', ''-pthread'', ''-Wl,-dead_strip''],
     defaultLinker = ''clang'',
     defaultLinkerArgs = [],
     linkerTargetTriple = ''x86_64-apple-macosx14.0.0'',
     runtimeSystemLibraries = [''System''],
     runtimeCompileDefines = [],
     supports = \<lparr>supportsAsm = True, supportsObj = True, supportsExe = True, supportsLibrary = False\<rparr>,
     helperPackage = packageName DARWIN_X64_HELPER,
     helper = DARWIN_X64_HELPER,
     llvmBackend = ''X86'',
     hostHelpers = [],
     runtimePackPackage = ''@scriptc/runtime-darwin-x64''\<rparr>"

definition LINUX_X64_GNU_TARGET :: NativeTargetSpec where
  "LINUX_X64_GNU_TARGET = \<lparr>targetName = ''linux-x64-gnu'',
     llvmTriple = ''x86_64-unknown-linux-gnu'',
     dataLayout = X64_ELF_LAYOUT,
     cpu = ''generic'',
     cpuFeatures = '''',
     pointerBits = 64,
     endianness = ''little'',
     objectFormat = ''elf'',
     relocationModel = ''pic'',
     codeModel = ''small'',
     minimumOs = ''glibc 2.36'',
     helperMinimumOs = ''glibc 2.35'',
     architecture = ''x64'',
     platform = ''linux'',
     outputSuffixes = \<lparr>asmSuffix = ''.s'', objSuffix = ''.o'', exeSuffix = ''''\<rparr>,
     executableLinkerArgs = [''-target'', ''x86_64-unknown-linux-gnu'', ''-pthread'', ''-Wl,--gc-sections''],
     defaultLinker = ''clang'',
     defaultLinkerArgs = [],
     linkerTargetTriple = ''x86_64-unknown-linux-gnu'',
     runtimeSystemLibraries = [''m''],
     runtimeCompileDefines = [''_GNU_SOURCE''],
     supports = \<lparr>supportsAsm = True, supportsObj = True, supportsExe = True, supportsLibrary = True\<rparr>,
     helperPackage = packageName LINUX_X64_HELPER,
     helper = LINUX_X64_HELPER,
     llvmBackend = ''X86'',
     hostHelpers = [],
     runtimePackPackage = ''@scriptc/runtime-linux-x64-gnu''\<rparr>"

definition LINUX_ARM64_GNU_TARGET :: NativeTargetSpec where
  "LINUX_ARM64_GNU_TARGET = \<lparr>targetName = ''linux-arm64-gnu'',
     llvmTriple = ''aarch64-unknown-linux-gnu'',
     dataLayout = ARM64_ELF_LAYOUT,
     cpu = ''generic'',
     cpuFeatures = '''',
     pointerBits = 64,
     endianness = ''little'',
     objectFormat = ''elf'',
     relocationModel = ''pic'',
     codeModel = ''small'',
     minimumOs = ''glibc 2.36'',
     helperMinimumOs = ''glibc 2.35'',
     architecture = ''arm64'',
     platform = ''linux'',
     outputSuffixes = \<lparr>asmSuffix = ''.s'', objSuffix = ''.o'', exeSuffix = ''''\<rparr>,
     executableLinkerArgs = [''-target'', ''aarch64-unknown-linux-gnu'', ''-pthread'', ''-Wl,--gc-sections''],
     defaultLinker = ''clang'',
     defaultLinkerArgs = [],
     linkerTargetTriple = ''aarch64-unknown-linux-gnu'',
     runtimeSystemLibraries = [''m''],
     runtimeCompileDefines = [''_GNU_SOURCE''],
     supports = \<lparr>supportsAsm = True, supportsObj = True, supportsExe = True, supportsLibrary = True\<rparr>,
     helperPackage = packageName LINUX_ARM64_HELPER,
     helper = LINUX_ARM64_HELPER,
     llvmBackend = ''AArch64'',
     hostHelpers = [],
     runtimePackPackage = ''@scriptc/runtime-linux-arm64-gnu''\<rparr>"

definition WINDOWS_X64_MSVC_TARGET :: NativeTargetSpec where
  "WINDOWS_X64_MSVC_TARGET = \<lparr>targetName = ''windows-x64-msvc'',
     llvmTriple = ''x86_64-pc-windows-msvc'',
     dataLayout = X64_COFF_LAYOUT,
     cpu = ''generic'',
     cpuFeatures = '''',
     pointerBits = 64,
     endianness = ''little'',
     objectFormat = ''coff'',
     relocationModel = ''pic'',
     codeModel = ''small'',
     minimumOs = ''Windows 10'',
     helperMinimumOs = ''Windows 10'',
     architecture = ''x64'',
     platform = ''win32'',
     outputSuffixes = \<lparr>asmSuffix = ''.asm'', objSuffix = ''.obj'', exeSuffix = ''.exe''\<rparr>,
     executableLinkerArgs = [''-target'', ''x86_64-windows-gnu'', ''-Wl,--gc-sections''],
     defaultLinker = ''zig'',
     defaultLinkerArgs = [''cc''],
     linkerTargetTriple = ''x86_64-windows-gnu'',
     runtimeSystemLibraries = [''advapi32'', ''iphlpapi'', ''ws2_32''],
     runtimeCompileDefines = [],
     supports = \<lparr>supportsAsm = True, supportsObj = True, supportsExe = True, supportsLibrary = True\<rparr>,
     helperPackage = packageName WINDOWS_X64_HELPER,
     helper = WINDOWS_X64_HELPER,
     llvmBackend = ''X86'',
     hostHelpers = [],
     runtimePackPackage = ''@scriptc/runtime-win32-x64-msvc''\<rparr>"

definition LINUX_X64_MUSL_TARGET :: NativeTargetSpec where
  "LINUX_X64_MUSL_TARGET = LINUX_X64_GNU_TARGET\<lparr>targetName := ''linux-x64-musl'',
     llvmTriple := ''x86_64-unknown-linux-musl'',
     minimumOs := ''musl 1.2'',
     helperMinimumOs := ''glibc 2.35'',
     executableLinkerArgs := [''-target'', ''x86_64-unknown-linux-musl'', ''-pthread'', ''-Wl,--gc-sections''],
     defaultLinker := ''zig'',
     defaultLinkerArgs := [''cc''],
     linkerTargetTriple := ''x86_64-linux-musl'',
     runtimeCompileDefines := [''_GNU_SOURCE'', ''SCR_MUSL''],
     helperPackage := packageName LINUX_X64_MUSL_HELPER,
     helper := LINUX_X64_MUSL_HELPER,
     runtimePackPackage := ''@scriptc/runtime-linux-x64-musl''\<rparr>"

definition LINUX_ARM64_MUSL_TARGET :: NativeTargetSpec where
  "LINUX_ARM64_MUSL_TARGET = LINUX_ARM64_GNU_TARGET\<lparr>targetName := ''linux-arm64-musl'',
     llvmTriple := ''aarch64-unknown-linux-musl'',
     minimumOs := ''musl 1.2'',
     helperMinimumOs := ''glibc 2.35'',
     executableLinkerArgs := [''-target'', ''aarch64-unknown-linux-musl'', ''-pthread'', ''-Wl,--gc-sections''],
     defaultLinker := ''zig'',
     defaultLinkerArgs := [''cc''],
     linkerTargetTriple := ''aarch64-linux-musl'',
     runtimeCompileDefines := [''_GNU_SOURCE'', ''SCR_MUSL''],
     helperPackage := packageName LINUX_ARM64_MUSL_HELPER,
     helper := LINUX_ARM64_MUSL_HELPER,
     runtimePackPackage := ''@scriptc/runtime-linux-arm64-musl''\<rparr>"

definition WASM32_WASI_TARGET :: NativeTargetSpec where
  "WASM32_WASI_TARGET = \<lparr>targetName = ''wasm32-wasi'',
     llvmTriple = ''wasm32-unknown-wasi'',
     dataLayout = WASI_LAYOUT,
     cpu = ''generic'',
     cpuFeatures = '''',
     pointerBits = 32,
     endianness = ''little'',
     objectFormat = ''wasm'',
     relocationModel = ''pic'',
     codeModel = ''small'',
     minimumOs = ''WASI Preview 1'',
     helperMinimumOs = ''host helper contract'',
     architecture = ''wasm32'',
     platform = ''wasi'',
     outputSuffixes = \<lparr>asmSuffix = ''.s'', objSuffix = ''.o'', exeSuffix = ''.wasm''\<rparr>,
     executableLinkerArgs = [''-target'', ''wasm32-wasi''],
     defaultLinker = ''zig'',
     defaultLinkerArgs = [''cc''],
     linkerTargetTriple = ''wasm32-wasi'',
     runtimeSystemLibraries = [''wasi-emulated-signal'', ''wasi-emulated-process-clocks''],
     runtimeCompileDefines = [''_GNU_SOURCE'', ''_WASI_EMULATED_SIGNAL'', ''_WASI_EMULATED_PROCESS_CLOCKS''],
     supports = \<lparr>supportsAsm = True, supportsObj = True, supportsExe = True, supportsLibrary = False\<rparr>,
     helperPackage = packageName DARWIN_ARM64_HELPER,
     helper = DARWIN_ARM64_HELPER,
     llvmBackend = ''WebAssembly'',
     hostHelpers = [(''darwin-arm64'', DARWIN_ARM64_HELPER), (''darwin-x64'', DARWIN_X64_HELPER), (''linux-x64-gnu'', LINUX_X64_HELPER), (''linux-x64-musl'', LINUX_X64_MUSL_HELPER), (''linux-arm64-gnu'', LINUX_ARM64_HELPER), (''linux-arm64-musl'', LINUX_ARM64_MUSL_HELPER), (''win32-x64'', WINDOWS_X64_HELPER)],
     runtimePackPackage = ''@scriptc/runtime-wasm32-wasi''\<rparr>"

definition NATIVE_TARGETS :: "NativeTargetSpec list" where
  "NATIVE_TARGETS = [MACOS_ARM64_TARGET, MACOS_X64_TARGET, LINUX_X64_GNU_TARGET, LINUX_ARM64_GNU_TARGET,
     WINDOWS_X64_MSVC_TARGET, LINUX_X64_MUSL_TARGET, LINUX_ARM64_MUSL_TARGET, WASM32_WASI_TARGET]"

section \<open>Selecting a target\<close>

text \<open>\<^verbatim>\<open>Number.parseInt(s, 10)\<close>: leading white space, a sign, then as many digits as there are.\<close>

definition isSpace :: "char \<Rightarrow> bool" where
  "isSpace c = (of_char c \<in> ({9, 10, 11, 12, 13, 32, 160} :: nat set))"

definition parseInt10 :: "string \<Rightarrow> f64" where
  "parseInt10 s =
     (let t = dropWhile isSpace s;
          neg = startsWith t ''-'';
          u = (if neg \<or> startsWith t ''+'' then tl t else t);
          ds = takeWhile isDigit u
      in if ds = [] then NaN
         else if neg then js_neg (toF64 (of_int (digitsVal ds))) else toF64 (of_int (digitsVal ds)))"

definition darwinMajor :: "string \<Rightarrow> f64" where
  "darwinMajor hostRelease = parseInt10 (takeWhile (\<lambda>c. c \<noteq> CHR ''.'') hostRelease)"

definition helperHost :: "string \<Rightarrow> string \<Rightarrow> string \<Rightarrow> string option" where
  "helperHost plat arch linuxLibc =
     (if plat = ''darwin'' \<and> arch = ''arm64'' then Some ''darwin-arm64''
      else if plat = ''darwin'' \<and> arch = ''x64'' then Some ''darwin-x64''
      else if plat = ''linux'' \<and> arch = ''x64'' then Some (''linux-x64-'' @ linuxLibc)
      else if plat = ''linux'' \<and> arch = ''arm64'' then Some (''linux-arm64-'' @ linuxLibc)
      else if plat = ''win32'' \<and> arch = ''x64'' then Some ''win32-x64''
      else None)"

definition nativeHelperForTarget :: "NativeTargetSpec \<Rightarrow> string \<Rightarrow> string \<Rightarrow> string \<Rightarrow> NativeHelperSpec option" where
  "nativeHelperForTarget target hostPlatform hostArch linuxLibc =
     (case helperHost hostPlatform hostArch linuxLibc of
        None \<Rightarrow> None
      | Some host \<Rightarrow>
          (case jm_get (hostHelpers target) host of
             Some h \<Rightarrow> Some h
           | None \<Rightarrow> (if platform target = hostPlatform \<and> architecture target = hostArch then Some (helper target) else None)))"

definition nativeHostTarget :: "string \<Rightarrow> string \<Rightarrow> string \<Rightarrow> string \<Rightarrow> NativeTargetSpec option" where
  "nativeHostTarget hostPlatform hostArch hostRelease linuxLibc =
     (if hostPlatform = ''darwin'' then
        (if \<not> isFinite (darwinMajor hostRelease) \<or> js_lt (darwinMajor hostRelease) (Fin 24) then None
         else if hostArch = ''arm64'' then Some MACOS_ARM64_TARGET
         else if hostArch = ''x64'' then Some MACOS_X64_TARGET else None)
      else if hostPlatform = ''linux'' then
        (if hostArch = ''x64'' then Some (if linuxLibc = ''musl'' then LINUX_X64_MUSL_TARGET else LINUX_X64_GNU_TARGET)
         else if hostArch = ''arm64'' then Some (if linuxLibc = ''musl'' then LINUX_ARM64_MUSL_TARGET else LINUX_ARM64_GNU_TARGET)
         else None)
      else if hostPlatform = ''win32'' \<and> hostArch = ''x64'' then Some WINDOWS_X64_MSVC_TARGET
      else None)"

definition hostNamed :: "NativeTargetSpec option \<Rightarrow> string \<Rightarrow> bool" where
  "hostNamed host name = (case host of None \<Rightarrow> False | Some h \<Rightarrow> targetName h = name)"

definition hostIs :: "NativeTargetSpec option \<Rightarrow> string \<Rightarrow> string \<Rightarrow> bool" where
  "hostIs host plat arch = (case host of None \<Rightarrow> False | Some h \<Rightarrow> platform h = plat \<and> architecture h = arch)"

definition requestedTarget :: "string \<Rightarrow> NativeTargetSpec option \<Rightarrow> string \<Rightarrow> string \<Rightarrow> string \<Rightarrow> NativeTargetSpec option" where
  "requestedTarget raw host hostPlatform hostArch linuxLibc =
     (if raw = '''' then host
      else if raw = ''arm64-apple-macosx14.0.0'' then
        (if hostNamed host ''macos-arm64'' then Some MACOS_ARM64_TARGET else None)
      else if raw = ''x86_64-apple-macosx14.0.0'' \<or> raw = ''x86_64-apple-macos'' then
        (if hostNamed host ''macos-x64'' then Some MACOS_X64_TARGET else None)
      else if raw = ''x86_64-unknown-linux-gnu'' \<or> raw = ''x86_64-linux-gnu'' \<or> raw = ''x86_64-linux-gnu.2.36'' then
        (if hostNamed host ''linux-x64-gnu'' then Some LINUX_X64_GNU_TARGET else None)
      else if raw = ''aarch64-unknown-linux-gnu'' \<or> raw = ''aarch64-linux-gnu'' \<or> raw = ''aarch64-linux-gnu.2.36'' then
        (if hostNamed host ''linux-arm64-gnu'' then Some LINUX_ARM64_GNU_TARGET else None)
      else if raw = ''x86_64-unknown-linux-musl'' \<or> raw = ''x86_64-linux-musl'' then
        (if hostIs host ''linux'' ''x64'' then Some LINUX_X64_MUSL_TARGET else None)
      else if raw = ''aarch64-unknown-linux-musl'' \<or> raw = ''aarch64-linux-musl'' then
        (if hostIs host ''linux'' ''arm64'' then Some LINUX_ARM64_MUSL_TARGET else None)
      else if raw = ''wasm32-wasi'' \<or> raw = ''wasm32-unknown-wasi'' then
        (if helperHost hostPlatform hostArch linuxLibc = None then None else Some WASM32_WASI_TARGET)
      else if raw = ''x86_64-pc-windows-msvc'' then
        (if hostNamed host ''windows-x64-msvc'' then Some WINDOWS_X64_MSVC_TARGET else None)
      else None)"

text \<open>The environment is the map of its variables; only \<^verbatim>\<open>SCRIPTC_TARGET\<close> is read.\<close>

definition requestedName :: "(string, string) jsmap \<Rightarrow> string" where
  "requestedName env = (case jm_get env ''SCRIPTC_TARGET'' of Some v \<Rightarrow> v | None \<Rightarrow> '''')"

definition nativeCodegenTarget ::
    "(string, string) jsmap \<Rightarrow> string \<Rightarrow> string \<Rightarrow> string \<Rightarrow> string \<Rightarrow> NativeTargetSpec option" where
  "nativeCodegenTarget env hostPlatform hostArch hostRelease linuxLibc =
     (let host = nativeHostTarget hostPlatform hostArch hostRelease linuxLibc;
          target = requestedTarget (requestedName env) host hostPlatform hostArch linuxLibc
      in case target of
           None \<Rightarrow> None
         | Some t \<Rightarrow> (if nativeHelperForTarget t hostPlatform hostArch linuxLibc \<noteq> None then Some t else None))"

definition nativeCodegenTargetRefusal ::
    "(string, string) jsmap \<Rightarrow> string \<Rightarrow> string \<Rightarrow> string \<Rightarrow> string \<Rightarrow> string option" where
  "nativeCodegenTargetRefusal env hostPlatform hostArch hostRelease linuxLibc =
     (if nativeCodegenTarget env hostPlatform hostArch hostRelease linuxLibc \<noteq> None then None
      else if requestedName env \<noteq> '''' then
        Some (''native assembly/object emission does not support SCRIPTC_TARGET='' @ requestedName env @
          '' on this '' @ hostPlatform @ '' '' @ hostArch @
          '' host; supported hosts are macOS arm64/x64, Linux x64/arm64, and Windows x64 (with wasm32-wasi on each)'')
      else if hostPlatform = ''darwin'' \<and> (hostArch = ''arm64'' \<or> hostArch = ''x64'') then
        (let major = darwinMajor hostRelease;
             macos = (if isFinite major \<and> js_le (Fin 20) major then numToString (js_sub major (Fin 9)) else ''unknown'')
         in Some (''native assembly/object emission requires macOS 15.0 or newer; this host is macOS '' @ macos @
              '' (Darwin '' @ hostRelease @ '')''))
      else Some (''native assembly/object emission is supported on macOS arm64/x64, Linux x64/arm64, and Windows x64 hosts; this host is '' @
        hostPlatform @ '' '' @ hostArch))"

end
