(* ===== verification/ErrorMonad.thy ===== *)
theory ErrorMonad
  imports Prelude
begin

text \<open>
  Code that throws returns a sum: the left component is the text of the error, the right one the
  value. \<open>bindE\<close> runs the rest of a computation, \<open>mapIdxE\<close> is \<^verbatim>\<open>Array.map\<close> with a callback that
  may throw, \<open>foldE\<close> a loop that may throw, \<open>guardE\<close> the statement \<^verbatim>\<open>if (bad) throw\<close>.
\<close>

named_theorems errE \<open>elimination of successful computations\<close>

type_synonym 'a res = "string + 'a"

definition bindE :: "'a res \<Rightarrow> ('a \<Rightarrow> 'b res) \<Rightarrow> 'b res" where
  "bindE m f = (case m of Inl e \<Rightarrow> Inl e | Inr x \<Rightarrow> f x)"

definition guardE :: "bool \<Rightarrow> string \<Rightarrow> unit res" where
  "guardE bad msg = (if bad then Inl msg else Inr ())"

fun mapIdxE :: "(nat \<Rightarrow> 'a \<Rightarrow> 'b res) \<Rightarrow> nat \<Rightarrow> 'a list \<Rightarrow> 'b list res" where
  "mapIdxE f i [] = Inr []"
| "mapIdxE f i (x # xs) = bindE (f i x) (\<lambda>y. bindE (mapIdxE f (Suc i) xs) (\<lambda>ys. Inr (y # ys)))"

fun foldE :: "('s \<Rightarrow> 'a \<Rightarrow> 's res) \<Rightarrow> 's \<Rightarrow> 'a list \<Rightarrow> 's res" where
  "foldE f s [] = Inr s"
| "foldE f s (x # xs) = bindE (f s x) (\<lambda>s'. foldE f s' xs)"

definition forE :: "('a \<Rightarrow> unit res) \<Rightarrow> 'a list \<Rightarrow> unit res" where
  "forE f xs = foldE (\<lambda>_ x. f x) () xs"

lemma bindE_simps [simp]: "bindE (Inl e) f = Inl e" "bindE (Inr x) f = f x"
  by (simp_all add: bindE_def)

lemma bindE_Inr [errE]: "bindE m f = Inr y \<longleftrightarrow> (\<exists>x. m = Inr x \<and> f x = Inr y)"
  by (cases m) auto

lemma guardE_Inr [errE]: "guardE b msg = Inr u \<longleftrightarrow> \<not> b"
  by (simp add: guardE_def)

lemma guardE_False [simp]: "guardE False msg = Inr ()" "guardE True msg = Inl msg"
  by (simp_all add: guardE_def)

lemma bindE_cong [fundef_cong]:
  "m = m' \<Longrightarrow> (\<And>x. m' = Inr x \<Longrightarrow> f x = f' x) \<Longrightarrow> bindE m f = bindE m' f'"
  by (cases m') auto

lemma bindE_mono:
  "bindE m f = Inr y \<Longrightarrow> (\<And>x. m = Inr x \<Longrightarrow> m' = Inr x) \<Longrightarrow> (\<And>x. m = Inr x \<Longrightarrow> f x = Inr y \<Longrightarrow> f' x = Inr y) \<Longrightarrow>
   bindE m' f' = Inr y"
  by (cases m) auto

lemma mapIdxE_Inr:
  "mapIdxE f i xs = Inr ys \<longleftrightarrow> length ys = length xs \<and> (\<forall>j < length xs. f (i + j) (xs ! j) = Inr (ys ! j))"
proof (induction xs arbitrary: i ys)
  case (Cons x xs)
  have "(\<forall>j < Suc (length xs). P j) \<longleftrightarrow> P 0 \<and> (\<forall>j < length xs. P (Suc j))" for P
    by (auto simp: less_Suc_eq_0_disj)
  then show ?case by (cases ys) (auto simp: errE Cons.IH)
qed auto

lemma mapIdxE_mem: "mapIdxE f i xs = Inr ys \<Longrightarrow> y \<in> set ys \<Longrightarrow> \<exists>x\<in>set xs. \<exists>j. f j x = Inr y"
proof (induction xs arbitrary: i ys)
  case (Cons x xs)
  then show ?case by (auto simp: errE) blast+
qed simp

lemma mapIdxE_mono:
  assumes "\<And>j x y. x \<in> set xs \<Longrightarrow> f j x = Inr y \<Longrightarrow> g j x = Inr y"
  shows "mapIdxE f i xs = Inr ys \<Longrightarrow> mapIdxE g i xs = Inr ys"
  using assms by (auto simp: mapIdxE_Inr)

lemma forE_Inr [errE]: "forE f xs = Inr u \<longleftrightarrow> (\<forall>x\<in>set xs. f x = Inr ())"
proof -
  have "foldE (\<lambda>_ x. f x) v xs = Inr u \<longleftrightarrow> (\<forall>x\<in>set xs. f x = Inr ())" for v
    by (induction xs arbitrary: v) (auto simp: errE)
  then show ?thesis by (simp add: forE_def)
qed

lemma foldE_invariant:
  assumes "foldE f s xs = Inr t" "I s" "\<And>s x s'. I s \<Longrightarrow> x \<in> set xs \<Longrightarrow> f s x = Inr s' \<Longrightarrow> I s'"
  shows "I t"
  using assms
proof (induction xs arbitrary: s)
  case (Cons x xs)
  from Cons.prems(1) obtain s' where s': "f s x = Inr s'" "foldE f s' xs = Inr t" by (auto simp: errE)
  have "I s'" using Cons.prems(2,3) s'(1) by (meson list.set_intros(1))
  with s'(2) show ?case using Cons.prems(3) by (intro Cons.IH) auto
qed simp

end
