(* ===== verification/FfiManifest.thy ===== *)
theory FfiManifest
  imports Json ErrorMonad
begin

text \<open>
  \<^verbatim>\<open>ffi/ffi-manifest.ts\<close>: parsing and strict validation of an outbound native-FFI manifest. The
  manifest is JSON already; reading the file, decoding its text, resolving a library path and
  asking whether it is a file are the host's, and come in as arguments. Every thrown
  \<^verbatim>\<open>FfiProfileError\<close> is a left value with the message.
\<close>

section \<open>Value classes\<close>

definition FFI_PARAM_CLASSES :: "string list" where
  "FFI_PARAM_CLASSES = [''f64'', ''bool'', ''u8'', ''u32'', ''i32'', ''string'', ''bytes'']"

definition FFI_RETURN_CLASSES :: "string list" where
  "FFI_RETURN_CLASSES = [''f64'', ''bool'', ''u8'', ''u32'', ''i32'', ''void'']"

definition FFI_CALLBACK_PARAM_CLASSES :: "string list" where
  "FFI_CALLBACK_PARAM_CLASSES = [''f64'', ''bool'', ''u8'', ''u32'', ''i32'', ''cstring'', ''string'', ''bytes'']"

definition FFI_FORMAT_2_CALLBACK_PARAM_CLASSES :: "string list" where
  "FFI_FORMAT_2_CALLBACK_PARAM_CLASSES = [''f64'', ''bool'', ''u8'', ''u32'', ''i32'']"

section \<open>The profile\<close>

datatype FfiCallbackParamClass = CbClass string | CbContext string

record FfiCallback =
  cbId :: string
  cbParams :: "FfiCallbackParamClass list"
  cbReturns :: string
  cbLifetime :: string
  cbInvoke :: string

text \<open>A release parameter names its target; its ABI is inherited once the whole manifest is read.\<close>

datatype FfiParamClass =
    FfiValue string
  | FfiCallbackP FfiCallback
  | FfiRelease string "(FfiCallbackParamClass list \<times> string) option"
  | FfiContext string

record FfiFunction =
  ffiName :: string
  ffiSymbol :: string
  ffiParams :: "FfiParamClass list"
  ffiReturns :: string

record FfiProfile =
  ffiFormat :: nat
  ffiFunctions :: "FfiFunction list"
  ffiLibraries :: "string list"
  ffiSystemLibraries :: "string list"

section \<open>Field validators\<close>

definition isAlpha :: "char \<Rightarrow> bool" where
  "isAlpha c = (let n = of_char c :: nat in 65 \<le> n \<and> n \<le> 90 \<or> 97 \<le> n \<and> n \<le> 122)"

definition isAlnum :: "char \<Rightarrow> bool" where
  "isAlnum c = (isAlpha c \<or> isDigit c)"

definition C_IDENT :: "string \<Rightarrow> bool" where
  "C_IDENT s = (case s of [] \<Rightarrow> False
     | c # cs \<Rightarrow> (isAlpha c \<or> c = CHR ''_'') \<and> list_all (\<lambda>d. isAlnum d \<or> d = CHR ''_'') cs)"

definition TS_IDENT :: "string \<Rightarrow> bool" where
  "TS_IDENT s = (case s of [] \<Rightarrow> False
     | c # cs \<Rightarrow> (isAlpha c \<or> c = CHR ''_'' \<or> c = CHR ''$'') \<and>
         list_all (\<lambda>d. isAlnum d \<or> d = CHR ''_'' \<or> d = CHR ''$'') cs)"

definition SYSTEM_LIBRARY :: "string \<Rightarrow> bool" where
  "SYSTEM_LIBRARY s = (s \<noteq> [] \<and> list_all (\<lambda>d. isAlnum d \<or> d \<in> set ''_+.-'') s)"

definition idxPath :: "string \<Rightarrow> nat \<Rightarrow> string" where
  "idxPath path i = path @ ''['' @ intDigits (int i) @ '']''"

definition rejectUnknownKeys :: "json \<Rightarrow> string \<Rightarrow> string list \<Rightarrow> unit res" where
  "rejectUnknownKeys obj path known =
     forE (\<lambda>key. guardE (key \<notin> set known)
       (''unknown field '' @ squote (if path = [] then key else path @ ''.'' @ key) @
        '' (root and function keys are strict so an ABI typo cannot be ignored)'')) (jm_keys (objEntries obj))"

definition stringField :: "json \<Rightarrow> string \<Rightarrow> string res" where
  "stringField v path = (case v of
     JStr s \<Rightarrow> (if s = [] then Inl (squote path @ '' must be non-empty'') else Inr s)
   | _ \<Rightarrow> Inl (squote path @ '' must be a string''))"

definition stringArray :: "json \<Rightarrow> string \<Rightarrow> string list res" where
  "stringArray v path = (case v of
     JUndef \<Rightarrow> Inr []
   | JArr xs \<Rightarrow> mapIdxE (\<lambda>i entry. stringField entry (idxPath path i)) 0 xs
   | _ \<Rightarrow> Inl (squote path @ '' must be an array''))"

definition arrayField :: "json \<Rightarrow> string \<Rightarrow> json list res" where
  "arrayField v path = (case v of JArr xs \<Rightarrow> Inr xs | _ \<Rightarrow> Inl (squote path @ '' must be an array''))"

definition contextParam :: "json \<Rightarrow> string \<Rightarrow> string option res" where
  "contextParam v path =
     (if \<not> isDict v \<or> \<not> hasKey ''context'' v then Inr None
      else bindE (rejectUnknownKeys v path [''context''])
        (\<lambda>_. bindE (stringField (fld v ''context'') (path @ ''.context'')) (\<lambda>c. Inr (Some c))))"

section \<open>Callback parameters\<close>

definition allowedCallbackClasses :: "nat \<Rightarrow> string list" where
  "allowedCallbackClasses format =
     (if 3 \<le> format then FFI_CALLBACK_PARAM_CLASSES else FFI_FORMAT_2_CALLBACK_PARAM_CLASSES)"

definition callbackEntry :: "nat \<Rightarrow> string \<Rightarrow> json \<Rightarrow> FfiCallbackParamClass res" where
  "callbackEntry format entryPath entry =
     (case entry of
        JStr s \<Rightarrow>
          (if s \<in> set (allowedCallbackClasses format) then Inr (CbClass s)
           else if s \<in> set FFI_CALLBACK_PARAM_CLASSES then
             Inl (squote entryPath @ '' class '' @ squote s @ '' requires ffi_format 3'')
           else Inl (squote entryPath @ '' must be one of '' @ joinWith ''/'' (allowedCallbackClasses format) @ '' or a context entry''))
      | _ \<Rightarrow> bindE (contextParam entry entryPath) (\<lambda>context. case context of
            Some c \<Rightarrow> Inr (CbContext c)
          | None \<Rightarrow> Inl (squote entryPath @ '' must be one of '' @ joinWith ''/'' (allowedCallbackClasses format) @ '' or a context entry'')))"

fun isContext :: "FfiCallbackParamClass \<Rightarrow> bool" where
  "isContext (CbContext _) = True"
| "isContext (CbClass _) = False"

definition invokeOf :: "json \<Rightarrow> json" where
  "invokeOf callback = (if isNullish (fld callback ''invoke'') then JStr ''script-thread'' else fld callback ''invoke'')"

text \<open>The rules for \<^verbatim>\<open>lifetime\<close> and \<^verbatim>\<open>invoke\<close>, in the order the code tests them.\<close>

definition checkLifetime :: "nat \<Rightarrow> string \<Rightarrow> json \<Rightarrow> FfiCallbackParamClass list \<Rightarrow> string \<Rightarrow> (string \<times> string) res" where
  "checkLifetime format path callback params returns =
     (let lifetime = fld callback ''lifetime''; invoke = invokeOf callback; cpath = path @ ''.callback'' in
      bindE (guardE (lifetime \<noteq> JStr ''call'' \<and> lifetime \<noteq> JStr ''retained'')
        (squote (cpath @ ''.lifetime'') @ '' must be '' @ squote ''call'' @ '' or '' @ squote ''retained'')) (\<lambda>_.
      bindE (guardE (lifetime = JStr ''retained'' \<and> format < 4)
        (squote (cpath @ ''.lifetime'') @ '' value '' @ squote ''retained'' @ '' requires ffi_format 4'')) (\<lambda>_.
      bindE (guardE (invoke \<noteq> JStr ''script-thread'' \<and> invoke \<noteq> JStr ''foreign'')
        (squote (cpath @ ''.invoke'') @ '' must be '' @ squote ''script-thread'' @ '' or '' @ squote ''foreign'')) (\<lambda>_.
      bindE (guardE (invoke = JStr ''foreign'' \<and> format < 5)
        (squote (cpath @ ''.invoke'') @ '' value '' @ squote ''foreign'' @ '' requires ffi_format 5'')) (\<lambda>_.
      bindE (guardE (invoke = JStr ''foreign'' \<and> lifetime \<noteq> JStr ''retained'')
        (squote (cpath @ ''.invoke'') @ '' value '' @ squote ''foreign'' @ '' requires lifetime '' @ squote ''retained'')) (\<lambda>_.
      bindE (guardE (invoke = JStr ''foreign'' \<and> returns \<noteq> ''void'')
        (squote (cpath @ ''.invoke'') @ '' value '' @ squote ''foreign'' @ '' requires returns '' @ squote ''void'')) (\<lambda>_.
      bindE (guardE (invoke = JStr ''foreign'' \<and> \<not> list_ex isContext params)
        (squote (cpath @ ''.invoke'') @ '' value '' @ squote ''foreign'' @ '' requires a context entry'')) (\<lambda>_.
      Inr (strOf lifetime, strOf invoke)))))))))"

definition callbackParam :: "json \<Rightarrow> string \<Rightarrow> nat \<Rightarrow> FfiParamClass option res" where
  "callbackParam v path format =
     (if \<not> isDict v \<or> \<not> hasKey ''callback'' v then Inr None
      else bindE (rejectUnknownKeys v path [''callback'']) (\<lambda>_.
        let callback = fld v ''callback''; cpath = path @ ''.callback'' in
        if \<not> isDict callback then Inl (squote cpath @ '' must be an object'')
        else if hasKey ''release'' callback then
          bindE (guardE (format < 4) (squote (cpath @ ''.release'') @ '' requires ffi_format 4'')) (\<lambda>_.
          bindE (rejectUnknownKeys callback cpath [''release'']) (\<lambda>_.
          bindE (stringField (fld callback ''release'') (cpath @ ''.release'')) (\<lambda>target.
            Inr (Some (FfiRelease target None)))))
        else
          bindE (rejectUnknownKeys callback cpath [''id'', ''params'', ''returns'', ''lifetime'', ''invoke'']) (\<lambda>_.
          bindE (stringField (fld callback ''id'') (cpath @ ''.id'')) (\<lambda>id.
          bindE (guardE (\<not> TS_IDENT id) (squote (cpath @ ''.id'') @ '' is not a plain identifier: '' @ squote id)) (\<lambda>_.
          bindE (arrayField (fld callback ''params'') (cpath @ ''.params'')) (\<lambda>entries.
              bindE (mapIdxE (\<lambda>i entry. callbackEntry format (idxPath (cpath @ ''.params'') i) entry) 0 entries) (\<lambda>params.
              bindE (stringField (fld callback ''returns'') (cpath @ ''.returns'')) (\<lambda>returns.
              bindE (guardE (returns \<notin> set FFI_RETURN_CLASSES)
                (squote (cpath @ ''.returns'') @ '' must be one of '' @ joinWith ''/'' FFI_RETURN_CLASSES @ '', got '' @ squote returns)) (\<lambda>_.
              bindE (checkLifetime format path callback params returns) (\<lambda>(lifetime, invoke).
                Inr (Some (FfiCallbackP \<lparr>cbId = id, cbParams = params, cbReturns = returns, cbLifetime = lifetime, cbInvoke = invoke\<rparr>))))))))))))"

section \<open>One function row\<close>

fun isClass :: "string list \<Rightarrow> json \<Rightarrow> bool" where
  "isClass classes (JStr s) = (s \<in> set classes)"
| "isClass classes _ = False"

definition functionParam :: "nat \<Rightarrow> string \<Rightarrow> json \<Rightarrow> FfiParamClass res" where
  "functionParam format paramPath v =
     (if isClass FFI_PARAM_CLASSES v then Inr (FfiValue (strOf v))
      else if 2 \<le> format then
        bindE (callbackParam v paramPath format) (\<lambda>callback. case callback of
          Some cb \<Rightarrow> Inr cb
        | None \<Rightarrow> bindE (contextParam v paramPath) (\<lambda>context. case context of
            Some c \<Rightarrow> Inr (FfiContext c)
          | None \<Rightarrow> Inl (squote paramPath @ '' must be one of '' @ joinWith ''/'' FFI_PARAM_CLASSES @ '', a callback, or a context entry'')))
      else Inl (squote paramPath @ '' must be one of '' @ joinWith ''/'' FFI_PARAM_CLASSES @ '', got '' @ stringify v))"

text \<open>The three collections of the callback cross-check: callbacks by id, release targets, and how
  often each context occurs.\<close>

record ParamTables =
  tblCallbacks :: "(string, FfiCallback) jsmap"
  tblReleases :: "string list"
  tblContexts :: "(string, nat) jsmap"

definition noteParam :: "string \<Rightarrow> ParamTables \<Rightarrow> FfiParamClass \<Rightarrow> ParamTables res" where
  "noteParam path tables param =
     (case param of
        FfiRelease target _ \<Rightarrow>
          (if target \<in> set (tblReleases tables) then
             Inl (''callback release '' @ squote target @ '' is declared twice in '' @ squote (path @ ''.params''))
           else Inr (tables\<lparr>tblReleases := tblReleases tables @ [target]\<rparr>))
      | FfiCallbackP cb \<Rightarrow>
          (if jm_has (tblCallbacks tables) (cbId cb) then
             Inl (''callback id '' @ squote (cbId cb) @ '' is declared twice in '' @ squote (path @ ''.params''))
           else Inr (tables\<lparr>tblCallbacks := jm_set (tblCallbacks tables) (cbId cb) cb\<rparr>))
      | FfiContext c \<Rightarrow>
          Inr (tables\<lparr>tblContexts := jm_set (tblContexts tables) c
            (Suc (case jm_get (tblContexts tables) c of Some n \<Rightarrow> n | None \<Rightarrow> 0))\<rparr>)
      | FfiValue _ \<Rightarrow> Inr tables)"

definition checkOuterContext :: "string \<Rightarrow> ParamTables \<Rightarrow> string \<times> nat \<Rightarrow> unit res" where
  "checkOuterContext path tables row = (case row of (cid, count) \<Rightarrow>
     bindE (guardE (\<not> jm_has (tblCallbacks tables) cid \<and> cid \<notin> set (tblReleases tables))
       (''context '' @ squote cid @ '' in '' @ squote (path @ ''.params'') @ '' has no matching callback'')) (\<lambda>_.
     guardE (count \<noteq> 1)
       (''context '' @ squote cid @ '' appears '' @ intDigits (int count) @ '' times in '' @ squote (path @ ''.params'') @
        ''; exactly one is required'')))"

definition checkCallbackContexts :: "ParamTables \<Rightarrow> string \<times> FfiCallback \<Rightarrow> unit res" where
  "checkCallbackContexts tables row = (case row of (cid, cb) \<Rightarrow>
     let callbackContexts = filter isContext (cbParams cb) in
     bindE (forE (\<lambda>c. guardE (c \<noteq> CbContext cid)
       (''callback '' @ squote cid @ '' contains context '' @ squote (case c of CbContext x \<Rightarrow> x | CbClass x \<Rightarrow> x) @
        ''; callback contexts must reference their own id'')) callbackContexts) (\<lambda>_.
     bindE (guardE (1 < length callbackContexts)
       (''callback '' @ squote cid @ '' contains '' @ intDigits (int (length callbackContexts)) @
        '' context parameters; at most one is supported'')) (\<lambda>_.
     guardE ((length callbackContexts = 1) \<noteq>
         ((case jm_get (tblContexts tables) cid of Some n \<Rightarrow> n | None \<Rightarrow> 0) = 1))
       (''callback '' @ squote cid @
        '' must declare its context exactly once in both the native function and callback parameter lists, or in neither''))))"

definition checkContexts :: "nat \<Rightarrow> string \<Rightarrow> FfiParamClass list \<Rightarrow> unit res" where
  "checkContexts format path params =
     (if 2 \<le> format then
        bindE (foldE (noteParam path) \<lparr>tblCallbacks = [], tblReleases = [], tblContexts = []\<rparr> params) (\<lambda>tables.
        bindE (forE (checkOuterContext path tables) (tblContexts tables)) (\<lambda>_.
        forE (checkCallbackContexts tables) (tblCallbacks tables)))
      else Inr ())"

text \<open>The callback of \<^verbatim>\<open>functionsRaw.map\<close>; the sets of names and symbols seen so far are passed on.\<close>

definition parseFunction :: "nat \<Rightarrow> nat \<Rightarrow> string list \<times> string list \<Rightarrow> json \<Rightarrow> FfiFunction res" where
  "parseFunction format i seen entry = (case seen of (names, symbols) \<Rightarrow>
     let path = idxPath ''functions'' i in
     if \<not> isDict entry then Inl (squote path @ '' must be an object'')
     else
       bindE (rejectUnknownKeys entry path [''name'', ''symbol'', ''params'', ''returns'']) (\<lambda>_.
       bindE (stringField (fld entry ''name'') (path @ ''.name'')) (\<lambda>name.
       bindE (guardE (\<not> TS_IDENT name) (squote (path @ ''.name'') @ '' is not a plain TypeScript identifier: '' @ squote name)) (\<lambda>_.
       bindE (guardE (name \<in> set names) (''function binding '' @ squote name @ '' is declared twice'')) (\<lambda>_.
       bindE (stringField (fld entry ''symbol'') (path @ ''.symbol'')) (\<lambda>symbol.
       bindE (guardE (\<not> C_IDENT symbol) (squote (path @ ''.symbol'') @ '' is not a C identifier: '' @ squote symbol)) (\<lambda>_.
       bindE (guardE (symbol \<in> set symbols) (''native symbol '' @ squote symbol @ '' is declared twice'')) (\<lambda>_.
       bindE (arrayField (fld entry ''params'') (path @ ''.params'')) (\<lambda>rows.
           bindE (mapIdxE (\<lambda>j v. functionParam format (idxPath (path @ ''.params'') j) v) 0 rows) (\<lambda>params.
           bindE (checkContexts format path params) (\<lambda>_.
           bindE (stringField (fld entry ''returns'') (path @ ''.returns'')) (\<lambda>returns.
           bindE (guardE (returns \<notin> set FFI_RETURN_CLASSES)
             (squote (path @ ''.returns'') @ '' must be one of '' @ joinWith ''/'' FFI_RETURN_CLASSES @ '', got '' @ squote returns)) (\<lambda>_.
           Inr \<lparr>ffiName = name, ffiSymbol = symbol, ffiParams = params, ffiReturns = returns\<rparr>)))))))))))))"

fun parseFunctions :: "nat \<Rightarrow> nat \<Rightarrow> string list \<times> string list \<Rightarrow> json list \<Rightarrow> FfiFunction list res" where
  "parseFunctions format i seen [] = Inr []"
| "parseFunctions format i seen (entry # entries) =
     bindE (parseFunction format i seen entry) (\<lambda>fn.
     bindE (parseFunctions format (Suc i) (fst seen @ [ffiName fn], snd seen @ [ffiSymbol fn]) entries) (\<lambda>fns.
     Inr (fn # fns)))"

section \<open>Release parameters, across functions\<close>

definition retainedOf :: "FfiFunction \<Rightarrow> (string \<times> FfiCallback) list" where
  "retainedOf fn = concat (map (\<lambda>param. case param of
     FfiCallbackP cb \<Rightarrow> (if cbLifetime cb = ''retained'' then [(ffiName fn @ '':'' @ cbId cb, cb)] else [])
   | _ \<Rightarrow> []) (ffiParams fn))"

definition retainedMap :: "FfiFunction list \<Rightarrow> (string, FfiCallback) jsmap" where
  "retainedMap functions = foldl (\<lambda>m kv. jm_set m (fst kv) (snd kv)) [] (concat (map retainedOf functions))"

text \<open>\<^verbatim>\<open>target.split(":")\<close>\<close>

fun splitColon :: "string \<Rightarrow> string list" where
  "splitColon [] = [[]]"
| "splitColon (c # cs) = (if c = CHR '':'' then [] # splitColon cs
     else case splitColon cs of [] \<Rightarrow> [[c]] | w # ws \<Rightarrow> (c # w) # ws)"

fun isCallbackNamed :: "string \<Rightarrow> FfiParamClass \<Rightarrow> bool" where
  "isCallbackNamed cid (FfiCallbackP cb) = (cbId cb = cid)"
| "isCallbackNamed cid _ = False"

definition namesCallback :: "FfiFunction list \<Rightarrow> string \<Rightarrow> bool" where
  "namesCallback functions target = (case splitColon target of
     [binding, cid] \<Rightarrow> (case find (\<lambda>entry. ffiName entry = binding) functions of
         None \<Rightarrow> False
       | Some entry \<Rightarrow> list_ex (isCallbackNamed cid) (ffiParams entry))
   | _ \<Rightarrow> False)"

definition releaseSite :: "string \<Rightarrow> nat \<Rightarrow> nat \<Rightarrow> string" where
  "releaseSite target i j =
     ''release '' @ squote target @ '' in '' @ squote (idxPath (idxPath ''functions'' i @ ''.params'') j)"

definition registersTarget :: "FfiFunction \<Rightarrow> string \<Rightarrow> FfiParamClass \<Rightarrow> bool" where
  "registersTarget fn target entry = (case entry of
     FfiCallbackP cb \<Rightarrow> ffiName fn @ '':'' @ cbId cb = target | _ \<Rightarrow> False)"

definition resolveParam ::
    "FfiFunction list \<Rightarrow> (string, FfiCallback) jsmap \<Rightarrow> nat \<Rightarrow> FfiFunction \<Rightarrow> nat \<Rightarrow> FfiParamClass \<Rightarrow> FfiParamClass res" where
  "resolveParam functions retained i fn j param = (case param of
     FfiRelease target _ \<Rightarrow>
       (case jm_get retained target of
          None \<Rightarrow>
            (if namesCallback functions target then Inl (releaseSite target i j @ '' targets a non-retained callback'')
             else Inl (releaseSite target i j @ '' has no matching retained callback''))
        | Some descriptor \<Rightarrow>
            bindE (guardE (list_ex (registersTarget fn target) (ffiParams fn))
              (releaseSite target i j @ '' targets a retained callback registered by the same call; registration and release must be separate bindings'')) (\<lambda>_.
            let inheritedContext = list_ex isContext (cbParams descriptor);
                contextCount = length (filter (\<lambda>entry. entry = FfiContext target) (ffiParams fn)) in
            bindE (guardE (inheritedContext \<noteq> (contextCount = 1))
              (if inheritedContext
               then ''release '' @ squote target @ '' must declare its context exactly once in the native function parameter list because the retained callback has a context''
               else ''release '' @ squote target @ '' must not declare a context in the native function parameter list because the retained callback has none'')) (\<lambda>_.
            Inr (FfiRelease target (Some (cbParams descriptor, cbReturns descriptor))))))
   | _ \<Rightarrow> Inr param)"

definition resolveFunction ::
    "FfiFunction list \<Rightarrow> (string, FfiCallback) jsmap \<Rightarrow> nat \<Rightarrow> FfiFunction \<Rightarrow> FfiFunction res" where
  "resolveFunction functions retained i fn =
     bindE (mapIdxE (resolveParam functions retained i fn) 0 (ffiParams fn)) (\<lambda>params. Inr (fn\<lparr>ffiParams := params\<rparr>))"

text \<open>Only formats from 4 on have release parameters. The checks look at names, callbacks and
  contexts only, which resolving a release in place does not change, so they may read the
  unresolved functions throughout.\<close>

definition resolveFunctions :: "nat \<Rightarrow> FfiFunction list \<Rightarrow> FfiFunction list res" where
  "resolveFunctions format functions =
     (if 4 \<le> format then mapIdxE (resolveFunction functions (retainedMap functions)) 0 functions else Inr functions)"

section \<open>Libraries and the whole manifest\<close>

definition ffiFormatOf :: "json \<Rightarrow> nat res" where
  "ffiFormatOf format = (case format of
     JNum x \<Rightarrow>
       (if x = Fin 1 then Inr 1 else if x = Fin 2 then Inr 2 else if x = Fin 3 then Inr 3
        else if x = Fin 4 then Inr 4 else if x = Fin 5 then Inr 5
        else Inl (''unsupported ffi_format '' @ numToString x @ '' (this scriptc reads formats 1, 2, 3, 4, and 5)''))
   | _ \<Rightarrow> Inl (squote ''ffi_format'' @ '' must be the number 1, 2, 3, 4, or 5''))"

definition checkSystemLibrary :: "nat \<Rightarrow> string \<Rightarrow> unit res" where
  "checkSystemLibrary i name =
     guardE (\<not> SYSTEM_LIBRARY name \<or> startsWith name ''-'')
       (squote (idxPath ''system_libraries'' i) @ '' is not a library name: '' @ squote name)"

definition checkLibraryFile :: "(string \<Rightarrow> bool res) \<Rightarrow> nat \<Rightarrow> string \<Rightarrow> unit res" where
  "checkLibraryFile isFile i path = (case isFile path of
     Inl err \<Rightarrow> Inl (squote (idxPath ''libraries'' i) @ '' cannot be read at '' @ squote path @ '': '' @ err)
   | Inr file \<Rightarrow> guardE (\<not> file) (squote (idxPath ''libraries'' i) @ '' does not name a file: '' @ squote path))"

definition validateManifest :: "(string \<Rightarrow> string) \<Rightarrow> (string \<Rightarrow> bool res) \<Rightarrow> json \<Rightarrow> FfiProfile res" where
  "validateManifest resolveLib isFile raw =
     (if \<not> isDict raw then Inl ''manifest must be a JSON object''
      else
        bindE (ffiFormatOf (fld raw ''ffi_format'')) (\<lambda>format.
        bindE (rejectUnknownKeys raw [] [''ffi_format'', ''functions'', ''libraries'', ''system_libraries'']) (\<lambda>_.
        bindE (arrayField (fld raw ''functions'') ''functions'') (\<lambda>functionsRaw.
            bindE (parseFunctions format 0 ([], []) functionsRaw) (\<lambda>functions.
            bindE (resolveFunctions format functions) (\<lambda>resolvedFunctions.
            bindE (stringArray (fld raw ''libraries'') ''libraries'') (\<lambda>libs.
            let libraries = map resolveLib libs in
            bindE (stringArray (fld raw ''system_libraries'') ''system_libraries'') (\<lambda>systemLibraries.
            bindE (mapIdxE checkSystemLibrary 0 systemLibraries) (\<lambda>_.
            bindE (guardE (\<not> distinct libraries) (squote ''libraries'' @ '' contains a duplicate path'')) (\<lambda>_.
            bindE (mapIdxE (checkLibraryFile isFile) 0 libraries) (\<lambda>_.
            bindE (guardE (\<not> distinct systemLibraries) (squote ''system_libraries'' @ '' contains a duplicate name'')) (\<lambda>_.
            Inr \<lparr>ffiFormat = format, ffiFunctions = resolvedFunctions, ffiLibraries = libraries,
                 ffiSystemLibraries = systemLibraries\<rparr>))))))))))))"

text \<open>The loader: the manifest's bytes are read once and kept with the profile parsed from them.\<close>

definition loadFfiProfile ::
    "(string \<Rightarrow> 'b res) \<Rightarrow> ('b \<Rightarrow> json res) \<Rightarrow> (string \<Rightarrow> string \<Rightarrow> string) \<Rightarrow> (string \<Rightarrow> bool res) \<Rightarrow>
     string \<Rightarrow> (FfiProfile \<times> 'b) res" where
  "loadFfiProfile readFile parseJson resolveFrom isFile profilePath =
     (case readFile profilePath of
        Inl err \<Rightarrow> Inl (''cannot read manifest: '' @ err)
      | Inr bytes \<Rightarrow>
          (case parseJson bytes of
             Inl err \<Rightarrow> Inl (''manifest is not valid JSON ('' @ err @ '')'')
           | Inr raw \<Rightarrow> bindE (validateManifest (resolveFrom profilePath) isFile raw) (\<lambda>profile. Inr (profile, bytes))))"

end
