(* ===== verification/FfiSound.thy ===== *)
theory FfiSound
  imports FfiManifest
begin

text \<open>
  What the rest of the compiler may rely on once a native-FFI manifest has been accepted. The
  contract is stated without the validator's loops and tables: which names, classes and
  lifetimes occur, that every context belongs to exactly one callback or release of its
  function, and that every release has inherited the ABI of a retained callback of another
  function. A second group of lemmas shows that a later format accepts what an earlier one did.
\<close>

section \<open>The contract of an accepted profile\<close>

definition wfCallback :: "nat \<Rightarrow> FfiCallback \<Rightarrow> bool" where
  "wfCallback format cb \<longleftrightarrow>
     2 \<le> format \<and> TS_IDENT (cbId cb) \<and> cbReturns cb \<in> set FFI_RETURN_CLASSES \<and>
     (\<forall>c. CbClass c \<in> set (cbParams cb) \<longrightarrow> c \<in> set (allowedCallbackClasses format)) \<and>
     (cbLifetime cb = ''call'' \<or> cbLifetime cb = ''retained'' \<and> 4 \<le> format) \<and>
     (cbInvoke cb = ''script-thread'' \<or>
      cbInvoke cb = ''foreign'' \<and> 5 \<le> format \<and> cbLifetime cb = ''retained'' \<and> cbReturns cb = ''void'' \<and>
        list_ex isContext (cbParams cb))"

fun wfParam :: "nat \<Rightarrow> FfiParamClass \<Rightarrow> bool" where
  "wfParam format (FfiValue c) = (c \<in> set FFI_PARAM_CLASSES)"
| "wfParam format (FfiCallbackP cb) = wfCallback format cb"
| "wfParam format (FfiRelease target abi) = (4 \<le> format)"
| "wfParam format (FfiContext c) = (2 \<le> format)"

definition callbacksOf :: "FfiParamClass list \<Rightarrow> FfiCallback list" where
  "callbacksOf ps = concat (map (\<lambda>p. case p of FfiCallbackP cb \<Rightarrow> [cb] | _ \<Rightarrow> []) ps)"

definition releasesOf :: "FfiParamClass list \<Rightarrow> string list" where
  "releasesOf ps = concat (map (\<lambda>p. case p of FfiRelease target _ \<Rightarrow> [target] | _ \<Rightarrow> []) ps)"

definition contextsOk :: "FfiParamClass list \<Rightarrow> bool" where
  "contextsOk ps \<longleftrightarrow>
     distinct (map cbId (callbacksOf ps)) \<and> distinct (releasesOf ps) \<and>
     (\<forall>c. FfiContext c \<in> set ps \<longrightarrow>
        count_list ps (FfiContext c) = 1 \<and> (c \<in> cbId ` set (callbacksOf ps) \<or> c \<in> set (releasesOf ps))) \<and>
     (\<forall>cb\<in>set (callbacksOf ps).
        (\<forall>c. CbContext c \<in> set (cbParams cb) \<longrightarrow> c = cbId cb) \<and>
        length (filter isContext (cbParams cb)) \<le> 1 \<and>
        (list_ex isContext (cbParams cb) \<longleftrightarrow> FfiContext (cbId cb) \<in> set ps))"

definition wfFunction :: "nat \<Rightarrow> FfiFunction \<Rightarrow> bool" where
  "wfFunction format fn \<longleftrightarrow>
     TS_IDENT (ffiName fn) \<and> C_IDENT (ffiSymbol fn) \<and> ffiReturns fn \<in> set FFI_RETURN_CLASSES \<and>
     list_all (wfParam format) (ffiParams fn) \<and> contextsOk (ffiParams fn)"

text \<open>A release is resolved: it carries the ABI of a retained callback registered by a function
  other than its own, and declares that callback's context exactly when it has one.\<close>

definition releaseOk :: "FfiFunction list \<Rightarrow> FfiFunction \<Rightarrow> FfiParamClass \<Rightarrow> bool" where
  "releaseOk fns fn p = (case p of
     FfiRelease target abi \<Rightarrow>
       (\<exists>g\<in>set fns. \<exists>cb\<in>set (callbacksOf (ffiParams g)).
          ffiName g \<noteq> ffiName fn \<and> cbLifetime cb = ''retained'' \<and> target = ffiName g @ '':'' @ cbId cb \<and>
          abi = Some (cbParams cb, cbReturns cb) \<and>
          (list_ex isContext (cbParams cb) \<longleftrightarrow> FfiContext target \<in> set (ffiParams fn)))
   | _ \<Rightarrow> True)"

definition wfProfile :: "FfiProfile \<Rightarrow> bool" where
  "wfProfile p \<longleftrightarrow>
     1 \<le> ffiFormat p \<and> ffiFormat p \<le> 5 \<and>
     list_all (wfFunction (ffiFormat p)) (ffiFunctions p) \<and>
     distinct (map ffiName (ffiFunctions p)) \<and> distinct (map ffiSymbol (ffiFunctions p)) \<and>
     (\<forall>fn\<in>set (ffiFunctions p). list_all (releaseOk (ffiFunctions p) fn) (ffiParams fn)) \<and>
     distinct (ffiLibraries p) \<and> distinct (ffiSystemLibraries p) \<and>
     list_all (\<lambda>l. SYSTEM_LIBRARY l \<and> \<not> startsWith l ''-'') (ffiSystemLibraries p)"

section \<open>Parameters\<close>

lemma callbackEntry_class: "callbackEntry format path v = Inr (CbClass c) \<Longrightarrow> c \<in> set (allowedCallbackClasses format)"
  by (auto simp: callbackEntry_def errE split: json.splits if_splits option.splits)

lemma checkLifetime_ok:
  assumes "checkLifetime format path callback params returns = Inr (lifetime, invoke)"
  shows "lifetime = ''call'' \<or> lifetime = ''retained'' \<and> 4 \<le> format"
    and "invoke = ''script-thread'' \<or> invoke = ''foreign'' \<and> 5 \<le> format \<and> lifetime = ''retained'' \<and> returns = ''void'' \<and>
      list_ex isContext params"
proof -
  let ?l = "fld callback ''lifetime''" and ?i = "invokeOf callback"
  have "(?l = JStr ''call'' \<or> ?l = JStr ''retained'') \<and> (?l = JStr ''retained'' \<longrightarrow> 4 \<le> format) \<and>
      (?i = JStr ''script-thread'' \<or> ?i = JStr ''foreign'') \<and>
      (?i = JStr ''foreign'' \<longrightarrow> 5 \<le> format \<and> ?l = JStr ''retained'' \<and> returns = ''void'' \<and> list_ex isContext params) \<and>
      lifetime = strOf ?l \<and> invoke = strOf ?i"
    using assms unfolding checkLifetime_def Let_def bindE_Inr guardE_Inr not_less [symmetric] by blast
  then show "lifetime = ''call'' \<or> lifetime = ''retained'' \<and> 4 \<le> format"
    and "invoke = ''script-thread'' \<or> invoke = ''foreign'' \<and> 5 \<le> format \<and> lifetime = ''retained'' \<and> returns = ''void'' \<and>
      list_ex isContext params"
    by (metis strOf.simps(1))+
qed

lemma callbackParam_cases:
  assumes "callbackParam v path format = Inr (Some p)"
  obtains (release) target where "p = FfiRelease target None" "4 \<le> format"
  | (callback) cid entries params returns lifetime invoke where
      "p = FfiCallbackP \<lparr>cbId = cid, cbParams = params, cbReturns = returns, cbLifetime = lifetime, cbInvoke = invoke\<rparr>"
      "TS_IDENT cid" "returns \<in> set FFI_RETURN_CLASSES"
      "mapIdxE (\<lambda>i entry. callbackEntry format (idxPath (path @ ''.callback.params'') i) entry) 0 entries = Inr params"
      "checkLifetime format path (fld v ''callback'') params returns = Inr (lifetime, invoke)"
  using assms by (auto simp: callbackParam_def Let_def errE not_less split: if_splits)

definition rawParamOk :: "nat \<Rightarrow> FfiParamClass \<Rightarrow> bool" where
  "rawParamOk format p \<longleftrightarrow> wfParam format p \<and> (\<forall>target abi. p = FfiRelease target abi \<longrightarrow> abi = None) \<and>
     (format < 2 \<longrightarrow> (\<exists>c. p = FfiValue c))"

lemma callbackParam_ok:
  assumes "callbackParam v path format = Inr (Some p)" "2 \<le> format"
  shows "rawParamOk format p"
  using assms(1)
proof (cases rule: callbackParam_cases)
  case (callback cid entries params returns lifetime invoke)
  have "c \<in> set (allowedCallbackClasses format)" if "CbClass c \<in> set params" for c
    using mapIdxE_mem [OF callback(4) that] callbackEntry_class by blast
  then show ?thesis
    using callback(1-3) assms(2) checkLifetime_ok [OF callback(5)] by (simp add: wfCallback_def rawParamOk_def)
qed (use assms(2) in \<open>simp add: rawParamOk_def\<close>)

lemma functionParam_ok: "functionParam format path v = Inr p \<Longrightarrow> rawParamOk format p"
proof -
  assume ok: "functionParam format path v = Inr p"
  consider (cls) "isClass FFI_PARAM_CLASSES v" "p = FfiValue (strOf v)"
    | (cb) "2 \<le> format" "callbackParam v path format = Inr (Some p)" | (ctx) c where "2 \<le> format" "p = FfiContext c"
    using ok by (auto simp: functionParam_def errE split: if_splits option.splits)
  then show ?thesis
  proof cases
    case cls
    then show ?thesis by (cases v) (simp_all add: rawParamOk_def)
  qed (simp_all add: callbackParam_ok, simp add: rawParamOk_def)
qed

section \<open>The context tables\<close>

lemma callbacksOf_simps [simp]:
  "callbacksOf [] = []"
  "callbacksOf (FfiCallbackP cb # ps) = cb # callbacksOf ps" "callbacksOf (FfiValue c # ps) = callbacksOf ps"
  "callbacksOf (FfiRelease t a # ps) = callbacksOf ps" "callbacksOf (FfiContext c # ps) = callbacksOf ps"
  by (simp_all add: callbacksOf_def)

lemma releasesOf_simps [simp]:
  "releasesOf [] = []"
  "releasesOf (FfiCallbackP cb # ps) = releasesOf ps" "releasesOf (FfiValue c # ps) = releasesOf ps"
  "releasesOf (FfiRelease t a # ps) = t # releasesOf ps" "releasesOf (FfiContext c # ps) = releasesOf ps"
  by (simp_all add: releasesOf_def)

lemma in_callbacksOf: "cb \<in> set (callbacksOf ps) \<longleftrightarrow> FfiCallbackP cb \<in> set ps"
  by (induction ps) (auto split: FfiParamClass.splits simp: callbacksOf_def)

lemma jm_wf_get: "jm_wf m \<Longrightarrow> (k, v) \<in> set m \<Longrightarrow> jm_get m k = Some v"
  by (simp add: jm_get_map_of jm_wf_def)

lemma jm_get_mem: "jm_get m k = Some v \<Longrightarrow> (k, v) \<in> set m"
  by (simp add: jm_get_map_of map_of_SomeD)

definition ctxCount :: "ParamTables \<Rightarrow> string \<Rightarrow> nat" where
  "ctxCount t c = (case jm_get (tblContexts t) c of Some n \<Rightarrow> n | None \<Rightarrow> 0)"

definition tablesOk :: "ParamTables \<Rightarrow> FfiParamClass list \<Rightarrow> bool" where
  "tablesOk t ps \<longleftrightarrow>
     tblCallbacks t = map (\<lambda>cb. (cbId cb, cb)) (callbacksOf ps) \<and> distinct (map cbId (callbacksOf ps)) \<and>
     tblReleases t = releasesOf ps \<and> distinct (releasesOf ps) \<and>
     jm_wf (tblContexts t) \<and> (\<forall>c. ctxCount t c = count_list ps (FfiContext c))"

lemma callbacksOf_append [simp]: "callbacksOf (ps @ qs) = callbacksOf ps @ callbacksOf qs"
  by (simp add: callbacksOf_def)

lemma releasesOf_append [simp]: "releasesOf (ps @ qs) = releasesOf ps @ releasesOf qs"
  by (simp add: releasesOf_def)

lemma jm_has_map: "jm_has (map (\<lambda>x. (f x, x)) xs) k \<longleftrightarrow> k \<in> f ` set xs"
  by (induction xs) (auto simp: jm_has_def)

lemma tablesOk_note:
  assumes "tablesOk t ps" "noteParam path t p = Inr t'"
  shows "tablesOk t' (ps @ [p])"
proof (cases p)
  case (FfiCallbackP cb)
  then show ?thesis
    using assms jm_set_absent [of "tblCallbacks t" "cbId cb" cb] jm_has_map [of cbId "callbacksOf ps" "cbId cb"]
    by (auto simp: noteParam_def tablesOk_def ctxCount_def jm_has_def split: if_splits)
next
  case (FfiContext c)
  then have t': "t' = t\<lparr>tblContexts := jm_set (tblContexts t) c (Suc (ctxCount t c))\<rparr>"
    using assms(2) by (simp add: noteParam_def ctxCount_def)
  have "ctxCount t' d = (if d = c then Suc (ctxCount t c) else ctxCount t d)" for d
    by (simp add: t' ctxCount_def jm_get_set)
  then show ?thesis
    using assms(1) FfiContext by (simp add: tablesOk_def t' jm_wf_set)
qed (use assms in \<open>auto simp: noteParam_def tablesOk_def ctxCount_def split: if_splits\<close>)

lemma tablesOk_fold: "tablesOk t ps \<Longrightarrow> foldE (noteParam path) t qs = Inr t' \<Longrightarrow> tablesOk t' (ps @ qs)"
proof (induction qs arbitrary: t ps)
  case (Cons q qs)
  from Cons.prems(2) obtain t1 where t1: "noteParam path t q = Inr t1" "foldE (noteParam path) t1 qs = Inr t'"
    by (auto simp: errE)
  from Cons.IH [OF tablesOk_note [OF Cons.prems(1) t1(1)] t1(2)] show ?case by simp
qed simp

lemma tablesOk_empty: "tablesOk \<lparr>tblCallbacks = [], tblReleases = [], tblContexts = []\<rparr> []"
  by (simp add: tablesOk_def ctxCount_def jm_wf_empty)

lemma contexts_of_filter: "list_ex isContext ps \<longleftrightarrow> filter isContext ps \<noteq> []"
  by (simp add: list_ex_iff filter_empty_conv)

lemma checkOuterContext_ok:
  assumes "tablesOk t ps" "forE (checkOuterContext path t) (tblContexts t) = Inr ()" "FfiContext c \<in> set ps"
  shows "count_list ps (FfiContext c) = 1 \<and> (c \<in> cbId ` set (callbacksOf ps) \<or> c \<in> set (releasesOf ps))"
proof -
  have "ctxCount t c \<noteq> 0" using assms(1,3) by (simp add: tablesOk_def count_list_0_iff)
  then obtain n where n: "jm_get (tblContexts t) c = Some n" by (auto simp: ctxCount_def split: option.splits)
  then have "checkOuterContext path t (c, n) = Inr ()" using assms(2) jm_get_mem [OF n] by (auto simp: errE)
  then show ?thesis
    using assms(1) n jm_has_map [of cbId "callbacksOf ps" c]
    by (auto simp: checkOuterContext_def errE tablesOk_def ctxCount_def dest: spec [of _ c])
qed

lemma checkCallbackContexts_ok:
  assumes "tablesOk t ps" "forE (checkCallbackContexts t) (tblCallbacks t) = Inr ()" "cb \<in> set (callbacksOf ps)"
    "forE (checkOuterContext path t) (tblContexts t) = Inr ()"
  shows "(\<forall>c. CbContext c \<in> set (cbParams cb) \<longrightarrow> c = cbId cb) \<and> length (filter isContext (cbParams cb)) \<le> 1 \<and>
     (list_ex isContext (cbParams cb) \<longleftrightarrow> FfiContext (cbId cb) \<in> set ps)"
proof -
  have "(cbId cb, cb) \<in> set (tblCallbacks t)" using assms(1,3) by (auto simp: tablesOk_def)
  then have "checkCallbackContexts t (cbId cb, cb) = Inr ()" using assms(2) by (auto simp: errE)
  then have one: "\<forall>c\<in>set (filter isContext (cbParams cb)). c = CbContext (cbId cb)"
      "length (filter isContext (cbParams cb)) \<le> 1"
      "(length (filter isContext (cbParams cb)) = 1) = (ctxCount t (cbId cb) = 1)"
    unfolding checkCallbackContexts_def Let_def prod.case bindE_Inr guardE_Inr forE_Inr ctxCount_def by auto
  have "(FfiContext (cbId cb) \<in> set ps) = (ctxCount t (cbId cb) = 1)"
    using assms(1) checkOuterContext_ok [OF assms(1,4)] count_list_0_iff [of ps "FfiContext (cbId cb)"]
    by (auto simp: tablesOk_def)
  moreover have "list_ex isContext (cbParams cb) = (length (filter isContext (cbParams cb)) = 1)"
    using one(2) by (cases "filter isContext (cbParams cb)") (auto simp: contexts_of_filter)
  ultimately show ?thesis using one by auto
qed

lemma checkContexts_ok:
  assumes "checkContexts format path ps = Inr ()" "2 \<le> format"
  shows "contextsOk ps"
proof -
  obtain t where t: "tablesOk t ps" "forE (checkOuterContext path t) (tblContexts t) = Inr ()"
      "forE (checkCallbackContexts t) (tblCallbacks t) = Inr ()"
    using assms tablesOk_fold [OF tablesOk_empty] by (auto simp: checkContexts_def bindE_Inr)
  then show ?thesis
    unfolding contextsOk_def
    using checkOuterContext_ok [OF t(1,2)] checkCallbackContexts_ok [OF t(1,3) _ t(2)] by (auto simp: tablesOk_def)
qed

section \<open>Functions\<close>

definition rawFunctionOk :: "nat \<Rightarrow> FfiFunction \<Rightarrow> bool" where
  "rawFunctionOk format fn \<longleftrightarrow> wfFunction format fn \<and> list_all (rawParamOk format) (ffiParams fn)"

lemma contextsOk_values: "\<forall>p\<in>set ps. \<exists>c. p = FfiValue c \<Longrightarrow> contextsOk ps"
proof -
  assume v: "\<forall>p\<in>set ps. \<exists>c. p = FfiValue c"
  then have "callbacksOf ps = []" "releasesOf ps = []" by (induction ps) auto
  with v show ?thesis by (auto simp: contextsOk_def)
qed

lemma parseFunction_ok:
  assumes "parseFunction format i seen entry = Inr fn"
  shows "rawFunctionOk format fn \<and> ffiName fn \<notin> set (fst seen) \<and> ffiSymbol fn \<notin> set (snd seen)"
proof -
  obtain name symbol rows params returns path where fn: "fn = \<lparr>ffiName = name, ffiSymbol = symbol, ffiParams = params, ffiReturns = returns\<rparr>"
    and fields: "TS_IDENT name" "C_IDENT symbol" "returns \<in> set FFI_RETURN_CLASSES"
    and fresh: "name \<notin> set (fst seen)" "symbol \<notin> set (snd seen)"
    and params: "mapIdxE (\<lambda>j v. functionParam format (idxPath (path @ ''.params'') j) v) 0 rows = Inr params"
    and ctx: "checkContexts format path params = Inr ()"
    using assms by (auto simp: parseFunction_def Let_def errE split: prod.splits if_splits)
  have raw: "rawParamOk format p" if "p \<in> set params" for p
    using mapIdxE_mem [OF params that] functionParam_ok by blast
  have "contextsOk params"
  proof (cases "2 \<le> format")
    case True
    then show ?thesis using checkContexts_ok [OF ctx] by blast
  next
    case False
    then show ?thesis using raw by (intro contextsOk_values) (auto simp: rawParamOk_def)
  qed
  with raw fields fresh show ?thesis
    by (auto simp: fn rawFunctionOk_def wfFunction_def list_all_iff rawParamOk_def)
qed

lemma parseFunctions_ok:
  "parseFunctions format i seen entries = Inr fns \<Longrightarrow>
     list_all (rawFunctionOk format) fns \<and> distinct (map ffiName fns) \<and> distinct (map ffiSymbol fns) \<and>
     set (map ffiName fns) \<inter> set (fst seen) = {} \<and> set (map ffiSymbol fns) \<inter> set (snd seen) = {}"
proof (induction format i seen entries arbitrary: fns rule: parseFunctions.induct)
  case (2 format i seen entry entries)
  from "2.prems" obtain fn rest where fn: "parseFunction format i seen entry = Inr fn"
    and rest: "parseFunctions format (Suc i) (fst seen @ [ffiName fn], snd seen @ [ffiSymbol fn]) entries = Inr rest"
    and fns: "fns = fn # rest" by (auto simp: errE)
  from "2.IH" [OF fn rest] parseFunction_ok [OF fn] show ?case by (auto simp: fns)
qed simp

section \<open>Releases\<close>

text \<open>Resolving a release keeps everything the contract of a function talks about.\<close>

definition unresolve :: "FfiParamClass \<Rightarrow> FfiParamClass" where
  "unresolve p = (case p of FfiRelease target _ \<Rightarrow> FfiRelease target None | _ \<Rightarrow> p)"

lemma unresolve_tables:
  "callbacksOf (map unresolve ps) = callbacksOf ps" "releasesOf (map unresolve ps) = releasesOf ps"
  "count_list (map unresolve ps) (FfiContext c) = count_list ps (FfiContext c)"
  "FfiContext c \<in> unresolve ` set ps \<longleftrightarrow> FfiContext c \<in> set ps"
  by (induction ps) (auto simp: unresolve_def split: FfiParamClass.splits)

lemma contextsOk_unresolve: "contextsOk (map unresolve ps) = contextsOk ps"
  by (simp add: contextsOk_def unresolve_tables)

lemma resolveParam_unresolve:
  "resolveParam fns ret i fn j p = Inr q \<Longrightarrow> unresolve q = unresolve p"
  by (auto simp: resolveParam_def unresolve_def Let_def errE split: FfiParamClass.splits option.splits if_splits)

lemma resolveFunction_shape:
  assumes "resolveFunction fns ret i fn = Inr fn'"
  shows "\<exists>ps. fn' = fn\<lparr>ffiParams := ps\<rparr> \<and> map unresolve ps = map unresolve (ffiParams fn)"
proof -
  from assms obtain ps where ps: "fn' = fn\<lparr>ffiParams := ps\<rparr>" "length ps = length (ffiParams fn)"
      "\<And>j. j < length (ffiParams fn) \<Longrightarrow> resolveParam fns ret i fn j (ffiParams fn ! j) = Inr (ps ! j)"
    by (auto simp: resolveFunction_def errE mapIdxE_Inr)
  then have "map unresolve ps = map unresolve (ffiParams fn)"
    by (intro nth_equalityI) (auto dest: resolveParam_unresolve)
  with ps(1) show ?thesis by blast
qed

lemma retainedMap_mem:
  assumes "jm_get (retainedMap fns) target = Some cb"
  shows "\<exists>g\<in>set fns. cb \<in> set (callbacksOf (ffiParams g)) \<and> cbLifetime cb = ''retained'' \<and> target = ffiName g @ '':'' @ cbId cb"
proof -
  have "jm_get (foldl (\<lambda>m kv. jm_set m (fst kv) (snd kv)) m kvs) k = Some v \<Longrightarrow> jm_get m k = Some v \<or> (k, v) \<in> set kvs"
    for m k and v :: FfiCallback and kvs
    by (induction kvs arbitrary: m) (force simp: jm_get_set split: if_splits)+
  from this [of "[]"] assms have "(target, cb) \<in> set (concat (map retainedOf fns))"
    by (fastforce simp: retainedMap_def)
  then show ?thesis
    by (force simp: retainedOf_def in_callbacksOf split: FfiParamClass.splits if_splits)
qed

lemma resolveParam_releaseOk:
  assumes ok: "resolveParam fns (retainedMap fns) i fn j (FfiRelease target a) = Inr q"
    and fns: "distinct (map ffiName fns)" "fn \<in> set fns" "contextsOk (ffiParams fn)"
  shows "releaseOk fns fn q"
proof -
  from ok obtain cb where cb: "jm_get (retainedMap fns) target = Some cb"
    and other: "\<not> list_ex (registersTarget fn target) (ffiParams fn)"
    and ctx: "list_ex isContext (cbParams cb) = (length (filter (\<lambda>e. e = FfiContext target) (ffiParams fn)) = 1)"
    and q: "q = FfiRelease target (Some (cbParams cb, cbReturns cb))"
    by (auto simp: resolveParam_def Let_def errE split: option.splits if_splits)
  from retainedMap_mem [OF cb] obtain g where g: "g \<in> set fns" "cb \<in> set (callbacksOf (ffiParams g))"
    "cbLifetime cb = ''retained''" "target = ffiName g @ '':'' @ cbId cb" by blast
  have "ffiName g \<noteq> ffiName fn"
  proof
    assume "ffiName g = ffiName fn"
    then have "g = fn" using fns(1,2) g(1) by (auto simp: distinct_map inj_on_def)
    then have "registersTarget fn target (FfiCallbackP cb)" "FfiCallbackP cb \<in> set (ffiParams fn)"
      using g(2,4) by (simp_all add: registersTarget_def in_callbacksOf)
    with other show False by (auto simp: list_ex_iff)
  qed
  moreover have "length (filter (\<lambda>e. e = FfiContext target) (ffiParams fn)) = count_list (ffiParams fn) (FfiContext target)"
    by (induction "ffiParams fn") (auto simp: count_list_eq_length_filter intro!: arg_cong [where f = length] filter_cong)
  then have "list_ex isContext (cbParams cb) \<longleftrightarrow> FfiContext target \<in> set (ffiParams fn)"
    using ctx fns(3) count_list_0_iff [of "ffiParams fn" "FfiContext target"] by (auto simp: contextsOk_def)
  ultimately show ?thesis using g q by (auto simp: releaseOk_def)
qed

text \<open>The resolved functions agree with the unresolved ones up to the inherited ABIs.\<close>

definition sameButReleases :: "FfiFunction \<Rightarrow> FfiFunction \<Rightarrow> bool" where
  "sameButReleases fn fn' \<longleftrightarrow> (\<exists>ps. fn' = fn\<lparr>ffiParams := ps\<rparr> \<and> map unresolve ps = map unresolve (ffiParams fn))"

lemma sameButReleases_facts:
  assumes "sameButReleases fn fn'"
  shows "ffiName fn' = ffiName fn" "ffiSymbol fn' = ffiSymbol fn" "callbacksOf (ffiParams fn') = callbacksOf (ffiParams fn)"
    "contextsOk (ffiParams fn') = contextsOk (ffiParams fn)"
    "FfiContext c \<in> set (ffiParams fn') \<longleftrightarrow> FfiContext c \<in> set (ffiParams fn)"
    "wfFunction format fn' = wfFunction format fn"
proof -
  from assms obtain ps where ps: "fn' = fn\<lparr>ffiParams := ps\<rparr>" "map unresolve ps = map unresolve (ffiParams fn)"
    by (auto simp: sameButReleases_def)
  have wf: "wfParam format (unresolve p) = wfParam format p" for p
    by (cases p) (simp_all add: unresolve_def)
  show "ffiName fn' = ffiName fn" "ffiSymbol fn' = ffiSymbol fn" by (simp_all add: ps(1))
  show "callbacksOf (ffiParams fn') = callbacksOf (ffiParams fn)"
    using ps unresolve_tables(1) [of ps] unresolve_tables(1) [of "ffiParams fn"] by simp
  show ctx: "contextsOk (ffiParams fn') = contextsOk (ffiParams fn)"
    using ps contextsOk_unresolve [of ps] contextsOk_unresolve [of "ffiParams fn"] by simp
  show "FfiContext c \<in> set (ffiParams fn') \<longleftrightarrow> FfiContext c \<in> set (ffiParams fn)"
    using ps(1) arg_cong [OF ps(2), of set] unresolve_tables(4) [of c ps] unresolve_tables(4) [of c "ffiParams fn"] by auto
  have "list_all (wfParam format) ps = list_all (wfParam format) (map unresolve ps)" for ps
    by (simp add: list_all_iff wf)
  then have "list_all (wfParam format) ps = list_all (wfParam format) (ffiParams fn)" by (metis ps(2))
  then show "wfFunction format fn' = wfFunction format fn" using ctx ps(1) by (simp add: wfFunction_def)
qed

lemma releaseOk_same:
  assumes "list_all2 sameButReleases fns fns'" "sameButReleases fn fn'" "releaseOk fns fn p"
  shows "releaseOk fns' fn' p"
proof (cases p)
  case (FfiRelease target abi)
  from assms(3) FfiRelease obtain g cb where g: "g \<in> set fns" "cb \<in> set (callbacksOf (ffiParams g))" "ffiName g \<noteq> ffiName fn"
    "cbLifetime cb = ''retained''" "target = ffiName g @ '':'' @ cbId cb" "abi = Some (cbParams cb, cbReturns cb)"
    "list_ex isContext (cbParams cb) \<longleftrightarrow> FfiContext target \<in> set (ffiParams fn)"
    by (auto simp: releaseOk_def)
  from assms(1) g(1) obtain g' where g': "g' \<in> set fns'" "sameButReleases g g'"
    by (metis in_set_conv_nth list_all2_conv_all_nth)
  have "cb \<in> set (callbacksOf (ffiParams g'))" "ffiName g' \<noteq> ffiName fn'" "target = ffiName g' @ '':'' @ cbId cb"
    "list_ex isContext (cbParams cb) \<longleftrightarrow> FfiContext target \<in> set (ffiParams fn')"
    using g sameButReleases_facts [OF g'(2)] sameButReleases_facts [OF assms(2)] by simp_all
  with g' g(4,6) show ?thesis by (auto simp: releaseOk_def FfiRelease)
qed (simp_all add: releaseOk_def)

lemma sameButReleases_refl: "sameButReleases fn fn"
  unfolding sameButReleases_def by (rule exI [of _ "ffiParams fn"]) simp

fun isRelease :: "FfiParamClass \<Rightarrow> bool" where
  "isRelease (FfiRelease target abi) = True"
| "isRelease _ = False"

lemma releaseOk_other: "\<not> isRelease p \<Longrightarrow> releaseOk fns fn p"
  by (cases p) (simp_all add: releaseOk_def)

lemma resolveFunction_releases:
  assumes "resolveFunction fns (retainedMap fns) i fn = Inr fn'" "distinct (map ffiName fns)" "fn \<in> set fns"
    "contextsOk (ffiParams fn)"
  shows "list_all (releaseOk fns fn) (ffiParams fn')"
proof -
  from assms(1) obtain ps where ps: "ffiParams fn' = ps" "mapIdxE (resolveParam fns (retainedMap fns) i fn) 0 (ffiParams fn) = Inr ps"
    by (auto simp: resolveFunction_def errE)
  have "releaseOk fns fn q" if "q \<in> set ps" for q
  proof -
    from mapIdxE_mem [OF ps(2) that] obtain p j where p: "resolveParam fns (retainedMap fns) i fn j p = Inr q" by blast
    show ?thesis
    proof (cases p)
      case (FfiRelease target a)
      then show ?thesis using resolveParam_releaseOk p assms(2-4) by blast
    qed (use p in \<open>auto simp: resolveParam_def intro: releaseOk_other\<close>)
  qed
  then show ?thesis by (simp add: ps(1) list_all_iff)
qed

lemma resolveFunctions_ok:
  assumes ok: "resolveFunctions format fns = Inr fns'"
    and fns: "list_all (rawFunctionOk format) fns" "distinct (map ffiName fns)"
  shows "list_all2 sameButReleases fns fns'" "\<forall>fn\<in>set fns'. list_all (releaseOk fns' fn) (ffiParams fn)"
proof -
  show same: "list_all2 sameButReleases fns fns'"
    using ok resolveFunction_shape
    by (auto simp: resolveFunctions_def mapIdxE_Inr list_all2_conv_all_nth sameButReleases_def [symmetric] sameButReleases_refl
        split: if_splits)
  show "\<forall>fn\<in>set fns'. list_all (releaseOk fns' fn) (ffiParams fn)"
  proof (cases "4 \<le> format")
    case True
    with ok have step: "mapIdxE (resolveFunction fns (retainedMap fns)) 0 fns = Inr fns'" by (simp add: resolveFunctions_def)
    show ?thesis
    proof
      fix fn' assume "fn' \<in> set fns'"
      then obtain j where j: "j < length fns" "fn' = fns' ! j" using step by (auto simp: mapIdxE_Inr in_set_conv_nth)
      then have r: "resolveFunction fns (retainedMap fns) j (fns ! j) = Inr fn'" using step by (auto simp: mapIdxE_Inr)
      have "contextsOk (ffiParams (fns ! j))"
        using fns(1) j(1) by (auto simp: list_all_length rawFunctionOk_def wfFunction_def)
      from resolveFunction_releases [OF r fns(2) nth_mem [OF j(1)] this]
      show "list_all (releaseOk fns' fn') (ffiParams fn')"
        using releaseOk_same [OF same] same j by (auto simp: list_all_iff list_all2_conv_all_nth)
    qed
  next
    case False
    then have "fns' = fns" using ok by (simp add: resolveFunctions_def)
    moreover have "\<not> isRelease p" if "fn \<in> set fns" "p \<in> set (ffiParams fn)" for fn p
    proof -
      from that fns(1) have "wfParam format p" by (auto simp: list_all_iff rawFunctionOk_def wfFunction_def)
      with False show ?thesis by (cases p) auto
    qed
    ultimately show ?thesis by (auto simp: list_all_iff intro: releaseOk_other)
  qed
qed

lemma ffiFormatOf_range: "ffiFormatOf v = Inr format \<Longrightarrow> 1 \<le> format \<and> format \<le> 5"
  by (auto simp: ffiFormatOf_def split: json.splits if_splits)

lemma checkSystemLibrary_ok:
  "mapIdxE checkSystemLibrary 0 libs = Inr us \<Longrightarrow> list_all (\<lambda>l. SYSTEM_LIBRARY l \<and> \<not> startsWith l ''-'') libs"
  by (auto simp: mapIdxE_Inr checkSystemLibrary_def errE list_all_length)

lemma rejectUnknownKeys_known:
  "rejectUnknownKeys obj path known = Inr u \<Longrightarrow> set (jm_keys (objEntries obj)) \<subseteq> set known"
  by (auto simp: rejectUnknownKeys_def errE)

lemma validateManifest_parts:
  assumes "validateManifest resolveLib isFile raw = Inr p"
  obtains entries fns where "isDict raw" "ffiFormatOf (fld raw ''ffi_format'') = Inr (ffiFormat p)"
    "set (jm_keys (objEntries raw)) \<subseteq> {''ffi_format'', ''functions'', ''libraries'', ''system_libraries''}"
    "fld raw ''functions'' = JArr entries"
    "parseFunctions (ffiFormat p) 0 ([], []) entries = Inr fns" "resolveFunctions (ffiFormat p) fns = Inr (ffiFunctions p)"
    "distinct (ffiLibraries p)" "distinct (ffiSystemLibraries p)"
    "list_all (\<lambda>l. SYSTEM_LIBRARY l \<and> \<not> startsWith l ''-'') (ffiSystemLibraries p)"
proof -
  from assms obtain format entries fns fns' libs sys us where parts: "isDict raw"
    "ffiFormatOf (fld raw ''ffi_format'') = Inr format"
    "rejectUnknownKeys raw [] [''ffi_format'', ''functions'', ''libraries'', ''system_libraries''] = Inr ()"
    "arrayField (fld raw ''functions'') ''functions'' = Inr entries"
    "parseFunctions format 0 ([], []) entries = Inr fns" "resolveFunctions format fns = Inr fns'"
    "mapIdxE checkSystemLibrary 0 sys = Inr us" "distinct (map resolveLib libs)" "distinct sys"
    "p = \<lparr>ffiFormat = format, ffiFunctions = fns', ffiLibraries = map resolveLib libs, ffiSystemLibraries = sys\<rparr>"
    by (auto simp: validateManifest_def Let_def errE split: if_splits)
  have "set (jm_keys (objEntries raw)) \<subseteq> {''ffi_format'', ''functions'', ''libraries'', ''system_libraries''}"
    using rejectUnknownKeys_known [OF parts(3)] unfolding list.set .
  moreover have "fld raw ''functions'' = JArr entries"
    using parts(4) by (simp add: arrayField_def split: json.splits)
  ultimately show ?thesis
    using that parts checkSystemLibrary_ok [OF parts(7)] by simp
qed

lemma validateManifest_wf: "validateManifest resolveLib isFile raw = Inr p \<Longrightarrow> wfProfile p"
proof (erule validateManifest_parts)
  fix entries fns
  assume format: "ffiFormatOf (fld raw ''ffi_format'') = Inr (ffiFormat p)"
    and parse: "parseFunctions (ffiFormat p) 0 ([], []) entries = Inr fns"
    and res: "resolveFunctions (ffiFormat p) fns = Inr (ffiFunctions p)"
    and libs: "distinct (ffiLibraries p)" "distinct (ffiSystemLibraries p)"
      "list_all (\<lambda>l. SYSTEM_LIBRARY l \<and> \<not> startsWith l ''-'') (ffiSystemLibraries p)"
  have raw: "list_all (rawFunctionOk (ffiFormat p)) fns" "distinct (map ffiName fns)" "distinct (map ffiSymbol fns)"
    using parseFunctions_ok [OF parse] by auto
  note same = resolveFunctions_ok [OF res raw(1,2)]
  have "map ffiName (ffiFunctions p) = map ffiName fns" "map ffiSymbol (ffiFunctions p) = map ffiSymbol fns"
    using same(1) sameButReleases_facts(1,2) by (auto simp: list_all2_conv_all_nth intro!: nth_equalityI)
  moreover have "list_all (wfFunction (ffiFormat p)) (ffiFunctions p)"
    using same(1) raw(1) sameButReleases_facts(6)
    by (auto simp: list_all2_conv_all_nth list_all_length rawFunctionOk_def)
  ultimately show ?thesis
    using ffiFormatOf_range [OF format] raw(2,3) same(2) libs by (simp add: wfProfile_def)
qed

section \<open>Formats are upward compatible\<close>

lemma allowed_mono: "f \<le> f' \<Longrightarrow> set (allowedCallbackClasses f) \<subseteq> set (allowedCallbackClasses f')"
  by (auto simp: allowedCallbackClasses_def FFI_CALLBACK_PARAM_CLASSES_def FFI_FORMAT_2_CALLBACK_PARAM_CLASSES_def)

lemma callbackEntry_mono: "callbackEntry f path v = Inr c \<Longrightarrow> f \<le> f' \<Longrightarrow> callbackEntry f' path v = Inr c"
  using allowed_mono [of f f']
  by (cases v) (auto simp: callbackEntry_def errE split: if_splits option.splits)

lemma checkLifetime_mono:
  assumes "checkLifetime f path callback params returns = Inr r" "f \<le> f'"
  shows "checkLifetime f' path callback params returns = Inr r"
  using assms(1) unfolding checkLifetime_def Let_def
  by (elim bindE_mono; use assms(2) in \<open>auto simp: guardE_Inr\<close>)

lemma callbackParam_mono:
  assumes "callbackParam v path f = Inr p" "f \<le> f'"
  shows "callbackParam v path f' = Inr p"
proof -
  note steps = mapIdxE_mono callbackEntry_mono [OF _ assms(2)] checkLifetime_mono [OF _ assms(2)]
  show ?thesis
    using assms unfolding callbackParam_def Let_def
    by (auto split: if_splits simp: guardE_def elim!: bindE_mono intro: steps)
qed

lemma functionParam_mono:
  assumes "functionParam f path v = Inr p" "f \<le> f'"
  shows "functionParam f' path v = Inr p"
proof (cases "isClass FFI_PARAM_CLASSES v")
  case True
  then show ?thesis using assms(1) by (simp add: functionParam_def)
next
  case False
  with assms(1) have two: "2 \<le> f" by (auto simp: functionParam_def split: if_splits)
  obtain r where r: "callbackParam v path f = Inr r"
    using assms(1) False two by (auto simp: functionParam_def errE)
  from callbackParam_mono [OF this assms(2)] show ?thesis
    using assms r False two by (simp add: functionParam_def)
qed

lemma checkContexts_values:
  assumes "\<forall>p\<in>set ps. \<exists>c. p = FfiValue c"
  shows "checkContexts f path ps = Inr ()"
proof -
  have "foldE (noteParam path) t ps = Inr t" for t
    using assms by (induction ps arbitrary: t) (auto simp: noteParam_def)
  then show ?thesis by (simp add: checkContexts_def forE_def)
qed

lemma parseFunction_mono:
  assumes "parseFunction f i seen entry = Inr fn" "f \<le> f'"
  shows "parseFunction f' i seen entry = Inr fn"
proof -
  have ctx: "checkContexts f' path ps = Inr ()"
    if "mapIdxE (\<lambda>j v. functionParam f (idxPath (path @ ''.params'') j) v) 0 rows = Inr ps" "checkContexts f path ps = Inr u"
    for path ps rows u
  proof (cases "2 \<le> f")
    case True
    with that(2) assms(2) show ?thesis by (simp add: checkContexts_def)
  next
    case False
    then have "\<forall>p\<in>set ps. \<exists>c. p = FfiValue c"
      using mapIdxE_mem [OF that(1)] functionParam_ok [unfolded rawParamOk_def] by (meson not_less)
    then show ?thesis by (rule checkContexts_values)
  qed
  note steps = mapIdxE_mono functionParam_mono [OF _ assms(2)] ctx
  show ?thesis
    using assms(1) unfolding parseFunction_def Let_def
    by (auto split: if_splits prod.splits elim!: bindE_mono intro: steps)
qed

lemma parseFunctions_mono:
  "parseFunctions f i seen entries = Inr fns \<Longrightarrow> f \<le> f' \<Longrightarrow> parseFunctions f' i seen entries = Inr fns"
  by (induction f i seen entries arbitrary: fns rule: parseFunctions.induct)
    (auto simp: errE intro: parseFunction_mono)

lemma resolveFunction_values:
  assumes "\<forall>p\<in>set (ffiParams fn). \<not> isRelease p"
  shows "resolveFunction fns ret i fn = Inr fn"
proof -
  have "resolveParam fns ret i fn j p = Inr p" if "\<not> isRelease p" for j p
    using that by (cases p) (simp_all add: resolveParam_def)
  then have "mapIdxE (resolveParam fns ret i fn) 0 (ffiParams fn) = Inr (ffiParams fn)"
    using assms by (simp add: mapIdxE_Inr)
  then show ?thesis by (simp add: resolveFunction_def)
qed

lemma resolveFunctions_mono:
  assumes "resolveFunctions f fns = Inr fns'" "list_all (rawFunctionOk f) fns" "f \<le> f'"
  shows "resolveFunctions f' fns = Inr fns'"
proof (cases "4 \<le> f")
  case True
  with assms(1,3) show ?thesis by (simp add: resolveFunctions_def)
next
  case False
  have "\<not> isRelease p" if "fn \<in> set fns" "p \<in> set (ffiParams fn)" for fn p
  proof -
    from that assms(2) have "wfParam f p" by (auto simp: list_all_iff rawFunctionOk_def wfFunction_def)
    with False show ?thesis by (cases p) auto
  qed
  then have "mapIdxE (resolveFunction fns ret) 0 fns = Inr fns" for ret
    by (auto simp: mapIdxE_Inr intro!: resolveFunction_values dest: nth_mem)
  with False assms(1) show ?thesis by (simp add: resolveFunctions_def)
qed

text \<open>The manifest with another format number, everything else as it is.\<close>

fun withFormat :: "json \<Rightarrow> nat \<Rightarrow> json" where
  "withFormat (JObj kvs) f = JObj (jm_set kvs ''ffi_format'' (JNum (Fin (of_nat f))))"
| "withFormat j f = j"

lemma ffiFormatOf_nat: "1 \<le> f \<Longrightarrow> f \<le> 5 \<Longrightarrow> ffiFormatOf (JNum (Fin (of_nat f))) = Inr f"
proof -
  assume "1 \<le> f" "f \<le> 5"
  then consider "f = 1" | "f = 2" | "f = 3" | "f = 4" | "f = 5" by linarith
  then show ?thesis by cases (simp_all add: ffiFormatOf_def)
qed

lemma withFormat_facts:
  assumes "isDict raw" "fld raw ''ffi_format'' \<noteq> JUndef"
  shows "isDict (withFormat raw f)" "k \<noteq> ''ffi_format'' \<Longrightarrow> fld (withFormat raw f) k = fld raw k"
    "fld (withFormat raw f) ''ffi_format'' = JNum (Fin (of_nat f))"
    "jm_keys (objEntries (withFormat raw f)) = jm_keys (objEntries raw)"
proof -
  obtain kvs where raw: "raw = JObj kvs" using assms(1) by (cases raw) auto
  have "jm_get m k \<noteq> None \<Longrightarrow> jm_keys (jm_set m k v) = jm_keys m" for m :: "(string, json) jsmap" and k v
    by (induction m k v rule: jm_set.induct) (auto simp: jm_keys_def)
  then show "jm_keys (objEntries (withFormat raw f)) = jm_keys (objEntries raw)"
    using assms(2) raw by (auto split: option.splits)
  show "isDict (withFormat raw f)" "k \<noteq> ''ffi_format'' \<Longrightarrow> fld (withFormat raw f) k = fld raw k"
    "fld (withFormat raw f) ''ffi_format'' = JNum (Fin (of_nat f))"
    by (auto simp: raw jm_get_set)
qed

lemma validateManifest_mono:
  assumes ok: "validateManifest resolveLib isFile raw = Inr p" and f': "ffiFormat p \<le> f'" "f' \<le> 5"
  shows "validateManifest resolveLib isFile (withFormat raw f') = Inr (p\<lparr>ffiFormat := f'\<rparr>)"
proof -
  from ok obtain f entries fns fns' libs sys us vs where parts: "isDict raw"
    "ffiFormatOf (fld raw ''ffi_format'') = Inr f"
    "rejectUnknownKeys raw [] [''ffi_format'', ''functions'', ''libraries'', ''system_libraries''] = Inr ()"
    "arrayField (fld raw ''functions'') ''functions'' = Inr entries"
    "parseFunctions f 0 ([], []) entries = Inr fns" "resolveFunctions f fns = Inr fns'"
    "stringArray (fld raw ''libraries'') ''libraries'' = Inr libs"
    "stringArray (fld raw ''system_libraries'') ''system_libraries'' = Inr sys"
    "mapIdxE checkSystemLibrary 0 sys = Inr us" "distinct (map resolveLib libs)"
    "mapIdxE (checkLibraryFile isFile) 0 (map resolveLib libs) = Inr vs" "distinct sys"
    and p: "p = \<lparr>ffiFormat = f, ffiFunctions = fns', ffiLibraries = map resolveLib libs, ffiSystemLibraries = sys\<rparr>"
    by (auto simp: validateManifest_def Let_def errE split: if_splits)
  have f: "f \<le> f'" "1 \<le> f'" using f'(1) p ffiFormatOf_range [OF parts(2)] by auto
  have raw: "list_all (rawFunctionOk f) fns" using parseFunctions_ok [OF parts(5)] by blast
  have "fld raw ''ffi_format'' \<noteq> JUndef" using parts(2) by (auto simp: ffiFormatOf_def)
  note new = withFormat_facts [OF parts(1) this]
  have "rejectUnknownKeys (withFormat raw f') [] [''ffi_format'', ''functions'', ''libraries'', ''system_libraries''] = Inr ()"
    using parts(3) by (simp add: rejectUnknownKeys_def new(4))
  then show ?thesis
    using parts f f'(2) parseFunctions_mono [OF parts(5) f(1)] resolveFunctions_mono [OF parts(6) raw f(1)]
    by (simp add: validateManifest_def new ffiFormatOf_nat p)
qed

section \<open>Properties\<close>

text \<open>A manifest that registers a retained callback in one function and releases it in another.\<close>

definition demoManifest :: json where
  "demoManifest = JObj [(''ffi_format'', JNum (Fin 4)), (''functions'', JArr [
     JObj [(''name'', JStr ''timerAdd''), (''symbol'', JStr ''timer_add''), (''params'', JArr [
         JObj [(''callback'', JObj [(''id'', JStr ''tick''), (''params'', JArr [JStr ''f64'', JObj [(''context'', JStr ''tick'')]]),
           (''returns'', JStr ''void''), (''lifetime'', JStr ''retained'')])],
         JObj [(''context'', JStr ''tick'')]]), (''returns'', JStr ''void'')],
     JObj [(''name'', JStr ''timerDel''), (''symbol'', JStr ''timer_del''), (''params'', JArr [
         JObj [(''callback'', JObj [(''release'', JStr ''timerAdd:tick'')])],
         JObj [(''context'', JStr ''timerAdd:tick'')]]), (''returns'', JStr ''void'')]]),
     (''system_libraries'', JArr [JStr ''m''])]"

definition demoProfile :: FfiProfile where
  "demoProfile = \<lparr>ffiFormat = 4, ffiFunctions = [
     \<lparr>ffiName = ''timerAdd'', ffiSymbol = ''timer_add'', ffiParams =
        [FfiCallbackP \<lparr>cbId = ''tick'', cbParams = [CbClass ''f64'', CbContext ''tick''], cbReturns = ''void'',
           cbLifetime = ''retained'', cbInvoke = ''script-thread''\<rparr>, FfiContext ''tick''], ffiReturns = ''void''\<rparr>,
     \<lparr>ffiName = ''timerDel'', ffiSymbol = ''timer_del'', ffiParams =
        [FfiRelease ''timerAdd:tick'' (Some ([CbClass ''f64'', CbContext ''tick''], ''void'')), FfiContext ''timerAdd:tick''],
        ffiReturns = ''void''\<rparr>],
     ffiLibraries = [], ffiSystemLibraries = [''m'']\<rparr>"

lemma demo_valid: "validateManifest (\<lambda>l. l) (\<lambda>_. Inr True) demoManifest = Inr demoProfile"
  by code_simp

lemma parseFunctions_row:
  "parseFunctions format i seen entries = Inr fns \<Longrightarrow> row \<in> set entries \<Longrightarrow> \<exists>j seen fn. parseFunction format j seen row = Inr fn"
  by (induction format i seen entries arbitrary: fns rule: parseFunctions.induct) (auto simp: errE)

lemma parseFunction_keys:
  assumes "parseFunction format i seen row = Inr fn" "k \<in> set (jm_keys (objEntries row))"
  shows "k \<in> set [''name'', ''symbol'', ''params'', ''returns'']"
proof -
  from assms(1) obtain path u where "rejectUnknownKeys row path [''name'', ''symbol'', ''params'', ''returns''] = Inr u"
    by (auto simp: parseFunction_def Let_def errE split: prod.splits if_splits)
  from rejectUnknownKeys_known [OF this] assms(2) show ?thesis by blast
qed

lemma not_Inr_Inl: "(\<And>y. r \<noteq> Inr y) \<Longrightarrow> \<exists>e. r = Inl e"
  by (cases r) auto

text \<open>C20. A manifest that \<^verbatim>\<open>loadFfiProfile\<close> accepts yields a profile the code generators can use
  without further checks (\<open>wfProfile\<close>): names and symbols are unique and well-formed, every
  parameter class fits the manifest's format, every context belongs to exactly one callback or
  release and is declared on both sides or on neither, foreign callbacks are retained, void and
  carry a context, and every release has inherited the ABI of a retained callback registered by
  another function. The bytes returned with it are the ones the profile was parsed from.\<close>

theorem ffi_profile_contract:
  assumes "loadFfiProfile readFile parseJson resolveFrom isFile path = Inr (profile, bytes)"
  shows "readFile path = Inr bytes \<and> wfProfile profile \<and>
    (\<exists>raw. parseJson bytes = Inr raw \<and> validateManifest (resolveFrom path) isFile raw = Inr profile)"
  using assms validateManifest_wf by (auto simp: loadFfiProfile_def errE split: sum.splits)

theorem ffi_profile_contract_witness:
  "loadFfiProfile (\<lambda>_. Inr ''m'') (\<lambda>_. Inr demoManifest) (\<lambda>_ l. l) (\<lambda>_. Inr True) ''ffi.json'' = Inr (demoProfile, ''m'') \<and>
   wfProfile demoProfile"
proof -
  have "loadFfiProfile (\<lambda>_. Inr ''m'') (\<lambda>_. Inr demoManifest) (\<lambda>_ l. l) (\<lambda>_. Inr True) ''ffi.json'' = Inr (demoProfile, ''m'')"
    by (simp add: loadFfiProfile_def demo_valid)
  with ffi_profile_contract [OF this] show ?thesis by blast
qed

text \<open>Manifest keys are strict: a manifest with a key the root does not know, or with a function
  row that has a key rows do not know, is refused with a message, whatever else it contains.\<close>

theorem ffi_unknown_field_refused:
  assumes "k \<in> set (jm_keys (objEntries raw)) \<and> k \<notin> set [''ffi_format'', ''functions'', ''libraries'', ''system_libraries''] \<or>
    row \<in> set (arrOf (fld raw ''functions'')) \<and> k \<in> set (jm_keys (objEntries row)) \<and>
      k \<notin> set [''name'', ''symbol'', ''params'', ''returns'']"
  shows "\<exists>e. validateManifest resolveLib isFile raw = Inl e"
proof (rule not_Inr_Inl)
  fix p
  show "validateManifest resolveLib isFile raw \<noteq> Inr p"
  proof
    assume "validateManifest resolveLib isFile raw = Inr p"
    then obtain entries fns where parts:
      "set (jm_keys (objEntries raw)) \<subseteq> {''ffi_format'', ''functions'', ''libraries'', ''system_libraries''}"
      "fld raw ''functions'' = JArr entries" "parseFunctions (ffiFormat p) 0 ([], []) entries = Inr fns"
      by (rule validateManifest_parts)
    from assms show False
    proof
      assume "k \<in> set (jm_keys (objEntries raw)) \<and> k \<notin> set [''ffi_format'', ''functions'', ''libraries'', ''system_libraries'']"
      with parts(1) show False unfolding list.set by blast
    next
      assume row: "row \<in> set (arrOf (fld raw ''functions'')) \<and> k \<in> set (jm_keys (objEntries row)) \<and>
        k \<notin> set [''name'', ''symbol'', ''params'', ''returns'']"
      then have "row \<in> set entries" by (simp only: parts(2) arrOf.simps)
      then obtain j seen fn where "parseFunction (ffiFormat p) j seen row = Inr fn" using parseFunctions_row [OF parts(3)] by blast
      from parseFunction_keys [OF this] row show False by blast
    qed
  qed
qed

text \<open>Formats are upward compatible: a manifest accepted under one format is accepted under every
  later one, with the same functions and libraries.\<close>

theorem ffi_formats_compatible:
  assumes "validateManifest resolveLib isFile raw = Inr p" "ffiFormat p \<le> f'" "f' \<le> 5"
  shows "validateManifest resolveLib isFile (withFormat raw f') = Inr (p\<lparr>ffiFormat := f'\<rparr>)"
  using assms by (rule validateManifest_mono)

end
