(* ===== verification/FfiCallbacks.thy ===== *)
theory FfiCallbacks
  imports FfiSound
begin

text \<open>
  \<^verbatim>\<open>backend/ffi-callbacks.ts\<close>: the internal symbols both native emitters give to callback
  trampolines, and the registrations and releases a call performs. The allocation loop skips
  indices whose names are taken by the manifest's own symbols; it ends because only finitely
  many are. The imports on the module are the functions of the accepted profile.
\<close>

record FfiCallbackAdapter =
  adSymbol :: string
  adTls :: "string option"
  adGlobal :: "string option"
  adTable :: "string option"
  adCallback :: FfiCallback

section \<open>Names\<close>

definition cbSymbol :: "nat \<Rightarrow> string" where
  "cbSymbol index = ''sc_ffi_cb_'' @ intDigits (int index)"

definition cbTls :: "nat \<Rightarrow> string" where
  "cbTls index = ''sc_ffi_cb_ctx_'' @ intDigits (int index)"

definition cbGlobal :: "nat \<Rightarrow> string" where
  "cbGlobal index = ''sc_ffi_cb_retained_'' @ intDigits (int index)"

definition cbTable :: "nat \<Rightarrow> string" where
  "cbTable index = ''sc_ffi_cb_table_'' @ intDigits (int index)"

definition hasContext :: "FfiCallback \<Rightarrow> bool" where
  "hasContext cb = list_ex isContext (cbParams cb)"

definition adapterAt :: "FfiCallback \<Rightarrow> nat \<Rightarrow> FfiCallbackAdapter" where
  "adapterAt cb index =
     \<lparr>adSymbol = cbSymbol index,
      adTls = (if \<not> hasContext cb \<and> cbLifetime cb = ''call'' then Some (cbTls index) else None),
      adGlobal = (if \<not> hasContext cb \<and> cbLifetime cb = ''retained'' then Some (cbGlobal index) else None),
      adTable = (if cbLifetime cb = ''retained'' then Some (cbTable index) else None),
      adCallback = cb\<rparr>"

definition adapterNames :: "FfiCallbackAdapter \<Rightarrow> string list" where
  "adapterNames a = adSymbol a # map the (filter (\<lambda>x. x \<noteq> None) [adTls a, adGlobal a, adTable a])"

definition possibleNames :: "nat \<Rightarrow> string set" where
  "possibleNames index = {cbSymbol index, cbTls index, cbGlobal index, cbTable index}"

lemma digits_head: "isDigit (hd (intDigits (int n)))"
  using intDigits_digits [of "int n"] intDigits_nonempty [of "int n"] by (cases "intDigits (int n)") auto

lemma letters_not_digits: "\<not> isDigit CHR ''c''" "\<not> isDigit CHR ''r''" "\<not> isDigit CHR ''t''"
  by (simp_all add: isDigit_def)

lemma names_disjoint:
  assumes "x \<in> possibleNames i" "x \<in> possibleNames j"
  shows "i = j"
proof -
  have "intDigits (int i) \<noteq> ''ctx_'' @ s" "intDigits (int i) \<noteq> ''retained_'' @ s" "intDigits (int i) \<noteq> ''table_'' @ s" for i s
    using digits_head [of i] letters_not_digits by auto
  moreover have "intDigits (int i) = intDigits (int j) \<Longrightarrow> i = j"
    using intDigits_inj [of "int i" "int j"] by simp
  ultimately show ?thesis
    using assms
    unfolding possibleNames_def cbSymbol_def cbTls_def cbGlobal_def cbTable_def
    by (auto simp: eq_commute [of "CHR ''c'' # _"] eq_commute [of "CHR ''r'' # _"] eq_commute [of "CHR ''t'' # _"])
qed

lemma adapterNames_possible: "set (adapterNames (adapterAt cb i)) \<subseteq> possibleNames i"
  by (auto simp: adapterNames_def adapterAt_def possibleNames_def)

section \<open>Allocation\<close>

text \<open>The body of the \<^verbatim>\<open>do \<dots> while\<close>: take the next index, stop at the first whose names are free.\<close>

function allocate :: "string list \<Rightarrow> FfiCallback \<Rightarrow> nat \<Rightarrow> FfiCallbackAdapter \<times> nat" where
  "allocate reserved cb sfx =
     (if list_ex (\<lambda>n. n \<in> set reserved) (adapterNames (adapterAt cb sfx)) then allocate reserved cb (Suc sfx)
      else (adapterAt cb sfx, Suc sfx))"
  by pat_completeness auto
termination
proof (relation "measure (\<lambda>(reserved, cb, sfx). card {r \<in> set reserved. \<exists>j \<ge> sfx. r \<in> possibleNames j})")
  fix reserved cb sfx
  let ?hit = "\<lambda>s. {r \<in> set reserved. \<exists>j \<ge> s. r \<in> possibleNames j}"
  assume "list_ex (\<lambda>n. n \<in> set reserved) (adapterNames (adapterAt cb sfx))"
  then obtain n where n: "n \<in> set reserved" "n \<in> possibleNames sfx"
    using adapterNames_possible [of cb sfx] by (auto simp: list_ex_iff)
  then have "n \<notin> ?hit (Suc sfx)" using names_disjoint by fastforce
  moreover have "n \<in> ?hit sfx" using n by auto
  moreover have "?hit (Suc sfx) \<subseteq> ?hit sfx" using Suc_leD by blast
  ultimately have "card (?hit (Suc sfx)) < card (?hit sfx)" by (intro psubset_card_mono) auto
  then show "((reserved, cb, Suc sfx), reserved, cb, sfx) \<in>
    measure (\<lambda>(reserved, cb, sfx). card {r \<in> set reserved. \<exists>j \<ge> sfx. r \<in> possibleNames j})" by simp
qed simp

declare allocate.simps [simp del]

record AllocState =
  alReserved :: "string list"
  alAdapters :: "(string, FfiCallbackAdapter) jsmap"
  alSuffix :: nat

definition allocateParam :: "FfiFunction \<Rightarrow> AllocState \<Rightarrow> FfiParamClass \<Rightarrow> AllocState" where
  "allocateParam entry st param = (case param of
     FfiCallbackP cb \<Rightarrow>
       (let (adapter, sfx) = allocate (alReserved st) cb (alSuffix st) in
        \<lparr>alReserved = alReserved st @ adapterNames adapter,
         alAdapters = jm_set (alAdapters st) (ffiName entry @ '':'' @ cbId cb) adapter,
         alSuffix = sfx\<rparr>)
   | _ \<Rightarrow> st)"

definition allocateEntry :: "AllocState \<Rightarrow> FfiFunction \<Rightarrow> AllocState" where
  "allocateEntry st entry = foldl (allocateParam entry) st (ffiParams entry)"

definition allocateFfiCallbackAdapters :: "FfiFunction list \<Rightarrow> (string, FfiCallbackAdapter) jsmap" where
  "allocateFfiCallbackAdapters imports =
     alAdapters (foldl allocateEntry \<lparr>alReserved = map ffiSymbol imports, alAdapters = [], alSuffix = 0\<rparr> imports)"

section \<open>Keys and policy predicates\<close>

text \<open>\<^verbatim>\<open>lastIndexOf\<close> answers -1 when there is no colon; then \<^verbatim>\<open>slice(0, -1)\<close> drops the last
  character and \<^verbatim>\<open>slice(0)\<close> is the whole key.\<close>

definition parseFfiCallbackKey :: "string \<Rightarrow> string \<times> string" where
  "parseFfiCallbackKey key =
     (let rid = takeWhile (\<lambda>c. c \<noteq> CHR '':'') (rev key) in
      if CHR '':'' \<in> set key then (take (length key - length rid - 1) key, rev rid) else (butlast key, key))"

definition hasRetainedFfiCallback :: "FfiFunction list \<Rightarrow> bool" where
  "hasRetainedFfiCallback imports =
     list_ex (\<lambda>entry. list_ex (\<lambda>param. case param of FfiCallbackP cb \<Rightarrow> cbLifetime cb = ''retained'' | _ \<Rightarrow> False) (ffiParams entry)) imports"

definition hasForeignFfiCallback :: "FfiFunction list \<Rightarrow> bool" where
  "hasForeignFfiCallback imports =
     list_ex (\<lambda>entry. list_ex (\<lambda>param. case param of FfiCallbackP cb \<Rightarrow> cbInvoke cb = ''foreign'' | _ \<Rightarrow> False) (ffiParams entry)) imports"

section \<open>Retained operations of a call\<close>

record 'v FfiRetainedOp =
  opTable :: string
  opGlobal :: "string option"
  opCallback :: "'v option"
  opForeign :: bool

text \<open>\<^verbatim>\<open>callbackArgs.get(k)!\<close> may be absent at run time; the option keeps that visible.
  \<^verbatim>\<open>adapterFor\<close> is the emitters' lookup, which fails when there is no adapter.\<close>

definition collectParam ::
    "FfiFunction \<Rightarrow> (string, 'v) jsmap \<Rightarrow> (string \<Rightarrow> string \<Rightarrow> FfiCallbackAdapter res) \<Rightarrow>
     'v FfiRetainedOp list \<times> 'v FfiRetainedOp list \<Rightarrow> FfiParamClass \<Rightarrow>
     ('v FfiRetainedOp list \<times> 'v FfiRetainedOp list) res" where
  "collectParam entry callbackArgs adapterFor ops param = (case ops of (registrations, releases) \<Rightarrow>
     case param of
       FfiCallbackP cb \<Rightarrow>
         (if cbLifetime cb = ''retained'' then
            bindE (adapterFor (ffiName entry) (cbId cb)) (\<lambda>adapter.
            case adTable adapter of
              None \<Rightarrow> Inl ''emitter bug: retained callback has no table''
            | Some table \<Rightarrow> Inr (registrations @ [\<lparr>opTable = table, opGlobal = adGlobal adapter,
                opCallback = jm_get callbackArgs (cbId cb), opForeign = (cbInvoke cb = ''foreign'')\<rparr>], releases))
          else Inr ops)
     | FfiRelease target _ \<Rightarrow>
         bindE (adapterFor (fst (parseFfiCallbackKey target)) (snd (parseFfiCallbackKey target))) (\<lambda>adapter.
         case adTable adapter of
           None \<Rightarrow> Inl ''emitter bug: retained release has no table''
         | Some table \<Rightarrow> Inr (registrations, releases @ [\<lparr>opTable = table, opGlobal = adGlobal adapter,
             opCallback = jm_get callbackArgs target, opForeign = (cbInvoke (adCallback adapter) = ''foreign'')\<rparr>]))
     | _ \<Rightarrow> Inr ops)"

definition collectFfiRetainedOps ::
    "FfiFunction \<Rightarrow> (string, 'v) jsmap \<Rightarrow> (string \<Rightarrow> string \<Rightarrow> FfiCallbackAdapter res) \<Rightarrow>
     ('v FfiRetainedOp list \<times> 'v FfiRetainedOp list) res" where
  "collectFfiRetainedOps entry callbackArgs adapterFor =
     foldE (collectParam entry callbackArgs adapterFor) ([], []) (ffiParams entry)"

text \<open>\<^verbatim>\<open>ffiCallbackAdapter\<close> of the emitters.\<close>

definition ffiCallbackAdapter ::
    "(string, FfiCallbackAdapter) jsmap \<Rightarrow> string \<Rightarrow> string \<Rightarrow> FfiCallbackAdapter res" where
  "ffiCallbackAdapter adapters binding cid = (case jm_get adapters (binding @ '':'' @ cid) of
     Some adapter \<Rightarrow> Inr adapter
   | None \<Rightarrow> Inl (''emitter bug: no callback adapter for '' @ binding @ '':'' @ cid))"

section \<open>Allocated names are fresh\<close>

lemma allocate_spec:
  "allocate reserved cb s = (a, s') \<Longrightarrow> \<exists>i \<ge> s. a = adapterAt cb i \<and> s' = Suc i \<and> set (adapterNames a) \<inter> set reserved = {}"
proof (induction reserved cb s rule: allocate.induct)
  case (1 reserved cb s)
  show ?case
  proof (cases "list_ex (\<lambda>n. n \<in> set reserved) (adapterNames (adapterAt cb s))")
    case True
    then show ?thesis using 1 by (subst (asm) allocate.simps) (auto intro: Suc_leD)
  next
    case False
    then show ?thesis using "1.prems" by (subst (asm) allocate.simps) (auto simp: list_ex_iff)
  qed
qed

definition allocCallback :: "AllocState \<Rightarrow> FfiFunction \<times> FfiCallback \<Rightarrow> AllocState" where
  "allocCallback st p = allocateParam (fst p) st (FfiCallbackP (snd p))"

definition callbackSites :: "FfiFunction list \<Rightarrow> (FfiFunction \<times> FfiCallback) list" where
  "callbackSites imports = concat (map (\<lambda>f. map (Pair f) (callbacksOf (ffiParams f))) imports)"

definition siteKey :: "FfiFunction \<times> FfiCallback \<Rightarrow> string" where
  "siteKey p = ffiName (fst p) @ '':'' @ cbId (snd p)"

lemma allocateEntry_sites: "allocateEntry st f = foldl allocCallback st (map (Pair f) (callbacksOf (ffiParams f)))"
proof -
  have "foldl (allocateParam f) st ps = foldl allocCallback st (map (Pair f) (callbacksOf ps))" for ps st
  proof (induction ps arbitrary: st)
    case (Cons p ps)
    then show ?case by (cases p) (simp_all add: allocCallback_def, simp_all add: allocateParam_def)
  qed simp
  then show ?thesis by (simp add: allocateEntry_def)
qed

lemma allocate_sites:
  "allocateFfiCallbackAdapters imports =
     alAdapters (foldl allocCallback \<lparr>alReserved = map ffiSymbol imports, alAdapters = [], alSuffix = 0\<rparr> (callbackSites imports))"
proof -
  have "foldl allocateEntry st fs = foldl allocCallback st (callbackSites fs)" for st fs
    by (induction fs arbitrary: st) (simp_all add: callbackSites_def allocateEntry_sites)
  then show ?thesis by (simp add: allocateFfiCallbackAdapters_def)
qed

definition allocInv :: "string set \<Rightarrow> AllocState \<Rightarrow> bool" where
  "allocInv syms st \<longleftrightarrow>
     syms \<subseteq> set (alReserved st) \<and> jm_wf (alAdapters st) \<and>
     (\<forall>k a. jm_get (alAdapters st) k = Some a \<longrightarrow>
        set (adapterNames a) \<inter> syms = {} \<and> (\<exists>i < alSuffix st. \<exists>cb. a = adapterAt cb i)) \<and>
     (\<forall>k a k' a'. jm_get (alAdapters st) k = Some a \<longrightarrow> jm_get (alAdapters st) k' = Some a' \<longrightarrow> k \<noteq> k' \<longrightarrow>
        set (adapterNames a) \<inter> set (adapterNames a') = {})"

lemma allocCallback_step:
  "\<exists>i \<ge> alSuffix st. set (adapterNames (adapterAt (snd p) i)) \<inter> set (alReserved st) = {} \<and>
     allocCallback st p = \<lparr>alReserved = alReserved st @ adapterNames (adapterAt (snd p) i),
       alAdapters = jm_set (alAdapters st) (siteKey p) (adapterAt (snd p) i), alSuffix = Suc i\<rparr>"
  using allocate_spec [of "alReserved st" "snd p" "alSuffix st"]
  by (cases "allocate (alReserved st) (snd p) (alSuffix st)") (auto simp: allocCallback_def allocateParam_def siteKey_def)

lemma adapters_disjoint:
  "i \<noteq> j \<Longrightarrow> set (adapterNames (adapterAt cb i)) \<inter> set (adapterNames (adapterAt cb' j)) = {}"
  using adapterNames_possible [of cb i] adapterNames_possible [of cb' j] names_disjoint by blast

lemma allocInv_step:
  assumes "allocInv syms st"
  shows "allocInv syms (allocCallback st p)"
proof -
  from allocCallback_step [of st p] obtain i where i: "i \<ge> alSuffix st"
    "set (adapterNames (adapterAt (snd p) i)) \<inter> set (alReserved st) = {}"
    and st': "allocCallback st p = \<lparr>alReserved = alReserved st @ adapterNames (adapterAt (snd p) i),
       alAdapters = jm_set (alAdapters st) (siteKey p) (adapterAt (snd p) i), alSuffix = Suc i\<rparr>" by blast
  have old: "set (adapterNames a) \<inter> set (adapterNames (adapterAt (snd p) i)) = {}"
    if a: "jm_get (alAdapters st) k = Some a" for k a
  proof -
    from assms a obtain j cb where "j < alSuffix st" "a = adapterAt cb j" unfolding allocInv_def by blast
    with i(1) adapters_disjoint [of j i cb "snd p"] show ?thesis by simp
  qed
  have syms: "syms \<subseteq> set (alReserved st)" "jm_wf (alAdapters st)" using assms by (simp_all add: allocInv_def)
  have each: "set (adapterNames a) \<inter> syms = {} \<and> (\<exists>j < Suc i. \<exists>cb. a = adapterAt cb j)"
    if "jm_get (jm_set (alAdapters st) (siteKey p) (adapterAt (snd p) i)) k = Some a" for k a
  proof (cases "siteKey p = k")
    case True
    then show ?thesis using that i(2) syms(1) by (auto simp: jm_get_set)
  next
    case False
    then have "jm_get (alAdapters st) k = Some a" using that by (simp add: jm_get_set)
    then show ?thesis using assms i(1) unfolding allocInv_def by (meson le_imp_less_Suc less_le_trans less_imp_le)
  qed
  have pairs: "set (adapterNames a) \<inter> set (adapterNames a') = {}"
    if "jm_get (jm_set (alAdapters st) (siteKey p) (adapterAt (snd p) i)) k = Some a"
      "jm_get (jm_set (alAdapters st) (siteKey p) (adapterAt (snd p) i)) k' = Some a'" "k \<noteq> k'" for k k' a a'
    using that assms old by (auto simp: jm_get_set allocInv_def split: if_splits)
  show ?thesis
    unfolding allocInv_def st' using syms each pairs by (auto simp: jm_wf_set)
qed

lemma allocInv_all: "allocInv syms st \<Longrightarrow> allocInv syms (foldl allocCallback st ps)"
  by (induction ps arbitrary: st) (simp_all add: allocInv_step)

lemma adapterNames_distinct: "distinct (adapterNames (adapterAt cb i))"
proof -
  have "intDigits (int i) \<noteq> ''ctx_'' @ intDigits (int i)" "intDigits (int i) \<noteq> ''retained_'' @ intDigits (int i)"
    "intDigits (int i) \<noteq> ''table_'' @ intDigits (int i)"
    using digits_head [of i] letters_not_digits by auto
  then show ?thesis
    by (auto simp: adapterNames_def adapterAt_def cbSymbol_def cbTls_def cbGlobal_def cbTable_def)
qed

section \<open>Every callback of an accepted profile has its adapter\<close>

lemma allocated_get:
  assumes "distinct (map siteKey ps)" "p \<in> set ps"
  shows "\<exists>i. jm_get (alAdapters (foldl allocCallback st ps)) (siteKey p) = Some (adapterAt (snd p) i)"
  using assms
proof (induction ps rule: rev_induct)
  case (snoc q ps)
  from allocCallback_step [of "foldl allocCallback st ps" q] obtain i where
    "alAdapters (allocCallback (foldl allocCallback st ps) q) =
       jm_set (alAdapters (foldl allocCallback st ps)) (siteKey q) (adapterAt (snd q) i)" by auto
  with snoc show ?case by (cases "p = q") (auto simp: jm_get_set)
qed simp

lemma TS_IDENT_no_colon: "TS_IDENT s \<Longrightarrow> CHR '':'' \<notin> set s"
  by (auto simp: TS_IDENT_def isAlnum_def isAlpha_def isDigit_def list_all_iff split: list.splits)

lemma takeWhile_colon: "CHR '':'' \<notin> set a \<Longrightarrow> takeWhile (\<lambda>c. c \<noteq> CHR '':'') (a @ CHR '':'' # b) = a"
  by (induction a) auto

lemma append_colon_inj:
  assumes "CHR '':'' \<notin> set a" "CHR '':'' \<notin> set a'" "a @ '':'' @ b = a' @ '':'' @ b'"
  shows "a = a' \<and> b = b'"
proof -
  have "takeWhile (\<lambda>c. c \<noteq> CHR '':'') (a @ '':'' @ b) = a" "takeWhile (\<lambda>c. c \<noteq> CHR '':'') (a' @ '':'' @ b') = a'"
    using assms(1,2) by (simp_all add: takeWhile_colon)
  with assms(3) show ?thesis by auto
qed

lemma wfProfile_functions:
  assumes "wfProfile p" "f \<in> set (ffiFunctions p)"
  shows "TS_IDENT (ffiName f)" "distinct (map cbId (callbacksOf (ffiParams f)))"
    "cb \<in> set (callbacksOf (ffiParams f)) \<Longrightarrow> TS_IDENT (cbId cb)"
  using assms
  by (auto simp: wfProfile_def list_all_iff wfFunction_def contextsOk_def in_callbacksOf wfCallback_def dest!: bspec)

lemma sites_distinct:
  assumes "wfProfile p" "set fs \<subseteq> set (ffiFunctions p)" "distinct (map ffiName fs)"
  shows "distinct (map siteKey (callbackSites fs))"
  using assms(2,3)
proof (induction fs)
  case (Cons f fs)
  have f: "f \<in> set (ffiFunctions p)" using Cons.prems by simp
  have own: "distinct (map siteKey (map (Pair f) (callbacksOf (ffiParams f))))"
    using wfProfile_functions(2) [OF assms(1) f] by (simp add: siteKey_def comp_def distinct_map inj_on_def)
  have "siteKey (f, cb) \<noteq> siteKey q" if "q \<in> set (callbackSites fs)" for q cb
  proof
    assume eq: "siteKey (f, cb) = siteKey q"
    from that have q: "fst q \<in> set fs" by (auto simp: callbackSites_def)
    then have "TS_IDENT (ffiName (fst q))" "TS_IDENT (ffiName f)"
      using Cons.prems wfProfile_functions(1) [OF assms(1)] f by auto
    then have "ffiName f = ffiName (fst q)" using eq append_colon_inj TS_IDENT_no_colon by (simp add: siteKey_def)
    then show False using q Cons.prems(2) by auto
  qed
  then have "set (map siteKey (map (Pair f) (callbacksOf (ffiParams f)))) \<inter> set (map siteKey (callbackSites fs)) = {}"
    by force
  moreover have "callbackSites (f # fs) = map (Pair f) (callbacksOf (ffiParams f)) @ callbackSites fs"
    by (simp add: callbackSites_def)
  ultimately show ?case using Cons own by simp
qed (simp add: callbackSites_def)

lemma adapter_of_callback:
  assumes "wfProfile p" "f \<in> set (ffiFunctions p)" "cb \<in> set (callbacksOf (ffiParams f))"
  shows "\<exists>i. jm_get (allocateFfiCallbackAdapters (ffiFunctions p)) (ffiName f @ '':'' @ cbId cb) = Some (adapterAt cb i)"
proof -
  have "(f, cb) \<in> set (callbackSites (ffiFunctions p))" using assms(2,3) by (auto simp: callbackSites_def)
  moreover have "distinct (map siteKey (callbackSites (ffiFunctions p)))"
    using assms(1) by (intro sites_distinct [OF assms(1)]) (auto simp: wfProfile_def)
  ultimately show ?thesis using allocated_get [of _ "(f, cb)"] by (fastforce simp: allocate_sites siteKey_def)
qed

lemma parseFfiCallbackKey_key:
  assumes "CHR '':'' \<notin> set cid"
  shows "parseFfiCallbackKey (binding @ '':'' @ cid) = (binding, cid)"
proof -
  have "takeWhile (\<lambda>c. c \<noteq> CHR '':'') (rev (binding @ '':'' @ cid)) = rev cid"
    using assms by (simp add: takeWhile_colon)
  then show ?thesis by (simp add: parseFfiCallbackKey_def)
qed

definition tableOf :: "FfiProfile \<Rightarrow> string \<Rightarrow> string option" where
  "tableOf p key = (case jm_get (allocateFfiCallbackAdapters (ffiFunctions p)) key of None \<Rightarrow> None | Some a \<Rightarrow> adTable a)"

definition retainedKeys :: "FfiFunction \<Rightarrow> string list" where
  "retainedKeys f = map (\<lambda>cb. ffiName f @ '':'' @ cbId cb) (filter (\<lambda>cb. cbLifetime cb = ''retained'') (callbacksOf (ffiParams f)))"

lemma collect_ok:
  assumes p: "wfProfile p" and f: "f \<in> set (ffiFunctions p)" and ps: "set ps \<subseteq> set (ffiParams f)"
  shows "\<exists>regs rels. foldE (collectParam f args (ffiCallbackAdapter (allocateFfiCallbackAdapters (ffiFunctions p)))) (regs0, rels0) ps =
      Inr (regs0 @ regs, rels0 @ rels) \<and>
      map (\<lambda>x. Some (opTable x)) rels = map (tableOf p) (releasesOf ps) \<and>
      map (\<lambda>x. Some (opTable x)) regs =
        map (tableOf p) (map (\<lambda>cb. ffiName f @ '':'' @ cbId cb) (filter (\<lambda>cb. cbLifetime cb = ''retained'') (callbacksOf ps)))"
  using ps
proof (induction ps arbitrary: regs0 rels0)
  case (Cons q ps)
  let ?ads = "allocateFfiCallbackAdapters (ffiFunctions p)"
  from Cons.prems have q: "q \<in> set (ffiParams f)" and sub: "set ps \<subseteq> set (ffiParams f)" by auto
  show ?case
  proof (cases q)
    case (FfiCallbackP cb)
    then have cb: "cb \<in> set (callbacksOf (ffiParams f))" using q by (simp add: in_callbacksOf)
    obtain i where i: "jm_get ?ads (ffiName f @ '':'' @ cbId cb) = Some (adapterAt cb i)"
      using adapter_of_callback [OF p f cb] by blast
    show ?thesis
    proof (cases "cbLifetime cb = ''retained''")
      case True
      let ?op = "\<lparr>opTable = cbTable i, opGlobal = adGlobal (adapterAt cb i), opCallback = jm_get args (cbId cb),
        opForeign = (cbInvoke cb = ''foreign'')\<rparr>"
      from Cons.IH [OF sub, of "regs0 @ [?op]" rels0] obtain regs rels where IH:
        "foldE (collectParam f args (ffiCallbackAdapter ?ads)) (regs0 @ [?op], rels0) ps = Inr ((regs0 @ [?op]) @ regs, rels0 @ rels)"
        "map (\<lambda>x. Some (opTable x)) rels = map (tableOf p) (releasesOf ps)"
        "map (\<lambda>x. Some (opTable x)) regs =
          map (tableOf p) (map (\<lambda>cb. ffiName f @ '':'' @ cbId cb) (filter (\<lambda>cb. cbLifetime cb = ''retained'') (callbacksOf ps)))"
        by blast
      moreover have "tableOf p (ffiName f @ '':'' @ cbId cb) = Some (cbTable i)"
        using i True by (simp add: tableOf_def adapterAt_def)
      moreover have "collectParam f args (ffiCallbackAdapter ?ads) (regs0, rels0) q = Inr (regs0 @ [?op], rels0)"
        using i True FfiCallbackP by (simp add: collectParam_def ffiCallbackAdapter_def adapterAt_def)
      ultimately show ?thesis
        using True FfiCallbackP by (intro exI [of _ "?op # regs"] exI [of _ rels]) simp
    next
      case False
      then show ?thesis using Cons.IH [OF sub] FfiCallbackP by (simp add: collectParam_def)
    qed
  next
    case (FfiRelease target abi)
    have "releaseOk (ffiFunctions p) f q" using p f q by (auto simp: wfProfile_def list_all_iff)
    then obtain g cb where g: "g \<in> set (ffiFunctions p)" "cb \<in> set (callbacksOf (ffiParams g))" "cbLifetime cb = ''retained''"
      "target = ffiName g @ '':'' @ cbId cb" using FfiRelease by (auto simp: releaseOk_def)
    obtain i where i: "jm_get ?ads target = Some (adapterAt cb i)" using adapter_of_callback [OF p g(1,2)] g(4) by blast
    have key: "parseFfiCallbackKey target = (ffiName g, cbId cb)"
      unfolding g(4) using wfProfile_functions(3) [OF p g(1,2)] TS_IDENT_no_colon by (intro parseFfiCallbackKey_key) blast
    let ?op = "\<lparr>opTable = cbTable i, opGlobal = adGlobal (adapterAt cb i), opCallback = jm_get args target,
      opForeign = (cbInvoke cb = ''foreign'')\<rparr>"
    from Cons.IH [OF sub, of regs0 "rels0 @ [?op]"] obtain regs rels where IH:
      "foldE (collectParam f args (ffiCallbackAdapter ?ads)) (regs0, rels0 @ [?op]) ps = Inr (regs0 @ regs, (rels0 @ [?op]) @ rels)"
      "map (\<lambda>x. Some (opTable x)) rels = map (tableOf p) (releasesOf ps)"
      "map (\<lambda>x. Some (opTable x)) regs =
        map (tableOf p) (map (\<lambda>cb. ffiName f @ '':'' @ cbId cb) (filter (\<lambda>cb. cbLifetime cb = ''retained'') (callbacksOf ps)))"
      by blast
    moreover have "tableOf p target = Some (cbTable i)" using i g(3) by (simp add: tableOf_def adapterAt_def)
    moreover have "collectParam f args (ffiCallbackAdapter ?ads) (regs0, rels0) q = Inr (regs0, rels0 @ [?op])"
      using i key g(3,4) FfiRelease by (simp add: collectParam_def ffiCallbackAdapter_def adapterAt_def)
    ultimately show ?thesis
      using FfiRelease by (intro exI [of _ regs] exI [of _ "?op # rels"]) simp
  qed (use Cons.IH [OF sub] in \<open>simp_all add: collectParam_def\<close>)
qed simp

section \<open>Properties\<close>

lemma allocated_inv:
  "allocInv (ffiSymbol ` set imports)
     (foldl allocCallback \<lparr>alReserved = map ffiSymbol imports, alAdapters = [], alSuffix = 0\<rparr> (callbackSites imports))"
  by (rule allocInv_all) (simp add: allocInv_def jm_wf_empty)


lemma demo_adapters:
  "allocateFfiCallbackAdapters (ffiFunctions demoProfile) =
     [(''timerAdd:tick'', adapterAt \<lparr>cbId = ''tick'', cbParams = [CbClass ''f64'', CbContext ''tick''], cbReturns = ''void'',
        cbLifetime = ''retained'', cbInvoke = ''script-thread''\<rparr> 0)]"
  by code_simp


text \<open>C22. For every function of an accepted manifest the emitters can collect the retained operations
  of its calls: no adapter or registration table is missing, each registration uses the table
  of its own callback, and each release uses the table of the callback it names, which is the
  table that callback's registration filled.\<close>

theorem ffi_retained_ops_total:
  assumes "loadFfiProfile readFile parseJson resolveFrom isFile path = Inr (profile, bytes)"
    and "fn \<in> set (ffiFunctions profile)"
  shows "\<exists>regs rels. collectFfiRetainedOps fn args (ffiCallbackAdapter (allocateFfiCallbackAdapters (ffiFunctions profile))) =
      Inr (regs, rels) \<and>
    map (\<lambda>x. Some (opTable x)) regs = map (tableOf profile) (retainedKeys fn) \<and>
    map (\<lambda>x. Some (opTable x)) rels = map (tableOf profile) (releasesOf (ffiParams fn))"
proof -
  have "wfProfile profile"
    using assms(1) validateManifest_wf by (auto simp: loadFfiProfile_def errE split: sum.splits)
  from collect_ok [OF this assms(2) subset_refl, of args "[]" "[]"] show ?thesis
    by (auto simp: collectFfiRetainedOps_def retainedKeys_def)
qed

theorem ffi_retained_ops_total_witness:
  "\<exists>regs rels. collectFfiRetainedOps (ffiFunctions demoProfile ! 1) [(''timerAdd:tick'', ''closure'')]
      (ffiCallbackAdapter (allocateFfiCallbackAdapters (ffiFunctions demoProfile))) = Inr (regs, rels) \<and>
    map (\<lambda>x. Some (opTable x)) rels = [tableOf demoProfile ''timerAdd:tick'']"
proof -
  have load: "loadFfiProfile (\<lambda>_. Inr ''m'') (\<lambda>_. Inr demoManifest) (\<lambda>_ l. l) (\<lambda>_. Inr True) ''ffi.json'' = Inr (demoProfile, ''m'')"
    by (simp add: loadFfiProfile_def demo_valid)
  have "ffiFunctions demoProfile ! 1 \<in> set (ffiFunctions demoProfile)" by (simp add: demoProfile_def)
  moreover have rels: "releasesOf (ffiParams (ffiFunctions demoProfile ! 1)) = [''timerAdd:tick'']" by (simp add: demoProfile_def)
  ultimately show ?thesis
    using ffi_retained_ops_total [OF load, of "ffiFunctions demoProfile ! 1" "[(''timerAdd:tick'', ''closure'')]"]
    unfolding rels list.map by metis
qed

end
