(* ===== verification/LinkInfo.thy ===== *)
theory LinkInfo
  imports LibGates Targets FfiCallbacks
begin

text \<open>
  From a compiled module to the list of runtime units an executable links:
  \<^verbatim>\<open>executableNativeFeatures\<close> (\<^verbatim>\<open>native-emission.ts\<close>) turns the link switches into a feature
  record, \<^verbatim>\<open>runtimeSourceRecipe\<close> and \<^verbatim>\<open>createNativeLinkInfo\<close> (\<^verbatim>\<open>backend/native-link-info.ts\<close>) turn
  the features and the target into source sets, system libraries and driver flags. The process
  environment is a map; the compiler version, the runtime package's version, root and the listing of the vendored
  mbedTLS directory are read from disk by the code and are arguments here.
\<close>

section \<open>Features\<close>

record NativeLinkFeatures =
  ftDynamic :: bool
  ftRegex :: bool
  ftCopying :: bool
  ftTextDecoderLegacy :: bool
  ftFileHandle :: bool
  ftFetch :: bool
  ftNetIsland :: bool
  ftZlib :: bool
  ftAssert :: bool
  ftInspect :: bool
  ftDynInvoke :: bool
  ftDc :: bool
  ftDynAsync :: bool
  ftEvents :: bool
  ftEmitter :: bool
  ftSymbol :: bool
  ftBigint :: bool
  ftSearchParams :: bool
  ftQs :: bool
  ftParseArgs :: bool
  ftStream :: bool
  ftNet :: bool
  ftHttp :: bool
  ftHttp2 :: bool
  ftDgram :: bool
  ftWatch :: bool
  ftForeignFfi :: bool
  ftNodeTest :: bool
  ftTls :: bool
  ftTlsCa :: bool

text \<open>\<^verbatim>\<open>EarlyExecutableNativeFeatures\<close> adds what the executable cache records; an absent optional
  property is \<open>None\<close>.\<close>

record EarlyExecutableNativeFeatures = NativeLinkFeatures +
  ftBackend :: string
  ftOptimization :: "string option"
  ftLlvmRefusal :: "string option"

definition executableNativeFeatures ::
    "json \<Rightarrow> FfiFunction list \<Rightarrow> string \<Rightarrow> bool \<Rightarrow> string \<Rightarrow> string option \<Rightarrow> EarlyExecutableNativeFeatures" where
  "executableNativeFeatures md ffiImports emitter dyn optimization llvmRefusal =
     \<lparr>ftDynamic = dyn,
      ftRegex = moduleUsesRegex md,
      ftCopying = moduleUsesCopying md,
      ftTextDecoderLegacy = moduleUsesLegacyTextDecoder md,
      ftFileHandle = moduleUsesFileHandle md,
      ftFetch = moduleUsesFetch md,
      ftNetIsland = (moduleEmbedsBuiltin md ''node:http'' \<or> moduleEmbedsBuiltin md ''node:https'' \<or>
        moduleEmbedsBuiltin md ''node:net'' \<or> moduleEmbedsBuiltin md ''node:tls''),
      ftZlib = (moduleUsesZlib md \<or> moduleEmbedsCompressedNpm md),
      ftAssert = moduleUsesAssert md,
      ftInspect = moduleUsesInspect md,
      ftDynInvoke = moduleUsesDynInvoke md,
      ftDc = moduleUsesDc md,
      ftDynAsync = moduleUsesDynAsync md,
      ftEvents = moduleUsesProcessEvents md,
      ftEmitter = moduleUsesEmitter md,
      ftSymbol = moduleUsesSymbol md,
      ftBigint = moduleUsesBigInt md,
      ftSearchParams = moduleUsesSearchParams md,
      ftQs = moduleUsesQs md,
      ftParseArgs = moduleUsesParseArgs md,
      ftStream = moduleUsesStream md,
      ftNet = moduleUsesNet md,
      ftHttp = moduleUsesHttpServer md,
      ftHttp2 = moduleUsesHttp2 md,
      ftDgram = moduleUsesDgram md,
      ftWatch = moduleUsesFsWatch md,
      ftForeignFfi = hasForeignFfiCallback ffiImports,
      ftNodeTest = moduleUsesNodeTest md,
      ftTls = moduleUsesTls md,
      ftTlsCa = moduleUsesTlsCa md,
      ftBackend = emitter,
      ftOptimization = (if optimization = ''dev'' then Some ''dev'' else None),
      ftLlvmRefusal = llvmRefusal\<rparr>"

text \<open>The library archive has its own, shorter feature list (\<^verbatim>\<open>libraryNativeFeatures\<close> of
  \<^verbatim>\<open>index.ts\<close>): only these units can join a library link.\<close>

record EarlyLibraryNativeFeatures =
  libBackend :: string
  libBigint :: bool
  libRegex :: bool
  libAssert :: bool
  libInspect :: bool
  libSymbol :: bool
  libSearchParams :: bool
  libEmitter :: bool
  libZlib :: bool
  libCopying :: bool
  libTextDecoderLegacy :: bool
  libBuildId :: "json option"

definition libraryNativeFeatures :: "json \<Rightarrow> string \<Rightarrow> EarlyLibraryNativeFeatures" where
  "libraryNativeFeatures md emitter =
     \<lparr>libBackend = emitter, libBigint = moduleUsesBigInt md, libRegex = moduleUsesRegex md, libAssert = moduleUsesAssert md,
      libInspect = moduleUsesInspect md, libSymbol = moduleUsesSymbol md, libSearchParams = moduleUsesSearchParams md,
      libEmitter = moduleUsesEmitter md, libZlib = moduleUsesZlib md, libCopying = moduleUsesCopying md,
      libTextDecoderLegacy = moduleUsesLegacyTextDecoder md,
      libBuildId = (if fld (fld md ''lib'') ''identity'' \<noteq> JUndef
        then Some (fld (fld (fld md ''lib'') ''identity'') ''buildId'') else None)\<rparr>"

section \<open>The units of the runtime\<close>

definition EXECUTABLE_RUNTIME_SOURCES :: "string list" where
  "EXECUTABLE_RUNTIME_SOURCES =
     [''scr_number.c'', ''scr_dtoa.c'', ''scr_string.c'', ''scr_array.c'', ''scr_bytes.c'', ''scr_bytes_io.c'',
      ''scr_map.c'', ''scr_closure.c'', ''scr_ffi.c'', ''scr_object.c'', ''scr_union.c'', ''scr_exception.c'',
      ''scr_error.c'', ''scr_console.c'', ''scr_lib.c'', ''scr_path.c'', ''scr_url.c'', ''scr_json.c'',
      ''scr_async.c'', ''scr_child.c'', ''scr_cycle.c'']"

definition wasiUnavailableSources :: "string list" where
  "wasiUnavailableSources =
     [''scr_child.c'', ''scr_dyn_handle.c'', ''scr_loop_kqueue.c'', ''scr_loop_epoll.c'', ''scr_loop_wsapoll.c'',
      ''scr_net.c'', ''scr_http.c'', ''scr_http2.c'', ''scr_dgram.c'', ''scr_watch.c'',
      ''scr_tls_ca.c'', ''scr_tls.c'', ''scr_fetch.c'', ''scr_net_island.c'']"

definition executableSectionCompileFlags :: "string \<Rightarrow> string list" where
  "executableSectionCompileFlags plat =
     (if plat = ''linux'' \<or> plat = ''win32'' then [''-ffunction-sections'', ''-fdata-sections''] else [])"

definition executableSectionLinkFlags :: "string \<Rightarrow> string list" where
  "executableSectionLinkFlags plat =
     (if plat = ''darwin'' then [''-Wl,-dead_strip'']
      else if plat = ''linux'' \<or> plat = ''win32'' then [''-Wl,--gc-sections''] else [])"

type_synonym processEnv = "(string, string) jsmap"

definition curlFetch :: "'f NativeLinkFeatures_scheme \<Rightarrow> processEnv \<Rightarrow> bool" where
  "curlFetch f env = (ftDynamic f \<and> ftFetch f \<and> jm_get env ''SCRIPTC_FETCH_CURL'' = Some ''1'')"

definition nativeFetch :: "'f NativeLinkFeatures_scheme \<Rightarrow> processEnv \<Rightarrow> bool" where
  "nativeFetch f env = (ftFetch f \<and> \<not> curlFetch f env)"

definition netIslandOn :: "'f NativeLinkFeatures_scheme \<Rightarrow> processEnv \<Rightarrow> bool" where
  "netIslandOn f env = (ftDynamic f \<and> (ftNetIsland f \<or> nativeFetch f env))"

definition netOn :: "'f NativeLinkFeatures_scheme \<Rightarrow> processEnv \<Rightarrow> bool" where
  "netOn f env = (ftNet f \<or> nativeFetch f env \<or> netIslandOn f env)"

definition httpOn :: "'f NativeLinkFeatures_scheme \<Rightarrow> processEnv \<Rightarrow> bool" where
  "httpOn f env = (ftHttp f \<or> nativeFetch f env \<or> netIslandOn f env)"

definition tlsOn :: "'f NativeLinkFeatures_scheme \<Rightarrow> processEnv \<Rightarrow> bool" where
  "tlsOn f env = (ftTls f \<or> nativeFetch f env \<or> netIslandOn f env)"

definition tlsCaOn :: "'f NativeLinkFeatures_scheme \<Rightarrow> processEnv \<Rightarrow> bool" where
  "tlsCaOn f env = (ftTlsCa f \<or> tlsOn f env)"

text \<open>The spread list: each condition with the units it contributes, in link order.\<close>

definition unitRows :: "'f NativeLinkFeatures_scheme \<Rightarrow> NativeTargetSpec \<Rightarrow> processEnv \<Rightarrow> (bool \<times> string list) list" where
  "unitRows f target env =
     [(platform target = ''win32'', [''scr_win.c'']),
      (targetName target = ''linux-x64-musl'' \<or> targetName target = ''linux-arm64-musl'', [''scr_musl.c'']),
      (ftCopying f, [''scr_copying.c'']),
      (ftFileHandle f, [''scr_file_handle.c'']),
      (ftRegex f, [''scr_regex.c'']),
      (ftAssert f \<or> ftRegex f \<or> ftSymbol f, [''scr_assert.c'']),
      (ftInspect f, [''scr_inspect.c'']),
      (ftDynInvoke f \<or> nativeFetch f env, [''scr_dyn_invoke.c'']),
      (ftDc f, [''scr_dc.c'']),
      (ftDynAsync f \<or> ftDynInvoke f \<or> ftDc f \<or> nativeFetch f env, [''scr_async_dyn.c'']),
      (ftZlib f, [''scr_zlib.c'']),
      (ftZlib f \<and> ftDynamic f, [''scr_zlib_island.c'']),
      (ftEvents f, [''scr_events.c'', ''scr_readline.c'']),
      (ftEmitter f, [''scr_events_emitter.c'']),
      (ftEmitter f \<or> netOn f env, [''scr_dyn_handle.c'']),
      (ftSymbol f, [''scr_symbol.c'']),
      (ftBigint f, [''scr_bigint.c'']),
      (ftAssert f \<and> ftBigint f, [''scr_bigint_assert.c'']),
      (ftSearchParams f, [''scr_url_params.c'']),
      (ftQs f, [''scr_qs.c'']),
      (ftParseArgs f, [''scr_util.c'']),
      (ftStream f, [''scr_stream.c'']),
      (netOn f env \<or> ftDgram f, [''scr_loop_kqueue.c'', ''scr_loop_epoll.c'', ''scr_loop_wsapoll.c'']),
      (netOn f env, [''scr_net.c'']),
      (httpOn f env, [''scr_http.c'']),
      (ftHttp2 f, [''scr_http2.c'']),
      (ftDgram f, [''scr_dgram.c'']),
      (ftWatch f, [''scr_watch.c'']),
      (ftForeignFfi f, [''scr_ffi_queue.c'']),
      (ftNodeTest f, [''scr_test.c'']),
      (tlsCaOn f env, [''scr_tls_ca.c'']),
      (tlsOn f env, [''scr_tls.c'']),
      (nativeFetch f env, [''scr_fetch.c'']),
      (ftDynamic f, [''scr_island.c'', ''scr_web.c'']),
      (ftDynamic f \<and> ftInspect f, [''scr_inspect_island.c'']),
      (ftDynamic f \<and> netIslandOn f env, [''scr_net_island.c'']),
      (ftDynamic f \<and> curlFetch f env, [''scr_fetch_curl.c''])]"

definition spreadRows :: "(bool \<times> 'a list) list \<Rightarrow> 'a list" where
  "spreadRows rows = concat (map (\<lambda>(on, xs). if on then xs else []) rows)"

definition runtimeSources :: "'f NativeLinkFeatures_scheme \<Rightarrow> NativeTargetSpec \<Rightarrow> processEnv \<Rightarrow> string list" where
  "runtimeSources f target env =
     (let base = filter (\<lambda>s. platform target \<noteq> ''wasi'' \<or> s \<notin> set wasiUnavailableSources) EXECUTABLE_RUNTIME_SOURCES;
          all = base @ spreadRows (unitRows f target env)
      in if platform target = ''wasi'' then filter (\<lambda>s. s \<notin> set wasiUnavailableSources) all else all)"

section \<open>Source sets\<close>

record NativeSourceSet =
  setName :: string
  setOutput :: string
  suggestedOutput :: string
  setSources :: "string list"
  includeDirectories :: "string list"
  setDefines :: "string list"
  cFlags :: "string list"

definition uniq :: "'a list \<Rightarrow> 'a list" where
  "uniq values = rev (remdups (rev values))"

definition packagePath :: "string list \<Rightarrow> string" where
  "packagePath parts = joinWith ''/'' parts"

definition LRE_SOURCES :: "string list" where
  "LRE_SOURCES = [''libregexp.c'', ''libunicode.c'']"

definition QJS_ENGINE_SOURCES :: "string list" where
  "QJS_ENGINE_SOURCES = [''dtoa.c'', ''libregexp.c'', ''libunicode.c'', ''quickjs.c'']"

definition runtimeSet :: "'f NativeLinkFeatures_scheme \<Rightarrow> NativeTargetSpec \<Rightarrow> processEnv \<Rightarrow> string \<Rightarrow> NativeSourceSet" where
  "runtimeSet f target env optimization =
     \<lparr>setName = ''runtime'', setOutput = ''objects'', suggestedOutput = ''runtime/*.o'',
      setSources = map (\<lambda>s. packagePath [''src'', s]) (uniq (runtimeSources f target env)),
      includeDirectories = uniq (spreadRows
        [(True, [''src'']), (ftRegex f \<or> ftDynamic f, [''vendor/quickjs-ng'']), (tlsOn f env, [''vendor/mbedtls/include'']),
         (curlFetch f env, [''vendor/curl/include''])]),
      setDefines = uniq (spreadRows
        [(True, runtimeCompileDefines target), (ftTextDecoderLegacy f, [''SCR_TEXT_DECODER_LEGACY'']), (ftDynamic f, [''SCR_DYNAMIC''])]),
      cFlags = [''-std=c11'', ''-target'', llvmTriple target] @
        (if platform target = ''win32'' \<or> platform target = ''wasi'' then [] else [''-pthread'']) @
        [if optimization = ''dev'' then ''-O0'' else ''-O2''] @ executableSectionCompileFlags (platform target) @
        [''-fno-math-errno'', ''-fno-strict-aliasing'', ''-Wno-deprecated-declarations'']\<rparr>"

definition defineFlags :: "NativeTargetSpec \<Rightarrow> string list" where
  "defineFlags target = map (\<lambda>define. ''-D'' @ define) (runtimeCompileDefines target)"

definition regexpSet :: "NativeTargetSpec \<Rightarrow> NativeSourceSet" where
  "regexpSet target =
     \<lparr>setName = ''libregexp'', setOutput = ''archive'', suggestedOutput = ''libscriptc-regexp.a'',
      setSources = map (\<lambda>s. packagePath [''vendor'', ''quickjs-ng'', s]) LRE_SOURCES,
      includeDirectories = [''vendor/quickjs-ng''], setDefines = [],
      cFlags = [''-std=c11'', ''-target'', llvmTriple target] @ defineFlags target @ [''-Os'']\<rparr>"

definition quickjsSet :: "NativeTargetSpec \<Rightarrow> NativeSourceSet" where
  "quickjsSet target =
     \<lparr>setName = ''quickjs'', setOutput = ''archive'', suggestedOutput = ''libscriptc-quickjs.a'',
      setSources = map (\<lambda>s. packagePath [''vendor'', ''quickjs-ng'', s]) QJS_ENGINE_SOURCES,
      includeDirectories = [''vendor/quickjs-ng''], setDefines = [''QUICKJS_NG_BUILD'', ''_GNU_SOURCE'', ''NDEBUG''],
      cFlags = [''-std=gnu11'', ''-target'', llvmTriple target] @ defineFlags target @
        [''-fvisibility=hidden'', ''-funsigned-char'', ''-Os'']\<rparr>"

definition mbedtlsSet :: "NativeTargetSpec \<Rightarrow> NativeSourceSet" where
  "mbedtlsSet target =
     \<lparr>setName = ''mbedtls'', setOutput = ''archive'', suggestedOutput = ''libscriptc-mbedtls.a'', setSources = [],
      includeDirectories = [''vendor/mbedtls/include'', ''vendor/mbedtls/library''], setDefines = [],
      cFlags = [''-std=c11'', ''-target'', llvmTriple target] @ defineFlags target @ [''-Os'']\<rparr>"

definition wasiBlocked :: "'f NativeLinkFeatures_scheme \<Rightarrow> bool" where
  "wasiBlocked f = (ftNet f \<or> ftHttp f \<or> ftHttp2 f \<or> ftDgram f \<or> ftWatch f \<or> ftTls f \<or> ftTlsCa f \<or> ftFetch f \<or> ftNetIsland f)"

record SourceRecipe =
  recipeSets :: "NativeSourceSet list"
  recipeSystemLibraries :: "string list"
  recipeDriverFlags :: "string list"

definition runtimeSourceRecipe ::
    "'f NativeLinkFeatures_scheme \<Rightarrow> NativeTargetSpec \<Rightarrow> processEnv \<Rightarrow> string \<Rightarrow> SourceRecipe res" where
  "runtimeSourceRecipe f target env optimization =
     (if platform target = ''wasi'' \<and> wasiBlocked f then
        Inl ''WASI native link info requested an unavailable network/TLS runtime surface''
      else Inr
        \<lparr>recipeSets = spreadRows
           [(True, [runtimeSet f target env optimization]), (ftRegex f \<and> \<not> ftDynamic f, [regexpSet target]),
            (ftDynamic f, [quickjsSet target]), (tlsOn f env, [mbedtlsSet target])],
         recipeSystemLibraries = uniq (spreadRows
           [(True, runtimeSystemLibraries target), ((ftZlib f \<or> nativeFetch f env) \<and> platform target \<noteq> ''win32'', [''z'']),
            (ftDynamic f \<and> platform target \<noteq> ''win32'', [''m'']), (curlFetch f env, [''curl''])]),
         recipeDriverFlags = executableLinkerArgs target @ executableOptimizationLinkerArgs (platform target) optimization\<rparr>)"

section \<open>Link info\<close>

text \<open>The part of \<^verbatim>\<open>createNativeLinkInfo\<close> that is computed: source sets with the mbedTLS listing
  filled in, the FFI inputs and the link order. \<open>sortedStrings\<close> is \<^verbatim>\<open>Array.sort\<close> on strings.\<close>

fun strLess :: "string \<Rightarrow> string \<Rightarrow> bool" where
  "strLess _ [] = False"
| "strLess [] (_ # _) = True"
| "strLess (c # cs) (d # ds) = (if c = d then strLess cs ds else (of_char c :: nat) < of_char d)"

fun insertString :: "string \<Rightarrow> string list \<Rightarrow> string list" where
  "insertString x [] = [x]"
| "insertString x (y # ys) = (if strLess y x then y # insertString x ys else x # y # ys)"

definition sortedStrings :: "string list \<Rightarrow> string list" where
  "sortedStrings xs = foldr insertString xs []"

definition endsWith :: "string \<Rightarrow> string \<Rightarrow> bool" where
  "endsWith s t = startsWith (rev s) (rev t)"

definition mbedtlsSources :: "string list \<Rightarrow> string list" where
  "mbedtlsSources listing =
     map (\<lambda>name. packagePath [''vendor'', ''mbedtls'', ''library'', name])
       (sortedStrings (filter (\<lambda>name. \<not> startsWith name ''.'' \<and> endsWith name ''.c'') listing))"

definition fillMbedtls :: "string list \<Rightarrow> NativeSourceSet list \<Rightarrow> NativeSourceSet list" where
  "fillMbedtls listing sets =
     map (\<lambda>s. if setName s = ''mbedtls'' then s\<lparr>setSources := mbedtlsSources listing\<rparr> else s) sets"

definition RUNTIME_ABI_VERSION :: nat where
  "RUNTIME_ABI_VERSION = 1"

definition RUNTIME_ABI_MARKER :: string where
  "RUNTIME_ABI_MARKER = ''scr_runtime_abi_v1''"

definition EXTERNAL_OBJECT_ABI_STABILITY :: string where
  "EXTERNAL_OBJECT_ABI_STABILITY = ''experimental''"

record NativeLinkInfo =
  infoSchema :: string
  infoFormat :: nat
  infoCompilerVersion :: string
  infoStability :: string
  infoCompatibility :: string
  infoTarget :: string
  infoLlvmTriple :: string
  infoArchitecture :: string
  infoObjectFormat :: string
  infoMinimumOs :: string
  infoRelocationModel :: string
  infoProgramObject :: string
  infoEntrySymbol :: string
  infoRuntimePrefix :: string
  infoAbiVersion :: nat
  infoAbiMarker :: string
  infoPackKind :: string
  infoPackage :: string
  infoRuntimeVersion :: string
  infoRoot :: string
  infoPathBase :: string
  infoSourceSets :: "NativeSourceSet list"
  infoFfiFormat :: "nat option"
  infoFfiSymbols :: "string list"
  infoFfiLibraries :: "string list"
  infoInputOrder :: "string list"
  infoDriverFlags :: "string list"
  infoSystemLibraries :: "string list"
  infoFrameworks :: "string list"

definition createNativeLinkInfo ::
    "string \<Rightarrow> string \<Rightarrow> string \<Rightarrow> string list \<Rightarrow> string \<Rightarrow> NativeTargetSpec \<Rightarrow> 'f NativeLinkFeatures_scheme \<Rightarrow> FfiProfile option \<Rightarrow> string \<Rightarrow>
     processEnv \<Rightarrow> NativeLinkInfo res" where
  "createNativeLinkInfo compilerVersion runtimeVersion packRoot mbedtlsListing programObject target f ffi optimization env =
     bindE (runtimeSourceRecipe f target env optimization) (\<lambda>recipe.
       let sets = fillMbedtls mbedtlsListing (recipeSets recipe);
           libs = (case ffi of None \<Rightarrow> [] | Some p \<Rightarrow> ffiLibraries p);
           vendorInputs = map suggestedOutput (filter (\<lambda>s. setOutput s = ''archive'') (recipeSets recipe)) in
       Inr \<lparr>infoSchema = ''scriptc.native-link-info.v1'', infoFormat = 1, infoCompilerVersion = compilerVersion,
         infoStability = EXTERNAL_OBJECT_ABI_STABILITY, infoCompatibility = ''exact-runtime-version'',
         infoTarget = targetName target, infoLlvmTriple = llvmTriple target, infoArchitecture = architecture target,
         infoObjectFormat = objectFormat target, infoMinimumOs = minimumOs target, infoRelocationModel = relocationModel target,
         infoProgramObject = programObject, infoEntrySymbol = ''main'', infoRuntimePrefix = ''scr_'',
         infoAbiVersion = RUNTIME_ABI_VERSION, infoAbiMarker = RUNTIME_ABI_MARKER,
         infoPackKind = ''source'', infoPackage = ''@scriptc/runtime'', infoRuntimeVersion = runtimeVersion,
         infoRoot = packRoot, infoPathBase = ''runtime_pack.root'', infoSourceSets = sets,
         infoFfiFormat = map_option ffiFormat ffi,
         infoFfiSymbols = (case ffi of None \<Rightarrow> [] | Some p \<Rightarrow> map ffiSymbol (ffiFunctions p)),
         infoFfiLibraries = libs,
         infoInputOrder = programObject # libs @ [''runtime/*.o''] @ vendorInputs @ [''system_libraries''],
         infoDriverFlags = recipeDriverFlags recipe,
         infoSystemLibraries = uniq ((case ffi of None \<Rightarrow> [] | Some p \<Rightarrow> ffiSystemLibraries p) @ recipeSystemLibraries recipe),
         infoFrameworks = []\<rparr>)"

end
