(* ===== verification/LinkSound.thy ===== *)
theory LinkSound
  imports LinkInfo
begin

text \<open>
  What the link switches, the gates and the link recipe guarantee together: a switch is true
  exactly when the module contains a node that needs the unit; the list of units is closed under
  the dependencies the units have on each other; a module the async-free gate passes contains
  none of the refused surfaces; a module the WASI gate passes can be linked for WASI, with one
  exception the last section exhibits.
\<close>

section \<open>Nodes\<close>

lemma tls_needs_http: "tlsNode n \<Longrightarrow> httpServerNode n"
  by (auto simp: tlsNode_def httpServerNode_def HTTP_KINDS_def)

lemma http_needs_net: "httpServerNode n \<Longrightarrow> netNode n"
  by (auto simp: netNode_def httpServerNode_def HTTP_KINDS_def NET_KINDS_def)

lemma http2_needs_net: "http2Node n \<Longrightarrow> netNode n"
  by (auto simp: netNode_def http2Node_def HTTP2_KINDS_def NET_KINDS_def)

lemma visitFound_mono: "(\<And>n. p n \<Longrightarrow> q n) \<Longrightarrow> visitFound p False v \<Longrightarrow> visitFound q False v"
  by (auto simp: visitFound_iff)

lemma visitFound_subNode: "visitFound p False v \<longleftrightarrow> (\<exists>n. subNode n v \<and> p n)"
  by (auto simp: visitFound_iff nodes_subNode)

lemma switch_closure:
  "moduleUsesTls md \<Longrightarrow> moduleUsesHttpServer md" "moduleUsesHttpServer md \<Longrightarrow> moduleUsesNet md"
  "moduleUsesHttp2 md \<Longrightarrow> moduleUsesNet md"
  unfolding moduleUsesTls_def moduleUsesHttpServer_def moduleUsesNet_def moduleUsesHttp2_def
  by (auto intro: visitFound_mono tls_needs_http http_needs_net http2_needs_net)

section \<open>Units\<close>

lemma mem_runtimeSources:
  "platform target \<noteq> ''wasi'' \<Longrightarrow> u \<in> set (runtimeSources f target env) \<longleftrightarrow>
     u \<in> set EXECUTABLE_RUNTIME_SOURCES \<or> (\<exists>row\<in>set (unitRows f target env). fst row \<and> u \<in> set (snd row))"
  by (fastforce simp: runtimeSources_def spreadRows_def)

lemma mem_units:
  "platform target \<noteq> ''wasi'' \<Longrightarrow> u \<in> set (runtimeSources f target env) \<longleftrightarrow>
     u \<in> set EXECUTABLE_RUNTIME_SOURCES \<or> list_ex (\<lambda>row. fst row \<and> u \<in> set (snd row)) (unitRows f target env)"
  by (simp add: mem_runtimeSources list_ex_iff)

lemma unit_mem:
  assumes "platform target \<noteq> ''wasi''"
  shows "''scr_tls.c'' \<in> set (runtimeSources f target env) \<longleftrightarrow> tlsOn f env"
    "''scr_http.c'' \<in> set (runtimeSources f target env) \<longleftrightarrow> httpOn f env"
    "''scr_net.c'' \<in> set (runtimeSources f target env) \<longleftrightarrow> netOn f env"
    "''scr_http2.c'' \<in> set (runtimeSources f target env) \<longleftrightarrow> ftHttp2 f"
    "''scr_tls_ca.c'' \<in> set (runtimeSources f target env) \<longleftrightarrow> tlsCaOn f env"
    "''scr_dyn_handle.c'' \<in> set (runtimeSources f target env) \<longleftrightarrow> ftEmitter f \<or> netOn f env"
    "''scr_loop_epoll.c'' \<in> set (runtimeSources f target env) \<longleftrightarrow> netOn f env \<or> ftDgram f"
    "''scr_dgram.c'' \<in> set (runtimeSources f target env) \<longleftrightarrow> ftDgram f"
    "''scr_regex.c'' \<in> set (runtimeSources f target env) \<longleftrightarrow> ftRegex f"
    "''scr_symbol.c'' \<in> set (runtimeSources f target env) \<longleftrightarrow> ftSymbol f"
    "''scr_assert.c'' \<in> set (runtimeSources f target env) \<longleftrightarrow> ftAssert f \<or> ftRegex f \<or> ftSymbol f"
    "''scr_dyn_invoke.c'' \<in> set (runtimeSources f target env) \<longleftrightarrow> ftDynInvoke f \<or> nativeFetch f env"
    "''scr_dc.c'' \<in> set (runtimeSources f target env) \<longleftrightarrow> ftDc f"
    "''scr_async_dyn.c'' \<in> set (runtimeSources f target env) \<longleftrightarrow> ftDynAsync f \<or> ftDynInvoke f \<or> ftDc f \<or> nativeFetch f env"
    "''scr_fetch.c'' \<in> set (runtimeSources f target env) \<longleftrightarrow> nativeFetch f env"
    "''scr_net_island.c'' \<in> set (runtimeSources f target env) \<longleftrightarrow> ftDynamic f \<and> netIslandOn f env"
  by (simp_all add: mem_units [OF assms] unitRows_def EXECUTABLE_RUNTIME_SOURCES_def)

text \<open>Which units a unit refers to, as the comments of the link code state it.\<close>

definition unitNeeds :: "(string \<times> string list) list" where
  "unitNeeds =
     [(''scr_tls.c'', [''scr_http.c'', ''scr_net.c'', ''scr_tls_ca.c'']),
      (''scr_http.c'', [''scr_net.c'']),
      (''scr_http2.c'', [''scr_net.c'']),
      (''scr_net.c'', [''scr_loop_epoll.c'', ''scr_dyn_handle.c'']),
      (''scr_dgram.c'', [''scr_loop_epoll.c'']),
      (''scr_fetch.c'', [''scr_net.c'', ''scr_http.c'', ''scr_tls.c'', ''scr_dyn_invoke.c'', ''scr_async_dyn.c'']),
      (''scr_net_island.c'', [''scr_net.c'', ''scr_http.c'', ''scr_tls.c'']),
      (''scr_regex.c'', [''scr_assert.c'']),
      (''scr_symbol.c'', [''scr_assert.c'']),
      (''scr_dyn_invoke.c'', [''scr_async_dyn.c'']),
      (''scr_dc.c'', [''scr_async_dyn.c''])]"

lemma features_closed:
  assumes f: "f = executableNativeFeatures md ffiImports emitter dyn opt refusal"
  shows "tlsOn f env \<Longrightarrow> httpOn f env" "httpOn f env \<Longrightarrow> netOn f env" "ftHttp2 f \<Longrightarrow> netOn f env"
    "tlsOn f env \<Longrightarrow> tlsCaOn f env" "nativeFetch f env \<Longrightarrow> tlsOn f env" "netIslandOn f env \<Longrightarrow> tlsOn f env"
  using switch_closure [of md]
  by (auto simp: f executableNativeFeatures_def tlsOn_def httpOn_def netOn_def tlsCaOn_def)

lemma units_closed:
  assumes "platform target \<noteq> ''wasi''" "u \<in> set (runtimeSources (executableNativeFeatures md ffiImports emitter dyn opt refusal) target env)"
    "(u, needs) \<in> set unitNeeds"
  shows "set needs \<subseteq> set (runtimeSources (executableNativeFeatures md ffiImports emitter dyn opt refusal) target env)"
proof -
  note mem = unit_mem [OF assms(1), of "executableNativeFeatures md ffiImports emitter dyn opt refusal" env]
  note closed = features_closed [OF refl, of md ffiImports emitter dyn opt refusal env]
  let ?S = "set (runtimeSources (executableNativeFeatures md ffiImports emitter dyn opt refusal) target env)"
  have "list_all (\<lambda>(u, needs). u \<in> ?S \<longrightarrow> set needs \<subseteq> ?S) unitNeeds"
    unfolding unitNeeds_def list.pred_inject(2) prod.case list.set insert_subset mem
    by (intro conjI list.pred_inject(1) impI empty_subsetI; use closed in blast)
  then show ?thesis using assms(2,3) by (auto simp: list_all_iff)
qed

section \<open>Gates\<close>

lemma prefixSurface_None: "prefixSurface rows fn = None \<longleftrightarrow> (\<forall>r\<in>set rows. \<not> startsWith fn (fst r))"
  by (induction rows fn rule: prefixSurface.induct) auto

lemma tables_nonempty:
  "list_all (\<lambda>r. fst r \<noteq> []) LIB_MODE_REFUSED_PREFIXES" "list_all (\<lambda>r. fst r \<noteq> []) LIB_MODE_REFUSED_KINDS"
  "list_all (\<lambda>r. fst r \<noteq> []) LIB_NONDETERMINISTIC_PREFIXES" "list_all (\<lambda>r. fst r \<noteq> []) WASI_PREFIXES"
  "list_all (\<lambda>r. fst r \<noteq> []) WASI_KINDS"
  by (simp_all add: LIB_MODE_REFUSED_PREFIXES_def LIB_MODE_REFUSED_KINDS_def LIB_NONDETERMINISTIC_PREFIXES_def
      WASI_PREFIXES_def WASI_KINDS_def)

lemma isStr_libFn: "startsWith (libFn n) p \<Longrightarrow> p \<noteq> [] \<Longrightarrow> isStr (fld n ''fn'')"
  by (cases "fld n ''fn''") (auto simp: libFn_def sfld_def startsWith_def)

lemma isLib_hasKind: "isLib n \<Longrightarrow> hasKind n"
  by (rule hasKind_kindOf) (simp add: isLib_def)

lemma jm_get_None: "jm_get m k = None \<longleftrightarrow> k \<notin> fst ` set m"
  by (simp add: jm_get_map_of map_of_eq_None_iff)

definition refusedNode :: "json \<Rightarrow> bool" where
  "refusedNode n \<longleftrightarrow> kindOf n \<in> fst ` set LIB_MODE_REFUSED_KINDS \<or>
     isLib n \<and> (\<exists>r\<in>set LIB_MODE_REFUSED_PREFIXES. startsWith (libFn n) (fst r))"

definition nondetNode :: "json \<Rightarrow> bool" where
  "nondetNode n \<longleftrightarrow> isLib n \<and> (\<exists>r\<in>set LIB_NONDETERMINISTIC_PREFIXES. startsWith (libFn n) (fst r))"

definition wasiNode :: "json \<Rightarrow> bool" where
  "wasiNode n \<longleftrightarrow> kindOf n \<in> fst ` set WASI_KINDS \<or> isLib n \<and> (\<exists>r\<in>set WASI_PREFIXES. startsWith (libFn n) (fst r))"

lemma kind_in_table: "list_all (\<lambda>r. fst r \<noteq> []) tbl \<Longrightarrow> kindOf n \<in> fst ` set tbl \<Longrightarrow> hasKind n"
  by (rule hasKind_kindOf) (auto simp: list_all_iff)

lemma prefix_in_table:
  "list_all (\<lambda>r. fst r \<noteq> []) tbl \<Longrightarrow> r \<in> set tbl \<Longrightarrow> startsWith (libFn n) (fst r) \<Longrightarrow> isStr (fld n ''fn'')"
  by (rule isStr_libFn) (auto simp: list_all_iff)

lemma jm_get_table: "k \<in> fst ` set m \<Longrightarrow> \<exists>v. jm_get m k = Some v" "k \<notin> fst ` set m \<Longrightarrow> jm_get m k = None"
  using jm_get_None [of m k] by auto

lemma asyncHit_None: "asyncHit n loc = None \<longleftrightarrow> \<not> refusedNode n"
proof (cases "kindOf n \<in> fst ` set LIB_MODE_REFUSED_KINDS")
  case True
  then show ?thesis
    using kind_in_table [OF tables_nonempty(2) True] jm_get_table(1) [OF True]
    by (auto simp: asyncHit_def refusedNode_def simp del: hasKind.simps)
next
  case False
  then show ?thesis
    using jm_get_table(2) [OF False] prefix_in_table [OF tables_nonempty(1), of _ n] isLib_hasKind [of n]
    by (auto simp: asyncHit_def refusedNode_def prefixSurface_None simp del: hasKind.simps)
qed

lemma nondetHit_None: "nondetHit n loc = None \<longleftrightarrow> \<not> nondetNode n"
  using prefix_in_table [OF tables_nonempty(3), of _ n]
  unfolding nondetHit_def nondetNode_def by (auto simp: prefixSurface_None)

lemma nondetHit_Some: "nondetHit n loc = Some r \<Longrightarrow> nondetHit n loc = prefixSurface LIB_NONDETERMINISTIC_PREFIXES (libFn n)"
  by (simp add: nondetHit_def split: if_splits)

lemma wasiHit_None: "wasiHit n loc = None \<Longrightarrow> \<not> wasiNode n"
proof (cases "kindOf n \<in> fst ` set WASI_KINDS")
  case True
  moreover assume "wasiHit n loc = None"
  ultimately show ?thesis
    using kind_in_table [OF tables_nonempty(5) True] jm_get_table(1) [OF True]
    by (auto simp: wasiHit_def simp del: hasKind.simps)
next
  case False
  moreover assume "wasiHit n loc = None"
  ultimately show ?thesis
    using jm_get_table(2) [OF False] prefix_in_table [OF tables_nonempty(4), of _ n] isLib_hasKind [of n]
    by (auto simp: wasiHit_def wasiNode_def prefixSurface_None simp del: hasKind.simps split: if_splits)
qed

lemma lnodes_all: "(\<forall>n\<in>set (lnodes loc v). P (fst n)) \<longleftrightarrow> (\<forall>n. subNode n v \<longrightarrow> P n)"
  by (metis imageE image_eqI nodes_subNode set_nodes)

lemma asyncFunction_None:
  "asyncFunction fns = None \<longleftrightarrow> (\<forall>f\<in>set fns. fld f ''async'' \<noteq> JBool True \<and> fld f ''generator'' = JUndef)"
  by (induction fns rule: asyncFunction.induct) auto

lemma firstOn_None: "firstOn rows loc = None \<longleftrightarrow> (\<forall>r\<in>set rows. \<not> fst r)"
  by (induction rows loc rule: firstOn.induct) auto

lemma asyncGate_None:
  "moduleLibAsyncSurface md = None \<longleftrightarrow>
     (\<forall>f\<in>set (arrOf (fld md ''functions'')). fld f ''async'' \<noteq> JBool True \<and> fld f ''generator'' = JUndef) \<and>
     (\<forall>n. subNode n md \<longrightarrow> \<not> refusedNode n) \<and> (\<forall>r\<in>set (coarseSurfaces md). \<not> fst r)"
proof -
  have "moduleLibAsyncSurface md = None \<longleftrightarrow> asyncFunction (arrOf (fld md ''functions'')) = None \<and>
      visitFirst asyncHit None (entryLoc md) md = None \<and> firstOn (coarseSurfaces md) (entryLoc md) = None"
    by (auto simp: moduleLibAsyncSurface_def split: option.splits)
  then show ?thesis
    unfolding asyncFunction_None firstOn_None visitFirst_None asyncHit_None
    using lnodes_all [of "entryLoc md" md "\<lambda>n. \<not> refusedNode n"] by simp
qed

lemma net_wasi: "netNode n \<or> dgramNode n \<or> fsWatchNode n \<Longrightarrow> wasiNode n"
  by (auto simp: netNode_def dgramNode_def fsWatchNode_def wasiNode_def NET_KINDS_def WASI_KINDS_def WASI_PREFIXES_def)

lemma wasiGate_features:
  assumes "moduleWasiUnavailableSurface md = None" "\<not> moduleUsesTlsCa md"
  shows "\<not> wasiBlocked (executableNativeFeatures md ffiImports emitter dyn opt refusal)"
proof -
  from assms(1) have gate: "visitFirst wasiHit None (entryLoc md) md = None" "\<not> moduleUsesFetch md"
      "filter (moduleEmbedsBuiltin md) WASI_BUILTINS = []"
    by (auto simp: moduleWasiUnavailableSurface_def split: option.splits if_splits list.splits)
  from gate(1) have "\<forall>n\<in>set (lnodes (entryLoc md) md). \<not> wasiNode (fst n)"
    using wasiHit_None by (auto simp: visitFirst_None)
  then have "\<not> wasiNode n" if "n \<in> set (nodes md)" for n
    using that lnodes_all [of "entryLoc md" md "\<lambda>n. \<not> wasiNode n"] by (simp add: nodes_subNode)
  then have "\<not> moduleUsesNet md" "\<not> moduleUsesDgram md" "\<not> moduleUsesFsWatch md"
    using net_wasi by (auto simp: moduleUsesNet_def moduleUsesDgram_def moduleUsesFsWatch_def visitFound_iff)
  moreover have "\<not> moduleUsesTls md" "\<not> moduleUsesHttpServer md" "\<not> moduleUsesHttp2 md"
    using calculation(1) switch_closure [of md] by auto
  moreover have "\<not> moduleEmbedsBuiltin md b" if "b \<in> set WASI_BUILTINS" for b
    using gate(3) that by (auto simp: filter_empty_conv)
  ultimately show ?thesis
    using gate(2) assms(2) by (auto simp: wasiBlocked_def executableNativeFeatures_def WASI_BUILTINS_def)
qed

section \<open>Properties\<close>



definition tlsModule :: json where
  "tlsModule = JObj [(''sourceFile'', JStr ''a.ts''), (''functions'', JArr [JObj [(''name'', JStr ''main''),
     (''body'', JArr [JObj [(''kind'', JStr ''libCall''), (''fn'', JStr ''tls.connect'')]])]])]"

lemma tlsModule_tls: "moduleUsesTls tlsModule"
  by code_simp


text \<open>The async-free gate of library mode answers nothing exactly when no function is async or a
  generator, no node of the module has a refused kind or calls a refused library family, and none
  of the thirteen coarse switches is on.\<close>

theorem async_free_gate_exact:
  "moduleLibAsyncSurface md = None \<longleftrightarrow>
     (\<forall>f\<in>set (arrOf (fld md ''functions'')). fld f ''async'' \<noteq> JBool True \<and> fld f ''generator'' = JUndef) \<and>
     (\<forall>n. subNode n md \<longrightarrow> \<not> refusedNode n) \<and> (\<forall>r\<in>set (coarseSurfaces md). \<not> fst r)"
  by (rule asyncGate_None)

text \<open>The determinism attestation names the first offending call in document order, and is withheld
  exactly when some call of the module belongs to an ambient family.\<close>

theorem determinism_attestation_exact:
  "(moduleLibNondeterministicSurface md = None \<longleftrightarrow> \<not> (\<exists>n. subNode n md \<and> nondetNode n)) \<and>
   moduleLibNondeterministicSurface md =
     (case filter nondetNode (nodes md) of [] \<Rightarrow> None | n # _ \<Rightarrow> prefixSurface LIB_NONDETERMINISTIC_PREFIXES (libFn n))"
proof
  show "moduleLibNondeterministicSurface md = None \<longleftrightarrow> \<not> (\<exists>n. subNode n md \<and> nondetNode n)"
    unfolding moduleLibNondeterministicSurface_def visitFirst_None nondetHit_None
    using lnodes_all [of JNull md "\<lambda>n. \<not> nondetNode n"] by blast
  let ?hits = "filter (\<lambda>n. nondetHit (fst n) (snd n) \<noteq> None) (lnodes JNull md)"
  have nodes: "filter nondetNode (nodes md) = map fst ?hits"
    unfolding nodes_def nondetHit_None by (simp add: filter_map comp_def)
  show "moduleLibNondeterministicSurface md =
     (case filter nondetNode (nodes md) of [] \<Rightarrow> None | n # _ \<Rightarrow> prefixSurface LIB_NONDETERMINISTIC_PREFIXES (libFn n))"
  proof (cases ?hits)
    case Nil
    show ?thesis unfolding moduleLibNondeterministicSurface_def visitFirst_eq nodes Nil by simp
  next
    case (Cons n ns)
    have "n \<in> set ?hits" unfolding Cons by simp
    then obtain r where "nondetHit (fst n) (snd n) = Some r" by auto
    from nondetHit_Some [OF this] show ?thesis
      unfolding moduleLibNondeterministicSurface_def visitFirst_eq nodes Cons by (simp only: list.map list.case)
  qed
qed

text \<open>C18. A module that passes the WASI capability gate and does not inspect the CA store can be linked
  for WASI: the link recipe exists, and none of the units WASI lacks is in it.\<close>

theorem wasi_gate_links:
  assumes "moduleWasiUnavailableSurface md = None" "\<not> moduleUsesTlsCa md"
  shows "\<exists>recipe. runtimeSourceRecipe (executableNativeFeatures md ffiImports emitter dyn opt refusal) WASM32_WASI_TARGET env optimization = Inr recipe \<and>
    set (runtimeSources (executableNativeFeatures md ffiImports emitter dyn opt refusal) WASM32_WASI_TARGET env) \<inter> set wasiUnavailableSources = {}"
proof -
  have "platform WASM32_WASI_TARGET = ''wasi''" by (simp add: WASM32_WASI_TARGET_def)
  then show ?thesis
    using wasiGate_features [OF assms, of ffiImports emitter dyn opt refusal] by (auto simp: runtimeSourceRecipe_def runtimeSources_def)
qed

definition plainModule :: json where
  "plainModule = JObj [(''sourceFile'', JStr ''a.ts''), (''functions'', JArr [])]"

lemma plainModule_nodes: "nodes plainModule = [plainModule]"
  by (simp add: plainModule_def nodes_simps)

lemma plainModule_wasi: "moduleWasiUnavailableSurface plainModule = None" "\<not> moduleUsesTlsCa plainModule"
  by code_simp+

theorem wasi_gate_links_witness:
  "\<exists>recipe. runtimeSourceRecipe (executableNativeFeatures plainModule [] ''llvm'' False ''release'' None) WASM32_WASI_TARGET [] ''release'' = Inr recipe"
  using wasi_gate_links [OF plainModule_wasi] by blast

definition caStoreModule :: json where
  "caStoreModule = JObj [(''sourceFile'', JStr ''a.ts''), (''functions'', JArr [JObj [(''name'', JStr ''main''),
     (''body'', JArr [JObj [(''kind'', JStr ''libCall''), (''fn'', JStr ''tlsca.get'')]])]])]"

text \<open>C19. The CA-store exception is real: a module that calls \<^verbatim>\<open>tls.getCACertificates\<close> (a
  \<^verbatim>\<open>tlsca.\<close> call) passes the WASI gate without a diagnostic, and the link recipe then throws.\<close>

theorem wasi_gate_misses_ca_store:
  "moduleWasiUnavailableSurface caStoreModule = None \<and>
   runtimeSourceRecipe (executableNativeFeatures caStoreModule [] ''llvm'' False ''release'' None) WASM32_WASI_TARGET [] ''release'' =
     Inl ''WASI native link info requested an unavailable network/TLS runtime surface''"
proof
  show "moduleWasiUnavailableSurface caStoreModule = None" by code_simp
  have "moduleUsesTlsCa caStoreModule" by code_simp
  then show "runtimeSourceRecipe (executableNativeFeatures caStoreModule [] ''llvm'' False ''release'' None) WASM32_WASI_TARGET [] ''release'' =
     Inl ''WASI native link info requested an unavailable network/TLS runtime surface''"
    by (simp add: runtimeSourceRecipe_def WASM32_WASI_TARGET_def wasiBlocked_def executableNativeFeatures_def)
qed

definition libModule :: "string \<Rightarrow> json" where
  "libModule fn = JObj [(''sourceFile'', JStr ''a.ts''), (''functions'', JArr [JObj [(''name'', JStr ''main''),
     (''body'', JArr [JObj [(''kind'', JStr ''libCall''), (''fn'', JStr fn)]])]])]"

text \<open>Two switches and a gate disagree with their comments. A module that only uses
  \<^verbatim>\<open>stream/promises\<close> (\<^verbatim>\<open>sp.finished\<close>) also links the \<^verbatim>\<open>URLSearchParams\<close> unit, whose prefix
  \<^verbatim>\<open>sp.\<close> it shares; and a module that sends to its parent process needs the child-process unit,
  which no library links, yet passes the async-free gate.\<close>

theorem switches_against_comments:
  "moduleUsesSearchParams (libModule ''sp.finished'') \<and>
   moduleUsesChildProcess (libModule ''process.send'') \<and> moduleLibAsyncSurface (libModule ''process.send'') = None"
  by code_simp

end
