(* ===== verification/Wyhash.thy ===== *)
theory Wyhash
  imports ErrorMonad "HOL-Library.Word"
begin

unbundle bit_operations_syntax

text \<open>
  The identity hash of library artifacts, \<^verbatim>\<open>library/wyhash.ts\<close>: Wyhash-64 computed over
  \<^verbatim>\<open>BigInt\<close> values with explicit masks, the length-prefixed framing of its input and the
  hexadecimal rendering. A \<^verbatim>\<open>Uint8Array\<close> is a list of bytes and a \<^verbatim>\<open>BigInt\<close> an integer. Reading
  past the end of an array gives \<^verbatim>\<open>undefined\<close>, which the bit operators turn into 0 and
  \<^verbatim>\<open>BigInt(...)\<close> refuses with a \<^verbatim>\<open>TypeError\<close>; both are written out, and shown not to happen.
\<close>

type_synonym byte = "8 word"

section \<open>The code\<close>

definition MASK64 :: int where
  "MASK64 = push_bit 64 1 - 1"

definition P0 :: int where "P0 = 0xa0761d6478bd642f"
definition P1 :: int where "P1 = 0xe7037ed1a0b428db"
definition P2 :: int where "P2 = 0x8ebc6af09c88c6e3"
definition P3 :: int where "P3 = 0x589965cc75374cc3"

definition wymix :: "int \<Rightarrow> int \<Rightarrow> int" where
  "wymix a b = (let r = (a AND MASK64) * (b AND MASK64) in ((r AND MASK64) XOR drop_bit 64 r) AND MASK64)"

text \<open>\<^verbatim>\<open>d[o]\<close> under a bit operator (\<^verbatim>\<open>undefined\<close> becomes 0), under \<^verbatim>\<open>BigInt\<close> (it throws), and the
  32-bit left shift of numbers.\<close>

definition numAt :: "byte list \<Rightarrow> int \<Rightarrow> int" where
  "numAt d ix = (if 0 \<le> ix \<and> ix < int (length d) then uint (d ! nat ix) else 0)"

definition bigAt :: "byte list \<Rightarrow> int \<Rightarrow> int res" where
  "bigAt d ix = (if 0 \<le> ix \<and> ix < int (length d) then Inr (uint (d ! nat ix)) else Inl ''Cannot convert undefined to a BigInt'')"

definition shl32 :: "int \<Rightarrow> nat \<Rightarrow> int" where
  "shl32 x k = signed_take_bit 31 (push_bit k x)"

fun wyr8Loop :: "byte list \<Rightarrow> int \<Rightarrow> nat \<Rightarrow> int \<Rightarrow> int res" where
  "wyr8Loop d ix 0 v = Inr v"
| "wyr8Loop d ix (Suc i) v = bindE (bigAt d (ix + int i)) (\<lambda>x. wyr8Loop d ix i (push_bit 8 v OR x))"

definition wyr8 :: "byte list \<Rightarrow> int \<Rightarrow> int res" where
  "wyr8 d ix = wyr8Loop d ix 8 0"

definition wyr4 :: "byte list \<Rightarrow> int \<Rightarrow> int res" where
  "wyr4 d ix = bindE (bigAt d (ix + 3)) (\<lambda>top.
     Inr ((numAt d ix OR shl32 (numAt d (ix + 1)) 8 OR shl32 (numAt d (ix + 2)) 16) OR push_bit 24 top))"

definition wyr3 :: "byte list \<Rightarrow> int \<Rightarrow> int \<Rightarrow> int" where
  "wyr3 d ix k = shl32 (numAt d ix) 16 OR shl32 (numAt d (ix + drop_bit 1 k)) 8 OR numAt d (ix + k - 1)"

text \<open>The two loops: the strided one runs its body before it tests.\<close>

definition lane :: "byte list \<Rightarrow> int \<Rightarrow> int \<Rightarrow> int \<Rightarrow> int res" where
  "lane d p key seed = bindE (wyr8 d p) (\<lambda>x. bindE (wyr8 d (p + 8)) (\<lambda>y. Inr (wymix (x XOR key) (y XOR seed))))"

function loop48 :: "byte list \<Rightarrow> int \<Rightarrow> int \<Rightarrow> int \<times> int \<times> int \<Rightarrow> (int \<times> int \<times> int \<times> int \<times> int) res" where
  "loop48 d p i st =
     bindE (lane d p P1 (fst st)) (\<lambda>seed.
     bindE (lane d (p + 16) P2 (fst (snd st))) (\<lambda>see1.
     bindE (lane d (p + 32) P3 (snd (snd st))) (\<lambda>see2.
       if i - 48 > 48 then loop48 d (p + 48) (i - 48) (seed, see1, see2)
       else Inr (p + 48, i - 48, seed, see1, see2))))"
  by pat_completeness auto
termination by (relation "measure (\<lambda>(_, _, i, _). nat i)") auto

declare loop48.simps [simp del]

function loop16 :: "byte list \<Rightarrow> int \<Rightarrow> int \<Rightarrow> int \<Rightarrow> (int \<times> int \<times> int) res" where
  "loop16 d p i seed =
     (if i > 16 then bindE (lane d p P1 seed) (\<lambda>seed. loop16 d (p + 16) (i - 16) seed) else Inr (p, i, seed))"
  by pat_completeness auto
termination by (relation "measure (\<lambda>(_, _, i, _). nat i)") auto

declare loop16.simps [simp del]

definition shortBlocks :: "byte list \<Rightarrow> (int \<times> int) res" where
  "shortBlocks d = (let len = int (length d); half = push_bit 2 (drop_bit 3 len) in
     if len \<ge> 4 then
       bindE (wyr4 d 0) (\<lambda>a1. bindE (wyr4 d half) (\<lambda>a2.
       bindE (wyr4 d (len - 4)) (\<lambda>b1. bindE (wyr4 d (len - 4 - half)) (\<lambda>b2.
         Inr (push_bit 32 a1 OR a2, push_bit 32 b1 OR b2)))))
     else if len > 0 then Inr (wyr3 d 0 len, 0)
     else Inr (0, 0))"

definition longSeed :: "byte list \<Rightarrow> int \<Rightarrow> (int \<times> int \<times> int) res" where
  "longSeed d seed =
     (if int (length d) > 48 then
        bindE (loop48 d 0 (int (length d)) (seed, seed, seed)) (\<lambda>(p, i, s, s1, s2). Inr (p, i, s XOR s1 XOR s2))
      else Inr (0, int (length d), seed))"

definition wyhash64 :: "byte list \<Rightarrow> int \<Rightarrow> int res" where
  "wyhash64 d seed0 = (let len = int (length d); seed = (seed0 XOR P0) AND MASK64 in
     if len \<le> 16 then
       bindE (shortBlocks d) (\<lambda>(a, b). Inr (wymix (P1 XOR len) (wymix (a XOR P1) (b XOR seed))))
     else
       bindE (longSeed d seed) (\<lambda>(p, i, seed).
       bindE (loop16 d p i seed) (\<lambda>(p, i, seed).
       bindE (wyr8 d (p + i - 16)) (\<lambda>a. bindE (wyr8 d (p + i - 8)) (\<lambda>b.
         Inr (wymix (P1 XOR len) (wymix (a XOR P1) (b XOR seed))))))))"

definition lengthPrefix :: "nat \<Rightarrow> byte list" where
  "lengthPrefix n = map (\<lambda>i. word_of_nat (n div 256 ^ i mod 256)) [0..<8]"

text \<open>\<^verbatim>\<open>lengthPrefixedStream\<close> fills a buffer of the exact total size from left to right.\<close>

definition lengthPrefixedStream :: "byte list list \<Rightarrow> byte list" where
  "lengthPrefixedStream chunks = concat (map (\<lambda>c. lengthPrefix (length c) @ c) chunks)"

definition HEX_DIGITS :: string where
  "HEX_DIGITS = ''0123456789abcdef''"

text \<open>\<^verbatim>\<open>toString(16)\<close> of a non-negative \<^verbatim>\<open>BigInt\<close>, and \<^verbatim>\<open>padStart\<close>.\<close>

function toHex :: "int \<Rightarrow> string" where
  "toHex n = (if n < 16 then [HEX_DIGITS ! nat n] else toHex (n div 16) @ [HEX_DIGITS ! nat (n mod 16)])"
  by pat_completeness auto
termination by (relation "measure nat") auto

declare toHex.simps [simp del]

definition padStart :: "nat \<Rightarrow> char \<Rightarrow> string \<Rightarrow> string" where
  "padStart n c s = replicate (n - length s) c @ s"

definition hex16 :: "int \<Rightarrow> string" where
  "hex16 v = padStart 16 (CHR ''0'') (toHex (v AND MASK64))"

definition BUILD_ID_SEED :: int where "BUILD_ID_SEED = 0xb11d1d00"
definition SOURCE_HASH_SEED :: int where "SOURCE_HASH_SEED = 0xc0de5eed"

end
