(* ===== verification/WyhashSound.thy ===== *)
theory WyhashSound
  imports Wyhash
begin

unbundle bit_operations_syntax

text \<open>
  The BigInt code of \<^verbatim>\<open>library/wyhash.ts\<close> against a reference on 64-bit words that consumes the
  input as a list: the masks, the index arithmetic and the three loops compute the same value, no
  read is out of range, the framing can be parsed back, and the rendering is a bijection between
  64-bit values and sixteen hexadecimal digits.
\<close>

section \<open>Reads\<close>

text \<open>The little-endian value of a byte list.\<close>

definition le :: "byte list \<Rightarrow> int" where
  "le ds = horner_sum uint 256 ds"

lemma le_simps [simp]: "le [] = 0" "le (x # xs) = uint x + 256 * le xs"
  by (simp_all add: le_def)

lemma le_append: "le (xs @ ys) = le xs + 256 ^ length xs * le ys"
  by (simp add: le_def horner_sum_append)

lemma byte_range: "0 \<le> uint (x :: byte)" "uint (x :: byte) < 256"
  using uint_lt2p [of x] by simp_all

lemma le_range: "0 \<le> le xs \<and> le xs < 256 ^ length xs"
proof (induction xs)
  case (Cons x xs)
  then have "256 * le xs + 256 \<le> 256 * 256 ^ length xs" by linarith
  with Cons show ?case using byte_range [of x] by (simp only: le_simps length_Cons power_Suc) linarith
qed simp

lemma or_shift: "0 \<le> x \<Longrightarrow> x < 2 ^ n \<Longrightarrow> push_bit n v OR x = v * 2 ^ n + (x :: int)"
  using concat_bit_eq [of n x v]
  by (simp add: concat_bit_def take_bit_int_eq_self or.commute push_bit_eq_mult)

lemma or_shift': "0 \<le> x \<Longrightarrow> x < 2 ^ n \<Longrightarrow> x OR push_bit n v = v * 2 ^ n + (x :: int)"
  using or_shift by (simp add: or.commute)

lemma shl32_small: "0 \<le> x \<Longrightarrow> x * 2 ^ k < 2 ^ 31 \<Longrightarrow> shl32 x k = push_bit k x"
  by (simp add: shl32_def push_bit_eq_mult signed_take_bit_int_eq_self_iff order_trans [of _ 0])

lemma at_in_range [simp]: "j < length d \<Longrightarrow> numAt d (int j) = uint (d ! j)" "j < length d \<Longrightarrow> bigAt d (int j) = Inr (uint (d ! j))"
  by (simp_all add: numAt_def bigAt_def)

lemma wyr8Loop_le:
  "j + n \<le> length d \<Longrightarrow> wyr8Loop d (int j) n v = Inr (v * 256 ^ n + le (take n (drop j d)))"
proof (induction n arbitrary: v)
  case (Suc n)
  have at: "bigAt d (int j + int n) = Inr (uint (d ! (j + n)))"
    using Suc.prems at_in_range(2) [of "j + n" d] by simp
  have "take (Suc n) (drop j d) = take n (drop j d) @ [d ! (j + n)]"
    using Suc.prems by (simp add: take_Suc_conv_app_nth)
  then have "le (take (Suc n) (drop j d)) = le (take n (drop j d)) + 256 ^ n * uint (d ! (j + n))"
    using Suc.prems by (simp add: le_append)
  then show ?case
    using Suc or_shift [of "uint (d ! (j + n))" 8 v] byte_range [of "d ! (j + n)"] by (simp add: at algebra_simps)
qed simp

lemma wyr8_le: "j + 8 \<le> length d \<Longrightarrow> wyr8 d (int j) = Inr (le (take 8 (drop j d)))"
  by (simp add: wyr8_def wyr8Loop_le)

lemma take4: "j + 4 \<le> length d \<Longrightarrow> take 4 (drop j d) = [d ! j, d ! (j + 1), d ! (j + 2), d ! (j + 3)]"
  by (rule nth_equalityI) (auto simp: less_Suc_eq numeral_eq_Suc)

lemma shl32_byte: "shl32 (uint (b :: byte)) 8 = push_bit 8 (uint b)" "shl32 (uint b) 16 = push_bit 16 (uint b)"
proof -
  have "uint b * 2 ^ 8 < 2 ^ 31" "uint b * 2 ^ 16 < 2 ^ 31" using byte_range [of b] by simp_all
  then show "shl32 (uint b) 8 = push_bit 8 (uint b)" "shl32 (uint b) 16 = push_bit 16 (uint b)"
    by (simp_all only: shl32_small byte_range)
qed

lemma or_bytes3:
  assumes "0 \<le> x" "x < 256" "0 \<le> y" "y < 256"
  shows "(x OR push_bit 8 y) OR push_bit 16 z = x + 256 * (y + 256 * (z :: int))"
proof -
  have "x OR push_bit 8 y = 256 * y + x" using or_shift' [of x 8 y] assms by simp
  moreover have "(256 * y + x) OR push_bit 16 z = 65536 * z + (256 * y + x)"
    using or_shift' [of "256 * y + x" 16 z] assms by simp
  ultimately show ?thesis by simp
qed

lemma wyr4_le:
  assumes "j + 4 \<le> length d"
  shows "wyr4 d (int j) = Inr (le (take 4 (drop j d)))"
proof -
  have n: "numAt d (int j + 1) = uint (d ! (j + 1))" "numAt d (int j + 2) = uint (d ! (j + 2))"
      "bigAt d (int j + 3) = Inr (uint (d ! (j + 3)))"
    using assms at_in_range [of "j + 1" d] at_in_range [of "j + 2" d] at_in_range [of "j + 3" d] by (simp_all add: add.commute)
  let ?x = "uint (d ! j) + 256 * (uint (d ! (j + 1)) + 256 * uint (d ! (j + 2)))"
  have "0 \<le> ?x" "?x < 2 ^ 24"
    using byte_range [of "d ! j"] byte_range [of "d ! (j + 1)"] byte_range [of "d ! (j + 2)"] by simp_all
  from or_shift' [OF this] have "?x OR push_bit 24 (uint (d ! (j + 3))) = ?x + 16777216 * uint (d ! (j + 3))" by simp
  then show ?thesis
    using assms by (simp add: wyr4_def take4 n shl32_byte or_bytes3 or.assoc [symmetric] byte_range)
qed

section \<open>A reference on 64-bit words\<close>

definition wymixW :: "64 word \<Rightarrow> 64 word \<Rightarrow> 64 word" where
  "wymixW a b = (let r = ucast a * ucast b :: 128 word in ucast r XOR ucast (drop_bit 64 r))"

definition rdW :: "nat \<Rightarrow> byte list \<Rightarrow> 64 word" where
  "rdW n ds = word_of_int (le (take n ds))"

abbreviation p0 :: "64 word" where "p0 \<equiv> word_of_int P0"
abbreviation p1 :: "64 word" where "p1 \<equiv> word_of_int P1"
abbreviation p2 :: "64 word" where "p2 \<equiv> word_of_int P2"
abbreviation p3 :: "64 word" where "p3 \<equiv> word_of_int P3"

definition laneW :: "byte list \<Rightarrow> 64 word \<Rightarrow> 64 word \<Rightarrow> 64 word" where
  "laneW d key seed = wymixW (rdW 8 d XOR key) (rdW 8 (drop 8 d) XOR seed)"

fun rounds48 :: "byte list \<Rightarrow> 64 word \<Rightarrow> 64 word \<Rightarrow> 64 word \<Rightarrow> byte list \<times> 64 word" where
  "rounds48 d s s1 s2 =
     (if length d > 48 then rounds48 (drop 48 d) (laneW d p1 s) (laneW (drop 16 d) p2 s1) (laneW (drop 32 d) p3 s2)
      else (d, s XOR s1 XOR s2))"

fun rounds16 :: "byte list \<Rightarrow> 64 word \<Rightarrow> 64 word" where
  "rounds16 d s = (if length d > 16 then rounds16 (drop 16 d) (laneW d p1 s) else s)"

declare rounds48.simps [simp del] rounds16.simps [simp del]

definition shortW :: "byte list \<Rightarrow> 64 word \<times> 64 word" where
  "shortW d = (let n = length d; half = (n div 8) * 4 in
     if n = 0 then (0, 0)
     else if n < 4 then (word_of_int (le [d ! (n - 1), d ! (n div 2), d ! 0]), 0)
     else (word_of_int (le (take 4 (drop half d) @ take 4 d)),
           word_of_int (le (take 4 (drop (n - 4 - half) d) @ drop (n - 4) d))))"

definition longW :: "byte list \<Rightarrow> 64 word \<Rightarrow> 64 word" where
  "longW d s = (case if length d > 48 then rounds48 d s s s else (d, s) of (rest, s') \<Rightarrow> rounds16 rest s')"

definition wyRef :: "byte list \<Rightarrow> 64 word \<Rightarrow> 64 word" where
  "wyRef d seed0 = (let n = length d; s = seed0 XOR p0;
     (a, b) = (if n \<le> 16 then shortW d else (rdW 8 (drop (n - 16) d), rdW 8 (drop (n - 8) d)));
     seed = (if n \<le> 16 then s else longW d s)
   in wymixW (p1 XOR word_of_nat n) (wymixW (a XOR p1) (b XOR seed)))"

lemma xor_word: "word_of_int (a XOR b) = (word_of_int a XOR word_of_int b :: 64 word)"
  using of_int_xor_eq [where 'a = "64 word"] by simp

lemma mask64: "x AND MASK64 = uint (word_of_int x :: 64 word)"
proof -
  have "x AND MASK64 = take_bit 64 x"
    unfolding MASK64_def by (simp add: take_bit_eq_mask mask_eq_exp_minus_1)
  then show ?thesis by (simp add: unsigned_of_int)
qed

lemma wymix_word: "wymix x y = uint (wymixW (word_of_int x) (word_of_int y))"
proof -
  let ?X = "word_of_int x :: 64 word" and ?Y = "word_of_int y :: 64 word"
  have "uint ?X * uint ?Y < 2 ^ 64 * 2 ^ 64"
    using uint_lt2p [of ?X] uint_lt2p [of ?Y] by (intro mult_strict_mono) simp_all
  then have prod: "uint (ucast ?X * ucast ?Y :: 128 word) = uint ?X * uint ?Y"
    by (simp add: uint_word_ariths uint_up_ucast is_up)
  have word: "ucast w = (word_of_int (uint w) :: 64 word)" for w :: "128 word"
    by (simp add: word_of_int_uint unsigned_ucast_eq)
  have drop: "uint (drop_bit 64 w) = drop_bit 64 (uint w)" for w :: "128 word"
    using take_bit_int_eq_self [of "uint w" 128] uint_lt2p [of w] by (simp add: unsigned_drop_bit_eq)
  have "ucast (ucast ?X * ucast ?Y :: 128 word) = (word_of_int (uint ?X * uint ?Y) :: 64 word)"
      "ucast (drop_bit 64 (ucast ?X * ucast ?Y :: 128 word)) = (word_of_int (drop_bit 64 (uint ?X * uint ?Y)) :: 64 word)"
    unfolding word drop by (simp_all only: prod)
  then show ?thesis
    unfolding wymix_def wymixW_def Let_def mask64 by (simp add: xor_word)
qed

section \<open>The loops\<close>

lemma lane_word:
  assumes "j + 16 \<le> length d" "word_of_int seed = s" "word_of_int key = k"
  shows "lane d (int j) key seed = Inr (uint (laneW (drop j d) k s))"
proof -
  have "wyr8 d (int j) = Inr (le (take 8 (drop j d)))" "wyr8 d (int j + 8) = Inr (le (take 8 (drop (j + 8) d)))"
    using wyr8_le [of j d] wyr8_le [of "j + 8" d] assms(1) by (simp_all add: add.commute)
  then show ?thesis
    using assms(2,3) by (simp add: lane_def wymix_word laneW_def rdW_def xor_word add.commute)
qed

lemma loop48_word:
  assumes "j + 48 < length d"
    and "word_of_int x = s" "word_of_int x1 = s1" "word_of_int x2 = s2"
  shows "\<exists>j' y y1 y2. loop48 d (int j) (int (length d - j)) (x, x1, x2) =
      Inr (int j', int (length d - j'), y, y1, y2) \<and> j' \<le> length d \<and>
    rounds48 (drop j d) s s1 s2 = (drop j' d, word_of_int (y XOR y1 XOR y2)) \<and> 0 < length d - j' \<and> j' \<noteq> 0"
  using assms
proof (induction "length d - j" arbitrary: j x x1 x2 s s1 s2 rule: less_induct)
  case less
  have lanes: "lane d (int j) P1 x = Inr (uint (laneW (drop j d) p1 s))"
      "lane d (int j + 16) P2 x1 = Inr (uint (laneW (drop 16 (drop j d)) p2 s1))"
      "lane d (int j + 32) P3 x2 = Inr (uint (laneW (drop 32 (drop j d)) p3 s2))"
    using lane_word [of j d x s P1 p1] lane_word [of "j + 16" d x1 s1 P2 p2] lane_word [of "j + 32" d x2 s2 P3 p3]
      less.prems by (simp_all add: add.commute)
  let ?y = "uint (laneW (drop j d) p1 s)" and ?y1 = "uint (laneW (drop 16 (drop j d)) p2 s1)"
    and ?y2 = "uint (laneW (drop 32 (drop j d)) p3 s2)"
  have left: "int (length d - j) - 48 = int (length d - (j + 48))" "int j + 48 = int (j + 48)" using less.prems by simp_all
  have step: "rounds48 (drop j d) s s1 s2 =
      rounds48 (drop (j + 48) d) (word_of_int ?y) (word_of_int ?y1) (word_of_int ?y2)"
    using rounds48.simps [of "drop j d" s s1 s2] less.prems(1) by (simp add: add.commute less_diff_conv)
  show ?case
  proof (cases "length d - (j + 48) > 48")
    case True
    then have more: "int (length d - (j + 48)) > 48" by simp
    have "loop48 d (int j) (int (length d - j)) (x, x1, x2) =
        loop48 d (int (j + 48)) (int (length d - (j + 48))) (?y, ?y1, ?y2)"
      by (subst loop48.simps) (simp only: bindE_simps fst_conv snd_conv lanes left if_True more)
    then show ?thesis
      using less.hyps [of "j + 48" ?y _ ?y1 _ ?y2, OF _ _ refl refl refl] less.prems True unfolding step by auto
  next
    case False
    then have less: "\<not> int (length d - (j + 48)) > 48" by simp
    from False have "rounds48 (drop j d) s s1 s2 = (drop (j + 48) d, word_of_int (?y XOR ?y1 XOR ?y2))"
      unfolding step by (subst rounds48.simps) (simp add: xor_word)
    moreover have "loop48 d (int j) (int (length d - j)) (x, x1, x2) = Inr (int (j + 48), int (length d - (j + 48)), ?y, ?y1, ?y2)"
      by (subst loop48.simps) (simp only: bindE_simps fst_conv snd_conv lanes left if_False less)
    ultimately show ?thesis using less.prems by (intro exI [of _ "j + 48"]) auto
  qed
qed

lemma loop16_word:
  assumes "j \<le> length d" "word_of_int x = s"
  shows "\<exists>j' y. loop16 d (int j) (int (length d - j)) x = Inr (int j', int (length d - j'), y) \<and> j' \<le> length d \<and>
    word_of_int y = rounds16 (drop j d) s"
  using assms
proof (induction "length d - j" arbitrary: j x s rule: less_induct)
  case less
  show ?case
  proof (cases "length d - j > 16")
    case True
    have "int (length d - j) - 16 = int (length d - (j + 16))" "int j + 16 = int (j + 16)" using True by simp_all
    moreover have more: "int (length d - j) > 16" using True by simp
    moreover have "lane d (int j) P1 x = Inr (uint (laneW (drop j d) p1 s))"
      using lane_word [of j d x s P1 p1] True less.prems by simp
    ultimately have "loop16 d (int j) (int (length d - j)) x =
        loop16 d (int (j + 16)) (int (length d - (j + 16))) (uint (laneW (drop j d) p1 s))"
      by (subst loop16.simps) (simp only: bindE_simps if_True more)
    moreover have "rounds16 (drop j d) s = rounds16 (drop (j + 16) d) (laneW (drop j d) p1 s)"
      using True rounds16.simps [of "drop j d" s] by (simp add: add.commute)
    ultimately show ?thesis
      using less.hyps [of "j + 16" "uint (laneW (drop j d) p1 s)", OF _ _ refl] True by auto
  next
    case False
    then show ?thesis
      using less.prems unfolding loop16.simps [of d "int j"] rounds16.simps [of "drop j d"] by auto
  qed
qed

section \<open>Blocks of at most sixteen bytes\<close>

lemma halfway: "push_bit 2 (drop_bit 3 (int n)) = int (n div 8 * 4)"
  by (simp add: push_bit_eq_mult drop_bit_eq_div zdiv_int)

lemma le_concat32: "push_bit 32 (le ys) OR le xs = le (xs @ ys)" if "length xs = 4"
  using or_shift [of "le xs" 32 "le ys"] le_range [of xs] that by (simp add: le_append mult.commute)

lemma shortBlocks_word:
  assumes "length d \<le> 16"
  shows "\<exists>a b. shortBlocks d = Inr (a, b) \<and> shortW d = (word_of_int a, word_of_int b)"
proof -
  let ?n = "length d" and ?h = "length d div 8 * 4"
  consider "?n = 0" | "0 < ?n" "?n < 4" | "4 \<le> ?n" by linarith
  then show ?thesis
  proof cases
    case 2
    then have "?n div 2 < ?n" "?n - 1 < ?n" by auto
    note at_in_range(1) [OF this(1)] at_in_range(1) [OF this(2)]
    moreover have "int ?n - 1 = int (?n - 1)" "drop_bit 1 (int ?n) = int (?n div 2)"
      using 2 by (cases d; simp add: drop_bit_eq_div zdiv_int)+
    ultimately have reads: "numAt d (drop_bit 1 (int ?n)) = uint (d ! (?n div 2))" "numAt d (int ?n - 1) = uint (d ! (?n - 1))"
      by (simp_all only:)
    have first: "numAt d 0 = uint (d ! 0)" using 2 at_in_range(1) [of 0 d] by simp
    have "wyr3 d 0 (int ?n) = le [d ! (?n - 1), d ! (?n div 2), d ! 0]"
      using or_bytes3 [of "uint (d ! (?n - 1))" "uint (d ! (?n div 2))" "uint (d ! 0)"] byte_range
      unfolding wyr3_def add_0 reads first shl32_byte by (simp add: ac_simps)
    then show ?thesis using 2 by (simp add: shortBlocks_def shortW_def Let_def)
  next
    case 3
    have "8 * (?n div 8) \<le> ?n" by simp
    then have fit: "?h + 4 \<le> ?n" "?n - 4 - ?h + 4 \<le> ?n" "?n - 4 + 4 \<le> ?n"
      using 3 by (cases "?n div 8 = 0"; linarith)+
    have ints: "int ?n - 4 = int (?n - 4)" "int (?n - 4) - int ?h = int (?n - 4 - ?h)" using 3 fit by simp_all
    have "shortBlocks d = Inr (push_bit 32 (le (take 4 d)) OR le (take 4 (drop ?h d)),
        push_bit 32 (le (drop (?n - 4) d)) OR le (take 4 (drop (?n - 4 - ?h) d)))"
      using 3 wyr4_le [of 0 d] wyr4_le [OF fit(1)] wyr4_le [OF fit(2)] wyr4_le [OF fit(3)]
      unfolding shortBlocks_def Let_def halfway ints by simp
    then show ?thesis
      using 3 fit by (simp add: le_concat32 shortW_def Let_def)
  qed (simp add: shortBlocks_def shortW_def Let_def)
qed

section \<open>The whole hash\<close>

lemma wyr8_word: "j + 8 \<le> length d \<Longrightarrow> \<exists>x. wyr8 d (int j) = Inr x \<and> word_of_int x = rdW 8 (drop j d)"
  by (simp add: wyr8_le rdW_def)

lemma longSeed_word:
  assumes "16 < length d" "word_of_int x = s"
  shows "\<exists>j y. longSeed d x = Inr (int j, int (length d - j), y) \<and> j \<le> length d \<and>
    (if length d > 48 then rounds48 d s s s else (d, s)) = (drop j d, word_of_int y)"
proof (cases "length d > 48")
  case True
  then obtain j y y1 y2 where "loop48 d 0 (int (length d)) (x, x, x) = Inr (int j, int (length d - j), y, y1, y2)"
      "j \<le> length d" "rounds48 d s s s = (drop j d, word_of_int (y XOR y1 XOR y2))"
    using loop48_word [of 0 d x s x s x s] assms(2) by auto
  then show ?thesis using True by (auto simp: longSeed_def xor.assoc)
next
  case False
  then show ?thesis using assms by (auto simp: longSeed_def intro!: exI [of _ 0])
qed

lemma wyhash64_word: "wyhash64 d seed = Inr (uint (wyRef d (word_of_int seed)))"
proof -
  let ?s = "(seed XOR P0) AND MASK64"
  have seed: "word_of_int ?s = (word_of_int seed XOR p0 :: 64 word)" by (simp add: mask64 xor_word)
  show ?thesis
  proof (cases "length d \<le> 16")
    case True
    from shortBlocks_word [OF True] obtain a b where "shortBlocks d = Inr (a, b)" "shortW d = (word_of_int a, word_of_int b)"
      by blast
    then show ?thesis
      using True by (simp add: wyhash64_def wyRef_def Let_def wymix_word xor_word seed)
  next
    case False
    then obtain j x where long: "longSeed d ?s = Inr (int j, int (length d - j), x)" "j \<le> length d"
        "(if length d > 48 then rounds48 d (word_of_int seed XOR p0) (word_of_int seed XOR p0) (word_of_int seed XOR p0)
          else (d, word_of_int seed XOR p0)) = (drop j d, word_of_int x)"
      using longSeed_word [OF _ seed, of d] by auto
    obtain j' y where l16: "loop16 d (int j) (int (length d - j)) x = Inr (int j', int (length d - j'), y)" "j' \<le> length d"
        "word_of_int y = rounds16 (drop j d) (word_of_int x)"
      using loop16_word [OF long(2) refl] by blast
    have idx: "int j' + int (length d - j') - 16 = int (length d - 16)" "int j' + int (length d - j') - 8 = int (length d - 8)"
      using False l16(2) by simp_all
    obtain a b where "wyr8 d (int (length d - 16)) = Inr a" "word_of_int a = rdW 8 (drop (length d - 16) d)"
        "wyr8 d (int (length d - 8)) = Inr b" "word_of_int b = rdW 8 (drop (length d - 8) d)"
      using False wyr8_word [of "length d - 16" d] wyr8_word [of "length d - 8" d] by auto
    then show ?thesis
      using False long l16
      by (simp add: wyhash64_def wyRef_def longW_def Let_def idx wymix_word xor_word split del: if_split)
  qed
qed

section \<open>Framing\<close>

text \<open>The parser of the framed stream: eight length bytes, that many payload bytes, and so on.\<close>

function unframe :: "byte list \<Rightarrow> byte list list option" where
  "unframe s =
     (if s = [] then Some []
      else if length s < 8 \<or> length s - 8 < nat (le (take 8 s)) then None
      else map_option (\<lambda>cs. take (nat (le (take 8 s))) (drop 8 s) # cs) (unframe (drop (8 + nat (le (take 8 s))) s)))"
  by pat_completeness auto
termination by (relation "measure length") auto

declare unframe.simps [simp del]

lemma le_digits: "le (map (\<lambda>i. word_of_nat (n div 256 ^ i mod 256)) [0..<k]) = int (n mod 256 ^ k)"
proof (induction k)
  case (Suc k)
  have "n mod 256 ^ Suc k = 256 ^ k * (n div 256 ^ k mod 256) + n mod 256 ^ k"
    by (metis mod_mult2_eq power_Suc2)
  moreover have "uint (word_of_nat (n div 256 ^ k mod 256) :: byte) = int (n div 256 ^ k mod 256)"
    by (simp add: unsigned_of_nat take_bit_eq_mod zmod_int)
  ultimately show ?case using Suc by (simp add: le_append)
qed simp

lemma le_lengthPrefix: "n < 2 ^ 64 \<Longrightarrow> le (lengthPrefix n) = int n"
  using le_digits [of n 8] by (simp add: lengthPrefix_def)

lemma unframe_stream:
  "(\<forall>c\<in>set chunks. length c < 2 ^ 64) \<Longrightarrow> unframe (lengthPrefixedStream chunks) = Some chunks"
proof (induction chunks)
  case Nil
  show ?case by (simp add: lengthPrefixedStream_def unframe.simps)
next
  case (Cons c cs)
  let ?s = "lengthPrefixedStream (c # cs)"
  have s: "?s = lengthPrefix (length c) @ c @ lengthPrefixedStream cs" by (simp add: lengthPrefixedStream_def)
  have len: "length (lengthPrefix (length c)) = 8" by (simp add: lengthPrefix_def)
  then have n: "nat (le (take 8 ?s)) = length c" "drop 8 ?s = c @ lengthPrefixedStream cs" "8 \<le> length ?s" "?s \<noteq> []"
    using le_lengthPrefix [of "length c"] Cons.prems by (auto simp: s)
  have rest: "drop (8 + length c) ?s = lengthPrefixedStream cs" by (simp add: s len)
  show ?case
    using Cons by (subst unframe.simps) (simp add: n rest, simp add: s len)
qed

section \<open>Rendering\<close>

definition hexVal :: "char \<Rightarrow> int" where
  "hexVal c = (if 97 \<le> (of_char c :: int) then of_char c - 87 else of_char c - 48)"

definition parseHex :: "string \<Rightarrow> int" where
  "parseHex s = foldl (\<lambda>v c. 16 * v + hexVal c) 0 s"

lemma hexVal_digit: "0 \<le> n \<Longrightarrow> n < 16 \<Longrightarrow> hexVal (HEX_DIGITS ! nat n) = n \<and> HEX_DIGITS ! nat n \<in> set HEX_DIGITS"
proof -
  assume "0 \<le> n" "n < 16"
  then have "nat n \<in> set [0..<16]" by auto
  moreover have "list_all (\<lambda>i. hexVal (HEX_DIGITS ! i) = int i \<and> HEX_DIGITS ! i \<in> set HEX_DIGITS) [0..<16]"
    by code_simp
  ultimately show ?thesis using \<open>0 \<le> n\<close> by (auto simp: list_all_iff)
qed

lemma toHex_digits:
  "0 \<le> n \<Longrightarrow> n < 16 ^ Suc k \<Longrightarrow>
   parseHex (toHex n) = n \<and> set (toHex n) \<subseteq> set HEX_DIGITS \<and> length (toHex n) \<le> Suc k"
proof (induction n arbitrary: k rule: toHex.induct)
  case (1 n)
  show ?case
  proof (cases "n < 16")
    case True
    then show ?thesis using "1.prems" hexVal_digit [of n] by (subst (1 2 3) toHex.simps) (simp add: parseHex_def)
  next
    case False
    with "1.prems" obtain k' where k: "k = Suc k'" by (cases k) auto
    have "n div 16 < 16 ^ Suc k'" using "1.prems"(2) unfolding k by (simp add: div_less_iff_less_mult)
    then have "parseHex (toHex (n div 16)) = n div 16 \<and> set (toHex (n div 16)) \<subseteq> set HEX_DIGITS \<and>
        length (toHex (n div 16)) \<le> Suc k'"
      using "1.IH" [of k'] False "1.prems"(1) by simp
    moreover have "toHex n = toHex (n div 16) @ [HEX_DIGITS ! nat (n mod 16)]"
      using False by (subst toHex.simps) simp
    ultimately show ?thesis using hexVal_digit [of "n mod 16"] by (simp add: parseHex_def k)
  qed
qed

lemma parseHex_padStart: "parseHex (padStart n (CHR ''0'') s) = parseHex s"
proof -
  have "foldl (\<lambda>v c. 16 * v + hexVal c) 0 (replicate k (CHR ''0'')) = 0" for k
    by (induction k) (simp_all add: hexVal_def)
  then show ?thesis by (simp add: parseHex_def padStart_def)
qed

lemma hex16_parse: "parseHex (hex16 v) = v mod 2 ^ 64 \<and> set (hex16 v) \<subseteq> set HEX_DIGITS \<and> length (hex16 v) = 16"
proof -
  have v: "v AND MASK64 = v mod 2 ^ 64" by (simp add: mask64 unsigned_of_int take_bit_eq_mod)
  have "CHR ''0'' \<in> set HEX_DIGITS" by (simp add: HEX_DIGITS_def)
  then show ?thesis
    using toHex_digits [of "v mod 2 ^ 64" 15] parseHex_padStart [of 16 "toHex (v mod 2 ^ 64)"]
    unfolding hex16_def v by (auto simp: padStart_def)
qed

section \<open>Properties\<close>

text \<open>C23. The BigInt code computes Wyhash: for every input and seed it returns, without a
  \<^verbatim>\<open>TypeError\<close>, the value of the word-level reference, and that value is a 64-bit unsigned
  integer.\<close>

theorem wyhash64_reference:
  "wyhash64 d seed = Inr (uint (wyRef d (word_of_int seed))) \<and>
   uint (wyRef d (word_of_int seed)) \<in> {0..<2 ^ 64}"
  using wyhash64_word uint_lt2p [of "wyRef d (word_of_int seed)"] by simp

text \<open>C24. Framing is unambiguous: a parser recovers the chunks from the stream, as long as each
  length fits the 64-bit prefix.\<close>

theorem lengthPrefixedStream_roundtrip:
  assumes "\<forall>c\<in>set chunks. length c < 2 ^ 64"
  shows "unframe (lengthPrefixedStream chunks) = Some chunks"
  using assms by (rule unframe_stream)

theorem lengthPrefixedStream_roundtrip_witness:
  "unframe (lengthPrefixedStream [[1, 2, 3], [], [255]]) = Some [[1, 2, 3], [], [255]] \<and>
   lengthPrefixedStream [[1, 2, 3], [], [255]] \<noteq> lengthPrefixedStream [[1, 2], [3], [255]]"
  using lengthPrefixedStream_roundtrip [of "[[1, 2, 3], [], [255]]"]
  by (simp add: lengthPrefixedStream_def lengthPrefix_def upt_rec)

text \<open>C25. Hash rendering: sixteen lowercase hexadecimal digits, from which the value modulo
  \<open>2\<^sup>6\<^sup>4\<close> is read back.\<close>

theorem hex16_roundtrip:
  "length (hex16 v) = 16 \<and> set (hex16 v) \<subseteq> set ''0123456789abcdef'' \<and> parseHex (hex16 v) = v mod 2 ^ 64"
  using hex16_parse [of v] unfolding HEX_DIGITS_def by blast

definition ascii :: "string \<Rightarrow> byte list" where
  "ascii s = map (\<lambda>c. word_of_nat (of_char c)) s"

lemma length_ascii: "length (ascii s) = length s"
  by (simp add: ascii_def)

text \<open>The published vectors of the hash, as the repository's tests list them: the empty string
  and short and long ASCII texts.\<close>

theorem wyhash64_vectors:
  "map_sum id hex16 (wyhash64 (ascii []) 0) = Inr ''42bc986dc5eec4d3'' \<and>
   map_sum id hex16 (wyhash64 (ascii ''a'') 1) = Inr ''84508dc903c31551'' \<and>
   map_sum id hex16 (wyhash64 (ascii ''message digest'') 3) = Inr ''6e2ff3298208a67c'' \<and>
   map_sum id hex16 (wyhash64 (ascii ''abcdefghijklmnopqrstuvwxyz'') 4) = Inr ''9a64e42e897195b9'' \<and>
   map_sum id hex16 (wyhash64 (ascii ''12345678901234567890123456789012345678901234567890123456789012345678901234567890'') 6) =
     Inr ''7c1ccf6bba30f5a5''"
  by code_simp

end
