(* ===== verification/Identity.thy ===== *)
theory Identity
  imports WyhashSound "HOL-Library.List_Lexorder" "HOL-Library.Product_Lexorder" "HOL-Library.Multiset"
begin

text \<open>
  The identity of a library artifact, \<^verbatim>\<open>library/sidecar.ts\<close>: canonical module paths, the sorted
  module graph and the two hashes \<^verbatim>\<open>build_id\<close> and \<^verbatim>\<open>source_hash\<close>. The functions of
  \<^verbatim>\<open>node:path\<close> depend on the host and are arguments (\<open>relative\<close>, \<open>isAbsolute\<close>, the separator), as
  is the text encoder \<open>encode\<close>.
\<close>

section \<open>Canonical paths and the module graph\<close>

text \<open>\<^verbatim>\<open>file.split(/[\\/]/).pop()\<close>: what follows the last slash or backslash.\<close>

definition baseName :: "string \<Rightarrow> string" where
  "baseName file = rev (takeWhile (\<lambda>c. c \<noteq> CHR ''/'' \<and> c \<noteq> CHR 0x5C) (rev file))"

definition canonicalPath ::
    "(string \<Rightarrow> string \<Rightarrow> string) \<Rightarrow> (string \<Rightarrow> bool) \<Rightarrow> char \<Rightarrow> string \<Rightarrow> string \<Rightarrow> string" where
  "canonicalPath relative isAbsolute sep rootDir file =
     (let rel = relative rootDir file in
      if rel = [] \<or> startsWith rel ''..'' \<or> isAbsolute rel then ''profile:'' @ baseName file
      else if sep = CHR ''/'' then rel
      else map (\<lambda>c. if c = sep then CHR ''/'' else c) rel)"

record CanonicalModule =
  canonical :: string
  moduleBytes :: "byte list"

text \<open>\<^verbatim>\<open>Buffer.compare\<close>: lexicographic on bytes, a shorter prefix first.\<close>

fun bufferCompare :: "byte list \<Rightarrow> byte list \<Rightarrow> int" where
  "bufferCompare [] [] = 0"
| "bufferCompare [] (y # ys) = -1"
| "bufferCompare (x # xs) [] = 1"
| "bufferCompare (x # xs) (y # ys) = (if x = y then bufferCompare xs ys else if x < y then -1 else 1)"

definition compareModules :: "(string \<Rightarrow> byte list) \<Rightarrow> CanonicalModule \<Rightarrow> CanonicalModule \<Rightarrow> int" where
  "compareModules encode a b =
     (let c = bufferCompare (encode (canonical a)) (encode (canonical b)) in
      if c \<noteq> 0 then c else bufferCompare (moduleBytes a) (moduleBytes b))"

text \<open>\<^verbatim>\<open>Array.prototype.sort\<close> is stable: an element goes before the first one that is greater.\<close>

fun insertBy :: "('a \<Rightarrow> 'a \<Rightarrow> int) \<Rightarrow> 'a \<Rightarrow> 'a list \<Rightarrow> 'a list" where
  "insertBy cmp x [] = [x]"
| "insertBy cmp x (y # ys) = (if cmp x y \<le> 0 then x # y # ys else y # insertBy cmp x ys)"

definition sortBy :: "('a \<Rightarrow> 'a \<Rightarrow> int) \<Rightarrow> 'a list \<Rightarrow> 'a list" where
  "sortBy cmp xs = foldr (insertBy cmp) xs []"

definition canonicalModuleGraph ::
    "(string \<Rightarrow> string) \<Rightarrow> (string \<Rightarrow> byte list) \<Rightarrow> (string, string) jsmap \<Rightarrow> CanonicalModule list" where
  "canonicalModuleGraph canonicalOf encode sources =
     sortBy (compareModules encode)
       (map (\<lambda>(file, text). \<lparr>canonical = canonicalOf file, moduleBytes = encode text\<rparr>) sources)"

section \<open>The two hashes\<close>

definition graphChunks :: "(string \<Rightarrow> byte list) \<Rightarrow> CanonicalModule list \<Rightarrow> byte list list" where
  "graphChunks encode modules = concat (map (\<lambda>m. [encode (canonical m), moduleBytes m]) modules)"

definition buildChunks :: "(string \<Rightarrow> byte list) \<Rightarrow> string \<Rightarrow> byte list \<Rightarrow> CanonicalModule list \<Rightarrow> byte list list" where
  "buildChunks encode compilerVersion profileBytes modules =
     encode compilerVersion # profileBytes # graphChunks encode modules"

record LibraryIdentity =
  buildId :: string
  sourceHash :: string

definition libraryIdentityHashes ::
    "(string \<Rightarrow> byte list) \<Rightarrow> string \<Rightarrow> byte list \<Rightarrow> CanonicalModule list \<Rightarrow> LibraryIdentity res" where
  "libraryIdentityHashes encode compilerVersion profileBytes modules =
     bindE (wyhash64 (lengthPrefixedStream (buildChunks encode compilerVersion profileBytes modules)) BUILD_ID_SEED) (\<lambda>b.
     bindE (wyhash64 (lengthPrefixedStream (graphChunks encode modules)) SOURCE_HASH_SEED) (\<lambda>h.
       Inr \<lparr>buildId = hex16 b, sourceHash = hex16 h\<rparr>))"

section \<open>Sorting\<close>

text \<open>What a comparator promises, and what the sort gives for it: an order on keys decides the
  sorted keys, whatever the order of the input.\<close>

locale comparator =
  fixes cmp :: "'a \<Rightarrow> 'a \<Rightarrow> int" and key :: "'a \<Rightarrow> 'k :: linorder"
  assumes cmp_le: "cmp x y \<le> 0 \<longleftrightarrow> key x \<le> key y"
begin

lemma insertBy_keys: "map key (insertBy cmp x xs) = insort (key x) (map key xs)"
  by (induction xs) (auto simp: cmp_le)

lemma sortBy_keys: "map key (sortBy cmp xs) = sort (map key xs)"
  by (induction xs) (simp_all add: sortBy_def insertBy_keys)

lemma sortBy_stable_keys: "mset (map key xs) = mset (map key ys) \<Longrightarrow> map key (sortBy cmp xs) = map key (sortBy cmp ys)"
  unfolding sortBy_keys by (metis properties_for_sort sorted_sort mset_sort)

lemma mset_sortBy: "mset (sortBy cmp xs) = mset xs"
proof -
  have "mset (insertBy cmp x ys) = add_mset x (mset ys)" for x ys by (induction ys) auto
  then show ?thesis by (induction xs) (simp_all add: sortBy_def)
qed

end

lemma bufferCompare_le: "bufferCompare xs ys \<le> 0 \<longleftrightarrow> xs \<le> ys" "bufferCompare xs ys = 0 \<longleftrightarrow> xs = ys"
  by (induction xs ys rule: bufferCompare.induct) auto

definition moduleKey :: "(string \<Rightarrow> byte list) \<Rightarrow> CanonicalModule \<Rightarrow> byte list \<times> byte list" where
  "moduleKey encode m = (encode (canonical m), moduleBytes m)"

interpretation cm: comparator "compareModules encode" "moduleKey encode" for encode
proof
  fix x y
  show "compareModules encode x y \<le> 0 \<longleftrightarrow> moduleKey encode x \<le> moduleKey encode y"
    using bufferCompare_le [of "encode (canonical x)" "encode (canonical y)"]
    by (auto simp: compareModules_def moduleKey_def Let_def bufferCompare_le less_eq_prod_def)
qed

lemma graphChunks_keys: "graphChunks encode ms = concat (map (\<lambda>(p, b). [p, b]) (map (moduleKey encode) ms))"
  by (simp add: graphChunks_def moduleKey_def comp_def)

lemma concat_pairs_inj:
  "concat (map (\<lambda>(p, b). [p, b]) xs) = concat (map (\<lambda>(p, b). [p, b]) ys) \<Longrightarrow> xs = ys"
proof (induction xs arbitrary: ys)
  case (Cons x xs)
  then show ?case by (cases ys) (auto split: prod.splits)
next
  case Nil
  then show ?case by (cases ys) auto
qed

section \<open>Properties\<close>

text \<open>The identity is a function of the set of modules: it does not depend on the order in which
  the compiler's source map lists them, and it is always a pair of sixteen-digit hashes.\<close>

theorem identity_order_independent:
  assumes "mset sources = mset sources'"
  shows "libraryIdentityHashes encode version profile (canonicalModuleGraph canonicalOf encode sources) =
      libraryIdentityHashes encode version profile (canonicalModuleGraph canonicalOf encode sources') \<and>
    (\<exists>ident. libraryIdentityHashes encode version profile (canonicalModuleGraph canonicalOf encode sources) = Inr ident \<and>
      length (buildId ident) = 16 \<and> length (sourceHash ident) = 16)"
proof -
  let ?f = "\<lambda>(file, text). \<lparr>canonical = canonicalOf file, moduleBytes = encode text\<rparr>"
  have "mset (map (moduleKey encode) (map ?f sources)) = mset (map (moduleKey encode) (map ?f sources'))"
    using assms by (simp add: mset_map [symmetric] del: mset_map) (simp add: assms)
  from cm.sortBy_stable_keys [OF this]
  have "graphChunks encode (canonicalModuleGraph canonicalOf encode sources) =
      graphChunks encode (canonicalModuleGraph canonicalOf encode sources')"
    by (simp add: graphChunks_keys canonicalModuleGraph_def del: map_map)
  then have "libraryIdentityHashes encode version profile (canonicalModuleGraph canonicalOf encode sources) =
      libraryIdentityHashes encode version profile (canonicalModuleGraph canonicalOf encode sources')"
    by (simp add: libraryIdentityHashes_def buildChunks_def)
  moreover have "\<exists>ident. libraryIdentityHashes encode version profile (canonicalModuleGraph canonicalOf encode sources) = Inr ident \<and>
      length (buildId ident) = 16 \<and> length (sourceHash ident) = 16"
    by (simp add: libraryIdentityHashes_def wyhash64_word hex16_parse)
  ultimately show ?thesis by blast
qed

theorem identity_order_independent_witness:
  "libraryIdentityHashes ascii ''1.0.0'' [1] (canonicalModuleGraph id ascii [(''a.ts'', ''let x''), (''b.ts'', ''x'')]) =
   libraryIdentityHashes ascii ''1.0.0'' [1] (canonicalModuleGraph id ascii [(''b.ts'', ''x''), (''a.ts'', ''let x'')])"
  by (rule conjunct1 [OF identity_order_independent]) simp

text \<open>C26. The hashed stream loses nothing: two builds that feed the hash the same bytes have the same
  compiler version, the same profile and the same modules, path by path and byte by byte.\<close>

theorem identity_stream_injective:
  assumes "lengthPrefixedStream (buildChunks encode version profile modules) =
      lengthPrefixedStream (buildChunks encode version' profile' modules')"
    and "\<forall>c\<in>set (buildChunks encode version profile modules @ buildChunks encode version' profile' modules'). length c < 2 ^ 64"
  shows "encode version = encode version' \<and> profile = profile' \<and>
    map (\<lambda>m. (encode (canonical m), moduleBytes m)) modules = map (\<lambda>m. (encode (canonical m), moduleBytes m)) modules'"
proof -
  have "unframe (lengthPrefixedStream (buildChunks encode version profile modules)) = Some (buildChunks encode version profile modules)"
    "unframe (lengthPrefixedStream (buildChunks encode version' profile' modules')) = Some (buildChunks encode version' profile' modules')"
    using assms(2) by (auto intro!: unframe_stream)
  then have "buildChunks encode version profile modules = buildChunks encode version' profile' modules'"
    unfolding assms(1) by (metis option.inject)
  then have "encode version = encode version'" "profile = profile'" "graphChunks encode modules = graphChunks encode modules'"
    by (simp_all add: buildChunks_def)
  moreover have "map (moduleKey encode) modules = map (moduleKey encode) modules'"
    using calculation(3) unfolding graphChunks_keys by (rule concat_pairs_inj)
  ultimately show ?thesis by (simp add: moduleKey_def [abs_def])
qed

definition demoModule :: "byte \<Rightarrow> CanonicalModule" where
  "demoModule b = \<lparr>canonical = ''a.ts'', moduleBytes = [b]\<rparr>"

theorem identity_stream_injective_witness:
  "lengthPrefixedStream (buildChunks ascii ''1'' [7] [demoModule 1]) \<noteq> lengthPrefixedStream (buildChunks ascii ''1'' [7] [demoModule 2])"
proof
  assume same: "lengthPrefixedStream (buildChunks ascii ''1'' [7] [demoModule 1]) =
   lengthPrefixedStream (buildChunks ascii ''1'' [7] [demoModule 2])"
  have "\<forall>c\<in>set (buildChunks ascii ''1'' [7] [demoModule 1] @ buildChunks ascii ''1'' [7] [demoModule 2]). length c < 2 ^ 64"
    by (simp add: buildChunks_def graphChunks_def demoModule_def length_ascii)
  from identity_stream_injective [OF same this] have "(1 :: byte) = 2" by (simp add: demoModule_def)
  then show False by simp
qed

end
