(* ===== verification/ScopeEnv.thy ===== *)
theory ScopeEnv
  imports Json
begin

text \<open>
  The lexical environment of the lowering, \<^verbatim>\<open>frontend/lowering/scope-env.ts\<close>: a stack of function
  contexts with their block scopes, and the resolution that turns an identifier into a local of
  the current function, threading captures through the functions in between.

  Contexts, scopes and locals are mutable objects the code shares and compares by identity, so
  the state is a store: a local, a scope and a context are addresses into three heaps. An
  operation returns a result or the error it throws, and in both cases the state it leaves, which
  is what the \<^verbatim>\<open>finally\<close> blocks of the frame callbacks work on. The hooks of the lowerer appear as
  what this file sees of them: \<^verbatim>\<open>captureThreaded\<close> as a log, \<^verbatim>\<open>refuse\<close> as an error,
  \<^verbatim>\<open>predeclare\<close> as an argument.
\<close>

section \<open>Objects\<close>

datatype symbol = ThisBinding | Sym nat

type_synonym lref = nat
type_synonym sref = nat
type_synonym cref = nat

record IrLocal =
  lcId :: string
  lcName :: string
  lcType :: json
  lcMutable :: bool
  lcBoxed :: bool
  lcTdz :: bool

record IrParam =
  paLocalId :: string
  paName :: string
  paType :: json

type_synonym Scope = "(symbol, lref) jsmap"

record CtlFrame =
  ctlKind :: string
  ctlLabels :: "string list option"

record FnCtx =
  ctxLocals :: "lref list"
  ctxScopes :: "sref list"
  localCounters :: "(string, nat) jsmap"
  captures :: "IrParam list option"
  captureSources :: "string list"
  captureBySymbol :: "(symbol, lref) jsmap"
  selfSymbol :: "symbol option"
  selfType :: "json option"
  isAsync :: "bool option"
  generator :: "json option"
  argumentsLocal :: "lref option"
  returnType :: json
  inferReturn :: "json option"
  ctl :: "CtlFrame list"

record Env =
  localHeap :: "IrLocal list"
  scopeHeap :: "Scope list"
  ctxHeap :: "FnCtx list"
  fnStack :: "cref list"
  threaded :: "(lref \<times> lref) list"

definition localAt :: "Env \<Rightarrow> lref \<Rightarrow> IrLocal" where
  "localAt e l = localHeap e ! l"

definition scopeAt :: "Env \<Rightarrow> sref \<Rightarrow> Scope" where
  "scopeAt e s = scopeHeap e ! s"

definition ctxAt :: "Env \<Rightarrow> cref \<Rightarrow> FnCtx" where
  "ctxAt e c = ctxHeap e ! c"

definition updCtx :: "cref \<Rightarrow> (FnCtx \<Rightarrow> FnCtx) \<Rightarrow> Env \<Rightarrow> Env" where
  "updCtx c f e = e\<lparr>ctxHeap := (ctxHeap e)[c := f (ctxAt e c)]\<rparr>"

section \<open>Computations\<close>

datatype LowerError = InternalCompilerError string | TypeError string | Refused symbol string

type_synonym 'a sx = "Env \<Rightarrow> (LowerError + 'a) \<times> Env"

definition returnX :: "'a \<Rightarrow> 'a sx" where
  "returnX x e = (Inr x, e)"

definition bindX :: "'a sx \<Rightarrow> ('a \<Rightarrow> 'b sx) \<Rightarrow> 'b sx" where
  "bindX m f e = (case m e of (Inl err, e') \<Rightarrow> (Inl err, e') | (Inr x, e') \<Rightarrow> f x e')"

text \<open>\<^verbatim>\<open>try { return m() } finally { cleanup() }\<close>\<close>

definition finallyX :: "'a sx \<Rightarrow> (Env \<Rightarrow> Env) \<Rightarrow> 'a sx" where
  "finallyX m cleanup e = (case m e of (r, e') \<Rightarrow> (r, cleanup e'))"

section \<open>Contexts and frames\<close>

definition newScope :: "(symbol \<times> lref) list \<Rightarrow> sref sx" where
  "newScope bindings e =
     (Inr (length (scopeHeap e)), e\<lparr>scopeHeap := scopeHeap e @ [foldl (\<lambda>m (k, v). jm_set m k v) [] bindings]\<rparr>)"

definition newFnCtx :: "bool \<Rightarrow> symbol option \<Rightarrow> json option \<Rightarrow> json \<Rightarrow> cref sx" where
  "newFnCtx lifted selfSym selfTy returnTy = bindX (newScope []) (\<lambda>s e.
     (Inr (length (ctxHeap e)), e\<lparr>ctxHeap := ctxHeap e @
        [\<lparr>ctxLocals = [], ctxScopes = [s], localCounters = [], captures = (if lifted then Some [] else None),
          captureSources = [], captureBySymbol = [], selfSymbol = selfSym, selfType = selfTy,
          isAsync = None, generator = None, argumentsLocal = None, returnType = returnTy, inferReturn = None, ctl = []\<rparr>]\<rparr>))"

definition current :: "cref sx" where
  "current e = (if fnStack e = [] then (Inl (InternalCompilerError ''lowerer bug: no active function context''), e)
                else (Inr (last (fnStack e)), e))"

definition innermostScope :: "sref sx" where
  "innermostScope = bindX current (\<lambda>c e.
     if ctxScopes (ctxAt e c) = [] then (Inl (TypeError ''undefined scope''), e) else (Inr (last (ctxScopes (ctxAt e c))), e))"

definition pushFrame :: "cref \<Rightarrow> Env \<Rightarrow> Env" where
  "pushFrame c e = e\<lparr>fnStack := fnStack e @ [c]\<rparr>"

definition popFrame :: "Env \<Rightarrow> Env" where
  "popFrame e = e\<lparr>fnStack := butlast (fnStack e)\<rparr>"

definition inFunction :: "cref \<Rightarrow> 'a sx \<Rightarrow> 'a sx" where
  "inFunction c body e = finallyX body popFrame (pushFrame c e)"

definition pushScope :: "cref \<Rightarrow> sref \<Rightarrow> Env \<Rightarrow> Env" where
  "pushScope c s = updCtx c (\<lambda>x. x\<lparr>ctxScopes := ctxScopes x @ [s]\<rparr>)"

definition popScope :: "cref \<Rightarrow> Env \<Rightarrow> Env" where
  "popScope c = updCtx c (\<lambda>x. x\<lparr>ctxScopes := butlast (ctxScopes x)\<rparr>)"

definition inScope :: "'a sx \<Rightarrow> (symbol \<times> lref) list \<Rightarrow> 'a sx" where
  "inScope body bindings = bindX current (\<lambda>c. bindX (newScope bindings) (\<lambda>s e. finallyX body (popScope c) (pushScope c s e)))"

definition withThis :: "lref \<Rightarrow> 'a sx \<Rightarrow> 'a sx" where
  "withThis l body = inScope body [(ThisBinding, l)]"

definition isOpen :: "Env \<Rightarrow> cref \<Rightarrow> sref \<Rightarrow> bool" where
  "isOpen e c frame = (c \<in> set (fnStack e) \<and> frame \<in> set (ctxScopes (ctxAt e c)))"

text \<open>\<^verbatim>\<open>splice(indexOf(x) + 1)\<close>: what follows the first occurrence of \<open>x\<close>, and what stays.\<close>

fun keepThrough :: "'a \<Rightarrow> 'a list \<Rightarrow> 'a list" where
  "keepThrough x [] = []"
| "keepThrough x (y # ys) = (if x = y then [y] else y # keepThrough x ys)"

fun spliceAfter :: "'a \<Rightarrow> 'a list \<Rightarrow> 'a list" where
  "spliceAfter x [] = []"
| "spliceAfter x (y # ys) = (if x = y then ys else spliceAfter x ys)"

definition inOwnerEnvironment :: "cref \<Rightarrow> sref \<Rightarrow> 'a sx \<Rightarrow> 'a sx" where
  "inOwnerEnvironment c frame body e =
     (if isOpen e c frame then
        let functionTail = spliceAfter c (fnStack e);
            scopeTail = spliceAfter frame (ctxScopes (ctxAt e c))
        in finallyX body
             (\<lambda>e'. (updCtx c (\<lambda>x. x\<lparr>ctxScopes := ctxScopes x @ scopeTail\<rparr>) e')\<lparr>fnStack := fnStack e' @ functionTail\<rparr>)
             (updCtx c (\<lambda>x. x\<lparr>ctxScopes := keepThrough frame (ctxScopes x)\<rparr>) (e\<lparr>fnStack := keepThrough c (fnStack e)\<rparr>))
      else (Inl (InternalCompilerError ''lowerer bug: the owner environment is not open''), e))"

section \<open>Declarations\<close>

definition counterOf :: "FnCtx \<Rightarrow> string \<Rightarrow> nat" where
  "counterOf x name = (case jm_get (localCounters x) name of Some n \<Rightarrow> n | None \<Rightarrow> 0)"

definition localIdOf :: "string \<Rightarrow> nat \<Rightarrow> string" where
  "localIdOf name count = name @ ''.'' @ intDigits (int count)"

definition freshLocal :: "cref \<Rightarrow> string \<Rightarrow> json \<Rightarrow> bool \<Rightarrow> lref sx" where
  "freshLocal c name type mutable e =
     (let count = counterOf (ctxAt e c) name; l = length (localHeap e) in
      (Inr l,
       updCtx c (\<lambda>x. x\<lparr>localCounters := jm_set (localCounters x) name (count + 1), ctxLocals := ctxLocals x @ [l]\<rparr>)
         (e\<lparr>localHeap := localHeap e @
            [\<lparr>lcId = localIdOf name count, lcName = name, lcType = type, lcMutable = mutable, lcBoxed = False, lcTdz = False\<rparr>]\<rparr>)))"

definition setBinding :: "sref \<Rightarrow> symbol \<Rightarrow> lref \<Rightarrow> Env \<Rightarrow> Env" where
  "setBinding s symb l e = e\<lparr>scopeHeap := (scopeHeap e)[s := jm_set (scopeAt e s) symb l]\<rparr>"

definition declareLocal :: "symbol option \<Rightarrow> string \<Rightarrow> json \<Rightarrow> bool \<Rightarrow> lref sx" where
  "declareLocal symb name type mutable = bindX current (\<lambda>c. bindX (freshLocal c name type mutable) (\<lambda>l.
     case symb of None \<Rightarrow> returnX l | Some y \<Rightarrow> bindX innermostScope (\<lambda>s e. (Inr l, setBinding s y l e))))"

definition declareHidden :: "string \<Rightarrow> json \<Rightarrow> lref sx" where
  "declareHidden name type = bindX current (\<lambda>c. freshLocal c name type False)"

definition declareThis :: "json \<Rightarrow> lref sx" where
  "declareThis type = bindX current (\<lambda>c e.
     let l = length (localHeap e);
         e' = updCtx c (\<lambda>x. x\<lparr>ctxLocals := ctxLocals x @ [l]\<rparr>) (e\<lparr>localHeap := localHeap e @
           [\<lparr>lcId = ''this.0'', lcName = ''this'', lcType = type, lcMutable = False, lcBoxed = False, lcTdz = False\<rparr>]\<rparr>)
     in bindX innermostScope (\<lambda>s e. (Inr l, setBinding s ThisBinding l e)) e')"

section \<open>Resolution\<close>

fun lookupScopes :: "Env \<Rightarrow> symbol \<Rightarrow> sref list \<Rightarrow> lref option" where
  "lookupScopes e symb [] = None"
| "lookupScopes e symb (s # ss) = (case jm_get (scopeAt e s) symb of Some l \<Rightarrow> Some l | None \<Rightarrow> lookupScopes e symb ss)"

definition bindingIn :: "Env \<Rightarrow> cref \<Rightarrow> symbol \<Rightarrow> lref option" where
  "bindingIn e c symb =
     (case lookupScopes e symb (rev (ctxScopes (ctxAt e c))) of Some l \<Rightarrow> Some l
      | None \<Rightarrow> jm_get (captureBySymbol (ctxAt e c)) symb)"

fun firstBinding :: "Env \<Rightarrow> symbol \<Rightarrow> cref list \<Rightarrow> lref option" where
  "firstBinding e symb [] = None"
| "firstBinding e symb (c # cs) = (case bindingIn e c symb of Some l \<Rightarrow> Some l | None \<Rightarrow> firstBinding e symb cs)"

definition peek :: "Env \<Rightarrow> symbol \<Rightarrow> lref option" where
  "peek e symb = firstBinding e symb (rev (fnStack e))"

definition originOf :: "Env \<Rightarrow> symbol \<Rightarrow> lref option" where
  "originOf e symb = firstBinding e symb (rev (butlast (fnStack e)))"

text \<open>The search of \<^verbatim>\<open>resolve\<close> through the enclosing functions, innermost first: the binding and the
  functions between its owner and the current one, outermost first.\<close>

fun findOrigin :: "Env \<Rightarrow> symbol \<Rightarrow> cref list \<Rightarrow> cref list \<Rightarrow> (lref \<times> cref list) option" where
  "findOrigin e symb [] inner = None"
| "findOrigin e symb (c # cs) inner =
     (case bindingIn e c symb of Some l \<Rightarrow> Some (l, inner) | None \<Rightarrow> findOrigin e symb cs (c # inner))"

definition captureRefusal :: "string \<Rightarrow> string" where
  "captureRefusal name = ''the binding '' @ squote name @ '' captured through a plain nested function (the declaration has no static storage a capture can thread - bind the value through a typed const, or read it in the declaring scope)''"

definition captureEntry :: "IrLocal \<Rightarrow> nat \<Rightarrow> IrLocal" where
  "captureEntry origin count =
     \<lparr>lcId = localIdOf (lcName origin) count, lcName = lcName origin, lcType = lcType origin,
      lcMutable = lcMutable origin, lcBoxed = True, lcTdz = lcTdz origin\<rparr>"

definition addCapture :: "cref \<Rightarrow> symbol \<Rightarrow> lref \<Rightarrow> lref \<Rightarrow> IrParam list \<Rightarrow> Env \<Rightarrow> Env" where
  "addCapture c symb origin parent caps e =
     (let o' = localAt e origin; count = counterOf (ctxAt e c) (lcName o'); entry = captureEntry o' count; l = length (localHeap e) in
      updCtx c (\<lambda>x. x\<lparr>localCounters := jm_set (localCounters x) (lcName o') (count + 1),
          ctxLocals := ctxLocals x @ [l],
          captureBySymbol := jm_set (captureBySymbol x) symb l,
          captures := Some (caps @ [\<lparr>paLocalId = lcId entry, paName = lcName entry, paType = lcType entry\<rparr>]),
          captureSources := captureSources x @ [lcId (localAt e parent)]\<rparr>)
        (e\<lparr>localHeap := localHeap e @ [entry], threaded := threaded e @ [(parent, l)]\<rparr>))"

fun threadThrough :: "symbol \<Rightarrow> lref \<Rightarrow> lref \<Rightarrow> cref list \<Rightarrow> lref sx" where
  "threadThrough symb origin parent [] e = (Inr parent, e)"
| "threadThrough symb origin parent (c # cs) e =
     (case jm_get (captureBySymbol (ctxAt e c)) symb of
        Some entry \<Rightarrow> threadThrough symb origin entry cs e
      | None \<Rightarrow> (case captures (ctxAt e c) of
          None \<Rightarrow> (Inl (Refused symb (captureRefusal (lcName (localAt e origin)))), e)
        | Some caps \<Rightarrow> threadThrough symb origin (length (localHeap e)) cs (addCapture c symb origin parent caps e)))"

definition boxLocal :: "lref \<Rightarrow> Env \<Rightarrow> Env" where
  "boxLocal l e = e\<lparr>localHeap := (localHeap e)[l := (localAt e l)\<lparr>lcBoxed := True\<rparr>]\<rparr>"

text \<open>\<^verbatim>\<open>resolve\<close> up to the point where it asks for a predeclaration.\<close>

definition resolveBound :: "symbol \<Rightarrow> lref option sx" where
  "resolveBound symb = bindX current (\<lambda>c e.
     case bindingIn e c symb of
       Some l \<Rightarrow> (Inr (Some l), e)
     | None \<Rightarrow> (case findOrigin e symb (rev (butlast (fnStack e))) [c] of
         None \<Rightarrow> (Inr None, e)
       | Some (origin, inner) \<Rightarrow>
           (if kindOf (lcType (localAt e origin)) = ''caught'' then
              (Inl (Refused symb ''closures capturing catch bindings (narrow into a typed local first)''), e)
            else bindX (threadThrough symb origin origin inner) (\<lambda>l. returnX (Some l)) (boxLocal origin e))))"

partial_function (option) resolve :: "(symbol \<Rightarrow> bool sx) \<Rightarrow> symbol \<Rightarrow> bool \<Rightarrow> Env \<Rightarrow> ((LowerError + lref option) \<times> Env) option" where
  "resolve predeclare symb blame e =
     (let (r, e1) = resolveBound symb e in
      if r = Inr None \<and> blame then
        (let (answer, e2) = predeclare symb e1 in
         case answer of
           Inl err \<Rightarrow> Some (Inl err, e2)
         | Inr declared \<Rightarrow> if declared then resolve predeclare symb blame e2 else Some (Inr None, e2))
      else Some (r, e1))"

definition resolveThis :: "(symbol \<Rightarrow> bool sx) \<Rightarrow> Env \<Rightarrow> ((LowerError + lref option) \<times> Env) option" where
  "resolveThis predeclare e = resolve predeclare ThisBinding False e"

end
