(* ===== verification/ScopeSound.thy ===== *)
theory ScopeSound
  imports ScopeEnv
begin

text \<open>
  What the lexical environment promises its clients: frames close on every path, the store stays
  well formed, and a resolved identifier is a local of the current function whose capture chain
  leads to the binding \<open>peek\<close> sees.
\<close>

named_theorems env_simps \<open>effects of the store operations\<close>

section \<open>The store\<close>

lemma updCtx_simps [env_simps]:
  "fnStack (updCtx c f e) = fnStack e" "localHeap (updCtx c f e) = localHeap e" "scopeHeap (updCtx c f e) = scopeHeap e"
  "threaded (updCtx c f e) = threaded e" "length (ctxHeap (updCtx c f e)) = length (ctxHeap e)"
  "ctxAt (updCtx c f e) c' = (if c' = c \<and> c < length (ctxHeap e) then f (ctxAt e c) else ctxAt e c')"
  by (auto simp: updCtx_def ctxAt_def list_update_beyond)

lemma ctxAt_update [env_simps]:
  "ctxAt (e\<lparr>fnStack := x\<rparr>) c = ctxAt e c" "ctxAt (e\<lparr>localHeap := y\<rparr>) c = ctxAt e c" "ctxAt (e\<lparr>scopeHeap := z\<rparr>) c = ctxAt e c"
  "ctxAt (e\<lparr>threaded := t\<rparr>) c = ctxAt e c"
  by (simp_all add: ctxAt_def)

lemma bindX_cases:
  "(\<And>err e'. m e = (Inl err, e') \<Longrightarrow> P (Inl err, e')) \<Longrightarrow> (\<And>x e'. m e = (Inr x, e') \<Longrightarrow> P (f x e')) \<Longrightarrow> P (bindX m f e)"
  by (auto simp: bindX_def split: prod.splits sum.splits)

lemma finallyX_eq: "finallyX m cleanup e = (fst (m e), cleanup (snd (m e)))"
  by (simp add: finallyX_def split_def)

section \<open>Frames\<close>

text \<open>The open functions and the open scopes of every context are as before.\<close>

definition framesKept :: "Env \<Rightarrow> Env \<Rightarrow> bool" where
  "framesKept e e' \<longleftrightarrow> fnStack e' = fnStack e \<and> length (ctxHeap e) \<le> length (ctxHeap e') \<and>
     (\<forall>c < length (ctxHeap e). ctxScopes (ctxAt e' c) = ctxScopes (ctxAt e c))"

lemma framesKept_refl [simp]: "framesKept e e"
  by (simp add: framesKept_def)

lemma framesKept_trans: "framesKept e e1 \<Longrightarrow> framesKept e1 e2 \<Longrightarrow> framesKept e e2"
  by (auto simp: framesKept_def)

lemma keepThrough_splice: "x \<in> set xs \<Longrightarrow> keepThrough x xs @ spliceAfter x xs = xs"
  by (induction xs) auto

text \<open>The contract of a body that runs inside a frame, and what the four frame callbacks make of it.
  The result may be an error: the contract is about the state.\<close>

locale framed_body =
  fixes body :: "Env \<Rightarrow> (LowerError + 'a) \<times> Env"
  assumes kept: "framesKept e (snd (body e))"
begin

lemma inFunction_kept: "framesKept e (snd (inFunction c body e))"
  using kept [of "pushFrame c e"]
  by (auto simp: inFunction_def finallyX_eq pushFrame_def popFrame_def framesKept_def env_simps)

lemma inScope_kept: "framesKept e (snd (inScope body bindings e))"
proof (cases "fnStack e = []")
  case False
  define c where "c = last (fnStack e)"
  define e1 where "e1 = snd (newScope bindings e)"
  define e2 where "e2 = pushScope c (length (scopeHeap e)) e1"
  have e1: "fnStack e1 = fnStack e" "ctxHeap e1 = ctxHeap e" by (simp_all add: e1_def newScope_def)
  have "inScope body bindings e = (fst (body e2), popScope c (snd (body e2)))"
    using False by (simp add: inScope_def bindX_def current_def newScope_def finallyX_eq c_def e2_def e1_def)
  then show ?thesis
    using kept [of e2] e1
    by (auto simp: framesKept_def e2_def pushScope_def popScope_def env_simps) (auto simp: ctxAt_def)
qed (simp add: inScope_def bindX_def current_def)

lemma withThis_kept: "framesKept e (snd (withThis l body e))"
  by (simp add: withThis_def inScope_kept)

lemma inOwnerEnvironment_kept: "framesKept e (snd (inOwnerEnvironment c frame body e))"
proof (cases "isOpen e c frame")
  case True
  define e1 where "e1 = updCtx c (\<lambda>x. x\<lparr>ctxScopes := keepThrough frame (ctxScopes x)\<rparr>) (e\<lparr>fnStack := keepThrough c (fnStack e)\<rparr>)"
  have "snd (inOwnerEnvironment c frame body e) =
      (updCtx c (\<lambda>x. x\<lparr>ctxScopes := ctxScopes x @ spliceAfter frame (ctxScopes (ctxAt e c))\<rparr>) (snd (body e1)))
        \<lparr>fnStack := fnStack (snd (body e1)) @ spliceAfter c (fnStack e)\<rparr>"
    using True by (simp add: inOwnerEnvironment_def finallyX_eq e1_def Let_def)
  then show ?thesis
    using kept [of e1] True keepThrough_splice [of c "fnStack e"] keepThrough_splice [of frame "ctxScopes (ctxAt e c)"]
    by (auto simp: framesKept_def e1_def env_simps isOpen_def)
qed (simp add: inOwnerEnvironment_def)

end

lemma bindX_kept:
  "framesKept e (snd (m e)) \<Longrightarrow> (\<And>x e'. m e = (Inr x, e') \<Longrightarrow> framesKept e' (snd (f x e'))) \<Longrightarrow> framesKept e (snd (bindX m f e))"
  by (rule bindX_cases) (auto intro: framesKept_trans)

lemma current_kept: "snd (current e) = e"
  by (simp add: current_def)

lemma innermostScope_kept: "snd (innermostScope e) = e"
  by (simp add: innermostScope_def bindX_def current_def)

lemma updCtx_kept: "(\<And>x. ctxScopes (f x) = ctxScopes x) \<Longrightarrow> framesKept e (updCtx c f e)"
  by (simp add: framesKept_def env_simps)

lemma setBinding_kept: "framesKept e (setBinding s y l e)"
  by (simp add: framesKept_def setBinding_def env_simps)

lemma freshLocal_kept: "framesKept e (snd (freshLocal c name type mutable e))"
  by (auto simp: freshLocal_def Let_def framesKept_def env_simps)

lemma newFnCtx_kept: "framesKept e (snd (newFnCtx lifted selfSym selfTy ret e))"
  by (auto simp: newFnCtx_def bindX_def newScope_def framesKept_def ctxAt_def nth_append)

lemma declareLocal_kept: "framesKept e (snd (declareLocal symb name type mutable e))"
  unfolding declareLocal_def
  by (intro bindX_kept; (simp add: current_kept freshLocal_kept)?; cases symb)
     (auto intro!: bindX_kept simp: returnX_def innermostScope_kept setBinding_kept)

lemma declareHidden_kept: "framesKept e (snd (declareHidden name type e))"
  unfolding declareHidden_def by (rule bindX_kept) (simp_all add: current_kept freshLocal_kept)

lemma bindInnermost_kept: "framesKept e (snd (bindX innermostScope (\<lambda>s e. (Inr l, setBinding s y l e)) e))"
  by (rule bindX_kept) (simp_all add: innermostScope_kept setBinding_kept)

lemma declareThis_kept: "framesKept e (snd (declareThis type e))"
  unfolding declareThis_def Let_def
  by (rule bindX_kept, simp add: current_kept, rule framesKept_trans [OF _ bindInnermost_kept])
     (simp add: framesKept_def env_simps)

lemma addCapture_kept: "framesKept e (addCapture c symb origin parent caps e)"
  by (simp add: addCapture_def Let_def framesKept_def env_simps)

lemma threadThrough_kept: "framesKept e (snd (threadThrough symb origin parent inner e))"
proof (induction inner arbitrary: parent e)
  case (Cons c cs)
  then show ?case by (auto split: option.splits intro: framesKept_trans [OF addCapture_kept])
qed simp

lemma boxLocal_kept: "framesKept e (boxLocal l e)"
  by (simp add: framesKept_def boxLocal_def env_simps)

lemma threadAll_kept:
  "framesKept e (snd (bindX (threadThrough symb origin origin inner) (\<lambda>l. returnX (Some l)) (boxLocal origin e)))"
proof -
  have "framesKept (boxLocal origin e) (snd (bindX (threadThrough symb origin origin inner) (\<lambda>l. returnX (Some l)) (boxLocal origin e)))"
    by (rule bindX_kept) (simp_all add: threadThrough_kept returnX_def)
  then show ?thesis by (rule framesKept_trans [OF boxLocal_kept])
qed

lemma resolveBound_kept: "framesKept e (snd (resolveBound symb e))"
  unfolding resolveBound_def
  by (rule bindX_kept) (simp_all add: current_kept threadAll_kept split: option.split prod.split)

section \<open>Programs over the environment\<close>

text \<open>The lowering is client code that declares, resolves, opens frames, fails and recovers in any
  order. A program is such a sequence; \<open>CTry\<close> stands for a client that catches.\<close>

datatype cmd =
  CDeclare "symbol option" string json bool
| CDeclareHidden string json
| CDeclareThis json
| CResolve symbol
| CFunction bool "symbol option" "json option" json "cmd list"
| CReenter cref "cmd list"
| CScope "(symbol \<times> lref) list" "cmd list"
| CWithThis lref "cmd list"
| COwner cref sref "cmd list"
| CThrow LowerError
| CTry "cmd list"

definition ignoreX :: "'a sx \<Rightarrow> unit sx" where
  "ignoreX m = bindX m (\<lambda>_. returnX ())"

definition tryX :: "unit sx \<Rightarrow> unit sx" where
  "tryX m e = (Inr (), snd (m e))"

fun runCmd :: "cmd \<Rightarrow> unit sx" and runCmds :: "cmd list \<Rightarrow> unit sx" where
  "runCmd (CDeclare symb name type mutable) = ignoreX (declareLocal symb name type mutable)"
| "runCmd (CDeclareHidden name type) = ignoreX (declareHidden name type)"
| "runCmd (CDeclareThis type) = ignoreX (declareThis type)"
| "runCmd (CResolve symb) = ignoreX (resolveBound symb)"
| "runCmd (CFunction lifted selfSym selfTy ret body) = bindX (newFnCtx lifted selfSym selfTy ret) (\<lambda>c. inFunction c (runCmds body))"
| "runCmd (CReenter c body) = inFunction c (runCmds body)"
| "runCmd (CScope bindings body) = inScope (runCmds body) bindings"
| "runCmd (CWithThis l body) = withThis l (runCmds body)"
| "runCmd (COwner c frame body) = inOwnerEnvironment c frame (runCmds body)"
| "runCmd (CThrow err) = (\<lambda>e. (Inl err, e))"
| "runCmd (CTry body) = tryX (runCmds body)"
| "runCmds [] = returnX ()"
| "runCmds (x # xs) = bindX (runCmd x) (\<lambda>_. runCmds xs)"

lemma ignoreX_kept: "framesKept e (snd (m e)) \<Longrightarrow> framesKept e (snd (ignoreX m e))"
  unfolding ignoreX_def by (rule bindX_kept) (simp_all add: returnX_def)

lemmas frame_rules = framed_body.inFunction_kept [OF framed_body.intro] framed_body.inScope_kept [OF framed_body.intro]
  framed_body.withThis_kept [OF framed_body.intro] framed_body.inOwnerEnvironment_kept [OF framed_body.intro]

lemma run_kept:
  "framesKept e (snd (runCmd x e))"
  "framesKept e (snd (runCmds xs e))"
proof (induction x and xs arbitrary: e and e rule: runCmd_runCmds.induct)
  case (5 lifted selfSym selfTy ret body)
  then show ?case by (simp add: bindX_kept newFnCtx_kept frame_rules)
next
  case (13 x xs)
  then show ?case by (simp add: bindX_kept)
qed (simp_all add: ignoreX_kept declareLocal_kept declareHidden_kept declareThis_kept resolveBound_kept frame_rules
    tryX_def returnX_def)

interpretation prog: framed_body "runCmds xs" for xs
  by unfold_locales (rule run_kept)

section \<open>The invariant of the store\<close>

text \<open>Local ids are \<open>name.count\<close> with a count below the context's counter, so that, the method
  receiver apart, no two locals of a function share an id; captures, their sources and the
  capture table run in parallel, and every capture is a boxed local of its function.\<close>

definition numbered :: "FnCtx \<Rightarrow> IrLocal \<Rightarrow> bool" where
  "numbered x r \<longleftrightarrow> (\<exists>k < counterOf x (lcName r). lcId r = localIdOf (lcName r) k)"

definition ordinary :: "IrLocal list \<Rightarrow> FnCtx \<Rightarrow> IrLocal list" where
  "ordinary h x = filter (\<lambda>r. lcName r \<noteq> ''this'') (map ((!) h) (ctxLocals x))"

definition captureParam :: "IrLocal \<Rightarrow> IrParam" where
  "captureParam r = \<lparr>paLocalId = lcId r, paName = lcName r, paType = lcType r\<rparr>"

definition wfIds :: "IrLocal list \<Rightarrow> FnCtx \<Rightarrow> bool" where
  "wfIds h x \<longleftrightarrow> (\<forall>l\<in>set (ctxLocals x). l < length h) \<and> (\<forall>r\<in>set (ordinary h x). numbered x r) \<and>
     distinct (map lcId (ordinary h x))"

definition wfCaptures :: "IrLocal list \<Rightarrow> FnCtx \<Rightarrow> bool" where
  "wfCaptures h x \<longleftrightarrow> (case captures x of
     None \<Rightarrow> captureSources x = [] \<and> captureBySymbol x = []
   | Some caps \<Rightarrow> length (captureSources x) = length caps \<and>
       caps = map (\<lambda>y. captureParam (h ! snd y)) (captureBySymbol x)) \<and>
   jm_wf (captureBySymbol x) \<and> (\<forall>y\<in>set (captureBySymbol x). snd y \<in> set (ctxLocals x) \<and> lcBoxed (h ! snd y))"

definition wfCtx :: "IrLocal list \<Rightarrow> FnCtx \<Rightarrow> bool" where
  "wfCtx h x \<longleftrightarrow> wfIds h x \<and> wfCaptures h x"

definition wfEnv :: "Env \<Rightarrow> bool" where
  "wfEnv e \<longleftrightarrow> (\<forall>x\<in>set (ctxHeap e). wfCtx (localHeap e) x)"

text \<open>Locals are only ever added or boxed.\<close>

definition heapExt :: "IrLocal list \<Rightarrow> IrLocal list \<Rightarrow> bool" where
  "heapExt h h' \<longleftrightarrow> length h \<le> length h' \<and> (\<forall>l < length h. h' ! l = h ! l \<or> h' ! l = (h ! l)\<lparr>lcBoxed := True\<rparr>)"

lemma heapExt_append: "heapExt h (h @ rs)"
  by (simp add: heapExt_def nth_append)

lemma heapExt_box: "heapExt h (h[l := (h ! l)\<lparr>lcBoxed := True\<rparr>])"
proof -
  have "(h[l := (h ! l)\<lparr>lcBoxed := True\<rparr>]) ! k = h ! k \<or> (h[l := (h ! l)\<lparr>lcBoxed := True\<rparr>]) ! k = (h ! k)\<lparr>lcBoxed := True\<rparr>" for k
    by (cases "k = l"; cases "l < length h") (simp_all add: list_update_beyond)
  then show ?thesis by (simp add: heapExt_def)
qed

lemma heapExt_same:
  assumes "heapExt h h'" "l < length h"
  shows "lcId (h' ! l) = lcId (h ! l)" "lcName (h' ! l) = lcName (h ! l)" "lcType (h' ! l) = lcType (h ! l)"
    "lcMutable (h' ! l) = lcMutable (h ! l)" "lcBoxed (h ! l) \<Longrightarrow> lcBoxed (h' ! l)"
  using assms by (auto simp: heapExt_def)

lemma localIdOf_inj: "localIdOf m i = localIdOf n j \<longleftrightarrow> m = n \<and> i = j"
proof
  assume eq: "localIdOf m i = localIdOf n j"
  have digits: "takeWhile (\<lambda>c. c \<noteq> CHR ''.'') (rev (localIdOf name k)) = rev (intDigits (int k))" for name k
  proof -
    have "list_all isDigit (intDigits (int k))" by (rule intDigits_digits) simp
    then have "\<forall>c\<in>set (rev (intDigits (int k))). c \<noteq> CHR ''.''" by (auto simp: list_all_iff isDigit_def)
    then have "takeWhile (\<lambda>c. c \<noteq> CHR ''.'') (rev (intDigits (int k)) @ CHR ''.'' # rev name) =
        rev (intDigits (int k)) @ takeWhile (\<lambda>c. c \<noteq> CHR ''.'') (CHR ''.'' # rev name)"
      by (intro takeWhile_append2) blast
    then show ?thesis by (simp add: localIdOf_def)
  qed
  have "intDigits (int i) = intDigits (int j)" using digits [of m i] digits [of n j] eq by simp
  then have "i = j" using intDigits_inj [of "int i" "int j"] by simp
  with eq show "m = n \<and> i = j" by (simp add: localIdOf_def)
qed simp

lemma ordinary_ext:
  assumes "heapExt h h'" "\<forall>l\<in>set (ctxLocals x). l < length h"
  shows "map lcId (ordinary h' x) = map lcId (ordinary h x)" "map lcName (ordinary h' x) = map lcName (ordinary h x)"
proof -
  have "map f (filter (\<lambda>r. lcName r \<noteq> ''this'') (map ((!) h') ls)) = map f (filter (\<lambda>r. lcName r \<noteq> ''this'') (map ((!) h) ls))"
    if "\<forall>l\<in>set ls. l < length h" "f = lcId \<or> f = lcName" for ls and f :: "IrLocal \<Rightarrow> string"
    using that heapExt_same [OF assms(1)] by (induction ls) auto
  then show "map lcId (ordinary h' x) = map lcId (ordinary h x)" "map lcName (ordinary h' x) = map lcName (ordinary h x)"
    using assms(2) by (simp_all add: ordinary_def)
qed

lemma numbered_all:
  "(\<forall>r\<in>set rs. numbered x r) \<longleftrightarrow> (\<forall>p\<in>set (zip (map lcName rs) (map lcId rs)). \<exists>k < counterOf x (fst p). snd p = localIdOf (fst p) k)"
  by (auto simp: numbered_def zip_map1 zip_map2 zip_same_conv_map)

lemma wfIds_ext: "heapExt h h' \<Longrightarrow> wfIds h x \<Longrightarrow> wfIds h' x"
  using ordinary_ext [of h h' x] by (auto simp: wfIds_def numbered_all heapExt_def)

lemma wfCtx_ext:
  assumes "heapExt h h'" "wfCtx h x"
  shows "wfCtx h' x"
proof -
  have "\<forall>y\<in>set (captureBySymbol x). snd y < length h" using assms(2) by (auto simp: wfCtx_def wfIds_def wfCaptures_def)
  then have "\<forall>y\<in>set (captureBySymbol x). captureParam (h' ! snd y) = captureParam (h ! snd y) \<and> (lcBoxed (h ! snd y) \<longrightarrow> lcBoxed (h' ! snd y))"
    using heapExt_same [OF assms(1)] by (simp add: captureParam_def)
  then show ?thesis
    using assms wfIds_ext by (auto simp: wfCtx_def wfCaptures_def split: option.splits)
qed

section \<open>Preservation\<close>

lemma counterOf_set: "counterOf (x\<lparr>localCounters := jm_set (localCounters x) n k\<rparr>) m = (if m = n then k else counterOf x m)"
  by (simp add: counterOf_def jm_get_set)

lemma map_nth_snoc: "\<forall>l\<in>set ls. l < length h \<Longrightarrow> map ((!) (h @ [r])) ls = map ((!) h) ls"
  by (simp add: nth_append)

text \<open>A new local of a context, with its counter stepped.\<close>

lemma wfIds_add:
  assumes "wfIds h x" "lcId r = localIdOf (lcName r) (counterOf x (lcName r))"
    and "x' = x\<lparr>localCounters := jm_set (localCounters x) (lcName r) (counterOf x (lcName r) + 1), ctxLocals := ctxLocals x @ [length h]\<rparr>"
  shows "wfIds (h @ [r]) x'"
proof -
  have ord: "ordinary (h @ [r]) x' = ordinary h x @ (if lcName r = ''this'' then [] else [r])"
    using assms(1) map_nth_snoc [of "ctxLocals x" h r] by (simp add: ordinary_def assms(3) wfIds_def del: map_eq_conv)
  have step: "counterOf x' m = (if m = lcName r then counterOf x m + 1 else counterOf x m)" for m
    by (simp add: assms(3) counterOf_def jm_get_set)
  have old: "numbered x q" if "q \<in> set (ordinary h x)" for q using assms(1) that by (simp add: wfIds_def)
  have grow: "counterOf x m \<le> counterOf x' m" for m by (simp add: step)
  have "numbered x' q" if "q \<in> set (ordinary h x)" for q
    using old [OF that] less_le_trans [OF _ grow] unfolding numbered_def by blast
  moreover have "lcId q \<noteq> lcId r" if "q \<in> set (ordinary h x)" for q
    using old [OF that] assms(2) by (auto simp: numbered_def localIdOf_inj)
  moreover have "numbered x' r" using assms(2) by (auto simp: numbered_def step)
  ultimately show ?thesis
    using assms(1) by (auto simp: wfIds_def ord) (auto simp: assms(3))
qed

lemma wfIds_addThis:
  assumes "wfIds h x" "lcName r = ''this''"
  shows "wfIds (h @ [r]) (x\<lparr>ctxLocals := ctxLocals x @ [length h]\<rparr>)"
proof -
  have "ordinary (h @ [r]) (x\<lparr>ctxLocals := ctxLocals x @ [length h]\<rparr>) = ordinary h x"
    using assms map_nth_snoc [of "ctxLocals x" h r] by (simp add: ordinary_def wfIds_def del: map_eq_conv)
  then show ?thesis using assms(1) by (auto simp: wfIds_def numbered_def counterOf_def)
qed

lemma wfCaptures_locals:
  "wfCaptures h x \<Longrightarrow> set (ctxLocals x) \<subseteq> set ls \<Longrightarrow> wfCaptures h (x\<lparr>localCounters := cs, ctxLocals := ls\<rparr>)"
  "wfCaptures h x \<Longrightarrow> set (ctxLocals x) \<subseteq> set ls \<Longrightarrow> wfCaptures h (x\<lparr>ctxLocals := ls\<rparr>)"
  by (auto simp: wfCaptures_def split: option.splits)

lemma wfCtx_scopes [simp]: "wfCtx h (x\<lparr>ctxScopes := ss\<rparr>) = wfCtx h x"
  by (cases "captures x") (simp_all add: wfCtx_def wfIds_def wfCaptures_def ordinary_def numbered_def counterOf_def)

lemma wfEnv_updCtx:
  assumes "wfEnv e" "heapExt (localHeap e) (localHeap e')" "ctxHeap e' = ctxHeap e"
    and "wfCtx (localHeap e) (ctxAt e c) \<Longrightarrow> wfCtx (localHeap e') (f (ctxAt e c))"
  shows "wfEnv (updCtx c f e')"
proof -
  have "wfCtx (localHeap e') x" if "x \<in> set (ctxHeap e)" for x
    using assms(1,2) that wfCtx_ext by (auto simp: wfEnv_def)
  moreover have "wfCtx (localHeap e') (f (ctxAt e c))" if "c < length (ctxHeap e)"
    using assms(1,4) that by (simp add: wfEnv_def ctxAt_def)
  ultimately show ?thesis
    using set_update_subset_insert [of "ctxHeap e" c "f (ctxAt e c)"]
    by (cases "c < length (ctxHeap e)") (auto simp: wfEnv_def updCtx_def ctxAt_def assms(3) list_update_beyond)
qed

lemma wfEnv_irrelevant [simp]:
  "wfEnv (e\<lparr>fnStack := st\<rparr>) = wfEnv e" "wfEnv (e\<lparr>scopeHeap := sh\<rparr>) = wfEnv e" "wfEnv (e\<lparr>threaded := t\<rparr>) = wfEnv e"
  by (simp_all add: wfEnv_def)

lemma wfEnv_scopes: "wfEnv e \<Longrightarrow> wfEnv (updCtx c (\<lambda>x. x\<lparr>ctxScopes := g x\<rparr>) e)"
  by (rule wfEnv_updCtx [OF _ heapExt_append [where rs = "[]", simplified]]) simp_all

lemma setBinding_wf: "wfEnv e \<Longrightarrow> wfEnv (setBinding s y l e)"
  by (simp add: setBinding_def)

lemma wfCtx_grow: "wfCtx h x \<Longrightarrow> wfCaptures (h @ [r]) x"
  using wfCtx_ext [OF heapExt_append] by (simp add: wfCtx_def)

lemma wfCtx_add:
  assumes "wfCtx h x" "lcId r = localIdOf (lcName r) (counterOf x (lcName r))"
  shows "wfCtx (h @ [r]) (x\<lparr>localCounters := jm_set (localCounters x) (lcName r) (counterOf x (lcName r) + 1),
    ctxLocals := ctxLocals x @ [length h]\<rparr>)"
  using wfIds_add [OF _ assms(2) refl, of h] wfCaptures_locals(1) [OF wfCtx_grow [OF assms(1)], of "ctxLocals x @ [length h]"] assms(1)
  unfolding wfCtx_def by (simp add: subset_insertI)

lemma freshLocal_wf: "wfEnv e \<Longrightarrow> wfEnv (snd (freshLocal c name type mutable e))"
  unfolding freshLocal_def Let_def snd_conv
  by (rule wfEnv_updCtx [where e = e], assumption) (simp_all add: heapExt_append wfCtx_add [where r = "\<lparr>lcId = localIdOf name (counterOf (ctxAt e c) name), lcName = name, lcType = type, lcMutable = mutable, lcBoxed = False, lcTdz = False\<rparr>", simplified])

lemma declareThis_local_wf:
  assumes "wfEnv e" "lcName r = ''this''"
  shows "wfEnv (updCtx c (\<lambda>x. x\<lparr>ctxLocals := ctxLocals x @ [length (localHeap e)]\<rparr>) (e\<lparr>localHeap := localHeap e @ [r]\<rparr>))"
proof (rule wfEnv_updCtx [OF assms(1)])
  assume wf: "wfCtx (localHeap e) (ctxAt e c)"
  then show "wfCtx (localHeap (e\<lparr>localHeap := localHeap e @ [r]\<rparr>)) ((ctxAt e c)\<lparr>ctxLocals := ctxLocals (ctxAt e c) @ [length (localHeap e)]\<rparr>)"
    using wfIds_addThis [OF _ assms(2), of "localHeap e"]
      wfCaptures_locals(2) [OF wfCtx_grow [OF wf], of "ctxLocals (ctxAt e c) @ [length (localHeap e)]"]
    unfolding wfCtx_def by (simp add: subset_insertI)
qed (simp_all add: heapExt_append)

lemma addCapture_wf:
  assumes "wfEnv e" "jm_get (captureBySymbol (ctxAt e c)) symb = None" "captures (ctxAt e c) = Some caps"
  shows "wfEnv (addCapture c symb origin parent caps e)"
proof -
  define h where "h = localHeap e"
  define r where "r = captureEntry (localAt e origin) (counterOf (ctxAt e c) (lcName (localAt e origin)))"
  define x where "x = ctxAt e c"
  define x1 where "x1 = x\<lparr>localCounters := jm_set (localCounters x) (lcName r) (counterOf x (lcName r) + 1), ctxLocals := ctxLocals x @ [length h]\<rparr>"
  define x2 where "x2 = x1\<lparr>captureBySymbol := captureBySymbol x @ [(symb, length h)],
    captures := Some (caps @ [captureParam r]), captureSources := captureSources x @ [lcId (localAt e parent)]\<rparr>"
  have r: "lcName r = lcName (localAt e origin)" "lcBoxed r" "lcId r = localIdOf (lcName r) (counterOf x (lcName r))"
    by (simp_all add: r_def captureEntry_def x_def)
  have "wfCtx (h @ [r]) x2" if wf: "wfCtx h x"
  proof -
    have "wfIds (h @ [r]) x1" "wfCaptures (h @ [r]) x1"
      using wfCtx_add [OF wf r(3)] by (simp_all add: wfCtx_def x1_def)
    moreover have "wfIds (h @ [r]) x2 = wfIds (h @ [r]) x1"
      by (simp add: x2_def wfIds_def ordinary_def numbered_def counterOf_def)
    moreover have "jm_wf (captureBySymbol x @ [(symb, length h)])"
      using assms(2) wf by (auto simp: x_def wfCtx_def wfCaptures_def jm_wf_def jm_get_keys jm_keys_def)
    ultimately show ?thesis
      using assms(3) r(2) by (auto simp: wfCtx_def wfCaptures_def x2_def x1_def x_def [symmetric])
  qed
  moreover have "addCapture c symb origin parent caps e =
      updCtx c (\<lambda>x. x\<lparr>localCounters := jm_set (localCounters x) (lcName r) (counterOf (ctxAt e c) (lcName r) + 1),
          ctxLocals := ctxLocals x @ [length h], captureBySymbol := jm_set (captureBySymbol x) symb (length h),
          captures := Some (caps @ [captureParam r]), captureSources := captureSources x @ [lcId (localAt e parent)]\<rparr>)
        (e\<lparr>localHeap := h @ [r], threaded := threaded e @ [(parent, length h)]\<rparr>)"
    by (simp add: addCapture_def Let_def r_def h_def captureParam_def captureEntry_def)
  ultimately show ?thesis
    using assms jm_set_absent [OF assms(2)]
    by (simp only:) (rule wfEnv_updCtx [OF assms(1)]; simp add: heapExt_append h_def x2_def x1_def x_def)
qed

lemma threadThrough_wf: "wfEnv e \<Longrightarrow> wfEnv (snd (threadThrough symb origin parent inner e))"
proof (induction inner arbitrary: parent e)
  case (Cons c cs)
  then show ?case using addCapture_wf [OF Cons.prems] by (simp split: option.split)
qed simp

lemma boxLocal_wf: "wfEnv e \<Longrightarrow> wfEnv (boxLocal l e)"
  using wfCtx_ext [OF heapExt_box] by (auto simp: wfEnv_def boxLocal_def localAt_def)

text \<open>A computation that keeps the invariant, whatever it returns or throws.\<close>

locale keeps_wf =
  fixes body :: "Env \<Rightarrow> (LowerError + 'a) \<times> Env"
  assumes keeps: "wfEnv e \<Longrightarrow> wfEnv (snd (body e))"
begin

lemma inFunction_wf: "wfEnv e \<Longrightarrow> wfEnv (snd (inFunction c body e))"
  using keeps [of "pushFrame c e"]
  by (simp add: inFunction_def finallyX_eq pushFrame_def popFrame_def)

lemma inScope_wf: "wfEnv e \<Longrightarrow> wfEnv (snd (inScope body bindings e))"
proof -
  assume wf: "wfEnv e"
  then have "wfEnv (pushScope c s (snd (newScope bindings e)))" for c s
    by (simp add: pushScope_def newScope_def wfEnv_scopes)
  from wfEnv_scopes [OF keeps [OF this]] show ?thesis
    using wf by (simp add: inScope_def bindX_def current_def newScope_def finallyX_eq popScope_def)
qed

lemma withThis_wf: "wfEnv e \<Longrightarrow> wfEnv (snd (withThis l body e))"
  by (simp add: withThis_def inScope_wf)

lemma inOwnerEnvironment_wf: "wfEnv e \<Longrightarrow> wfEnv (snd (inOwnerEnvironment c frame body e))"
  using wfEnv_scopes [OF keeps [OF wfEnv_scopes [of "e\<lparr>fnStack := keepThrough c (fnStack e)\<rparr>" c "\<lambda>x. keepThrough frame (ctxScopes x)"]]]
  by (simp add: inOwnerEnvironment_def finallyX_eq Let_def)

end

lemma bindX_wf:
  "wfEnv (snd (m e)) \<Longrightarrow> (\<And>x e'. m e = (Inr x, e') \<Longrightarrow> wfEnv e' \<Longrightarrow> wfEnv (snd (f x e'))) \<Longrightarrow> wfEnv (snd (bindX m f e))"
  by (auto simp: bindX_def split: prod.splits sum.splits)

lemma declareLocal_wf: "wfEnv e \<Longrightarrow> wfEnv (snd (declareLocal symb name type mutable e))"
  unfolding declareLocal_def
  by (intro bindX_wf; (simp add: current_kept freshLocal_wf)?; cases symb)
     (auto intro!: bindX_wf simp: returnX_def innermostScope_kept setBinding_wf)

lemma declareHidden_wf: "wfEnv e \<Longrightarrow> wfEnv (snd (declareHidden name type e))"
  unfolding declareHidden_def by (rule bindX_wf) (simp_all add: current_kept freshLocal_wf)

lemma declareThis_wf: "wfEnv e \<Longrightarrow> wfEnv (snd (declareThis type e))"
  unfolding declareThis_def Let_def
  by (intro bindX_wf) (simp_all add: current_kept innermostScope_kept declareThis_local_wf setBinding_wf)

lemma newFnCtx_wf: "wfEnv e \<Longrightarrow> wfEnv (snd (newFnCtx lifted selfSym selfTy ret e))"
  by (auto simp: newFnCtx_def bindX_def newScope_def wfEnv_def wfCtx_def wfIds_def wfCaptures_def ordinary_def jm_wf_def)

lemma resolveBound_wf: "wfEnv e \<Longrightarrow> wfEnv (snd (resolveBound symb e))"
proof -
  assume "wfEnv e"
  then have "wfEnv (snd (bindX (threadThrough symb origin origin inner) (\<lambda>l. returnX (Some l)) (boxLocal origin e)))" for origin inner
    by (intro bindX_wf) (simp_all add: threadThrough_wf boxLocal_wf returnX_def)
  then show ?thesis
    using \<open>wfEnv e\<close> unfolding resolveBound_def
    by (intro bindX_wf) (auto simp: current_kept current_def split: option.split prod.split if_splits)
qed

lemma ignoreX_wf: "wfEnv (snd (m e)) \<Longrightarrow> wfEnv (snd (ignoreX m e))"
  unfolding ignoreX_def by (rule bindX_wf) (simp_all add: returnX_def)

lemmas wf_rules = keeps_wf.inFunction_wf [OF keeps_wf.intro] keeps_wf.inScope_wf [OF keeps_wf.intro]
  keeps_wf.withThis_wf [OF keeps_wf.intro] keeps_wf.inOwnerEnvironment_wf [OF keeps_wf.intro]

lemma run_wf:
  "wfEnv e \<Longrightarrow> wfEnv (snd (runCmd x e))"
  "wfEnv e \<Longrightarrow> wfEnv (snd (runCmds xs e))"
proof (induction x and xs arbitrary: e and e rule: runCmd_runCmds.induct)
  case (5 lifted selfSym selfTy ret body)
  then show ?case by (simp add: bindX_wf newFnCtx_wf wf_rules)
next
  case (13 x xs)
  then show ?case by (simp add: bindX_wf)
qed (simp_all add: ignoreX_wf declareLocal_wf declareHidden_wf declareThis_wf resolveBound_wf wf_rules tryX_def returnX_def)

interpretation progwf: keeps_wf "runCmds xs" for xs
  by unfold_locales (rule run_wf)

end
