(* ===== verification/ScopeResolve.thy ===== *)
theory ScopeResolve
  imports ScopeSound
begin

text \<open>
  Resolution of identifiers: which binding it finds, the captures it threads, when it refuses, and
  that the loop through the predeclaration hook ends.
\<close>

section \<open>The search\<close>

lemma findOrigin_first: "firstBinding e symb cs = map_option fst (findOrigin e symb cs inner)"
  by (induction cs arbitrary: inner) (auto split: option.splits)

lemma findOrigin_owner:
  "bindingIn e owner symb = Some origin \<Longrightarrow> \<forall>c\<in>set mid. bindingIn e c symb = None \<Longrightarrow>
   findOrigin e symb (mid @ owner # rest) inner = Some (origin, rev mid @ inner)"
  by (induction mid arbitrary: inner) auto

lemma firstBinding_append:
  "firstBinding e symb (xs @ ys) = (case firstBinding e symb xs of Some l \<Rightarrow> Some l | None \<Rightarrow> firstBinding e symb ys)"
  by (induction xs) (auto split: option.splits)

section \<open>Threading\<close>

text \<open>A chain of captures from the origin to the innermost function: in each function the newest
  capture is a boxed copy of the variable, fed from the local the function around it uses.\<close>

definition sameVariable :: "IrLocal \<Rightarrow> IrLocal \<Rightarrow> bool" where
  "sameVariable r q \<longleftrightarrow> lcName r = lcName q \<and> lcType r = lcType q \<and> lcMutable r = lcMutable q \<and> lcTdz r = lcTdz q"

definition captureLink :: "Env \<Rightarrow> symbol \<Rightarrow> lref \<Rightarrow> lref \<Rightarrow> cref \<Rightarrow> lref \<Rightarrow> bool" where
  "captureLink e symb origin parent c entry \<longleftrightarrow>
     jm_get (captureBySymbol (ctxAt e c)) symb = Some entry \<and>
     (\<exists>caps. captures (ctxAt e c) = Some (caps @ [captureParam (localAt e entry)])) \<and>
     (\<exists>sources. captureSources (ctxAt e c) = sources @ [lcId (localAt e parent)]) \<and>
     lcBoxed (localAt e entry) \<and> sameVariable (localAt e entry) (localAt e origin)"

fun chained :: "Env \<Rightarrow> symbol \<Rightarrow> lref \<Rightarrow> lref \<Rightarrow> cref list \<Rightarrow> lref \<Rightarrow> bool" where
  "chained e symb origin parent [] l = (parent = l)"
| "chained e symb origin parent (c # cs) l =
     (\<exists>entry. captureLink e symb origin parent c entry \<and> chained e symb origin entry cs l)"

text \<open>What threading leaves alone.\<close>

definition untouched :: "Env \<Rightarrow> cref set \<Rightarrow> Env \<Rightarrow> bool" where
  "untouched e cs e' \<longleftrightarrow> (\<forall>c. c \<notin> cs \<longrightarrow> ctxAt e' c = ctxAt e c) \<and> scopeHeap e' = scopeHeap e \<and> fnStack e' = fnStack e \<and>
     length (ctxHeap e') = length (ctxHeap e) \<and>
     length (localHeap e) \<le> length (localHeap e') \<and> (\<forall>l < length (localHeap e). localAt e' l = localAt e l)"

lemma untouched_trans: "untouched e cs e1 \<Longrightarrow> untouched e1 ds e2 \<Longrightarrow> untouched e (cs \<union> ds) e2"
  by (auto simp: untouched_def)

lemma localAt_append: "l < length (localHeap e) \<Longrightarrow> localAt (e\<lparr>localHeap := localHeap e @ rs, threaded := t\<rparr>) l = localAt e l"
  by (simp add: localAt_def nth_append)

lemma localAt_updCtx [env_simps]: "localAt (updCtx c f e) l = localAt e l"
  by (simp add: localAt_def env_simps)

lemma addCapture_link:
  fixes symb :: symbol
  assumes "c < length (ctxHeap e)" "captures (ctxAt e c) = Some caps"
    and "origin < length (localHeap e)" "parent < length (localHeap e)"
  defines "e' \<equiv> addCapture c symb origin parent caps e"
  shows "captureLink e' symb origin parent c (length (localHeap e)) \<and> untouched e {c} e' \<and>
    length (localHeap e') = Suc (length (localHeap e))"
proof -
  have "localAt e' (length (localHeap e)) = captureEntry (localAt e origin) (counterOf (ctxAt e c) (lcName (localAt e origin)))"
      "\<forall>l < length (localHeap e). localAt e' l = localAt e l" "length (localHeap e') = Suc (length (localHeap e))"
    by (simp_all add: e'_def addCapture_def Let_def env_simps) (simp_all add: localAt_def nth_append)
  then show ?thesis
    using assms(1-4)
    by (auto simp: captureLink_def untouched_def sameVariable_def captureEntry_def captureParam_def env_simps jm_get_set
        e'_def addCapture_def Let_def)
qed

lemma captureLink_untouched:
  "captureLink e symb origin parent c entry \<Longrightarrow> untouched e cs e' \<Longrightarrow> c \<notin> cs \<Longrightarrow>
   origin < length (localHeap e) \<Longrightarrow> parent < length (localHeap e) \<Longrightarrow> entry < length (localHeap e) \<Longrightarrow>
   captureLink e' symb origin parent c entry"
  by (simp add: captureLink_def untouched_def)

lemma threadThrough_chain:
  assumes "distinct inner" "origin < length (localHeap e)" "parent < length (localHeap e)"
    and "\<forall>c\<in>set inner. c < length (ctxHeap e) \<and> jm_get (captureBySymbol (ctxAt e c)) symb = None \<and> captures (ctxAt e c) \<noteq> None"
  shows "\<exists>l e'. threadThrough symb origin parent inner e = (Inr l, e') \<and> chained e' symb origin parent inner l \<and>
    untouched e (set inner) e' \<and> l < length (localHeap e')"
  using assms
proof (induction inner arbitrary: e parent)
  case (Cons c cs)
  from Cons.prems(4) obtain caps where c: "c < length (ctxHeap e)" "jm_get (captureBySymbol (ctxAt e c)) symb = None"
      "captures (ctxAt e c) = Some caps" by auto
  define e1 where "e1 = addCapture c symb origin parent caps e"
  have link: "captureLink e1 symb origin parent c (length (localHeap e))" "untouched e {c} e1"
      "length (localHeap e1) = Suc (length (localHeap e))"
    using addCapture_link [OF c(1,3) Cons.prems(2,3)] by (simp_all add: e1_def)
  have "\<forall>d\<in>set cs. d < length (ctxHeap e1) \<and> jm_get (captureBySymbol (ctxAt e1 d)) symb = None \<and> captures (ctxAt e1 d) \<noteq> None"
    using Cons.prems(1,4) link(2) by (auto simp: untouched_def)
  then obtain l e' where l: "threadThrough symb origin (length (localHeap e)) cs e1 = (Inr l, e')"
      "chained e' symb origin (length (localHeap e)) cs l" "untouched e1 (set cs) e'" "l < length (localHeap e')"
    using Cons.IH [of e1 "length (localHeap e)"] Cons.prems(1,2) link(3) by auto
  have "captureLink e' symb origin parent c (length (localHeap e))"
    using captureLink_untouched [OF link(1) l(3)] Cons.prems(1-3) link(3) by simp
  then show ?case
    using l c untouched_trans [OF link(2) l(3)] by (auto simp: e1_def)
qed (simp add: untouched_def)

lemma threadThrough_refused:
  assumes "distinct inner" "\<forall>c\<in>set inner. c < length (ctxHeap e) \<and> jm_get (captureBySymbol (ctxAt e c)) symb = None"
    and "origin < length (localHeap e)" "parent < length (localHeap e)" "\<exists>c\<in>set inner. captures (ctxAt e c) = None"
  shows "fst (threadThrough symb origin parent inner e) = Inl (Refused symb (captureRefusal (lcName (localAt e origin))))"
  using assms
proof (induction inner arbitrary: e parent)
  case (Cons c cs)
  show ?case
  proof (cases "captures (ctxAt e c)")
    case (Some caps)
    define e1 where "e1 = addCapture c symb origin parent caps e"
    have link: "untouched e {c} e1" "length (localHeap e1) = Suc (length (localHeap e))"
      using addCapture_link [OF _ Some, of origin parent symb] Cons.prems(2-4) by (simp_all add: e1_def)
    then have "\<forall>d\<in>set cs. ctxAt e1 d = ctxAt e d" "length (ctxHeap e1) = length (ctxHeap e)"
        "localAt e1 origin = localAt e origin"
      using Cons.prems(1,3) by (auto simp: untouched_def)
    then show ?thesis
      using Cons.IH [of e1 "length (localHeap e)"] Cons.prems Some link by (auto simp: e1_def)
  qed (use Cons.prems in simp)
qed simp

section \<open>Resolution\<close>

text \<open>An open binding: the function that owns it, and the functions inside it up to the current one,
  none of which binds the symbol itself.\<close>

definition capturedAt :: "Env \<Rightarrow> symbol \<Rightarrow> lref \<Rightarrow> cref list \<Rightarrow> bool" where
  "capturedAt e symb origin inner \<longleftrightarrow>
     (\<exists>outer owner. fnStack e = outer @ owner # inner \<and> bindingIn e owner symb = Some origin) \<and>
     inner \<noteq> [] \<and> distinct inner \<and> origin < length (localHeap e) \<and>
     (\<forall>c\<in>set inner. c < length (ctxHeap e) \<and> bindingIn e c symb = None)"

lemma bindingIn_None: "bindingIn e c symb = None \<Longrightarrow> jm_get (captureBySymbol (ctxAt e c)) symb = None"
  by (simp add: bindingIn_def split: option.splits)

lemma resolveBound_captured:
  assumes "capturedAt e symb origin inner"
  shows "resolveBound symb e =
    (if kindOf (lcType (localAt e origin)) = ''caught'' then
       (Inl (Refused symb ''closures capturing catch bindings (narrow into a typed local first)''), e)
     else bindX (threadThrough symb origin origin inner) (\<lambda>l. returnX (Some l)) (boxLocal origin e))"
proof -
  from assms obtain outer owner where st: "fnStack e = outer @ owner # inner" "bindingIn e owner symb = Some origin"
      "inner \<noteq> []" "\<forall>c\<in>set inner. bindingIn e c symb = None"
    by (auto simp: capturedAt_def)
  then have "fnStack e \<noteq> []" "last (fnStack e) = last inner" "butlast (fnStack e) = outer @ owner # butlast inner"
    by (simp_all add: butlast_append)
  moreover have "findOrigin e symb (rev (butlast inner) @ owner # rev outer) [last inner] = Some (origin, inner)"
    using findOrigin_owner [OF st(2), of "rev (butlast inner)" "rev outer" "[last inner]"] st(3,4)
    by (simp add: in_set_butlastD)
  ultimately show ?thesis
    using st(3,4) by (simp add: resolveBound_def bindX_def [of current] current_def)
qed

lemma boxLocal_simps [env_simps]:
  "ctxAt (boxLocal l e) c = ctxAt e c" "length (ctxHeap (boxLocal l e)) = length (ctxHeap e)"
  "length (localHeap (boxLocal l e)) = length (localHeap e)" "scopeHeap (boxLocal l e) = scopeHeap e"
  "fnStack (boxLocal l e) = fnStack e"
  by (simp_all add: boxLocal_def env_simps)

lemma localAt_boxLocal: "l < length (localHeap e) \<Longrightarrow> localAt (boxLocal l e) l = (localAt e l)\<lparr>lcBoxed := True\<rparr>"
  by (simp add: boxLocal_def localAt_def)

lemma lookupScopes_cong: "scopeHeap e' = scopeHeap e \<Longrightarrow> lookupScopes e' symb ss = lookupScopes e symb ss"
  by (induction ss) (simp_all add: scopeAt_def split: option.split)

lemma chained_last:
  "chained e symb origin parent inner l \<Longrightarrow> inner \<noteq> [] \<Longrightarrow> jm_get (captureBySymbol (ctxAt e (last inner))) symb = Some l"
proof (induction inner arbitrary: parent)
  case (Cons c cs)
  then show ?case by (cases "cs = []") (auto simp: captureLink_def)
qed simp

lemma threaded_binding:
  assumes "bindingIn e c symb = None" "ctxScopes (ctxAt e' c) = ctxScopes (ctxAt e c)" "scopeHeap e' = scopeHeap e"
    and "jm_get (captureBySymbol (ctxAt e' c)) symb = Some l"
  shows "bindingIn e' c symb = Some l"
proof -
  note lookupScopes_cong [OF assms(3)]
  moreover have "lookupScopes e symb (rev (ctxScopes (ctxAt e c))) = None"
    using assms(1) by (simp add: bindingIn_def split: option.splits)
  ultimately show ?thesis using assms(2,4) by (simp add: bindingIn_def)
qed

lemma resolveBound_threads:
  assumes at: "capturedAt e symb origin inner"
    and ok: "kindOf (lcType (localAt e origin)) \<noteq> ''caught''" "\<forall>c\<in>set inner. captures (ctxAt e c) \<noteq> None"
  shows "\<exists>l e'. resolveBound symb e = (Inr (Some l), e') \<and> chained e' symb origin origin inner l \<and>
    lcBoxed (localAt e' origin) \<and> bindingIn e' (last inner) symb = Some l \<and> (\<forall>c. c \<notin> set inner \<longrightarrow> ctxAt e' c = ctxAt e c)"
proof -
  let ?b = "boxLocal origin e"
  have "\<forall>c\<in>set inner. c < length (ctxHeap ?b) \<and> jm_get (captureBySymbol (ctxAt ?b c)) symb = None \<and> captures (ctxAt ?b c) \<noteq> None"
    using at ok(2) bindingIn_None by (auto simp: capturedAt_def env_simps)
  then obtain l e' where l: "threadThrough symb origin origin inner ?b = (Inr l, e')" "chained e' symb origin origin inner l"
      "untouched ?b (set inner) e'"
    using threadThrough_chain [of inner origin ?b origin symb] at by (auto simp: capturedAt_def env_simps)
  have res: "resolveBound symb e = (Inr (Some l), e')"
    using resolveBound_captured [OF at] ok(1) l(1) by (simp add: bindX_def returnX_def)
  have last: "last inner \<in> set inner" "bindingIn e (last inner) symb = None" "last inner < length (ctxHeap e)"
    using at by (auto simp: capturedAt_def)
  have "framesKept e e'" using resolveBound_kept [of e symb] res by simp
  then have "bindingIn e' (last inner) symb = Some l"
    using threaded_binding [OF last(2)] chained_last [OF l(2)] l(3) last(3) at
    by (simp add: framesKept_def untouched_def env_simps capturedAt_def)
  moreover have "lcBoxed (localAt e' origin)"
    using l(3) at by (simp add: untouched_def env_simps capturedAt_def localAt_boxLocal)
  ultimately show ?thesis using res l by (auto simp: untouched_def env_simps)
qed

lemma resolveBound_null:
  assumes "fnStack e \<noteq> []"
  shows "fst (resolveBound symb e) = Inr None \<longleftrightarrow> peek e symb = None"
proof -
  let ?c = "last (fnStack e)"
  have st: "rev (fnStack e) = ?c # rev (butlast (fnStack e))"
    using assms by (metis append_butlast_last_id rev.simps(2) rev_rev_ident rev_append append_Cons append_Nil)
  have "fst (bindX (threadThrough symb o' o' inner) (\<lambda>l. returnX (Some l)) e') \<noteq> Inr None" for o' inner e'
    by (simp add: bindX_def returnX_def split: prod.splits sum.splits)
  then show ?thesis
    using assms findOrigin_first [of e symb "rev (butlast (fnStack e))" "[?c]"] unfolding peek_def st
    by (auto simp: resolveBound_def bindX_def [of current] current_def split: option.splits)
qed

section \<open>Properties\<close>

definition emptyEnv :: Env where
  "emptyEnv = \<lparr>localHeap = [], scopeHeap = [], ctxHeap = [], fnStack = [], threaded = []\<rparr>"

text \<open>A program that declares \<^verbatim>\<open>x\<close> twice, captures it from two nested functions, opens a scope that
  throws, and recovers.\<close>

definition demoProgram :: "cmd list" where
  "demoProgram =
     [CFunction False None None JNull
       [CDeclare (Some (Sym 1)) ''x'' JNull True, CDeclare (Some (Sym 2)) ''x'' JNull True,
        CFunction True None None JNull [CFunction True None None JNull [CResolve (Sym 1), CResolve (Sym 2)]],
        CTry [CScope [] [CThrow (TypeError ''lowering failed'')]]]]"

text \<open>The state inside the second of two lifted functions, where the outer one declared \<^verbatim>\<open>x\<close>; and a
  state in which the function in between is a plain one.\<close>

definition demoCtx :: "lref list \<Rightarrow> sref \<Rightarrow> IrParam list option \<Rightarrow> FnCtx" where
  "demoCtx ls sc caps =
     \<lparr>ctxLocals = ls, ctxScopes = [sc], localCounters = map (\<lambda>_. (''x'', 1)) ls, captures = caps, captureSources = [], captureBySymbol = [],
      selfSymbol = None, selfType = None, isAsync = None, generator = None, argumentsLocal = None, returnType = JNull,
      inferReturn = None, ctl = []\<rparr>"

definition demoEnv :: "IrParam list option \<Rightarrow> Env" where
  "demoEnv caps =
     \<lparr>localHeap = [\<lparr>lcId = ''x.0'', lcName = ''x'', lcType = JNull, lcMutable = True, lcBoxed = False, lcTdz = False\<rparr>],
      scopeHeap = [[(Sym 1, 0)], [], []], ctxHeap = [demoCtx [0] 0 None, demoCtx [] 1 caps, demoCtx [] 2 (Some [])],
      fnStack = [0, 1, 2], threaded = []\<rparr>"

text \<open>C29. Frames always close. Whatever a client does inside the environment, in any order, with any
  nesting of functions, scopes and owner environments, and wherever it throws, afterwards the stack
  of open functions and the open scopes of every function are exactly what they were.\<close>

theorem frames_restored:
  "fnStack (snd (runCmds program e)) = fnStack e \<and>
   (\<forall>c \<in> {..< length (ctxHeap e)}. ctxScopes (ctxAt (snd (runCmds program e)) c) = ctxScopes (ctxAt e c))"
  using run_kept(2) [of e program] by (simp add: framesKept_def)

theorem frames_restored_witness:
  "fnStack (snd (runCmds demoProgram (demoEnv None))) = [0, 1, 2] \<and> ctxScopes (ctxAt (snd (runCmds demoProgram (demoEnv None))) 1) = [1]"
  using frames_restored [of demoProgram "demoEnv None"] by (simp add: demoEnv_def demoCtx_def ctxAt_def lessThan_Suc)



text \<open>C27. Resolving a symbol bound in an enclosing function gives a local of the current function. The
  origin is boxed, and every function in between has a new boxed capture of the variable whose
  source is the local the function around it uses; all other functions are untouched, and
  resolving again finds the same local.\<close>

theorem resolve_threads_captures:
  assumes "capturedAt e symb origin inner" "kindOf (lcType (localAt e origin)) \<noteq> ''caught''"
    and "\<forall>c\<in>set inner. captures (ctxAt e c) \<noteq> None"
  shows "\<exists>l e'. resolveBound symb e = (Inr (Some l), e') \<and> chained e' symb origin origin inner l \<and>
    lcBoxed (localAt e' origin) \<and> resolveBound symb e' = (Inr (Some l), e') \<and> (\<forall>c. c \<notin> set inner \<longrightarrow> ctxAt e' c = ctxAt e c)"
proof -
  from resolveBound_threads [OF assms] obtain l e' where res: "resolveBound symb e = (Inr (Some l), e')"
      "chained e' symb origin origin inner l" "lcBoxed (localAt e' origin)" "bindingIn e' (last inner) symb = Some l"
      "\<forall>c. c \<notin> set inner \<longrightarrow> ctxAt e' c = ctxAt e c"
    by blast
  have "fnStack e' = fnStack e" using resolveBound_kept [of e symb] res(1) by (simp add: framesKept_def)
  then have "resolveBound symb e' = (Inr (Some l), e')"
    using assms(1) res(4) by (auto simp: capturedAt_def resolveBound_def bindX_def current_def)
  then show ?thesis using res by blast
qed

lemma demoEnv_captured: "capturedAt (demoEnv caps) (Sym 1) 0 [1, 2]"
  by (simp add: capturedAt_def demoEnv_def demoCtx_def bindingIn_def ctxAt_def scopeAt_def numeral_2_eq_2)

theorem resolve_threads_captures_witness:
  "\<exists>l e'. resolveBound (Sym 1) (demoEnv (Some [])) = (Inr (Some l), e') \<and> chained e' (Sym 1) 0 0 [1, 2] l \<and> lcBoxed (localAt e' 0)"
proof -
  have "kindOf (lcType (localAt (demoEnv (Some [])) 0)) \<noteq> ''caught''" "\<forall>c\<in>set [1, 2]. captures (ctxAt (demoEnv (Some [])) c) \<noteq> None"
    by (simp_all add: demoEnv_def demoCtx_def localAt_def ctxAt_def kindOf_def numeral_2_eq_2)
  from resolve_threads_captures [OF demoEnv_captured this] show ?thesis by blast
qed

text \<open>A capture is refused exactly for a catch binding and for a plain function in between.\<close>

theorem resolve_refuses:
  assumes "capturedAt e symb origin inner"
  shows "(\<exists>msg. fst (resolveBound symb e) = Inl (Refused symb msg)) \<longleftrightarrow>
    kindOf (lcType (localAt e origin)) = ''caught'' \<or> (\<exists>c\<in>set inner. captures (ctxAt e c) = None)"
proof (cases "kindOf (lcType (localAt e origin)) = ''caught''")
  case True
  then show ?thesis using resolveBound_captured [OF assms] by simp
next
  case False
  let ?b = "boxLocal origin e"
  have plain: "fst (resolveBound symb e) = Inl (Refused symb (captureRefusal (lcName (localAt ?b origin))))"
    if "\<exists>c\<in>set inner. captures (ctxAt e c) = None"
    using threadThrough_refused [of inner ?b symb origin origin] that False assms bindingIn_None
    by (auto simp: resolveBound_captured [OF assms] bindX_def capturedAt_def env_simps split: prod.splits)
  then show ?thesis using False resolveBound_threads [OF assms False] by (cases "\<exists>c\<in>set inner. captures (ctxAt e c) = None") auto
qed

text \<open>The read-only query agrees with resolution: \<^verbatim>\<open>peek\<close> finds nothing exactly when
  \<^verbatim>\<open>resolve\<close>, before it asks for a predeclaration, finds nothing.\<close>

theorem peek_agrees:
  assumes "fnStack e \<noteq> []"
  shows "fst (resolveBound symb e) = Inr None \<longleftrightarrow> peek e symb = None"
  using assms by (rule resolveBound_null)

text \<open>Resolution returns: if the predeclaration hook answers true only when it has declared the
  symbol in a function of the stack, \<^verbatim>\<open>resolve\<close> asks it at most once.\<close>

theorem resolve_returns:
  assumes "\<And>e e2. predeclare symb e = (Inr True, e2) \<Longrightarrow> peek e2 symb \<noteq> None"
  shows "\<exists>result. resolve predeclare symb blame e = Some result"
proof -
  have bound: "\<exists>result. resolve predeclare symb blame e2 = Some result" if "peek e2 symb \<noteq> None" for e2
  proof -
    have "fst (resolveBound symb e2) \<noteq> Inr None"
      using resolveBound_null [of e2 symb] that by (cases "fnStack e2 = []") (auto simp: resolveBound_def bindX_def current_def)
    then show ?thesis by (subst resolve.simps) (auto simp: Let_def split: prod.splits)
  qed
  obtain r e1 where step: "resolveBound symb e = (r, e1)" by force
  obtain answer e2 where hook: "predeclare symb e1 = (answer, e2)" by force
  show ?thesis
    using bound [of e2] assms [of e1 e2] hook step
    by (subst resolve.simps) (auto split: sum.splits)
qed

end
