(* ===== verification/Mangle.thy ===== *)
theory Mangle
  imports WyhashSound FfiCallbacks
begin

text \<open>
  Name mangling, \<^verbatim>\<open>backend/mangle.ts\<close>: every emitted C symbol is a fixed prefix and a sanitized
  name or an index. A name is a list of UTF-16 code units, a symbol an ASCII string; the regular
  expression of \<^verbatim>\<open>sanitize\<close> has no \<^verbatim>\<open>u\<close> flag, so it sees one code unit at a time.
\<close>

type_synonym units = "nat list"

section \<open>The code\<close>

definition plainUnit :: "nat \<Rightarrow> bool" where
  "plainUnit u \<longleftrightarrow> (65 \<le> u \<and> u \<le> 90) \<or> (97 \<le> u \<and> u \<le> 122) \<or> (48 \<le> u \<and> u \<le> 57) \<or> u = 95"

definition sanitizeUnit :: "nat \<Rightarrow> string" where
  "sanitizeUnit u = (if plainUnit u then [char_of u] else if u = 46 then ''_'' else ''_x'' @ toHex (int u) @ ''_'')"

definition sanitize :: "units \<Rightarrow> string" where
  "sanitize name = concat (map sanitizeUnit name)"

text \<open>The code units of an ASCII literal.\<close>

definition units :: "string \<Rightarrow> units" where
  "units s = map of_char s"

definition mangleFunction :: "units \<Rightarrow> string" where
  "mangleFunction name = ''sc_f_'' @ sanitize name"

definition mangleLocal :: "units \<Rightarrow> string" where
  "mangleLocal name = ''sc_l_'' @ sanitize name"

definition mangleRawParam :: "units \<Rightarrow> string" where
  "mangleRawParam name = ''sc_p_'' @ sanitize name"

definition mangleWrapper :: "units \<Rightarrow> string" where
  "mangleWrapper name = ''sc_w_'' @ sanitize name"

definition mangleFnClosure :: "units \<Rightarrow> string" where
  "mangleFnClosure name = ''sc_fc_'' @ sanitize name"

definition mangleClassStruct :: "units \<Rightarrow> string" where
  "mangleClassStruct name = ''sc_o_'' @ sanitize name"

definition mangleClassObj :: "units \<Rightarrow> string" where
  "mangleClassObj name = ''sc_co_'' @ sanitize name"

definition mangleCtorThunk :: "units \<Rightarrow> string" where
  "mangleCtorThunk name = ''sc_ct_'' @ sanitize name"

definition mangleClassNew :: "units \<Rightarrow> string" where
  "mangleClassNew name = ''sc_new_'' @ sanitize name"

definition mangleClassRetain :: "units \<Rightarrow> string" where
  "mangleClassRetain name = ''sc_retain_'' @ sanitize name"

definition mangleClassRelease :: "units \<Rightarrow> string" where
  "mangleClassRelease name = ''sc_release_'' @ sanitize name"

definition mangleField :: "units \<Rightarrow> string" where
  "mangleField name = ''sc_fld_'' @ sanitize name"

definition mangleClassReleaseDirect :: "units \<Rightarrow> string" where
  "mangleClassReleaseDirect name = ''sc_reld_'' @ sanitize name"

definition mangleVtStruct :: "units \<Rightarrow> string" where
  "mangleVtStruct name = ''sc_vtt_'' @ sanitize name"

definition mangleVtInstance :: "units \<Rightarrow> string" where
  "mangleVtInstance name = ''sc_vtable_'' @ sanitize name"

definition mangleVtSlot :: "units \<Rightarrow> nat \<Rightarrow> string" where
  "mangleVtSlot method occurrence =
     (if occurrence = 0 then ''sc_vs_'' @ sanitize method else ''sc_vs'' @ intDigits (int occurrence) @ ''_'' @ sanitize method)"

definition mangleVtAdapter :: "units \<Rightarrow> units \<Rightarrow> string" where
  "mangleVtAdapter className method = ''sc_vm_'' @ sanitize (className @ [46] @ method)"

definition mangleClassTrace :: "units \<Rightarrow> string" where
  "mangleClassTrace name = ''sc_trace_'' @ sanitize name"

definition mangleClassGcFree :: "units \<Rightarrow> string" where
  "mangleClassGcFree name = ''sc_gcfree_'' @ sanitize name"

definition mangleRecordStruct :: "units \<Rightarrow> string" where
  "mangleRecordStruct name = ''sc_rs_'' @ sanitize name"

definition mangleRecordNew :: "units \<Rightarrow> string" where
  "mangleRecordNew name = ''sc_rnew_'' @ sanitize name"

definition mangleRecordClone :: "units \<Rightarrow> string" where
  "mangleRecordClone name = ''sc_rclone_'' @ sanitize name"

definition mangleRecordRetain :: "units \<Rightarrow> string" where
  "mangleRecordRetain name = ''sc_rretain_'' @ sanitize name"

definition mangleRecordRelease :: "units \<Rightarrow> string" where
  "mangleRecordRelease name = ''sc_rrelease_'' @ sanitize name"

definition mangleRecordTrace :: "units \<Rightarrow> string" where
  "mangleRecordTrace name = ''sc_rtrace_'' @ sanitize name"

definition mangleRecordGcFree :: "units \<Rightarrow> string" where
  "mangleRecordGcFree name = ''sc_rgcfree_'' @ sanitize name"

text \<open>\<^verbatim>\<open>globalId.replace(/^%g\./, "")\<close>\<close>

definition stripGlobal :: "units \<Rightarrow> units" where
  "stripGlobal g = (if take 3 g = units ''%g.'' then drop 3 g else g)"

definition mangleGlobal :: "units \<Rightarrow> string" where
  "mangleGlobal globalId = ''sc_g_'' @ sanitize (stripGlobal globalId)"

definition mangleAsyncSpawn :: "units \<Rightarrow> string" where
  "mangleAsyncSpawn name = ''sc_as_'' @ sanitize name"

definition mangleTrampoline :: "units \<Rightarrow> string" where
  "mangleTrampoline name = ''sc_tr_'' @ sanitize name"

definition mangleArgPack :: "units \<Rightarrow> string" where
  "mangleArgPack name = ''sc_ap_'' @ sanitize name"

definition mangleGenSpawn :: "units \<Rightarrow> string" where
  "mangleGenSpawn name = ''sc_gs_'' @ sanitize name"

definition mangleGenDrop :: "units \<Rightarrow> string" where
  "mangleGenDrop name = ''sc_gd_'' @ sanitize name"

definition mangleResolveThunk :: "nat \<Rightarrow> string" where
  "mangleResolveThunk n = ''sc_rslv_'' @ intDigits (int n)"

definition mangleGenResThunk :: "nat \<Rightarrow> string" where
  "mangleGenResThunk n = ''sc_gres_'' @ intDigits (int n)"

definition mangleRaceThunk :: "nat \<Rightarrow> string" where
  "mangleRaceThunk n = ''sc_race_'' @ intDigits (int n)"

definition mangleChildExitThunk :: "nat \<Rightarrow> string" where
  "mangleChildExitThunk n = ''sc_chexit_'' @ intDigits (int n)"

definition mangleDgramMsgThunk :: "nat \<Rightarrow> string" where
  "mangleDgramMsgThunk n = ''sc_dgmsg_'' @ intDigits (int n)"

definition mangleChildDataThunk :: "nat \<Rightarrow> string" where
  "mangleChildDataThunk n = ''sc_chdata_'' @ intDigits (int n)"

definition mangleCloseBindThunk :: "nat \<Rightarrow> string" where
  "mangleCloseBindThunk n = ''sc_clsbnd_'' @ intDigits (int n)"

definition mangleCloseOverrideWrap :: "nat \<Rightarrow> string" where
  "mangleCloseOverrideWrap n = ''sc_ovwrap_'' @ intDigits (int n)"

definition mangleDnsLookupThunk :: "nat \<Rightarrow> string" where
  "mangleDnsLookupThunk n = ''sc_dnslk_'' @ intDigits (int n)"

definition mangleFsRenameThunk :: "nat \<Rightarrow> string" where
  "mangleFsRenameThunk n = ''sc_fsren_'' @ intDigits (int n)"

definition mangleReadlineNextThunk :: "nat \<Rightarrow> string" where
  "mangleReadlineNextThunk n = ''sc_rlnext_'' @ intDigits (int n)"

definition mangleSniAnswerThunk :: "nat \<Rightarrow> string" where
  "mangleSniAnswerThunk n = ''sc_snians_'' @ intDigits (int n)"

definition mangleNetLookupAnswerThunk :: "nat \<Rightarrow> string" where
  "mangleNetLookupAnswerThunk n = ''sc_netlk_'' @ intDigits (int n)"

definition mangleConnectSockThunk :: "nat \<Rightarrow> string" where
  "mangleConnectSockThunk n = ''sc_h2conn_'' @ intDigits (int n)"

definition mangleConnectResThunk :: "nat \<Rightarrow> string" where
  "mangleConnectResThunk n = ''sc_h2conn_res_'' @ intDigits (int n)"

definition mangleEmitterInvokeThunk :: "nat \<Rightarrow> string" where
  "mangleEmitterInvokeThunk n = ''sc_eeinv_'' @ intDigits (int n)"

definition mangleStreamCbThunk :: "nat \<Rightarrow> string" where
  "mangleStreamCbThunk n = ''sc_scbinv_'' @ intDigits (int n)"

definition mangleStreamDoneFn :: "nat \<Rightarrow> string" where
  "mangleStreamDoneFn n = ''sc_sdone_'' @ intDigits (int n)"

section \<open>The tables\<close>

text \<open>Every mangler as a relation between symbols and the prefix that starts them.\<close>

definition nameManglers :: "(units \<Rightarrow> string) list" where
  "nameManglers =
     [mangleFunction, mangleLocal, mangleRawParam, mangleWrapper, mangleFnClosure, mangleClassStruct,
      mangleClassObj, mangleCtorThunk, mangleClassNew, mangleClassRetain, mangleClassRelease,
      mangleField, mangleClassReleaseDirect, mangleVtStruct, mangleVtInstance, mangleClassTrace,
      mangleClassGcFree, mangleRecordStruct, mangleRecordNew, mangleRecordClone, mangleRecordRetain,
      mangleRecordRelease, mangleRecordTrace, mangleRecordGcFree, mangleAsyncSpawn, mangleTrampoline,
      mangleArgPack, mangleGenSpawn, mangleGenDrop, mangleGlobal]"

definition namePrefixes :: "string list" where
  "namePrefixes =
     [''sc_f_'', ''sc_l_'', ''sc_p_'', ''sc_w_'', ''sc_fc_'', ''sc_o_'', ''sc_co_'', ''sc_ct_'',
      ''sc_new_'', ''sc_retain_'', ''sc_release_'', ''sc_fld_'', ''sc_reld_'', ''sc_vtt_'',
      ''sc_vtable_'', ''sc_trace_'', ''sc_gcfree_'', ''sc_rs_'', ''sc_rnew_'', ''sc_rclone_'',
      ''sc_rretain_'', ''sc_rrelease_'', ''sc_rtrace_'', ''sc_rgcfree_'', ''sc_as_'', ''sc_tr_'',
      ''sc_ap_'', ''sc_gs_'', ''sc_gd_'', ''sc_g_'']"

definition indexManglers :: "(nat \<Rightarrow> string) list" where
  "indexManglers =
     [mangleResolveThunk, mangleGenResThunk, mangleRaceThunk, mangleChildExitThunk,
      mangleDgramMsgThunk, mangleChildDataThunk, mangleCloseBindThunk, mangleCloseOverrideWrap,
      mangleDnsLookupThunk, mangleFsRenameThunk, mangleReadlineNextThunk, mangleSniAnswerThunk,
      mangleNetLookupAnswerThunk, mangleConnectSockThunk, mangleConnectResThunk,
      mangleEmitterInvokeThunk, mangleStreamCbThunk, mangleStreamDoneFn]"

definition indexPrefixes :: "string list" where
  "indexPrefixes =
     [''sc_rslv_'', ''sc_gres_'', ''sc_race_'', ''sc_chexit_'', ''sc_dgmsg_'', ''sc_chdata_'',
      ''sc_clsbnd_'', ''sc_ovwrap_'', ''sc_dnslk_'', ''sc_fsren_'', ''sc_rlnext_'', ''sc_snians_'',
      ''sc_netlk_'', ''sc_h2conn_'', ''sc_h2conn_res_'', ''sc_eeinv_'', ''sc_scbinv_'', ''sc_sdone_'']"

lemmas name_mangler_defs =
    mangleFunction_def mangleLocal_def mangleRawParam_def mangleWrapper_def mangleFnClosure_def
  mangleClassStruct_def mangleClassObj_def mangleCtorThunk_def mangleClassNew_def mangleClassRetain_def
  mangleClassRelease_def mangleField_def mangleClassReleaseDirect_def mangleVtStruct_def mangleVtInstance_def
  mangleClassTrace_def mangleClassGcFree_def mangleRecordStruct_def mangleRecordNew_def mangleRecordClone_def
  mangleRecordRetain_def mangleRecordRelease_def mangleRecordTrace_def mangleRecordGcFree_def
  mangleAsyncSpawn_def mangleTrampoline_def mangleArgPack_def mangleGenSpawn_def mangleGenDrop_def
  mangleGlobal_def

lemmas index_mangler_defs =
    mangleResolveThunk_def mangleGenResThunk_def mangleRaceThunk_def mangleChildExitThunk_def
  mangleDgramMsgThunk_def mangleChildDataThunk_def mangleCloseBindThunk_def mangleCloseOverrideWrap_def
  mangleDnsLookupThunk_def mangleFsRenameThunk_def mangleReadlineNextThunk_def mangleSniAnswerThunk_def
  mangleNetLookupAnswerThunk_def mangleConnectSockThunk_def mangleConnectResThunk_def
  mangleEmitterInvokeThunk_def mangleStreamCbThunk_def mangleStreamDoneFn_def

end
