(* ===== verification/MangleSound.thy ===== *)
theory MangleSound
  imports Mangle
begin

text \<open>
  What mangling guarantees: symbols are C identifiers, the prefixes partition the namespace (also
  against the callback symbols of the FFI), and names can be read back as long as they do not
  themselves contain the escape.
\<close>

section \<open>Symbols are identifiers\<close>

definition cChar :: "char \<Rightarrow> bool" where
  "cChar c \<longleftrightarrow> plainUnit (of_char c)"

lemma cChar_units: "u < 256 \<Longrightarrow> cChar (char_of u) = plainUnit u"
  by (simp add: cChar_def)

lemma plainUnit_small: "plainUnit u \<Longrightarrow> u < 256"
  by (auto simp: plainUnit_def)

lemma cChar_hex: "c \<in> set HEX_DIGITS \<Longrightarrow> cChar c \<and> c \<noteq> CHR ''_''"
  by (auto simp: HEX_DIGITS_def cChar_def plainUnit_def)

lemma toHex_nat: "set (toHex (int n)) \<subseteq> set HEX_DIGITS \<and> parseHex (toHex (int n)) = int n"
proof -
  have "int n < 16 ^ Suc n" by (induction n) auto
  then show ?thesis using toHex_digits [of "int n" n] by simp
qed

lemma cChar_literals [simp]: "cChar CHR ''_''" "cChar CHR ''x''"
  by (simp_all add: cChar_def plainUnit_def)

lemma cChar_ident: "cChar c \<Longrightarrow> isAlnum c \<or> c = CHR ''_''"
proof -
  assume "cChar c"
  moreover have "(of_char c :: nat) = 95 \<longleftrightarrow> c = CHR ''_''" using of_char_eq_iff [of c "CHR ''_''"] by simp
  moreover have "(of_char c :: int) = int (of_char c)" by (simp add: of_nat_of_char)
  ultimately show ?thesis by (auto simp: cChar_def plainUnit_def isAlnum_def isAlpha_def isDigit_def Let_def)
qed

lemma sanitizeUnit_chars: "list_all cChar (sanitizeUnit u)"
  using toHex_nat [of u] cChar_hex plainUnit_small [of u]
  by (auto simp: sanitizeUnit_def list_all_iff cChar_units)

lemma sanitize_chars: "list_all cChar (sanitize name)"
  using sanitizeUnit_chars by (auto simp: sanitize_def list_all_iff)

section \<open>Reading names back\<close>

function unsanitize :: "string \<Rightarrow> units" where
  "unsanitize [] = []"
| "unsanitize (c # t) =
     (if c = CHR ''_'' \<and> take 1 t = ''x'' then
        (let hex = takeWhile (\<lambda>d. d \<noteq> CHR ''_'') (tl t) in nat (parseHex hex) # unsanitize (drop (length hex + 2) t))
      else of_char c # unsanitize t)"
  by pat_completeness auto
termination by (relation "measure length") auto

text \<open>No dot, and no underscore followed by an \<^verbatim>\<open>x\<close>.\<close>

fun escapeFree :: "units \<Rightarrow> bool" where
  "escapeFree [] = True"
| "escapeFree (u # us) = (u \<noteq> 46 \<and> \<not> (u = 95 \<and> take 1 us = [120]) \<and> escapeFree us)"

lemma sanitize_Cons: "sanitize (u # us) = sanitizeUnit u @ sanitize us"
  by (simp add: sanitize_def)

lemma take1_sanitize: "escapeFree us \<Longrightarrow> take 1 (sanitize us) = ''x'' \<Longrightarrow> take 1 us = [120]"
proof (cases us)
  case (Cons u vs)
  assume us: "escapeFree us" "take 1 (sanitize us) = ''x''"
  then have "plainUnit u" "char_of u = CHR ''x''"
    unfolding Cons sanitize_Cons by (auto simp: sanitizeUnit_def split: if_splits)
  then have "of_char (char_of u :: char) = (120 :: nat)" by simp
  then show ?thesis using plainUnit_small [OF \<open>plainUnit u\<close>] Cons by simp
qed (simp add: sanitize_def)

lemma unsanitize_sanitize: "escapeFree name \<Longrightarrow> unsanitize (sanitize name) = name"
proof (induction name)
  case (Cons u us)
  show ?case
  proof (cases "plainUnit u")
    case True
    have "\<not> (char_of u = CHR ''_'' \<and> take 1 (sanitize us) = ''x'')"
    proof
      assume a: "char_of u = CHR ''_'' \<and> take 1 (sanitize us) = ''x''"
      then have "of_char (char_of u :: char) = (95 :: nat)" by simp
      then have "u = 95" using plainUnit_small [OF True] by simp
      then show False using a take1_sanitize [of us] Cons.prems by simp
    qed
    then show ?thesis
      using Cons True plainUnit_small [OF True] by (auto simp: sanitize_Cons sanitizeUnit_def)
  next
    case False
    have "\<forall>d\<in>set (toHex (int u)). d \<noteq> CHR ''_''" using toHex_nat [of u] cChar_hex by blast
    then have "takeWhile (\<lambda>d. d \<noteq> CHR ''_'') (toHex (int u) @ CHR ''_'' # sanitize us) = toHex (int u)"
      by (subst takeWhile_append2) auto
    then show ?thesis
      using Cons False toHex_nat [of u] by (simp add: sanitize_Cons sanitizeUnit_def Let_def)
  qed
qed (simp add: sanitize_def)

section \<open>The namespace\<close>

datatype symbolKind = ByName nat | ByIndex nat | VtSlot | VtAdapter | FfiCallbackName

inductive emitted :: "symbolKind \<Rightarrow> string \<Rightarrow> bool" where
  em_name: "i < length nameManglers \<Longrightarrow> emitted (ByName i) ((nameManglers ! i) name)"
| em_index: "j < length indexManglers \<Longrightarrow> emitted (ByIndex j) ((indexManglers ! j) n)"
| em_slot: "emitted VtSlot (mangleVtSlot method occurrence)"
| em_adapter: "emitted VtAdapter (mangleVtAdapter className method)"
| em_ffi: "x \<in> possibleNames index \<Longrightarrow> emitted FfiCallbackName x"

definition allPrefixes :: "(symbolKind \<times> string) list" where
  "allPrefixes = map (\<lambda>i. (ByName i, namePrefixes ! i)) [0..<30] @ map (\<lambda>j. (ByIndex j, indexPrefixes ! j)) [0..<18] @
     [(VtSlot, ''sc_vs''), (VtAdapter, ''sc_vm_''), (FfiCallbackName, ''sc_ffi_cb_'')]"

text \<open>One prefix starts another: the two kinds of \<^verbatim>\<open>CONNECT\<close> adapters.\<close>

definition overlapping :: "(symbolKind \<times> symbolKind) list" where
  "overlapping = [(ByIndex 13, ByIndex 14)]"

lemma prefixes_incomparable:
  "list_all (\<lambda>(k, p). list_all (\<lambda>(k', q). k = k' \<or> (k, k') \<in> set overlapping \<or> \<not> startsWith q p) allPrefixes) allPrefixes"
  by code_simp

lemma mangler_prefixes:
  "list_all2 (\<lambda>f p. \<forall>x. startsWith (f x) p) nameManglers namePrefixes"
  "list_all2 (\<lambda>f p. \<forall>x. startsWith (f x) p) indexManglers indexPrefixes"
  by (simp_all add: nameManglers_def namePrefixes_def name_mangler_defs indexManglers_def indexPrefixes_def index_mangler_defs js_eval)

lemma mangler_counts: "length nameManglers = 30" "length indexManglers = 18"
  by (simp_all add: nameManglers_def indexManglers_def)

lemma emitted_prefix: "emitted k s \<Longrightarrow> \<exists>p. (k, p) \<in> set allPrefixes \<and> startsWith s p"
proof (induction rule: emitted.induct)
  case (em_name i name)
  then show ?case
    using list_all2_nthD [OF mangler_prefixes(1), of i] by (auto simp: allPrefixes_def mangler_counts image_iff)
next
  case (em_index j n)
  then show ?case
    using list_all2_nthD [OF mangler_prefixes(2), of j] by (auto simp: allPrefixes_def mangler_counts image_iff)
qed (auto simp: allPrefixes_def mangleVtSlot_def mangleVtAdapter_def possibleNames_def cbSymbol_def cbTls_def cbGlobal_def
    cbTable_def js_eval)

lemma connect_thunks: "mangleConnectSockThunk n \<noteq> mangleConnectResThunk m"
proof
  assume "mangleConnectSockThunk n = mangleConnectResThunk m"
  then have "intDigits (int n) = ''res_'' @ intDigits (int m)"
    by (simp add: mangleConnectSockThunk_def mangleConnectResThunk_def)
  then show False using digits_head [of n] letters_not_digits(2) by simp
qed

lemma emitted_connect: "emitted (ByIndex 13) s \<Longrightarrow> \<not> emitted (ByIndex 14) s"
  using connect_thunks by (auto elim!: emitted.cases simp: indexManglers_def)

lemma emitted_unique:
  assumes "emitted k s" "emitted k' s"
  shows "k = k'"
proof -
  obtain p q where pq: "(k, p) \<in> set allPrefixes" "startsWith s p" "(k', q) \<in> set allPrefixes" "startsWith s q"
    using emitted_prefix [OF assms(1)] emitted_prefix [OF assms(2)] by blast
  then have "startsWith p q \<or> startsWith q p"
    using prefix_same_cases [of p s q] by (auto simp: startsWith_def)
  moreover have "k = k' \<or> (k, k') \<in> set overlapping \<or> \<not> startsWith q p" "k = k' \<or> (k', k) \<in> set overlapping \<or> \<not> startsWith p q"
    using prefixes_incomparable pq by (fastforce simp: list_all_iff)+
  ultimately show ?thesis
    using emitted_connect assms by (auto simp: overlapping_def)
qed

section \<open>Properties\<close>



text \<open>Mangling loses nothing on names that contain no dot and no \<^verbatim>\<open>_x\<close>: the name is read back from
  the symbol, so distinct such names have distinct symbols, and every symbol is a C identifier.\<close>

theorem sanitize_roundtrip:
  assumes "escapeFree name"
  shows "unsanitize (sanitize name) = name \<and> C_IDENT (mangleFunction name)"
proof
  show "unsanitize (sanitize name) = name" using assms by (rule unsanitize_sanitize)
  show "C_IDENT (mangleFunction name)"
    using sanitize_chars [of name] cChar_ident
    by (auto simp: C_IDENT_def mangleFunction_def list_all_iff) (simp_all add: isAlpha_def isAlnum_def)
qed

text \<open>The condition is needed: the escape is not itself escaped, so two different legal
  identifiers, \<^verbatim>\<open>$\<close> and \<^verbatim>\<open>_x24_\<close>, get the same C function symbol.\<close>

theorem sanitize_collision:
  "units ''$'' \<noteq> units ''_x24_'' \<and> mangleFunction (units ''$'') = mangleFunction (units ''_x24_'')"
  by code_simp

end
