(* ===== verification/TargetsSound.thy ===== *)
theory TargetsSound
  imports Targets
begin

text \<open>
  Target selection: only fully described targets are selected, always with a helper that runs on
  the host, and a refusal is given exactly when there is none.
\<close>

lemmas target_defs = MACOS_ARM64_TARGET_def MACOS_X64_TARGET_def LINUX_X64_GNU_TARGET_def LINUX_ARM64_GNU_TARGET_def
  WINDOWS_X64_MSVC_TARGET_def LINUX_X64_MUSL_TARGET_def LINUX_ARM64_MUSL_TARGET_def WASM32_WASI_TARGET_def

text \<open>The columns of the table that selection looks at.\<close>

lemma target_names [simp]:
  "targetName MACOS_ARM64_TARGET = ''macos-arm64''" "targetName MACOS_X64_TARGET = ''macos-x64''"
  "targetName LINUX_X64_GNU_TARGET = ''linux-x64-gnu''" "targetName LINUX_ARM64_GNU_TARGET = ''linux-arm64-gnu''"
  "targetName WINDOWS_X64_MSVC_TARGET = ''windows-x64-msvc''" "targetName LINUX_X64_MUSL_TARGET = ''linux-x64-musl''"
  "targetName LINUX_ARM64_MUSL_TARGET = ''linux-arm64-musl''" "targetName WASM32_WASI_TARGET = ''wasm32-wasi''"
  by (simp_all add: target_defs)

lemma target_hosts [simp]:
  "platform MACOS_ARM64_TARGET = ''darwin''" "architecture MACOS_ARM64_TARGET = ''arm64''"
  "platform MACOS_X64_TARGET = ''darwin''" "architecture MACOS_X64_TARGET = ''x64''"
  "platform LINUX_X64_GNU_TARGET = ''linux''" "architecture LINUX_X64_GNU_TARGET = ''x64''"
  "platform LINUX_ARM64_GNU_TARGET = ''linux''" "architecture LINUX_ARM64_GNU_TARGET = ''arm64''"
  "platform WINDOWS_X64_MSVC_TARGET = ''win32''" "architecture WINDOWS_X64_MSVC_TARGET = ''x64''"
  "platform LINUX_X64_MUSL_TARGET = ''linux''" "architecture LINUX_X64_MUSL_TARGET = ''x64''"
  "platform LINUX_ARM64_MUSL_TARGET = ''linux''" "architecture LINUX_ARM64_MUSL_TARGET = ''arm64''"
  by (simp_all add: target_defs)

definition nativeFor :: "string \<Rightarrow> string \<Rightarrow> NativeTargetSpec \<Rightarrow> bool" where
  "nativeFor plat arch t \<longleftrightarrow> t \<in> set NATIVE_TARGETS \<and> platform t = plat \<and> architecture t = arch"

lemma nativeHostTarget_native: "nativeHostTarget p a r l = Some t \<Longrightarrow> nativeFor p a t"
  by (auto simp: nativeHostTarget_def nativeFor_def NATIVE_TARGETS_def split: if_splits)

lemma named_target:
  "h \<in> set NATIVE_TARGETS \<Longrightarrow> t \<in> set NATIVE_TARGETS \<Longrightarrow> targetName h = targetName t \<Longrightarrow> h = t"
  by (auto simp: NATIVE_TARGETS_def)

lemma hostNamed_target:
  "hostNamed (nativeHostTarget p a r l) (targetName t) \<Longrightarrow> t \<in> set NATIVE_TARGETS \<Longrightarrow> nativeFor p a t"
proof -
  assume "hostNamed (nativeHostTarget p a r l) (targetName t)" "t \<in> set NATIVE_TARGETS"
  then obtain h where "nativeFor p a h" "targetName h = targetName t"
    using nativeHostTarget_native [of p a r l] by (cases "nativeHostTarget p a r l") (auto simp: hostNamed_def)
  then show "nativeFor p a t" using named_target [of h t] \<open>t \<in> set NATIVE_TARGETS\<close> by (simp add: nativeFor_def)
qed

lemma hostIs_target:
  "hostIs (nativeHostTarget p a r l) (platform t) (architecture t) \<Longrightarrow> t \<in> set NATIVE_TARGETS \<Longrightarrow> nativeFor p a t"
  using nativeHostTarget_native by (auto simp: hostIs_def nativeFor_def split: option.splits)

lemma targets_listed:
  "MACOS_ARM64_TARGET \<in> set NATIVE_TARGETS" "MACOS_X64_TARGET \<in> set NATIVE_TARGETS" "LINUX_X64_GNU_TARGET \<in> set NATIVE_TARGETS"
  "LINUX_ARM64_GNU_TARGET \<in> set NATIVE_TARGETS" "WINDOWS_X64_MSVC_TARGET \<in> set NATIVE_TARGETS"
  "LINUX_X64_MUSL_TARGET \<in> set NATIVE_TARGETS" "LINUX_ARM64_MUSL_TARGET \<in> set NATIVE_TARGETS" "WASM32_WASI_TARGET \<in> set NATIVE_TARGETS"
  by (simp_all add: NATIVE_TARGETS_def)

lemma if_SomeE: "(if b then x else y) = Some t \<Longrightarrow> (b \<Longrightarrow> x = Some t \<Longrightarrow> P) \<Longrightarrow> (y = Some t \<Longrightarrow> P) \<Longrightarrow> P"
  by (cases b) simp_all

lemma requestedTarget_native:
  assumes "requestedTarget raw (nativeHostTarget p a r l) p a l = Some t"
  shows "nativeFor p a t \<or> t = WASM32_WASI_TARGET"
proof -
  let ?host = "nativeHostTarget p a r l"
  have named: "hostNamed ?host ''macos-arm64'' \<Longrightarrow> nativeFor p a MACOS_ARM64_TARGET"
      "hostNamed ?host ''macos-x64'' \<Longrightarrow> nativeFor p a MACOS_X64_TARGET"
      "hostNamed ?host ''linux-x64-gnu'' \<Longrightarrow> nativeFor p a LINUX_X64_GNU_TARGET"
      "hostNamed ?host ''linux-arm64-gnu'' \<Longrightarrow> nativeFor p a LINUX_ARM64_GNU_TARGET"
      "hostNamed ?host ''windows-x64-msvc'' \<Longrightarrow> nativeFor p a WINDOWS_X64_MSVC_TARGET"
      "hostIs ?host ''linux'' ''x64'' \<Longrightarrow> nativeFor p a LINUX_X64_MUSL_TARGET"
      "hostIs ?host ''linux'' ''arm64'' \<Longrightarrow> nativeFor p a LINUX_ARM64_MUSL_TARGET"
    using hostNamed_target [of p a r l, OF _ targets_listed(1)] hostNamed_target [of p a r l, OF _ targets_listed(2)]
      hostNamed_target [of p a r l, OF _ targets_listed(3)] hostNamed_target [of p a r l, OF _ targets_listed(4)]
      hostNamed_target [of p a r l, OF _ targets_listed(5)] hostIs_target [of p a r l, OF _ targets_listed(6)]
      hostIs_target [of p a r l, OF _ targets_listed(7)] by simp_all
  show ?thesis
    using assms unfolding requestedTarget_def
    by - (elim if_SomeE; (simp only: option.inject option.distinct)?; blast dest: named nativeHostTarget_native)
qed

section \<open>Properties\<close>


definition linuxHost :: "NativeTargetSpec option" where
  "linuxHost = nativeCodegenTarget [(''SCRIPTC_TARGET'', ''x86_64-linux-musl'')] ''linux'' ''x64'' ''6.1'' ''gnu''"

lemma linuxHost_musl: "linuxHost = Some LINUX_X64_MUSL_TARGET"
  by (simp add: linuxHost_def nativeCodegenTarget_def nativeHostTarget_def requestedTarget_def requestedName_def Let_def
      nativeHelperForTarget_def helperHost_def hostIs_def split: option.split)


text \<open>Without a request the host's own target is selected, on every supported host: its helper is
  never missing. And a refusal text exists exactly when no target does.\<close>

theorem target_default_and_refusal:
  "(requestedName env = [] \<longrightarrow> nativeCodegenTarget env p a r l = nativeHostTarget p a r l) \<and>
   (nativeCodegenTargetRefusal env p a r l = None \<longleftrightarrow> nativeCodegenTarget env p a r l \<noteq> None)"
proof
  show "requestedName env = [] \<longrightarrow> nativeCodegenTarget env p a r l = nativeHostTarget p a r l"
  proof
    assume req: "requestedName env = []"
    have "nativeHelperForTarget t p a l \<noteq> None" if "nativeHostTarget p a r l = Some t" for t
    proof -
      have "helperHost p a l \<noteq> None" using that by (auto simp: nativeHostTarget_def helperHost_def split: if_splits)
      moreover have "platform t = p" "architecture t = a" using nativeHostTarget_native [OF that] by (auto simp: nativeFor_def)
      ultimately show ?thesis by (auto simp: nativeHelperForTarget_def split: option.splits)
    qed
    then show "nativeCodegenTarget env p a r l = nativeHostTarget p a r l"
      by (simp add: nativeCodegenTarget_def Let_def req requestedTarget_def split: option.split)
  qed
  show "nativeCodegenTargetRefusal env p a r l = None \<longleftrightarrow> nativeCodegenTarget env p a r l \<noteq> None"
    by (simp add: nativeCodegenTargetRefusal_def Let_def)
qed

end
