(* ===== verification/SidecarGraph.thy ===== *)
theory SidecarGraph
  imports Prelude
begin

text \<open>
  The two graph computations of the sidecar validator, \<^verbatim>\<open>library/sidecar-validate.ts\<close>: rule V5's
  depth-first search for a cycle of type references, and the loop that closes the reachable
  names for rule V4. Both are total; the search is silent exactly on acyclic graphs, and the loop
  computes the names reachable from its start.
\<close>

type_synonym graph = "(string, string list) jsmap"

definition edgesOf :: "graph \<Rightarrow> string \<Rightarrow> string list" where
  "edgesOf g name = (case jm_get g name of Some s \<Rightarrow> s | None \<Rightarrow> [])"

definition edgeRel :: "graph \<Rightarrow> (string \<times> string) set" where
  "edgeRel g = {(x, y). y \<in> set (edgesOf g x)}"

lemma edgeRel_iff [simp]: "(x, y) \<in> edgeRel g \<longleftrightarrow> y \<in> set (edgesOf g x)"
  by (simp add: edgeRel_def)

lemma edgesOf_key: "y \<in> set (edgesOf g x) \<Longrightarrow> x \<in> set (jm_keys g)"
  using jm_get_keys [of g x] by (cases "jm_get g x") (simp_all add: edgesOf_def)

section \<open>Rule V5\<close>

text \<open>The set \<^verbatim>\<open>visiting\<close> always holds the names of \<^verbatim>\<open>path\<close>: a name is added to it before its
  references are visited with the longer path, and deleted after.\<close>

definition cyclicMsg :: "string list \<Rightarrow> string" where
  "cyclicMsg path = ''V5: the type reference graph is cyclic: '' @ joinWith '' -> '' path"

function visitType :: "graph \<Rightarrow> string list \<Rightarrow> string list \<times> string list \<Rightarrow> string \<Rightarrow> string list \<times> string list" where
  "visitType g path st name =
     (if name \<in> set (fst st) then st
      else if name \<in> set path then (fst st, snd st @ [cyclicMsg (path @ [name])])
      else let st1 = foldl (visitType g (path @ [name])) st (edgesOf g name)
           in (setAdd (fst st1) name, snd st1))"
  by pat_completeness auto
termination
proof (relation "measure (\<lambda>(g, path, _, _). card (set (jm_keys g) - set path))")
  fix g path st name x and st' :: "string list \<times> string list"
  assume "name \<notin> set path" "x \<in> set (edgesOf g name)"
  then have "set (jm_keys g) - set (path @ [name]) \<subset> set (jm_keys g) - set path" using edgesOf_key by auto
  then show "((g, path @ [name], st', x), g, path, st, name) \<in> measure (\<lambda>(g, path, _, _). card (set (jm_keys g) - set path))"
    by (simp add: psubset_card_mono)
qed simp

declare visitType.simps [simp del]

definition checkAcyclic :: "graph \<Rightarrow> string list" where
  "checkAcyclic g = snd (foldl (visitType g []) ([], []) (jm_keys g))"

text \<open>The names that are done are in the order of a topological sort: every reference of a name
  stands before it.\<close>

inductive topo :: "graph \<Rightarrow> string list \<Rightarrow> bool" for g where
  topo_Nil: "topo g []"
| topo_snoc: "topo g ds \<Longrightarrow> x \<notin> set ds \<Longrightarrow> set (edgesOf g x) \<subseteq> set ds \<Longrightarrow> topo g (ds @ [x])"

lemma topo_closed: "topo g ds \<Longrightarrow> x \<in> set ds \<Longrightarrow> set (edgesOf g x) \<subseteq> set ds"
  by (induction rule: topo.induct) auto

lemma topo_acyclic: "topo g ds \<Longrightarrow> x \<in> set ds \<Longrightarrow> (x, y) \<in> (edgeRel g)\<^sup>+ \<Longrightarrow> y \<in> set ds \<and> x \<noteq> y"
proof (induction arbitrary: x y rule: topo.induct)
  case (topo_snoc ds z)
  have inside: "y \<in> set ds \<and> x \<noteq> y" if "x \<in> set ds" "(x, y) \<in> (edgeRel g)\<^sup>+" for x y
    using topo_snoc.IH that by blast
  show ?case
  proof (cases "x \<in> set ds")
    case False
    then have x: "x = z" using topo_snoc.prems by simp
    from tranclD [OF topo_snoc.prems(2)] obtain w where "w \<in> set ds" "(w, y) \<in> (edgeRel g)\<^sup>*"
      using topo_snoc.hyps x by auto
    then have "y \<in> set ds" using inside by (auto simp: rtrancl_eq_or_trancl)
    then show ?thesis using x topo_snoc.hyps by auto
  qed (use inside topo_snoc.prems in auto)
qed simp

text \<open>A silent visit extends the sort, stays off the path and covers the name.\<close>

definition silent :: "graph \<Rightarrow> string list \<Rightarrow> string list \<times> string list \<Rightarrow> string list \<times> string list \<Rightarrow> string set \<Rightarrow> bool" where
  "silent g path st st' xs = (snd st = [] \<and> (topo g (fst st) \<longrightarrow> set (fst st) \<inter> set path = {} \<longrightarrow>
     topo g (fst st') \<and> set (fst st') \<inter> set path = {} \<and> set (fst st) \<union> xs \<subseteq> set (fst st')))"

lemma foldl_silent:
  assumes "\<And>x st. x \<in> set xs \<Longrightarrow> snd (f st x) = [] \<Longrightarrow> silent g path st (f st x) {x}"
  shows "snd (foldl f st xs) = [] \<Longrightarrow> silent g path st (foldl f st xs) (set xs)"
  using assms
proof (induction xs arbitrary: st)
  case (Cons x xs)
  have tail: "silent g path (f st x) (foldl f (f st x) xs) (set xs)"
    using Cons.prems Cons.IH [of "f st x"] by simp
  then have "silent g path st (f st x) {x}" using Cons.prems(2) [of x st] by (simp add: silent_def)
  with tail show ?case by (auto simp: silent_def)
qed (simp add: silent_def)

lemma visitType_silent: "snd (visitType g path st name) = [] \<Longrightarrow> silent g path st (visitType g path st name) {name}"
proof (induction g path st name rule: visitType.induct)
  case (1 g path st name)
  define st1 where "st1 = foldl (visitType g (path @ [name])) st (edgesOf g name)"
  consider "name \<in> set (fst st)" | "name \<notin> set (fst st)" "name \<notin> set path" "snd st1 = []"
      "visitType g path st name = (setAdd (fst st1) name, snd st1)"
    using "1.prems" by (simp add: visitType.simps [of g path st name] st1_def Let_def split: if_splits)
  then show ?case
  proof cases
    case 1
    then show ?thesis using "1.prems" by (simp add: visitType.simps [of g path st name] silent_def)
  next
    case 2
    have "silent g (path @ [name]) st st1 (set (edgesOf g name))"
      using 2(3) unfolding st1_def by (rule foldl_silent [rotated]) (use 1 2 in auto)
    with 2 show ?thesis by (auto simp: silent_def setAdd_def intro: topo_snoc)
  qed
qed

text \<open>A message means a cycle: the path is a chain of references that the name closes.\<close>

lemma visitType_cyclic:
  assumes "snd (visitType g path st name) \<noteq> snd st" "\<forall>i < length path. (path ! i, (path @ [name]) ! Suc i) \<in> edgeRel g"
  shows "\<not> acyclic (edgeRel g)"
  using assms
proof (induction g path st name rule: visitType.induct)
  case (1 g path st name)
  show ?case
  proof (cases "name \<in> set path")
    case True
    then obtain i where i: "i < length path" "path ! i = name" by (auto simp: in_set_conv_nth)
    have "(path ! i, (path @ [name]) ! j) \<in> (edgeRel g)\<^sup>+" if "i < j" "j \<le> length path" for j
      using that
    proof (induction j)
      case (Suc j)
      have e: "((path @ [name]) ! j, (path @ [name]) ! Suc j) \<in> edgeRel g"
        using "1.prems"(2) Suc.prems by (simp add: nth_append)
      show ?case
      proof (cases "i = j")
        case True
        then show ?thesis using e i(1) by (auto simp: nth_append)
      next
        case False
        then show ?thesis using Suc e by (intro trancl_into_trancl [OF Suc.IH]) auto
      qed
    qed simp
    from this [of "length path"] i show ?thesis by (auto simp: acyclic_def)
  next
    case False
    then have out: "snd (foldl (visitType g (path @ [name])) st (edgesOf g name)) \<noteq> snd st" "name \<notin> set (fst st)"
      using "1.prems"(1) by (auto simp: visitType.simps [of g path st name] Let_def split: if_splits)
    have "\<exists>x st'. x \<in> set xs \<and> snd (visitType g (path @ [name]) st' x) \<noteq> snd st'"
      if "snd (foldl (visitType g (path @ [name])) st xs) \<noteq> snd st" for xs st
      using that
    proof (induction xs arbitrary: st)
      case (Cons y ys)
      let ?st = "visitType g (path @ [name]) st y"
      show ?case
      proof (cases "snd ?st = snd st")
        case True
        then have "snd (foldl (visitType g (path @ [name])) ?st ys) \<noteq> snd ?st" using Cons.prems by simp
        from Cons.IH [OF this] show ?thesis by auto
      next
        case False
        then show ?thesis by (meson list.set_intros(1))
      qed
    qed simp
    with out(1) obtain x st' where x: "x \<in> set (edgesOf g name)" "snd (visitType g (path @ [name]) st' x) \<noteq> snd st'" by blast
    have "((path @ [name]) ! i, ((path @ [name]) @ [x]) ! Suc i) \<in> edgeRel g" if "i < length (path @ [name])" for i
    proof (cases "i < length path")
      case True
      then show ?thesis using "1.prems"(2) [rule_format, of i] by (cases "Suc i < length path") (simp_all add: nth_append)
    next
      case False
      then show ?thesis using that x(1) by (simp add: nth_append less_Suc_eq)
    qed
    then show ?thesis using "1.IH" [OF out(2) False x] by blast
  qed
qed

lemma acyclic_keys: "(\<And>x. x \<in> set (jm_keys g) \<Longrightarrow> (x, x) \<notin> (edgeRel g)\<^sup>+) \<Longrightarrow> acyclic (edgeRel g)"
  unfolding acyclic_def by (metis edgeRel_iff edgesOf_key tranclD)

lemma checkAcyclic_exact: "checkAcyclic g = [] \<longleftrightarrow> acyclic (edgeRel g)"
proof
  assume "checkAcyclic g = []"
  then have "silent g [] ([], []) (foldl (visitType g []) ([], []) (jm_keys g)) (set (jm_keys g))"
    unfolding checkAcyclic_def by (rule foldl_silent [rotated]) (rule visitType_silent)
  then have "topo g (fst (foldl (visitType g []) ([], []) (jm_keys g)))"
    "set (jm_keys g) \<subseteq> set (fst (foldl (visitType g []) ([], []) (jm_keys g)))"
    by (simp_all add: silent_def topo_Nil)
  then show "acyclic (edgeRel g)" using topo_acyclic by (intro acyclic_keys) blast
next
  have "snd (foldl (visitType g []) st xs) = snd st" if "acyclic (edgeRel g)" for st xs
  proof (induction xs arbitrary: st)
    case (Cons x xs)
    have "snd (visitType g [] st x) = snd st" using that visitType_cyclic [of g "[]" st x] by auto
    then show ?case using Cons.IH [of "visitType g [] st x"] by simp
  qed simp
  then show "acyclic (edgeRel g) \<Longrightarrow> checkAcyclic g = []" by (simp add: checkAcyclic_def)
qed

section \<open>Closing the reachable names\<close>

text \<open>One round of the loop goes through a copy of the set taken at its start.\<close>

definition reachPass :: "graph \<Rightarrow> string list \<Rightarrow> string list" where
  "reachPass g reach = foldl (\<lambda>r name. foldl setAdd r (edgesOf g name)) reach reach"

lemma set_reachPass: "set (reachPass g reach) = set reach \<union> edgeRel g `` set reach"
proof -
  have "set (foldl (\<lambda>r name. foldl setAdd r (edgesOf g name)) r ns) = set r \<union> edgeRel g `` set ns" for r ns
    by (induction ns arbitrary: r) auto
  then show ?thesis by (simp add: reachPass_def)
qed

definition targets :: "graph \<Rightarrow> string set" where
  "targets g = (\<Union>s\<in>snd ` set g. set s)"

lemma edgesOf_targets: "set (edgesOf g x) \<subseteq> targets g"
  by (cases "jm_get g x") (auto simp: edgesOf_def targets_def jm_get_map_of intro!: bexI dest!: map_of_SomeD)

function reachLoop :: "graph \<Rightarrow> string list \<Rightarrow> string list" where
  "reachLoop g reach = (let r = reachPass g reach in if set r \<subseteq> set reach then r else reachLoop g r)"
  by pat_completeness auto
termination
proof (relation "measure (\<lambda>(g, r). card (targets g - set r))")
  fix g reach r assume r: "r = reachPass g reach" and grew: "\<not> set r \<subseteq> set reach"
  obtain y where "y \<in> edgeRel g `` set reach" "y \<notin> set reach" using grew unfolding r set_reachPass by blast
  moreover from this have "y \<in> targets g" using edgesOf_targets unfolding Image_iff edgeRel_iff by blast
  ultimately have "targets g - set r \<subset> targets g - set reach" unfolding r set_reachPass by blast
  moreover have "finite (targets g)" by (simp add: targets_def)
  ultimately show "((g, r), g, reach) \<in> measure (\<lambda>(g, r). card (targets g - set r))"
    by (simp add: psubset_card_mono)
qed simp

declare reachLoop.simps [simp del]

lemma reachLoop_exact: "set (reachLoop g reach) = (edgeRel g)\<^sup>* `` set reach"
proof (induction g reach rule: reachLoop.induct)
  case (1 g reach)
  show ?case
  proof (cases "set (reachPass g reach) \<subseteq> set reach")
    case True
    then have "edgeRel g `` set reach \<subseteq> set reach" by (simp add: set_reachPass)
    then have "(edgeRel g)\<^sup>* `` set reach = set reach" by (rule Image_closed_trancl)
    moreover have "set (reachPass g reach) = set reach" using True by (auto simp: set_reachPass)
    ultimately show ?thesis by (simp add: reachLoop.simps [of g reach])
  next
    case False
    then have "set (reachLoop g reach) = (edgeRel g)\<^sup>* `` set (reachPass g reach)"
      using 1 by (simp add: reachLoop.simps [of g reach])
    then show ?thesis
      by (auto simp: set_reachPass Image_Un intro: converse_rtrancl_into_rtrancl)
  qed
qed

end
