(* ===== verification/SidecarRules.thy ===== *)
theory SidecarRules
  imports Json ErrorMonad SidecarGraph
begin

text \<open>
  \<^verbatim>\<open>library/sidecar-validate.ts\<close>: the rules V1 to V11 that a library's sidecar document has to
  satisfy, as the emitter checks them on its own output. The tables, sets and the violation list
  that the closures of \<^verbatim>\<open>validateSidecar\<close> share are the fields of a record; each rule is a function
  that returns the updated record. The document is parsed JSON. A \<^verbatim>\<open>for\<close> loop over a value that is
  not iterable throws.
\<close>

section \<open>Tables\<close>

definition TOP_LEVEL_ORDER :: "string list" where
  "TOP_LEVEL_ORDER = [''format'', ''wire_version'', ''abi_version'', ''compiler_version'', ''entry'', ''source_hash'',
     ''build_id'', ''types'', ''model'', ''model_helpers'', ''model_unbound'', ''msg'', ''init_returns_cmd'',
     ''update_returns_cmd'', ''has_subscriptions'', ''channels'', ''abi'', ''integer_slots'', ''deterministic'', ''async_free'']"

definition HASH_RE :: "string \<Rightarrow> bool" where
  "HASH_RE s = (length s = 16 \<and> list_all (\<lambda>c. c \<in> set ''0123456789abcdef'') s)"

definition TYPEREF_KINDS :: "string list" where
  "TYPEREF_KINDS = [''bool'', ''f64'', ''i64'', ''bytes'', ''void'', ''optional'', ''slice'', ''node'', ''value'', ''enum'', ''union'']"

definition FUNCTION_CHANNELS :: "string list" where
  "FUNCTION_CHANNELS = [''command_msg'', ''frame_msg'', ''key_msg'', ''pinch_msg'']"

record Sidecar =
  violations :: "string list"
  structs :: "(string, json) jsmap"
  enums :: "(string, json) jsmap"
  unions :: "(string, json) jsmap"
  reachable :: "string list"
  edges :: graph
  i64Slots :: "string list"
  modelFields :: "string list"
  helperNames :: "string list"
  armDescriptors :: "(string, json) jsmap"
  msgName :: string
  exportSet :: "string list"

definition startSidecar :: Sidecar where
  "startSidecar = \<lparr>violations = [], structs = [], enums = [], unions = [], reachable = [], edges = [], i64Slots = [],
     modelFields = [], helperNames = [], armDescriptors = [], msgName = ''Msg'', exportSet = []\<rparr>"

definition bad :: "string \<Rightarrow> string \<Rightarrow> Sidecar \<Rightarrow> Sidecar" where
  "bad rule msg st = st\<lparr>violations := violations st @ [rule @ '': '' @ msg]\<rparr>"

definition badIf :: "bool \<Rightarrow> string \<Rightarrow> string \<Rightarrow> Sidecar \<Rightarrow> Sidecar" where
  "badIf b rule msg st = (if b then bad rule msg st else st)"

text \<open>The simplifier stays out of the message texts.\<close>

lemma bad_cong [cong]: "st = st' \<Longrightarrow> bad r m st = bad r m st'"
  by simp

lemma badIf_cong [cong]: "b = b' \<Longrightarrow> st = st' \<Longrightarrow> badIf b r m st = badIf b' r m st'"
  by simp

section \<open>Text conversions\<close>

text \<open>\<^verbatim>\<open>String(v)\<close> of a parsed value: null and undefined elements of an array print as nothing.\<close>

function jsString :: "json \<Rightarrow> string" where
  "jsString v = (case v of
     JUndef \<Rightarrow> ''undefined'' | JNull \<Rightarrow> ''null'' | JBool b \<Rightarrow> (if b then ''true'' else ''false'')
   | JNum x \<Rightarrow> numToString x | JStr s \<Rightarrow> s
   | JArr xs \<Rightarrow> joinWith '','' (map (\<lambda>x. if isNullish x then [] else jsString x) xs)
   | JObj _ \<Rightarrow> ''[object Object]'')"
  by pat_completeness auto
termination
proof (relation "measure jsz")
  fix v xs x assume "v = JArr xs" "x \<in> set xs"
  then show "(x, v) \<in> measure jsz" using jsz_arrOf_member [of x v] by simp
qed simp

declare jsString.simps [simp del]

definition dquote :: "string \<Rightarrow> string" where
  "dquote s = CHR 0x22 # s @ [CHR 0x22]"

text \<open>\<^verbatim>\<open>for (const f of v ?? [])\<close>: arrays and strings can be iterated; null and undefined are replaced
  by the empty array.\<close>

fun iterOf :: "json \<Rightarrow> json list res" where
  "iterOf (JArr xs) = Inr xs"
| "iterOf (JStr s) = Inr (map (\<lambda>c. JStr [c]) s)"
| "iterOf JNull = Inr []"
| "iterOf JUndef = Inr []"
| "iterOf _ = Inl ''TypeError''"

section \<open>V1 and V2\<close>

fun isIntegerValue :: "json \<Rightarrow> bool" where
  "isIntegerValue (JNum x) = isInteger x"
| "isIntegerValue _ = False"

definition checkKeys :: "json \<Rightarrow> Sidecar \<Rightarrow> Sidecar" where
  "checkKeys doc st =
     (let keys = map fst (objEntries doc);
          st1 = foldl (\<lambda>st k. badIf (\<not> hasKey k doc) ''V1'' (''required field '' @ squote k @ '' is missing'') st) st TOP_LEVEL_ORDER;
          st2 = foldl (\<lambda>st k. badIf (k \<notin> set TOP_LEVEL_ORDER) ''V1''
                  (''unknown top-level field '' @ squote k @ '' (emit only format-1 fields)'') st) st1 keys;
          present = filter (\<lambda>k. hasKey k doc) TOP_LEVEL_ORDER;
          actual = filter (\<lambda>k. k \<in> set TOP_LEVEL_ORDER) keys
      in badIf (joinWith '','' present \<noteq> joinWith '','' actual) ''V1''
           (''top-level keys are not emitted in the schema'' @ [CHR 0x27] @ ''s '' @ [CHR 0xA7] @ ''1 order'') st2)"

definition checkHeader :: "json \<Rightarrow> Sidecar \<Rightarrow> Sidecar" where
  "checkHeader doc st =
     (let st1 = badIf (fld doc ''format'' \<noteq> JNum (Fin 1)) ''V1''
                  (''format must be 1, found '' @ (if fld doc ''format'' = JUndef then ''undefined'' else stringify (fld doc ''format''))) st;
          st2 = foldl (\<lambda>st k. badIf (\<not> isIntegerValue (fld doc k)) ''V1'' (squote k @ '' must be an integer'') st) st1
                  [''wire_version'', ''abi_version''];
          st3 = foldl (\<lambda>st k. badIf (\<not> isStr (fld doc k) \<or> fld doc k = JStr []) ''V1'' (squote k @ '' must be a non-empty string'') st) st2
                  [''compiler_version'', ''entry'', ''model''];
          st4 = foldl (\<lambda>st k. badIf (\<not> isBoolean (fld doc k)) ''V1'' (squote k @ '' must be a boolean'') st) st3
                  [''init_returns_cmd'', ''update_returns_cmd'', ''has_subscriptions'', ''deterministic'', ''async_free'']
      in badIf (isStr (fld doc ''entry'') \<and> (str_includes (sfld doc ''entry'') [CHR 0x5C] \<or> startsWith (sfld doc ''entry'') ''/'')) ''V1''
           (squote ''entry'' @ '' must be a compilation-root-relative POSIX path'') st4)"

definition checkHashes :: "json \<Rightarrow> Sidecar \<Rightarrow> Sidecar" where
  "checkHashes doc st = foldl (\<lambda>st k. badIf (\<not> isStr (fld doc k) \<or> \<not> HASH_RE (sfld doc k)) ''V2''
     (squote k @ '' must be exactly 16 lowercase hex digits'') st) st [''source_hash'', ''build_id'']"

section \<open>The type table\<close>

definition hasTypeTable :: "json \<Rightarrow> bool" where
  "hasTypeTable types = (isDict types \<and> isArr (fld types ''structs'') \<and> isArr (fld types ''enums'') \<and> isArr (fld types ''unions''))"

definition named :: "Sidecar \<Rightarrow> string \<Rightarrow> bool" where
  "named st name = (jm_has (structs st) name \<or> jm_has (enums st) name \<or> jm_has (unions st) name)"

definition claimName :: "json \<Rightarrow> string \<Rightarrow> Sidecar \<Rightarrow> string option \<times> Sidecar" where
  "claimName name wh st =
     (if \<not> isStr name \<or> name = JStr [] then (None, bad ''V1'' (wh @ '' entry has no name'') st)
      else if named st (strOf name)
      then (None, bad ''V3'' (''type name '' @ squote (strOf name) @ '' appears twice - structs, enums, and unions share one namespace'') st)
      else (Some (strOf name), st))"

definition claimEntry :: "string \<Rightarrow> (string \<Rightarrow> json \<Rightarrow> Sidecar \<Rightarrow> Sidecar) \<Rightarrow> Sidecar \<Rightarrow> json \<Rightarrow> Sidecar" where
  "claimEntry wh put st entry =
     (if \<not> isDict entry then st
      else case claimName (fld entry ''name'') wh st of (None, st1) \<Rightarrow> st1 | (Some name, st1) \<Rightarrow> put name entry st1)"

definition claimStruct :: "Sidecar \<Rightarrow> json \<Rightarrow> Sidecar" where
  "claimStruct = claimEntry ''structs'' (\<lambda>name s st. st\<lparr>structs := jm_set (structs st) name s\<rparr>)"

definition claimEnum :: "Sidecar \<Rightarrow> json \<Rightarrow> Sidecar" where
  "claimEnum = claimEntry ''enums'' (\<lambda>name e st. st\<lparr>enums := jm_set (enums st) name e\<rparr>)"

definition claimUnion :: "Sidecar \<Rightarrow> json \<Rightarrow> Sidecar" where
  "claimUnion = claimEntry ''unions'' (\<lambda>name u st. st\<lparr>unions := jm_set (unions st) name u\<rparr>)"

definition claimTables :: "json \<Rightarrow> Sidecar \<Rightarrow> Sidecar" where
  "claimTables types st =
     foldl claimUnion (foldl claimEnum (foldl claimStruct st (arrOf (fld types ''structs''))) (arrOf (fld types ''enums'')))
       (arrOf (fld types ''unions''))"

section \<open>V4: references\<close>

definition tableOf :: "string \<Rightarrow> Sidecar \<Rightarrow> (string, json) jsmap" where
  "tableOf kind st = (if kind = ''enum'' then enums st else if kind = ''union'' then unions st else structs st)"

definition markRef :: "string option \<Rightarrow> string \<Rightarrow> Sidecar \<Rightarrow> Sidecar" where
  "markRef owner name st =
     (let st1 = st\<lparr>reachable := setAdd (reachable st) name\<rparr> in
      case owner of None \<Rightarrow> st1
      | Some o' \<Rightarrow> st1\<lparr>edges := jm_set (edges st1) o' (setAdd (edgesOf (edges st1) o') name)\<rparr>)"

definition walkNamed :: "json \<Rightarrow> string \<Rightarrow> string option \<Rightarrow> Sidecar \<Rightarrow> Sidecar" where
  "walkNamed ref wh owner st =
     (if \<not> isStr (fld ref ''name'') then bad ''V4'' (wh @ '' names no type'') st
      else if \<not> jm_has (tableOf (kindOf ref) st) (sfld ref ''name'')
      then bad ''V4'' (wh @ '' references '' @ squote (sfld ref ''name'') @ '', which is not a '' @
             (if kindOf ref = ''node'' \<or> kindOf ref = ''value'' then ''struct'' else kindOf ref) @ '' in the type table'') st
      else markRef owner (sfld ref ''name'') st)"

function walkRef :: "json \<Rightarrow> string \<Rightarrow> string option \<Rightarrow> string option \<Rightarrow> Sidecar \<Rightarrow> Sidecar" where
  "walkRef ref wh owner slotPath st =
     (if \<not> isDict ref \<or> \<not> hasKind ref then bad ''V4'' (wh @ '' is not a TypeRef object'') st
      else if kindOf ref \<notin> set TYPEREF_KINDS
      then bad ''V4'' (wh @ '' carries unknown TypeRef kind '' @ squote (kindOf ref)) st
      else if kindOf ref = ''i64''
      then (case slotPath of Some p \<Rightarrow> st\<lparr>i64Slots := i64Slots st @ [p]\<rparr> | None \<Rightarrow> st)
      else if kindOf ref = ''optional'' then walkRef (fld ref ''inner'') (wh @ ''.inner'') owner slotPath st
      else if kindOf ref = ''slice'' then walkRef (fld ref ''elem'') (wh @ ''.elem'') owner None st
      else if kindOf ref \<in> {''node'', ''value'', ''enum'', ''union''} then walkNamed ref wh owner st
      else st)"
  by pat_completeness auto
termination by (relation "measure (\<lambda>(ref, _). jsz ref)") auto

declare walkRef.simps [simp del]

section \<open>V3: the entries of the table\<close>

text \<open>A field of a struct or an arm of a union: the set of names seen is passed along.\<close>

definition walkMember :: "string \<Rightarrow> string \<Rightarrow> string \<Rightarrow> string \<Rightarrow> string list \<times> Sidecar \<Rightarrow> json \<Rightarrow> string list \<times> Sidecar" where
  "walkMember what member typeKey name acc f = (case acc of (seen, st) \<Rightarrow>
     if \<not> isDict f \<or> \<not> isStr (fld f ''name'')
     then (seen, bad ''V1'' (what @ '' '' @ squote name @ '' carries a malformed '' @ member) st)
     else let n = sfld f ''name'';
              st1 = badIf (n \<in> set seen) ''V3'' (what @ '' '' @ squote name @ '' repeats '' @ member @ '' '' @ squote n) st
          in (setAdd seen n, walkRef (fld f typeKey) (what @ '' '' @ squote name @ '' '' @ member @ '' '' @ squote n)
                (Some name) (Some (name @ ''.'' @ n)) st1))"

definition walkStruct :: "Sidecar \<Rightarrow> string \<times> json \<Rightarrow> Sidecar" where
  "walkStruct st entry = (case entry of (name, s) \<Rightarrow>
     let st1 = badIf (hasKey ''synthesized'' s \<and> fld s ''synthesized'' \<noteq> JBool True) ''V1''
                 (''struct '' @ squote name @ '' has a synthesized marker other than literal true'') st
     in if \<not> isArr (fld s ''fields'') then bad ''V1'' (''struct '' @ squote name @ '' has no fields array'') st1
        else snd (foldl (walkMember ''struct'' ''field'' ''type'' name) ([], st1) (arrOf (fld s ''fields''))))"

definition walkEnum :: "Sidecar \<Rightarrow> string \<times> json \<Rightarrow> Sidecar" where
  "walkEnum st entry = (case entry of (name, e) \<Rightarrow>
     let members = fld e ''members'' in
     if \<not> isArr members \<or> list_ex (\<lambda>m. \<not> isStr m) (arrOf members)
     then bad ''V1'' (''enum '' @ squote name @ '' has no string member array'') st
     else badIf (length (foldl setAdd [] (arrOf members)) \<noteq> length (arrOf members)) ''V3''
            (''enum '' @ squote name @ '' repeats a member'') st)"

definition walkUnion :: "Sidecar \<Rightarrow> string \<times> json \<Rightarrow> Sidecar" where
  "walkUnion st entry = (case entry of (name, u) \<Rightarrow>
     if \<not> isArr (fld u ''arms'') then bad ''V1'' (''union '' @ squote name @ '' has no arms array'') st
     else snd (foldl (walkMember ''union'' ''arm'' ''payload'' name) ([], st) (arrOf (fld u ''arms''))))"

section \<open>Model and helpers\<close>

definition addModelField :: "Sidecar \<Rightarrow> json \<Rightarrow> Sidecar" where
  "addModelField st f = (if isDict f \<and> isStr (fld f ''name'')
     then st\<lparr>modelFields := setAdd (modelFields st) (sfld f ''name'')\<rparr> else st)"

definition checkModel :: "json \<Rightarrow> Sidecar \<Rightarrow> Sidecar res" where
  "checkModel doc st =
     (if \<not> isStr (fld doc ''model'') then Inr st
      else let model = sfld doc ''model'' in
        case jm_get (structs st) model of
          None \<Rightarrow> Inr (bad ''V4'' (squote ''model'' @ '' names '' @ squote model @ '', which is not a struct in the type table'') st)
        | Some entry \<Rightarrow>
            let st1 = st\<lparr>reachable := setAdd (reachable st) model\<rparr> in
            bindE (iterOf (fld entry ''fields'')) (\<lambda>fs. Inr (foldl addModelField st1 fs)))"

definition walkParam :: "string \<Rightarrow> Sidecar \<Rightarrow> nat \<times> json \<Rightarrow> Sidecar" where
  "walkParam name st jp = (case jp of (j, p) \<Rightarrow>
     walkRef p (''helper '' @ squote name @ '' params['' @ intDigits (int j) @ '']'') None
       (Some (''helpers.'' @ name @ ''.params['' @ intDigits (int j) @ '']'')) st)"

definition walkHelper :: "Sidecar \<Rightarrow> nat \<times> json \<Rightarrow> Sidecar" where
  "walkHelper st ih = (case ih of (i, h) \<Rightarrow>
     if \<not> isDict h \<or> \<not> isStr (fld h ''name'') \<or> \<not> isBoolean (fld h ''arena'') \<or> \<not> isArr (fld h ''params'')
     then bad ''V1'' (''model_helpers['' @ intDigits (int i) @ ''] is malformed (name/params/returns/arena)'') st
     else let name = sfld h ''name'';
              st1 = badIf (name \<in> set (helperNames st)) ''V3'' (''helper '' @ squote name @ '' appears twice'') st;
              st2 = st1\<lparr>helperNames := setAdd (helperNames st1) name\<rparr>;
              st3 = foldl (walkParam name) st2 (enumerate 0 (arrOf (fld h ''params'')))
          in walkRef (fld h ''returns'') (''helper '' @ squote name @ '' returns'') None (Some (''helpers.'' @ name @ ''.return'')) st3)"

definition checkHelpers :: "json \<Rightarrow> Sidecar \<Rightarrow> Sidecar" where
  "checkHelpers doc st =
     (if \<not> isArr (fld doc ''model_helpers'') then bad ''V1'' (squote ''model_helpers'' @ '' must be an array'') st
      else foldl walkHelper st (enumerate 0 (arrOf (fld doc ''model_helpers''))))"

section \<open>V6 and V7: message arms\<close>

definition isNumberClass :: "json \<Rightarrow> bool" where
  "isNumberClass c = (c = JStr ''f64'' \<or> c = JStr ''i64'')"

definition addSlot :: "string \<Rightarrow> Sidecar \<Rightarrow> Sidecar" where
  "addSlot p st = st\<lparr>i64Slots := i64Slots st @ [p]\<rparr>"

definition numberArm :: "string \<Rightarrow> json \<Rightarrow> Sidecar \<Rightarrow> Sidecar" where
  "numberArm armName d st =
     (if \<not> isNumberClass (fld d ''class'')
      then bad ''V7'' (''msg arm '' @ squote armName @ '': number class must be '' @ dquote ''f64'' @ '' or '' @ dquote ''i64'') st
      else if fld d ''class'' = JStr ''i64'' then addSlot (msgName st @ ''.'' @ armName) st else st)"

definition numberBytesArm :: "string \<Rightarrow> json \<Rightarrow> Sidecar \<Rightarrow> Sidecar" where
  "numberBytesArm armName d st =
     (let nf = fld d ''number_field''; bf = fld d ''bytes_field'';
          st1 = badIf (\<not> isStr nf \<or> \<not> isStr bf \<or> nf = JStr [] \<or> bf = JStr [] \<or> nf = bf) ''V7''
                  (''msg arm '' @ squote armName @ '': number_bytes needs distinct, non-empty number_field and bytes_field'') st
      in if \<not> isNumberClass (fld d ''number_class'')
         then bad ''V7'' (''msg arm '' @ squote armName @ '': number_bytes class must be '' @ dquote ''f64'' @ '' or '' @ dquote ''i64'') st1
         else if fld d ''number_class'' = JStr ''i64'' \<and> isStr nf
         then addSlot (msgName st1 @ ''.'' @ armName @ ''.'' @ strOf nf) st1 else st1)"

definition payloadTable :: "string \<Rightarrow> Sidecar \<Rightarrow> (string, json) jsmap" where
  "payloadTable kind st = (if kind = ''record'' then structs st else if kind = ''union'' then unions st else enums st)"

definition namedArm :: "string \<Rightarrow> json \<Rightarrow> Sidecar \<Rightarrow> Sidecar" where
  "namedArm armName d st =
     (if \<not> isStr (fld d ''name'') \<or> \<not> jm_has (payloadTable (kindOf d) st) (sfld d ''name'')
      then bad ''V4'' (''msg arm '' @ squote armName @ '': '' @ kindOf d @ '' payload does not resolve to a matching table entry'') st
      else st\<lparr>reachable := setAdd (reachable st) (sfld d ''name'')\<rparr>)"

definition scalarArm :: "string \<Rightarrow> json \<Rightarrow> Sidecar \<Rightarrow> Sidecar" where
  "scalarArm armName d st =
     (let t = fld d ''type'';
          st1 = walkRef t (''msg arm '' @ squote armName @ '' scalar payload'') None (Some (msgName st @ ''.'' @ armName)) st
      in badIf (isDict t \<and> fld t ''kind'' \<in> {JStr ''node'', JStr ''value'', JStr ''void''}) ''V7''
           (''msg arm '' @ squote armName @ '': scalar descriptors carry a non-record, non-void TypeRef'') st1)"

definition armPayload :: "string \<Rightarrow> json \<Rightarrow> Sidecar \<Rightarrow> Sidecar" where
  "armPayload armName d st =
     (let k = fld d ''kind'' in
      if k = JStr ''void'' \<or> k = JStr ''bytes'' then st
      else if k = JStr ''number'' then numberArm armName d st
      else if k = JStr ''number_bytes'' then numberBytesArm armName d st
      else if k = JStr ''record'' \<or> k = JStr ''union'' \<or> k = JStr ''enum'' then namedArm armName d st
      else if k = JStr ''scalar'' then scalarArm armName d st
      else bad ''V7'' (''msg arm '' @ squote armName @ '' carries unknown payload descriptor kind '' @ squote (jsString k)) st)"

definition walkArm :: "Sidecar \<Rightarrow> json \<Rightarrow> Sidecar" where
  "walkArm st a =
     (if \<not> isDict a \<or> \<not> isStr (fld a ''name'') \<or> \<not> isDict (fld a ''payload'') then bad ''V1'' ''msg carries a malformed arm'' st
      else let armName = sfld a ''name''; d = fld a ''payload'';
               st1 = badIf (jm_has (armDescriptors st) armName) ''V3'' (''msg repeats arm '' @ squote armName) st
           in armPayload armName d (st1\<lparr>armDescriptors := jm_set (armDescriptors st1) armName d\<rparr>))"

definition hasMsgShape :: "json \<Rightarrow> bool" where
  "hasMsgShape msg = (isDict msg \<and> isStr (fld msg ''name'') \<and> isArr (fld msg ''arms'') \<and> isArr (fld msg ''unbound''))"

definition checkMsg :: "json \<Rightarrow> Sidecar \<Rightarrow> Sidecar" where
  "checkMsg doc st =
     (let msg = fld doc ''msg'' in
      if \<not> hasMsgShape msg then bad ''V1'' (squote ''msg'' @ '' must carry name, arms, and unbound'') st
      else let arms = arrOf (fld msg ''arms'');
               st1 = badIf (256 < length arms) ''V6''
                       (''msg declares '' @ intDigits (int (length arms)) @ '' arms - tags ride a u8, so at most 256 are permitted'')
                       (st\<lparr>msgName := sfld msg ''name''\<rparr>)
           in foldl walkArm st1 arms)"

section \<open>V5, V8 and the ABI\<close>

definition checkV5 :: "Sidecar \<Rightarrow> Sidecar" where
  "checkV5 st = st\<lparr>violations := violations st @ checkAcyclic (edges st)\<rparr>"

definition checkUnbound :: "json \<Rightarrow> Sidecar \<Rightarrow> Sidecar" where
  "checkUnbound doc st =
     (let mu = fld doc ''model_unbound''; msg = fld doc ''msg'';
          st1 = (if \<not> isArr mu \<or> list_ex (\<lambda>x. \<not> isStr x) (arrOf mu)
                 then bad ''V1'' (squote ''model_unbound'' @ '' must be an array of strings'') st
                 else foldl (\<lambda>st x. badIf (strOf x \<notin> set (modelFields st) \<and> strOf x \<notin> set (helperNames st)) ''V8''
                        (''model_unbound names '' @ squote (strOf x) @ '', which is neither a model field nor a helper entry'') st) st (arrOf mu))
      in if isDict msg \<and> isArr (fld msg ''unbound'')
         then foldl (\<lambda>st x. badIf (\<not> isStr x \<or> \<not> jm_has (armDescriptors st) (strOf x)) ''V8''
                (''msg.unbound names '' @ squote (jsString x) @ '', which is not an arm of msg'') st) st1 (arrOf (fld msg ''unbound''))
         else st1)"

definition addExport :: "Sidecar \<Rightarrow> json \<Rightarrow> Sidecar" where
  "addExport st s =
     (if \<not> isStr s \<or> s = JStr [] then bad ''V11'' ''abi.exports carries a non-string suffix'' st
      else let st1 = badIf (strOf s \<in> set (exportSet st)) ''V11'' (''abi.exports repeats suffix '' @ squote (strOf s)) st
           in st1\<lparr>exportSet := setAdd (exportSet st1) (strOf s)\<rparr>)"

definition checkAbi :: "json \<Rightarrow> Sidecar \<Rightarrow> Sidecar" where
  "checkAbi doc st =
     (let abi = fld doc ''abi'' in
      if \<not> isDict abi \<or> \<not> isStr (fld abi ''prefix'') \<or> \<not> isArr (fld abi ''exports'') \<or> \<not> isNumber (fld abi ''snapshot_format'')
      then bad ''V1'' (squote ''abi'' @ '' must carry prefix, exports, and snapshot_format'') st
      else foldl addExport st (arrOf (fld abi ''exports'')))"

section \<open>V9: channels\<close>

definition functionChannel :: "json \<Rightarrow> Sidecar \<Rightarrow> string \<Rightarrow> Sidecar" where
  "functionChannel channels st ch = (case fld channels ch of
     JBool v \<Rightarrow> badIf (v \<noteq> (ch \<in> set (exportSet st))) ''V9''
       (''channels.'' @ ch @ '' is '' @ (if v then ''true'' else ''false'') @ '' but the suffix '' @ squote ch @ '' is '' @
        (if v then ''absent from'' else ''present in'') @ '' abi.exports'') st
   | _ \<Rightarrow> bad ''V1'' (''channels.'' @ ch @ '' must be a boolean'') st)"

definition NAMED_FAMILY :: "json list" where
  "NAMED_FAMILY = [JStr ''record'', JStr ''union'', JStr ''enum'', JStr ''scalar'']"

definition armChannel :: "json \<Rightarrow> Sidecar \<Rightarrow> string \<Rightarrow> Sidecar" where
  "armChannel channels st ch = (case fld channels ch of
     JNull \<Rightarrow> st
   | JStr v \<Rightarrow> (case jm_get (armDescriptors st) v of
       None \<Rightarrow> bad ''V9'' (''channels.'' @ ch @ '' names '' @ squote v @ '', which is not an arm of msg'') st
     | Some d \<Rightarrow> badIf (fld d ''kind'' \<notin> set NAMED_FAMILY) ''V9''
         (''channels.'' @ ch @ '' names arm '' @ squote v @ '', whose descriptor is not of the named-type family'') st)
   | _ \<Rightarrow> bad ''V1'' (''channels.'' @ ch @ '' must be null or an arm name'') st)"

definition envMsg :: "string list \<times> Sidecar \<Rightarrow> json \<Rightarrow> string list \<times> Sidecar" where
  "envMsg acc e = (case acc of (seenEnv, st) \<Rightarrow>
     if \<not> isDict e \<or> \<not> isStr (fld e ''env'') \<or> \<not> isStr (fld e ''msg'')
     then (seenEnv, bad ''V1'' ''channels.env_msgs carries a malformed entry'' st)
     else let env = sfld e ''env''; m = sfld e ''msg'';
              st1 = badIf (env \<in> set seenEnv) ''V9'' (''channels.env_msgs repeats environment variable '' @ squote env) st
          in (setAdd seenEnv env,
              case jm_get (armDescriptors st1) m of
                None \<Rightarrow> bad ''V9'' (''channels.env_msgs targets '' @ squote m @ '', which is not an arm of msg'') st1
              | Some d \<Rightarrow> badIf (fld d ''kind'' \<noteq> JStr ''bytes'') ''V9''
                  (''channels.env_msgs targets arm '' @ squote m @ '', whose descriptor is not {'' @ dquote ''kind'' @ '': '' @ dquote ''bytes'' @ ''}'') st1))"

definition checkChannels :: "json \<Rightarrow> Sidecar \<Rightarrow> Sidecar" where
  "checkChannels doc st =
     (let channels = fld doc ''channels'' in
      if \<not> isDict channels then bad ''V1'' (squote ''channels'' @ '' must be an object'') st
      else let st1 = foldl (functionChannel channels) st FUNCTION_CHANNELS;
               st2 = foldl (armChannel channels) st1 [''appearance_msg'', ''chrome_msg'']
           in if \<not> isArr (fld channels ''env_msgs'') then bad ''V1'' ''channels.env_msgs must be an array'' st2
              else snd (foldl envMsg ([], st2) (arrOf (fld channels ''env_msgs''))))"

section \<open>V4's exactness and V10\<close>

definition checkReachable :: "Sidecar \<Rightarrow> Sidecar" where
  "checkReachable st =
     (let r = reachLoop (edges st) (reachable st) in
      foldl (\<lambda>st name. badIf (name \<notin> set r) ''V4''
          (''table entry '' @ squote name @ '' is unreachable from model, msg, model_helpers, and channels'') st)
        (st\<lparr>reachable := r\<rparr>) (jm_keys (structs st) @ jm_keys (enums st) @ jm_keys (unions st)))"

definition declareSlot :: "string list \<times> Sidecar \<Rightarrow> json \<Rightarrow> string list \<times> Sidecar" where
  "declareSlot acc e = (case acc of (declared, st) \<Rightarrow>
     if \<not> isDict e \<or> \<not> isStr (fld e ''slot'') \<or> (fld e ''class'' \<noteq> JStr ''i64'' \<and> fld e ''class'' \<noteq> JStr ''u64'')
     then (declared, bad ''V1'' ''integer_slots carries a malformed entry'' st)
     else let slot = sfld e ''slot'' in
       (setAdd declared slot, badIf (slot \<in> set declared) ''V10'' (''integer_slots repeats slot '' @ squote slot) st))"

definition checkSlots :: "json \<Rightarrow> Sidecar \<Rightarrow> Sidecar" where
  "checkSlots doc st =
     (if \<not> isArr (fld doc ''integer_slots'')
      then bad ''V1'' (squote ''integer_slots'' @ '' must be an array (empty when no slot is integer-classed)'') st
      else case foldl declareSlot ([], st) (arrOf (fld doc ''integer_slots'')) of (declared, st1) \<Rightarrow>
        let spelled = foldl setAdd [] (i64Slots st1);
            st2 = foldl (\<lambda>st slot. badIf (slot \<notin> set declared) ''V10''
                    (squote slot @ '' is spelled i64 but has no integer_slots entry'') st) st1 spelled
        in foldl (\<lambda>st slot. badIf (slot \<notin> set spelled) ''V10''
             (''integer_slots entry '' @ squote slot @ '' resolves to no slot spelled i64'') st) st2 declared)"

section \<open>The validator\<close>

definition checkTypes :: "Sidecar \<Rightarrow> Sidecar" where
  "checkTypes st = (let st1 = foldl walkStruct st (structs st); st2 = foldl walkEnum st1 (enums st1) in foldl walkUnion st2 (unions st2))"

definition checkRest :: "json \<Rightarrow> Sidecar \<Rightarrow> Sidecar" where
  "checkRest doc st = checkSlots doc (checkReachable (checkChannels doc (checkAbi doc (checkUnbound doc (checkV5 (checkMsg doc (checkHelpers doc st)))))))"

definition validateSidecar :: "json \<Rightarrow> string list res" where
  "validateSidecar doc =
     (if \<not> isDict doc then Inr [''V1: the sidecar is not a JSON object'']
      else let st1 = checkHashes doc (checkHeader doc (checkKeys doc startSidecar)) in
        if \<not> hasTypeTable (fld doc ''types'')
        then Inr (violations (bad ''V1'' (squote ''types'' @ '' must carry the three arrays structs/enums/unions'') st1))
        else bindE (checkModel doc (checkTypes (claimTables (fld doc ''types'') st1))) (\<lambda>st. Inr (violations (checkRest doc st))))"

end
