(* ===== verification/SidecarSound.thy ===== *)
theory SidecarSound
  imports SidecarRules
begin

text \<open>
  What a sidecar document without violations guarantees its readers: every type reference
  resolves, the references form no cycle, every entry of the type table can be reached from the
  model, the messages or the helpers, the declared integer slots are exactly the positions spelled
  \<^verbatim>\<open>i64\<close>, and the channels are wired to exports and message arms that exist. The guarantees are
  stated over the document; the lemmas relate them to the tables the validator builds.
\<close>

section \<open>The document\<close>

definition entriesOf :: "json \<Rightarrow> string \<Rightarrow> (string \<times> json) list" where
  "entriesOf doc table = map (\<lambda>e. (sfld e ''name'', e)) (filter isDict (arrOf (fld (fld doc ''types'') table)))"

type_synonym typeTables = "(string, json) jsmap \<times> (string, json) jsmap \<times> (string, json) jsmap"

definition tablesOf :: "json \<Rightarrow> typeTables" where
  "tablesOf doc = (entriesOf doc ''structs'', entriesOf doc ''enums'', entriesOf doc ''unions'')"

definition typeNames :: "typeTables \<Rightarrow> string list" where
  "typeNames T = (case T of (ss, es, us) \<Rightarrow> map fst ss @ map fst es @ map fst us)"

definition kindTable :: "typeTables \<Rightarrow> string \<Rightarrow> (string, json) jsmap" where
  "kindTable T kind = (case T of (ss, es, us) \<Rightarrow> if kind = ''enum'' then es else if kind = ''union'' then us else ss)"

definition NAMED_KINDS :: "string list" where
  "NAMED_KINDS = [''node'', ''value'', ''enum'', ''union'']"

text \<open>A type reference is well formed when every level has a known kind and a named leaf is in the
  table of its kind.\<close>

function refOk :: "typeTables \<Rightarrow> json \<Rightarrow> bool" where
  "refOk T ref = (hasKind ref \<and> kindOf ref \<in> set TYPEREF_KINDS \<and>
     (if kindOf ref = ''optional'' then refOk T (fld ref ''inner'')
      else if kindOf ref = ''slice'' then refOk T (fld ref ''elem'')
      else kindOf ref \<in> set NAMED_KINDS \<longrightarrow> isStr (fld ref ''name'') \<and> jm_has (kindTable T (kindOf ref)) (sfld ref ''name'')))"
  by pat_completeness auto
termination by (relation "measure (\<lambda>(_, ref). jsz ref)") auto

declare refOk.simps [simp del]

text \<open>The type a reference names, if any, and whether it spells an integer slot: a slice hides
  the slots below it.\<close>

function refName :: "json \<Rightarrow> string option" where
  "refName ref =
     (if kindOf ref = ''optional'' then refName (fld ref ''inner'')
      else if kindOf ref = ''slice'' then refName (fld ref ''elem'')
      else if kindOf ref \<in> set NAMED_KINDS then Some (sfld ref ''name'') else None)"
  by pat_completeness auto
termination by (relation "measure jsz") auto

declare refName.simps [simp del]

function refSlot :: "json \<Rightarrow> bool" where
  "refSlot ref = (if kindOf ref = ''optional'' then refSlot (fld ref ''inner'') else kindOf ref = ''i64'')"
  by pat_completeness auto
termination by (relation "measure jsz") auto

declare refSlot.simps [simp del]

section \<open>Quiet steps\<close>

text \<open>The contract all rule loops share: a step that leaves no violation started from none.\<close>

definition tables :: "Sidecar \<Rightarrow> typeTables" where
  "tables st = (structs st, enums st, unions st)"

locale quiet_step =
  fixes view :: "'s \<Rightarrow> Sidecar" and f :: "'s \<Rightarrow> 'a \<Rightarrow> 's"
  assumes quiet: "violations (view (f s x)) = [] \<Longrightarrow> violations (view s) = []"
begin

lemma fold_quiet: "violations (view (foldl f s xs)) = [] \<Longrightarrow> violations (view s) = []"
proof (induction xs arbitrary: s)
  case (Cons x xs)
  have "violations (view (f s x)) = []" using Cons.IH [of "f s x"] Cons.prems by simp
  then show ?case by (rule quiet)
qed simp

lemma fold_invariant:
  assumes "violations (view (foldl f s xs)) = []" "I [] s"
    "\<And>ys x s. I ys s \<Longrightarrow> violations (view s) = [] \<Longrightarrow> violations (view (f s x)) = [] \<Longrightarrow> x \<in> set xs \<Longrightarrow> I (ys @ [x]) (f s x)"
  shows "I xs (foldl f s xs)"
  using assms
proof (induction xs rule: rev_induct)
  case (snoc x xs)
  have quiet': "violations (view (foldl f s xs)) = []" using snoc.prems(1) by (auto intro: quiet)
  then have "I xs (foldl f s xs)" using snoc.prems(2,3) by (intro snoc.IH) simp_all
  then show ?case using snoc.prems(1) snoc.prems(3) [OF _ quiet'] by simp
qed simp

end

text \<open>Steps that collect references: each adds names, edges and slots that depend on the item
  only, and keeps the tables.\<close>

definition grows :: "Sidecar \<Rightarrow> Sidecar \<Rightarrow> string set \<Rightarrow> (string \<times> string) set \<Rightarrow> string set \<Rightarrow> bool" where
  "grows st st' N E S = (tables st' = tables st \<and> msgName st' = msgName st \<and> exportSet st' = exportSet st \<and>
     set (reachable st') = set (reachable st) \<union> N \<and> edgeRel (edges st') = edgeRel (edges st) \<union> E \<and>
     set (i64Slots st') = set (i64Slots st) \<union> S)"

lemma grows_refl: "grows st st {} {} {}"
  by (simp add: grows_def)

lemma grows_trans: "grows st st1 N E S \<Longrightarrow> grows st1 st2 N' E' S' \<Longrightarrow> grows st st2 (N \<union> N') (E \<union> E') (S \<union> S')"
  by (auto simp: grows_def)

locale growing_step =
  fixes view :: "'s \<Rightarrow> Sidecar" and f :: "'s \<Rightarrow> 'a \<Rightarrow> 's" and ok :: "typeTables \<Rightarrow> 'a \<Rightarrow> bool"
    and N :: "'a \<Rightarrow> string set" and E :: "'a \<Rightarrow> (string \<times> string) set" and S :: "string \<Rightarrow> 'a \<Rightarrow> string set"
  assumes step: "violations (view (f s x)) = [] \<Longrightarrow> violations (view s) = [] \<and> ok (tables (view s)) x \<and>
    grows (view s) (view (f s x)) (N x) (E x) (S (msgName (view s)) x)"
begin

sublocale q: quiet_step view f
  by unfold_locales (use step in blast)

lemma fold_grows:
  "violations (view (foldl f s xs)) = [] \<Longrightarrow> violations (view s) = [] \<and> (\<forall>x\<in>set xs. ok (tables (view s)) x) \<and>
     grows (view s) (view (foldl f s xs)) (\<Union>x\<in>set xs. N x) (\<Union>x\<in>set xs. E x) (\<Union>x\<in>set xs. S (msgName (view s)) x)"
proof (induction xs rule: rev_induct)
  case Nil
  then show ?case by (simp add: grows_refl)
next
  case (snoc x xs)
  let ?m = "view (foldl f s xs)"
  from snoc.prems have st: "violations ?m = []" "ok (tables ?m) x"
    "grows ?m (view (f (foldl f s xs) x)) (N x) (E x) (S (msgName ?m) x)"
    using step [of "foldl f s xs" x] by simp_all
  from snoc.IH [OF st(1)] have IH: "violations (view s) = []" "\<forall>x\<in>set xs. ok (tables (view s)) x"
    "grows (view s) ?m (\<Union>x\<in>set xs. N x) (\<Union>x\<in>set xs. E x) (\<Union>x\<in>set xs. S (msgName (view s)) x)" by simp_all
  then have "tables ?m = tables (view s)" "msgName ?m = msgName (view s)" by (simp_all add: grows_def)
  with st IH grows_trans [OF IH(3) st(3)] show ?case by (simp add: Un_commute)
qed

end

lemma violations_bad [simp]: "violations (bad rule msg st) \<noteq> []"
  by (simp add: bad_def)

lemma violations_badIf [simp]: "violations (badIf b rule msg st) = [] \<longleftrightarrow> \<not> b \<and> violations st = []"
  by (simp add: badIf_def)

lemma badIf_quiet: "violations (badIf b rule msg st) = [] \<Longrightarrow> badIf b rule msg st = st"
  by (simp add: badIf_def split: if_splits)

lemma badIf_False [simp]: "badIf False rule msg st = st"
  by (simp add: badIf_def)

text \<open>A loop that only tests.\<close>

lemma foldl_badIf:
  "violations (foldl (\<lambda>st x. badIf (P x) (r x) (m x) st) st xs) = [] \<longleftrightarrow> violations st = [] \<and> (\<forall>x\<in>set xs. \<not> P x)"
  by (induction xs arbitrary: st) auto

lemma foldl_badIf_same:
  "\<forall>x\<in>set xs. \<not> P x \<Longrightarrow> foldl (\<lambda>st x. badIf (P x) (r x) (m x) st) st xs = st"
  by (induction xs arbitrary: st) auto

lemma foldl_tests:
  assumes "\<And>st x. violations (f st x) = [] \<Longrightarrow> violations st = [] \<and> f st x = st \<and> P st x"
  shows "violations (foldl f st xs) = [] \<Longrightarrow> violations st = [] \<and> foldl f st xs = st \<and> (\<forall>x\<in>set xs. P st x)"
proof (induction xs arbitrary: st)
  case (Cons x xs)
  from Cons.IH [of "f st x"] Cons.prems have IH: "violations (f st x) = []" "foldl f (f st x) xs = f st x" "\<forall>y\<in>set xs. P (f st x) y"
    by simp_all
  from assms [OF IH(1)] IH show ?case by simp
qed simp

section \<open>References\<close>

definition refNames :: "json \<Rightarrow> string set" where
  "refNames ref = set_option (refName ref)"

definition ownerEdges :: "string option \<Rightarrow> json \<Rightarrow> (string \<times> string) set" where
  "ownerEdges owner ref = set_option owner \<times> refNames ref"

definition slotOf :: "string option \<Rightarrow> json \<Rightarrow> string set" where
  "slotOf slotPath ref = (if refSlot ref then set_option slotPath else {})"

lemma edgesOf_jm_set: "edgesOf (jm_set g o' s) x = (if x = o' then s else edgesOf g x)"
  by (simp add: edgesOf_def jm_get_set)

lemma edgeRel_jm_set: "edgeRel (jm_set g o' s) = {(x, y) \<in> edgeRel g. x \<noteq> o'} \<union> {o'} \<times> set s"
  by (auto simp: edgesOf_jm_set split: if_splits)

lemma markRef_grows: "grows st (markRef owner name st) {name} (set_option owner \<times> {name}) {}"
  by (cases owner) (auto simp: markRef_def grows_def tables_def Let_def edgeRel_jm_set)

lemma tableOf_kindTable: "tableOf kind st = kindTable (tables st) kind"
  by (simp add: tableOf_def kindTable_def tables_def)

lemma walkRef_grows:
  "violations (walkRef ref wh owner slotPath st) = [] \<Longrightarrow> violations st = [] \<and> refOk (tables st) ref \<and>
     grows st (walkRef ref wh owner slotPath st) (refNames ref) (ownerEdges owner ref) (slotOf slotPath ref)"
proof (induction ref wh owner slotPath st rule: walkRef.induct)
  case (1 ref wh owner slotPath st)
  note defs = walkRef.simps [of ref wh owner] refOk.simps [of _ ref] refName.simps [of ref] refSlot.simps [of ref]
    refNames_def ownerEdges_def slotOf_def
  have k: "isDict ref" "hasKind ref" "kindOf ref \<in> set TYPEREF_KINDS"
    using "1.prems" by (auto simp: walkRef.simps [of ref wh owner slotPath st] simp del: hasKind.simps split: if_splits)
  consider "kindOf ref = ''i64''" | "kindOf ref = ''optional''" | "kindOf ref = ''slice''"
    | "kindOf ref \<in> set NAMED_KINDS" | "kindOf ref \<notin> set NAMED_KINDS" "kindOf ref \<notin> {''i64'', ''optional'', ''slice''}" by blast
  then show ?case
  proof cases
    case 1
    then show ?thesis using "1.prems" k
      by (cases slotPath) (simp_all add: defs NAMED_KINDS_def grows_def tables_def del: hasKind.simps)
  next
    case 2
    then show ?thesis using 1 k by (simp add: defs del: hasKind.simps)
  next
    case 3
    then show ?thesis using 1 k by (simp add: defs split: if_splits del: hasKind.simps)
  next
    case 4
    then have "kindOf ref \<noteq> ''i64''" "kindOf ref \<noteq> ''optional''" "kindOf ref \<noteq> ''slice''" "kindOf ref \<in> {''node'', ''value'', ''enum'', ''union''}"
      by (auto simp: NAMED_KINDS_def)
    then show ?thesis using "1.prems" k 4 markRef_grows [of st owner "sfld ref ''name''"]
      by (simp add: defs walkNamed_def tableOf_kindTable split: if_splits del: hasKind.simps)
        (auto simp: markRef_def Let_def split: option.splits)
  next
    case 5
    then show ?thesis using "1.prems" k by (simp add: defs NAMED_KINDS_def grows_refl del: hasKind.simps)
  qed
qed

section \<open>The type table\<close>

definition dictEntries :: "json list \<Rightarrow> (string \<times> json) list" where
  "dictEntries xs = map (\<lambda>e. (sfld e ''name'', e)) (filter isDict xs)"

lemma dictEntries_snoc: "dictEntries (xs @ [x]) = dictEntries xs @ (if isDict x then [(sfld x ''name'', x)] else [])"
  by (simp add: dictEntries_def)

lemma named_iff: "named st name \<longleftrightarrow> name \<in> set (typeNames (tables st))"
  using jm_get_keys [of "structs st" name] jm_get_keys [of "enums st" name] jm_get_keys [of "unions st" name]
  by (auto simp: named_def tables_def typeNames_def jm_has_def jm_keys_def)

lemma claimEntry_quiet:
  assumes "violations (claimEntry wh put st e) = []" "\<And>n e st. violations (put n e st) = violations st"
  shows "violations st = []" "\<not> isDict e \<Longrightarrow> claimEntry wh put st e = st"
    "isDict e \<Longrightarrow> sfld e ''name'' \<notin> set (typeNames (tables st)) \<and> claimEntry wh put st e = put (sfld e ''name'') e st"
  using assms by (auto simp: claimEntry_def claimName_def named_iff sfld_def split: if_splits)

interpretation cs: quiet_step "\<lambda>st. st" claimStruct
  by unfold_locales (unfold claimStruct_def, erule claimEntry_quiet(1), simp)

interpretation ce: quiet_step "\<lambda>st. st" claimEnum
  by unfold_locales (unfold claimEnum_def, erule claimEntry_quiet(1), simp)

interpretation cu: quiet_step "\<lambda>st. st" claimUnion
  by unfold_locales (unfold claimUnion_def, erule claimEntry_quiet(1), simp)

lemma jm_set_fresh: "k \<notin> fst ` set m \<Longrightarrow> jm_set m k v = m @ [(k, v)]"
  using jm_get_keys [of m k] by (intro jm_set_absent) (simp add: jm_keys_def)

text \<open>Each of the three loops appends the entries to its own table.\<close>

definition claims :: "((string, json) jsmap \<Rightarrow> Sidecar) \<Rightarrow> json list \<Rightarrow> Sidecar \<Rightarrow> bool" where
  "claims upd xs st = (st = upd (dictEntries xs) \<and> distinct (typeNames (tables (upd (dictEntries xs)))))"

lemma claimStruct_step:
  assumes "claims (\<lambda>ss. st0\<lparr>structs := ss\<rparr>) ys st" "violations (claimStruct st x) = []"
  shows "claims (\<lambda>ss. st0\<lparr>structs := ss\<rparr>) (ys @ [x]) (claimStruct st x)"
  using assms claimEntry_quiet(2,3) [OF assms(2) [unfolded claimStruct_def]]
  by (cases "isDict x") (simp_all add: claims_def claimStruct_def dictEntries_snoc tables_def typeNames_def jm_set_fresh)

lemma claimEnum_step:
  assumes "claims (\<lambda>es. st0\<lparr>enums := es\<rparr>) ys st" "violations (claimEnum st x) = []"
  shows "claims (\<lambda>es. st0\<lparr>enums := es\<rparr>) (ys @ [x]) (claimEnum st x)"
  using assms claimEntry_quiet(2,3) [OF assms(2) [unfolded claimEnum_def]]
  by (cases "isDict x") (simp_all add: claims_def claimEnum_def dictEntries_snoc tables_def typeNames_def jm_set_fresh)

lemma claimUnion_step:
  assumes "claims (\<lambda>us. st0\<lparr>unions := us\<rparr>) ys st" "violations (claimUnion st x) = []"
  shows "claims (\<lambda>us. st0\<lparr>unions := us\<rparr>) (ys @ [x]) (claimUnion st x)"
  using assms claimEntry_quiet(2,3) [OF assms(2) [unfolded claimUnion_def]]
  by (cases "isDict x") (simp_all add: claims_def claimUnion_def dictEntries_snoc tables_def typeNames_def jm_set_fresh)

lemma claimTables_quiet:
  assumes "violations (claimTables types st) = []" "tables st = ([], [], [])"
  shows "violations st = []" "claimTables types st = st\<lparr>structs := dictEntries (arrOf (fld types ''structs'')),
      enums := dictEntries (arrOf (fld types ''enums'')), unions := dictEntries (arrOf (fld types ''unions''))\<rparr>"
    "distinct (typeNames (tables (claimTables types st)))"
proof -
  define s1 where "s1 = foldl claimStruct st (arrOf (fld types ''structs''))"
  define s2 where "s2 = foldl claimEnum s1 (arrOf (fld types ''enums''))"
  have q2: "violations s2 = []"
    using assms(1) unfolding claimTables_def s1_def [symmetric] s2_def [symmetric] by (rule cu.fold_quiet)
  then have q1: "violations s1 = []" unfolding s2_def by (rule ce.fold_quiet)
  then have q0: "violations st = []" unfolding s1_def by (rule cs.fold_quiet)
  note q = q2 q1 q0
  have 1: "claims (\<lambda>ss. st\<lparr>structs := ss\<rparr>) (arrOf (fld types ''structs'')) s1"
    unfolding s1_def
  proof (rule cs.fold_invariant [where I = "claims (\<lambda>ss. st\<lparr>structs := ss\<rparr>)", OF q1 [unfolded s1_def]])
    show "claims (\<lambda>ss. st\<lparr>structs := ss\<rparr>) [] st" using assms(2) by (simp add: claims_def dictEntries_def tables_def typeNames_def)
  qed (rule claimStruct_step)
  have 2: "claims (\<lambda>es. s1\<lparr>enums := es\<rparr>) (arrOf (fld types ''enums'')) s2"
    unfolding s2_def
  proof (rule ce.fold_invariant [where I = "claims (\<lambda>es. s1\<lparr>enums := es\<rparr>)", OF q2 [unfolded s2_def]])
    show "claims (\<lambda>es. s1\<lparr>enums := es\<rparr>) [] s1" using 1 assms(2) by (simp add: claims_def dictEntries_def tables_def typeNames_def)
  qed (rule claimEnum_step)
  have 3: "claims (\<lambda>us. s2\<lparr>unions := us\<rparr>) (arrOf (fld types ''unions'')) (claimTables types st)"
    unfolding claimTables_def s1_def [symmetric] s2_def [symmetric]
  proof (rule cu.fold_invariant [where I = "claims (\<lambda>us. s2\<lparr>unions := us\<rparr>)", OF assms(1) [unfolded claimTables_def, folded s1_def, folded s2_def]])
    show "claims (\<lambda>us. s2\<lparr>unions := us\<rparr>) [] s2" using 1 2 assms(2) by (simp add: claims_def dictEntries_def tables_def typeNames_def)
  qed (rule claimUnion_step)
  show "violations st = []" by (rule q0)
  show "distinct (typeNames (tables (claimTables types st)))" using 3 by (simp add: claims_def)
  show "claimTables types st = st\<lparr>structs := dictEntries (arrOf (fld types ''structs'')),
      enums := dictEntries (arrOf (fld types ''enums'')), unions := dictEntries (arrOf (fld types ''unions''))\<rparr>"
    using 1 2 3 by (simp add: claims_def)
qed

section \<open>Fields and arms\<close>

definition memberOk :: "string \<Rightarrow> typeTables \<Rightarrow> json \<Rightarrow> bool" where
  "memberOk key T f = (isDict f \<and> isStr (fld f ''name'') \<and> refOk T (fld f key))"

definition memberSlots :: "string \<Rightarrow> string \<Rightarrow> json \<Rightarrow> string set" where
  "memberSlots key name f = slotOf (Some (name @ ''.'' @ sfld f ''name'')) (fld f key)"

definition memberEdges :: "string \<Rightarrow> string \<Rightarrow> json \<Rightarrow> (string \<times> string) set" where
  "memberEdges key name f = {name} \<times> refNames (fld f key)"

lemma walkMember_step:
  assumes "violations (snd (walkMember what member key name (seen, st) f)) = []"
  shows "violations st = []" "memberOk key (tables st) f" "sfld f ''name'' \<notin> set seen"
    "fst (walkMember what member key name (seen, st) f) = seen @ [sfld f ''name'']"
    "grows st (snd (walkMember what member key name (seen, st) f)) (refNames (fld f key)) (memberEdges key name f) (memberSlots key name f)"
proof -
  define wh where "wh = what @ '' '' @ squote name @ '' '' @ member @ '' '' @ squote (sfld f ''name'')"
  define st1 where "st1 = badIf (sfld f ''name'' \<in> set seen) ''V3'' (what @ '' '' @ squote name @ '' repeats '' @ member @ '' '' @ squote (sfld f ''name'')) st"
  have eq: "isDict f" "isStr (fld f ''name'')" "walkMember what member key name (seen, st) f =
      (setAdd seen (sfld f ''name''), walkRef (fld f key) wh (Some name) (Some (name @ ''.'' @ sfld f ''name'')) st1)"
    using assms by (auto simp: walkMember_def wh_def st1_def Let_def split: if_splits)
  from assms have w: "violations (walkRef (fld f key) wh (Some name) (Some (name @ ''.'' @ sfld f ''name'')) st1) = []" by (simp add: eq)
  note g = walkRef_grows [OF w]
  have new: "sfld f ''name'' \<notin> set seen" "violations st = []" "st1 = st" using g by (simp_all add: st1_def)
  then show "violations st = []" "sfld f ''name'' \<notin> set seen" by simp_all
  show "fst (walkMember what member key name (seen, st) f) = seen @ [sfld f ''name'']" using new by (simp add: eq setAdd_def)
  show "memberOk key (tables st) f" using g eq new by (simp add: memberOk_def)
  show "grows st (snd (walkMember what member key name (seen, st) f)) (refNames (fld f key)) (memberEdges key name f) (memberSlots key name f)"
    using g eq new by (simp add: ownerEdges_def memberEdges_def memberSlots_def)
qed

interpretation mem: growing_step snd "walkMember what member key name" "memberOk key" "\<lambda>f. refNames (fld f key)"
    "memberEdges key name" "\<lambda>_. memberSlots key name" for what member key name
  by unfold_locales (metis prod.collapse walkMember_step(1,2,5))

definition membersOk :: "string \<Rightarrow> string \<Rightarrow> typeTables \<Rightarrow> string \<times> json \<Rightarrow> bool" where
  "membersOk list key T entry = (let fs = arrOf (fld (snd entry) list) in
     isArr (fld (snd entry) list) \<and> (\<forall>f\<in>set fs. memberOk key T f) \<and> distinct (map (\<lambda>f. sfld f ''name'') fs))"

definition entryNames :: "string \<Rightarrow> string \<Rightarrow> string \<times> json \<Rightarrow> string set" where
  "entryNames list key entry = (\<Union>f\<in>set (arrOf (fld (snd entry) list)). refNames (fld f key))"

definition entryEdges :: "string \<Rightarrow> string \<Rightarrow> string \<times> json \<Rightarrow> (string \<times> string) set" where
  "entryEdges list key entry = {fst entry} \<times> entryNames list key entry"

definition entrySlots :: "string \<Rightarrow> string \<Rightarrow> string \<times> json \<Rightarrow> string set" where
  "entrySlots list key entry = (\<Union>f\<in>set (arrOf (fld (snd entry) list)). memberSlots key (fst entry) f)"

lemma walkMembers_grows:
  assumes "violations (snd (foldl (walkMember what member key name) ([], st) (arrOf (fld s list)))) = []" "isArr (fld s list)"
  shows "violations st = [] \<and> membersOk list key (tables st) (name, s) \<and>
    grows st (snd (foldl (walkMember what member key name) ([], st) (arrOf (fld s list))))
      (entryNames list key (name, s)) (entryEdges list key (name, s)) (entrySlots list key (name, s))"
proof -
  let ?I = "\<lambda>ys acc. fst acc = map (\<lambda>f. sfld f ''name'') ys \<and> distinct (map (\<lambda>f. sfld f ''name'') ys)"
  have "?I (arrOf (fld s list)) (foldl (walkMember what member key name) ([], st) (arrOf (fld s list)))"
  proof (rule mem.q.fold_invariant [where I = ?I, OF assms(1)])
    fix ys x and acc :: "string list \<times> Sidecar"
    assume "?I ys acc" "violations (snd (walkMember what member key name acc x)) = []"
    then show "?I (ys @ [x]) (walkMember what member key name acc x)"
      using walkMember_step(3,4) [of what member key name "fst acc" "snd acc" x] by (cases acc) auto
  qed simp
  moreover have "(\<Union>f\<in>set (arrOf (fld s list)). memberEdges key name f) = entryEdges list key (name, s)"
    by (auto simp: memberEdges_def entryEdges_def entryNames_def)
  ultimately show ?thesis
    using mem.fold_grows [OF assms(1)] assms(2) by (simp add: membersOk_def entryNames_def entrySlots_def Let_def)
qed

lemma walkStruct_step:
  "violations (walkStruct st e) = [] \<Longrightarrow> violations st = [] \<and> membersOk ''fields'' ''type'' (tables st) e \<and>
    grows st (walkStruct st e) (entryNames ''fields'' ''type'' e) (entryEdges ''fields'' ''type'' e) (entrySlots ''fields'' ''type'' e)"
proof -
  assume q: "violations (walkStruct st e) = []"
  obtain name s where e: "e = (name, s)" by (cases e)
  define st1 where "st1 = badIf (hasKey ''synthesized'' s \<and> fld s ''synthesized'' \<noteq> JBool True) ''V1''
    (''struct '' @ squote name @ '' has a synthesized marker other than literal true'') st"
  have w: "isArr (fld s ''fields'')" "walkStruct st e = snd (foldl (walkMember ''struct'' ''field'' ''type'' name) ([], st1) (arrOf (fld s ''fields'')))"
    using q by (auto simp: walkStruct_def e st1_def Let_def split: if_splits)
  from q have "violations (snd (foldl (walkMember ''struct'' ''field'' ''type'' name) ([], st1) (arrOf (fld s ''fields'')))) = []"
    unfolding w(2) .
  from walkMembers_grows [OF this w(1)] have g: "violations st1 = []" "membersOk ''fields'' ''type'' (tables st1) e"
    "grows st1 (walkStruct st e) (entryNames ''fields'' ''type'' e) (entryEdges ''fields'' ''type'' e) (entrySlots ''fields'' ''type'' e)"
    unfolding w(2) [unfolded e] e by simp_all
  then have "violations st = []" "st1 = st" unfolding st1_def by (simp_all add: badIf_quiet)
  with g show ?thesis by simp
qed

lemma walkUnion_step:
  "violations (walkUnion st e) = [] \<Longrightarrow> violations st = [] \<and> membersOk ''arms'' ''payload'' (tables st) e \<and>
    grows st (walkUnion st e) (entryNames ''arms'' ''payload'' e) (entryEdges ''arms'' ''payload'' e) (entrySlots ''arms'' ''payload'' e)"
proof -
  assume q: "violations (walkUnion st e) = []"
  obtain name u where e: "e = (name, u)" by (cases e)
  have w: "isArr (fld u ''arms'')" "walkUnion st e = snd (foldl (walkMember ''union'' ''arm'' ''payload'' name) ([], st) (arrOf (fld u ''arms'')))"
    using q by (auto simp: walkUnion_def e split: if_splits)
  from q have "violations (snd (foldl (walkMember ''union'' ''arm'' ''payload'' name) ([], st) (arrOf (fld u ''arms'')))) = []"
    unfolding w(2) .
  from walkMembers_grows [OF this w(1)] show ?thesis unfolding w(2) [unfolded e] e .
qed

definition enumOk :: "typeTables \<Rightarrow> string \<times> json \<Rightarrow> bool" where
  "enumOk T e = (let ms = fld (snd e) ''members'' in isArr ms \<and> (\<forall>m\<in>set (arrOf ms). isStr m) \<and> distinct (arrOf ms))"

lemma length_foldl_setAdd: "length (foldl setAdd [] xs) = length xs \<longleftrightarrow> distinct xs"
proof -
  have "distinct w \<Longrightarrow> distinct (foldl setAdd w xs)" for w :: "'a list"
    by (induction xs arbitrary: w) (auto simp: setAdd_def)
  moreover have "distinct (w @ xs) \<Longrightarrow> foldl setAdd w xs = w @ xs" for w :: "'a list"
    by (induction xs arbitrary: w) (auto simp: setAdd_def)
  ultimately show ?thesis
    by (metis append_Nil card_distinct distinct.simps(1) distinct_card set_append set_foldl_setAdd)
qed

lemma walkEnum_step: "violations (walkEnum st e) = [] \<Longrightarrow> violations st = [] \<and> enumOk (tables st) e \<and> grows st (walkEnum st e) {} {} {}"
  by (cases e) (auto simp: walkEnum_def enumOk_def Let_def list_ex_iff length_foldl_setAdd grows_refl split: if_splits)

interpretation ws: growing_step "\<lambda>st. st" walkStruct "membersOk ''fields'' ''type''" "entryNames ''fields'' ''type''"
    "entryEdges ''fields'' ''type''" "\<lambda>_. entrySlots ''fields'' ''type''"
  by unfold_locales (rule walkStruct_step)

interpretation wu: growing_step "\<lambda>st. st" walkUnion "membersOk ''arms'' ''payload''" "entryNames ''arms'' ''payload''"
    "entryEdges ''arms'' ''payload''" "\<lambda>_. entrySlots ''arms'' ''payload''"
  by unfold_locales (rule walkUnion_step)

interpretation we: growing_step "\<lambda>st. st" walkEnum enumOk "\<lambda>_. {}" "\<lambda>_. {}" "\<lambda>_ _. {}"
  by unfold_locales (rule walkEnum_step)

section \<open>Types, model and helpers\<close>

definition tableNames :: "typeTables \<Rightarrow> string set" where
  "tableNames T = (case T of (ss, es, us) \<Rightarrow>
     (\<Union>e\<in>set ss. entryNames ''fields'' ''type'' e) \<union> (\<Union>e\<in>set us. entryNames ''arms'' ''payload'' e))"

definition tableEdges :: "typeTables \<Rightarrow> (string \<times> string) set" where
  "tableEdges T = (case T of (ss, es, us) \<Rightarrow>
     (\<Union>e\<in>set ss. entryEdges ''fields'' ''type'' e) \<union> (\<Union>e\<in>set us. entryEdges ''arms'' ''payload'' e))"

definition tableSlots :: "typeTables \<Rightarrow> string set" where
  "tableSlots T = (case T of (ss, es, us) \<Rightarrow>
     (\<Union>e\<in>set ss. entrySlots ''fields'' ''type'' e) \<union> (\<Union>e\<in>set us. entrySlots ''arms'' ''payload'' e))"

definition tableOk :: "typeTables \<Rightarrow> bool" where
  "tableOk T = (case T of (ss, es, us) \<Rightarrow> (\<forall>e\<in>set ss. membersOk ''fields'' ''type'' T e) \<and>
     (\<forall>e\<in>set es. enumOk T e) \<and> (\<forall>e\<in>set us. membersOk ''arms'' ''payload'' T e))"

lemma grows_tables: "grows st st' N E S \<Longrightarrow> tables st' = tables st \<and> structs st' = structs st \<and> enums st' = enums st \<and> unions st' = unions st"
  by (simp add: grows_def tables_def)

lemma checkTypes_grows:
  assumes "violations (checkTypes st) = []"
  shows "violations st = []" "tableOk (tables st)"
    "grows st (checkTypes st) (tableNames (tables st)) (tableEdges (tables st)) (tableSlots (tables st))"
proof -
  define s1 where "s1 = foldl walkStruct st (structs st)"
  define s2 where "s2 = foldl walkEnum s1 (enums s1)"
  have eq: "checkTypes st = foldl walkUnion s2 (unions s2)" by (simp add: checkTypes_def s1_def s2_def Let_def)
  note g3 = wu.fold_grows [OF assms [unfolded eq]]
  then have g2: "violations (foldl walkEnum s1 (enums s1)) = []" by (simp add: s2_def)
  note g2 = we.fold_grows [OF g2]
  then have g1: "violations (foldl walkStruct st (structs st)) = []" by (simp add: s1_def)
  note g1 = ws.fold_grows [OF g1]
  have t1: "tables s1 = tables st" "enums s1 = enums st" using g1 grows_tables unfolding s1_def by blast+
  have t2: "tables s2 = tables st" "unions s2 = unions st" using g2 grows_tables t1 unfolding s2_def by (auto simp: tables_def)
  show "violations st = []" using g1 by blast
  show "tableOk (tables st)" using g1 g2 g3 t1 t2 by (simp add: tableOk_def tables_def)
  have a: "grows st s1 (\<Union>x\<in>set (structs st). entryNames ''fields'' ''type'' x) (\<Union>x\<in>set (structs st). entryEdges ''fields'' ''type'' x)
      (\<Union>x\<in>set (structs st). entrySlots ''fields'' ''type'' x)" using g1 by (simp add: s1_def)
  have b: "grows s1 s2 {} {} {}" using g2 by (simp add: s2_def)
  have c: "grows s2 (checkTypes st) (\<Union>x\<in>set (unions st). entryNames ''arms'' ''payload'' x) (\<Union>x\<in>set (unions st). entryEdges ''arms'' ''payload'' x)
      (\<Union>x\<in>set (unions st). entrySlots ''arms'' ''payload'' x)" using g3 t2 by (simp add: eq)
  show "grows st (checkTypes st) (tableNames (tables st)) (tableEdges (tables st)) (tableSlots (tables st))"
    using grows_trans [OF grows_trans [OF a b] c] by (simp add: tableNames_def tableEdges_def tableSlots_def tables_def)
qed

lemma walkRef_keeps:
  "helperNames (walkRef ref wh owner sp st) = helperNames st" "armDescriptors (walkRef ref wh owner sp st) = armDescriptors st"
  "modelFields (walkRef ref wh owner sp st) = modelFields st" "structs (walkRef ref wh owner sp st) = structs st"
proof (induction ref wh owner sp st rule: walkRef.induct)
  case (1 ref wh owner sp st)
  note simps = walkRef.simps [of ref wh owner sp st] bad_def walkNamed_def markRef_def Let_def
  case 1 show ?case using "1.IH" by (simp add: simps split: option.split)
  case 2 show ?case using "1.IH" by (simp add: simps split: option.split)
  case 3 show ?case using "1.IH" by (simp add: simps split: option.split)
  case 4 show ?case using "1.IH" by (simp add: simps split: option.split)
qed

definition paramSlots :: "string \<Rightarrow> nat \<times> json \<Rightarrow> string set" where
  "paramSlots name jp = slotOf (Some (''helpers.'' @ name @ ''.params['' @ intDigits (int (fst jp)) @ '']'')) (snd jp)"

interpretation wp: growing_step "\<lambda>st. st" "walkParam name" "\<lambda>T jp. refOk T (snd jp)" "\<lambda>jp. refNames (snd jp)"
    "\<lambda>_. {}" "\<lambda>_. paramSlots name" for name
proof unfold_locales
  fix st jp assume "violations (walkParam name st jp) = []"
  then show "violations st = [] \<and> refOk (tables st) (snd jp) \<and> grows st (walkParam name st jp) (refNames (snd jp)) {} (paramSlots name jp)"
    using walkRef_grows [of "snd jp" _ None _ st] by (cases jp) (auto simp: walkParam_def paramSlots_def ownerEdges_def)
qed

definition helperOk :: "typeTables \<Rightarrow> json \<Rightarrow> bool" where
  "helperOk T h = (isDict h \<and> isStr (fld h ''name'') \<and> isBoolean (fld h ''arena'') \<and> isArr (fld h ''params'') \<and>
     (\<forall>p\<in>set (arrOf (fld h ''params'')). refOk T p) \<and> refOk T (fld h ''returns''))"

definition helperRefs :: "json \<Rightarrow> string set" where
  "helperRefs h = (\<Union>p\<in>set (arrOf (fld h ''params'')). refNames p) \<union> refNames (fld h ''returns'')"

definition helperSlots :: "json \<Rightarrow> string set" where
  "helperSlots h = (\<Union>jp\<in>set (enumerate 0 (arrOf (fld h ''params''))). paramSlots (sfld h ''name'') jp) \<union>
     slotOf (Some (''helpers.'' @ sfld h ''name'' @ ''.return'')) (fld h ''returns'')"

lemma enumerate_snd: "(\<Union>jp\<in>set (enumerate n xs). f (snd jp)) = (\<Union>p\<in>set xs. f p)"
  by (induction xs arbitrary: n) auto

lemma enumerate_all: "(\<forall>jp\<in>set (enumerate n xs). P (snd jp)) \<longleftrightarrow> (\<forall>p\<in>set xs. P p)"
  by (induction xs arbitrary: n) auto

lemma foldl_walkParam_keeps: "helperNames (foldl (walkParam name) st jps) = helperNames st"
  by (induction jps arbitrary: st) (auto simp: walkParam_def walkRef_keeps split: prod.splits)

lemma walkHelper_step:
  assumes "violations (walkHelper st ih) = []"
  shows "violations st = []" "helperOk (tables st) (snd ih)" "grows st (walkHelper st ih) (helperRefs (snd ih)) {} (helperSlots (snd ih))"
    "sfld (snd ih) ''name'' \<notin> set (helperNames st)" "helperNames (walkHelper st ih) = helperNames st @ [sfld (snd ih) ''name'']"
proof -
  obtain i h where ih: "ih = (i, h)" by (cases ih)
  let ?name = "sfld h ''name''"
  define st1 where "st1 = badIf (?name \<in> set (helperNames st)) ''V3'' (''helper '' @ squote ?name @ '' appears twice'') st"
  define st2 where "st2 = st1\<lparr>helperNames := setAdd (helperNames st1) ?name\<rparr>"
  define st3 where "st3 = foldl (walkParam ?name) st2 (enumerate 0 (arrOf (fld h ''params'')))"
  have shape: "isDict h" "isStr (fld h ''name'')" "isBoolean (fld h ''arena'')" "isArr (fld h ''params'')"
    and eq: "walkHelper st ih = walkRef (fld h ''returns'') (''helper '' @ squote ?name @ '' returns'') None (Some (''helpers.'' @ ?name @ ''.return'')) st3"
    using assms by (auto simp: walkHelper_def ih st1_def st2_def st3_def Let_def split: if_splits)
  note g4 = walkRef_grows [OF assms [unfolded eq], folded eq]
  then have "violations (foldl (walkParam ?name) st2 (enumerate 0 (arrOf (fld h ''params'')))) = []" by (simp add: st3_def)
  note g3 = wp.fold_grows [OF this]
  then have "violations st1 = []" by (simp add: st2_def)
  then have q: "?name \<notin> set (helperNames st)" "violations st = []" "st1 = st" by (simp_all add: st1_def)
  then show "violations st = []" "sfld (snd ih) ''name'' \<notin> set (helperNames st)" by (simp_all add: ih)
  show "helperNames (walkHelper st ih) = helperNames st @ [sfld (snd ih) ''name'']"
    unfolding eq using q by (simp add: walkRef_keeps st3_def foldl_walkParam_keeps st2_def setAdd_def ih)
  have g23: "grows st st3 (\<Union>p\<in>set (arrOf (fld h ''params'')). refNames p) {} (\<Union>jp\<in>set (enumerate 0 (arrOf (fld h ''params''))). paramSlots ?name jp)"
    using g3 q by (simp add: st3_def st2_def grows_def tables_def enumerate_snd)
  then show "grows st (walkHelper st ih) (helperRefs (snd ih)) {} (helperSlots (snd ih))"
    using grows_trans [OF g23] g4 by (simp add: helperRefs_def helperSlots_def ownerEdges_def ih)
  have "tables st3 = tables st" "tables st2 = tables st" using g23 q by (simp_all add: grows_def st2_def tables_def)
  then show "helperOk (tables st) (snd ih)" using shape g3 g4 by (simp add: helperOk_def ih enumerate_all)
qed

interpretation wh: growing_step "\<lambda>st. st" walkHelper "\<lambda>T ih. helperOk T (snd ih)" "\<lambda>ih. helperRefs (snd ih)"
    "\<lambda>_. {}" "\<lambda>_ ih. helperSlots (snd ih)"
  by unfold_locales (blast dest: walkHelper_step(1-3))

section \<open>Message arms\<close>

definition payloadOk :: "typeTables \<Rightarrow> json \<Rightarrow> bool" where
  "payloadOk T d = (let k = fld d ''kind'' in
     k = JStr ''void'' \<or> k = JStr ''bytes'' \<or>
     k = JStr ''number'' \<and> isNumberClass (fld d ''class'') \<or>
     k = JStr ''number_bytes'' \<and> isNumberClass (fld d ''number_class'') \<and> isStr (fld d ''number_field'') \<and>
       isStr (fld d ''bytes_field'') \<and> fld d ''number_field'' \<noteq> fld d ''bytes_field'' \<or>
     k = JStr ''record'' \<and> isStr (fld d ''name'') \<and> jm_has (kindTable T ''node'') (sfld d ''name'') \<or>
     k = JStr ''union'' \<and> isStr (fld d ''name'') \<and> jm_has (kindTable T ''union'') (sfld d ''name'') \<or>
     k = JStr ''enum'' \<and> isStr (fld d ''name'') \<and> jm_has (kindTable T ''enum'') (sfld d ''name'') \<or>
     k = JStr ''scalar'' \<and> refOk T (fld d ''type'') \<and> kindOf (fld d ''type'') \<notin> {''node'', ''value'', ''void''})"

definition payloadNames :: "json \<Rightarrow> string set" where
  "payloadNames d = (if kindOf d \<in> {''record'', ''union'', ''enum''} then {sfld d ''name''}
     else if kindOf d = ''scalar'' then refNames (fld d ''type'') else {})"

definition payloadSlots :: "string \<Rightarrow> json \<Rightarrow> string set" where
  "payloadSlots path d =
     (if kindOf d = ''number'' then (if fld d ''class'' = JStr ''i64'' then {path} else {})
      else if kindOf d = ''number_bytes'' then
        (if fld d ''number_class'' = JStr ''i64'' then {path @ ''.'' @ sfld d ''number_field''} else {})
      else if kindOf d = ''scalar'' then slotOf (Some path) (fld d ''type'') else {})"

lemma kindOf_JStr: "fld d ''kind'' = JStr k \<Longrightarrow> kindOf d = k"
  by (simp add: kindOf_def)

lemma addSlot_grows: "grows st (addSlot p st) {} {} {p}"
  by (simp add: addSlot_def grows_def tables_def)

lemma violations_addSlot [simp]: "violations (addSlot p st) = violations st"
  by (simp add: addSlot_def)

lemma numberArm_step:
  "violations (numberArm a d st) = [] \<Longrightarrow> violations st = [] \<and> isNumberClass (fld d ''class'') \<and>
     grows st (numberArm a d st) {} {} (if fld d ''class'' = JStr ''i64'' then {msgName st @ ''.'' @ a} else {})"
  by (auto simp: numberArm_def grows_refl addSlot_grows split: if_splits)

lemma numberBytesArm_step:
  assumes "violations (numberBytesArm a d st) = []"
  shows "violations st = [] \<and> isNumberClass (fld d ''number_class'') \<and> isStr (fld d ''number_field'') \<and> isStr (fld d ''bytes_field'') \<and>
     fld d ''number_field'' \<noteq> fld d ''bytes_field'' \<and>
     grows st (numberBytesArm a d st) {} {} (if fld d ''number_class'' = JStr ''i64'' then {msgName st @ ''.'' @ a @ ''.'' @ sfld d ''number_field''} else {})"
  using assms by (auto simp: numberBytesArm_def Let_def grows_refl addSlot_grows sfld_def split: if_splits)

lemma namedArm_step:
  "violations (namedArm a d st) = [] \<Longrightarrow> violations st = [] \<and> isStr (fld d ''name'') \<and> jm_has (payloadTable (kindOf d) st) (sfld d ''name'') \<and>
     grows st (namedArm a d st) {sfld d ''name''} {} {}"
  by (auto simp: namedArm_def grows_def tables_def split: if_splits)

lemma scalarArm_step:
  assumes "violations (scalarArm a d st) = []"
  shows "violations st = [] \<and> refOk (tables st) (fld d ''type'') \<and> kindOf (fld d ''type'') \<notin> {''node'', ''value'', ''void''} \<and>
     grows st (scalarArm a d st) (refNames (fld d ''type'')) {} (slotOf (Some (msgName st @ ''.'' @ a)) (fld d ''type''))"
proof -
  let ?w = "walkRef (fld d ''type'') (''msg arm '' @ squote a @ '' scalar payload'') None (Some (msgName st @ ''.'' @ a)) st"
  have q: "violations ?w = []" "\<not> (isDict (fld d ''type'') \<and> fld (fld d ''type'') ''kind'' \<in> {JStr ''node'', JStr ''value'', JStr ''void''})"
    using assms by (simp_all add: scalarArm_def Let_def)
  have eq: "scalarArm a d st = ?w" using assms unfolding scalarArm_def Let_def by (rule badIf_quiet)
  note g = walkRef_grows [OF q(1)]
  then have "hasKind (fld d ''type'')" by (subst (asm) refOk.simps) simp
  then have "kindOf (fld d ''type'') \<notin> {''node'', ''value'', ''void''}"
    using q(2) by (cases "fld d ''type''") (auto simp: kindOf_def split: json.splits)
  then show ?thesis using g unfolding eq by (simp add: ownerEdges_def)
qed

lemma armPayload_step:
  assumes "violations (armPayload a d st) = []"
  shows "violations st = [] \<and> payloadOk (tables st) d \<and> grows st (armPayload a d st) (payloadNames d) {} (payloadSlots (msgName st @ ''.'' @ a) d)"
proof -
  have tbl: "payloadTable ''record'' st = kindTable (tables st) ''node''" "payloadTable ''union'' st = kindTable (tables st) ''union''"
    "payloadTable ''enum'' st = kindTable (tables st) ''enum''"
    by (simp_all add: payloadTable_def kindTable_def tables_def)
  consider "fld d ''kind'' = JStr ''void''" | "fld d ''kind'' = JStr ''bytes''" | "fld d ''kind'' = JStr ''number''" | "fld d ''kind'' = JStr ''number_bytes''"
    | "fld d ''kind'' = JStr ''record''" | "fld d ''kind'' = JStr ''union''" | "fld d ''kind'' = JStr ''enum''" | "fld d ''kind'' = JStr ''scalar''"
    using assms by (auto simp: armPayload_def Let_def split: if_splits)
  then show ?thesis
  proof cases
    case 3
    then show ?thesis using assms numberArm_step [of a d st] kindOf_JStr [OF 3]
      by (simp add: armPayload_def payloadOk_def payloadNames_def payloadSlots_def Let_def split: if_splits)
  next
    case 4
    then show ?thesis using assms numberBytesArm_step [of a d st] kindOf_JStr [OF 4]
      by (simp add: armPayload_def payloadOk_def payloadNames_def payloadSlots_def Let_def split: if_splits)
  next
    case 8
    then show ?thesis using assms scalarArm_step [of a d st] kindOf_JStr [OF 8]
      by (simp add: armPayload_def payloadOk_def payloadNames_def payloadSlots_def Let_def)
  qed (use assms namedArm_step [of a d st] tbl in \<open>simp_all add: armPayload_def payloadOk_def payloadNames_def payloadSlots_def kindOf_JStr Let_def grows_refl\<close>)
qed

text \<open>Walking a payload keeps the tables of arms, model fields and helpers.\<close>

definition kept :: "Sidecar \<Rightarrow> Sidecar \<Rightarrow> bool" where
  "kept st st' = (armDescriptors st' = armDescriptors st \<and> modelFields st' = modelFields st \<and> helperNames st' = helperNames st)"

lemma kept_simps [simp]: "kept st st" "kept st (bad r m st') = kept st st'" "kept st (badIf b r m st') = kept st st'" "kept st (addSlot p st') = kept st st'"
  by (simp_all add: kept_def badIf_def bad_def addSlot_def)

lemma walkRef_kept: "kept st (walkRef ref wh owner slotPath st)"
  by (simp add: kept_def walkRef_keeps)

lemma arms_kept: "kept st (numberArm a d st)" "kept st (numberBytesArm a d st)" "kept st (namedArm a d st)" "kept st (scalarArm a d st)"
  by (simp_all add: numberArm_def numberBytesArm_def scalarArm_def walkRef_kept Let_def)
    (simp add: namedArm_def kept_def badIf_def bad_def)

lemma armPayload_kept: "kept st (armPayload a d st)"
  unfolding armPayload_def Let_def by (auto intro!: arms_kept kept_simps(1) simp del: append.simps)

lemma armPayload_keeps:
  "armDescriptors (armPayload a d st) = armDescriptors st" "modelFields (armPayload a d st) = modelFields st"
  "helperNames (armPayload a d st) = helperNames st"
  using armPayload_kept [of st a d] by (simp_all add: kept_def)

definition armOk :: "typeTables \<Rightarrow> json \<Rightarrow> bool" where
  "armOk T a = (isDict a \<and> isStr (fld a ''name'') \<and> isDict (fld a ''payload'') \<and> payloadOk T (fld a ''payload''))"

definition armSlots :: "string \<Rightarrow> json \<Rightarrow> string set" where
  "armSlots msg a = payloadSlots (msg @ ''.'' @ sfld a ''name'') (fld a ''payload'')"

lemma walkArm_step:
  assumes "violations (walkArm st a) = []"
  shows "violations st = []" "armOk (tables st) a" "grows st (walkArm st a) (payloadNames (fld a ''payload'')) {} (armSlots (msgName st) a)"
    "\<not> jm_has (armDescriptors st) (sfld a ''name'')"
    "armDescriptors (walkArm st a) = armDescriptors st @ [(sfld a ''name'', fld a ''payload'')]"
proof -
  define st1 where "st1 = badIf (jm_has (armDescriptors st) (sfld a ''name'')) ''V3'' (''msg repeats arm '' @ squote (sfld a ''name'')) st"
  let ?st2 = "st1\<lparr>armDescriptors := jm_set (armDescriptors st1) (sfld a ''name'') (fld a ''payload'')\<rparr>"
  have shape: "isDict a" "isStr (fld a ''name'')" "isDict (fld a ''payload'')"
    and eq: "walkArm st a = armPayload (sfld a ''name'') (fld a ''payload'') ?st2"
    using assms by (auto simp: walkArm_def st1_def Let_def split: if_splits)
  note g = armPayload_step [OF assms [unfolded eq], folded eq]
  then have q: "violations st = []" "\<not> jm_has (armDescriptors st) (sfld a ''name'')" "st1 = st" by (simp_all add: st1_def)
  then show "violations st = []" "\<not> jm_has (armDescriptors st) (sfld a ''name'')" by simp_all
  show "armDescriptors (walkArm st a) = armDescriptors st @ [(sfld a ''name'', fld a ''payload'')]"
    using q by (simp add: eq armPayload_keeps jm_has_def jm_set_absent)
  show "armOk (tables st) a" using g q shape by (simp add: armOk_def tables_def)
  show "grows st (walkArm st a) (payloadNames (fld a ''payload'')) {} (armSlots (msgName st) a)"
    using g q by (simp add: armSlots_def grows_def tables_def)
qed

interpretation wa: growing_step "\<lambda>st. st" walkArm armOk "\<lambda>a. payloadNames (fld a ''payload'')" "\<lambda>_. {}" armSlots
  by unfold_locales (blast dest: walkArm_step(1-3))

section \<open>The rules one by one\<close>

lemma checkKeys_quiet:
  assumes "violations (checkKeys doc st) = []"
  shows "violations st = []" "checkKeys doc st = st" "\<forall>k\<in>set TOP_LEVEL_ORDER. hasKey k doc" "set (map fst (objEntries doc)) \<subseteq> set TOP_LEVEL_ORDER"
    "joinWith '','' (filter (\<lambda>k. hasKey k doc) TOP_LEVEL_ORDER) = joinWith '','' (filter (\<lambda>k. k \<in> set TOP_LEVEL_ORDER) (map fst (objEntries doc)))"
  using assms by (auto simp: checkKeys_def Let_def foldl_badIf foldl_badIf_same)

lemma checkHeader_quiet:
  assumes "violations (checkHeader doc st) = []"
  shows "violations st = []" "checkHeader doc st = st" "isStr (fld doc ''model'')"
  using assms by (auto simp: checkHeader_def Let_def sfld_def)

lemma checkHashes_quiet:
  assumes "violations (checkHashes doc st) = []"
  shows "violations st = []" "checkHashes doc st = st" "isStr (fld doc ''source_hash'')" "HASH_RE (sfld doc ''source_hash'')"
    "isStr (fld doc ''build_id'')" "HASH_RE (sfld doc ''build_id'')"
  using assms by (auto simp: checkHashes_def)

lemma walkHelper_keeps: "modelFields (walkHelper st ih) = modelFields st" "armDescriptors (walkHelper st ih) = armDescriptors st"
proof -
  have "modelFields (foldl (walkParam n) st jps) = modelFields st \<and> armDescriptors (foldl (walkParam n) st jps) = armDescriptors st" for n st jps
    by (induction jps arbitrary: st) (auto simp: walkParam_def walkRef_keeps split: prod.splits)
  then show "modelFields (walkHelper st ih) = modelFields st" "armDescriptors (walkHelper st ih) = armDescriptors st"
    by (auto simp: walkHelper_def badIf_def bad_def walkRef_keeps Let_def split: prod.splits)
qed

lemma walkArm_keeps: "modelFields (walkArm st a) = modelFields st" "helperNames (walkArm st a) = helperNames st"
  by (simp_all add: walkArm_def armPayload_keeps badIf_def bad_def Let_def)

lemma foldl_keeps: "(\<And>st x. g (f st x) = g st) \<Longrightarrow> g (foldl f st xs) = g st"
  by (induction xs arbitrary: st) auto

lemma checkTypes_keeps:
  "helperNames (checkTypes st) = helperNames st" "armDescriptors (checkTypes st) = armDescriptors st" "modelFields (checkTypes st) = modelFields st"
  "structs (checkTypes st) = structs st"
proof -
  have m: "g (snd (foldl (walkMember what member key name) acc fs)) = g (snd acc)"
    if "\<And>acc f. g (snd (walkMember what member key name acc f)) = g (snd acc)" for g :: "Sidecar \<Rightarrow> 'a" and what member key name acc fs
    using that by (induction fs arbitrary: acc) auto
  have keep: "g (checkTypes st) = g st"
    if "\<And>r w o' p st. g (walkRef r w o' p st) = g st" "\<And>r m st. g (bad r m st) = g st" for g :: "Sidecar \<Rightarrow> 'a"
  proof -
    have mem: "g (snd (walkMember what member key name acc f)) = g (snd acc)" for what member key name acc f
      by (simp add: walkMember_def badIf_def that Let_def split: prod.split)
    have "g (walkStruct st e) = g st" "g (walkUnion st e) = g st" "g (walkEnum st e) = g st" for st e
      by (simp_all add: walkStruct_def walkUnion_def walkEnum_def badIf_def that m [OF mem] Let_def split: prod.split)
    then show ?thesis by (simp add: checkTypes_def Let_def foldl_keeps)
  qed
  show "helperNames (checkTypes st) = helperNames st" "armDescriptors (checkTypes st) = armDescriptors st" "modelFields (checkTypes st) = modelFields st"
    "structs (checkTypes st) = structs st" by (rule keep; simp add: walkRef_keeps bad_def)+
qed

definition fieldNames :: "json \<Rightarrow> string set" where
  "fieldNames s = (\<lambda>f. sfld f ''name'') ` set (arrOf (fld s ''fields''))"

lemma addModelFields:
  "\<forall>f\<in>set fs. isDict f \<and> isStr (fld f ''name'') \<Longrightarrow>
   foldl addModelField st fs = st\<lparr>modelFields := foldl setAdd (modelFields st) (map (\<lambda>f. sfld f ''name'') fs)\<rparr>"
  by (induction fs arbitrary: st) (auto simp: addModelField_def)

lemma checkModel_quiet:
  assumes "checkModel doc st = Inr st'" "violations st' = []" "isStr (fld doc ''model'')" "tableOk (tables st)"
  shows "violations st = []" "jm_has (structs st) (sfld doc ''model'')" "grows st st' {sfld doc ''model''} {} {}"
    "helperNames st' = helperNames st" "armDescriptors st' = armDescriptors st"
    "\<exists>s. jm_get (structs st) (sfld doc ''model'') = Some s \<and> set (modelFields st') = set (modelFields st) \<union> fieldNames s"
proof -
  let ?m = "sfld doc ''model''"
  obtain s where s: "jm_get (structs st) ?m = Some s"
    using assms(1-3) by (cases "jm_get (structs st) ?m") (auto simp: checkModel_def Let_def)
  then have "(?m, s) \<in> set (structs st)" by (auto simp: jm_get_map_of dest: map_of_SomeD)
  then have "membersOk ''fields'' ''type'' (tables st) (?m, s)" using assms(4) by (auto simp: tableOk_def tables_def)
  then have fs: "isArr (fld s ''fields'')" "\<forall>f\<in>set (arrOf (fld s ''fields'')). isDict f \<and> isStr (fld f ''name'')"
    by (auto simp: membersOk_def memberOk_def Let_def)
  then have "iterOf (fld s ''fields'') = Inr (arrOf (fld s ''fields''))" by (cases "fld s ''fields''") auto
  then have st': "st' = st\<lparr>reachable := setAdd (reachable st) ?m, modelFields := foldl setAdd (modelFields st) (map (\<lambda>f. sfld f ''name'') (arrOf (fld s ''fields'')))\<rparr>"
    using assms(1,3) s fs by (auto simp: checkModel_def Let_def addModelFields)
  show "violations st = []" "grows st st' {?m} {} {}" "helperNames st' = helperNames st" "armDescriptors st' = armDescriptors st"
    using assms(2) by (auto simp: st' grows_def tables_def)
  show "jm_has (structs st) ?m" using s by (simp add: jm_has_def)
  show "\<exists>s. jm_get (structs st) ?m = Some s \<and> set (modelFields st') = set (modelFields st) \<union> fieldNames s"
    using s by (simp add: st' fieldNames_def)
qed

definition helpersOf :: "json \<Rightarrow> json list" where
  "helpersOf doc = arrOf (fld doc ''model_helpers'')"

lemma checkHelpers_quiet:
  assumes "violations (checkHelpers doc st) = []" "helperNames st = []"
  shows "violations st = []" "isArr (fld doc ''model_helpers'')" "\<forall>h\<in>set (helpersOf doc). helperOk (tables st) h"
    "grows st (checkHelpers doc st) (\<Union>h\<in>set (helpersOf doc). helperRefs h) {} (\<Union>h\<in>set (helpersOf doc). helperSlots h)"
    "helperNames (checkHelpers doc st) = map (\<lambda>h. sfld h ''name'') (helpersOf doc)" "distinct (map (\<lambda>h. sfld h ''name'') (helpersOf doc))"
    "modelFields (checkHelpers doc st) = modelFields st" "armDescriptors (checkHelpers doc st) = armDescriptors st"
proof -
  let ?hs = "enumerate 0 (helpersOf doc)"
  have arr: "isArr (fld doc ''model_helpers'')" and eq: "checkHelpers doc st = foldl walkHelper st ?hs"
    using assms(1) by (auto simp: checkHelpers_def helpersOf_def split: if_splits)
  note g = wh.fold_grows [OF assms(1) [unfolded eq]]
  then show "violations st = []" "\<forall>h\<in>set (helpersOf doc). helperOk (tables st) h" by (simp_all add: enumerate_all)
  show "isArr (fld doc ''model_helpers'')" by (rule arr)
  show "grows st (checkHelpers doc st) (\<Union>h\<in>set (helpersOf doc). helperRefs h) {} (\<Union>h\<in>set (helpersOf doc). helperSlots h)"
    using g by (simp add: eq enumerate_snd)
  let ?I = "\<lambda>ys st. helperNames st = map (\<lambda>ih. sfld (snd ih) ''name'') ys \<and> distinct (map (\<lambda>ih. sfld (snd ih) ''name'') ys)"
  have "?I ?hs (foldl walkHelper st ?hs)"
  proof (rule wh.q.fold_invariant [where I = ?I, OF assms(1) [unfolded eq]])
    fix ys x and st :: Sidecar assume "?I (ys :: (nat \<times> json) list) st" "violations (walkHelper st x) = []"
    then show "?I (ys @ [x]) (walkHelper st x)" using walkHelper_step(4,5) [of st x] by simp
  qed (simp add: assms(2))
  moreover have "map (\<lambda>ih. sfld (snd ih) ''name'') ?hs = map (\<lambda>h. sfld h ''name'') (helpersOf doc)"
    using map_snd_enumerate [of 0 "helpersOf doc"] by (metis (no_types, lifting) map_map comp_def map_eq_conv)
  ultimately show "helperNames (checkHelpers doc st) = map (\<lambda>h. sfld h ''name'') (helpersOf doc)" "distinct (map (\<lambda>h. sfld h ''name'') (helpersOf doc))"
    by (simp_all add: eq)
  show "modelFields (checkHelpers doc st) = modelFields st" "armDescriptors (checkHelpers doc st) = armDescriptors st"
    unfolding eq by (rule foldl_keeps, rule walkHelper_keeps)+
qed

definition armsOf :: "json \<Rightarrow> json list" where
  "armsOf doc = arrOf (fld (fld doc ''msg'') ''arms'')"

definition msgNameOf :: "json \<Rightarrow> string" where
  "msgNameOf doc = sfld (fld doc ''msg'') ''name''"

definition descriptors :: "json \<Rightarrow> (string, json) jsmap" where
  "descriptors doc = map (\<lambda>a. (sfld a ''name'', fld a ''payload'')) (armsOf doc)"

definition msgStart :: "json \<Rightarrow> Sidecar \<Rightarrow> Sidecar" where
  "msgStart doc st = badIf (256 < length (armsOf doc)) ''V6'' (''msg declares '' @ intDigits (int (length (armsOf doc))) @
    '' arms - tags ride a u8, so at most 256 are permitted'') (st\<lparr>msgName := msgNameOf doc\<rparr>)"

lemma checkMsg_fold:
  assumes "violations (checkMsg doc st) = []"
  shows "hasMsgShape (fld doc ''msg'')" "checkMsg doc st = foldl walkArm (msgStart doc st) (armsOf doc)"
  using assms by (auto simp: checkMsg_def armsOf_def msgNameOf_def msgStart_def Let_def split: if_splits cong del: badIf_cong)

lemma checkMsg_quiet:
  assumes "violations (checkMsg doc st) = []" "armDescriptors st = []"
  shows "violations st = []" "hasMsgShape (fld doc ''msg'')" "length (armsOf doc) \<le> 256" "\<forall>a\<in>set (armsOf doc). armOk (tables st) a"
    "grows (st\<lparr>msgName := msgNameOf doc\<rparr>) (checkMsg doc st) (\<Union>a\<in>set (armsOf doc). payloadNames (fld a ''payload'')) {}
       (\<Union>a\<in>set (armsOf doc). armSlots (msgNameOf doc) a)"
    "armDescriptors (checkMsg doc st) = descriptors doc" "distinct (map fst (descriptors doc))"
    "modelFields (checkMsg doc st) = modelFields st" "helperNames (checkMsg doc st) = helperNames st"
proof -
  define st1 where "st1 = msgStart doc st"
  note st1_def = st1_def [unfolded msgStart_def]
  have shape: "hasMsgShape (fld doc ''msg'')" and eq': "checkMsg doc st = foldl walkArm st1 (armsOf doc)"
    using checkMsg_fold [OF assms(1)] by (simp_all add: \<open>st1 = msgStart doc st\<close>)
  have q1: "violations st1 = []" using assms(1) unfolding eq' by (rule wa.q.fold_quiet)
  then have few: "length (armsOf doc) \<le> 256" "violations st = []" "st1 = st\<lparr>msgName := msgNameOf doc\<rparr>"
    by (simp_all add: st1_def not_less)
  note eq = eq' [unfolded few(3)]
  note g = wa.fold_grows [OF assms(1) [unfolded eq]]
  show "violations st = []" "hasMsgShape (fld doc ''msg'')" "length (armsOf doc) \<le> 256" by (fact few shape)+
  show "\<forall>a\<in>set (armsOf doc). armOk (tables st) a" using g by (simp add: tables_def)
  show "grows (st\<lparr>msgName := msgNameOf doc\<rparr>) (checkMsg doc st) (\<Union>a\<in>set (armsOf doc). payloadNames (fld a ''payload'')) {}
       (\<Union>a\<in>set (armsOf doc). armSlots (msgNameOf doc) a)" using g by (simp add: eq)
  let ?I = "\<lambda>ys st. armDescriptors st = map (\<lambda>a. (sfld a ''name'', fld a ''payload'')) ys \<and> distinct (map (\<lambda>a. sfld a ''name'') ys)"
  have "?I (armsOf doc) (foldl walkArm (st\<lparr>msgName := msgNameOf doc\<rparr>) (armsOf doc))"
  proof (rule wa.q.fold_invariant [where I = ?I, OF assms(1) [unfolded eq]])
    fix ys x st assume I: "?I ys st" and v: "violations (walkArm st x) = []"
    from walkArm_step(4) [OF v] I have "sfld x ''name'' \<notin> set (map (\<lambda>a. sfld a ''name'') ys)"
      using jm_get_keys [of "armDescriptors st" "sfld x ''name''"] by (simp add: jm_has_def jm_keys_def comp_def)
    then show "?I (ys @ [x]) (walkArm st x)" using walkArm_step(5) [OF v] I by simp
  qed (simp add: assms(2))
  then show "armDescriptors (checkMsg doc st) = descriptors doc" "distinct (map fst (descriptors doc))"
    by (simp_all add: eq descriptors_def comp_def)
  show "modelFields (checkMsg doc st) = modelFields st" "helperNames (checkMsg doc st) = helperNames st"
    unfolding eq using foldl_keeps [of modelFields walkArm] foldl_keeps [of helperNames walkArm] by (simp_all add: walkArm_keeps)
qed

lemma checkUnbound_quiet:
  assumes "violations (checkUnbound doc st) = []" "hasMsgShape (fld doc ''msg'')"
  shows "violations st = []" "checkUnbound doc st = st" "isArr (fld doc ''model_unbound'')"
    "\<forall>x\<in>set (arrOf (fld doc ''model_unbound'')). isStr x \<and> (strOf x \<in> set (modelFields st) \<or> strOf x \<in> set (helperNames st))"
    "\<forall>x\<in>set (arrOf (fld (fld doc ''msg'') ''unbound'')). isStr x \<and> jm_has (armDescriptors st) (strOf x)"
proof -
  let ?mu = "arrOf (fld doc ''model_unbound'')" and ?xs = "arrOf (fld (fld doc ''msg'') ''unbound'')"
  let ?f = "\<lambda>st x. badIf (strOf x \<notin> set (modelFields st) \<and> strOf x \<notin> set (helperNames st)) ''V8''
    (''model_unbound names '' @ squote (strOf x) @ '', which is neither a model field nor a helper entry'') st"
  let ?h = "\<lambda>st x. badIf (\<not> isStr x \<or> \<not> jm_has (armDescriptors st) (strOf x)) ''V8''
    (''msg.unbound names '' @ squote (jsString x) @ '', which is not an arm of msg'') st"
  have f: "violations (foldl ?f st xs) = [] \<Longrightarrow> violations st = [] \<and> foldl ?f st xs = st \<and>
      (\<forall>x\<in>set xs. strOf x \<in> set (modelFields st) \<or> strOf x \<in> set (helperNames st))" for st xs
    by (rule foldl_tests [where f = ?f]) (auto simp: badIf_quiet)
  have h: "violations (foldl ?h st xs) = [] \<Longrightarrow> violations st = [] \<and> foldl ?h st xs = st \<and>
      (\<forall>x\<in>set xs. isStr x \<and> jm_has (armDescriptors st) (strOf x))" for st xs
    by (rule foldl_tests [where f = ?h]) (auto simp: badIf_quiet)
  define st1 where "st1 = (if \<not> isArr (fld doc ''model_unbound'') \<or> list_ex (\<lambda>x. \<not> isStr x) ?mu
                 then bad ''V1'' (squote ''model_unbound'' @ '' must be an array of strings'') st else foldl ?f st ?mu)"
  have eq: "checkUnbound doc st = foldl ?h st1 ?xs"
    using assms(2) by (simp add: checkUnbound_def hasMsgShape_def st1_def Let_def)
  note h' = h [OF assms(1) [unfolded eq]]
  then have mu: "isArr (fld doc ''model_unbound'')" "\<forall>x\<in>set ?mu. isStr x" "st1 = foldl ?f st ?mu"
    by (auto simp: st1_def list_ex_iff split: if_splits)
  then have "violations (foldl ?f st ?mu) = []" using h' by simp
  note f' = f [OF this]
  show "violations st = []" "checkUnbound doc st = st" "isArr (fld doc ''model_unbound'')"
    "\<forall>x\<in>set ?mu. isStr x \<and> (strOf x \<in> set (modelFields st) \<or> strOf x \<in> set (helperNames st))"
    "\<forall>x\<in>set ?xs. isStr x \<and> jm_has (armDescriptors st) (strOf x)"
    using f' h' mu eq by simp_all
qed

definition exportsOf :: "json \<Rightarrow> json list" where
  "exportsOf doc = arrOf (fld (fld doc ''abi'') ''exports'')"

interpretation ae: quiet_step "\<lambda>st. st" addExport
  by unfold_locales (auto simp: addExport_def Let_def split: if_splits)

lemma checkAbi_quiet:
  assumes "violations (checkAbi doc st) = []" "exportSet st = []"
  shows "violations st = []" "checkAbi doc st = st\<lparr>exportSet := map strOf (exportsOf doc)\<rparr>" "distinct (map strOf (exportsOf doc))"
    "\<forall>x\<in>set (exportsOf doc). isStr x \<and> x \<noteq> JStr []"
proof -
  have eq: "checkAbi doc st = foldl addExport st (exportsOf doc)"
    using assms(1) by (auto simp: checkAbi_def exportsOf_def Let_def split: if_splits)
  let ?I = "\<lambda>ys st'. st' = st\<lparr>exportSet := map strOf ys\<rparr> \<and> distinct (map strOf ys) \<and> (\<forall>x\<in>set ys. isStr x \<and> x \<noteq> JStr [])"
  have "?I (exportsOf doc) (foldl addExport st (exportsOf doc))"
  proof (rule ae.fold_invariant [where I = ?I, OF assms(1) [unfolded eq]])
    fix ys x st' assume "?I ys st'" "violations (addExport st' x) = []"
    then show "?I (ys @ [x]) (addExport st' x)" by (auto simp: addExport_def setAdd_def Let_def split: if_splits)
  qed (use assms(2) in simp)
  then show "checkAbi doc st = st\<lparr>exportSet := map strOf (exportsOf doc)\<rparr>" "distinct (map strOf (exportsOf doc))"
    "\<forall>x\<in>set (exportsOf doc). isStr x \<and> x \<noteq> JStr []" by (simp_all add: eq)
  show "violations st = []" using assms(1) unfolding eq by (rule ae.fold_quiet)
qed

text \<open>The wiring of the three groups of channels.\<close>

definition functionWired :: "json \<Rightarrow> string list \<Rightarrow> string \<Rightarrow> bool" where
  "functionWired channels exports ch = (fld channels ch = JBool (ch \<in> set exports))"

definition armWired :: "json \<Rightarrow> (string, json) jsmap \<Rightarrow> string \<Rightarrow> bool" where
  "armWired channels arms ch = (fld channels ch = JNull \<or>
     (\<exists>v d. fld channels ch = JStr v \<and> jm_get arms v = Some d \<and> fld d ''kind'' \<in> set NAMED_FAMILY))"

definition envWired :: "(string, json) jsmap \<Rightarrow> json \<Rightarrow> bool" where
  "envWired arms e = (isDict e \<and> isStr (fld e ''env'') \<and> isStr (fld e ''msg'') \<and>
     (\<exists>d. jm_get arms (sfld e ''msg'') = Some d \<and> fld d ''kind'' = JStr ''bytes''))"

lemma functionChannel_quiet:
  "violations (functionChannel channels st ch) = [] \<Longrightarrow> violations st = [] \<and> functionChannel channels st ch = st \<and> functionWired channels (exportSet st) ch"
  by (auto simp: functionChannel_def functionWired_def split: json.splits dest: badIf_quiet)

lemma armChannel_quiet:
  "violations (armChannel channels st ch) = [] \<Longrightarrow> violations st = [] \<and> armChannel channels st ch = st \<and> armWired channels (armDescriptors st) ch"
  by (auto simp: armChannel_def armWired_def split: json.splits option.splits dest: badIf_quiet)

lemma envMsg_quiet:
  assumes "violations (snd (envMsg (seen, st) e)) = []"
  shows "violations st = []" "envMsg (seen, st) e = (seen @ [sfld e ''env''], st)" "sfld e ''env'' \<notin> set seen" "envWired (armDescriptors st) e"
  using assms by (auto simp: envMsg_def envWired_def setAdd_def Let_def split: if_splits option.splits dest: badIf_quiet)

interpretation em: quiet_step snd envMsg
  by unfold_locales (metis envMsg_quiet(1) prod.collapse)

definition envMsgsOf :: "json \<Rightarrow> json list" where
  "envMsgsOf doc = arrOf (fld (fld doc ''channels'') ''env_msgs'')"

lemma checkChannels_quiet:
  assumes "violations (checkChannels doc st) = []"
  shows "violations st = []" "checkChannels doc st = st" "\<forall>ch\<in>set FUNCTION_CHANNELS. functionWired (fld doc ''channels'') (exportSet st) ch"
    "\<forall>ch\<in>{''appearance_msg'', ''chrome_msg''}. armWired (fld doc ''channels'') (armDescriptors st) ch"
    "\<forall>e\<in>set (envMsgsOf doc). envWired (armDescriptors st) e" "distinct (map (\<lambda>e. sfld e ''env'') (envMsgsOf doc))"
proof -
  let ?c = "fld doc ''channels''"
  have fc: "violations (foldl (functionChannel ?c) st xs) = [] \<Longrightarrow> violations st = [] \<and> foldl (functionChannel ?c) st xs = st \<and>
      (\<forall>ch\<in>set xs. functionWired ?c (exportSet st) ch)" for st xs
    by (rule foldl_tests) (rule functionChannel_quiet)
  have ac: "violations (foldl (armChannel ?c) st xs) = [] \<Longrightarrow> violations st = [] \<and> foldl (armChannel ?c) st xs = st \<and>
      (\<forall>ch\<in>set xs. armWired ?c (armDescriptors st) ch)" for st xs
    by (rule foldl_tests) (rule armChannel_quiet)
  define st1 where "st1 = foldl (functionChannel ?c) st FUNCTION_CHANNELS"
  define st2 where "st2 = foldl (armChannel ?c) st1 [''appearance_msg'', ''chrome_msg'']"
  have eq: "checkChannels doc st = snd (foldl envMsg ([], st2) (envMsgsOf doc))"
    using assms by (auto simp: checkChannels_def envMsgsOf_def st1_def st2_def Let_def split: if_splits)
  note v = assms [unfolded eq]
  let ?I = "\<lambda>ys acc. acc = (map (\<lambda>e. sfld e ''env'') ys, st2) \<and> distinct (map (\<lambda>e. sfld e ''env'') ys) \<and> (\<forall>e\<in>set ys. envWired (armDescriptors st2) e)"
  have e: "?I (envMsgsOf doc) (foldl envMsg ([], st2) (envMsgsOf doc))"
  proof (rule em.fold_invariant [where I = ?I, OF v])
    fix ys x acc assume "?I ys acc" "violations (snd (envMsg acc x)) = []"
    then show "?I (ys @ [x]) (envMsg acc x)" using envMsg_quiet [of "map (\<lambda>e. sfld e ''env'') ys" st2 x] by auto
  qed simp
  have q2: "violations (foldl (armChannel ?c) st1 [''appearance_msg'', ''chrome_msg'']) = []"
    using em.fold_quiet [OF v] by (simp add: st2_def)
  note a = ac [OF q2]
  then have q1: "violations (foldl (functionChannel ?c) st FUNCTION_CHANNELS) = []" by (simp add: st1_def)
  note f = fc [OF q1]
  have s: "st1 = st" "st2 = st" using a f by (simp_all add: st1_def st2_def)
  show "violations st = []" "checkChannels doc st = st" "\<forall>ch\<in>set FUNCTION_CHANNELS. functionWired ?c (exportSet st) ch"
    "\<forall>ch\<in>{''appearance_msg'', ''chrome_msg''}. armWired ?c (armDescriptors st) ch"
    "\<forall>e\<in>set (envMsgsOf doc). envWired (armDescriptors st) e" "distinct (map (\<lambda>e. sfld e ''env'') (envMsgsOf doc))"
    using e a f s by (simp_all add: eq)
qed

lemma checkReachable_quiet:
  assumes "violations (checkReachable st) = []"
  shows "violations st = []" "checkReachable st = st\<lparr>reachable := reachLoop (edges st) (reachable st)\<rparr>"
    "set (typeNames (tables st)) \<subseteq> (edgeRel (edges st))\<^sup>* `` set (reachable st)"
  using assms by (auto simp: checkReachable_def Let_def foldl_badIf foldl_badIf_same typeNames_def tables_def jm_keys_def reachLoop_exact)

definition declaredSlots :: "json \<Rightarrow> string list" where
  "declaredSlots doc = map (\<lambda>e. sfld e ''slot'') (arrOf (fld doc ''integer_slots''))"

lemma declareSlot_quiet:
  assumes "violations (snd (declareSlot (declared, st) e)) = []"
  shows "violations st = []" "declareSlot (declared, st) e = (declared @ [sfld e ''slot''], st)" "sfld e ''slot'' \<notin> set declared"
  using assms by (auto simp: declareSlot_def setAdd_def Let_def split: if_splits)

interpretation ds: quiet_step snd declareSlot
  by unfold_locales (metis declareSlot_quiet(1) prod.collapse)

lemma checkSlots_quiet:
  assumes "violations (checkSlots doc st) = []"
  shows "violations st = []" "distinct (declaredSlots doc)" "set (declaredSlots doc) = set (i64Slots st)"
proof -
  let ?es = "arrOf (fld doc ''integer_slots'')"
  obtain declared st1 where d: "foldl declareSlot ([], st) ?es = (declared, st1)" by (metis prod.collapse)
  have "violations st1 = [] \<and> set declared = set (i64Slots st1)"
    using assms d by (auto simp: checkSlots_def Let_def foldl_badIf split: if_splits)
  then have q: "violations (snd (foldl declareSlot ([], st) ?es)) = []" "set declared = set (i64Slots st1)" using d by simp_all
  let ?I = "\<lambda>ys acc. acc = (map (\<lambda>e. sfld e ''slot'') ys, st) \<and> distinct (map (\<lambda>e. sfld e ''slot'') ys)"
  have "?I ?es (foldl declareSlot ([], st) ?es)"
  proof (rule ds.fold_invariant [where I = ?I, OF q(1)])
    fix ys x acc assume "?I ys acc" "violations (snd (declareSlot acc x)) = []"
    then show "?I (ys @ [x]) (declareSlot acc x)" using declareSlot_quiet [of "map (\<lambda>e. sfld e ''slot'') ys" st x] by auto
  qed simp
  then show "violations st = []" "distinct (declaredSlots doc)" "set (declaredSlots doc) = set (i64Slots st)"
    using q ds.fold_quiet [OF q(1)] d by (simp_all add: declaredSlots_def)
qed

end
