(* ===== verification/SidecarContract.thy ===== *)
theory SidecarContract
  imports SidecarSound
begin

text \<open>
  The contract of an accepted sidecar: the rules of \<^verbatim>\<open>library/sidecar-validate.ts\<close> put together.
  The validator marks every name it meets as reachable, also those it meets inside table entries
  that nothing reaches; that an entry is reached from the document's roots follows from the rule
  on cycles.
\<close>

section \<open>The whole validator\<close>

definition roots :: "json \<Rightarrow> string set" where
  "roots doc = {sfld doc ''model''} \<union> (\<Union>h\<in>set (helpersOf doc). helperRefs h) \<union> (\<Union>a\<in>set (armsOf doc). payloadNames (fld a ''payload''))"

definition spelledSlots :: "json \<Rightarrow> string set" where
  "spelledSlots doc = tableSlots (tablesOf doc) \<union> (\<Union>h\<in>set (helpersOf doc). helperSlots h) \<union> (\<Union>a\<in>set (armsOf doc). armSlots (msgNameOf doc) a)"

definition modelFieldsOf :: "json \<Rightarrow> string set" where
  "modelFieldsOf doc = (case jm_get (entriesOf doc ''structs'') (sfld doc ''model'') of Some s \<Rightarrow> fieldNames s | None \<Rightarrow> {})"

lemma entriesOf_dict: "entriesOf doc t = dictEntries (arrOf (fld (fld doc ''types'') t))"
  by (simp add: entriesOf_def dictEntries_def)

text \<open>The state after the message arms, when the document has no violations.\<close>

definition collected :: "json \<Rightarrow> Sidecar \<Rightarrow> bool" where
  "collected doc st = (tables st = tablesOf doc \<and> set (reachable st) = tableNames (tablesOf doc) \<union> roots doc \<and>
     edgeRel (edges st) = tableEdges (tablesOf doc) \<and> set (i64Slots st) = spelledSlots doc \<and>
     armDescriptors st = descriptors doc \<and> helperNames st = map (\<lambda>h. sfld h ''name'') (helpersOf doc) \<and>
     set (modelFields st) = modelFieldsOf doc \<and> exportSet st = [])"

lemma checkMsg_start:
  assumes "violations (checkMsg doc st) = []"
  shows "violations st = []"
proof -
  have "violations (msgStart doc st) = []"
    using assms unfolding checkMsg_fold(2) [OF assms] by (rule wa.q.fold_quiet)
  then show ?thesis by (simp add: msgStart_def)
qed

lemma checkHelpers_start: "violations (checkHelpers doc st) = [] \<Longrightarrow> violations st = []"
proof -
  assume v: "violations (checkHelpers doc st) = []"
  then have "checkHelpers doc st = foldl walkHelper st (enumerate 0 (arrOf (fld doc ''model_helpers'')))"
    by (auto simp: checkHelpers_def split: if_splits)
  with v show ?thesis by (metis wh.q.fold_quiet)
qed

lemma collected_state:
  assumes "violations (checkMsg doc (checkHelpers doc st4)) = []"
    "checkModel doc (checkTypes (claimTables (fld doc ''types'') startSidecar)) = Inr st4" "isStr (fld doc ''model'')"
  defines "T \<equiv> tablesOf doc"
  shows "collected doc (checkMsg doc (checkHelpers doc st4))" "distinct (typeNames T)" "tableOk T" "jm_has (entriesOf doc ''structs'') (sfld doc ''model'')"
    "\<forall>h\<in>set (helpersOf doc). helperOk T h" "distinct (map (\<lambda>h. sfld h ''name'') (helpersOf doc))"
    "hasMsgShape (fld doc ''msg'')" "length (armsOf doc) \<le> 256" "\<forall>a\<in>set (armsOf doc). armOk T a" "distinct (map fst (descriptors doc))"
proof -
  define st2 where "st2 = claimTables (fld doc ''types'') startSidecar"
  define st3 where "st3 = checkTypes st2"
  define st5 where "st5 = checkHelpers doc st4"
  define st6 where "st6 = checkMsg doc st5"
  have model: "checkModel doc st3 = Inr st4" using assms(2) by (simp add: st2_def st3_def)
  have q5: "violations st5 = []" and q4: "violations st4 = []" and q3: "violations st3 = []"
  proof -
    show q5: "violations st5 = []" using assms(1) unfolding st5_def by (rule checkMsg_start)
    then show q4: "violations st4 = []" unfolding st5_def by (rule checkHelpers_start)
    have keep: "violations (foldl addModelField s fs) = violations s" for s fs
      by (rule foldl_keeps) (simp add: addModelField_def)
    show "violations st3 = []"
      using model q4 by (auto simp: checkModel_def Let_def errE keep split: if_splits option.splits)
  qed
  note g3 = checkTypes_grows [OF q3 [unfolded st3_def], folded st3_def]
  have t0: "tables startSidecar = ([], [], [])" by (simp add: tables_def startSidecar_def)
  note c = claimTables_quiet [OF g3(1) [unfolded st2_def] t0, folded st2_def]
  have st2: "st2 = startSidecar\<lparr>structs := entriesOf doc ''structs'', enums := entriesOf doc ''enums'', unions := entriesOf doc ''unions''\<rparr>"
    using c(2) by (simp add: entriesOf_dict)
  have t2: "tables st2 = T" by (simp add: st2 tables_def T_def tablesOf_def)
  have t3: "tables st3 = T" using g3(3) t2 by (simp add: grows_def)
  then have s3: "structs st3 = entriesOf doc ''structs''" by (simp add: tables_def T_def tablesOf_def)
  have "tableOk (tables st3)" using g3(2) t2 t3 by simp
  note m = checkModel_quiet [OF model q4 assms(3) this]
  have t4: "tables st4 = T" using m(3) t3 by (simp add: grows_def)
  have k3: "helperNames st3 = []" "armDescriptors st3 = []" "modelFields st3 = []"
    by (simp_all add: st3_def checkTypes_keeps st2 startSidecar_def)
  obtain s where s: "jm_get (entriesOf doc ''structs'') (sfld doc ''model'') = Some s" "set (modelFields st4) = fieldNames s"
    using m(6) s3 k3(3) by auto
  have k4: "helperNames st4 = []" "armDescriptors st4 = []" "set (modelFields st4) = modelFieldsOf doc"
    using m(4,5) k3 s by (simp_all add: modelFieldsOf_def)
  note h = checkHelpers_quiet [OF q5 [unfolded st5_def] k4(1), folded st5_def]
  have t5: "tables st5 = T" using h(4) t4 by (simp add: grows_def)
  note a = checkMsg_quiet [OF assms(1) [folded st5_def] , folded st6_def]
  have a5: "armDescriptors st5 = []" using h(8) k4 by simp
  note a = a [OF a5]
  have "grows st2 st5 (tableNames T \<union> {sfld doc ''model''} \<union> (\<Union>h\<in>set (helpersOf doc). helperRefs h)) (tableEdges T)
      (tableSlots T \<union> (\<Union>h\<in>set (helpersOf doc). helperSlots h))"
    using grows_trans [OF grows_trans [OF g3(3) m(3)] h(4)] t2 by simp
  moreover have "set (reachable st2) = {}" "edgeRel (edges st2) = {}" "set (i64Slots st2) = {}" "exportSet st2 = []"
    by (simp_all add: st2 startSidecar_def edgeRel_def edgesOf_def)
  ultimately have "collected doc st6"
    using a(5-9) h(5,7) k4 t5
    by (simp add: collected_def grows_def tables_def roots_def spelledSlots_def T_def Un_assoc)
  then show "collected doc (checkMsg doc (checkHelpers doc st4))" by (simp add: st6_def st5_def)
  show "distinct (typeNames T)" "tableOk T" using c(3) g3(2) t2 by simp_all
  show "jm_has (entriesOf doc ''structs'') (sfld doc ''model'')" using m(2) s3 by simp
  show "\<forall>h\<in>set (helpersOf doc). helperOk T h" "distinct (map (\<lambda>h. sfld h ''name'') (helpersOf doc))" using h(3,6) t4 by simp_all
  show "hasMsgShape (fld doc ''msg'')" "length (armsOf doc) \<le> 256" "\<forall>a\<in>set (armsOf doc). armOk T a" "distinct (map fst (descriptors doc))"
    using a(2,3,4,7) t5 by simp_all
qed

lemma foldl_badIf_start:
  "violations (foldl (\<lambda>st x. badIf (P st x) (r st x) (m st x) st) st xs) = [] \<Longrightarrow> violations st = []"
proof (induction xs arbitrary: st)
  case (Cons x xs)
  from Cons.prems have "violations (badIf (P st x) (r st x) (m st x) st) = []" by (simp only: foldl_Cons) (rule Cons.IH)
  then show ?case by simp
qed simp

lemma checkUnbound_start:
  assumes "violations (checkUnbound doc st) = []" shows "violations st = []"
proof -
  let ?mu = "fld doc ''model_unbound''"
  let ?f = "\<lambda>st x. badIf (strOf x \<notin> set (modelFields st) \<and> strOf x \<notin> set (helperNames st)) ''V8''
    (''model_unbound names '' @ squote (strOf x) @ '', which is neither a model field nor a helper entry'') st"
  define st1 where "st1 = (if \<not> isArr ?mu \<or> list_ex (\<lambda>x. \<not> isStr x) (arrOf ?mu)
      then bad ''V1'' (squote ''model_unbound'' @ '' must be an array of strings'') st else foldl ?f st (arrOf ?mu))"
  have "violations st1 = []"
  proof (cases "isDict (fld doc ''msg'') \<and> isArr (fld (fld doc ''msg'') ''unbound'')")
    case True
    then have "checkUnbound doc st = foldl (\<lambda>st x. badIf (\<not> isStr x \<or> \<not> jm_has (armDescriptors st) (strOf x)) ''V8''
      (''msg.unbound names '' @ squote (jsString x) @ '', which is not an arm of msg'') st) st1 (arrOf (fld (fld doc ''msg'') ''unbound''))"
      unfolding checkUnbound_def Let_def st1_def [symmetric] by (rule if_P)
    with assms show ?thesis by (simp only:) (rule foldl_badIf_start)
  next
    case False
    then have "checkUnbound doc st = st1" unfolding checkUnbound_def Let_def st1_def [symmetric] by (rule if_not_P)
    with assms show ?thesis by simp
  qed
  then have "violations (foldl ?f st (arrOf ?mu)) = []" by (auto simp: st1_def split: if_splits)
  then show ?thesis by (rule foldl_badIf_start)
qed

lemma checkAbi_start:
  assumes "violations (checkAbi doc st) = []" shows "violations st = []"
proof -
  have "checkAbi doc st = foldl addExport st (exportsOf doc)"
    using assms by (auto simp: checkAbi_def exportsOf_def Let_def split: if_splits)
  with assms show ?thesis by (metis ae.fold_quiet)
qed

lemma checkRest_parts:
  assumes "violations (checkRest doc st) = []"
  defines "st6 \<equiv> checkMsg doc (checkHelpers doc st)"
  defines "st9 \<equiv> checkAbi doc (checkUnbound doc (checkV5 st6))"
  shows "violations (checkSlots doc (checkReachable (checkChannels doc st9))) = []" "violations (checkReachable (checkChannels doc st9)) = []"
    "violations (checkChannels doc st9) = []" "violations st9 = []" "violations (checkUnbound doc (checkV5 st6)) = []"
    "checkAcyclic (edges st6) = []" "violations st6 = []" "checkV5 st6 = st6"
proof -
  show v: "violations (checkSlots doc (checkReachable (checkChannels doc st9))) = []" using assms(1) by (simp add: checkRest_def st6_def st9_def)
  then show v: "violations (checkReachable (checkChannels doc st9)) = []" by (rule checkSlots_quiet(1))
  then show v: "violations (checkChannels doc st9) = []" by (rule checkReachable_quiet(1))
  then show v: "violations st9 = []" by (rule checkChannels_quiet(1))
  then show v: "violations (checkUnbound doc (checkV5 st6)) = []" unfolding st9_def by (rule checkAbi_start)
  then have "violations (checkV5 st6) = []" by (rule checkUnbound_start)
  then show "checkAcyclic (edges st6) = []" "violations st6 = []" "checkV5 st6 = st6" by (simp_all add: checkV5_def)
qed

lemma header_tables: "tables (checkHashes doc (checkHeader doc (checkKeys doc st))) = tables st"
proof -
  have k: "tables (badIf b r m st) = tables st" for b r m st by (simp add: badIf_def bad_def tables_def)
  have f: "tables (foldl (\<lambda>st x. badIf (P x) (r x) (m x) st) st xs) = tables st" for P :: "string \<Rightarrow> bool" and r m st xs
    by (rule foldl_keeps) (rule k)
  show ?thesis by (simp only: checkHashes_def checkHeader_def checkKeys_def Let_def k f)
qed

lemma accepted:
  assumes "validateSidecar doc = Inr []"
  obtains st where "checkModel doc (checkTypes (claimTables (fld doc ''types'') startSidecar)) = Inr st" "violations (checkRest doc st) = []"
    "isStr (fld doc ''model'')" "violations (checkHashes doc startSidecar) = []" "violations (checkHeader doc startSidecar) = []"
    "violations (checkKeys doc startSidecar) = []"
proof -
  define st1 where "st1 = checkHashes doc (checkHeader doc (checkKeys doc startSidecar))"
  have "isDict doc" "hasTypeTable (fld doc ''types'')"
    using assms by (auto simp: validateSidecar_def Let_def split: if_splits)
  then obtain st where st: "checkModel doc (checkTypes (claimTables (fld doc ''types'') st1)) = Inr st" "violations (checkRest doc st) = []"
    using assms by (auto simp: validateSidecar_def st1_def Let_def errE)
  have "violations st = []"
    using checkRest_parts(7) [OF st(2)] checkMsg_start checkHelpers_start by blast
  moreover have keep: "violations (foldl addModelField s fs) = violations s" for s fs
    by (rule foldl_keeps) (simp add: addModelField_def)
  ultimately have "violations (checkTypes (claimTables (fld doc ''types'') st1)) = []"
    using st(1) by (auto simp: checkModel_def Let_def errE keep split: if_splits option.splits)
  then have "violations (claimTables (fld doc ''types'') st1) = []" by (rule checkTypes_grows(1))
  moreover have "tables st1 = ([], [], [])" unfolding st1_def header_tables by (simp add: tables_def startSidecar_def)
  ultimately have v: "violations st1 = []" by (rule claimTables_quiet(1))
  note h = checkHashes_quiet [OF v [unfolded st1_def]]
  note e = checkHeader_quiet [OF h(1)]
  note k = checkKeys_quiet [OF e(1)]
  have eq: "checkHeader doc startSidecar = startSidecar" "checkHashes doc startSidecar = startSidecar" "st1 = startSidecar"
    using k(2) e(2) h(2) by (simp_all add: st1_def)
  show ?thesis by (rule that [OF st [unfolded eq(3)] e(3)]) (use k e h eq in \<open>simp_all add: startSidecar_def\<close>)
qed

section \<open>Reaching every entry\<close>

lemma edgeRel_finite: "finite (edgeRel g)"
proof (rule finite_subset)
  show "edgeRel g \<subseteq> set (jm_keys g) \<times> targets g" using edgesOf_key edgesOf_targets by (fastforce simp: edgeRel_def)
  show "finite (set (jm_keys g) \<times> targets g)" by (simp add: targets_def)
qed

text \<open>When the marked names are the roots and everything an edge leads to, a finite graph without
  cycles reaches what is marked from the roots alone.\<close>

lemma reached_from_roots:
  assumes "finite E" "acyclic E" "names \<subseteq> E\<^sup>* `` (Range E \<union> R)" "Domain E \<subseteq> names"
  shows "names \<subseteq> E\<^sup>* `` R"
proof
  fix n assume "n \<in> names"
  have "wf (E\<^sup>+)" using assms(1,2) by (simp add: finite_acyclic_wf wf_trancl)
  then show "n \<in> E\<^sup>* `` R" using \<open>n \<in> names\<close>
  proof (induction n rule: wf_induct_rule)
    case (less n)
    then obtain m where m: "m \<in> Range E \<union> R" "(m, n) \<in> E\<^sup>*" using assms(3) by blast
    show ?case
    proof (cases "m \<in> R")
      case False
      then obtain x where x: "(x, m) \<in> E" using m by blast
      then have "(x, n) \<in> E\<^sup>+" "x \<in> names" using m(2) assms(4) by (auto intro: rtrancl_into_trancl2)
      then show ?thesis using less.IH [of x] by (meson ImageE ImageI rtrancl_trans trancl_into_rtrancl)
    qed (use m in blast)
  qed
qed

lemma tableEdges_range: "Range (tableEdges T) = tableNames T"
  by (auto simp: tableEdges_def tableNames_def entryEdges_def split: prod.splits)

lemma tableEdges_domain: "Domain (tableEdges T) \<subseteq> set (typeNames T)"
  by (force simp: tableEdges_def typeNames_def entryEdges_def split: prod.splits)

section \<open>Top-level keys\<close>

lemma takeWhile_joinWith:
  "CHR '','' \<notin> set x \<Longrightarrow> takeWhile (\<lambda>c. c \<noteq> CHR '','') (joinWith '','' (x # xs)) = x \<and>
   dropWhile (\<lambda>c. c \<noteq> CHR '','') (joinWith '','' (x # xs)) = (if xs = [] then [] else '','' @ joinWith '','' xs)"
  by (cases xs) (auto simp: takeWhile_append dropWhile_append takeWhile_eq_all_conv dropWhile_eq_Nil_conv)

lemma joinWith_nonempty: "x \<noteq> [] \<Longrightarrow> joinWith '','' (x # xs) \<noteq> []"
  by (cases xs) auto

lemma joinWith_inj:
  assumes "\<forall>x\<in>set xs \<union> set ys. x \<noteq> [] \<and> CHR '','' \<notin> set x" "joinWith '','' xs = joinWith '','' ys"
  shows "xs = ys"
  using assms
proof (induction xs arbitrary: ys)
  case Nil
  show ?case
  proof (cases ys)
    case (Cons y ys')
    then show ?thesis using Nil.prems joinWith_nonempty [of y ys'] by simp
  qed simp
next
  case (Cons x xs)
  obtain y ys' where y: "ys = y # ys'" using Cons.prems joinWith_nonempty [of x xs] by (cases ys) auto
  have sx: "CHR '','' \<notin> set x" "CHR '','' \<notin> set y" using Cons.prems(1) by (auto simp: y)
  have "x = y" "(if xs = [] then [] else '','' @ joinWith '','' xs) = (if ys' = [] then [] else '','' @ joinWith '','' ys')"
    using takeWhile_joinWith [OF sx(1), of xs] takeWhile_joinWith [OF sx(2), of ys'] Cons.prems(2) by (simp_all add: y)
  moreover from this(2) have "joinWith '','' xs = joinWith '','' ys'" by (auto split: if_splits)
  then have "xs = ys'" using Cons.prems(1) by (intro Cons.IH) (auto simp: y)
  ultimately show ?case by (simp add: y)
qed

lemma keys_in_order:
  assumes "violations (checkKeys doc st) = []"
  shows "map fst (objEntries doc) = TOP_LEVEL_ORDER"
proof -
  note k = checkKeys_quiet [OF assms]
  have "filter (\<lambda>k. hasKey k doc) TOP_LEVEL_ORDER = TOP_LEVEL_ORDER" using k(3) by (simp add: filter_id_conv)
  moreover have "filter (\<lambda>k. k \<in> set TOP_LEVEL_ORDER) (map fst (objEntries doc)) = map fst (objEntries doc)"
    using k(4) by (intro filter_True) blast
  moreover have "\<forall>x\<in>set TOP_LEVEL_ORDER. x \<noteq> [] \<and> CHR '','' \<notin> set x" by (simp add: TOP_LEVEL_ORDER_def)
  ultimately have "joinWith '','' TOP_LEVEL_ORDER = joinWith '','' (map fst (objEntries doc))"
    "\<forall>x\<in>set TOP_LEVEL_ORDER \<union> set (map fst (objEntries doc)). x \<noteq> [] \<and> CHR '','' \<notin> set x"
    using k(4,5) by (simp, blast)
  then show ?thesis using joinWith_inj by metis
qed

section \<open>A document\<close>

definition plainRef :: "string \<Rightarrow> json" where
  "plainRef k = JObj [(''kind'', JStr k)]"
definition namedRef :: "string \<Rightarrow> string \<Rightarrow> json" where
  "namedRef k n = JObj [(''kind'', JStr k), (''name'', JStr n)]"
definition memberJson :: "string \<Rightarrow> string \<Rightarrow> json \<Rightarrow> json" where
  "memberJson k n t = JObj [(''name'', JStr n), (k, t)]"

definition demoM :: json where
  "demoM = JObj [(''name'', JStr ''M''), (''fields'', JArr [memberJson ''type'' ''count'' (plainRef ''i64''),
     memberJson ''type'' ''p'' (JObj [(''kind'', JStr ''optional''), (''inner'', namedRef ''node'' ''P'')])])]"

definition demoP :: json where
  "demoP = JObj [(''name'', JStr ''P''), (''fields'', JArr [memberJson ''type'' ''x'' (plainRef ''f64'')])]"

definition demoE :: json where
  "demoE = JObj [(''name'', JStr ''E''), (''members'', JArr [JStr ''a''])]"

definition demoTypes :: json where
  "demoTypes = JObj [(''structs'', JArr [demoM, demoP]), (''enums'', JArr [demoE]), (''unions'', JArr [])]"

definition demoMsg :: json where
  "demoMsg = JObj [(''name'', JStr ''Msg''), (''arms'', JArr [memberJson ''payload'' ''set'' (namedRef ''enum'' ''E''), memberJson ''payload'' ''raw'' (plainRef ''bytes'')]), (''unbound'', JArr [JStr ''raw''])]"

definition demoChannels :: json where
  "demoChannels = JObj [(''command_msg'', JBool True), (''frame_msg'', JBool False), (''key_msg'', JBool False), (''pinch_msg'', JBool False),
     (''appearance_msg'', JStr ''set''), (''chrome_msg'', JNull), (''env_msgs'', JArr [JObj [(''env'', JStr ''HOME''), (''msg'', JStr ''raw'')]])]"

definition demoSidecar :: json where
  "demoSidecar = JObj [(''format'', JNum (Fin 1)), (''wire_version'', JNum (Fin 1)), (''abi_version'', JNum (Fin 2)),
     (''compiler_version'', JStr ''1''), (''entry'', JStr ''a.ts''), (''source_hash'', JStr ''0123456789abcdef''), (''build_id'', JStr ''0123456789abcdef''),
     (''types'', demoTypes), (''model'', JStr ''M''),
     (''model_helpers'', JArr [JObj [(''name'', JStr ''h''), (''params'', JArr [plainRef ''i64'']), (''returns'', plainRef ''bool''), (''arena'', JBool False)]]),
     (''model_unbound'', JArr [JStr ''count'']), (''msg'', demoMsg), (''init_returns_cmd'', JBool True), (''update_returns_cmd'', JBool True),
     (''has_subscriptions'', JBool False), (''channels'', demoChannels),
     (''abi'', JObj [(''prefix'', JStr ''p_''), (''exports'', JArr [JStr ''command_msg'']), (''snapshot_format'', JNum (Fin 1))]),
     (''integer_slots'', JArr [JObj [(''slot'', JStr ''M.count''), (''class'', JStr ''i64'')], JObj [(''slot'', JStr ''helpers.h.params[0]''), (''class'', JStr ''u64'')]]),
     (''deterministic'', JBool True), (''async_free'', JBool True)]"

definition demo2 :: Sidecar where
  "demo2 = startSidecar\<lparr>structs := [(''M'', demoM), (''P'', demoP)], enums := [(''E'', demoE)]\<rparr>"

definition demo3 :: Sidecar where
  "demo3 = demo2\<lparr>reachable := [''P''], edges := [(''M'', [''P''])], i64Slots := [''M.count'']\<rparr>"

definition demo4 :: Sidecar where
  "demo4 = demo3\<lparr>reachable := [''P'', ''M''], modelFields := [''count'', ''p'']\<rparr>"

definition demo6 :: Sidecar where
  "demo6 = demo4\<lparr>reachable := [''P'', ''M'', ''E''], i64Slots := [''M.count'', ''helpers.h.params[0]''], helperNames := [''h''],
     armDescriptors := [(''set'', namedRef ''enum'' ''E''), (''raw'', plainRef ''bytes'')]\<rparr>"

lemmas demo_json = memberJson_def plainRef_def namedRef_def sfld_def kindOf_def jm_has_def hasKey_def Let_def

lemma demo_header: "checkKeys demoSidecar startSidecar = startSidecar" "checkHeader demoSidecar startSidecar = startSidecar"
  "checkHashes demoSidecar startSidecar = startSidecar"
proof -
  show "checkKeys demoSidecar startSidecar = startSidecar" "checkHashes demoSidecar startSidecar = startSidecar" by code_simp+
  show "checkHeader demoSidecar startSidecar = startSidecar"
    by (simp add: checkHeader_def demoSidecar_def isInteger_def js_eval demo_json)
qed

lemma demo_tables: "claimTables demoTypes startSidecar = demo2"
  by (simp add: claimTables_def claimStruct_def claimEnum_def claimUnion_def claimEntry_def claimName_def named_def
      demoTypes_def startSidecar_def demo2_def demoM_def demoP_def demoE_def demo_json)

lemmas walk_json = walkRef.simps [of "JObj kvs" for kvs] TYPEREF_KINDS_def walkNamed_def markRef_def edgesOf_def tableOf_def setAdd_def

lemma demo_types: "checkTypes demo2 = demo3"
  by (simp add: checkTypes_def walkStruct_def walkUnion_def walkEnum_def walkMember_def walk_json
      demo2_def demo3_def demoM_def demoP_def demoE_def startSidecar_def demo_json)

lemma demo_model: "checkModel demoSidecar demo3 = Inr demo4"
  by (simp add: checkModel_def addModelField_def demoSidecar_def demo4_def demo3_def demo2_def demoM_def startSidecar_def setAdd_def demo_json)

lemma intDigits_0: "intDigits 0 = ''0''"
  by (simp add: intDigits.simps [of 0] digitChar_def) code_simp

lemma demo_helpers: "checkMsg demoSidecar (checkHelpers demoSidecar demo4) = demo6"
  by (simp add: checkMsg_def checkHelpers_def walkHelper_def walkParam_def walk_json hasMsgShape_def walkArm_def armPayload_def namedArm_def payloadTable_def
      demoMsg_def demoSidecar_def demo6_def demo4_def demo3_def demo2_def startSidecar_def demo_json intDigits_0)

lemma demo_rest: "violations (checkSlots demoSidecar (checkReachable (checkChannels demoSidecar (checkAbi demoSidecar (checkUnbound demoSidecar demo6))))) = []"
  by (simp add: checkUnbound_def checkAbi_def addExport_def checkChannels_def functionChannel_def FUNCTION_CHANNELS_def armChannel_def NAMED_FAMILY_def
      envMsg_def checkReachable_def reachLoop.simps [of _ "[''P'', ''M'', ''E'']"] reachPass_def edgesOf_def checkSlots_def declareSlot_def setAdd_def jm_keys_def
      demoMsg_def demoChannels_def demoSidecar_def demo6_def demo4_def demo3_def demo2_def startSidecar_def demo_json)

lemma demo_acyclic: "checkAcyclic (edges demo6) = []"
  by (simp add: checkAcyclic_def visitType.simps [of _ "[]"] visitType.simps [of _ "[x]" for x] edgesOf_def setAdd_def jm_keys_def
      demo6_def demo4_def demo3_def)

lemma demo_accepted: "validateSidecar demoSidecar = Inr []"
proof -
  have "checkV5 demo6 = demo6" by (simp add: checkV5_def demo_acyclic)
  moreover have "fld demoSidecar ''types'' = demoTypes" "isDict demoSidecar" "hasTypeTable demoTypes"
    by (simp_all add: demoSidecar_def hasTypeTable_def demoTypes_def)
  ultimately show ?thesis
    by (simp add: validateSidecar_def demo_header demo_tables demo_types demo_model checkRest_def demo_helpers demo_rest)
qed

section \<open>Exceptions\<close>

lemma claimTables_tables: "tables st = tables st' \<Longrightarrow> tables (claimTables types st) = tables (claimTables types st')"
proof -
  have fold: "tables (foldl f st xs) = tables (foldl f st' xs)"
    if "\<And>st st' x. tables st = tables st' \<Longrightarrow> tables (f st x) = tables (f st' x)" "tables st = tables st'" for f :: "Sidecar \<Rightarrow> json \<Rightarrow> Sidecar" and st st' xs
    using that(2)
  proof (induction xs arbitrary: st st')
    case (Cons x xs)
    show ?case using Cons.IH [OF that(1) [OF Cons.prems]] by simp
  qed simp
  have step: "tables (claimStruct st x) = tables (claimStruct st' x)" "tables (claimEnum st x) = tables (claimEnum st' x)"
    "tables (claimUnion st x) = tables (claimUnion st' x)" if "tables st = tables st'" for st st' x
    using that by (simp_all add: claimStruct_def claimEnum_def claimUnion_def claimEntry_def claimName_def named_def bad_def tables_def)
  assume "tables st = tables st'"
  then show ?thesis unfolding claimTables_def by (intro fold step)
qed

lemma validate_throws:
  "(\<exists>e. validateSidecar doc = Inl e) \<longleftrightarrow>
     isDict doc \<and> hasTypeTable (fld doc ''types'') \<and> isStr (fld doc ''model'') \<and>
     (\<exists>s. jm_get (structs (claimTables (fld doc ''types'') startSidecar)) (sfld doc ''model'') = Some s \<and> (\<exists>e. iterOf (fld s ''fields'') = Inl e))"
proof -
  let ?st1 = "checkHashes doc (checkHeader doc (checkKeys doc startSidecar))"
  have "structs (checkTypes (claimTables (fld doc ''types'') ?st1)) = structs (claimTables (fld doc ''types'') startSidecar)"
    using claimTables_tables [OF header_tables, of "fld doc ''types''" doc startSidecar] by (simp add: checkTypes_keeps tables_def)
  then show ?thesis by (auto simp: validateSidecar_def checkModel_def bindE_def Let_def split: sum.splits option.splits)
qed

definition noFields :: json where
  "noFields = JObj [(''types'', JObj [(''structs'', JArr [JObj [(''name'', JStr ''M''), (''fields'', JBool True)]]), (''enums'', JArr []), (''unions'', JArr [])]),
     (''model'', JStr ''M'')]"

section \<open>Properties\<close>

text \<open>C32. References of an accepted sidecar. The entries of the three type tables have pairwise
  different names; every field, arm payload, helper parameter and return, and message payload
  refers only to entries of the right table; the model is a struct; the references between
  entries have no cycle; and every entry is reachable, through references, from the model, a
  helper or a message.\<close>

theorem sidecar_references_sound:
  assumes "validateSidecar doc = Inr []"
  shows "distinct (typeNames (tablesOf doc)) \<and> tableOk (tablesOf doc) \<and> jm_has (entriesOf doc ''structs'') (sfld doc ''model'') \<and>
    (\<forall>h\<in>set (helpersOf doc). helperOk (tablesOf doc) h) \<and> (\<forall>a\<in>set (armsOf doc). armOk (tablesOf doc) a) \<and>
    acyclic (tableEdges (tablesOf doc)) \<and>
    (\<forall>n\<in>set (typeNames (tablesOf doc)). \<exists>r\<in>roots doc. (r, n) \<in> (tableEdges (tablesOf doc))\<^sup>*)"
proof -
  from accepted [OF assms] obtain st where st: "checkModel doc (checkTypes (claimTables (fld doc ''types'') startSidecar)) = Inr st"
    "violations (checkRest doc st) = []" "isStr (fld doc ''model'')" .
  note p = checkRest_parts [OF st(2)]
  note c = collected_state [OF p(7) st(1,3)]
  let ?st6 = "checkMsg doc (checkHelpers doc st)"
  let ?E = "tableEdges (tablesOf doc)"
  have E: "edgeRel (edges ?st6) = ?E" and R: "set (reachable ?st6) = tableNames (tablesOf doc) \<union> roots doc" and T: "tables ?st6 = tablesOf doc"
    and X: "exportSet ?st6 = []" using c(1) by (simp_all add: collected_def)
  have acyc: "acyclic ?E" using p(6) checkAcyclic_exact [of "edges ?st6"] E by simp
  have u: "checkUnbound doc ?st6 = ?st6" using checkUnbound_quiet(2) [OF p(5) c(7)] p(8) by simp
  have "checkAbi doc ?st6 = ?st6\<lparr>exportSet := map strOf (exportsOf doc)\<rparr>" using checkAbi_quiet(2) p(4,8) u X by simp
  then have "set (typeNames (tablesOf doc)) \<subseteq> ?E\<^sup>* `` (Range ?E \<union> roots doc)"
    using checkReachable_quiet(3) [OF p(2)] checkChannels_quiet(2) [OF p(3)] p(8) u E R T by (simp add: tableEdges_range tables_def)
  then have "set (typeNames (tablesOf doc)) \<subseteq> ?E\<^sup>* `` roots doc"
    using reached_from_roots [OF _ acyc _ tableEdges_domain] edgeRel_finite [of "edges ?st6"] E by simp
  then show ?thesis using c(2-5,9) acyc by blast
qed

theorem sidecar_references_sound_witness:
  "validateSidecar demoSidecar = Inr [] \<and> acyclic (tableEdges (tablesOf demoSidecar)) \<and>
   set (typeNames (tablesOf demoSidecar)) \<subseteq> (tableEdges (tablesOf demoSidecar))\<^sup>* `` roots demoSidecar"
  using sidecar_references_sound [OF demo_accepted] demo_accepted by blast

text \<open>C33. Integer slots of an accepted sidecar: the declared slots are pairwise different and are
  exactly the positions spelled \<^verbatim>\<open>i64\<close> in the type tables, the helpers and the messages, those below
  a slice excepted.\<close>

theorem sidecar_slots_exact:
  assumes "validateSidecar doc = Inr []"
  shows "distinct (declaredSlots doc) \<and> set (declaredSlots doc) = spelledSlots doc"
proof -
  from accepted [OF assms] obtain st where st: "checkModel doc (checkTypes (claimTables (fld doc ''types'') startSidecar)) = Inr st"
    "violations (checkRest doc st) = []" "isStr (fld doc ''model'')" .
  note p = checkRest_parts [OF st(2)]
  note c = collected_state [OF p(7) st(1,3)]
  let ?st6 = "checkMsg doc (checkHelpers doc st)"
  have "checkUnbound doc ?st6 = ?st6" using checkUnbound_quiet(2) [OF p(5) c(7)] p(8) by simp
  then have "checkAbi doc (checkUnbound doc (checkV5 ?st6)) = ?st6\<lparr>exportSet := map strOf (exportsOf doc)\<rparr>"
    using checkAbi_quiet(2) [OF p(4)] p(8) c(1) by (simp add: collected_def)
  then show ?thesis
    using checkSlots_quiet(2,3) [OF p(1)] checkReachable_quiet(2) [OF p(2)] checkChannels_quiet(2) [OF p(3)] c(1)
    by (simp add: collected_def)
qed

theorem sidecar_slots_exact_witness:
  "validateSidecar demoSidecar = Inr [] \<and> set (declaredSlots demoSidecar) = spelledSlots demoSidecar \<and>
   declaredSlots demoSidecar = [''M.count'', ''helpers.h.params[0]'']"
  using sidecar_slots_exact [OF demo_accepted] demo_accepted by (simp add: declaredSlots_def demoSidecar_def sfld_def)

text \<open>C34. Wiring of an accepted sidecar: the top-level keys are exactly the schema's, in its order;
  both hashes have sixteen hexadecimal digits; there are at most 256 message arms with pairwise
  different names; unbound names exist; a function channel is on exactly when its suffix is
  exported; an arm channel names an arm with a named type; an environment variable occurs once and
  targets an arm of raw bytes.\<close>

theorem sidecar_wiring_sound:
  assumes "validateSidecar doc = Inr []"
  shows "map fst (objEntries doc) = TOP_LEVEL_ORDER \<and> HASH_RE (sfld doc ''source_hash'') \<and> HASH_RE (sfld doc ''build_id'') \<and>
    length (armsOf doc) \<le> 256 \<and> distinct (map fst (descriptors doc)) \<and>
    (\<forall>x\<in>set (arrOf (fld doc ''model_unbound'')). strOf x \<in> modelFieldsOf doc \<or> strOf x \<in> (\<lambda>h. sfld h ''name'') ` set (helpersOf doc)) \<and>
    (\<forall>x\<in>set (arrOf (fld (fld doc ''msg'') ''unbound'')). jm_has (descriptors doc) (strOf x)) \<and>
    distinct (map strOf (exportsOf doc)) \<and>
    (\<forall>ch\<in>set FUNCTION_CHANNELS. functionWired (fld doc ''channels'') (map strOf (exportsOf doc)) ch) \<and>
    (\<forall>ch\<in>{''appearance_msg'', ''chrome_msg''}. armWired (fld doc ''channels'') (descriptors doc) ch) \<and>
    (\<forall>e\<in>set (envMsgsOf doc). envWired (descriptors doc) e) \<and> distinct (map (\<lambda>e. sfld e ''env'') (envMsgsOf doc))"
proof -
  from accepted [OF assms] obtain st where st: "checkModel doc (checkTypes (claimTables (fld doc ''types'') startSidecar)) = Inr st"
    "violations (checkRest doc st) = []" "isStr (fld doc ''model'')" "violations (checkHashes doc startSidecar) = []"
    "violations (checkKeys doc startSidecar) = []" .
  note p = checkRest_parts [OF st(2)]
  note c = collected_state [OF p(7) st(1,3)]
  let ?st6 = "checkMsg doc (checkHelpers doc st)"
  have D: "armDescriptors ?st6 = descriptors doc" and H: "helperNames ?st6 = map (\<lambda>h. sfld h ''name'') (helpersOf doc)"
    and M: "set (modelFields ?st6) = modelFieldsOf doc" and X: "exportSet ?st6 = []" using c(1) by (simp_all add: collected_def)
  note u = checkUnbound_quiet [OF p(5) c(7), unfolded p(8)]
  note b = checkAbi_quiet [OF p(4) [unfolded p(8) u(2)] X]
  note w = checkChannels_quiet [OF p(3), unfolded p(8) u(2) b(2)]
  show ?thesis
    using keys_in_order [OF st(5)] checkHashes_quiet(4,6) [OF st(4)] c(8,10) u(4,5) b(3) w(3-6) D H M by simp
qed

theorem sidecar_wiring_sound_witness:
  "validateSidecar demoSidecar = Inr [] \<and> envWired (descriptors demoSidecar) (hd (envMsgsOf demoSidecar)) \<and>
   armWired (fld demoSidecar ''channels'') (descriptors demoSidecar) ''appearance_msg''"
proof -
  have "envMsgsOf demoSidecar \<noteq> []" by (simp add: envMsgsOf_def demoSidecar_def demoChannels_def)
  then show ?thesis using sidecar_wiring_sound [OF demo_accepted] demo_accepted by simp
qed


end
