(* ===== verification/Diagnostics.thy ===== *)
theory Diagnostics
  imports Json
begin

text \<open>
  The diagnostics of \<^verbatim>\<open>diagnostics/diagnostic.ts\<close> that library mode constructs. An optional property
  is an option; a source location is the tree it is in the IR.
\<close>

record ScrDiagnostic =
  dgCode :: string
  dgMessage :: string
  dgLoc :: json
  dgMilestone :: "string option"
  dgHint :: "string option"
  dgNote :: "string option"

definition libExportUnresolvedDiag :: "string \<Rightarrow> string \<Rightarrow> json \<Rightarrow> ScrDiagnostic" where
  "libExportUnresolvedDiag exportName detail loc = \<lparr>dgCode = ''SC4002'',
     dgMessage = ''library export '' @ squote exportName @ '' cannot be resolved: '' @ detail, dgLoc = loc, dgMilestone = None,
     dgHint = Some (''the export map may only name function declarations exported by the profile's ONE entry module; '' @
       ''a program with exports scattered across files writes a one-line facade module that re-exports them '' @
       ''and points the profile's entry at the facade''), dgNote = None\<rparr>"

definition libUnmappableSignatureDiag :: "string \<Rightarrow> string \<Rightarrow> string \<Rightarrow> json \<Rightarrow> ScrDiagnostic" where
  "libUnmappableSignatureDiag exportName position detail loc = \<lparr>dgCode = ''SC4003'',
     dgMessage = ''library export '' @ squote exportName @ '': '' @ position @ '' '' @ detail, dgLoc = loc, dgMilestone = None,
     dgHint = Some (''marshalling classes: f64/u8/u32/i32 (TS number; the integer plumbing classes are param-only), i64/u64 (TS number, '' @
       ''prove-or-refuse at compile time - params and returns), bool, string, bytes (Uint8Array/Buffer), and a void return; '' @
       ''records and unions slot in when the contract-sidecar conversation (asks 2/3) lands - deferral, not permanent unsupport''),
     dgNote = None\<rparr>"

definition libAsyncExportDiag :: "string \<Rightarrow> string \<Rightarrow> json \<Rightarrow> ScrDiagnostic" where
  "libAsyncExportDiag exportName kind loc = \<lparr>dgCode = ''SC4004'',
     dgMessage = ''library export '' @ squote exportName @ '' is '' @ (if kind = ''async'' then ''an async function'' else ''a generator'') @
       '' - a profile entry is a synchronous ABI symbol'', dgLoc = loc, dgMilestone = None,
     dgHint = Some ''expose a synchronous facade function and map that instead'', dgNote = None\<rparr>"

definition libFenceDiag :: "string \<Rightarrow> string \<Rightarrow> string \<Rightarrow> json \<Rightarrow> string option \<Rightarrow> string option \<Rightarrow> ScrDiagnostic" where
  "libFenceDiag profileName surfaceId surfaceName loc surfaceCode teaching = \<lparr>dgCode = ''SC4008'',
     dgMessage = ''the '' @ squote profileName @ '' profile fences '' @ squote surfaceId @ '' ('' @ surfaceName @
       (case surfaceCode of Some c \<Rightarrow> '', '' @ c | None \<Rightarrow> []) @ ''), and this library graph reaches it'', dgLoc = loc, dgMilestone = None,
     dgHint = Some (''the profile denies this surface at compile time (a determinism fence over the surface manifest's ids) - '' @
       ''remove the use from everything the entry module reaches, or lift the fence''),
     dgNote = (case teaching of Some t \<Rightarrow> Some (''from the '' @ squote profileName @ '' profile: '' @ t) | None \<Rightarrow> None)\<rparr>"

definition libGenericExportDiag :: "string \<Rightarrow> json \<Rightarrow> ScrDiagnostic" where
  "libGenericExportDiag exportName loc = \<lparr>dgCode = ''SC4007'',
     dgMessage = ''library export '' @ squote exportName @ '' is generic - a profile entry needs one concrete compiled signature'',
     dgLoc = loc, dgMilestone = None,
     dgHint = Some (''pin a concrete instantiation in the entry (or facade) module and map that: '' @ ''export const update_f64 = update<number>''),
     dgNote = None\<rparr>"

definition libSidecarDiag :: "string \<Rightarrow> json \<Rightarrow> string option \<Rightarrow> ScrDiagnostic" where
  "libSidecarDiag detail loc hint = \<lparr>dgCode = ''SC4009'', dgMessage = ''contract sidecar: '' @ detail, dgLoc = loc, dgMilestone = None,
     dgHint = Some (case hint of Some h \<Rightarrow> h | None \<Rightarrow>
       ''the sidecar's type table speaks a closed vocabulary (bool, number, string/Uint8Array, optional, arrays, '' @
       ''named records, string-literal-union enums, and kind-tagged unions of object literals) read from the entry '' @
       ''module's exported declarations in source order''), dgNote = None\<rparr>"

definition LIB_INBOUND_BYTES_TRAP_CODE :: string where
  "LIB_INBOUND_BYTES_TRAP_CODE = ''SC4012''"

definition LIB_RUNTIME_TRAP_CODES :: "string list" where
  "LIB_RUNTIME_TRAP_CODES = [''SC4013'', ''SC4014'', ''SC4015'', ''SC4016'', ''SC4017'', ''SC4018'', ''SC4019'', ''SC4025'', ''SC4026'']"

end
