(* ===== verification/FenceEval.thy ===== *)
theory FenceEval
  imports LibGates ErrorMonad Diagnostics
begin

text \<open>
  \<^verbatim>\<open>library/fence-eval.ts\<close>: determinism fences. A profile denies surfaces by their identifier or
  an identifier prefix in the compiler's surface manifest; a fence on a surface that compiles is
  turned into a detector, a set of IR facts, and evaluated against the compiled module. The
  manifest's entries and the lowering tables it is generated from (\<^verbatim>\<open>frontend/lowering/surfaces.ts\<close>)
  are data, passed as a record; the module-level cache of the taxonomy holds what \<open>fenceTaxonomy\<close>
  computes from them.
\<close>

section \<open>Tables\<close>

record SurfaceManifestEntry =
  seId :: string
  seKind :: string
  seName :: string
  seStatus :: string
  seCode :: "string option"

record SurfaceTables =
  stEntries :: "SurfaceManifestEntry list"
  BUILTIN_MODULE_FNS :: "(string, (string, string option) jsmap) jsmap"
  BUILTIN_MODULE_FN_ALIASES :: "(string, (string, string list) jsmap) jsmap"
  BUILTIN_MODULE_CONSTS :: "(string, string list) jsmap"
  STATIC_MATH_PROPS :: "string list"
  STATIC_MATH_FNS :: "(string, string) jsmap"
  STATIC_NUMBER_METHODS :: "(string, string list) jsmap"
  STR_METHODS :: "(string, string) jsmap"
  AMBIENT_SURFACE_FNS :: "(string \<times> string list) list"

record LibraryFenceDecl =
  fdPath :: string
  fdId :: "string option"
  fdPrefix :: string
  fdTeaching :: "string option"
  fdRemediation :: "string option"

record SurfaceDetector =
  libFns :: "string list"
  strMethods :: "string list"
  arrMethods :: "string list"
  mapMethods :: "string list"
  setMethods :: "string list"

definition noDetector :: SurfaceDetector where
  "noDetector = \<lparr>libFns = [], strMethods = [], arrMethods = [], mapMethods = [], setMethods = []\<rparr>"

record FencedSurface =
  fsId :: string
  fsName :: string
  fsKind :: string
  fsCode :: "string option"
  fsDetector :: "SurfaceDetector option"

record ResolvedLibraryFence =
  rfDeclared :: string
  rfTeaching :: "string option"
  rfRemediation :: "string option"
  rfSurfaces :: "FencedSurface list"

section \<open>The taxonomy\<close>

record FenceTaxonomy =
  byId :: "(string, SurfaceManifestEntry) jsmap"
  txIds :: "string list"
  builtinFns :: "(string, string list) jsmap"
  builtinRoots :: "(string, string list) jsmap"
  foldedIds :: "string list"
  ambientFns :: "(string, string list) jsmap"

definition mapOf :: "('k \<times> 'v) list \<Rightarrow> ('k, 'v) jsmap" where
  "mapOf kvs = foldl (\<lambda>m kv. jm_set m (fst kv) (snd kv)) [] kvs"

definition builtinRootId :: "string \<Rightarrow> string" where
  "builtinRootId m = ''node-builtin.'' @ joinWith ''.'' (splitOn (CHR ''/'') m)"

definition getOr :: "'v \<Rightarrow> ('k, 'v) jsmap \<Rightarrow> 'k \<Rightarrow> 'v" where
  "getOr d m k = (case jm_get m k of Some v \<Rightarrow> v | None \<Rightarrow> d)"

definition memberFns :: "SurfaceTables \<Rightarrow> string \<Rightarrow> string \<Rightarrow> string \<Rightarrow> string list" where
  "memberFns T m member fn =
     (let fns = [fn];
          fns1 = (if m = ''path''
                  then (case getOr None (getOr [] (BUILTIN_MODULE_FNS T) ''path/win32'') member of Some w \<Rightarrow> setAdd fns w | None \<Rightarrow> fns)
                  else fns);
          fns2 = (if m = ''url'' \<and> member = ''pathToFileURL'' then setAdd fns1 ''url.pathToFileURLWin32'' else fns1)
      in foldl setAdd fns2 (getOr [] (getOr [] (BUILTIN_MODULE_FN_ALIASES T) m) member))"

definition taxMember :: "SurfaceTables \<Rightarrow> string \<Rightarrow> string list \<times> (string, string list) jsmap \<Rightarrow> string \<times> string option \<Rightarrow>
    string list \<times> (string, string list) jsmap" where
  "taxMember T m acc row = (case (acc, row) of ((rootFns, bf), (member, entry)) \<Rightarrow>
     (case entry of None \<Rightarrow> (rootFns, bf)
      | Some fn \<Rightarrow> let fns = memberFns T m member fn
                  in (foldl setAdd rootFns fns, jm_set bf (builtinRootId m @ ''.'' @ member) fns)))"

definition taxModule :: "SurfaceTables \<Rightarrow> (string, string list) jsmap \<times> (string, string list) jsmap \<Rightarrow> string \<times> (string, string option) jsmap \<Rightarrow>
    (string, string list) jsmap \<times> (string, string list) jsmap" where
  "taxModule T acc row = (case (acc, row) of ((bf, roots), (m, members)) \<Rightarrow>
     (case foldl (taxMember T m) ([], bf) members of (rootFns, bf1) \<Rightarrow>
        (bf1, if rootFns = [] then roots else jm_set roots (builtinRootId m) rootFns)))"

definition folded :: "SurfaceTables \<Rightarrow> string list" where
  "folded T = foldl setAdd [] (concat (map (\<lambda>(m, members). map (\<lambda>member. builtinRootId m @ ''.'' @ member) members) (BUILTIN_MODULE_CONSTS T)) @
     map (\<lambda>member. ''stdlib.math.'' @ member) (STATIC_MATH_PROPS T))"

definition fenceTaxonomy :: "SurfaceTables \<Rightarrow> FenceTaxonomy" where
  "fenceTaxonomy T = (case foldl (taxModule T) ([], []) (BUILTIN_MODULE_FNS T) of (bf, roots) \<Rightarrow>
     \<lparr>byId = mapOf (map (\<lambda>e. (seId e, e)) (stEntries T)), txIds = map seId (stEntries T), builtinFns = bf, builtinRoots = roots,
      foldedIds = folded T, ambientFns = mapOf (AMBIENT_SURFACE_FNS T)\<rparr>)"

section \<open>Classification\<close>

definition ARR_DETECTABLE :: "(string, string list) jsmap" where
  "ARR_DETECTABLE = [(''push'', [''push'', ''pushSpread'']), (''unshift'', [''unshift'', ''unshiftSpread'']), (''pop'', [''pop'']),
     (''reverse'', [''reverse'']), (''indexOf'', [''indexOf'']), (''includes'', [''includes'']), (''join'', [''join'']), (''slice'', [''slice''])]"

definition MAP_DETECTABLE :: "string list" where
  "MAP_DETECTABLE = [''get'', ''set'', ''has'', ''delete'', ''clear'']"

definition SET_DETECTABLE :: "string list" where
  "SET_DETECTABLE = [''add'', ''has'', ''delete'', ''clear'']"

datatype SurfaceClass = Detector SurfaceDetector | Refusal | Unfenceable string

definition DESUGARED_WHY :: string where
  "DESUGARED_WHY = ''it desugars at compile time into plain loops over iteration primitives, so the compiled graph carries no distinct trace to police''"

text \<open>The cases of the \<^verbatim>\<open>stdlib.\<close> families; \<open>None\<close> falls through to the tests that follow.\<close>

definition stdlibClass :: "SurfaceTables \<Rightarrow> string \<Rightarrow> string \<Rightarrow> SurfaceClass option" where
  "stdlibClass T family member =
     (if family = ''math'' then map_option (\<lambda>fn. Detector (noDetector\<lparr>libFns := [fn]\<rparr>)) (jm_get (STATIC_MATH_FNS T) member)
      else if family = ''number'' then map_option (\<lambda>fns. Detector (noDetector\<lparr>libFns := fns\<rparr>)) (jm_get (STATIC_NUMBER_METHODS T) member)
      else if family = ''string'' then map_option (\<lambda>m. Detector (noDetector\<lparr>strMethods := [m]\<rparr>)) (jm_get (STR_METHODS T) member)
      else if family = ''array'' then
        (case jm_get ARR_DETECTABLE member of Some ms \<Rightarrow> Some (Detector (noDetector\<lparr>arrMethods := ms\<rparr>)) | None \<Rightarrow> Some (Unfenceable DESUGARED_WHY))
      else if family = ''map'' then
        Some (if member \<in> set MAP_DETECTABLE then Detector (noDetector\<lparr>mapMethods := [member]\<rparr>) else Unfenceable DESUGARED_WHY)
      else if family = ''set'' then
        Some (if member \<in> set SET_DETECTABLE then Detector (noDetector\<lparr>setMethods := [member]\<rparr>) else Unfenceable DESUGARED_WHY)
      else None)"

definition unfenceableWhy :: "string \<Rightarrow> string" where
  "unfenceableWhy i =
     (if startsWith i ''syntax.'' then ''it lowers to the same IR as its expanded spelling, so the compiled graph carries no distinct trace to police''
      else if startsWith i ''node-builtin.'' then ''its lowered surface leaves no tabled per-call trace at this compiler release - fence the member entries the manifest projects instead''
      else ''no fence detector exists for it at this compiler release'')"

definition classifySurface :: "SurfaceTables \<Rightarrow> SurfaceManifestEntry \<Rightarrow> FenceTaxonomy \<Rightarrow> SurfaceClass" where
  "classifySurface T entry tax =
     (if seStatus entry \<noteq> ''static'' then Refusal
      else if seId entry \<in> set (foldedIds tax)
      then Unfenceable ''reads of it fold to a per-binary constant at compile time - the artifact performs no runtime read a fence could deny''
      else case jm_get (ambientFns tax) (seId entry) of Some fns \<Rightarrow> Detector (noDetector\<lparr>libFns := fns\<rparr>) | None \<Rightarrow>
      (case jm_get (builtinFns tax) (seId entry) of Some fns \<Rightarrow> Detector (noDetector\<lparr>libFns := fns\<rparr>) | None \<Rightarrow>
      (case jm_get (builtinRoots tax) (seId entry) of Some fns \<Rightarrow> Detector (noDetector\<lparr>libFns := fns\<rparr>) | None \<Rightarrow>
      (case (if startsWith (seId entry) ''stdlib.''
             then (case splitOn (CHR ''.'') (seId entry) of _ # family # member # _ \<Rightarrow> stdlibClass T family member | _ \<Rightarrow> None) else None) of
         Some c \<Rightarrow> c | None \<Rightarrow> Unfenceable (unfenceableWhy (seId entry))))))"

section \<open>Resolution at load\<close>

definition keep :: "SurfaceManifestEntry \<Rightarrow> SurfaceClass \<Rightarrow> FencedSurface" where
  "keep entry c = \<lparr>fsId = seId entry, fsName = seName entry, fsKind = seKind entry, fsCode = seCode entry,
     fsDetector = (case c of Detector d \<Rightarrow> Some d | _ \<Rightarrow> None)\<rparr>"

definition resolveId :: "SurfaceTables \<Rightarrow> FenceTaxonomy \<Rightarrow> LibraryFenceDecl \<Rightarrow> string \<Rightarrow> FencedSurface list res" where
  "resolveId T tax d i = (case jm_get (byId tax) i of
     None \<Rightarrow> Inl (squote (fdPath d @ ''.id'') @ '' names no entry in this compiler release's surface manifest ('' @ squote i @ '') - '' @
       ''fences pin to the release's manifest ids (the package ships surface-manifest.json), and an unknown id is refused, never accepted as inert'')
   | Some entry \<Rightarrow> (case classifySurface T entry tax of
       Unfenceable why \<Rightarrow> Inl (squote (fdPath d @ ''.id'') @ '' names '' @ squote i @ '', which cannot be fenced: '' @ why)
     | c \<Rightarrow> Inr [keep entry c]))"

definition coverEntry :: "SurfaceTables \<Rightarrow> FenceTaxonomy \<Rightarrow> LibraryFenceDecl \<Rightarrow> FencedSurface list \<Rightarrow> string \<Rightarrow> FencedSurface list res" where
  "coverEntry T tax d surfaces i = (case jm_get (byId tax) i of
     None \<Rightarrow> Inl ''TypeError''
   | Some entry \<Rightarrow> (case classifySurface T entry tax of
       Unfenceable why \<Rightarrow>
         if i \<in> set (foldedIds tax) then Inr surfaces
         else Inl (squote (fdPath d @ ''.prefix'') @ '' ('' @ squote (fdPrefix d) @ '') covers '' @ squote i @ '', which cannot be fenced: '' @ why)
     | c \<Rightarrow> Inr (surfaces @ [keep entry c])))"

definition resolvePrefix :: "SurfaceTables \<Rightarrow> FenceTaxonomy \<Rightarrow> LibraryFenceDecl \<Rightarrow> FencedSurface list res" where
  "resolvePrefix T tax d =
     (let covered = filter (\<lambda>i. startsWith i (fdPrefix d)) (txIds tax) in
      if covered = []
      then Inl (squote (fdPath d @ ''.prefix'') @ '' matches no entry in this compiler release's surface manifest ('' @ squote (fdPrefix d) @ '') - '' @
        ''fences pin to the release's manifest ids (the package ships surface-manifest.json), and an unknown prefix is refused, never accepted as inert'')
      else bindE (foldE (coverEntry T tax d) [] covered) (\<lambda>surfaces.
        if surfaces = []
        then Inl (squote (fdPath d @ ''.prefix'') @ '' ('' @ squote (fdPrefix d) @ '') covers only compile-time-folded constants - '' @
          ''there is nothing at runtime for the fence to deny'')
        else Inr surfaces))"

definition resolveFence :: "SurfaceTables \<Rightarrow> FenceTaxonomy \<Rightarrow> LibraryFenceDecl \<Rightarrow> ResolvedLibraryFence res" where
  "resolveFence T tax d =
     bindE (case fdId d of Some i \<Rightarrow> resolveId T tax d i | None \<Rightarrow> resolvePrefix T tax d) (\<lambda>surfaces.
       Inr \<lparr>rfDeclared = (case fdId d of Some i \<Rightarrow> ''id '' @ squote i | None \<Rightarrow> ''prefix '' @ squote (fdPrefix d)),
            rfTeaching = fdTeaching d, rfRemediation = fdRemediation d, rfSurfaces = surfaces\<rparr>)"

definition resolveLibraryFences :: "SurfaceTables \<Rightarrow> LibraryFenceDecl list \<Rightarrow> ResolvedLibraryFence list res" where
  "resolveLibraryFences T decls = mapIdxE (\<lambda>_ d. resolveFence T (fenceTaxonomy T) d) 0 decls"

section \<open>Evaluation over the compiled module\<close>

record ReachedSurfaces =
  rcLibFns :: "(string, json) jsmap"
  rcStrMethods :: "(string, json) jsmap"
  rcArrMethods :: "(string, json) jsmap"
  rcMapMethods :: "(string, json) jsmap"
  rcSetMethods :: "(string, json) jsmap"

definition noneReached :: ReachedSurfaces where
  "noneReached = \<lparr>rcLibFns = [], rcStrMethods = [], rcArrMethods = [], rcMapMethods = [], rcSetMethods = []\<rparr>"

definition noteFact :: "(string, json) jsmap \<Rightarrow> string \<Rightarrow> json \<Rightarrow> (string, json) jsmap" where
  "noteFact m key loc = (if jm_has m key then m else jm_set m key loc)"

definition noteNode :: "ReachedSurfaces \<Rightarrow> json \<times> json \<Rightarrow> ReachedSurfaces" where
  "noteNode r nl = (case nl of (node, loc) \<Rightarrow>
     if \<not> hasKind node then r
     else if kindOf node = ''libCall'' \<and> isStr (fld node ''fn'') then r\<lparr>rcLibFns := noteFact (rcLibFns r) (sfld node ''fn'') loc\<rparr>
     else if \<not> isStr (fld node ''method'') then r
     else let m = sfld node ''method'' in
       if kindOf node = ''strIntrinsic'' then r\<lparr>rcStrMethods := noteFact (rcStrMethods r) m loc\<rparr>
       else if kindOf node = ''arrIntrinsic'' then r\<lparr>rcArrMethods := noteFact (rcArrMethods r) m loc\<rparr>
       else if kindOf node = ''mapIntrinsic'' then r\<lparr>rcMapMethods := noteFact (rcMapMethods r) m loc\<rparr>
       else if kindOf node = ''setIntrinsic'' then r\<lparr>rcSetMethods := noteFact (rcSetMethods r) m loc\<rparr>
       else r)"

function visitReached :: "ReachedSurfaces \<Rightarrow> json \<Rightarrow> json \<Rightarrow> ReachedSurfaces" where
  "visitReached r loc v = (case v of
     JArr xs \<Rightarrow> foldl (\<lambda>r x. visitReached r loc x) r xs
   | JObj kvs \<Rightarrow> foldl (\<lambda>r x. visitReached r (here v loc) x) (noteNode r (v, here v loc)) (objValues v)
   | _ \<Rightarrow> r)"
  by pat_completeness auto
termination
proof (relation "measure (\<lambda>(_, _, v). jsz v)")
  fix r r' :: ReachedSurfaces and loc v xs x assume "v = JArr xs" "x \<in> set xs"
  then show "((r', loc, x), r, loc, v) \<in> measure (\<lambda>(_, _, v). jsz v)" using jsz_arrOf_member [of x v] by simp
next
  fix r r' :: ReachedSurfaces and loc v kvs x assume "v = JObj kvs" "x \<in> set (objValues v)"
  then show "((r', here v loc, x), r, loc, v) \<in> measure (\<lambda>(_, _, v). jsz v)" using jsz_objValues_member [of x v] by simp
qed simp

declare visitReached.simps [simp del]

definition collectReachedSurfaces :: "json \<Rightarrow> ReachedSurfaces" where
  "collectReachedSurfaces md = visitReached noneReached (entryLoc md) md"

fun scanFacts :: "(string, json) jsmap \<Rightarrow> string list \<Rightarrow> json option" where
  "scanFacts facts [] = None"
| "scanFacts facts (k # ks) = (case jm_get facts k of Some loc \<Rightarrow> Some loc | None \<Rightarrow> scanFacts facts ks)"

definition detectorHit :: "ReachedSurfaces \<Rightarrow> SurfaceDetector \<Rightarrow> json option" where
  "detectorHit r det =
     orElse (scanFacts (rcLibFns r) (libFns det)) (orElse (scanFacts (rcStrMethods r) (strMethods det))
       (orElse (scanFacts (rcArrMethods r) (arrMethods det)) (orElse (scanFacts (rcMapMethods r) (mapMethods det))
         (scanFacts (rcSetMethods r) (setMethods det)))))"

record FenceProfileView =
  pvName :: string
  pvTeachings :: "(string, string) jsmap"
  pvFences :: "ResolvedLibraryFence list"

definition evalSurface :: "FenceProfileView \<Rightarrow> ReachedSurfaces \<Rightarrow> ResolvedLibraryFence \<Rightarrow> string list \<times> ScrDiagnostic list \<Rightarrow> FencedSurface \<Rightarrow>
    string list \<times> ScrDiagnostic list" where
  "evalSurface p reached fence acc s = (case (acc, fsDetector s) of
     ((seen, diags), Some det) \<Rightarrow>
       (if fsId s \<in> set seen then (seen, diags)
        else case detectorHit reached det of None \<Rightarrow> (seen, diags)
          | Some loc \<Rightarrow> (setAdd seen (fsId s), diags @ [libFenceDiag (pvName p) (fsId s) (fsName s) loc (fsCode s) (rfTeaching fence)]))
   | (_, None) \<Rightarrow> acc)"

definition evalFences :: "FenceProfileView \<Rightarrow> ReachedSurfaces \<Rightarrow> string list \<times> ScrDiagnostic list" where
  "evalFences p reached = foldl (\<lambda>acc fence. foldl (evalSurface p reached fence) acc (rfSurfaces fence)) ([], []) (pvFences p)"

definition evaluateLibraryFences :: "json \<Rightarrow> FenceProfileView \<Rightarrow> ScrDiagnostic list" where
  "evaluateLibraryFences md p =
     (if \<not> list_ex (\<lambda>f. list_ex (\<lambda>s. fsDetector s \<noteq> None) (rfSurfaces f)) (pvFences p) then []
      else snd (evalFences p (collectReachedSurfaces md)))"

section \<open>Teachings\<close>

definition receiverMatch :: "string \<Rightarrow> string \<Rightarrow> string \<Rightarrow> string \<Rightarrow> bool option" where
  "receiverMatch name message pre receiver = (if startsWith name pre
     then Some (str_includes message ([CHR 0x27] @ ''.'' @ drop (length pre) name @ ''()'' @ [CHR 0x27] @ '' on '' @ receiver)) else None)"

definition surfaceMatchesDiag :: "string option \<Rightarrow> string \<Rightarrow> string \<Rightarrow> ScrDiagnostic \<Rightarrow> bool" where
  "surfaceMatchesDiag code name kind diag =
     (if code \<noteq> Some (dgCode diag) then False
      else if kind = ''diagnostic-fence'' \<or> str_includes (dgMessage diag) name then True
      else case receiverMatch name (dgMessage diag) ''number.prototype.'' ''numbers'' of Some b \<Rightarrow> b
      | None \<Rightarrow> (case receiverMatch name (dgMessage diag) ''string.prototype.'' ''strings'' of Some b \<Rightarrow> b | None \<Rightarrow> False))"

definition directTeaching :: "(string, string) jsmap \<Rightarrow> string \<Rightarrow> string option" where
  "directTeaching teachings code =
     orElse (jm_get teachings code) (if code = ''SC4004'' \<or> code = ''SC4005'' then jm_get teachings ''async'' else None)"

definition manifestTeaching :: "FenceTaxonomy \<Rightarrow> ScrDiagnostic \<Rightarrow> string \<times> string \<Rightarrow> string option" where
  "manifestTeaching tax diag kt = (case kt of (key, txt) \<Rightarrow>
     if \<not> str_includes key ''.'' then None
     else case jm_get (byId tax) key of
       Some entry \<Rightarrow> if surfaceMatchesDiag (seCode entry) (seName entry) (seKind entry) diag then Some txt else None
     | None \<Rightarrow> None)"

definition fenceTeaching :: "ScrDiagnostic \<Rightarrow> ResolvedLibraryFence \<Rightarrow> string option" where
  "fenceTeaching diag fence = (case rfTeaching fence of None \<Rightarrow> None
   | Some t \<Rightarrow> if list_ex (\<lambda>s. surfaceMatchesDiag (fsCode s) (fsName s) (fsKind s) diag) (rfSurfaces fence) then Some t else None)"

fun firstSome :: "('a \<Rightarrow> 'b option) \<Rightarrow> 'a list \<Rightarrow> 'b option" where
  "firstSome f [] = None"
| "firstSome f (x # xs) = orElse (f x) (firstSome f xs)"

definition teachingForRefusal :: "SurfaceTables \<Rightarrow> FenceProfileView \<Rightarrow> ScrDiagnostic \<Rightarrow> string option" where
  "teachingForRefusal T p diag =
     orElse (directTeaching (pvTeachings p) (dgCode diag))
       (orElse (firstSome (manifestTeaching (fenceTaxonomy T) diag) (pvTeachings p)) (firstSome (fenceTeaching diag) (pvFences p)))"

definition decorate :: "SurfaceTables \<Rightarrow> FenceProfileView \<Rightarrow> ScrDiagnostic \<Rightarrow> ScrDiagnostic" where
  "decorate T p d =
     (if dgNote d \<noteq> None then d
      else case teachingForRefusal T p d of None \<Rightarrow> d
        | Some t \<Rightarrow> d\<lparr>dgNote := Some (''from the '' @ squote (pvName p) @ '' profile: '' @ t)\<rparr>)"

definition decorateLibraryRefusals :: "SurfaceTables \<Rightarrow> ScrDiagnostic list \<Rightarrow> FenceProfileView \<Rightarrow> ScrDiagnostic list" where
  "decorateLibraryRefusals T diagnostics p =
     (if pvTeachings p = [] \<and> pvFences p = [] then diagnostics else map (decorate T p) diagnostics)"

end
