(* ===== verification/LibProfile.thy ===== *)
theory LibProfile
  imports FenceEval FfiManifest
begin

text \<open>
  \<^verbatim>\<open>library/library-profile.ts\<close>: the loader of a library profile. The profile file is JSON; reading
  and parsing it, the absolute-path test and path resolution are the host's and come in as
  arguments. A thrown \<^verbatim>\<open>ProfileError\<close> is a left value with its detail, which the loader turns into
  the one SC4001 diagnostic. The file's \<^verbatim>\<open>C_IDENT\<close> is the expression of \<^verbatim>\<open>ffi/ffi-manifest.ts\<close>. In
  messages a typographic dash or minus sign is an ASCII hyphen and an arrow is \<^verbatim>\<open>->\<close>.
\<close>

section \<open>Classes\<close>

definition LIB_PARAM_CLASSES :: "string list" where
  "LIB_PARAM_CLASSES = [''f64'', ''bool'', ''string'', ''bytes'', ''u8'', ''u32'', ''i32'', ''i64'', ''u64'']"

definition LIB_RETURN_CLASSES :: "string list" where
  "LIB_RETURN_CLASSES = [''f64'', ''bool'', ''string'', ''bytes'', ''void'', ''i64'', ''u64'']"

definition LIB_CALLBACK_PARAM_CLASSES :: "string list" where
  "LIB_CALLBACK_PARAM_CLASSES = [''f64'', ''bool'', ''string'', ''bytes'', ''u8'', ''u32'', ''i32'']"

definition LIB_CALLBACK_RETURN_CLASSES :: "string list" where
  "LIB_CALLBACK_RETURN_CLASSES = [''f64'', ''bool'', ''u8'', ''u32'', ''i32'', ''void'']"

definition LIB_MAX_CALLBACKS :: nat where
  "LIB_MAX_CALLBACKS = 32"

section \<open>The profile\<close>

record LibraryCallbackEntry =
  lcbName :: string
  lcbParams :: "string list"
  lcbReturns :: string

record LibraryExportEntry =
  leExport :: string
  leSymbol :: string
  leParams :: "string list"
  leReturns :: string

record LibrarySidecarConfig =
  lsPath :: "string option"
  wireVersion :: f64
  abiVersion :: f64
  snapshotFormat :: f64
  buildIdSymbol :: string
  abiVersionSymbol :: string
  lsModel :: string
  lsMsg :: string
  initExport :: string
  updateExport :: string
  subscriptionsExport :: string
  subscriptionsExportDeclared :: bool
  sourceHash :: string
  integerSlots :: "(string \<times> string) list"

record 'b LibraryProfile =
  lpName :: string
  profilePath :: string
  lpEntry :: string
  emission :: string
  optimization :: string
  lpPrefix :: string
  initSymbol :: string
  sinkRegisterSymbol :: string
  collectSymbol :: "string option"
  resultResetSymbol :: "string option"
  localizeRuntime :: bool
  instancePerThread :: bool
  callbackRegisterSymbol :: "string option"
  lpCallbacks :: "LibraryCallbackEntry list"
  lpExports :: "LibraryExportEntry list"
  lpSidecar :: "LibrarySidecarConfig option"
  profileBytes :: 'b
  lpTeachings :: "(string, string) jsmap"
  lpRemediations :: "(string, string) jsmap"
  lpFences :: "ResolvedLibraryFence list"

section \<open>Field readers\<close>

fun typeOf :: "json \<Rightarrow> string" where
  "typeOf JUndef = ''undefined''"
| "typeOf JNull = ''object''"
| "typeOf (JBool _) = ''boolean''"
| "typeOf (JNum _) = ''number''"
| "typeOf (JStr _) = ''string''"
| "typeOf (JArr _) = ''object''"
| "typeOf (JObj _) = ''object''"

definition req :: "json \<Rightarrow> string \<Rightarrow> string \<Rightarrow> json res" where
  "req v path kind = (if typeOf v \<noteq> kind
     then Inl (squote path @ '' must be a '' @ kind @ (if v = JUndef then '' (missing)'' else [])) else Inr v)"

definition reqString :: "json \<Rightarrow> string \<Rightarrow> string res" where
  "reqString v path = bindE (req v path ''string'') (\<lambda>s. Inr (strOf s))"

definition reqBoolean :: "json \<Rightarrow> string \<Rightarrow> bool res" where
  "reqBoolean v path = bindE (req v path ''boolean'') (\<lambda>b. Inr (b = JBool True))"

definition reqNumber :: "json \<Rightarrow> string \<Rightarrow> f64 res" where
  "reqNumber v path = bindE (req v path ''number'') (\<lambda>x. Inr (case x of JNum n \<Rightarrow> n | _ \<Rightarrow> NaN))"

definition nonEmpty :: "string \<Rightarrow> string \<Rightarrow> string res" where
  "nonEmpty s msg = bindE (guardE (s = []) msg) (\<lambda>_. Inr s)"

definition symbolField :: "json \<Rightarrow> string \<Rightarrow> string \<Rightarrow> string res" where
  "symbolField v path pre =
     bindE (reqString v path) (\<lambda>s.
     bindE (guardE (\<not> C_IDENT s) (squote path @ '' is not a valid C identifier: '' @ squote s)) (\<lambda>_.
     bindE (guardE (\<not> startsWith s pre) (squote path @ '' must start with the profile prefix '' @ squote pre @ '': '' @ squote s)) (\<lambda>_. Inr s)))"

text \<open>\<^verbatim>\<open>symbolField\<close> with \<^verbatim>\<open>nullable\<close> true.\<close>

definition symbolFieldOpt :: "json \<Rightarrow> string \<Rightarrow> string \<Rightarrow> string option res" where
  "symbolFieldOpt v path pre = (if isNullish v then Inr None else bindE (symbolField v path pre) (\<lambda>s. Inr (Some s)))"

definition rejectUnknownKeysP :: "json \<Rightarrow> string \<Rightarrow> string list \<Rightarrow> unit res" where
  "rejectUnknownKeysP obj path known =
     forE (\<lambda>k. guardE (k \<notin> set known) (''unknown field '' @ squote (path @ ''.'' @ k) @ '' (a typo here would change the ABI; remove it)''))
       (jm_keys (objEntries obj))"

definition objectAt :: "json \<Rightarrow> string \<Rightarrow> string list \<Rightarrow> unit res" where
  "objectAt v path known =
     bindE (guardE (\<not> isDict v) (squote path @ '' must be an object'')) (\<lambda>_. rejectUnknownKeysP v path known)"

section \<open>Root fields\<close>

definition ROOT_KEYS :: "string list" where
  "ROOT_KEYS = [''profile_format'', ''name'', ''entry'', ''emission'', ''optimization'', ''abi'', ''exports'', ''callbacks'', ''sidecar'', ''determinism'']"

definition checkRootKey :: "string \<Rightarrow> unit res" where
  "checkRootKey k =
     (if k \<in> set ROOT_KEYS then Inr ()
      else if k = ''fences'' \<or> k = ''teachings'' \<or> k = ''remediations''
      then Inl (squote k @ '' at the profile root does nothing - the ask-5 determinism surface lives under '' @ squote (''determinism.'' @ k) @ ''; move it there'')
      else Inl (''unknown field '' @ squote k @ '' (root keys are strict: a typo here would silently change the build; remove it)''))"

definition readEmission :: "json \<Rightarrow> string res" where
  "readEmission p = bindE (reqString (fld p ''emission'') ''emission'') (\<lambda>e.
     bindE (guardE (e \<notin> {''llvm'', ''c'', ''rust''})
       (squote ''emission'' @ '' must be '' @ quoteJson ''llvm'' @ '', '' @ quoteJson ''c'' @ '', or '' @ quoteJson ''rust'' @ '', got '' @ squote e))
       (\<lambda>_. Inr e))"

definition readOptimization :: "json \<Rightarrow> string res" where
  "readOptimization p =
     bindE (if fld p ''optimization'' = JUndef then Inr ''release'' else reqString (fld p ''optimization'') ''optimization'') (\<lambda>opt.
     bindE (guardE (opt \<noteq> ''release'' \<and> opt \<noteq> ''dev'')
       (squote ''optimization'' @ '' must be '' @ quoteJson ''release'' @ '' or '' @ quoteJson ''dev'' @ '', got '' @ squote opt))
       (\<lambda>_. Inr opt))"

section \<open>Exports\<close>

definition exportParam :: "string \<Rightarrow> nat \<Rightarrow> json \<Rightarrow> string res" where
  "exportParam path j c =
     (if \<not> isStr c \<or> strOf c \<notin> set LIB_PARAM_CLASSES
      then Inl (squote (idxPath (path @ ''.params'') j) @ '' must be one of '' @ joinWith ''/'' LIB_PARAM_CLASSES @ '', got '' @ stringify c)
      else Inr (strOf c))"

definition exportReturns :: "string \<Rightarrow> json \<Rightarrow> string res" where
  "exportReturns path v = bindE (reqString v (path @ ''.returns'')) (\<lambda>returns.
     if returns \<in> set LIB_RETURN_CLASSES then Inr returns
     else if returns \<in> {''u8'', ''u32'', ''i32''}
     then Inl (squote (path @ ''.returns'') @ '': the u8/u32/i32 plumbing classes are parameter-only - an outbound integer return is declared i64 or u64 and compiles only when every value reaching it proves whole and in '' @
            [CHR 0xB1] @ ''(2^53 - 1) (ask 4'' @ [CHR 0x27] @ ''s prove-or-refuse)'')
     else Inl (squote (path @ ''.returns'') @ '' must be one of '' @ joinWith ''/'' LIB_RETURN_CLASSES @ '', got '' @ squote returns))"

definition loadExport :: "string \<Rightarrow> nat \<Rightarrow> json \<Rightarrow> LibraryExportEntry res" where
  "loadExport pre i e =
     (let path = idxPath ''exports'' i in
      bindE (objectAt e path [''export'', ''symbol'', ''params'', ''returns'']) (\<lambda>_.
      bindE (reqString (fld e ''export'') (path @ ''.export'')) (\<lambda>exportName.
      bindE (guardE (exportName = []) (squote (path @ ''.export'') @ '' must be a non-empty export name'')) (\<lambda>_.
      bindE (symbolField (fld e ''symbol'') (path @ ''.symbol'') pre) (\<lambda>symbol.
      bindE (arrayField (fld e ''params'') (path @ ''.params'')) (\<lambda>paramsRaw.
      bindE (mapIdxE (exportParam path) 0 paramsRaw) (\<lambda>params.
      bindE (exportReturns path (fld e ''returns'')) (\<lambda>returns.
      Inr \<lparr>leExport = exportName, leSymbol = symbol, leParams = params, leReturns = returns\<rparr>))))))))"

section \<open>Callbacks\<close>

definition callbackParamClass :: "string \<Rightarrow> nat \<Rightarrow> json \<Rightarrow> string res" where
  "callbackParamClass path j c =
     (if c = JStr ''i64'' \<or> c = JStr ''u64''
      then Inl (squote (idxPath (path @ ''.params'') j) @ '': the declared integer classes are export-map surface - an outbound callback scalar is f64 (whole values ride exactly to '' @
             [CHR 0xB1] @ ''(2^53 - 1)) or one of the u8/u32/i32 plumbing classes (JS ToUint32/ToInt32 semantics)'')
      else if \<not> isStr c \<or> strOf c \<notin> set LIB_CALLBACK_PARAM_CLASSES
      then Inl (squote (idxPath (path @ ''.params'') j) @ '' must be one of '' @ joinWith ''/'' LIB_CALLBACK_PARAM_CLASSES @ '', got '' @ stringify c)
      else Inr (strOf c))"

definition callbackReturns :: "string \<Rightarrow> json \<Rightarrow> string res" where
  "callbackReturns path v = bindE (reqString v (path @ ''.returns'')) (\<lambda>returns.
     if returns \<in> set LIB_CALLBACK_RETURN_CLASSES then Inr returns
     else if returns = ''string'' \<or> returns = ''bytes''
     then Inl (squote (path @ ''.returns'') @ '': a callback return stays scalar - a buffer flowing host -> library needs an ownership contract the mode does not define; pass buffers as callback parameters (library -> host, borrowed for the call) or entry parameters instead'')
     else Inl (squote (path @ ''.returns'') @ '' must be one of '' @ joinWith ''/'' LIB_CALLBACK_RETURN_CLASSES @ '', got '' @ squote returns))"

definition loadCallback :: "nat \<Rightarrow> json \<Rightarrow> LibraryCallbackEntry res" where
  "loadCallback i c =
     (let path = idxPath ''callbacks'' i in
      bindE (objectAt c path [''name'', ''params'', ''returns'']) (\<lambda>_.
      bindE (reqString (fld c ''name'') (path @ ''.name'')) (\<lambda>cbName.
      bindE (guardE (\<not> C_IDENT cbName) (squote (path @ ''.name'') @ '' is not a valid channel name: '' @ squote cbName @
        '' (a channel name is the TypeScript binding compiled code calls and the registration name string - letters, digits, underscore, not starting with a digit)'')) (\<lambda>_.
      bindE (arrayField (fld c ''params'') (path @ ''.params'')) (\<lambda>paramsRaw.
      bindE (mapIdxE (callbackParamClass path) 0 paramsRaw) (\<lambda>cbParams.
      bindE (callbackReturns path (fld c ''returns'')) (\<lambda>cbReturns.
      Inr \<lparr>lcbName = cbName, lcbParams = cbParams, lcbReturns = cbReturns\<rparr>)))))))"

definition loadCallbacks :: "json \<Rightarrow> LibraryCallbackEntry list res" where
  "loadCallbacks v =
     (if isNullish v then Inr []
      else bindE (arrayField v ''callbacks'') (\<lambda>cbRaw.
           bindE (mapIdxE loadCallback 0 cbRaw) (\<lambda>callbacks.
           bindE (guardE (LIB_MAX_CALLBACKS < length callbacks)
             (squote ''callbacks'' @ '' declares '' @ intDigits (int (length callbacks)) @ '' channels - the runtime'' @ [CHR 0x27] @ ''s slot capacity is '' @ intDigits (int LIB_MAX_CALLBACKS)))
             (\<lambda>_. Inr callbacks))))"

definition checkPairing :: "LibraryCallbackEntry list \<Rightarrow> string option \<Rightarrow> unit res" where
  "checkPairing callbacks registerSymbol =
     bindE (guardE (callbacks \<noteq> [] \<and> registerSymbol = None)
       (squote ''callbacks'' @ '' declares channels but '' @ squote ''abi.callback_register_symbol'' @ '' is missing - the host registers channel implementations through that symbol'')) (\<lambda>_.
     guardE (callbacks = [] \<and> registerSymbol \<noteq> None)
       (squote ''abi.callback_register_symbol'' @ '' is declared but '' @ squote ''callbacks'' @ '' declares no channels - remove the symbol or declare the channels it registers''))"

definition seeChannel :: "string list \<Rightarrow> LibraryCallbackEntry \<Rightarrow> string list res" where
  "seeChannel seen cb = bindE (guardE (lcbName cb \<in> set seen) (''callback channel '' @ squote (lcbName cb) @ '' is declared twice''))
     (\<lambda>_. Inr (setAdd seen (lcbName cb)))"

definition checkChannelNames :: "LibraryCallbackEntry list \<Rightarrow> LibraryExportEntry list \<Rightarrow> unit res" where
  "checkChannelNames callbacks entries =
     bindE (foldE seeChannel [] callbacks) (\<lambda>seen.
     forE (\<lambda>e. guardE (leExport e \<in> set seen) (squote (leExport e) @
       '' is both an export-map export and a callback channel name - a channel is a signature-only ambient declaration, an export is an entry function; one binding cannot be both'')) entries)"

section \<open>Sidecar section\<close>

definition intField :: "json \<Rightarrow> string \<Rightarrow> f64 res" where
  "intField s key = bindE (reqNumber (fld s key) (''sidecar.'' @ key)) (\<lambda>v.
     bindE (guardE (\<not> isInteger v \<or> js_lt v (Fin 0)) (squote (''sidecar.'' @ key) @ '' must be a non-negative integer, got '' @ numToString v))
       (\<lambda>_. Inr v))"

definition nameField :: "json \<Rightarrow> string \<Rightarrow> string option \<Rightarrow> string res" where
  "nameField s key fallback = (case (fld s key, fallback) of
     (JUndef, Some d) \<Rightarrow> Inr d
   | (v, _) \<Rightarrow> bindE (reqString v (''sidecar.'' @ key)) (\<lambda>n. nonEmpty n (squote (''sidecar.'' @ key) @ '' must be a non-empty name'')))"

definition sidecarPath :: "(string \<Rightarrow> bool) \<Rightarrow> json \<Rightarrow> string option res" where
  "sidecarPath isAbsolute v =
     (if isNullish v then Inr None
      else bindE (reqString v ''sidecar.path'') (\<lambda>s.
           bindE (guardE (s = []) (squote ''sidecar.path'' @ '' must be a non-empty relative path'')) (\<lambda>_.
           bindE (guardE (isAbsolute s) (squote ''sidecar.path'' @ '' must be relative (the sidecar is written beside the archive)'')) (\<lambda>_.
           Inr (Some s)))))"

definition readSourceHash :: "json \<Rightarrow> unit res" where
  "readSourceHash v =
     bindE (if v = JUndef then Inr ''module-graph'' else reqString v ''sidecar.source_hash'') (\<lambda>h.
     guardE (h \<noteq> ''module-graph'') (squote ''sidecar.source_hash'' @ '' names an unknown hashing contract '' @ squote h @
       '' (this scriptc implements '' @ quoteJson ''module-graph'' @ '')''))"

definition integerSlot :: "(string \<times> string) list \<Rightarrow> nat \<times> json \<Rightarrow> (string \<times> string) list res" where
  "integerSlot slots ie = (case ie of (i, entry) \<Rightarrow>
     (let epath = idxPath ''sidecar.integer_slots'' i in
      bindE (objectAt entry epath [''slot'', ''class'']) (\<lambda>_.
      bindE (reqString (fld entry ''slot'') (epath @ ''.slot'')) (\<lambda>slot.
      bindE (guardE (slot = []) (squote (epath @ ''.slot'') @ '' must be a non-empty slot path'')) (\<lambda>_.
      bindE (reqString (fld entry ''class'') (epath @ ''.class'')) (\<lambda>cls.
      bindE (guardE (cls \<noteq> ''i64'' \<and> cls \<noteq> ''u64'') (squote (epath @ ''.class'') @ '' must be '' @ quoteJson ''i64'' @ '' or '' @ quoteJson ''u64'' @ '', got '' @ squote cls)) (\<lambda>_.
      bindE (guardE (slot \<in> fst ` set slots) (squote (epath @ ''.slot'') @ '' repeats slot path '' @ squote slot)) (\<lambda>_.
      Inr (slots @ [(slot, cls)])))))))))"

definition readIntegerSlots :: "json \<Rightarrow> (string \<times> string) list res" where
  "readIntegerSlots v =
     (if isNullish v then Inr []
      else bindE (arrayField v ''sidecar.integer_slots'') (\<lambda>xs. foldE integerSlot [] (enumerate 0 xs)))"

definition SIDECAR_KEYS :: "string list" where
  "SIDECAR_KEYS = [''path'', ''wire_version'', ''abi_version'', ''snapshot_format'', ''build_id_symbol'', ''abi_version_symbol'', ''model'', ''msg'',
     ''init_export'', ''update_export'', ''subscriptions_export'', ''source_hash'', ''integer_slots'']"

definition loadSidecar :: "(string \<Rightarrow> bool) \<Rightarrow> string \<Rightarrow> json \<Rightarrow> LibrarySidecarConfig option res" where
  "loadSidecar isAbsolute pre s =
     (if isNullish s then Inr None
      else
        bindE (objectAt s ''sidecar'' SIDECAR_KEYS) (\<lambda>_.
        bindE (sidecarPath isAbsolute (fld s ''path'')) (\<lambda>path.
        bindE (readSourceHash (fld s ''source_hash'')) (\<lambda>_.
        bindE (readIntegerSlots (fld s ''integer_slots'')) (\<lambda>slots.
        bindE (intField s ''wire_version'') (\<lambda>wire.
        bindE (intField s ''abi_version'') (\<lambda>abi.
        bindE (intField s ''snapshot_format'') (\<lambda>snapshot.
        bindE (symbolField (fld s ''build_id_symbol'') ''sidecar.build_id_symbol'' pre) (\<lambda>bid.
        bindE (symbolField (fld s ''abi_version_symbol'') ''sidecar.abi_version_symbol'' pre) (\<lambda>abiSym.
        bindE (nameField s ''model'' None) (\<lambda>model.
        bindE (nameField s ''msg'' None) (\<lambda>msg.
        bindE (nameField s ''init_export'' (Some ''init'')) (\<lambda>ini.
        bindE (nameField s ''update_export'' (Some ''update'')) (\<lambda>upd.
        bindE (nameField s ''subscriptions_export'' (Some ''subscriptions'')) (\<lambda>subs.
        bindE (guardE (model = msg) (squote ''sidecar.msg'' @ '' must differ from '' @ squote ''sidecar.model'' @ '' ('' @ squote model @ '')'')) (\<lambda>_.
        Inr (Some \<lparr>lsPath = path, wireVersion = wire, abiVersion = abi, snapshotFormat = snapshot, buildIdSymbol = bid, abiVersionSymbol = abiSym,
          lsModel = model, lsMsg = msg, initExport = ini, updateExport = upd, subscriptionsExport = subs,
          subscriptionsExportDeclared = (fld s ''subscriptions_export'' \<noteq> JUndef), sourceHash = ''module-graph'', integerSlots = slots\<rparr>)))))))))))))))))"

section \<open>Distinct names\<close>

definition claim :: "(string, string) jsmap \<Rightarrow> string option \<times> string \<Rightarrow> (string, string) jsmap res" where
  "claim all sp = (case sp of (None, _) \<Rightarrow> Inr all
   | (Some symb, path) \<Rightarrow> (case jm_get all symb of
       Some prev \<Rightarrow> Inl (''symbol '' @ squote symb @ '' is declared twice ('' @ prev @ '' and '' @ path @ ''); symbols must be pairwise distinct'')
     | None \<Rightarrow> Inr (jm_set all symb path)))"

definition exportClaims :: "LibraryExportEntry list \<Rightarrow> (string option \<times> string) list" where
  "exportClaims entries = map (\<lambda>(i, e). (Some (leSymbol e), idxPath ''exports'' i @ ''.symbol'')) (enumerate 0 entries)"

definition sidecarClaims :: "LibrarySidecarConfig option \<Rightarrow> (string option \<times> string) list" where
  "sidecarClaims sc = (case sc of None \<Rightarrow> []
   | Some s \<Rightarrow> [(Some (buildIdSymbol s), ''sidecar.build_id_symbol''), (Some (abiVersionSymbol s), ''sidecar.abi_version_symbol'')])"

definition seeExport :: "string list \<Rightarrow> nat \<times> LibraryExportEntry \<Rightarrow> string list res" where
  "seeExport names ie = (case ie of (i, e) \<Rightarrow>
     bindE (guardE (leExport e \<in> set names) (''export '' @ squote (leExport e) @ '' is mapped twice ('' @ idxPath ''exports'' i @ '')''))
       (\<lambda>_. Inr (setAdd names (leExport e))))"

section \<open>Determinism section\<close>

definition RESERVED_TEXT :: "string \<Rightarrow> bool" where
  "RESERVED_TEXT s = list_ex (\<lambda>c. (of_char c :: nat) < 0x20 \<and> (of_char c :: nat) \<noteq> 0x0A) s"

definition RESERVED_KEY :: "string \<Rightarrow> bool" where
  "RESERVED_KEY s = list_ex (\<lambda>c. (of_char c :: nat) < 0x20) s"

text \<open>The length of the UTF-8 encoding; a code unit is at most 0xFF here and takes one or two bytes.\<close>

definition utf8Length :: "string \<Rightarrow> nat" where
  "utf8Length s = sum_list (map (\<lambda>c. if (of_char c :: nat) < 0x80 then 1 else 2) s)"

definition checkRiderText :: "string \<Rightarrow> string \<Rightarrow> unit res" where
  "checkRiderText v path =
     bindE (guardE (RESERVED_TEXT v) (squote path @ '' contains a reserved byte - control bytes below 0x20 are refused (0x01 and 0x1F are the structured trap encoding'' @
       [CHR 0x27] @ ''s marker and separator); teaching and remediation text must be plain UTF-8, newlines only'')) (\<lambda>_.
     guardE (512 < utf8Length v) (squote path @ '' is '' @ intDigits (int (utf8Length v)) @ '' bytes - teaching and remediation strings cap at 512 bytes''))"

text \<open>Assigning a string to the property \<^verbatim>\<open>__proto__\<close> of an object literal has no effect.\<close>

definition assignKey :: "(string, string) jsmap \<Rightarrow> string \<Rightarrow> string \<Rightarrow> (string, string) jsmap" where
  "assignKey into k v = (if k = ''__proto__'' then into else jm_set into k v)"

definition riderEntry :: "string \<Rightarrow> (string, string) jsmap \<Rightarrow> string \<times> json \<Rightarrow> (string, string) jsmap res" where
  "riderEntry rider into kv = (case kv of
     (k, JStr v) \<Rightarrow>
       bindE (guardE (RESERVED_KEY k) (squote (''determinism.'' @ rider) @ '' key '' @ quoteJson k @
         '' contains a reserved byte - 0x01 and 0x1F are the structured trap encoding'' @ [CHR 0x27] @ ''s marker and separator; a code must be a plain token'')) (\<lambda>_.
       bindE (checkRiderText v (''determinism.'' @ rider @ ''.'' @ k)) (\<lambda>_. Inr (assignKey into k v)))
   | _ \<Rightarrow> Inr into)"

definition readRider :: "json \<Rightarrow> string \<Rightarrow> (string, string) jsmap res" where
  "readRider det rider = (if isDict (fld det rider) then foldE (riderEntry rider) [] (objEntries (fld det rider)) else Inr [])"

definition riderText :: "json \<Rightarrow> string \<Rightarrow> string option res" where
  "riderText v path = (if v = JUndef then Inr None
     else bindE (reqString v path) (\<lambda>t. bindE (checkRiderText t path) (\<lambda>_. Inr (Some t))))"

definition selector :: "json \<Rightarrow> string \<Rightarrow> (string option \<times> string) res" where
  "selector f path =
     (if fld f ''id'' \<noteq> JUndef
      then bindE (reqString (fld f ''id'') (path @ ''.id'')) (\<lambda>i.
           bindE (nonEmpty i (squote (path @ ''.id'') @ '' must be a non-empty manifest entry id'')) (\<lambda>i. Inr (Some i, [])))
      else bindE (reqString (fld f ''prefix'') (path @ ''.prefix'')) (\<lambda>p.
           bindE (nonEmpty p (squote (path @ ''.prefix'') @ '' must be a non-empty manifest id prefix'')) (\<lambda>p. Inr (None, p))))"

definition loadFence :: "nat \<Rightarrow> json \<Rightarrow> LibraryFenceDecl res" where
  "loadFence i f =
     (let path = idxPath ''determinism.fences'' i in
      bindE (objectAt f path [''id'', ''prefix'', ''teaching'', ''remediation'']) (\<lambda>_.
      bindE (guardE ((fld f ''id'' = JUndef) = (fld f ''prefix'' = JUndef))
        (squote path @ '' must carry exactly one of '' @ squote ''id'' @ '' or '' @ squote ''prefix'')) (\<lambda>_.
      bindE (selector f path) (\<lambda>(i, p).
      bindE (riderText (fld f ''teaching'') (path @ ''.teaching'')) (\<lambda>t.
      bindE (riderText (fld f ''remediation'') (path @ ''.remediation'')) (\<lambda>r.
      Inr \<lparr>fdPath = path, fdId = i, fdPrefix = p, fdTeaching = t, fdRemediation = r\<rparr>))))))"

definition loadFences :: "SurfaceTables \<Rightarrow> json \<Rightarrow> ResolvedLibraryFence list res" where
  "loadFences T v =
     (if isNullish v then Inr []
      else bindE (arrayField v ''determinism.fences'') (\<lambda>xs. bindE (mapIdxE loadFence 0 xs) (\<lambda>decls. resolveLibraryFences T decls)))"

definition loadDeterminism :: "SurfaceTables \<Rightarrow> json \<Rightarrow>
    ((string, string) jsmap \<times> (string, string) jsmap \<times> ResolvedLibraryFence list) res" where
  "loadDeterminism T det =
     (if \<not> isDict det then Inr ([], [], [])
      else bindE (readRider det ''teachings'') (\<lambda>teachings.
           bindE (readRider det ''remediations'') (\<lambda>remediations.
           bindE (loadFences T (fld det ''fences'')) (\<lambda>fences. Inr (teachings, remediations, fences)))))"

section \<open>The loader\<close>

definition ABI_KEYS :: "string list" where
  "ABI_KEYS = [''prefix'', ''init_symbol'', ''sink_register_symbol'', ''collect_symbol'', ''result_reset_symbol'', ''localize_runtime'', ''instance_per_thread'', ''callback_register_symbol'']"

record LibraryAbi =
  abPrefix :: string
  abInit :: string
  abSink :: string
  abCollect :: "string option"
  abReset :: "string option"
  abLocalize :: bool
  abPerThread :: bool
  abRegister :: "string option"

definition flagField :: "json \<Rightarrow> string \<Rightarrow> bool res" where
  "flagField v path = (if v = JUndef then Inr False else reqBoolean v path)"

definition loadAbi :: "json \<Rightarrow> LibraryAbi res" where
  "loadAbi a =
     bindE (objectAt a ''abi'' ABI_KEYS) (\<lambda>_.
     bindE (reqString (fld a ''prefix'') ''abi.prefix'') (\<lambda>pre.
     bindE (guardE (\<not> C_IDENT pre) (squote ''abi.prefix'' @ '' is not a valid C identifier fragment: '' @ squote pre)) (\<lambda>_.
     bindE (symbolField (fld a ''init_symbol'') ''abi.init_symbol'' pre) (\<lambda>ini.
     bindE (symbolField (fld a ''sink_register_symbol'') ''abi.sink_register_symbol'' pre) (\<lambda>sink.
     bindE (symbolFieldOpt (fld a ''collect_symbol'') ''abi.collect_symbol'' pre) (\<lambda>collect.
     bindE (symbolFieldOpt (fld a ''result_reset_symbol'') ''abi.result_reset_symbol'' pre) (\<lambda>reset.
     bindE (flagField (fld a ''localize_runtime'') ''abi.localize_runtime'') (\<lambda>localize.
     bindE (flagField (fld a ''instance_per_thread'') ''abi.instance_per_thread'') (\<lambda>perThread.
     bindE (symbolFieldOpt (fld a ''callback_register_symbol'') ''abi.callback_register_symbol'' pre) (\<lambda>register.
     Inr \<lparr>abPrefix = pre, abInit = ini, abSink = sink, abCollect = collect, abReset = reset, abLocalize = localize,
          abPerThread = perThread, abRegister = register\<rparr>))))))))))"

definition abiClaims :: "LibraryAbi \<Rightarrow> (string option \<times> string) list" where
  "abiClaims a = [(Some (abInit a), ''abi.init_symbol''), (Some (abSink a), ''abi.sink_register_symbol''), (abCollect a, ''abi.collect_symbol''),
     (abReset a, ''abi.result_reset_symbol''), (abRegister a, ''abi.callback_register_symbol'')]"

definition checkFormat :: "json \<Rightarrow> unit res" where
  "checkFormat p = bindE (reqNumber (fld p ''profile_format'') ''profile_format'') (\<lambda>format.
     guardE (format \<noteq> Fin 1) (''unsupported profile_format '' @ numToString format @ '' (this scriptc reads format 1)''))"

definition validateProfile :: "SurfaceTables \<Rightarrow> (string \<Rightarrow> bool) \<Rightarrow> (string \<Rightarrow> string \<Rightarrow> string) \<Rightarrow> string \<Rightarrow> 'b \<Rightarrow> json \<Rightarrow> 'b LibraryProfile res" where
  "validateProfile T isAbsolute resolveFrom ppath bytes p =
     bindE (guardE (\<not> isDict p) ''profile must be a JSON object'') (\<lambda>_.
     bindE (checkFormat p) (\<lambda>_.
     bindE (forE checkRootKey (jm_keys (objEntries p))) (\<lambda>_.
     bindE (reqString (fld p ''name'') ''name'') (\<lambda>name.
     bindE (guardE (name = []) (squote ''name'' @ '' must be a non-empty identity string'')) (\<lambda>_.
     bindE (reqString (fld p ''entry'') ''entry'') (\<lambda>entryRel.
     bindE (guardE (entryRel = []) (squote ''entry'' @ '' must name the profile'' @ [CHR 0x27] @ ''s one entry module'')) (\<lambda>_.
     bindE (readEmission p) (\<lambda>em.
     bindE (readOptimization p) (\<lambda>opt.
     bindE (loadAbi (fld p ''abi'')) (\<lambda>a.
     bindE (arrayField (fld p ''exports'') ''exports'') (\<lambda>exportsRaw.
     bindE (mapIdxE (loadExport (abPrefix a)) 0 exportsRaw) (\<lambda>entries.
     bindE (loadCallbacks (fld p ''callbacks'')) (\<lambda>callbacks.
     bindE (checkPairing callbacks (abRegister a)) (\<lambda>_.
     bindE (checkChannelNames callbacks entries) (\<lambda>_.
     bindE (loadSidecar isAbsolute (abPrefix a) (fld p ''sidecar'')) (\<lambda>sidecar.
     bindE (foldE claim [] (abiClaims a @ sidecarClaims sidecar @ exportClaims entries)) (\<lambda>_.
     bindE (foldE seeExport [] (enumerate 0 entries)) (\<lambda>_.
     bindE (loadDeterminism T (fld p ''determinism'')) (\<lambda>(teachings, remediations, fences).
     Inr \<lparr>lpName = name, profilePath = ppath, lpEntry = (if isAbsolute entryRel then entryRel else resolveFrom ppath entryRel),
       emission = em, optimization = opt, lpPrefix = abPrefix a, initSymbol = abInit a, sinkRegisterSymbol = abSink a,
       collectSymbol = abCollect a, resultResetSymbol = abReset a, localizeRuntime = abLocalize a, instancePerThread = abPerThread a,
       callbackRegisterSymbol = abRegister a, lpCallbacks = callbacks, lpExports = entries, lpSidecar = sidecar, profileBytes = bytes,
       lpTeachings = teachings, lpRemediations = remediations, lpFences = fences\<rparr>)))))))))))))))))))"

definition libProfileDiag :: "string \<Rightarrow> string \<Rightarrow> ScrDiagnostic" where
  "libProfileDiag detail ppath = \<lparr>dgCode = ''SC4001'', dgMessage = ''library profile invalid: '' @ detail,
     dgLoc = JObj [(''file'', JStr ppath), (''start'', JNum (Fin 0)), (''end'', JNum (Fin 0))], dgMilestone = None, dgHint = None, dgNote = None\<rparr>"

definition loadLibraryProfile :: "SurfaceTables \<Rightarrow> (string \<Rightarrow> 'b res) \<Rightarrow> ('b \<Rightarrow> json res) \<Rightarrow> (string \<Rightarrow> bool) \<Rightarrow> (string \<Rightarrow> string \<Rightarrow> string) \<Rightarrow> string \<Rightarrow>
    ScrDiagnostic list + 'b LibraryProfile" where
  "loadLibraryProfile T readFile parseJson isAbsolute resolveFrom ppath =
     (let fail = (\<lambda>detail. Inl [libProfileDiag detail ppath]) in
      case readFile ppath of
        Inl err \<Rightarrow> fail (''cannot read profile: '' @ err)
      | Inr bytes \<Rightarrow> (case parseJson bytes of
          Inl err \<Rightarrow> fail (''profile is not valid JSON ('' @ err @ '')'')
        | Inr raw \<Rightarrow> (case validateProfile T isAbsolute resolveFrom ppath bytes raw of Inl detail \<Rightarrow> fail detail | Inr p \<Rightarrow> Inr p)))"

section \<open>Teaching and remediation lookups\<close>

definition profileTeaching :: "'b LibraryProfile \<Rightarrow> string \<Rightarrow> string option" where
  "profileTeaching p code = orElse (jm_get (lpTeachings p) code)
     (if code = ''SC4004'' \<or> code = ''SC4005'' then jm_get (lpTeachings p) ''async'' else None)"

definition fenceRemediation :: "string \<Rightarrow> ResolvedLibraryFence \<Rightarrow> string option" where
  "fenceRemediation code f = (case rfRemediation f of None \<Rightarrow> None
   | Some r \<Rightarrow> if list_ex (\<lambda>s. fsCode s = Some code) (rfSurfaces f) then Some r else None)"

definition profileRemediation :: "'b LibraryProfile \<Rightarrow> string \<Rightarrow> string option" where
  "profileRemediation p code = orElse (jm_get (lpRemediations p) code) (firstSome (fenceRemediation code) (lpFences p))"

end
