(* ===== verification/TrapTeaching.thy ===== *)
theory TrapTeaching
  imports Json ErrorMonad
begin

text \<open>
  \<^verbatim>\<open>library/trap-teaching.ts\<close>: the structured message a library artifact passes to the host's
  panic sink. A marker byte, then the fields text, code, symbol and optionally remediation,
  separated by the unit separator. \<open>parseTrapTeaching\<close> is the reader that the file's comment
  prescribes for a host; \<open>assemble_parse\<close> shows that it recovers every field.
\<close>

definition TRAP_TEACHING_MARKER :: string where
  "TRAP_TEACHING_MARKER = [CHR 0x01]"

definition TRAP_TEACHING_SEP :: string where
  "TRAP_TEACHING_SEP = [CHR 0x1F]"

definition checkField :: "string \<times> string \<Rightarrow> unit res" where
  "checkField field = (case field of (name, v) \<Rightarrow>
     guardE (str_includes v TRAP_TEACHING_MARKER \<or> str_includes v TRAP_TEACHING_SEP)
       (''trap-teaching assembler: '' @ name @ '' contains a reserved byte (0x01/0x1F)''))"

definition assembleTrapTeaching :: "string \<Rightarrow> string \<Rightarrow> string \<Rightarrow> string option \<Rightarrow> string res" where
  "assembleTrapTeaching txt code symbol remediation =
     (let fields = [(''text'', txt), (''code'', code), (''symbol'', symbol)];
          fields1 = (case remediation of Some r \<Rightarrow> fields @ [(''remediation'', r)] | None \<Rightarrow> fields)
      in bindE (forE checkField fields1) (\<lambda>_.
           Inr (TRAP_TEACHING_MARKER @ txt @ TRAP_TEACHING_SEP @ code @ TRAP_TEACHING_SEP @ symbol @
                (case remediation of Some r \<Rightarrow> TRAP_TEACHING_SEP @ r | None \<Rightarrow> []))))"

section \<open>Reading the message back\<close>

record TrapTeaching =
  ttText :: string
  ttCode :: string
  ttSymbol :: string
  ttRemediation :: "string option"

text \<open>A message whose first byte is not the marker is plain text; fields past the fourth are ignored.\<close>

definition parseTrapTeaching :: "string \<Rightarrow> TrapTeaching option" where
  "parseTrapTeaching msg = (case msg of
     [] \<Rightarrow> None
   | c # body \<Rightarrow> if [c] \<noteq> TRAP_TEACHING_MARKER then None
       else (case splitOn (CHR 0x1F) body of
           [t, c, s] \<Rightarrow> Some \<lparr>ttText = t, ttCode = c, ttSymbol = s, ttRemediation = None\<rparr>
         | t # c # s # r # _ \<Rightarrow> Some \<lparr>ttText = t, ttCode = c, ttSymbol = s, ttRemediation = Some r\<rparr>
         | _ \<Rightarrow> None))"

definition reservedFree :: "string \<Rightarrow> bool" where
  "reservedFree s = (CHR 0x01 \<notin> set s \<and> CHR 0x1F \<notin> set s)"

lemma str_includes_char: "str_includes s [c] \<longleftrightarrow> c \<in> set s"
  by (auto simp: str_includes_def sublist_def in_set_conv_decomp)

lemma checkField_ok: "checkField (n, v) = Inr u \<longleftrightarrow> reservedFree v"
  by (auto simp: checkField_def errE str_includes_char TRAP_TEACHING_MARKER_def TRAP_TEACHING_SEP_def reservedFree_def)

definition trapBytes :: "string list \<Rightarrow> string" where
  "trapBytes fs = CHR 0x01 # joinWith [CHR 0x1F] fs"

lemma assemble_ok:
  "assembleTrapTeaching t c s r = Inr msg \<longleftrightarrow>
   list_all reservedFree ([t, c, s] @ (case r of Some x \<Rightarrow> [x] | None \<Rightarrow> [])) \<and>
   msg = trapBytes ([t, c, s] @ (case r of Some x \<Rightarrow> [x] | None \<Rightarrow> []))"
  by (cases r) (auto simp: assembleTrapTeaching_def errE checkField_ok trapBytes_def TRAP_TEACHING_MARKER_def TRAP_TEACHING_SEP_def)

lemma assemble_parse:
  assumes "assembleTrapTeaching t c s r = Inr msg"
  shows "parseTrapTeaching msg = Some \<lparr>ttText = t, ttCode = c, ttSymbol = s, ttRemediation = r\<rparr>"
proof -
  let ?fs = "[t, c, s] @ (case r of Some x \<Rightarrow> [x] | None \<Rightarrow> [])"
  have "splitOn (CHR 0x1F) (joinWith [CHR 0x1F] ?fs) = ?fs"
    using assms by (intro splitOn_joinWith) (auto simp: assemble_ok reservedFree_def list_all_iff)
  then show ?thesis using assms by (cases r) (simp_all add: assemble_ok trapBytes_def parseTrapTeaching_def TRAP_TEACHING_MARKER_def)
qed

end
