(* ===== verification/SectionResolve.thy ===== *)
theory SectionResolve
  imports LibProfile TrapTeaching IntEnv
begin

text \<open>
  \<^verbatim>\<open>library/section-resolution.ts\<close>: the profile's export map against the entry module's functions and
  the lowered IR, the integer slots it declares, the structural match of a sidecar record against
  the IR's interned shapes, and the merge of the sidecar's integer slots into the configuration of
  the inference. The IR module is a tree; facts about the entry's declarations and the sidecar's
  slots are records, as the front end hands them over. An error that the trap assembler throws is
  a left value.
\<close>

section \<open>Data\<close>

record EntryExportInfo =
  eiLoc :: json
  eiGeneric :: bool
  eiAsync :: bool
  eiGenerator :: bool

record IrLibExport =
  ixSymbol :: string
  ixFnName :: string
  ixParams :: "string list"
  ixReturns :: string
  inboundBytesTrap :: "string option"
  inboundIntTrap :: "string option"

record IrLibTrapOverlay =
  toCode :: string
  toTeaching :: "string option"
  toRemediation :: "string option"

record IrLibCallback =
  icName :: string
  icSlot :: nat
  icParams :: "string list"
  icReturns :: string
  unregisteredTrap :: string

text \<open>The registration symbol and the channels are both present or both absent.\<close>

record IrLibSection =
  ilProfileName :: string
  ilPrefix :: string
  ilInitSymbol :: string
  ilSinkRegisterSymbol :: string
  ilCollectSymbol :: "string option"
  ilResultResetSymbol :: "string option"
  threadInstances :: bool
  ilCallbacks :: "(string option \<times> IrLibCallback list) option"
  ilExports :: "IrLibExport list"
  trapOverlays :: "IrLibTrapOverlay list"

section \<open>The export map\<close>

definition libClassFits :: "string \<Rightarrow> json \<Rightarrow> bool" where
  "libClassFits c t =
     (if c = ''bool'' then kindOf t = ''bool''
      else if c = ''string'' then kindOf t = ''string''
      else if c = ''bytes'' then kindOf t = ''bytes'' \<and> fld t ''elem'' = JStr ''u8''
      else kindOf t = ''f64'')"

definition misfit :: "string \<Rightarrow> string \<Rightarrow> string" where
  "misfit kind c = ''has IR type '' @ squote kind @ '', which does not fit the declared marshalling class '' @ squote c"

definition paramDiag :: "LibraryExportEntry \<Rightarrow> EntryExportInfo \<Rightarrow> nat \<times> string \<times> json \<Rightarrow> ScrDiagnostic list" where
  "paramDiag e info ip = (case ip of (i, c, p) \<Rightarrow>
     if libClassFits c (fld p ''type'') then []
     else [libUnmappableSignatureDiag (leExport e) (''parameter '' @ intDigits (int i + 1) @ '' ('' @ squote (sfld p ''name'') @ '')'')
             (misfit (kindOf (fld p ''type'')) c) (eiLoc info)])"

definition returnDiag :: "LibraryExportEntry \<Rightarrow> EntryExportInfo \<Rightarrow> json \<Rightarrow> ScrDiagnostic list" where
  "returnDiag e info fn =
     (let t = fld fn ''returnType'' in
      if (if leReturns e = ''void'' then kindOf t \<noteq> ''void'' else \<not> libClassFits (leReturns e) t)
      then [libUnmappableSignatureDiag (leExport e) ''the return'' (misfit (kindOf t) (leReturns e)) (eiLoc info)] else [])"

text \<open>The message of an inbound trap: the profile's teaching or the mode's text, the code, the
  export's symbol, the profile's remediation.\<close>

definition inboundTrap :: "'b LibraryProfile \<Rightarrow> LibraryExportEntry \<Rightarrow> string \<Rightarrow> string res" where
  "inboundTrap profile e baseText =
     assembleTrapTeaching (case profileTeaching profile LIB_INBOUND_BYTES_TRAP_CODE of Some t \<Rightarrow> t | None \<Rightarrow> baseText)
       LIB_INBOUND_BYTES_TRAP_CODE (leSymbol e) (profileRemediation profile LIB_INBOUND_BYTES_TRAP_CODE)"

definition BYTES_TRAP :: string where
  "BYTES_TRAP = ''scriptc: library inbound bytes length out of range'' @ [CHR 0x0A]"

definition INT_TRAP :: string where
  "INT_TRAP = ''scriptc: library inbound integer parameter out of range'' @ [CHR 0x0A]"

definition trapIf :: "bool \<Rightarrow> string res \<Rightarrow> string option res" where
  "trapIf b m = (if b then bindE m (\<lambda>x. Inr (Some x)) else Inr None)"

definition resolvedExport :: "'b LibraryProfile \<Rightarrow> LibraryExportEntry \<Rightarrow> IrLibExport res" where
  "resolvedExport profile e =
     bindE (trapIf (''bytes'' \<in> set (leParams e)) (inboundTrap profile e BYTES_TRAP)) (\<lambda>b.
     bindE (trapIf (''i64'' \<in> set (leParams e) \<or> ''u64'' \<in> set (leParams e)) (inboundTrap profile e INT_TRAP)) (\<lambda>i.
     Inr \<lparr>ixSymbol = leSymbol e, ixFnName = leExport e, ixParams = leParams e, ixReturns = leReturns e,
       inboundBytesTrap = b, inboundIntTrap = i\<rparr>))"

text \<open>What is wrong with an export entry; nothing when it resolves.\<close>

definition exportDiags :: "(string, EntryExportInfo) jsmap \<Rightarrow> (string, json) jsmap \<Rightarrow> json \<Rightarrow> LibraryExportEntry \<Rightarrow> ScrDiagnostic list" where
  "exportDiags entryInfo fnByName eloc e = (case jm_get entryInfo (leExport e) of
     None \<Rightarrow> [libExportUnresolvedDiag (leExport e) ''the entry module has no exported function declaration by that name'' eloc]
   | Some info \<Rightarrow>
       if eiGeneric info then [libGenericExportDiag (leExport e) (eiLoc info)]
       else if eiAsync info \<or> eiGenerator info
       then [libAsyncExportDiag (leExport e) (if eiAsync info then ''async'' else ''generator'') (eiLoc info)]
       else case jm_get fnByName (leExport e) of
         None \<Rightarrow> [libExportUnresolvedDiag (leExport e) ''the export did not lower to a compiled function'' (eiLoc info)]
       | Some fn \<Rightarrow>
           let ps = arrOf (fld fn ''params'') in
           if length ps \<noteq> length (leParams e)
           then [libUnmappableSignatureDiag (leExport e) ''signature'' (''has '' @ intDigits (int (length ps)) @
                   '' parameter(s) but the profile declares '' @ intDigits (int (length (leParams e))) @ '' marshalling class(es)'') (eiLoc info)]
           else concat (map (paramDiag e info) (enumerate 0 (zip (leParams e) ps))) @ returnDiag e info fn)"

definition resolveStep :: "'b LibraryProfile \<Rightarrow> (string, EntryExportInfo) jsmap \<Rightarrow> (string, json) jsmap \<Rightarrow> json \<Rightarrow>
    ScrDiagnostic list \<times> IrLibExport list \<Rightarrow> LibraryExportEntry \<Rightarrow> (ScrDiagnostic list \<times> IrLibExport list) res" where
  "resolveStep profile entryInfo fnByName eloc acc e = (case acc of (diagnostics, exports) \<Rightarrow>
     (case exportDiags entryInfo fnByName eloc e of
        [] \<Rightarrow> bindE (resolvedExport profile e) (\<lambda>x. Inr (diagnostics, exports @ [x]))
      | ds \<Rightarrow> Inr (diagnostics @ ds, exports)))"

definition trapOverlay :: "'b LibraryProfile \<Rightarrow> string \<Rightarrow> IrLibTrapOverlay list" where
  "trapOverlay profile code =
     (let teaching = profileTeaching profile code; remediation = profileRemediation profile code in
      if teaching \<noteq> None \<or> remediation \<noteq> None then [\<lparr>toCode = code, toTeaching = teaching, toRemediation = remediation\<rparr>] else [])"

definition libCallback :: "nat \<times> LibraryCallbackEntry \<Rightarrow> IrLibCallback" where
  "libCallback icb = (case icb of (i, cb) \<Rightarrow> \<lparr>icName = lcbName cb, icSlot = i, icParams = lcbParams cb, icReturns = lcbReturns cb,
     unregisteredTrap = ''scriptc: library callback '' @ squote (lcbName cb) @ '' invoked before registration'' @ [CHR 0x0A]\<rparr>)"

definition functionsByName :: "json \<Rightarrow> (string, json) jsmap" where
  "functionsByName md = mapOf (map (\<lambda>f. (sfld f ''name'', f)) (arrOf (fld md ''functions'')))"

definition fileLoc :: "string \<Rightarrow> json" where
  "fileLoc file = JObj [(''file'', JStr file), (''start'', JNum (Fin 0)), (''end'', JNum (Fin 0))]"

definition librarySection :: "'b LibraryProfile \<Rightarrow> IrLibExport list \<Rightarrow> IrLibSection" where
  "librarySection profile exports =
     \<lparr>ilProfileName = lpName profile, ilPrefix = lpPrefix profile, ilInitSymbol = initSymbol profile,
      ilSinkRegisterSymbol = sinkRegisterSymbol profile, ilCollectSymbol = collectSymbol profile,
      ilResultResetSymbol = resultResetSymbol profile, threadInstances = instancePerThread profile,
      ilCallbacks = (if lpCallbacks profile \<noteq> []
        then Some (callbackRegisterSymbol profile, map libCallback (enumerate 0 (lpCallbacks profile))) else None),
      ilExports = exports, trapOverlays = concat (map (trapOverlay profile) LIB_RUNTIME_TRAP_CODES)\<rparr>"

definition resolveLibrarySection :: "'b LibraryProfile \<Rightarrow> (string, EntryExportInfo) jsmap \<Rightarrow> json \<Rightarrow> string \<Rightarrow> (ScrDiagnostic list + IrLibSection) res" where
  "resolveLibrarySection profile entryInfo md entryPath =
     bindE (foldE (resolveStep profile entryInfo (functionsByName md) (fileLoc entryPath)) ([], []) (lpExports profile)) (\<lambda>(diagnostics, exports).
     Inr (if diagnostics \<noteq> [] then Inl diagnostics else Inr (librarySection profile exports)))"

section \<open>Declared integer slots\<close>

definition intClassOf :: "string \<Rightarrow> IntClass option" where
  "intClassOf c = (if c = ''i64'' then Some I64 else if c = ''u64'' then Some U64 else None)"

definition exportSlots :: "LibraryExportEntry \<Rightarrow> FnIntSlots" where
  "exportSlots e = \<lparr>fnName = leExport e, params = map intClassOf (leParams e),
     paramPaths = map (\<lambda>(i, c). if c = ''i64'' \<or> c = ''u64'' then Some (''exports.'' @ leExport e @ ''.params['' @ intDigits (int i) @ '']'') else None)
       (enumerate 0 (leParams e)),
     ret = intClassOf (leReturns e), retPath = (if intClassOf (leReturns e) \<noteq> None then Some (''exports.'' @ leExport e @ ''.return'') else None),
     paramSeeds = map (\<lambda>c. if c = ''u8'' \<or> c = ''u32'' \<or> c = ''i32'' then Some (classSeed c) else None) (leParams e)\<rparr>"

definition configStep :: "IntSlotConfig \<Rightarrow> LibraryExportEntry \<Rightarrow> IntSlotConfig" where
  "configStep cfg e =
     (let s = exportSlots e in
      if list_all (\<lambda>x. x = None) (params s) \<and> ret s = None \<and> list_all (\<lambda>x. x = None) (paramSeeds s) then cfg
      else cfg\<lparr>fns := jm_set (fns cfg) (leExport e) s\<rparr>)"

definition libraryIntSlotConfig :: "'b LibraryProfile \<Rightarrow> IntSlotConfig" where
  "libraryIntSlotConfig profile = foldl configStep \<lparr>fns = [], records = []\<rparr> (lpExports profile)"

section \<open>Matching sidecar records with IR shapes\<close>

datatype SidecarIrTypePattern =
    PScalar string
  | PBytes string
  | PArray SidecarIrTypePattern
  | PRecord "(string \<times> SidecarIrTypePattern) list" bool
  | PUnion "SidecarIrTypePattern list"

text \<open>The backtracking search: the remaining patterns, as tests, and the indices taken.\<close>

fun visitArms :: "(json \<Rightarrow> bool) list \<Rightarrow> json list \<Rightarrow> nat list \<Rightarrow> bool" where
  "visitArms [] actual used = True"
| "visitArms (m # ms) actual used =
     list_ex (\<lambda>i. i \<notin> set used \<and> m (actual ! i) \<and> visitArms ms actual (i # used)) [0..<length actual]"

definition unionMatches :: "(json \<Rightarrow> bool) list \<Rightarrow> json list \<Rightarrow> bool" where
  "unionMatches ms actual = (length ms = length actual \<and> visitArms ms actual [])"

definition fieldNamed :: "json \<Rightarrow> string \<Rightarrow> json option" where
  "fieldNamed shape name = find (\<lambda>f. fld f ''name'' = JStr name) (arrOf (fld shape ''fields''))"

definition variantMatches :: "(string \<times> (json \<Rightarrow> bool)) list \<Rightarrow> json \<Rightarrow> bool" where
  "variantMatches fs shape =
     (length fs = length (arrOf (fld shape ''fields'')) \<and>
      list_all (\<lambda>f. case fieldNamed shape (fst f) of Some actual \<Rightarrow> snd f (fld actual ''type'') | None \<Rightarrow> False) fs)"

definition recordMatches :: "(string \<times> (json \<Rightarrow> bool)) list \<Rightarrow> bool \<Rightarrow> json \<Rightarrow> bool" where
  "recordMatches fs kindMayBeOmitted shape =
     (\<not> (fld shape ''tuple'' = JBool True \<or> fld shape ''indexValue'' \<noteq> JUndef) \<and>
      (variantMatches fs shape \<or> kindMayBeOmitted \<and> variantMatches (filter (\<lambda>f. fst f \<noteq> ''kind'') fs) shape))"

definition idMap :: "json list \<Rightarrow> (json, json) jsmap" where
  "idMap xs = mapOf (map (\<lambda>x. (fld x ''id'', x)) xs)"

fun typeMatches :: "json \<Rightarrow> SidecarIrTypePattern \<Rightarrow> json \<Rightarrow> bool" where
  "typeMatches md (PScalar k) actual = (kindOf actual = k)"
| "typeMatches md (PBytes e) actual = (kindOf actual = ''bytes'' \<and> fld actual ''elem'' = JStr e)"
| "typeMatches md (PArray p) actual = (kindOf actual = ''array'' \<and> typeMatches md p (fld actual ''elem''))"
| "typeMatches md (PRecord fs omit) actual = (kindOf actual = ''record'' \<and>
     (case jm_get (idMap (arrOf (fld md ''records''))) (fld actual ''shapeId'') of
        Some shape \<Rightarrow> recordMatches (map (\<lambda>f. (fst f, typeMatches md (snd f))) fs) omit shape
      | None \<Rightarrow> False))"
| "typeMatches md (PUnion ps) actual = (kindOf actual = ''union'' \<and>
     (case jm_get (idMap (arrOf (fld md ''unions''))) (fld actual ''unionId'') of
        Some u \<Rightarrow> unionMatches (map (\<lambda>p. typeMatches md p) ps) (arrOf (fld u ''arms''))
      | None \<Rightarrow> False))"

definition sidecarRecordMatcher :: "json \<Rightarrow> (string \<times> SidecarIrTypePattern) list \<times> bool \<Rightarrow> json \<Rightarrow> bool" where
  "sidecarRecordMatcher md pat shape = (case pat of (fs, omit) \<Rightarrow>
     recordMatches (map (\<lambda>f. (fst f, typeMatches md (snd f))) fs) omit shape)"

section \<open>Merging the sidecar's slots\<close>

datatype HelperSlot = HelperParam nat | HelperReturn

record HelperFact =
  hfFnName :: string
  hfSlot :: HelperSlot
  hfCls :: IntClass
  hfPath :: string

record RecordFact =
  rdShape :: "(string \<times> SidecarIrTypePattern) list \<times> bool"
  rdTargetField :: string
  rdCls :: IntClass
  rdPath :: string
  rdLoc :: json

record SidecarIntegerSlotFacts =
  helperFacts :: "HelperFact list"
  recordFacts :: "RecordFact list"

text \<open>\<^verbatim>\<open>xs[i] = v\<close>, which extends an array that is too short.\<close>

definition setAt :: "'a option list \<Rightarrow> nat \<Rightarrow> 'a \<Rightarrow> 'a option list" where
  "setAt xs i v = (if i < length xs then xs[i := Some v] else xs @ replicate (i - length xs) None @ [Some v])"

definition emptySlots :: "string \<Rightarrow> nat \<Rightarrow> FnIntSlots" where
  "emptySlots f arity = \<lparr>fnName = f, params = replicate arity None, paramPaths = replicate arity None, ret = None, retPath = None,
     paramSeeds = replicate arity None\<rparr>"

definition padSlots :: "nat \<Rightarrow> FnIntSlots \<Rightarrow> FnIntSlots" where
  "padSlots i s = (let n = Suc i - length (params s) in
     s\<lparr>params := params s @ replicate n None, paramPaths := paramPaths s @ replicate n None, paramSeeds := paramSeeds s @ replicate n None\<rparr>)"

definition putSlot :: "HelperFact \<Rightarrow> FnIntSlots \<Rightarrow> FnIntSlots" where
  "putSlot h s = (case hfSlot h of
     HelperParam i \<Rightarrow> (let s1 = padSlots i s in s1\<lparr>params := setAt (params s1) i (hfCls h), paramPaths := setAt (paramPaths s1) i (hfPath h)\<rparr>)
   | HelperReturn \<Rightarrow> s\<lparr>ret := Some (hfCls h), retPath := Some (hfPath h)\<rparr>)"

definition mergeHelper :: "json \<Rightarrow> IntSlotConfig \<Rightarrow> HelperFact \<Rightarrow> IntSlotConfig" where
  "mergeHelper md cfg h =
     (let fn = find (\<lambda>f. fld f ''name'' = JStr (hfFnName h)) (arrOf (fld md ''functions''));
          have = (case fn of Some f \<Rightarrow> length (arrOf (fld f ''params'')) | None \<Rightarrow> 0);
          arity = max have ((case hfSlot h of HelperParam i \<Rightarrow> i | HelperReturn \<Rightarrow> 0) + 1);
          slots = (case jm_get (fns cfg) (hfFnName h) of Some s \<Rightarrow> s | None \<Rightarrow> emptySlots (hfFnName h) arity)
      in cfg\<lparr>fns := jm_set (fns cfg) (hfFnName h) (putSlot h slots)\<rparr>)"

fun clsName :: "IntClass \<Rightarrow> string" where
  "clsName I64 = ''i64''"
| "clsName U64 = ''u64''"

definition collapseDiag :: "RecordIntSlot \<Rightarrow> RecordFact \<Rightarrow> ScrDiagnostic" where
  "collapseDiag existing r = libSidecarDiag
     (''integer slots '' @ joinWith '' and '' (map (\<lambda>p. squote p @ '' ('' @ clsName (slotCls existing) @ '')'') (paths existing) @
        [squote (rdPath r) @ '' ('' @ clsName (rdCls r) @ '')'']) @ '' collapse to the same lowered record field '' @ squote (rdTargetField r) @
      '' - their proof obligations cannot be kept distinct'') (rdLoc r)
     (Some ''kind-tagged union arms and structurally identical records may share one lowered shape - same-class declarations coalesce, but differing classes require distinct structural shapes or at most one classified slot'')"

type_synonym recordSlots = "(string, (string, RecordIntSlot) jsmap) jsmap"

definition bindsShape :: "json \<Rightarrow> RecordFact \<Rightarrow> json \<Rightarrow> bool" where
  "bindsShape md r shape = (sidecarRecordMatcher md (rdShape r) shape \<and>
     (case fieldNamed shape (rdTargetField r) of None \<Rightarrow> False | Some target \<Rightarrow> numberCarrierKind (fld target ''type'') md \<noteq> None))"

definition mergeShape :: "json \<Rightarrow> RecordFact \<Rightarrow> recordSlots \<Rightarrow> json \<Rightarrow> ScrDiagnostic + recordSlots" where
  "mergeShape md r recs shape =
     (if \<not> bindsShape md r shape then Inr recs
      else let m = (case jm_get recs (sfld shape ''id'') of Some m \<Rightarrow> m | None \<Rightarrow> []) in
        case jm_get m (rdTargetField r) of
          Some existing \<Rightarrow>
            if slotCls existing \<noteq> rdCls r then Inl (collapseDiag existing r)
            else Inr (jm_set recs (sfld shape ''id'') (jm_set m (rdTargetField r)
              (existing\<lparr>paths := (if rdPath r \<in> set (paths existing) then paths existing else paths existing @ [rdPath r])\<rparr>)))
        | None \<Rightarrow> Inr (jm_set recs (sfld shape ''id'') (jm_set m (rdTargetField r) \<lparr>slotCls = rdCls r, paths = [rdPath r]\<rparr>)))"

fun foldD :: "('s \<Rightarrow> 'a \<Rightarrow> ScrDiagnostic + 's) \<Rightarrow> 's \<Rightarrow> 'a list \<Rightarrow> ScrDiagnostic + 's" where
  "foldD f s [] = Inr s"
| "foldD f s (x # xs) = (case f s x of Inl d \<Rightarrow> Inl d | Inr s' \<Rightarrow> foldD f s' xs)"

definition mergeRecord :: "json \<Rightarrow> recordSlots \<Rightarrow> RecordFact \<Rightarrow> ScrDiagnostic + recordSlots" where
  "mergeRecord md recs r = foldD (mergeShape md r) recs (arrOf (fld md ''records''))"

definition mergeSidecarIntSlots :: "IntSlotConfig \<Rightarrow> SidecarIntegerSlotFacts \<Rightarrow> json \<Rightarrow> ScrDiagnostic + IntSlotConfig" where
  "mergeSidecarIntSlots cfg facts md =
     (let cfg1 = foldl (mergeHelper md) cfg (helperFacts facts) in
      case foldD (mergeRecord md) (records cfg1) (recordFacts facts) of
        Inl d \<Rightarrow> Inl d
      | Inr recs \<Rightarrow> Inr (cfg1\<lparr>records := recs\<rparr>))"

end
