(* ===== verification/FenceSound.thy ===== *)
theory FenceSound
  imports FenceEval
begin

text \<open>
  Determinism fences: the evaluation refuses a module exactly when it reaches a fenced surface that
  compiles, each refusal points at a node that reaches it, and resolution never accepts a fence
  that denies nothing.
\<close>

section \<open>Facts of a module\<close>

definition libFact :: "json \<Rightarrow> string \<Rightarrow> bool" where
  "libFact n k = (kindOf n = ''libCall'' \<and> fld n ''fn'' = JStr k)"

definition methodFact :: "string \<Rightarrow> json \<Rightarrow> string \<Rightarrow> bool" where
  "methodFact kind n k = (kindOf n = kind \<and> fld n ''method'' = JStr k)"

text \<open>What a detector looks for in one node.\<close>

definition detects :: "SurfaceDetector \<Rightarrow> json \<Rightarrow> bool" where
  "detects det n = ((\<exists>k\<in>set (libFns det). libFact n k) \<or> (\<exists>k\<in>set (strMethods det). methodFact ''strIntrinsic'' n k) \<or>
     (\<exists>k\<in>set (arrMethods det). methodFact ''arrIntrinsic'' n k) \<or> (\<exists>k\<in>set (mapMethods det). methodFact ''mapIntrinsic'' n k) \<or>
     (\<exists>k\<in>set (setMethods det). methodFact ''setIntrinsic'' n k))"

text \<open>The first location of a fact, in document order.\<close>

definition firstLoc :: "(json \<Rightarrow> string \<Rightarrow> bool) \<Rightarrow> string \<Rightarrow> (json \<times> json) list \<Rightarrow> json option" where
  "firstLoc hit k ns = firstSome (\<lambda>nl. if hit (fst nl) k then Some (snd nl) else None) ns"

lemma orElse_None [simp]: "orElse x None = x"
  by (cases x) auto

lemma orElse_assoc: "orElse (orElse x y) z = orElse x (orElse y z)"
  by (cases x) auto

lemma orElse_eq_None: "orElse x y = None \<longleftrightarrow> x = None \<and> y = None"
  by (cases x) auto

lemma firstSome_Some: "firstSome f xs = Some y \<Longrightarrow> \<exists>x\<in>set xs. f x = Some y"
proof (induction xs)
  case (Cons x xs)
  then show ?case by (cases "f x") auto
qed simp

lemma firstSome_None: "firstSome f xs = None \<longleftrightarrow> (\<forall>x\<in>set xs. f x = None)"
  by (induction xs) (auto simp: orElse_eq_None)

lemma visitReached_fold: "visitReached r loc v = foldl noteNode r (lnodes loc v)"
proof (induction v arbitrary: r loc rule: measure_induct_rule [where f = jsz])
  case (less v)
  have kids: "foldl (\<lambda>r x. visitReached r l x) a xs = foldl noteNode a (concat (map (lnodes l) xs))"
    if "set xs \<subseteq> set (objValues v)" for a xs l
    using that less.IH jsz_objValues_member by (intro foldl_concat_map) blast
  show ?case
    by (subst visitReached.simps, cases v) (simp_all add: lnodes_simps kids)
qed

interpretation rw: preorder_scan visitReached noteNode
  by unfold_locales (rule visitReached_fold)

lemma jm_get_noteFact: "jm_get (noteFact m k loc) k' = orElse (jm_get m k') (if k = k' then Some loc else None)"
  by (cases "jm_get m k'") (auto simp: noteFact_def jm_has_def jm_get_set)

lemma hasKind_iff: "hasKind n \<longleftrightarrow> fld n ''kind'' = JStr (kindOf n)"
  by (cases "fld n ''kind''") (auto simp: kindOf_def)

lemma isStr_iff: "isStr j \<longleftrightarrow> j = JStr (strOf j)"
  by (cases j) auto

text \<open>One node contributes its fact to the map of its kind.\<close>

lemma noteNode_get:
  "jm_get (rcLibFns (noteNode r (n, l))) k = orElse (jm_get (rcLibFns r) k) (if libFact n k then Some l else None)"
  "jm_get (rcStrMethods (noteNode r (n, l))) k = orElse (jm_get (rcStrMethods r) k) (if methodFact ''strIntrinsic'' n k then Some l else None)"
  "jm_get (rcArrMethods (noteNode r (n, l))) k = orElse (jm_get (rcArrMethods r) k) (if methodFact ''arrIntrinsic'' n k then Some l else None)"
  "jm_get (rcMapMethods (noteNode r (n, l))) k = orElse (jm_get (rcMapMethods r) k) (if methodFact ''mapIntrinsic'' n k then Some l else None)"
  "jm_get (rcSetMethods (noteNode r (n, l))) k = orElse (jm_get (rcSetMethods r) k) (if methodFact ''setIntrinsic'' n k then Some l else None)"
proof -
  have lib: "libFact n k \<longleftrightarrow> hasKind n \<and> kindOf n = ''libCall'' \<and> isStr (fld n ''fn'') \<and> sfld n ''fn'' = k"
    by (cases "fld n ''fn''") (auto simp: libFact_def sfld_def hasKind_kindOf simp del: hasKind.simps)
  have m: "methodFact kind n k \<longleftrightarrow> hasKind n \<and> kindOf n = kind \<and> isStr (fld n ''method'') \<and> sfld n ''method'' = k" if "kind \<noteq> []" for kind
    using that by (cases "fld n ''method''") (auto simp: methodFact_def sfld_def hasKind_kindOf simp del: hasKind.simps)
  show "jm_get (rcLibFns (noteNode r (n, l))) k = orElse (jm_get (rcLibFns r) k) (if libFact n k then Some l else None)"
    by (simp add: noteNode_def lib jm_get_noteFact Let_def del: hasKind.simps)
  show "jm_get (rcStrMethods (noteNode r (n, l))) k = orElse (jm_get (rcStrMethods r) k) (if methodFact ''strIntrinsic'' n k then Some l else None)"
    by (simp add: noteNode_def m jm_get_noteFact Let_def del: hasKind.simps)
  show "jm_get (rcArrMethods (noteNode r (n, l))) k = orElse (jm_get (rcArrMethods r) k) (if methodFact ''arrIntrinsic'' n k then Some l else None)"
    by (simp add: noteNode_def m jm_get_noteFact Let_def del: hasKind.simps)
  show "jm_get (rcMapMethods (noteNode r (n, l))) k = orElse (jm_get (rcMapMethods r) k) (if methodFact ''mapIntrinsic'' n k then Some l else None)"
    by (simp add: noteNode_def m jm_get_noteFact Let_def del: hasKind.simps)
  show "jm_get (rcSetMethods (noteNode r (n, l))) k = orElse (jm_get (rcSetMethods r) k) (if methodFact ''setIntrinsic'' n k then Some l else None)"
    by (simp add: noteNode_def m jm_get_noteFact Let_def del: hasKind.simps)
qed

lemma foldl_firstLoc:
  assumes "\<And>r n l. jm_get (sel (noteNode r (n, l))) k = orElse (jm_get (sel r) k) (if hit n k then Some l else None)"
  shows "jm_get (sel (foldl noteNode r ns)) k = orElse (jm_get (sel r) k) (firstLoc hit k ns)"
  using assms
proof (induction ns arbitrary: r)
  case (Cons nl ns)
  then show ?case by (cases nl) (simp add: firstLoc_def orElse_assoc)
qed (simp add: firstLoc_def)

lemma collect_get:
  fixes md defines "ns \<equiv> lnodes (entryLoc md) md" and "r \<equiv> collectReachedSurfaces md"
  shows "jm_get (rcLibFns r) k = firstLoc libFact k ns"
    "jm_get (rcStrMethods r) k = firstLoc (methodFact ''strIntrinsic'') k ns"
    "jm_get (rcArrMethods r) k = firstLoc (methodFact ''arrIntrinsic'') k ns"
    "jm_get (rcMapMethods r) k = firstLoc (methodFact ''mapIntrinsic'') k ns"
    "jm_get (rcSetMethods r) k = firstLoc (methodFact ''setIntrinsic'') k ns"
  unfolding r_def ns_def collectReachedSurfaces_def rw.scan_fold
  by (subst foldl_firstLoc; (rule noteNode_get)?; simp add: noneReached_def)+

lemma scanFacts_Some: "scanFacts m ks = Some l \<Longrightarrow> \<exists>k\<in>set ks. jm_get m k = Some l"
  by (induction ks) (auto split: option.splits)

lemma scanFacts_None: "scanFacts m ks = None \<longleftrightarrow> (\<forall>k\<in>set ks. jm_get m k = None)"
  by (induction ks) (auto split: option.splits)

lemma firstLoc_Some: "firstLoc hit k ns = Some l \<Longrightarrow> \<exists>n. (n, l) \<in> set ns \<and> hit n k"
  unfolding firstLoc_def by (drule firstSome_Some) (auto split: if_splits)

lemma firstLoc_None: "firstLoc hit k ns = None \<longleftrightarrow> (\<forall>n\<in>fst ` set ns. \<not> hit n k)"
  by (auto simp: firstLoc_def firstSome_None split: if_splits)

lemma orElse_Some: "orElse x y = Some l \<Longrightarrow> x = Some l \<or> y = Some l"
  by (cases x) auto

lemma detectorHit_Some:
  assumes "detectorHit (collectReachedSurfaces md) det = Some l"
  shows "\<exists>n. (n, l) \<in> set (lnodes (entryLoc md) md) \<and> detects det n"
proof -
  let ?r = "collectReachedSurfaces md"
  have "scanFacts (rcLibFns ?r) (libFns det) = Some l \<or> scanFacts (rcStrMethods ?r) (strMethods det) = Some l \<or>
    scanFacts (rcArrMethods ?r) (arrMethods det) = Some l \<or> scanFacts (rcMapMethods ?r) (mapMethods det) = Some l \<or>
    scanFacts (rcSetMethods ?r) (setMethods det) = Some l"
    using assms unfolding detectorHit_def by (auto dest!: orElse_Some)
  then show ?thesis
  proof (elim disjE)
    assume "scanFacts (rcLibFns ?r) (libFns det) = Some l"
    then show ?thesis unfolding detects_def by (metis scanFacts_Some collect_get(1) firstLoc_Some)
  next
    assume "scanFacts (rcStrMethods ?r) (strMethods det) = Some l"
    then show ?thesis unfolding detects_def by (metis scanFacts_Some collect_get(2) firstLoc_Some)
  next
    assume "scanFacts (rcArrMethods ?r) (arrMethods det) = Some l"
    then show ?thesis unfolding detects_def by (metis scanFacts_Some collect_get(3) firstLoc_Some)
  next
    assume "scanFacts (rcMapMethods ?r) (mapMethods det) = Some l"
    then show ?thesis unfolding detects_def by (metis scanFacts_Some collect_get(4) firstLoc_Some)
  next
    assume "scanFacts (rcSetMethods ?r) (setMethods det) = Some l"
    then show ?thesis unfolding detects_def by (metis scanFacts_Some collect_get(5) firstLoc_Some)
  qed
qed

lemma detectorHit_None:
  "detectorHit (collectReachedSurfaces md) det = None \<longleftrightarrow> (\<forall>n\<in>set (nodes md). \<not> detects det n)"
  unfolding set_nodes [of md "entryLoc md"]
  by (auto simp: detectorHit_def orElse_eq_None scanFacts_None collect_get firstLoc_None detects_def)

section \<open>Evaluation\<close>

definition fencedPairs :: "FenceProfileView \<Rightarrow> (ResolvedLibraryFence \<times> FencedSurface) list" where
  "fencedPairs p = concat (map (\<lambda>f. map (Pair f) (rfSurfaces f)) (pvFences p))"

definition reached :: "json \<Rightarrow> FencedSurface \<Rightarrow> bool" where
  "reached md s = (\<exists>det. fsDetector s = Some det \<and> (\<exists>n\<in>set (nodes md). detects det n))"

definition evalPair :: "json \<Rightarrow> FenceProfileView \<Rightarrow> string list \<times> ScrDiagnostic list \<Rightarrow> ResolvedLibraryFence \<times> FencedSurface \<Rightarrow> string list \<times> ScrDiagnostic list" where
  "evalPair md p acc fs = evalSurface p (collectReachedSurfaces md) (fst fs) acc (snd fs)"

lemma evalFences_pairs: "evalFences p (collectReachedSurfaces md) = foldl (evalPair md p) ([], []) (fencedPairs p)"
proof -
  have "foldl (\<lambda>acc fence. foldl (evalSurface p (collectReachedSurfaces md) fence) acc (rfSurfaces fence)) acc fs =
      foldl (evalPair md p) acc (concat (map (\<lambda>f. map (Pair f) (rfSurfaces f)) fs))" for acc fs
    by (induction fs arbitrary: acc) (simp_all add: foldl_map evalPair_def)
  then show ?thesis by (simp add: evalFences_def fencedPairs_def)
qed

text \<open>A refusal is justified by a fence, a surface of it and a node that reaches it.\<close>

definition justified :: "json \<Rightarrow> FenceProfileView \<Rightarrow> (ResolvedLibraryFence \<times> FencedSurface) set \<Rightarrow> string \<Rightarrow> ScrDiagnostic \<Rightarrow> bool" where
  "justified md p S i d = (\<exists>f s det n loc. (f, s) \<in> S \<and> fsId s = i \<and> fsDetector s = Some det \<and>
     (n, loc) \<in> set (lnodes (entryLoc md) md) \<and> detects det n \<and>
     d = libFenceDiag (pvName p) (fsId s) (fsName s) loc (fsCode s) (rfTeaching f))"

lemma justifiedI: "(f, s) \<in> S \<Longrightarrow> fsDetector s = Some det \<Longrightarrow> (n, loc) \<in> set (lnodes (entryLoc md) md) \<Longrightarrow> detects det n \<Longrightarrow>
    justified md p S (fsId s) (libFenceDiag (pvName p) (fsId s) (fsName s) loc (fsCode s) (rfTeaching f))"
  unfolding justified_def by blast

lemma justified_mono: "justified md p S i d \<Longrightarrow> S \<subseteq> S' \<Longrightarrow> justified md p S' i d"
  unfolding justified_def by blast

definition evalInv :: "json \<Rightarrow> FenceProfileView \<Rightarrow> (ResolvedLibraryFence \<times> FencedSurface) list \<Rightarrow> string list \<times> ScrDiagnostic list \<Rightarrow> bool" where
  "evalInv md p xs acc = (distinct (fst acc) \<and> set (fst acc) = fsId ` {s \<in> snd ` set xs. reached md s} \<and>
     list_all2 (justified md p (set xs)) (fst acc) (snd acc))"

lemma evalInv_step: "evalInv md p xs acc \<Longrightarrow> evalInv md p (xs @ [(f, s)]) (evalPair md p acc (f, s))"
proof -
  assume I: "evalInv md p xs acc"
  obtain seen diags where acc: "acc = (seen, diags)" by (cases acc)
  have mono: "list_all2 (justified md p (set (xs @ [(f, s)]))) seen diags"
    using I unfolding evalInv_def acc fst_conv snd_conv by (elim conjE list.rel_mono_strong) (auto elim: justified_mono)
  show ?thesis
  proof (cases "reached md s \<and> fsId s \<notin> set seen")
    case True
    then obtain det where det: "fsDetector s = Some det" "\<exists>n\<in>set (nodes md). detects det n" by (auto simp: reached_def)
    then obtain loc where hit: "detectorHit (collectReachedSurfaces md) det = Some loc" using detectorHit_None [of md det] by auto
    from detectorHit_Some [OF hit] have "justified md p (set (xs @ [(f, s)])) (fsId s)
        (libFenceDiag (pvName p) (fsId s) (fsName s) loc (fsCode s) (rfTeaching f))"
      using det(1) by (auto intro: justifiedI)
    then show ?thesis using I True mono det hit
      by (auto simp: evalInv_def evalPair_def evalSurface_def acc setAdd_def list_all2_appendI)
  next
    case False
    then have "evalPair md p acc (f, s) = (seen, diags)"
      by (auto simp: evalPair_def evalSurface_def acc reached_def detectorHit_None [symmetric] split: option.splits)
    moreover have "set seen = fsId ` {x \<in> snd ` set (xs @ [(f, s)]). reached md x}"
      using I False by (auto simp: evalInv_def acc)
    ultimately show ?thesis using I mono by (simp add: evalInv_def acc)
  qed
qed

lemma evaluate_spec:
  "\<exists>ids. distinct ids \<and> set ids = fsId ` {s \<in> snd ` set (fencedPairs p). reached md s} \<and>
     list_all2 (justified md p (set (fencedPairs p))) ids (evaluateLibraryFences md p)"
proof (cases "list_ex (\<lambda>f. list_ex (\<lambda>s. fsDetector s \<noteq> None) (rfSurfaces f)) (pvFences p)")
  case True
  have "evalInv md p xs (foldl (evalPair md p) ([], []) xs)" for xs
    by (induction xs rule: rev_induct) (auto simp: evalInv_step, simp add: evalInv_def)
  then have "evalInv md p (fencedPairs p) (evalFences p (collectReachedSurfaces md))" by (simp add: evalFences_pairs)
  then show ?thesis using True by (auto simp: evaluateLibraryFences_def evalInv_def)
next
  case False
  then have "{s \<in> snd ` set (fencedPairs p). reached md s} = {}"
    by (fastforce simp: fencedPairs_def list_ex_iff reached_def)
  then show ?thesis using False by (intro exI [of _ "[]"]) (simp add: evaluateLibraryFences_def)
qed

section \<open>Resolution\<close>

lemma mapOf_get: "jm_get (mapOf kvs) k = Some v \<Longrightarrow> (k, v) \<in> set kvs"
proof -
  have "jm_get (foldl (\<lambda>m kv. jm_set m (fst kv) (snd kv)) m kvs) k = Some v \<Longrightarrow> jm_get m k = Some v \<or> (k, v) \<in> set kvs" for m
    by (induction kvs arbitrary: m) (fastforce simp: jm_get_set split: if_splits)+
  then show "jm_get (mapOf kvs) k = Some v \<Longrightarrow> (k, v) \<in> set kvs" by (fastforce simp: mapOf_def)
qed

lemma mapOf_keys: "k \<in> fst ` set kvs \<Longrightarrow> jm_get (mapOf kvs) k \<noteq> None"
proof -
  have "jm_get (foldl (\<lambda>m kv. jm_set m (fst kv) (snd kv)) m kvs) k \<noteq> None \<longleftrightarrow> jm_get m k \<noteq> None \<or> k \<in> fst ` set kvs" for m
    by (induction kvs arbitrary: m) (auto simp: jm_get_set)
  then show "k \<in> fst ` set kvs \<Longrightarrow> jm_get (mapOf kvs) k \<noteq> None" by (simp add: mapOf_def)
qed

lemma taxonomy_simps: "byId (fenceTaxonomy T) = mapOf (map (\<lambda>e. (seId e, e)) (stEntries T))" "txIds (fenceTaxonomy T) = map seId (stEntries T)"
  "foldedIds (fenceTaxonomy T) = folded T"
  by (simp_all add: fenceTaxonomy_def split: prod.split)

lemma byId_entry: "jm_get (byId (fenceTaxonomy T)) i = Some e \<Longrightarrow> e \<in> set (stEntries T) \<and> seId e = i"
  by (auto simp: taxonomy_simps dest!: mapOf_get)

text \<open>A surface a fence covers: a manifest entry, policed exactly when it compiles.\<close>

definition polices :: "SurfaceTables \<Rightarrow> FencedSurface \<Rightarrow> bool" where
  "polices T s = (\<exists>e\<in>set (stEntries T). fsId s = seId e \<and> fsName s = seName e \<and> fsCode s = seCode e \<and>
     (fsDetector s \<noteq> None \<longleftrightarrow> seStatus e = ''static''))"

lemma classify_Refusal: "classifySurface T e tax = Refusal \<longleftrightarrow> seStatus e \<noteq> ''static''"
proof -
  have "stdlibClass T family member \<noteq> Some Refusal" for family member
    by (auto simp: stdlibClass_def split: option.splits)
  then show ?thesis by (auto simp: classifySurface_def split: option.splits list.splits if_splits)
qed

lemma keep_polices:
  assumes "e \<in> set (stEntries T)" "\<And>why. classifySurface T e tax \<noteq> Unfenceable why"
  shows "polices T (keep e (classifySurface T e tax))"
  using assms classify_Refusal [of T e tax]
  by (cases "classifySurface T e tax") (auto simp: polices_def keep_def intro!: bexI [of _ e])

lemma resolveId_ok:
  assumes "resolveId T (fenceTaxonomy T) d i = Inr ss"
  shows "\<exists>s. ss = [s] \<and> fsId s = i \<and> polices T s"
proof -
  from assms obtain e where e: "jm_get (byId (fenceTaxonomy T)) i = Some e" "\<And>why. classifySurface T e (fenceTaxonomy T) \<noteq> Unfenceable why"
      "ss = [keep e (classifySurface T e (fenceTaxonomy T))]"
    by (auto simp: resolveId_def split: option.splits SurfaceClass.splits)
  then show ?thesis using keep_polices [OF _ e(2)] byId_entry [OF e(1)] by (auto simp: keep_def)
qed

lemma coverEntry_ok:
  assumes "coverEntry T (fenceTaxonomy T) d ss i = Inr ss'"
  shows "ss' = ss \<and> i \<in> set (folded T) \<or> (\<exists>s. ss' = ss @ [s] \<and> fsId s = i \<and> polices T s)"
proof -
  from assms obtain e where e: "jm_get (byId (fenceTaxonomy T)) i = Some e" by (auto simp: coverEntry_def split: option.splits)
  show ?thesis
  proof (cases "\<exists>why. classifySurface T e (fenceTaxonomy T) = Unfenceable why")
    case True
    then show ?thesis using assms e by (auto simp: coverEntry_def taxonomy_simps split: if_splits)
  next
    case False
    then have "ss' = ss @ [keep e (classifySurface T e (fenceTaxonomy T))]"
      using assms e by (auto simp: coverEntry_def split: SurfaceClass.splits)
    then show ?thesis using keep_polices [of e T "fenceTaxonomy T"] byId_entry [OF e] False by (auto simp: keep_def)
  qed
qed

lemma foldE_cover:
  assumes "foldE (coverEntry T (fenceTaxonomy T) d) ss ids = Inr ss'"
  shows "set ss \<subseteq> set ss' \<and> (\<forall>i\<in>set ids. i \<in> set (folded T) \<or> i \<in> fsId ` set ss') \<and>
    (\<forall>s\<in>set ss'. s \<in> set ss \<or> fsId s \<in> set ids \<and> polices T s)"
  using assms
proof (induction ids arbitrary: ss)
  case (Cons i ids)
  from Cons.prems obtain s1 where s1: "coverEntry T (fenceTaxonomy T) d ss i = Inr s1" "foldE (coverEntry T (fenceTaxonomy T) d) s1 ids = Inr ss'"
    by (auto simp: errE)
  show ?case using coverEntry_ok [OF s1(1)] Cons.IH [OF s1(2)] by auto
qed simp

lemma resolvePrefix_ok:
  assumes "resolvePrefix T (fenceTaxonomy T) d = Inr ss"
  shows "ss \<noteq> [] \<and> (\<forall>s\<in>set ss. startsWith (fsId s) (fdPrefix d) \<and> polices T s) \<and>
    (\<forall>e\<in>set (stEntries T). startsWith (seId e) (fdPrefix d) \<longrightarrow> seId e \<in> set (folded T) \<or> seId e \<in> fsId ` set ss)"
proof -
  let ?c = "filter (\<lambda>i. startsWith i (fdPrefix d)) (txIds (fenceTaxonomy T))"
  from assms have f: "foldE (coverEntry T (fenceTaxonomy T) d) [] ?c = Inr ss" and ne: "ss \<noteq> []"
    by (auto simp: resolvePrefix_def Let_def errE split: if_splits)
  show ?thesis using foldE_cover [OF f] ne by (auto simp: taxonomy_simps)
qed

section \<open>Properties\<close>

text \<open>A profile that fences \<^verbatim>\<open>Math.random\<close>, and a module that calls it.\<close>

definition demoTables :: SurfaceTables where
  "demoTables = \<lparr>stEntries = [\<lparr>seId = ''stdlib.math.random'', seKind = ''stdlib'', seName = ''Math.random'', seStatus = ''static'', seCode = None\<rparr>],
     BUILTIN_MODULE_FNS = [], BUILTIN_MODULE_FN_ALIASES = [], BUILTIN_MODULE_CONSTS = [], STATIC_MATH_PROPS = [''PI''],
     STATIC_MATH_FNS = [(''random'', ''math.random'')], STATIC_NUMBER_METHODS = [], STR_METHODS = [], AMBIENT_SURFACE_FNS = []\<rparr>"

definition demoDecl :: LibraryFenceDecl where
  "demoDecl = \<lparr>fdPath = ''determinism.fences[0]'', fdId = None, fdPrefix = ''stdlib.math.'', fdTeaching = None, fdRemediation = None\<rparr>"

definition demoSurface :: FencedSurface where
  "demoSurface = \<lparr>fsId = ''stdlib.math.random'', fsName = ''Math.random'', fsKind = ''stdlib'', fsCode = None,
     fsDetector = Some (noDetector\<lparr>libFns := [''math.random'']\<rparr>)\<rparr>"

definition demoFence :: ResolvedLibraryFence where
  "demoFence = \<lparr>rfDeclared = ''prefix '' @ squote ''stdlib.math.'', rfTeaching = None, rfRemediation = None, rfSurfaces = [demoSurface]\<rparr>"

definition randomCall :: json where
  "randomCall = JObj [(''kind'', JStr ''libCall''), (''fn'', JStr ''math.random'')]"

definition demoProfile :: FenceProfileView where
  "demoProfile = \<lparr>pvName = ''p'', pvTeachings = [], pvFences = [demoFence]\<rparr>"

lemma demo_resolves: "resolveLibraryFences demoTables [demoDecl] = Inr [demoFence]"
  by (simp add: resolveLibraryFences_def resolveFence_def resolvePrefix_def coverEntry_def classifySurface_def stdlibClass_def keep_def
      fenceTaxonomy_def mapOf_def folded_def demoTables_def demoDecl_def demoFence_def demoSurface_def noDetector_def setAdd_def js_eval Let_def)



text \<open>No fence is accepted as inert. Every declaration resolves to a fence with at least one
  surface; each surface is an entry of the manifest that the selector names, with a detector exactly
  when the entry compiles; and a prefix covers every entry it matches except constants folded at
  compile time.\<close>

theorem fences_never_inert:
  assumes "resolveLibraryFences T decls = Inr fences"
  shows "length fences = length decls \<and>
    (\<forall>j < length decls. rfSurfaces (fences ! j) \<noteq> [] \<and>
       (\<forall>s\<in>set (rfSurfaces (fences ! j)). polices T s \<and>
          (case fdId (decls ! j) of Some i \<Rightarrow> fsId s = i | None \<Rightarrow> startsWith (fsId s) (fdPrefix (decls ! j)))) \<and>
       (fdId (decls ! j) = None \<longrightarrow> (\<forall>e\<in>set (stEntries T). startsWith (seId e) (fdPrefix (decls ! j)) \<longrightarrow>
          seId e \<in> set (folded T) \<or> seId e \<in> fsId ` set (rfSurfaces (fences ! j)))))"
proof -
  have len: "length fences = length decls" and each: "\<forall>j < length decls. resolveFence T (fenceTaxonomy T) (decls ! j) = Inr (fences ! j)"
    using assms by (auto simp: resolveLibraryFences_def mapIdxE_Inr)
  have "rfSurfaces f \<noteq> [] \<and> (\<forall>s\<in>set (rfSurfaces f). polices T s \<and> (case fdId d of Some i \<Rightarrow> fsId s = i | None \<Rightarrow> startsWith (fsId s) (fdPrefix d))) \<and>
      (fdId d = None \<longrightarrow> (\<forall>e\<in>set (stEntries T). startsWith (seId e) (fdPrefix d) \<longrightarrow> seId e \<in> set (folded T) \<or> seId e \<in> fsId ` set (rfSurfaces f)))"
    if f: "resolveFence T (fenceTaxonomy T) d = Inr f" for d f
  proof (cases "fdId d")
    case (Some i)
    then show ?thesis using f resolveId_ok [of T d i] by (auto simp: resolveFence_def errE)
  next
    case None
    then obtain ss where "resolvePrefix T (fenceTaxonomy T) d = Inr ss" "rfSurfaces f = ss" using f by (auto simp: resolveFence_def errE)
    then show ?thesis using resolvePrefix_ok [of T d ss] None by simp
  qed
  then show ?thesis using len each by blast
qed

theorem fences_never_inert_witness:
  "resolveLibraryFences demoTables [demoDecl] = Inr [demoFence] \<and> polices demoTables demoSurface"
proof -
  have "rfSurfaces demoFence = [demoSurface]" by (simp add: demoFence_def)
  then show ?thesis using fences_never_inert [OF demo_resolves] demo_resolves by simp
qed

end
