(* ===== verification/LibProfileSound.thy ===== *)
theory LibProfileSound
  imports LibProfile FenceSound TrapTeaching
begin

text \<open>
  What the loader of library profiles guarantees: every declared symbol is a C identifier behind the
  profile's prefix and no two are equal, classes are legal in their position, channels fit the
  runtime's slots and are paired with the registration symbol, and the profile's prose can be
  carried by the structured trap message.
\<close>

section \<open>The contract\<close>

definition symbolOk :: "string \<Rightarrow> string \<Rightarrow> bool" where
  "symbolOk pre s = (C_IDENT s \<and> startsWith s pre)"

definition optList :: "'a option \<Rightarrow> 'a list" where
  "optList x = (case x of Some y \<Rightarrow> [y] | None \<Rightarrow> [])"

lemma optList_simps [simp]: "optList None = []" "optList (Some x) = [x]"
  by (simp_all add: optList_def)

definition declaredSymbols :: "'b LibraryProfile \<Rightarrow> string list" where
  "declaredSymbols p = [initSymbol p, sinkRegisterSymbol p] @ optList (collectSymbol p) @ optList (resultResetSymbol p) @
     optList (callbackRegisterSymbol p) @ (case lpSidecar p of Some s \<Rightarrow> [buildIdSymbol s, abiVersionSymbol s] | None \<Rightarrow> []) @
     map leSymbol (lpExports p)"

definition exportOk :: "LibraryExportEntry \<Rightarrow> bool" where
  "exportOk e = (leExport e \<noteq> [] \<and> set (leParams e) \<subseteq> set LIB_PARAM_CLASSES \<and> leReturns e \<in> set LIB_RETURN_CLASSES)"

definition channelOk :: "LibraryCallbackEntry \<Rightarrow> bool" where
  "channelOk c = (C_IDENT (lcbName c) \<and> set (lcbParams c) \<subseteq> set LIB_CALLBACK_PARAM_CLASSES \<and> lcbReturns c \<in> set LIB_CALLBACK_RETURN_CLASSES)"

definition versionOk :: "f64 \<Rightarrow> bool" where
  "versionOk v = (isInteger v \<and> \<not> js_lt v (Fin 0))"

definition sidecarOk :: "(string \<Rightarrow> bool) \<Rightarrow> LibrarySidecarConfig \<Rightarrow> bool" where
  "sidecarOk isAbsolute s = (lsModel s \<noteq> [] \<and> lsMsg s \<noteq> [] \<and> lsModel s \<noteq> lsMsg s \<and> initExport s \<noteq> [] \<and> updateExport s \<noteq> [] \<and>
     subscriptionsExport s \<noteq> [] \<and> versionOk (wireVersion s) \<and> versionOk (abiVersion s) \<and> versionOk (snapshotFormat s) \<and>
     list_all (\<lambda>x. x \<noteq> [] \<and> \<not> isAbsolute x) (optList (lsPath s)) \<and>
     distinct (map fst (integerSlots s)) \<and> list_all (\<lambda>x. fst x \<noteq> [] \<and> snd x \<in> {''i64'', ''u64''}) (integerSlots s))"

definition textOk :: "string \<Rightarrow> bool" where
  "textOk s = (\<not> RESERVED_TEXT s \<and> utf8Length s \<le> 512)"

definition fenceTextOk :: "ResolvedLibraryFence \<Rightarrow> bool" where
  "fenceTextOk f = list_all textOk (optList (rfTeaching f) @ optList (rfRemediation f))"

definition profileOk :: "(string \<Rightarrow> bool) \<Rightarrow> 'b LibraryProfile \<Rightarrow> bool" where
  "profileOk isAbsolute p =
     (lpName p \<noteq> [] \<and> emission p \<in> {''llvm'', ''c'', ''rust''} \<and> optimization p \<in> {''release'', ''dev''} \<and> C_IDENT (lpPrefix p) \<and>
      distinct (declaredSymbols p) \<and> list_all (symbolOk (lpPrefix p)) (declaredSymbols p) \<and>
      list_all exportOk (lpExports p) \<and> distinct (map leExport (lpExports p)) \<and>
      list_all channelOk (lpCallbacks p) \<and> distinct (map lcbName (lpCallbacks p)) \<and> length (lpCallbacks p) \<le> 32 \<and>
      set (map lcbName (lpCallbacks p)) \<inter> set (map leExport (lpExports p)) = {} \<and>
      (lpCallbacks p = [] \<longleftrightarrow> callbackRegisterSymbol p = None) \<and>
      list_all (sidecarOk isAbsolute) (optList (lpSidecar p)) \<and>
      list_all (\<lambda>kv. \<not> RESERVED_KEY (fst kv) \<and> textOk (snd kv)) (lpTeachings p @ lpRemediations p) \<and> list_all fenceTextOk (lpFences p))"

section \<open>Readers\<close>

lemma typeOf_string: "typeOf v = ''string'' \<longleftrightarrow> isStr v"
  by (cases v) auto

lemma reqString_ok [errE]: "reqString v path = Inr s \<longleftrightarrow> v = JStr s"
  by (cases v) (auto simp: reqString_def req_def)

lemma symbolField_ok: "symbolField v path pre = Inr s \<Longrightarrow> symbolOk pre s"
  by (auto simp: symbolField_def errE symbolOk_def)

lemma symbolFieldOpt_ok: "symbolFieldOpt v path pre = Inr s \<Longrightarrow> list_all (symbolOk pre) (optList s)"
  by (auto simp: symbolFieldOpt_def errE optList_def dest: symbolField_ok split: if_splits)

lemma nonEmpty_ok [errE]: "nonEmpty s msg = Inr t \<longleftrightarrow> t = s \<and> s \<noteq> []"
  by (auto simp: nonEmpty_def errE)

lemma mapIdxE_all: "mapIdxE f i xs = Inr ys \<Longrightarrow> (\<And>j x y. f j x = Inr y \<Longrightarrow> P y) \<Longrightarrow> list_all P ys"
  using mapIdxE_mem by (fastforce simp: list_all_iff)

lemma exportParam_ok: "exportParam path j c = Inr s \<Longrightarrow> s \<in> set LIB_PARAM_CLASSES"
  by (auto simp: exportParam_def split: if_splits)

lemma exportParams_ok: "mapIdxE (exportParam path) i cs = Inr ss \<Longrightarrow> set ss \<subseteq> set LIB_PARAM_CLASSES"
  by (auto dest!: mapIdxE_mem exportParam_ok)

lemma exportReturns_ok: "exportReturns path v = Inr s \<Longrightarrow> s \<in> set LIB_RETURN_CLASSES"
  by (auto simp: exportReturns_def errE simp del: insert_iff split: if_splits)

lemma loadExport_ok: "loadExport pre i e = Inr x \<Longrightarrow> exportOk x \<and> symbolOk pre (leSymbol x)"
  by (auto simp: loadExport_def Let_def errE exportOk_def dest!: exportReturns_ok symbolField_ok exportParams_ok)

lemma callbackParamClass_ok: "callbackParamClass path j c = Inr s \<Longrightarrow> s \<in> set LIB_CALLBACK_PARAM_CLASSES"
  by (auto simp: callbackParamClass_def split: if_splits)

lemma callbackParams_ok: "mapIdxE (callbackParamClass path) i cs = Inr ss \<Longrightarrow> set ss \<subseteq> set LIB_CALLBACK_PARAM_CLASSES"
  by (auto dest!: mapIdxE_mem callbackParamClass_ok)

lemma callbackReturns_ok: "callbackReturns path v = Inr s \<Longrightarrow> s \<in> set LIB_CALLBACK_RETURN_CLASSES"
  by (auto simp: callbackReturns_def errE split: if_splits)

lemma loadCallback_ok: "loadCallback i c = Inr x \<Longrightarrow> channelOk x"
  by (auto simp: loadCallback_def Let_def errE channelOk_def dest!: callbackReturns_ok callbackParams_ok)

lemma loadCallbacks_ok: "loadCallbacks v = Inr cs \<Longrightarrow> list_all channelOk cs \<and> length cs \<le> 32"
  by (auto simp: loadCallbacks_def errE LIB_MAX_CALLBACKS_def dest: mapIdxE_all [OF _ loadCallback_ok] split: if_splits)

section \<open>Distinctness\<close>

text \<open>A fold that adds a key to a set and throws when it is there has seen distinct keys.\<close>

lemma foldE_distinct:
  assumes step: "\<And>s x s'. f s x = Inr s' \<Longrightarrow> set (keys x) \<inter> seen s = {} \<and> distinct (keys x) \<and> seen s' = seen s \<union> set (keys x)"
  shows "foldE f s xs = Inr t \<Longrightarrow> distinct (concat (map keys xs)) \<and> set (concat (map keys xs)) \<inter> seen s = {} \<and>
           seen t = seen s \<union> set (concat (map keys xs))"
proof (induction xs arbitrary: s)
  case (Cons x xs)
  then obtain s' where s': "f s x = Inr s'" "foldE f s' xs = Inr t" by (auto simp: errE)
  from Cons.IH [OF s'(2)] step [OF s'(1)] show ?case by auto
qed simp

lemma claim_step: "claim m sp = Inr m' \<Longrightarrow> set ((optList \<circ> fst) sp) \<inter> set (jm_keys m) = {} \<and> distinct ((optList \<circ> fst) sp) \<and>
  set (jm_keys m') = set (jm_keys m) \<union> set ((optList \<circ> fst) sp)"
  by (cases sp) (auto simp: claim_def optList_def jm_get_keys jm_keys_set split: option.splits)

lemma claim_distinct: "foldE claim [] cs = Inr all \<Longrightarrow> distinct (concat (map (optList \<circ> fst) cs))"
  using foldE_distinct [of claim "optList \<circ> fst", OF claim_step] by (rule conjunct1)

lemma seeChannel_distinct: "foldE seeChannel [] cs = Inr seen \<Longrightarrow> distinct (map lcbName cs) \<and> set seen = set (map lcbName cs)"
  using foldE_distinct [of seeChannel "\<lambda>c. [lcbName c]" set "[]" cs seen]
  by (auto simp: seeChannel_def errE concat_map_singleton)

lemma seeExport_distinct: "foldE seeExport [] (enumerate 0 es) = Inr names \<Longrightarrow> distinct (map leExport es)"
proof -
  assume fold: "foldE seeExport [] (enumerate 0 es) = Inr names"
  have step: "set [leExport (snd x)] \<inter> set s = {} \<and> distinct [leExport (snd x)] \<and> set s' = set s \<union> set [leExport (snd x)]"
    if "seeExport s x = Inr s'" for s x s'
    using that by (cases x) (auto simp: seeExport_def errE)
  have "distinct (concat (map (\<lambda>ie. [leExport (snd ie)]) (enumerate 0 es)))"
    using foldE_distinct [where keys = "\<lambda>ie. [leExport (snd ie)]", OF step fold] by (rule conjunct1)
  moreover have "map (\<lambda>ie. leExport (snd ie)) (enumerate 0 es) = map leExport (map snd (enumerate 0 es))" by (simp only: map_map comp_def)
  ultimately show ?thesis by (simp only: concat_map_singleton map_snd_enumerate)
qed

lemma integerSlot_step: "integerSlot slots ie = Inr slots' \<Longrightarrow>
  \<exists>x. slots' = slots @ [x] \<and> fst x \<notin> fst ` set slots \<and> fst x \<noteq> [] \<and> snd x \<in> {''i64'', ''u64''}"
  by (auto simp: integerSlot_def Let_def errE split: prod.splits)

lemma readIntegerSlots_ok: "readIntegerSlots v = Inr slots \<Longrightarrow>
  distinct (map fst slots) \<and> list_all (\<lambda>x. fst x \<noteq> [] \<and> snd x \<in> {''i64'', ''u64''}) slots"
proof -
  let ?I = "\<lambda>slots. distinct (map fst slots) \<and> list_all (\<lambda>x. fst x \<noteq> [] \<and> snd x \<in> {''i64'', ''u64''}) slots"
  have "?I t" if "foldE integerSlot [] xs = Inr t" for xs t
  proof (rule foldE_invariant [where I = ?I, OF that])
    fix s x s' assume I: "?I s" and "integerSlot s x = Inr s'"
    then obtain y where "s' = s @ [y]" "fst y \<notin> fst ` set s" "fst y \<noteq> []" "snd y \<in> {''i64'', ''u64''}"
      using integerSlot_step by blast
    then show "?I s'" using I by simp
  qed simp
  then show "readIntegerSlots v = Inr slots \<Longrightarrow> ?I slots"
    by (auto simp: readIntegerSlots_def errE split: if_splits)
qed

section \<open>Sections\<close>

lemma intField_ok: "intField s key = Inr v \<Longrightarrow> versionOk v"
  by (auto simp: intField_def errE versionOk_def)

lemma nameField_ok: "nameField s key d = Inr n \<Longrightarrow> d \<noteq> Some [] \<Longrightarrow> n \<noteq> []"
  by (auto simp: nameField_def errE split: json.splits option.splits)

lemma sidecarPath_ok: "sidecarPath isAbsolute v = Inr r \<Longrightarrow> list_all (\<lambda>x. x \<noteq> [] \<and> \<not> isAbsolute x) (optList r)"
  by (auto simp: sidecarPath_def errE optList_def split: if_splits)

lemma loadSidecar_ok:
  assumes "loadSidecar isAbsolute pre v = Inr (Some s)"
  shows "sidecarOk isAbsolute s \<and> symbolOk pre (buildIdSymbol s) \<and> symbolOk pre (abiVersionSymbol s)"
  using assms
  by (clarsimp simp: loadSidecar_def errE sidecarOk_def split: if_splits)
    (simp add: intField_ok symbolField_ok sidecarPath_ok readIntegerSlots_ok [simplified] nameField_ok [where d = None] nameField_ok [where d = "Some d" for d])

lemma checkRiderText_ok [errE]: "checkRiderText v path = Inr u \<longleftrightarrow> textOk v"
  by (auto simp: checkRiderText_def errE textOk_def)

lemma set_jm_set: "set (jm_set m k v) \<subseteq> insert (k, v) (set m)"
  by (induction m k v rule: jm_set.induct) auto

lemma riderEntry_ok:
  assumes "riderEntry rider into kv = Inr into'" "\<forall>kv\<in>set into. \<not> RESERVED_KEY (fst kv) \<and> textOk (snd kv)"
  shows "\<forall>kv\<in>set into'. \<not> RESERVED_KEY (fst kv) \<and> textOk (snd kv)"
  using assms set_jm_set by (fastforce simp: riderEntry_def errE assignKey_def split: prod.splits json.splits if_splits)

lemma readRider_ok:
  assumes "readRider det rider = Inr m"
  shows "\<forall>kv\<in>set m. \<not> RESERVED_KEY (fst kv) \<and> textOk (snd kv)"
proof (cases "isDict (fld det rider)")
  case True
  then have fold: "foldE (riderEntry rider) [] (objEntries (fld det rider)) = Inr m" using assms by (simp add: readRider_def)
  show ?thesis
    by (rule foldE_invariant [where I = "\<lambda>m. \<forall>kv\<in>set m. \<not> RESERVED_KEY (fst kv) \<and> textOk (snd kv)", OF fold])
      (simp, rule riderEntry_ok)
qed (use assms in \<open>simp add: readRider_def\<close>)

definition declTextOk :: "LibraryFenceDecl \<Rightarrow> bool" where
  "declTextOk d = list_all textOk (optList (fdTeaching d) @ optList (fdRemediation d))"

lemma riderText_ok: "riderText v path = Inr t \<Longrightarrow> list_all textOk (optList t)"
  by (auto simp: riderText_def errE optList_def split: if_splits)

lemma loadFence_ok: "loadFence i f = Inr d \<Longrightarrow> declTextOk d"
  by (auto simp: loadFence_def Let_def errE declTextOk_def dest!: riderText_ok split: prod.splits)

lemma loadFences_ok: "loadFences T v = Inr fs \<Longrightarrow> list_all fenceTextOk fs"
proof -
  have "list_all fenceTextOk fs" if "mapIdxE loadFence 0 xs = Inr ds" "resolveLibraryFences T ds = Inr fs" for xs ds
  proof -
    have "list_all declTextOk ds" using that(1) by (rule mapIdxE_all) (rule loadFence_ok)
    then show ?thesis using that(2)
      by (auto simp: resolveLibraryFences_def list_all_iff resolveFence_def errE declTextOk_def fenceTextOk_def dest!: mapIdxE_mem)
  qed
  then show "loadFences T v = Inr fs \<Longrightarrow> list_all fenceTextOk fs"
    by (auto simp: loadFences_def errE split: if_splits)
qed

lemma loadDeterminism_ok:
  "loadDeterminism T det = Inr (ts, rs, fs) \<Longrightarrow>
   list_all (\<lambda>kv. \<not> RESERVED_KEY (fst kv) \<and> textOk (snd kv)) (ts @ rs) \<and> list_all fenceTextOk fs"
  by (auto simp: loadDeterminism_def errE list_all_iff dest!: readRider_ok loadFences_ok split: if_splits)

lemma loadAbi_ok:
  "loadAbi v = Inr a \<Longrightarrow> C_IDENT (abPrefix a) \<and> symbolOk (abPrefix a) (abInit a) \<and> symbolOk (abPrefix a) (abSink a) \<and>
   list_all (symbolOk (abPrefix a)) (optList (abCollect a) @ optList (abReset a) @ optList (abRegister a))"
  by (clarsimp simp: loadAbi_def errE) (simp add: symbolField_ok symbolFieldOpt_ok)

lemma claims_symbols:
  "concat (map (optList \<circ> fst) (abiClaims a @ sidecarClaims sc @ exportClaims es)) =
   [abInit a, abSink a] @ optList (abCollect a) @ optList (abReset a) @ optList (abRegister a) @
   (case sc of Some s \<Rightarrow> [buildIdSymbol s, abiVersionSymbol s] | None \<Rightarrow> []) @ map leSymbol es"
proof -
  have "concat (map (\<lambda>x. optList (fst (case x of (i, e) \<Rightarrow> (Some (leSymbol e), g i)))) (enumerate n es)) = map leSymbol es" for n and g :: "nat \<Rightarrow> string"
    by (induction es arbitrary: n) auto
  then show ?thesis by (simp add: abiClaims_def sidecarClaims_def exportClaims_def comp_def split: option.split)
qed

lemma checkChannelNames_ok:
  "checkChannelNames cs es = Inr u \<Longrightarrow> distinct (map lcbName cs) \<and> set (map lcbName cs) \<inter> set (map leExport es) = {}"
proof -
  assume "checkChannelNames cs es = Inr u"
  then obtain seen where seen: "foldE seeChannel [] cs = Inr seen" "\<forall>e\<in>set es. leExport e \<notin> set seen"
    by (auto simp: checkChannelNames_def errE)
  from seeChannel_distinct [OF seen(1)] have d: "distinct (map lcbName cs)" and eq: "set (map lcbName cs) = set seen" by blast+
  have "set seen \<inter> set (map leExport es) = {}" using seen(2) by auto
  then show ?thesis unfolding eq using d by simp
qed

section \<open>The loader\<close>

text \<open>Keys are strict at the levels the loader reads.\<close>

definition keysWithin :: "string list \<Rightarrow> json \<Rightarrow> bool" where
  "keysWithin known v = (set (jm_keys (objEntries v)) \<subseteq> set known)"

definition strictKeys :: "json \<Rightarrow> bool" where
  "strictKeys p = (keysWithin ROOT_KEYS p \<and> keysWithin ABI_KEYS (fld p ''abi'') \<and> keysWithin SIDECAR_KEYS (fld p ''sidecar'') \<and>
     list_all (keysWithin [''export'', ''symbol'', ''params'', ''returns'']) (arrOf (fld p ''exports'')) \<and>
     list_all (keysWithin [''name'', ''params'', ''returns'']) (arrOf (fld p ''callbacks'')))"

lemma objectAt_ok [errE]: "objectAt v path known = Inr u \<longleftrightarrow> isDict v \<and> keysWithin known v"
  by (auto simp: objectAt_def rejectUnknownKeysP_def errE keysWithin_def)

lemma checkRootKey_ok: "checkRootKey k = Inr u \<longleftrightarrow> k \<in> set ROOT_KEYS"
  by (simp add: checkRootKey_def)

lemma arrayField_ok [errE]: "arrayField v path = Inr xs \<longleftrightarrow> v = JArr xs"
  by (cases v) (auto simp: arrayField_def)

lemma mapIdxE_keys:
  assumes "mapIdxE f i xs = Inr ys" "\<And>j x y. f j x = Inr y \<Longrightarrow> P x"
  shows "list_all P xs"
  using assms by (auto simp: mapIdxE_Inr list_all_length)

lemma loadExport_keys: "loadExport pre i e = Inr x \<Longrightarrow> keysWithin [''export'', ''symbol'', ''params'', ''returns''] e"
  by (auto simp: loadExport_def Let_def errE)

lemma loadCallback_keys: "loadCallback i c = Inr x \<Longrightarrow> keysWithin [''name'', ''params'', ''returns''] c"
  by (auto simp: loadCallback_def Let_def errE)

lemma loadCallbacks_keys: "loadCallbacks v = Inr cs \<Longrightarrow> list_all (keysWithin [''name'', ''params'', ''returns'']) (arrOf v)"
  by (cases v) (auto simp: loadCallbacks_def errE dest: mapIdxE_keys [OF _ loadCallback_keys])

lemma loadSidecar_keys: "loadSidecar isAbsolute pre v = Inr s \<Longrightarrow> keysWithin SIDECAR_KEYS v"
  by (cases v) (auto simp: loadSidecar_def errE keysWithin_def jm_keys_def)

lemma validateProfile_steps:
  assumes "validateProfile T isAbsolute resolveFrom ppath bytes p = Inr q"
  obtains a exportsRaw m names path where
    "isDict p" "\<forall>k\<in>set (jm_keys (objEntries p)). checkRootKey k = Inr ()" "lpName q \<noteq> []"
    "readEmission p = Inr (emission q)" "readOptimization p = Inr (optimization q)" "loadAbi (fld p ''abi'') = Inr a"
    "fld p ''exports'' = JArr exportsRaw" "mapIdxE (loadExport (abPrefix a)) 0 exportsRaw = Inr (lpExports q)"
    "loadCallbacks (fld p ''callbacks'') = Inr (lpCallbacks q)" "checkPairing (lpCallbacks q) (abRegister a) = Inr ()"
    "checkChannelNames (lpCallbacks q) (lpExports q) = Inr ()" "loadSidecar isAbsolute (abPrefix a) (fld p ''sidecar'') = Inr (lpSidecar q)"
    "foldE claim [] (abiClaims a @ sidecarClaims (lpSidecar q) @ exportClaims (lpExports q)) = Inr m"
    "foldE seeExport [] (enumerate 0 (lpExports q)) = Inr names"
    "loadDeterminism T (fld p ''determinism'') = Inr (lpTeachings q, lpRemediations q, lpFences q)"
    "lpPrefix q = abPrefix a" "initSymbol q = abInit a" "sinkRegisterSymbol q = abSink a" "collectSymbol q = abCollect a"
    "resultResetSymbol q = abReset a" "callbackRegisterSymbol q = abRegister a"
  using assms unfolding validateProfile_def by (clarsimp simp: errE simp del: enumerate_simps)

lemma validateProfile_ok:
  assumes "validateProfile T isAbsolute resolveFrom ppath bytes p = Inr q"
  shows "strictKeys p \<and> profileOk isAbsolute q"
  using assms
proof (rule validateProfile_steps)
  fix a exportsRaw m names
  assume root: "\<forall>k\<in>set (jm_keys (objEntries p)). checkRootKey k = Inr ()" and name: "lpName q \<noteq> []"
    and em: "readEmission p = Inr (emission q)" and opt: "readOptimization p = Inr (optimization q)" and abi: "loadAbi (fld p ''abi'') = Inr a"
    and raw: "fld p ''exports'' = JArr exportsRaw" and es: "mapIdxE (loadExport (abPrefix a)) 0 exportsRaw = Inr (lpExports q)"
    and cs: "loadCallbacks (fld p ''callbacks'') = Inr (lpCallbacks q)" and pair: "checkPairing (lpCallbacks q) (abRegister a) = Inr ()"
    and ch: "checkChannelNames (lpCallbacks q) (lpExports q) = Inr ()" and sc: "loadSidecar isAbsolute (abPrefix a) (fld p ''sidecar'') = Inr (lpSidecar q)"
    and claims: "foldE claim [] (abiClaims a @ sidecarClaims (lpSidecar q) @ exportClaims (lpExports q)) = Inr m"
    and names: "foldE seeExport [] (enumerate 0 (lpExports q)) = Inr names"
    and det: "loadDeterminism T (fld p ''determinism'') = Inr (lpTeachings q, lpRemediations q, lpFences q)"
    and q: "lpPrefix q = abPrefix a" "initSymbol q = abInit a" "sinkRegisterSymbol q = abSink a" "collectSymbol q = abCollect a"
      "resultResetSymbol q = abReset a" "callbackRegisterSymbol q = abRegister a"
  have strict: "strictKeys p"
    using root raw abi es cs sc unfolding strictKeys_def
    by (auto simp: checkRootKey_ok keysWithin_def [of ROOT_KEYS] loadAbi_def errE dest: loadSidecar_keys loadCallbacks_keys mapIdxE_keys [OF _ loadExport_keys])
  have exports: "list_all (\<lambda>x. exportOk x \<and> symbolOk (abPrefix a) (leSymbol x)) (lpExports q)"
    using es by (rule mapIdxE_all) (rule loadExport_ok)
  have distinct: "distinct (declaredSymbols q)"
    using claim_distinct [OF claims] unfolding claims_symbols declaredSymbols_def q .
  have symbols: "list_all (symbolOk (lpPrefix q)) (declaredSymbols q)"
    using loadAbi_ok [OF abi] exports loadSidecar_ok [of isAbsolute "abPrefix a" "fld p ''sidecar''"] sc
    by (auto simp: declaredSymbols_def q list_all_iff split: option.splits)
  have pairing: "lpCallbacks q = [] \<longleftrightarrow> callbackRegisterSymbol q = None"
    using pair by (auto simp: checkPairing_def errE q)
  have side: "list_all (sidecarOk isAbsolute) (optList (lpSidecar q))"
    using loadSidecar_ok sc by (cases "lpSidecar q") auto
  have "emission q \<in> {''llvm'', ''c'', ''rust''}" "optimization q \<in> {''release'', ''dev''}"
    using em opt by (auto simp: readEmission_def readOptimization_def errE split: if_splits)
  then show ?thesis
    using strict name distinct symbols pairing side exports loadAbi_ok [OF abi] loadCallbacks_ok [OF cs] checkChannelNames_ok [OF ch]
      seeExport_distinct [OF names] loadDeterminism_ok [OF det] unfolding profileOk_def q(1)
    by (simp add: list_all_iff)
qed

end
