(* ===== verification/SectionSound.thy ===== *)
theory SectionSound
  imports SectionResolve LibProfileSound "HOL-Library.Multiset"
begin

text \<open>
  The library section of a module: for a profile the loader accepts, resolution never throws, it
  refuses exactly the exports that do not fit, and the trap messages it assembles can be read back.
  The structural matcher of sidecar records is a relation with an arbitrary pairing of union arms;
  the merged slot configuration has exactly the declared slots.
\<close>

section \<open>Trap messages\<close>

lemma text_free: "textOk s \<Longrightarrow> reservedFree s"
proof -
  assume "textOk s"
  then have "\<not> ((of_char c :: nat) < 0x20 \<and> (of_char c :: nat) \<noteq> 0x0A)" if "c \<in> set s" for c
    using that unfolding textOk_def RESERVED_TEXT_def list_ex_iff by blast
  from this [of "CHR 0x01"] this [of "CHR 0x1F"] show ?thesis by (auto simp: reservedFree_def)
qed

lemma ident_free: "C_IDENT s \<Longrightarrow> reservedFree s"
  by (auto simp: C_IDENT_def reservedFree_def list_all_iff isAlnum_def isAlpha_def isDigit_def split: list.splits)

lemma base_free: "reservedFree BYTES_TRAP" "reservedFree INT_TRAP" "reservedFree LIB_INBOUND_BYTES_TRAP_CODE"
  by (simp_all add: BYTES_TRAP_def INT_TRAP_def reservedFree_def LIB_INBOUND_BYTES_TRAP_CODE_def)

lemma orElse_eq_Some: "orElse x y = Some z \<longleftrightarrow> x = Some z \<or> x = None \<and> y = Some z"
  by (cases x) auto

lemma profileOk_texts:
  assumes "profileOk isAbsolute p"
  shows "jm_get (lpTeachings p) k = Some t \<Longrightarrow> reservedFree t" "jm_get (lpRemediations p) k = Some t \<Longrightarrow> reservedFree t"
    "f \<in> set (lpFences p) \<Longrightarrow> rfRemediation f = Some t \<Longrightarrow> reservedFree t"
proof -
  have texts: "\<forall>kv\<in>set (lpTeachings p) \<union> set (lpRemediations p). textOk (snd kv)" and fences: "\<forall>f\<in>set (lpFences p). fenceTextOk f"
    using assms by (simp_all add: profileOk_def list_all_iff)
  show "jm_get (lpTeachings p) k = Some t \<Longrightarrow> reservedFree t"
    using bspec [OF texts, of "(k, t)"] by (auto simp: jm_get_map_of dest: map_of_SomeD intro: text_free)
  show "jm_get (lpRemediations p) k = Some t \<Longrightarrow> reservedFree t"
    using bspec [OF texts, of "(k, t)"] by (auto simp: jm_get_map_of dest: map_of_SomeD intro: text_free)
  show "f \<in> set (lpFences p) \<Longrightarrow> rfRemediation f = Some t \<Longrightarrow> reservedFree t"
    using bspec [OF fences, of f] by (simp add: fenceTextOk_def text_free)
qed

lemma profileTeaching_free: "profileOk isAbsolute p \<Longrightarrow> profileTeaching p code = Some t \<Longrightarrow> reservedFree t"
  using profileOk_texts(1) by (auto simp: profileTeaching_def orElse_eq_Some split: if_splits)

lemma profileRemediation_free: "profileOk isAbsolute p \<Longrightarrow> profileRemediation p code = Some r \<Longrightarrow> reservedFree r"
  using profileOk_texts(2,3)
  by (auto simp: profileRemediation_def orElse_eq_Some fenceRemediation_def dest!: firstSome_Some split: option.splits if_splits)

definition carriesTrap :: "'b LibraryProfile \<Rightarrow> LibraryExportEntry \<Rightarrow> string \<Rightarrow> string option \<Rightarrow> bool" where
  "carriesTrap p e base msg = (map_option parseTrapTeaching msg = Some (Some
     \<lparr>ttText = (case profileTeaching p ''SC4012'' of Some t \<Rightarrow> t | None \<Rightarrow> base), ttCode = ''SC4012'', ttSymbol = leSymbol e,
      ttRemediation = profileRemediation p ''SC4012''\<rparr>))"

lemma inboundTrap_ok:
  assumes "profileOk isAbsolute p" "e \<in> set (lpExports p)" "reservedFree base"
  shows "\<exists>msg. inboundTrap p e base = Inr msg \<and> carriesTrap p e base (Some msg)"
proof -
  have "C_IDENT (leSymbol e)" using assms by (auto simp: profileOk_def declaredSymbols_def list_all_iff symbolOk_def)
  then obtain msg where "inboundTrap p e base = Inr msg"
    using assms profileTeaching_free [OF assms(1)] profileRemediation_free [OF assms(1)] base_free(3) ident_free
    by (force simp: inboundTrap_def assemble_ok split: option.splits)
  then show ?thesis using assemble_parse [of _ _ _ _ msg] by (auto simp: inboundTrap_def carriesTrap_def LIB_INBOUND_BYTES_TRAP_CODE_def)
qed

section \<open>Exports\<close>

definition exportFits :: "(string, EntryExportInfo) jsmap \<Rightarrow> json \<Rightarrow> LibraryExportEntry \<Rightarrow> bool" where
  "exportFits entryInfo md e = (\<exists>info fn. jm_get entryInfo (leExport e) = Some info \<and> \<not> eiGeneric info \<and> \<not> eiAsync info \<and> \<not> eiGenerator info \<and>
     jm_get (functionsByName md) (leExport e) = Some fn \<and>
     list_all2 (\<lambda>c p. libClassFits c (fld p ''type'')) (leParams e) (arrOf (fld fn ''params'')) \<and>
     (if leReturns e = ''void'' then kindOf (fld fn ''returnType'') = ''void'' else libClassFits (leReturns e) (fld fn ''returnType'')))"

lemma paramDiags_none:
  "length cs = length ps \<Longrightarrow> (\<forall>x\<in>set (enumerate n (zip cs ps)). paramDiag e info x = []) \<longleftrightarrow> list_all2 (\<lambda>c p. libClassFits c (fld p ''type'')) cs ps"
  by (induction cs ps arbitrary: n rule: list_induct2) (auto simp: paramDiag_def)

lemma exportDiags_none: "exportDiags entryInfo (functionsByName md) eloc e = [] \<longleftrightarrow> exportFits entryInfo md e"
  by (auto simp: exportDiags_def exportFits_def Let_def paramDiags_none returnDiag_def dest: list_all2_lengthD split: option.splits if_splits)

definition exportCarries :: "'b LibraryProfile \<Rightarrow> LibraryExportEntry \<Rightarrow> IrLibExport \<Rightarrow> bool" where
  "exportCarries p e x = (ixSymbol x = leSymbol e \<and> ixFnName x = leExport e \<and> ixParams x = leParams e \<and> ixReturns x = leReturns e \<and>
     (if ''bytes'' \<in> set (leParams e) then carriesTrap p e BYTES_TRAP (inboundBytesTrap x) else inboundBytesTrap x = None) \<and>
     (if ''i64'' \<in> set (leParams e) \<or> ''u64'' \<in> set (leParams e) then carriesTrap p e INT_TRAP (inboundIntTrap x) else inboundIntTrap x = None))"

lemma trapIf_ok: "\<exists>msg. m = Inr msg \<and> P (Some msg) \<Longrightarrow> \<exists>r. trapIf b m = Inr r \<and> (if b then P r else r = None)"
  by (auto simp: trapIf_def)

lemma resolvedExport_ok:
  assumes "profileOk isAbsolute p" "e \<in> set (lpExports p)"
  shows "\<exists>x. resolvedExport p e = Inr x \<and> exportCarries p e x"
proof -
  obtain b where b: "trapIf (''bytes'' \<in> set (leParams e)) (inboundTrap p e BYTES_TRAP) = Inr b"
      "if ''bytes'' \<in> set (leParams e) then carriesTrap p e BYTES_TRAP b else b = None"
    using trapIf_ok [OF inboundTrap_ok [OF assms base_free(1)]] by blast
  obtain i where i: "trapIf (''i64'' \<in> set (leParams e) \<or> ''u64'' \<in> set (leParams e)) (inboundTrap p e INT_TRAP) = Inr i"
      "if ''i64'' \<in> set (leParams e) \<or> ''u64'' \<in> set (leParams e) then carriesTrap p e INT_TRAP i else i = None"
    using trapIf_ok [OF inboundTrap_ok [OF assms base_free(2)]] by blast
  from b i show ?thesis by (simp add: resolvedExport_def exportCarries_def)
qed

lemma resolveStep_simps:
  "exportDiags info fm eloc e = [] \<Longrightarrow> resolvedExport p e = Inr x \<Longrightarrow> resolveStep p info fm eloc (ds, ys) e = Inr (ds, ys @ [x])"
  "exportDiags info fm eloc e = d # ds' \<Longrightarrow> resolveStep p info fm eloc (ds, ys) e = Inr (ds @ d # ds', ys)"
  by (simp_all add: resolveStep_def)

lemma resolve_fold:
  assumes "profileOk isAbsolute p" "set es \<subseteq> set (lpExports p)"
  shows "\<exists>xs. foldE (resolveStep p info fm eloc) (ds, ys) es = Inr (ds @ concat (map (exportDiags info fm eloc) es), ys @ xs) \<and>
    list_all2 (exportCarries p) (filter (\<lambda>e. exportDiags info fm eloc e = []) es) xs"
  using assms(2)
proof (induction es arbitrary: ds ys)
  case (Cons e es)
  show ?case
  proof (cases "exportDiags info fm eloc e")
    case Nil
    obtain x where x: "resolvedExport p e = Inr x" "exportCarries p e x" using resolvedExport_ok [OF assms(1), of e] Cons.prems by auto
    from Cons.IH [of ds "ys @ [x]"] Cons.prems obtain xs where
      "foldE (resolveStep p info fm eloc) (ds, ys @ [x]) es = Inr (ds @ concat (map (exportDiags info fm eloc) es), (ys @ [x]) @ xs)"
      "list_all2 (exportCarries p) (filter (\<lambda>e. exportDiags info fm eloc e = []) es) xs" by auto
    then show ?thesis using Nil x by (intro exI [of _ "x # xs"]) (simp add: resolveStep_simps)
  next
    case (Cons d ds')
    with Cons.IH [of "ds @ d # ds'" ys] Cons.prems show ?thesis by (auto simp: resolveStep_simps)
  qed
qed simp

lemma resolveLibrarySection_cases:
  assumes "profileOk isAbsolute p"
  shows "if list_all (exportFits info md) (lpExports p)
    then \<exists>xs. resolveLibrarySection p info md entryPath = Inr (Inr (librarySection p xs)) \<and> list_all2 (exportCarries p) (lpExports p) xs
    else \<exists>d ds. concat (map (exportDiags info (functionsByName md) (fileLoc entryPath)) (lpExports p)) = d # ds \<and>
      resolveLibrarySection p info md entryPath = Inr (Inl (d # ds))"
proof -
  let ?diags = "exportDiags info (functionsByName md) (fileLoc entryPath)"
  obtain xs where fold: "foldE (resolveStep p info (functionsByName md) (fileLoc entryPath)) ([], []) (lpExports p) = Inr (concat (map ?diags (lpExports p)), xs)"
    and xs: "list_all2 (exportCarries p) (filter (\<lambda>e. ?diags e = []) (lpExports p)) xs"
    using resolve_fold [OF assms subset_refl, of info "functionsByName md" "fileLoc entryPath" "[]" "[]"] by auto
  show ?thesis
  proof (cases "list_all (exportFits info md) (lpExports p)")
    case True
    then have none: "\<forall>e\<in>set (lpExports p). ?diags e = []" by (simp add: exportDiags_none list_all_iff)
    then have "filter (\<lambda>e. ?diags e = []) (lpExports p) = lpExports p" by simp
    then show ?thesis using True none fold xs by (auto simp: resolveLibrarySection_def)
  next
    case False
    then have "concat (map ?diags (lpExports p)) \<noteq> []" by (auto simp: exportDiags_none list_all_iff)
    then obtain d ds where "concat (map ?diags (lpExports p)) = d # ds" unfolding neq_Nil_conv by blast
    then show ?thesis using False fold by (simp add: resolveLibrarySection_def)
  qed
qed

section \<open>The matcher\<close>

lemma visitArms_iff:
  "visitArms ms actual used \<longleftrightarrow> (\<exists>ks. distinct ks \<and> set ks \<inter> set used = {} \<and> set ks \<subseteq> {..<length actual} \<and>
     list_all2 (\<lambda>m i. m (actual ! i)) ms ks)"
proof (induction ms actual used rule: visitArms.induct)
  case (2 m ms actual used)
  show ?case
  proof
    assume "visitArms (m # ms) actual used"
    then obtain i where i: "i < length actual" "i \<notin> set used" "m (actual ! i)" "visitArms ms actual (i # used)"
      by (auto simp: list_ex_iff)
    with 2 [of i] obtain ks where "distinct ks" "set ks \<inter> set (i # used) = {}" "set ks \<subseteq> {..<length actual}"
      "list_all2 (\<lambda>m i. m (actual ! i)) ms ks" by auto
    then show "\<exists>ks. distinct ks \<and> set ks \<inter> set used = {} \<and> set ks \<subseteq> {..<length actual} \<and> list_all2 (\<lambda>m i. m (actual ! i)) (m # ms) ks"
      using i by (intro exI [of _ "i # ks"]) auto
  next
    assume "\<exists>ks. distinct ks \<and> set ks \<inter> set used = {} \<and> set ks \<subseteq> {..<length actual} \<and> list_all2 (\<lambda>m i. m (actual ! i)) (m # ms) ks"
    then obtain i ks where ks: "distinct (i # ks)" "set (i # ks) \<inter> set used = {}" "set (i # ks) \<subseteq> {..<length actual}"
      "m (actual ! i)" "list_all2 (\<lambda>m i. m (actual ! i)) ms ks" by (auto simp: list_all2_Cons1)
    then have "visitArms ms actual (i # used)" using 2 [of i] by (intro iffD2 [OF 2]) auto
    then show "visitArms (m # ms) actual used" using ks by (auto simp: list_ex_iff)
  qed
qed auto

lemma unionMatches_iff: "unionMatches ms actual \<longleftrightarrow> (\<exists>perm. mset perm = mset actual \<and> list_all2 (\<lambda>m a. m a) ms perm)"
proof
  assume u: "unionMatches ms actual"
  then obtain ks where ks: "distinct ks" "set ks \<subseteq> {..<length actual}" "list_all2 (\<lambda>m i. m (actual ! i)) ms ks" "length ms = length actual"
    by (auto simp: unionMatches_def visitArms_iff)
  have len: "length ks = length actual" using ks(3,4) by (simp add: list_all2_conv_all_nth)
  have "set ks = set [0..<length actual]"
    using ks(1,2) len by (intro card_subset_eq) (auto simp: distinct_card)
  then have "mset ks = mset [0..<length actual]" by (rule iffD1 [OF set_eq_iff_mset_eq_distinct [OF ks(1) distinct_upt]])
  then have "mset (map ((!) actual) ks) = mset (map ((!) actual) [0..<length actual])" by (simp only: mset_map)
  then show "\<exists>perm. mset perm = mset actual \<and> list_all2 (\<lambda>m a. m a) ms perm"
    using ks(3) by (intro exI [of _ "map ((!) actual) ks"]) (simp add: map_nth list.rel_map)
next
  assume "\<exists>perm. mset perm = mset actual \<and> list_all2 (\<lambda>m a. m a) ms perm"
  then obtain perm where perm: "mset perm = mset actual" "list_all2 (\<lambda>m a. m a) ms perm" by blast
  have "list_all2 (\<lambda>a i. a = actual ! i) actual [0..<length actual]" by (simp add: list_all2_conv_all_nth)
  from list_all2_reorder_left_invariance [OF this perm(1)]
  obtain ks where ks: "list_all2 (\<lambda>a i. a = actual ! i) perm ks" "mset ks = mset [0..<length actual]" by blast
  have "distinct ks" using ks(2) distinct_upt mset_eq_imp_distinct_iff by blast
  moreover have "set ks \<subseteq> {..<length actual}" using mset_eq_setD [OF ks(2)] by auto
  moreover have "list_all2 (\<lambda>m i. m (actual ! i)) ms ks" using perm(2) ks(1) by (auto simp: list_all2_conv_all_nth)
  moreover have "length ms = length actual" using perm by (metis list_all2_lengthD size_mset)
  ultimately show "unionMatches ms actual" by (auto simp: unionMatches_def visitArms_iff)
qed

text \<open>The reference: a record pattern fits a plain shape with as many fields that all fit by name; a
  union pattern fits when some pairing of its arms with the IR's arms fits.\<close>

definition plainShape :: "json \<Rightarrow> bool" where
  "plainShape shape = (fld shape ''tuple'' \<noteq> JBool True \<and> fld shape ''indexValue'' = JUndef)"

inductive fits :: "json \<Rightarrow> SidecarIrTypePattern \<Rightarrow> json \<Rightarrow> bool"
  and fitsShape :: "json \<Rightarrow> (string \<times> SidecarIrTypePattern) list \<Rightarrow> bool \<Rightarrow> json \<Rightarrow> bool" for md where
  fits_scalar: "kindOf t = k \<Longrightarrow> fits md (PScalar k) t"
| fits_bytes: "kindOf t = ''bytes'' \<Longrightarrow> fld t ''elem'' = JStr e \<Longrightarrow> fits md (PBytes e) t"
| fits_array: "kindOf t = ''array'' \<Longrightarrow> fits md p (fld t ''elem'') \<Longrightarrow> fits md (PArray p) t"
| fits_record: "kindOf t = ''record'' \<Longrightarrow> jm_get (idMap (arrOf (fld md ''records''))) (fld t ''shapeId'') = Some shape \<Longrightarrow>
    fitsShape md fs omit shape \<Longrightarrow> fits md (PRecord fs omit) t"
| fits_union: "kindOf t = ''union'' \<Longrightarrow> jm_get (idMap (arrOf (fld md ''unions''))) (fld t ''unionId'') = Some u \<Longrightarrow>
    mset arms = mset (arrOf (fld u ''arms'')) \<Longrightarrow> length arms = length ps \<Longrightarrow> (\<And>i. i < length ps \<Longrightarrow> fits md (ps ! i) (arms ! i)) \<Longrightarrow>
    fits md (PUnion ps) t"
| fits_shape: "plainShape shape \<Longrightarrow> vs = fs \<or> omit \<and> vs = filter (\<lambda>f. fst f \<noteq> ''kind'') fs \<Longrightarrow> length vs = length (arrOf (fld shape ''fields'')) \<Longrightarrow>
    (\<And>n p. (n, p) \<in> set vs \<Longrightarrow> \<exists>f. fieldNamed shape n = Some f \<and> fits md p (fld f ''type'')) \<Longrightarrow> fitsShape md fs omit shape"

inductive_simps fits_simps: "fits md (PScalar k) t" "fits md (PBytes e) t" "fits md (PArray p) t" "fits md (PRecord fs omit) t" "fits md (PUnion ps) t"
inductive_simps fitsShape_simps: "fitsShape md fs omit shape"

lemma variantMatches_fits:
  assumes "\<And>f t. f \<in> set vs \<Longrightarrow> typeMatches md (snd f) t \<longleftrightarrow> fits md (snd f) t"
  shows "variantMatches (map (\<lambda>f. (fst f, typeMatches md (snd f))) vs) shape \<longleftrightarrow> length vs = length (arrOf (fld shape ''fields'')) \<and>
    (\<forall>n p. (n, p) \<in> set vs \<longrightarrow> (\<exists>f. fieldNamed shape n = Some f \<and> fits md p (fld f ''type'')))"
proof -
  have "list_all (\<lambda>f. case fieldNamed shape (fst f) of Some a \<Rightarrow> snd f (fld a ''type'') | None \<Rightarrow> False) (map (\<lambda>f. (fst f, typeMatches md (snd f))) vs) \<longleftrightarrow>
    (\<forall>f\<in>set vs. \<exists>a. fieldNamed shape (fst f) = Some a \<and> fits md (snd f) (fld a ''type''))"
    using assms unfolding list_all_iff by (auto split: option.splits)
  also have "\<dots> \<longleftrightarrow> (\<forall>n p. (n, p) \<in> set vs \<longrightarrow> (\<exists>f. fieldNamed shape n = Some f \<and> fits md p (fld f ''type'')))" by force
  finally show ?thesis unfolding variantMatches_def length_map by (rule conj_cong [OF refl])
qed

lemma recordMatches_fits:
  assumes "\<And>f t. f \<in> set fs \<Longrightarrow> typeMatches md (snd f) t \<longleftrightarrow> fits md (snd f) t"
  shows "recordMatches (map (\<lambda>f. (fst f, typeMatches md (snd f))) fs) omit shape \<longleftrightarrow> fitsShape md fs omit shape"
proof -
  have "filter (\<lambda>f. fst f \<noteq> ''kind'') (map (\<lambda>f. (fst f, typeMatches md (snd f))) fs) =
      map (\<lambda>f. (fst f, typeMatches md (snd f))) (filter (\<lambda>f. fst f \<noteq> ''kind'') fs)" by (simp add: filter_map comp_def)
  then show ?thesis
    using variantMatches_fits [of fs md shape] variantMatches_fits [of "filter (\<lambda>f. fst f \<noteq> ''kind'') fs" md shape] assms
    unfolding recordMatches_def fitsShape_simps plainShape_def by auto
qed

lemma typeMatches_fits: "typeMatches md p t \<longleftrightarrow> fits md p t"
proof (induction p arbitrary: t)
  case (PRecord fs omit)
  have "recordMatches (map (\<lambda>f. (fst f, typeMatches md (snd f))) fs) omit shape \<longleftrightarrow> fitsShape md fs omit shape" for shape
    by (rule recordMatches_fits) (use PRecord in \<open>auto simp: snds.simps\<close>)
  then show ?case by (auto simp: fits_simps split: option.splits)
next
  case (PUnion ps)
  have "unionMatches (map (typeMatches md) ps) arms \<longleftrightarrow>
      (\<exists>perm. mset perm = mset arms \<and> length perm = length ps \<and> (\<forall>i < length ps. fits md (ps ! i) (perm ! i)))" for arms
    using PUnion unfolding unionMatches_iff by (auto simp: list_all2_conv_all_nth)
  then show ?case by (auto simp: fits_simps split: option.splits)
qed (auto simp: fits_simps)

lemma sidecarRecordMatcher_fits: "sidecarRecordMatcher md (fs, omit) shape \<longleftrightarrow> fitsShape md fs omit shape"
  by (simp add: sidecarRecordMatcher_def recordMatches_fits typeMatches_fits)

text \<open>With distinct names in the pattern, a fit is a pairing of the names.\<close>

lemma fitsShape_names:
  assumes "fitsShape md fs omit shape" "distinct (map fst fs)"
  obtains vs where "vs = fs \<or> omit \<and> vs = filter (\<lambda>f. fst f \<noteq> ''kind'') fs"
    "mset (map (\<lambda>f. fld f ''name'') (arrOf (fld shape ''fields''))) = mset (map (JStr \<circ> fst) vs)"
proof -
  from assms(1) obtain vs where vs: "vs = fs \<or> omit \<and> vs = filter (\<lambda>f. fst f \<noteq> ''kind'') fs"
    "length vs = length (arrOf (fld shape ''fields''))" "\<forall>(n, p)\<in>set vs. \<exists>f. fieldNamed shape n = Some f \<and> fits md p (fld f ''type'')"
    by (auto simp: fitsShape_simps)
  let ?names = "map (\<lambda>f. fld f ''name'') (arrOf (fld shape ''fields''))"
  have "distinct (map fst vs)" using vs(1) assms(2) by (auto simp: distinct_map_filter)
  then have d: "distinct (map (JStr \<circ> fst) vs)" by (auto simp: distinct_map inj_on_def)
  have sub: "set (map (JStr \<circ> fst) vs) \<subseteq> set ?names"
  proof
    fix x assume "x \<in> set (map (JStr \<circ> fst) vs)"
    then obtain n p f where "x = JStr n" "fieldNamed shape n = Some f" using vs(3) by force
    then have "f \<in> set (arrOf (fld shape ''fields''))" "fld f ''name'' = x"
      unfolding fieldNamed_def by (auto simp: find_Some_iff)
    then show "x \<in> set ?names" by auto
  qed
  have card: "card (set (map (JStr \<circ> fst) vs)) = length ?names" using d vs(2) by (simp only: distinct_card length_map)
  have "card (set ?names) = length ?names"
    using card_mono [OF List.finite_set sub] card_length [of ?names] unfolding card by (rule le_antisym [rotated])
  then have dn: "distinct ?names" by (rule card_distinct)
  have "set (map (JStr \<circ> fst) vs) = set ?names" using sub card dn by (intro card_subset_eq) (simp_all only: distinct_card List.finite_set)
  then have "mset (map (JStr \<circ> fst) vs) = mset ?names" by (rule iffD1 [OF set_eq_iff_mset_eq_distinct [OF d dn]])
  with vs(1) that show ?thesis by metis
qed

end
