(* ===== verification/SlotMerge.thy ===== *)
theory SlotMerge
  imports SectionResolve
begin

text \<open>
  The integer slot configuration of a library build: what \<^verbatim>\<open>libraryIntSlotConfig\<close> and
  \<^verbatim>\<open>mergeSidecarIntSlots\<close> declare at each parameter, return and record field, read off the export
  map and the sidecar's facts directly.
\<close>

section \<open>Function slots\<close>

definition nthOpt :: "'a option list \<Rightarrow> nat \<Rightarrow> 'a option" where
  "nthOpt xs i = (if i < length xs then xs ! i else None)"

lemma nthOpt_simps [simp]:
  "nthOpt (setAt xs i v) j = (if i = j then Some v else nthOpt xs j)"
  "nthOpt (ys @ replicate n None) j = nthOpt ys j"
  "nthOpt (replicate n None) j = None"
proof -
  show "nthOpt (setAt xs i v) j = (if i = j then Some v else nthOpt xs j)"
    by (cases "j < length xs") (auto simp: nthOpt_def setAt_def nth_append nth_Cons' not_less)
qed (simp_all add: nthOpt_def nth_append)

lemma nthOpt_none [simp]: "nthOpt (None # replicate n None) j = None" "nthOpt [None] j = None"
  by (simp_all add: nthOpt_def nth_Cons')

definition slotsSlot :: "FnIntSlots \<Rightarrow> HelperSlot \<Rightarrow> (IntClass \<times> string option) option" where
  "slotsSlot s sl = (case sl of HelperParam i \<Rightarrow> map_option (\<lambda>c. (c, nthOpt (paramPaths s) i)) (nthOpt (params s) i)
     | HelperReturn \<Rightarrow> map_option (\<lambda>c. (c, retPath s)) (ret s))"

definition slotOf :: "IntSlotConfig \<Rightarrow> string \<Rightarrow> HelperSlot \<Rightarrow> (IntClass \<times> string option) option" where
  "slotOf cfg f sl = (case jm_get (fns cfg) f of None \<Rightarrow> None | Some s \<Rightarrow> slotsSlot s sl)"

definition seedOf :: "IntSlotConfig \<Rightarrow> string \<Rightarrow> nat \<Rightarrow> AbsVal option" where
  "seedOf cfg f i = (case jm_get (fns cfg) f of None \<Rightarrow> None | Some s \<Rightarrow> nthOpt (paramSeeds s) i)"

lemma mergeHelper_slotOf:
  "slotOf (mergeHelper md cfg h) f sl = (if hfFnName h = f \<and> hfSlot h = sl then Some (hfCls h, Some (hfPath h)) else slotOf cfg f sl)"
  by (auto simp: slotOf_def slotsSlot_def mergeHelper_def Let_def jm_get_set putSlot_def padSlots_def emptySlots_def split: option.splits HelperSlot.splits)

lemma mergeHelper_seedOf: "seedOf (mergeHelper md cfg h) f i = seedOf cfg f i"
  by (auto simp: seedOf_def mergeHelper_def Let_def jm_get_set putSlot_def padSlots_def emptySlots_def split: option.splits HelperSlot.splits)

lemma mergeHelper_records: "records (foldl (mergeHelper md) cfg hs) = records cfg"
  by (induction hs arbitrary: cfg) (auto simp: mergeHelper_def Let_def)

text \<open>The last fact about a slot decides it; a slot without facts keeps the export map's.\<close>

definition mergedSlot :: "HelperFact list \<Rightarrow> string \<Rightarrow> HelperSlot \<Rightarrow> (IntClass \<times> string option) option \<Rightarrow> (IntClass \<times> string option) option" where
  "mergedSlot hs f sl base = (case find (\<lambda>h. hfFnName h = f \<and> hfSlot h = sl) (rev hs) of
     Some h \<Rightarrow> Some (hfCls h, Some (hfPath h)) | None \<Rightarrow> base)"

lemma mergeHelpers_slotOf: "slotOf (foldl (mergeHelper md) cfg hs) f sl = mergedSlot hs f sl (slotOf cfg f sl)"
  by (induction hs rule: rev_induct) (auto simp: mergedSlot_def mergeHelper_slotOf)

lemma mergeHelpers_seedOf: "seedOf (foldl (mergeHelper md) cfg hs) f i = seedOf cfg f i"
  by (induction hs arbitrary: cfg) (auto simp: mergeHelper_seedOf)

definition slotPath :: "string \<Rightarrow> HelperSlot \<Rightarrow> string" where
  "slotPath f sl = ''exports.'' @ f @ (case sl of HelperParam i \<Rightarrow> ''.params['' @ intDigits (int i) @ '']'' | HelperReturn \<Rightarrow> ''.return'')"

definition classAt :: "LibraryExportEntry \<Rightarrow> HelperSlot \<Rightarrow> IntClass option" where
  "classAt e sl = (case sl of HelperParam i \<Rightarrow> if i < length (leParams e) then intClassOf (leParams e ! i) else None
   | HelperReturn \<Rightarrow> intClassOf (leReturns e))"

definition declaredSlot :: "LibraryExportEntry list \<Rightarrow> string \<Rightarrow> HelperSlot \<Rightarrow> (IntClass \<times> string option) option" where
  "declaredSlot es f sl = (case find (\<lambda>e. leExport e = f) es of None \<Rightarrow> None
   | Some e \<Rightarrow> map_option (\<lambda>c. (c, Some (slotPath f sl))) (classAt e sl))"

definition declaredSeed :: "LibraryExportEntry list \<Rightarrow> string \<Rightarrow> nat \<Rightarrow> AbsVal option" where
  "declaredSeed es f i = (case find (\<lambda>e. leExport e = f) es of None \<Rightarrow> None
   | Some e \<Rightarrow> if i < length (leParams e) \<and> leParams e ! i \<in> {''u8'', ''u32'', ''i32''} then Some (classSeed (leParams e ! i)) else None)"

lemma exportSlots_slot: "slotsSlot (exportSlots e) sl = map_option (\<lambda>c. (c, Some (slotPath (leExport e) sl))) (classAt e sl)"
  by (cases sl) (auto simp: slotsSlot_def exportSlots_def classAt_def slotPath_def nthOpt_def nth_enumerate_eq intClassOf_def split: if_splits)

lemma exportSlots_seed: "nthOpt (paramSeeds (exportSlots e)) i =
  (if i < length (leParams e) \<and> leParams e ! i \<in> {''u8'', ''u32'', ''i32''} then Some (classSeed (leParams e ! i)) else None)"
  by (auto simp: exportSlots_def nthOpt_def)

definition inertSlots :: "FnIntSlots \<Rightarrow> bool" where
  "inertSlots s = (list_all (\<lambda>x. x = None) (params s) \<and> ret s = None \<and> list_all (\<lambda>x. x = None) (paramSeeds s))"

lemma inertSlots_none: "inertSlots s \<Longrightarrow> slotsSlot s sl = None \<and> nthOpt (paramSeeds s) i = None"
  by (auto simp: inertSlots_def slotsSlot_def nthOpt_def list_all_length split: HelperSlot.splits)

lemma configStep_fns: "fns (configStep cfg e) = (if inertSlots (exportSlots e) then fns cfg else jm_set (fns cfg) (leExport e) (exportSlots e))"
  by (simp add: configStep_def inertSlots_def Let_def)

lemma config_get:
  assumes "distinct (map leExport es)"
  shows "jm_get (fns (foldl configStep \<lparr>fns = [], records = []\<rparr> es)) f = (case find (\<lambda>e. leExport e = f) es of None \<Rightarrow> None
    | Some e \<Rightarrow> if inertSlots (exportSlots e) then None else Some (exportSlots e))"
  using assms
proof (induction es rule: rev_induct)
  case (snoc e es)
  then have "find (\<lambda>x. leExport x = leExport e) es = None" by (auto simp: find_None_iff image_iff)
  moreover have "find (\<lambda>x. leExport x = f) (es @ [e]) = (case find (\<lambda>x. leExport x = f) es of Some x \<Rightarrow> Some x | None \<Rightarrow> if leExport e = f then Some e else None)"
    by (induction es) auto
  ultimately show ?case using snoc by (auto simp: configStep_fns jm_get_set split: option.splits)
qed simp

lemma config_slotOf:
  assumes "distinct (map leExport (lpExports p))"
  shows "slotOf (libraryIntSlotConfig p) f sl = declaredSlot (lpExports p) f sl" "seedOf (libraryIntSlotConfig p) f i = declaredSeed (lpExports p) f i"
proof -
  have name: "leExport e = f" if "find (\<lambda>e. leExport e = f) (lpExports p) = Some e" for e
    using that by (auto simp: find_Some_iff)
  show "slotOf (libraryIntSlotConfig p) f sl = declaredSlot (lpExports p) f sl"
  proof (cases "find (\<lambda>e. leExport e = f) (lpExports p)")
    case (Some e)
    from exportSlots_slot [of e sl] inertSlots_none [of "exportSlots e" sl 0] show ?thesis
      unfolding slotOf_def libraryIntSlotConfig_def config_get [OF assms] declaredSlot_def Some name [OF Some] by simp
  qed (simp add: slotOf_def libraryIntSlotConfig_def config_get [OF assms] declaredSlot_def)
  show "seedOf (libraryIntSlotConfig p) f i = declaredSeed (lpExports p) f i"
    unfolding seedOf_def libraryIntSlotConfig_def config_get [OF assms] declaredSeed_def exportSlots_seed [symmetric]
    using inertSlots_none by (auto split: option.split)
qed

lemma config_records: "records (libraryIntSlotConfig p) = []"
proof -
  have "records (foldl configStep cfg es) = records cfg" for cfg es
    by (induction es arbitrary: cfg) (auto simp: configStep_def Let_def)
  then show ?thesis by (simp add: libraryIntSlotConfig_def)
qed

section \<open>Record slots\<close>

definition lookupSlot :: "recordSlots \<Rightarrow> string \<Rightarrow> string \<Rightarrow> RecordIntSlot option" where
  "lookupSlot recs i f = (case jm_get recs i of None \<Rightarrow> None | Some m \<Rightarrow> jm_get m f)"

text \<open>Each fact obliges every shape it binds.\<close>

definition obligations :: "json \<Rightarrow> RecordFact list \<Rightarrow> (string \<times> RecordFact) list" where
  "obligations md rs = concat (map (\<lambda>r. map (\<lambda>shape. (sfld shape ''id'', r)) (filter (bindsShape md r) (arrOf (fld md ''records'')))) rs)"

definition oblige :: "recordSlots \<Rightarrow> string \<times> RecordFact \<Rightarrow> ScrDiagnostic + recordSlots" where
  "oblige recs ob = (case ob of (i, r) \<Rightarrow>
     let m = (case jm_get recs i of Some m \<Rightarrow> m | None \<Rightarrow> []) in
     case jm_get m (rdTargetField r) of
       Some existing \<Rightarrow> if slotCls existing \<noteq> rdCls r then Inl (collapseDiag existing r)
         else Inr (jm_set recs i (jm_set m (rdTargetField r) (existing\<lparr>paths := setAdd (paths existing) (rdPath r)\<rparr>)))
     | None \<Rightarrow> Inr (jm_set recs i (jm_set m (rdTargetField r) \<lparr>slotCls = rdCls r, paths = [rdPath r]\<rparr>)))"

lemma mergeShape_oblige: "mergeShape md r recs shape = (if bindsShape md r shape then oblige recs (sfld shape ''id'', r) else Inr recs)"
  unfolding mergeShape_def oblige_def Let_def setAdd_def by simp

lemma foldD_append: "foldD f s (xs @ ys) = (case foldD f s xs of Inl d \<Rightarrow> Inl d | Inr t \<Rightarrow> foldD f t ys)"
  by (induction xs arbitrary: s) (auto split: sum.splits)

lemma mergeRecord_oblige:
  "mergeRecord md recs r = foldD oblige recs (map (\<lambda>shape. (sfld shape ''id'', r)) (filter (bindsShape md r) (arrOf (fld md ''records''))))"
proof -
  have "foldD (mergeShape md r) recs shapes = foldD oblige recs (map (\<lambda>shape. (sfld shape ''id'', r)) (filter (bindsShape md r) shapes))" for shapes
    by (induction shapes arbitrary: recs) (auto simp: mergeShape_oblige split: sum.splits)
  then show ?thesis by (simp add: mergeRecord_def)
qed

lemma mergeRecords_oblige: "foldD (mergeRecord md) recs rs = foldD oblige recs (obligations md rs)"
  by (induction rs arbitrary: recs) (auto simp: obligations_def foldD_append mergeRecord_oblige split: sum.splits)

lemma oblige_Inr: "oblige recs (i, r) = Inr recs' \<Longrightarrow> lookupSlot recs' j f = (if j = i \<and> f = rdTargetField r
  then Some (case lookupSlot recs j f of None \<Rightarrow> \<lparr>slotCls = rdCls r, paths = [rdPath r]\<rparr> | Some x \<Rightarrow> x\<lparr>paths := setAdd (paths x) (rdPath r)\<rparr>)
  else lookupSlot recs j f)"
  by (auto simp: oblige_def Let_def lookupSlot_def jm_get_set split: option.splits if_splits)

lemma oblige_Inl: "(\<exists>d. oblige recs (i, r) = Inl d) \<longleftrightarrow> (\<exists>x. lookupSlot recs i (rdTargetField r) = Some x \<and> slotCls x \<noteq> rdCls r)"
  by (auto simp: oblige_def Let_def lookupSlot_def split: option.splits)

definition obliged :: "(string \<times> RecordFact) list \<Rightarrow> string \<Rightarrow> string \<Rightarrow> RecordFact list" where
  "obliged obs i f = map snd (filter (\<lambda>ob. fst ob = i \<and> rdTargetField (snd ob) = f) obs)"

definition slotFor :: "RecordFact list \<Rightarrow> RecordIntSlot option" where
  "slotFor rs = (case rs of [] \<Rightarrow> None | r # _ \<Rightarrow> Some \<lparr>slotCls = rdCls r, paths = foldl setAdd [] (map rdPath rs)\<rparr>)"

definition consistent :: "(string \<times> RecordFact) list \<Rightarrow> bool" where
  "consistent obs = (\<forall>i f. \<forall>r\<in>set (obliged obs i f). \<forall>r'\<in>set (obliged obs i f). rdCls r = rdCls r')"

lemma obliged_snoc: "obliged (obs @ [(i, r)]) j f = obliged obs j f @ (if j = i \<and> f = rdTargetField r then [r] else [])"
  by (auto simp: obliged_def)

lemma slotFor_snoc: "slotFor (rs @ [r]) = Some (case slotFor rs of None \<Rightarrow> \<lparr>slotCls = rdCls r, paths = [rdPath r]\<rparr>
  | Some x \<Rightarrow> x\<lparr>paths := setAdd (paths x) (rdPath r)\<rparr>)"
  by (cases rs) (simp_all add: slotFor_def setAdd_def)

lemma consistent_snoc: "consistent (obs @ [(i, r)]) \<longleftrightarrow> consistent obs \<and> (\<forall>r'\<in>set (obliged obs i (rdTargetField r)). rdCls r' = rdCls r)"
proof
  assume c: "consistent (obs @ [(i, r)])"
  have "rdCls x = rdCls y" if "x \<in> set (obliged obs j f)" "y \<in> set (obliged obs j f)" for j f x y
    using c [unfolded consistent_def, rule_format, of x j f y] that by (simp add: obliged_snoc)
  moreover have "rdCls x = rdCls r" if "x \<in> set (obliged obs i (rdTargetField r))" for x
    using c [unfolded consistent_def, rule_format, of x i "rdTargetField r" r] that by (simp add: obliged_snoc)
  ultimately show "consistent obs \<and> (\<forall>r'\<in>set (obliged obs i (rdTargetField r)). rdCls r' = rdCls r)" unfolding consistent_def by blast
next
  assume c: "consistent obs \<and> (\<forall>r'\<in>set (obliged obs i (rdTargetField r)). rdCls r' = rdCls r)"
  have "rdCls x = rdCls y" if x: "x \<in> set (obliged (obs @ [(i, r)]) j f)" and y: "y \<in> set (obliged (obs @ [(i, r)]) j f)" for j f x y
  proof (cases "j = i \<and> f = rdTargetField r")
    case True
    have "rdCls z = rdCls r" if "z \<in> set (obliged (obs @ [(i, r)]) j f)" for z using c that True by (auto simp: obliged_snoc)
    from this [OF x] this [OF y] show ?thesis by simp
  next
    case False
    then have "x \<in> set (obliged obs j f)" "y \<in> set (obliged obs j f)" using x y by (auto simp: obliged_snoc)
    then show ?thesis using c unfolding consistent_def by blast
  qed
  then show "consistent (obs @ [(i, r)])" unfolding consistent_def by blast
qed

lemma foldD_oblige:
  "if consistent obs then \<exists>recs. foldD oblige [] obs = Inr recs \<and> (\<forall>i f. lookupSlot recs i f = slotFor (obliged obs i f))
   else \<exists>d. foldD oblige [] obs = Inl d"
proof (induction obs rule: rev_induct)
  case Nil
  show ?case by (simp add: consistent_def obliged_def lookupSlot_def slotFor_def)
next
  case (snoc ob obs)
  obtain i r where ob: "ob = (i, r)" by (cases ob)
  show ?case
  proof (cases "consistent obs")
    case True
    with snoc obtain recs where recs: "foldD oblige [] obs = Inr recs" "\<And>i f. lookupSlot recs i f = slotFor (obliged obs i f)" by auto
    have clash: "(\<exists>d. oblige recs (i, r) = Inl d) \<longleftrightarrow> \<not> consistent (obs @ [ob])"
    proof (cases "obliged obs i (rdTargetField r)")
      case (Cons x xs)
      have "\<forall>y\<in>set (x # xs). rdCls y = rdCls x" using True Cons unfolding consistent_def by (metis list.set_intros(1))
      then show ?thesis using True Cons unfolding oblige_Inl recs(2) ob consistent_snoc by (auto simp: slotFor_def)
    qed (use True in \<open>simp add: oblige_Inl recs(2) ob consistent_snoc slotFor_def\<close>)
    show ?thesis
    proof (cases "oblige recs (i, r)")
      case (Inl d)
      then show ?thesis using clash recs(1) ob by (auto simp: foldD_append)
    next
      case (Inr recs')
      have "lookupSlot recs' j f = slotFor (obliged (obs @ [ob]) j f)" for j f
        unfolding oblige_Inr [OF Inr] recs(2) ob obliged_snoc by (simp add: slotFor_snoc)
      then show ?thesis using clash Inr recs(1) ob by (auto simp: foldD_append)
    qed
  next
    case False
    then have "\<not> consistent (obs @ [ob])" by (simp add: ob consistent_snoc)
    then show ?thesis using False snoc by (auto simp: foldD_append)
  qed
qed

end
