(* ===== verification/LibContract.thy ===== *)
theory LibContract
  imports SectionSound SlotMerge
begin

text \<open>
  The contracts of library mode's configuration: what a loaded profile guarantees, when its export
  map resolves and what the section carries, which IR shapes a sidecar record describes, and which
  integer slots the inference is asked to prove.
\<close>

section \<open>An example profile\<close>

definition demoLibJson :: json where
  "demoLibJson = JObj [(''profile_format'', JNum (Fin 1)), (''name'', JStr ''demo''), (''entry'', JStr ''m.ts''), (''emission'', JStr ''c''),
     (''abi'', JObj [(''prefix'', JStr ''d_''), (''init_symbol'', JStr ''d_i''), (''sink_register_symbol'', JStr ''d_s''), (''callback_register_symbol'', JStr ''d_r'')]),
     (''exports'', JArr [JObj [(''export'', JStr ''f''), (''symbol'', JStr ''d_f''), (''params'', JArr [JStr ''bytes'', JStr ''i64'']), (''returns'', JStr ''u64'')]]),
     (''callbacks'', JArr [JObj [(''name'', JStr ''c''), (''params'', JArr [JStr ''bytes'']), (''returns'', JStr ''void'')]]),
     (''determinism'', JObj [(''teachings'', JObj [(''SC4012'', JStr ''t'')])])]"

definition demoExport :: LibraryExportEntry where
  "demoExport = \<lparr>leExport = ''f'', leSymbol = ''d_f'', leParams = [''bytes'', ''i64''], leReturns = ''u64''\<rparr>"

definition demoLib :: "json LibraryProfile" where
  "demoLib = \<lparr>lpName = ''demo'', profilePath = ''p.json'', lpEntry = ''m.ts'', emission = ''c'', optimization = ''release'', lpPrefix = ''d_'',
     initSymbol = ''d_i'', sinkRegisterSymbol = ''d_s'', collectSymbol = None, resultResetSymbol = None, localizeRuntime = False,
     instancePerThread = False, callbackRegisterSymbol = Some ''d_r'',
     lpCallbacks = [\<lparr>lcbName = ''c'', lcbParams = [''bytes''], lcbReturns = ''void''\<rparr>], lpExports = [demoExport], lpSidecar = None,
     profileBytes = demoLibJson, lpTeachings = [(''SC4012'', ''t'')], lpRemediations = [], lpFences = []\<rparr>"

lemmas loader_defs = loadLibraryProfile_def validateProfile_def checkFormat_def reqNumber_def reqString_def reqBoolean_def req_def
  checkRootKey_def ROOT_KEYS_def readEmission_def readOptimization_def loadAbi_def objectAt_def rejectUnknownKeysP_def ABI_KEYS_def
  symbolField_def symbolFieldOpt_def flagField_def loadExport_def exportParam_def exportReturns_def arrayField_def LIB_PARAM_CLASSES_def
  LIB_RETURN_CLASSES_def loadCallbacks_def loadCallback_def callbackParamClass_def callbackReturns_def LIB_CALLBACK_PARAM_CLASSES_def
  LIB_CALLBACK_RETURN_CLASSES_def LIB_MAX_CALLBACKS_def checkPairing_def checkChannelNames_def seeChannel_def loadSidecar_def claim_def
  abiClaims_def sidecarClaims_def exportClaims_def seeExport_def loadDeterminism_def readRider_def riderEntry_def checkRiderText_def
  RESERVED_KEY_def RESERVED_TEXT_def utf8Length_def assignKey_def loadFences_def forE_def guardE_def jm_keys_def setAdd_def Let_def js_eval
  C_IDENT_def isAlnum_def isAlpha_def isDigit_def

lemma demo_lib_loads:
  "loadLibraryProfile demoTables (\<lambda>_. Inr demoLibJson) Inr (\<lambda>s. startsWith s ''/'') (\<lambda>_ e. e) ''p.json'' = Inr demoLib"
  by (simp add: loader_defs demoLibJson_def demoLib_def demoExport_def)

definition demoLibModule :: json where
  "demoLibModule = JObj [(''functions'', JArr [JObj [(''name'', JStr ''f''), (''params'', JArr [
       JObj [(''name'', JStr ''b''), (''type'', JObj [(''kind'', JStr ''bytes''), (''elem'', JStr ''u8'')])],
       JObj [(''name'', JStr ''n''), (''type'', JObj [(''kind'', JStr ''f64'')])]]), (''returnType'', JObj [(''kind'', JStr ''f64'')])]]),
     (''records'', JArr [JObj [(''id'', JStr ''r0''), (''fields'', JArr [JObj [(''name'', JStr ''x''), (''type'', JObj [(''kind'', JStr ''f64'')])]])]])]"

definition demoInfo :: "(string, EntryExportInfo) jsmap" where
  "demoInfo = [(''f'', \<lparr>eiLoc = JNull, eiGeneric = False, eiAsync = False, eiGenerator = False\<rparr>)]"

definition demoFacts :: SidecarIntegerSlotFacts where
  "demoFacts = \<lparr>helperFacts = [\<lparr>hfFnName = ''h'', hfSlot = HelperParam 1, hfCls = U64, hfPath = ''helpers.h.params[0]''\<rparr>],
     recordFacts = [\<lparr>rdShape = ([(''x'', PScalar ''f64'')], False), rdTargetField = ''x'', rdCls = I64, rdPath = ''P.x'', rdLoc = JNull\<rparr>]\<rparr>"

section \<open>Contracts\<close>

lemma loadLibraryProfile_ok:
  assumes "loadLibraryProfile T readFile parseJson isAbsolute resolveFrom ppath = Inr p"
  obtains bytes raw where "readFile ppath = Inr bytes" "parseJson bytes = Inr raw" "strictKeys raw" "profileOk isAbsolute p"
proof -
  from assms obtain bytes raw where "readFile ppath = Inr bytes" "parseJson bytes = Inr raw"
    "validateProfile T isAbsolute resolveFrom ppath bytes raw = Inr p"
    by (auto simp: loadLibraryProfile_def Let_def split: sum.splits)
  with validateProfile_ok [OF this(3)] that show ?thesis by blast
qed


text \<open>C38. For a loaded profile, resolution against the entry's declarations and the IR does not throw. It
  returns a section exactly when every mapped export names a synchronous, non-generic exported function that
  was lowered with parameter and return types fitting the declared classes; otherwise it returns a diagnostic
  for each export that does not. The section lists the exports in order, and the inbound traps, present
  exactly for bytes or integer parameters, parse as structured messages with the profile's teaching or the
  default text, the code SC4012, the export's own symbol and the profile's remediation.\<close>

theorem library_section_exact:
  assumes "loadLibraryProfile T readFile parseJson isAbsolute resolveFrom ppath = Inr p"
  shows "if list_all (exportFits info md) (lpExports p)
    then \<exists>xs. resolveLibrarySection p info md entryPath = Inr (Inr (librarySection p xs)) \<and> list_all2 (exportCarries p) (lpExports p) xs
    else \<exists>d ds. concat (map (exportDiags info (functionsByName md) (fileLoc entryPath)) (lpExports p)) = d # ds \<and>
      resolveLibrarySection p info md entryPath = Inr (Inl (d # ds))"
  using loadLibraryProfile_ok [OF assms] resolveLibrarySection_cases by metis

theorem library_section_exact_witness:
  "\<exists>xs. resolveLibrarySection demoLib demoInfo demoLibModule ''m.ts'' = Inr (Inr (librarySection demoLib xs)) \<and>
     list_all2 (exportCarries demoLib) [demoExport] xs"
proof -
  have "list_all (exportFits demoInfo demoLibModule) (lpExports demoLib)"
    by (simp add: demoLib_def demoExport_def exportFits_def demoInfo_def functionsByName_def demoLibModule_def mapOf_def sfld_def libClassFits_def kindOf_def)
  moreover have "lpExports demoLib = [demoExport]" by (simp add: demoLib_def)
  ultimately show ?thesis using library_section_exact [OF demo_lib_loads, of demoInfo demoLibModule "''m.ts''"] by simp
qed

text \<open>C39. The matcher that joins sidecar records to IR shapes is the relation \<open>fits\<close>: it follows the pattern's
  structure through the module's shapes and unions, and accepts a union exactly when some permutation of the
  IR's arms fits the pattern's arms one by one, so the backtracking search neither misses a pairing nor uses
  an arm twice.\<close>

theorem record_matcher_exact:
  "sidecarRecordMatcher md (fs, omit) shape = fitsShape md fs omit shape \<and> typeMatches md p t = fits md p t \<and>
   unionMatches ms arms = (\<exists>perm. mset perm = mset arms \<and> list_all2 (\<lambda>m a. m a) ms perm)"
  by (simp add: sidecarRecordMatcher_fits typeMatches_fits unionMatches_iff)

text \<open>C40. The slots of a library build. Merging the sidecar's facts into the export map's configuration refuses
  exactly when two facts of different classes oblige the same field of one IR shape. Otherwise each parameter
  and return has the class and path of its last sidecar fact, or else of the export map; parameters of the
  plumbing classes keep their seeds; and a record field has the class of the facts that oblige it, with
  all their paths once.\<close>

theorem int_slots_exact:
  assumes "loadLibraryProfile T readFile parseJson isAbsolute resolveFrom ppath = Inr p"
  shows "if consistent (obligations md (recordFacts facts))
    then \<exists>cfg. mergeSidecarIntSlots (libraryIntSlotConfig p) facts md = Inr cfg \<and>
      (\<forall>f sl. slotOf cfg f sl = mergedSlot (helperFacts facts) f sl (declaredSlot (lpExports p) f sl)) \<and>
      (\<forall>f i. seedOf cfg f i = declaredSeed (lpExports p) f i) \<and>
      (\<forall>i f. lookupSlot (records cfg) i f = slotFor (obliged (obligations md (recordFacts facts)) i f))
    else \<exists>d. mergeSidecarIntSlots (libraryIntSlotConfig p) facts md = Inl d"
proof -
  let ?cfg = "foldl (mergeHelper md) (libraryIntSlotConfig p) (helperFacts facts)"
  have "profileOk isAbsolute p" using loadLibraryProfile_ok [OF assms] by blast
  then have d: "distinct (map leExport (lpExports p))" by (simp add: profileOk_def)
  have slots: "slotOf (?cfg\<lparr>records := recs\<rparr>) f sl = mergedSlot (helperFacts facts) f sl (declaredSlot (lpExports p) f sl)" for recs f sl
    using mergeHelpers_slotOf [of md "libraryIntSlotConfig p" "helperFacts facts" f sl] config_slotOf(1) [OF d] by (simp add: slotOf_def)
  have seeds: "seedOf (?cfg\<lparr>records := recs\<rparr>) f i = declaredSeed (lpExports p) f i" for recs f i
    using mergeHelpers_seedOf [of md "libraryIntSlotConfig p" "helperFacts facts" f i] config_slotOf(2) [OF d] by (simp add: seedOf_def)
  have merge: "mergeSidecarIntSlots (libraryIntSlotConfig p) facts md =
      (case foldD oblige [] (obligations md (recordFacts facts)) of Inl d \<Rightarrow> Inl d | Inr recs \<Rightarrow> Inr (?cfg\<lparr>records := recs\<rparr>))"
    by (simp add: mergeSidecarIntSlots_def Let_def mergeHelper_records config_records mergeRecords_oblige)
  show ?thesis
  proof (cases "consistent (obligations md (recordFacts facts))")
    case True
    with foldD_oblige [of "obligations md (recordFacts facts)"] obtain recs where recs:
      "foldD oblige [] (obligations md (recordFacts facts)) = Inr recs"
      "\<forall>i f. lookupSlot recs i f = slotFor (obliged (obligations md (recordFacts facts)) i f)" by auto
    then show ?thesis using True slots seeds by (simp add: merge)
  next
    case False
    with foldD_oblige [of "obligations md (recordFacts facts)"] show ?thesis by (auto simp: merge)
  qed
qed

theorem int_slots_exact_witness:
  "\<exists>cfg. mergeSidecarIntSlots (libraryIntSlotConfig demoLib) demoFacts demoLibModule = Inr cfg \<and>
     slotOf cfg ''f'' HelperReturn = Some (U64, Some ''exports.f.return'') \<and> slotOf cfg ''h'' (HelperParam 1) = Some (U64, Some ''helpers.h.params[0]'') \<and>
     lookupSlot (records cfg) ''r0'' ''x'' = Some \<lparr>slotCls = I64, paths = [''P.x'']\<rparr>"
proof -
  have obs: "obligations demoLibModule (recordFacts demoFacts) = [(''r0'', hd (recordFacts demoFacts))]"
    by (simp add: obligations_def demoFacts_def demoLibModule_def bindsShape_def sidecarRecordMatcher_def recordMatches_def variantMatches_def
        fieldNamed_def kindOf_def numberCarrierKind_def sfld_def)
  have "consistent (obligations demoLibModule (recordFacts demoFacts))" unfolding obs by (simp add: consistent_def obliged_def)
  from int_slots_exact [OF demo_lib_loads, of demoLibModule demoFacts, unfolded if_P [OF this]]
  obtain cfg where cfg: "mergeSidecarIntSlots (libraryIntSlotConfig demoLib) demoFacts demoLibModule = Inr cfg"
    "\<And>f sl. slotOf cfg f sl = mergedSlot (helperFacts demoFacts) f sl (declaredSlot (lpExports demoLib) f sl)"
    "\<And>i f. lookupSlot (records cfg) i f = slotFor (obliged [(''r0'', hd (recordFacts demoFacts))] i f)" unfolding obs by blast
  have "slotOf cfg ''f'' HelperReturn = Some (U64, Some ''exports.f.return'')" "slotOf cfg ''h'' (HelperParam 1) = Some (U64, Some ''helpers.h.params[0]'')"
    by (simp_all add: cfg(2) mergedSlot_def demoFacts_def declaredSlot_def demoLib_def demoExport_def classAt_def intClassOf_def slotPath_def)
  moreover have "lookupSlot (records cfg) ''r0'' ''x'' = Some \<lparr>slotCls = I64, paths = [''P.x'']\<rparr>"
    by (simp add: cfg(3) obliged_def slotFor_def demoFacts_def setAdd_def)
  ultimately show ?thesis using cfg(1) by blast
qed

end
