(* ===== verification/Spec2Isabelle.thy ===== *)
theory Spec2Isabelle
  imports IntInferSound InterpSound MayThrowSound IntRangesSound LinkSound FfiCallbacks Identity ScopeResolve MangleSound TargetsSound SidecarContract LibContract
begin

text \<open>
  Verification library of scriptc, a compiler from TypeScript to native code
  (\<^verbatim>\<open>packages/compiler/src\<close>).

  \<^bold>\<open>The program.\<close> The front end type-checks a program and lowers it to an IR module, a tree of
  plain objects (\<^verbatim>\<open>ir/ir.ts\<close>). Predicates over that tree decide which runtime units a module needs
  and whether a target or the library mode can carry it; a link recipe turns them into sources,
  libraries and flags; emitters print the module as C, LLVM or Rust under mangled names. A library
  build is configured by a profile: it maps exports to C symbols, may fence surfaces, and proves that
  every number crossing an integer slot of the foreign interface is a safe integer; it emits a
  sidecar document that describes the interface, checks that document, and stamps the artifact with
  hashes of its inputs. The development follows these parts.

  \<^bold>\<open>Layout.\<close> \<open>Prelude\<close> has string, list and association-map lemmas (a \<^verbatim>\<open>Map\<close> is an
  insertion-ordered association list, \<open>jmap\<close>, with the interpretation of the map contract).
  \<open>ErrorMonad\<close> has code that throws as a sum. \<open>Json\<close> has the trees every pass reads: property
  access, array access, \<^verbatim>\<open>JSON.stringify\<close>. \<open>JsNumber\<close> has IEEE-754 doubles as the reals they denote
  plus signed zero, the infinities and NaN, with rounding as a relation to the nearest
  double, the operators and the comparisons; \<open>JsText\<close> the decimal spelling of integers;
  \<open>Corners\<close> the monotonicity that interval products and quotients use.

  \<^bold>\<open>Integer inference\<close> (\<^verbatim>\<open>library/int-infer.ts\<close>). \<open>AbsDomain\<close> is the value domain: \<^verbatim>\<open>AbsVal\<close>, joins,
  widening, the transfer function of each operator, refinement by a comparison and the check at a
  slot. \<open>AbsSound\<close> gives an abstract value its set of doubles and shows that each operation
  over-approximates the double operation, that a chain of widenings is short, and that a slot
  marked as proved only sees safe integers of its class; two theorems exhibit the quotients for
  which the code's bounds are wrong. \<open>IntEnv\<close> has the environments and the slot configuration,
  \<open>GlobalEffects\<close> the call-graph closure of written globals (equal to reachability),
  \<open>PureEval\<close> and \<open>PureSound\<close> pure expressions and branch conditions against a concrete evaluation
  relation, \<open>IntInfer\<close> the interpreter with its loop frames and its entry point, \<open>IntInferSound\<close>
  the soundness of evaluation, refinement, calls and exception edges, \<open>InterpSound\<close> what every run of the
  interpreter keeps of its frames, its recording flag and its verdicts. The two dispatches on a
  node's kind go through the enumerations \<open>ExprTag\<close> and \<open>StmtTag\<close>, one value per case of the code.
  The interpreter recurses on the size of the node; a loop header is visited at most
  \<^verbatim>\<open>LOOP_CAP\<close> = 64 times, as in the code, which widens after \<^verbatim>\<open>WIDEN_AFTER\<close> = 3 visits, so no fuel is added. Exponentiation is the engine's and an
  argument with the laws the code relies on (\<open>pow_laws\<close>).

  \<^bold>\<open>Surfaces, gates and linking.\<close> \<open>IrWalk\<close> is the walk that the predicates repeat, with the locale
  \<open>preorder_scan\<close> for its three variants. \<open>LinkSwitches\<close> has the \<^verbatim>\<open>moduleUses...\<close> predicates of
  \<^verbatim>\<open>ir/ir.ts\<close>, \<open>LibGates\<close> the async-free gate, the determinism attestation and the WASI gate
  (\<^verbatim>\<open>backend/wasi-surface.ts\<close>), \<open>LinkInfo\<close> the recipe and the link document
  (\<^verbatim>\<open>backend/native-link-info.ts\<close>, \<^verbatim>\<open>native-emission.ts\<close>). \<open>LinkSound\<close> shows that a switch is on exactly
  when a node of its family occurs, that the linked units are closed under their references, and
  that the gates and the recipe agree, up to the calls listed there for which they do not.
  \<open>Targets\<close> and \<open>TargetsSound\<close> have the target table of \<^verbatim>\<open>backend/targets.ts\<close>, its linker flags and the
  selection of a target for a host.

  \<^bold>\<open>Exceptions.\<close> \<open>MayThrow\<close> is \<^verbatim>\<open>backend/c/may-throw.ts\<close> with the tables of throwing operations of the IR:
  the walk that collects the facts of each function and the loop that closes them over the
  call graph. \<open>MayThrowSound\<close> proves it equal to the least solution of a mutually inductive
  specification; the locale \<open>accumulating\<close> carries the folds. The search along class bases is a
  partial function, shown to return on every acyclic hierarchy.

  \<^bold>\<open>Integer ranges.\<close> \<open>IntRanges\<close> is \<^verbatim>\<open>ir/integer-ranges.ts\<close>, the straight-line analysis that lets the native
  emitters hold a number in an integer. An expression object is named by a parameter from its path, so
  that one object may occur twice. \<open>IntRangesSound\<close> has a big-step relation in which every part the
  analysis skips may do anything, and shows by rule induction over it that an observed value lies in
  the range of its object.

  \<^bold>\<open>Native FFI.\<close> \<open>FfiManifest\<close> is the validator of \<^verbatim>\<open>ffi/ffi-manifest.ts\<close>, \<open>FfiSound\<close> the contract of an
  accepted profile and the compatibility of manifest formats, \<open>FfiCallbacks\<close> the symbol
  allocation and the walk over retained callbacks of \<^verbatim>\<open>backend/ffi-callbacks.ts\<close>, whose internal
  error branches are unreachable for an accepted profile. Reading the file, \<^verbatim>\<open>JSON.parse\<close>, path
  resolution and the file test are arguments.

  \<^bold>\<open>Library mode.\<close> \<open>Diagnostics\<close> has the records of \<^verbatim>\<open>diagnostics/diagnostic.ts\<close> that library mode
  constructs. \<open>LibProfile\<close> is the loader of \<^verbatim>\<open>library/library-profile.ts\<close>, \<open>LibProfileSound\<close> the contract
  of a loaded profile. \<open>FenceEval\<close> is \<^verbatim>\<open>library/fence-eval.ts\<close>: the taxonomy, the resolution of fences, their
  evaluation over the compiled module and the teaching rider; \<open>FenceSound\<close> shows that an accepted
  fence is never inert and that evaluation reports exactly the reached surfaces. \<open>TrapTeaching\<close> is
  the framing of trap messages (\<^verbatim>\<open>library/trap-teaching.ts\<close>) with its reader. \<open>SectionResolve\<close> is
  \<^verbatim>\<open>library/section-resolution.ts\<close>: exports against the IR, declared integer slots, the structural
  matcher and the slot merge; \<open>SectionSound\<close> and \<open>SlotMerge\<close> prove them against direct
  specifications, and \<open>LibContract\<close> composes them with the loader. \<open>SidecarGraph\<close>, \<open>SidecarRules\<close>,
  \<open>SidecarSound\<close> and \<open>SidecarContract\<close> are \<^verbatim>\<open>library/sidecar-validate.ts\<close>: each rule is a step on a
  record of the closures' shared state; the locales \<open>quiet_step\<close> and \<open>growing_step\<close> carry what every
  step keeps, and the contract says what a document without violations satisfies. The surface
  manifest and lowering tables, the file system and \<^verbatim>\<open>JSON.parse\<close> are arguments.

  \<^bold>\<open>Identity.\<close> \<open>Wyhash\<close> is \<^verbatim>\<open>library/wyhash.ts\<close> over integers with the code's masks; \<open>WyhashSound\<close> its
  equality with a reference on 64-bit words, the framing and the rendering. \<open>Identity\<close> is the
  module graph and the two hashes of \<^verbatim>\<open>library/sidecar.ts\<close>; the functions of \<^verbatim>\<open>node:path\<close> and the
  text encoder are arguments.

  \<^bold>\<open>Lowering environment and names.\<close> \<open>ScopeEnv\<close> is \<^verbatim>\<open>frontend/lowering/scope-env.ts\<close> over an explicit
  store, because contexts, scopes and locals are shared objects. \<open>ScopeSound\<close> shows that frames
  are restored on every path and that the store stays well formed under any program of
  operations, \<open>ScopeResolve\<close> what identifier resolution finds, threads and refuses. The hook that
  predeclares a binding is an argument. A message text that has a typographic dash in the source
  has an ASCII hyphen here. \<open>Mangle\<close> and \<open>MangleSound\<close> have the symbol names of \<^verbatim>\<open>backend/mangle.ts\<close> over
  UTF-16 code units: the name spaces are disjoint, names can be read back when they do not contain the
  escape itself, and two names that do collide.

  \<^bold>\<open>Not modelled.\<close> Lowering proper (\<^verbatim>\<open>frontend/lowering/lower-*.ts\<close>), the type mapper and program
  loading are written against the symbol and type objects of the TypeScript checker, a package
  that is not in the repository; of that layer only the lexical environment is self-contained.
  The emitters (\<^verbatim>\<open>backend/c\<close>, \<^verbatim>\<open>backend/llvm\<close>, \<^verbatim>\<open>backend/rust\<close>) print text whose meaning is that of a C,
  LLVM or Rust toolchain; of them the symbol names and the callback tables are here. The IR
  validator, the object rewriting of localised archives, the caches and the compatibility
  profiles are still to be modelled; the projection of a sidecar document from declarations
  (\<^verbatim>\<open>library/sidecar.ts\<close>) works on checker types. Toolchain invocation, runtime packs, archives and
  the command line run processes and touch files. The runtimes are C and Rust.
\<close>

end
